(* ===== verification/Resource_Model.thy ===== *)
theory Resource_Model
  imports Prelude
begin

text \<open>
  The data every component works on, from \<^verbatim>\<open>resource/object.go\<close>, \<^verbatim>\<open>resource/client.go\<close> and
  \<^verbatim>\<open>operator/errors.go\<close>: identifiers and metadata, the part of \<^verbatim>\<open>resource.Object\<close> that the
  operator code reads, RFC 6902 patch requests, Go errors as values, and the world that the
  stateful operations thread: the objects behind the pointers, the clock, everything outside
  the SDK (API server, user handlers) as a type parameter, and a ghost trace of the calls that
  leave the SDK.
\<close>

section \<open>Metadata and objects\<close>

text \<open>Times and durations are \<^verbatim>\<open>time.Time\<close> and \<^verbatim>\<open>time.Duration\<close> in nanoseconds.\<close>

type_synonym time = int
type_synonym duration = int

record resource_id =
  id_Namespace :: string
  id_Name :: string

record static_metadata =
  sm_Group :: string
  sm_Version :: string
  sm_Kind :: string
  sm_Namespace :: string
  sm_Name :: string

definition Identifier :: "static_metadata \<Rightarrow> resource_id" where
  "Identifier s = \<lparr>id_Namespace = sm_Namespace s, id_Name = sm_Name s\<rparr>"

text \<open>
  The view of a \<^verbatim>\<open>resource.Object\<close> through the accessors the operator uses. A nil
  \<^verbatim>\<open>[]string\<close> or \<^verbatim>\<open>*metav1.Time\<close> is \<open>None\<close>; the spec is opaque.
\<close>

record object =
  o_Group :: string
  o_Version :: string
  o_Kind :: string
  o_Namespace :: string
  o_Name :: string
  o_ResourceVersion :: string
  o_Generation :: int
  o_DeletionTimestamp :: "time option"
  o_Finalizers :: "string list option"
  o_Spec :: string

definition GetStaticMetadata :: "object \<Rightarrow> static_metadata" where
  "GetStaticMetadata ob =
     \<lparr>sm_Group = o_Group ob, sm_Version = o_Version ob, sm_Kind = o_Kind ob,
      sm_Namespace = o_Namespace ob, sm_Name = o_Name ob\<rparr>"

text \<open>The finalizer list as every reader of it sees it: a nil slice has no elements.\<close>

abbreviation finalizers_of :: "object \<Rightarrow> string list" where
  "finalizers_of ob \<equiv> slice (o_Finalizers ob)"

text \<open>The prefix of the annotations that hold the SDK's own metadata, from \<^verbatim>\<open>k8s/gvclient.go\<close>.\<close>

definition AnnotationPrefix :: string where
  "AnnotationPrefix = ''grafana.com/''"

section \<open>Patch requests\<close>

datatype PatchOp = PatchOpAdd | PatchOpRemove | PatchOpReplace | PatchOpMove | PatchOpCopy | PatchOpTest

text \<open>The dynamic types the SDK stores in the \<^verbatim>\<open>any\<close> of a patch operation's value.\<close>

datatype patch_value = PVString string | PVStrings "string list"

record patch_operation =
  po_Path :: string
  po_Operation :: PatchOp
  po_Value :: patch_value

record patch_request =
  pr_Operations :: "patch_operation list"

section \<open>Errors\<close>

text \<open>
  \<^verbatim>\<open>GoErr\<close> is \<^verbatim>\<open>errors.New\<close> or a \<^verbatim>\<open>fmt.Errorf\<close> without \<^verbatim>\<open>%w\<close>, \<open>Wrapped\<close> one with it,
  \<open>WrappedBoth\<close> one with two of them (which \<^verbatim>\<open>errors.Unwrap\<close> does not follow),
  \<open>FinalizerOperationError\<close> and \<open>CannotCastError\<close> are the types of \<^verbatim>\<open>operator/errors.go\<close>,
  \<open>ServerResponseError\<close> is the one of \<^verbatim>\<open>k8s/errors.go\<close> with its status code, and
  \<open>External\<close> is an error value made outside the SDK, known by a code and a message.
\<close>

datatype go_error =
    GoErr string
  | Wrapped string go_error
  | WrappedBoth string go_error go_error
  | FinalizerOperationError go_error patch_request
  | CannotCastError static_metadata
  | ServerResponseError go_error int
  | External nat string

definition NewFinalizerOperationError :: "go_error \<Rightarrow> patch_request \<Rightarrow> go_error" where
  "NewFinalizerOperationError e req = FinalizerOperationError e req"

definition NewCannotCastError :: "static_metadata \<Rightarrow> go_error" where
  "NewCannotCastError meta = CannotCastError meta"

text \<open>The chain that \<^verbatim>\<open>errors.Unwrap\<close> walks.\<close>

fun Unwrap :: "go_error \<Rightarrow> go_error option" where
  "Unwrap (Wrapped m e) = Some e"
| "Unwrap (FinalizerOperationError e req) = Some e"
| "Unwrap (ServerResponseError e code) = Some e"
| "Unwrap e = None"

section \<open>The world\<close>

type_synonym ptr = nat

text \<open>Which user callback a handler event stands for.\<close>

datatype ReconcileAction =
    ReconcileActionUnknown
  | ReconcileActionCreated
  | ReconcileActionUpdated
  | ReconcileActionDeleted
  | ReconcileActionResynced

datatype handler = HAdd | HUpdate | HDelete | HSync | HReconcile ReconcileAction

datatype event =
    EvPatch ptr patch_request "go_error option"
  | EvGet ptr "go_error option"
  | EvHandler handler ptr "go_error option"

record 'u world =
  w_objs :: "ptr \<Rightarrow> object"
  w_now :: time
  w_trace :: "event list"
  w_ext :: 'u

type_synonym ('u, 'a) io = "('u world, 'a) state"

definition deref :: "ptr \<Rightarrow> ('u, object) io" where
  "deref p = State (\<lambda>w. (w_objs w p, w))"

definition emit :: "event \<Rightarrow> ('u, unit) io" where
  "emit e = State (\<lambda>w. ((), w\<lparr>w_trace := w_trace w @ [e]\<rparr>))"

definition now :: "('u, time) io" where
  "now = State (\<lambda>w. (w_now w, w))"

lemma run_deref [simp]: "run_state (deref p) w = (w_objs w p, w)"
  by (simp add: deref_def)

lemma run_emit [simp]: "run_state (emit e) w = ((), w\<lparr>w_trace := w_trace w @ [e]\<rparr>)"
  by (simp add: emit_def)

lemma run_now [simp]: "run_state now w = (w_now w, w)"
  by (simp add: now_def)

section \<open>Schemas\<close>

record schema =
  sch_Group :: string
  sch_Version :: string
  sch_Kind :: string
  sch_Plural :: string

text \<open>The scopes of a kind, the label with its version, and an identifier with everything in it.\<close>

definition NamespacedScope :: string where
  "NamespacedScope = ''Namespaced''"

definition ClusterScope :: string where
  "ClusterScope = ''Cluster''"

definition versionLabel :: string where
  "versionLabel = ''grafana-app-sdk-resource-version''"

record FullIdentifier =
  fi_Namespace :: string
  fi_Name :: string
  fi_Group :: string
  fi_Version :: string
  fi_Kind :: string
  fi_Plural :: string

section \<open>Options of client calls\<close>

record ListOptions =
  lo_ResourceVersion :: string
  lo_LabelFilters :: "string list"
  lo_FieldSelectors :: "string list"
  lo_Limit :: int
  lo_Continue :: string

record WatchOptions =
  wo_ResourceVersion :: string
  wo_ResourceVersionMatch :: string
  wo_EventBufferSize :: int
  wo_LabelFilters :: "string list"
  wo_FieldSelectors :: "string list"
  wo_AllowWatchBookmarks :: bool
  wo_TimeoutSeconds :: "int option"
  wo_SendInitialEvents :: "bool option"

record UpdateOptions =
  uo_ResourceVersion :: string
  uo_Subresource :: string
  uo_DryRun :: bool

abbreviation no_UpdateOptions :: UpdateOptions where
  "no_UpdateOptions \<equiv> \<lparr>uo_ResourceVersion = [], uo_Subresource = [], uo_DryRun = False\<rparr>"

section \<open>Watchers\<close>

text \<open>\<^verbatim>\<open>operator.ResourceWatcher\<close>; a nil object is \<open>None\<close>.\<close>

record 'u ResourceWatcher =
  rw_Add :: "ptr option \<Rightarrow> ('u, go_error option) io"
  rw_Update :: "ptr option \<Rightarrow> ptr option \<Rightarrow> ('u, go_error option) io"
  rw_Delete :: "ptr option \<Rightarrow> ('u, go_error option) io"

end
