(* ===== verification/Finalizers.thy ===== *)
theory Finalizers
  imports Resource_Model
begin

text \<open>
  \<^verbatim>\<open>operator/finalizers.go\<close>: the \<open>finalizerUpdater\<close>, which adds, replaces and removes entries of an
  object's finalizer list with JSON patches guarded by the object's resource version, and
  repeats an operation up to three times when the API server reports a conflict.

  The \<open>PatchClient\<close> (the API server behind it) and \<^verbatim>\<open>apierrors.IsConflict\<close> are parameters.
  The pauses between attempts (\<^verbatim>\<open>time.Sleep\<close> with \<^verbatim>\<open>jitter\<close>) have no effect the model can see.
\<close>

section \<open>The client\<close>

text \<open>
  A call takes the object the pointer refers to and returns the error, the object the response
  was marshalled into, and the new state of the world outside.
\<close>

record 'u PatchClient =
  PatchInto :: "resource_id \<Rightarrow> patch_request \<Rightarrow> object \<Rightarrow> 'u \<Rightarrow> (go_error option \<times> object) \<times> 'u"
  GetInto :: "resource_id \<Rightarrow> object \<Rightarrow> 'u \<Rightarrow> (go_error option \<times> object) \<times> 'u"

definition patch_into :: "'u PatchClient \<Rightarrow> ptr \<Rightarrow> patch_request \<Rightarrow> ('u, go_error option) io" where
  "patch_into c p req = State (\<lambda>w.
     let ob = w_objs w p;
         r = PatchInto c (Identifier (GetStaticMetadata ob)) req ob (w_ext w);
         err = fst (fst r)
     in (err, w\<lparr>w_objs := (w_objs w)(p := snd (fst r)), w_ext := snd r,
               w_trace := w_trace w @ [EvPatch p req err]\<rparr>))"

definition get_into :: "'u PatchClient \<Rightarrow> ptr \<Rightarrow> ('u, go_error option) io" where
  "get_into c p = State (\<lambda>w.
     let ob = w_objs w p;
         r = GetInto c (Identifier (GetStaticMetadata ob)) ob (w_ext w);
         err = fst (fst r)
     in (err, w\<lparr>w_objs := (w_objs w)(p := snd (fst r)), w_ext := snd r,
               w_trace := w_trace w @ [EvGet p err]\<rparr>))"

section \<open>The operations\<close>

text \<open>Every request ends with the guard on the resource version of the object it was made from.\<close>

definition rv_guard :: "object \<Rightarrow> patch_operation" where
  "rv_guard ob = \<lparr>po_Path = ''/metadata/resourceVersion'', po_Operation = PatchOpReplace,
                  po_Value = PVString (o_ResourceVersion ob)\<rparr>"

definition add_request :: "object \<Rightarrow> string \<Rightarrow> patch_request" where
  "add_request ob f =
     (if 0 < length (finalizers_of ob)
      then \<lparr>pr_Operations =
             [\<lparr>po_Path = ''/metadata/finalizers/-'', po_Operation = PatchOpAdd, po_Value = PVString f\<rparr>,
              rv_guard ob]\<rparr>
      else \<lparr>pr_Operations =
             [\<lparr>po_Path = ''/metadata/finalizers'', po_Operation = PatchOpAdd, po_Value = PVStrings [f]\<rparr>,
              rv_guard ob]\<rparr>)"

text \<open>\<^verbatim>\<open>doReplaceFinalizer\<close> only builds this request when \<open>toReplace\<close> is present, at index \<open>i\<close>.\<close>

definition replace_request :: "object \<Rightarrow> nat \<Rightarrow> string \<Rightarrow> patch_request" where
  "replace_request ob i replaceWith =
     \<lparr>pr_Operations =
        [\<lparr>po_Path = ''/metadata/finalizers/'' @ show_nat i, po_Operation = PatchOpReplace,
          po_Value = PVString replaceWith\<rparr>,
         rv_guard ob]\<rparr>"

definition remove_request :: "object \<Rightarrow> string list \<Rightarrow> patch_request" where
  "remove_request ob fs =
     \<lparr>pr_Operations =
        [\<lparr>po_Path = ''/metadata/finalizers'', po_Operation = PatchOpReplace, po_Value = PVStrings fs\<rparr>,
         rv_guard ob]\<rparr>"

definition send_patch :: "'u PatchClient \<Rightarrow> ptr \<Rightarrow> patch_request \<Rightarrow> ('u, go_error option) io" where
  "send_patch c p req = do {
     err \<leftarrow> patch_into c p req;
     State_Monad.return (map_option (\<lambda>e. NewFinalizerOperationError e req) err)
   }"

definition doAddFinalizer :: "'u PatchClient \<Rightarrow> ptr \<Rightarrow> string \<Rightarrow> ('u, go_error option) io" where
  "doAddFinalizer c p finalizer = do {
     ob \<leftarrow> deref p;
     if finalizer \<in> set (finalizers_of ob) then State_Monad.return None
     else send_patch c p (add_request ob finalizer)
   }"

text \<open>The loop over the finalizers: the ones kept, and whether the one to remove was found.\<close>

fun split_finalizers :: "string \<Rightarrow> string list \<Rightarrow> string list \<times> bool" where
  "split_finalizers finalizer [] = ([], False)"
| "split_finalizers finalizer (f # fs) =
     (let (kept, found) = split_finalizers finalizer fs
      in if f = finalizer then (kept, True) else (f # kept, found))"

definition doRemoveFinalizer :: "'u PatchClient \<Rightarrow> ptr \<Rightarrow> string \<Rightarrow> ('u, go_error option) io" where
  "doRemoveFinalizer c p finalizer = do {
     ob \<leftarrow> deref p;
     let (kept, found) = split_finalizers finalizer (finalizers_of ob);
     if \<not> found then State_Monad.return None
     else send_patch c p (remove_request ob kept)
   }"

text \<open>
  The third branch is the code's: when \<open>toReplace\<close> is absent it calls \<open>doAddFinalizer\<close> with
  \<open>toReplace\<close>, where its comment says \<open>replaceWith\<close> is added.
\<close>

definition doReplaceFinalizer ::
  "'u PatchClient \<Rightarrow> ptr \<Rightarrow> string \<Rightarrow> string \<Rightarrow> ('u, go_error option) io" where
  "doReplaceFinalizer c p toReplace replaceWith = do {
     ob \<leftarrow> deref p;
     let fs = finalizers_of ob;
     if replaceWith \<in> set fs then
       (if toReplace \<in> set fs then doRemoveFinalizer c p toReplace else State_Monad.return None)
     else (case slice_index fs toReplace of
       None \<Rightarrow> doAddFinalizer c p toReplace
     | Some i \<Rightarrow> send_patch c p (replace_request ob i replaceWith))
   }"

text \<open>
  The loop that \<open>AddFinalizer\<close>, \<open>ReplaceFinalizer\<close> and \<open>RemoveFinalizer\<close> share; \<open>left\<close> is
  \<^verbatim>\<open>3 - attempts\<close>. The object is fetched again before each further attempt.
\<close>

primrec conflict_loop ::
  "(go_error \<Rightarrow> bool) \<Rightarrow> 'u PatchClient \<Rightarrow> ptr \<Rightarrow> ('u, go_error option) io \<Rightarrow> nat \<Rightarrow>
   go_error option \<Rightarrow> ('u, go_error option) io" where
  "conflict_loop isConflict c p op 0 err = State_Monad.return err"
| "conflict_loop isConflict c p op (Suc left) err =
     (case err of
        None \<Rightarrow> State_Monad.return None
      | Some e \<Rightarrow>
          if isConflict e then do {
            gerr \<leftarrow> get_into c p;
            (case gerr of
               Some ge \<Rightarrow> State_Monad.return
                 (Some (Wrapped ''unable to get updated object to add finalizer'' ge))
             | None \<Rightarrow> do {
                 err' \<leftarrow> op;
                 conflict_loop isConflict c p op left err'
               })
          } else State_Monad.return (Some e))"

definition with_conflict_retry ::
  "(go_error \<Rightarrow> bool) \<Rightarrow> 'u PatchClient \<Rightarrow> ptr \<Rightarrow> ('u, go_error option) io \<Rightarrow> ('u, go_error option) io"
where
  "with_conflict_retry isConflict c p op = do {
     err \<leftarrow> op;
     conflict_loop isConflict c p op 3 err
   }"

definition AddFinalizer ::
  "(go_error \<Rightarrow> bool) \<Rightarrow> 'u PatchClient \<Rightarrow> ptr \<Rightarrow> string \<Rightarrow> ('u, go_error option) io" where
  "AddFinalizer isConflict c p finalizer =
     with_conflict_retry isConflict c p (doAddFinalizer c p finalizer)"

definition ReplaceFinalizer ::
  "(go_error \<Rightarrow> bool) \<Rightarrow> 'u PatchClient \<Rightarrow> ptr \<Rightarrow> string \<Rightarrow> string \<Rightarrow> ('u, go_error option) io" where
  "ReplaceFinalizer isConflict c p toReplace replaceWith =
     with_conflict_retry isConflict c p (doReplaceFinalizer c p toReplace replaceWith)"

definition RemoveFinalizer ::
  "(go_error \<Rightarrow> bool) \<Rightarrow> 'u PatchClient \<Rightarrow> ptr \<Rightarrow> string \<Rightarrow> ('u, go_error option) io" where
  "RemoveFinalizer isConflict c p finalizer =
     with_conflict_retry isConflict c p (doRemoveFinalizer c p finalizer)"


section \<open>What is relied on of the client\<close>

text \<open>
  The effect of one RFC 6902 operation on a finalizer list, for the paths below
  \<^verbatim>\<open>/metadata/finalizers\<close>; an operation on another path leaves the list alone. \<open>None\<close> is a
  failing operation.
\<close>

abbreviation finalizers_prefix :: string where
  "finalizers_prefix \<equiv> ''/metadata/finalizers/''"

definition op_effect :: "patch_operation \<Rightarrow> string list \<Rightarrow> string list option" where
  "op_effect x fs =
     (if po_Path x = ''/metadata/finalizers'' then
        (case po_Value x of PVStrings gs \<Rightarrow> Some gs | PVString f \<Rightarrow> None)
      else if po_Path x = finalizers_prefix @ ''-'' then
        (case po_Value x of PVString f \<Rightarrow> Some (fs @ [f]) | PVStrings gs \<Rightarrow> None)
      else if take (length finalizers_prefix) (po_Path x) = finalizers_prefix then
        (case (parse_nat (drop (length finalizers_prefix) (po_Path x)), po_Value x) of
           (Some i, PVString f) \<Rightarrow> if i < length fs then Some (fs[i := f]) else None
         | _ \<Rightarrow> None)
      else Some fs)"

definition request_effect :: "patch_request \<Rightarrow> string list \<Rightarrow> string list option" where
  "request_effect req fs =
     fold (\<lambda>x acc. case acc of None \<Rightarrow> None | Some gs \<Rightarrow> op_effect x gs) (pr_Operations req) (Some fs)"

text \<open>
  A patch that the server accepts was applied to the version of the object it was made from
  (that is what the guard on the resource version is for), and the response is marshalled into
  the object: its finalizers are the request's effect on the ones it had.
\<close>

definition honours_patches :: "'u PatchClient \<Rightarrow> bool" where
  "honours_patches c \<longleftrightarrow> (\<forall>i req ob u ob' u'.
     PatchInto c i req ob u = ((None, ob'), u') \<longrightarrow>
     request_effect req (finalizers_of ob) = Some (finalizers_of ob'))"

text \<open>A property of the object that failed patches and fetches do not destroy.\<close>

definition keeps :: "(object \<Rightarrow> bool) \<Rightarrow> 'u PatchClient \<Rightarrow> bool" where
  "keeps P c \<longleftrightarrow>
     (\<forall>i req ob u e ob' u'. PatchInto c i req ob u = ((Some e, ob'), u') \<longrightarrow> P ob \<longrightarrow> P ob') \<and>
     (\<forall>i ob u ob' u'. GetInto c i ob u = ((None, ob'), u') \<longrightarrow> P ob \<longrightarrow> P ob')"

section \<open>Lemmas on the single attempts\<close>

lemma split_finalizers_eq:
  "split_finalizers f fs = (filter (\<lambda>g. g \<noteq> f) fs, f \<in> set fs)"
  by (induction fs) (auto split: prod.splits)

lemma rv_guard_effect [simp]: "op_effect (rv_guard ob) fs = Some fs"
  by (simp add: op_effect_def rv_guard_def)

lemma add_effect:
  "request_effect (add_request ob f) (finalizers_of ob) = Some (finalizers_of ob @ [f])"
  by (simp add: request_effect_def add_request_def) (simp add: op_effect_def rv_guard_def)

lemma remove_effect [simp]: "request_effect (remove_request ob gs) fs = Some gs"
  by (simp add: request_effect_def remove_request_def) (simp add: op_effect_def rv_guard_def)

lemma show_nat_neq_dash: "show_nat i \<noteq> ''-''"
proof
  assume "show_nat i = ''-''"
  then have "parse_nat ''-'' = Some i" by (metis parse_show_nat)
  then show False by (simp add: parse_nat_def char_digit_def)
qed

lemma replace_effect:
  assumes "i < length fs"
  shows "request_effect (replace_request ob i f) fs = Some (fs[i := f])"
  using assms show_nat_neq_dash [of i]
  by (simp add: request_effect_def replace_request_def) (simp add: op_effect_def rv_guard_def)

lemma honours_patchesD:
  assumes "honours_patches c" "run_state (patch_into c p req) w = (None, w')"
  shows "request_effect req (finalizers_of (w_objs w p)) = Some (finalizers_of (w_objs w' p))"
  using assms unfolding honours_patches_def patch_into_def
  by (auto simp: Let_def) (metis prod.collapse)

lemma run_send_patch:
  "run_state (send_patch c p req) w =
     (case run_state (patch_into c p req) w of (err, w') \<Rightarrow>
        (map_option (\<lambda>e. NewFinalizerOperationError e req) err, w'))"
  by (simp add: send_patch_def)

lemma send_patch_success:
  assumes "honours_patches c" "run_state (send_patch c p req) w = (None, w')"
  shows "request_effect req (finalizers_of (w_objs w p)) = Some (finalizers_of (w_objs w' p))"
  using assms by (auto simp: run_send_patch split: prod.splits intro: honours_patchesD)

lemma doAddFinalizer_success:
  assumes "honours_patches c" "run_state (doAddFinalizer c p f) w = (None, w')"
  shows "finalizers_of (w_objs w' p) =
           (if f \<in> set (finalizers_of (w_objs w p)) then finalizers_of (w_objs w p)
            else finalizers_of (w_objs w p) @ [f])"
  using assms send_patch_success [of c p "add_request (w_objs w p) f" w w']
  by (auto simp: doAddFinalizer_def add_effect split: if_splits)

lemma doRemoveFinalizer_success:
  assumes "honours_patches c" "run_state (doRemoveFinalizer c p f) w = (None, w')"
  shows "finalizers_of (w_objs w' p) = filter (\<lambda>g. g \<noteq> f) (finalizers_of (w_objs w p))"
  using assms
    send_patch_success [of c p "remove_request (w_objs w p)
      (filter (\<lambda>g. g \<noteq> f) (finalizers_of (w_objs w p)))" w w']
  by (auto simp: doRemoveFinalizer_def split_finalizers_eq split: if_splits
      intro!: sym [OF filter_True])

lemma doReplaceFinalizer_success:
  assumes "honours_patches c" "run_state (doReplaceFinalizer c p a b) w = (None, w')"
    and "distinct (finalizers_of (w_objs w p))" "a \<noteq> b"
    and "a \<in> set (finalizers_of (w_objs w p)) \<or> b \<in> set (finalizers_of (w_objs w p))"
  shows "set (finalizers_of (w_objs w' p)) = insert b (set (finalizers_of (w_objs w p)) - {a})"
proof (cases "b \<in> set (finalizers_of (w_objs w p))")
  case True
  then show ?thesis using assms doRemoveFinalizer_success [of c p a w w']
    by (auto simp: doReplaceFinalizer_def split: if_splits)
next
  case False
  with assms(5) obtain i where i: "slice_index (finalizers_of (w_objs w p)) a = Some i"
    by (cases "slice_index (finalizers_of (w_objs w p)) a") auto
  with False assms(2) have "run_state (send_patch c p (replace_request (w_objs w p) i b)) w = (None, w')"
    by (simp add: doReplaceFinalizer_def)
  with send_patch_success [OF assms(1) this] replace_effect slice_index_Some [OF i]
  have "finalizers_of (w_objs w' p) = (finalizers_of (w_objs w p))[i := b]" by simp
  then show ?thesis using set_update_slice_index [OF i assms(3)] by simp
qed


section \<open>Retrying on conflicts\<close>

text \<open>
  The contract of one attempt, as the retry loop uses it: under a condition \<open>P\<close> that failed
  attempts and fetches keep, a successful attempt establishes \<open>Q\<close>; it touches only the object
  at \<open>p\<close>, and it sends at most one request, which carries the resource version guard.
\<close>

definition guarded_patch :: "ptr \<Rightarrow> event \<Rightarrow> bool" where
  "guarded_patch p ev \<longleftrightarrow> (\<exists>x ob r. ev = EvPatch p \<lparr>pr_Operations = [x, rv_guard ob]\<rparr> r)"

definition attempt_events :: "ptr \<Rightarrow> event list \<Rightarrow> bool" where
  "attempt_events p es \<longleftrightarrow> es = [] \<or> (\<exists>ev. es = [ev] \<and> guarded_patch p ev)"

definition frame :: "ptr \<Rightarrow> 'u world \<Rightarrow> 'u world \<Rightarrow> bool" where
  "frame p w w' \<longleftrightarrow> (\<forall>q. q \<noteq> p \<longrightarrow> w_objs w' q = w_objs w q) \<and> w_now w' = w_now w"

definition retry_events :: "nat \<Rightarrow> ptr \<Rightarrow> event list \<Rightarrow> bool" where
  "retry_events n p es \<longleftrightarrow>
     length (filter (guarded_patch p) es) \<le> n \<and>
     length (filter (\<lambda>ev. \<exists>r. ev = EvGet p r) es) \<le> n \<and>
     (\<forall>ev \<in> set es. guarded_patch p ev \<or> (\<exists>r. ev = EvGet p r))"

lemma frame_refl [simp, intro]: "frame p w w"
  by (simp add: frame_def)

lemma frame_trans [trans]: "frame p w w' \<Longrightarrow> frame p w' w'' \<Longrightarrow> frame p w w''"
  by (simp add: frame_def)

lemma not_guarded_get [simp]: "\<not> guarded_patch p (EvGet q r)"
  by (simp add: guarded_patch_def)

lemma guarded_not_get [simp]: "guarded_patch p ev \<Longrightarrow> ev \<noteq> EvGet q r"
  by (auto simp: guarded_patch_def)

lemma retry_events_Nil [simp]: "retry_events n p []"
  by (simp add: retry_events_def)

lemma retry_events_mono: "retry_events n p es \<Longrightarrow> n \<le> m \<Longrightarrow> retry_events m p es"
  by (auto simp: retry_events_def)

lemma retry_events_get:
  "retry_events n p es \<Longrightarrow> attempt_events p as \<Longrightarrow> retry_events (Suc n) p (EvGet p r # as @ es)"
  by (auto simp: retry_events_def attempt_events_def)

text \<open>
  What every run of an updater operation does to the world: it writes no object but the one at
  \<open>p\<close>, sends at most four patches, all guarded by a resource version, and fetches the object at
  most three times.
\<close>

definition bounded_update :: "ptr \<Rightarrow> 'u world \<Rightarrow> 'u world \<Rightarrow> bool" where
  "bounded_update p w w' \<longleftrightarrow> frame p w w' \<and> (\<exists>es. w_trace w' = w_trace w @ es \<and>
     length (filter (guarded_patch p) es) \<le> 4 \<and>
     length (filter (\<lambda>ev. \<exists>r. ev = EvGet p r) es) \<le> 3 \<and>
     (\<forall>ev \<in> set es. guarded_patch p ev \<or> (\<exists>r. ev = EvGet p r)))"

lemma bounded_updateI:
  assumes "frame p w w'"
    and "\<exists>as es. w_trace w' = w_trace w @ as @ es \<and> attempt_events p as \<and> retry_events 3 p es"
  shows "bounded_update p w w'"
proof -
  obtain as es where tr: "w_trace w' = w_trace w @ as @ es" and a: "attempt_events p as"
    and e: "retry_events 3 p es" using assms(2) by blast
  have "length (filter (guarded_patch p) (as @ es)) \<le> 4 \<and>
     length (filter (\<lambda>ev. \<exists>r. ev = EvGet p r) (as @ es)) \<le> 3 \<and>
     (\<forall>ev \<in> set (as @ es). guarded_patch p ev \<or> (\<exists>r. ev = EvGet p r))"
    using a e by (auto simp: attempt_events_def retry_events_def)
  with tr assms(1) show ?thesis unfolding bounded_update_def by blast
qed

locale conflict_retry =
  fixes isConflict :: "go_error \<Rightarrow> bool"
    and c :: "'u PatchClient"
    and p :: ptr
    and op :: "('u, go_error option) io"
    and P Q :: "'u world \<Rightarrow> bool"
  assumes op_success: "P w \<Longrightarrow> run_state op w = (None, w') \<Longrightarrow> Q w'"
    and op_failure: "P w \<Longrightarrow> run_state op w = (Some e, w') \<Longrightarrow> P w'"
    and get_success: "P w \<Longrightarrow> run_state (get_into c p) w = (None, w') \<Longrightarrow> P w'"
    and op_local: "run_state op w = (r, w') \<Longrightarrow>
      frame p w w' \<and> (\<exists>es. w_trace w' = w_trace w @ es \<and> attempt_events p es)"
begin

lemma loop_success:
  assumes "run_state (conflict_loop isConflict c p op n err) w = (None, w')"
    and "err = None \<Longrightarrow> Q w" "err \<noteq> None \<Longrightarrow> P w"
  shows "Q w'"
  using assms
proof (induction n arbitrary: err w)
  case 0
  then show ?case by auto
next
  case (Suc n)
  show ?case
  proof (cases err)
    case None
    with Suc.prems show ?thesis by simp
  next
    case (Some e)
    with Suc.prems obtain w1 where w1: "run_state (get_into c p) w = (None, w1)"
      and cont: "run_state (op \<bind> conflict_loop isConflict c p op n) w1 = (None, w')"
      by (auto split: if_splits prod.splits option.splits)
    from w1 Some Suc.prems have "P w1" by (auto intro: get_success)
    with cont Suc.IH show ?thesis
      by (auto split: prod.splits option.splits intro: op_success op_failure)
  qed
qed

lemma retry_success:
  assumes "P w" "run_state (with_conflict_retry isConflict c p op) w = (None, w')"
  shows "Q w'"
proof -
  from assms(2) obtain err w1 where op: "run_state op w = (err, w1)"
    and loop: "run_state (conflict_loop isConflict c p op 3 err) w1 = (None, w')"
    by (auto simp: with_conflict_retry_def split: prod.splits)
  show ?thesis
    using loop_success [OF loop] op op_success [OF assms(1)] op_failure [OF assms(1)] by auto
qed

lemma get_local:
  assumes "run_state (get_into c p) w = (r, w')"
  shows "frame p w w'" "w_trace w' = w_trace w @ [EvGet p r]"
  using assms by (auto simp: get_into_def Let_def frame_def)

lemma loop_local:
  assumes "run_state (conflict_loop isConflict c p op n err) w = (r, w')"
  shows "frame p w w' \<and> (\<exists>es. w_trace w' = w_trace w @ es \<and> retry_events n p es)"
  using assms
proof (induction n arbitrary: err w)
  case 0
  then show ?case by auto
next
  case (Suc n)
  then consider "w' = w"
    | ge where "run_state (get_into c p) w = (Some ge, w')"
    | w1 w2 err2 where "run_state (get_into c p) w = (None, w1)" "run_state op w1 = (err2, w2)"
        "run_state (conflict_loop isConflict c p op n err2) w2 = (r, w')"
    by (auto split: if_splits prod.splits option.splits)
  then show ?case
  proof cases
    case 1
    then show ?thesis by auto
  next
    case (2 ge)
    then show ?thesis using get_local [OF 2] by (auto simp: retry_events_def)
  next
    case (3 w1 w2 err2)
    obtain as es where as: "w_trace w2 = w_trace w1 @ as" "attempt_events p as"
      and es: "w_trace w' = w_trace w2 @ es" "retry_events n p es"
      using op_local [OF 3(2)] Suc.IH [OF 3(3)] by auto
    moreover have "frame p w w'"
      using get_local [OF 3(1)] op_local [OF 3(2)] Suc.IH [OF 3(3)] by (auto intro: frame_trans)
    moreover have "w_trace w' = w_trace w @ EvGet p None # as @ es"
      using get_local [OF 3(1)] as es by simp
    ultimately show ?thesis using retry_events_get by blast
  qed
qed

lemma retry_local:
  assumes "run_state (with_conflict_retry isConflict c p op) w = (r, w')"
  shows "frame p w w' \<and>
    (\<exists>as es. w_trace w' = w_trace w @ as @ es \<and> attempt_events p as \<and> retry_events 3 p es)"
proof -
  from assms obtain err w1 where op: "run_state op w = (err, w1)"
    and loop: "run_state (conflict_loop isConflict c p op 3 err) w1 = (r, w')"
    by (auto simp: with_conflict_retry_def split: prod.splits)
  show ?thesis using op_local [OF op] loop_local [OF loop] frame_trans by fastforce
qed

lemma retry_bounded: "bounded_update p w (snd (run_state (with_conflict_retry isConflict c p op) w))"
  using retry_local [OF surjective_pairing] by (blast intro: bounded_updateI)

end


section \<open>The three operations meet the contract\<close>

lemma send_patch_local:
  assumes "run_state (send_patch c p req) w = (r, w')" "\<exists>x ob. req = \<lparr>pr_Operations = [x, rv_guard ob]\<rparr>"
  shows "frame p w w' \<and> (\<exists>es. w_trace w' = w_trace w @ es \<and> attempt_events p es)"
  using assms
  by (auto simp: run_send_patch patch_into_def Let_def frame_def attempt_events_def guarded_patch_def)

lemma add_request_guarded: "\<exists>x ob'. add_request ob f = \<lparr>pr_Operations = [x, rv_guard ob']\<rparr>"
  by (auto simp: add_request_def)

lemma remove_request_guarded: "\<exists>x ob'. remove_request ob fs = \<lparr>pr_Operations = [x, rv_guard ob']\<rparr>"
  by (auto simp: remove_request_def)

lemma replace_request_guarded: "\<exists>x ob'. replace_request ob i b = \<lparr>pr_Operations = [x, rv_guard ob']\<rparr>"
  by (auto simp: replace_request_def)

lemmas requests_guarded = add_request_guarded remove_request_guarded replace_request_guarded

lemma attempt_events_Nil [simp]: "attempt_events p []"
  by (simp add: attempt_events_def)

lemma doAddFinalizer_local:
  assumes "run_state (doAddFinalizer c p f) w = (r, w')"
  shows "frame p w w' \<and> (\<exists>es. w_trace w' = w_trace w @ es \<and> attempt_events p es)"
  using assms
  by (auto simp: doAddFinalizer_def split: if_splits dest: send_patch_local [OF _ add_request_guarded])

lemma doRemoveFinalizer_local:
  assumes "run_state (doRemoveFinalizer c p f) w = (r, w')"
  shows "frame p w w' \<and> (\<exists>es. w_trace w' = w_trace w @ es \<and> attempt_events p es)"
  using assms
  by (auto simp: doRemoveFinalizer_def split: if_splits prod.splits
      dest: send_patch_local [OF _ remove_request_guarded])

lemma doReplaceFinalizer_local:
  assumes "run_state (doReplaceFinalizer c p a b) w = (r, w')"
  shows "frame p w w' \<and> (\<exists>es. w_trace w' = w_trace w @ es \<and> attempt_events p es)"
  using assms
  by (auto simp: doReplaceFinalizer_def Let_def split: if_splits option.splits
      dest: send_patch_local [OF _ replace_request_guarded] doAddFinalizer_local doRemoveFinalizer_local)

text \<open>A failed attempt leaves what \<open>keeps\<close> protects.\<close>

lemma send_patch_failure:
  assumes "keeps R c" "R (w_objs w p)" "run_state (send_patch c p req) w = (Some e, w')"
  shows "R (w_objs w' p)"
  using assms unfolding keeps_def run_send_patch patch_into_def
  by (auto simp: Let_def) (metis prod.collapse)

lemma get_into_success:
  assumes "keeps R c" "R (w_objs w p)" "run_state (get_into c p) w = (None, w')"
  shows "R (w_objs w' p)"
  using assms unfolding keeps_def get_into_def
  by (auto simp: Let_def) (metis prod.collapse)

lemma doReplaceFinalizer_failure:
  assumes "keeps R c" "R (w_objs w p)" "run_state (doReplaceFinalizer c p a b) w = (Some e, w')"
  shows "R (w_objs w' p)"
  using assms
  by (auto simp: doReplaceFinalizer_def Let_def doRemoveFinalizer_def doAddFinalizer_def
      split: if_splits option.splits prod.splits dest: send_patch_failure)

text \<open>The object is in the middle of a swap from \<open>a\<close> to \<open>b\<close>, or past it.\<close>

definition swappable :: "string \<Rightarrow> string \<Rightarrow> object \<Rightarrow> bool" where
  "swappable a b ob \<longleftrightarrow>
     distinct (finalizers_of ob) \<and> (a \<in> set (finalizers_of ob) \<or> b \<in> set (finalizers_of ob))"

interpretation add_retry: conflict_retry isConflict c p "doAddFinalizer c p f"
    "\<lambda>w. honours_patches c" "\<lambda>w. f \<in> set (finalizers_of (w_objs w p))"
  for isConflict c p f
  using doAddFinalizer_success doAddFinalizer_local by unfold_locales fastforce+

interpretation remove_retry: conflict_retry isConflict c p "doRemoveFinalizer c p f"
    "\<lambda>w. honours_patches c" "\<lambda>w. f \<notin> set (finalizers_of (w_objs w p))"
  for isConflict c p f
  using doRemoveFinalizer_success doRemoveFinalizer_local by unfold_locales fastforce+

interpretation replace_retry: conflict_retry isConflict c p "doReplaceFinalizer c p a b"
    "\<lambda>w. honours_patches c \<and> keeps (swappable a b) c \<and> a \<noteq> b \<and> swappable a b (w_objs w p)"
    "\<lambda>w. b \<in> set (finalizers_of (w_objs w p)) \<and> a \<notin> set (finalizers_of (w_objs w p))"
  for isConflict c p a b
proof unfold_locales
  fix w w'
  assume "honours_patches c \<and> keeps (swappable a b) c \<and> a \<noteq> b \<and> swappable a b (w_objs w p)"
    and "run_state (doReplaceFinalizer c p a b) w = (None, w')"
  then show "b \<in> set (finalizers_of (w_objs w' p)) \<and> a \<notin> set (finalizers_of (w_objs w' p))"
    using doReplaceFinalizer_success [of c p a b w w'] by (auto simp: swappable_def)
next
  fix w e w'
  assume "honours_patches c \<and> keeps (swappable a b) c \<and> a \<noteq> b \<and> swappable a b (w_objs w p)"
    and "run_state (doReplaceFinalizer c p a b) w = (Some e, w')"
  then show "honours_patches c \<and> keeps (swappable a b) c \<and> a \<noteq> b \<and> swappable a b (w_objs w' p)"
    using doReplaceFinalizer_failure by blast
next
  fix w w'
  assume "honours_patches c \<and> keeps (swappable a b) c \<and> a \<noteq> b \<and> swappable a b (w_objs w p)"
    and "run_state (get_into c p) w = (None, w')"
  then show "honours_patches c \<and> keeps (swappable a b) c \<and> a \<noteq> b \<and> swappable a b (w_objs w' p)"
    using get_into_success by blast
next
  fix w r w'
  assume "run_state (doReplaceFinalizer c p a b) w = (r, w')"
  then show "frame p w w' \<and> (\<exists>es. w_trace w' = w_trace w @ es \<and> attempt_events p es)"
    by (rule doReplaceFinalizer_local)
qed

lemma AddFinalizer_bounded:
  "bounded_update p w (snd (run_state (AddFinalizer isConflict c p f) w))"
  unfolding AddFinalizer_def by (rule add_retry.retry_bounded)

lemma RemoveFinalizer_bounded:
  "bounded_update p w (snd (run_state (RemoveFinalizer isConflict c p f) w))"
  unfolding RemoveFinalizer_def by (rule remove_retry.retry_bounded)

lemma ReplaceFinalizer_bounded:
  "bounded_update p w (snd (run_state (ReplaceFinalizer isConflict c p a b) w))"
  unfolding ReplaceFinalizer_def by (rule replace_retry.retry_bounded)

lemmas updates_bounded = AddFinalizer_bounded RemoveFinalizer_bounded ReplaceFinalizer_bounded

lemma AddFinalizer_success:
  assumes "honours_patches c" "run_state (AddFinalizer isConflict c p f) w = (None, w')"
  shows "f \<in> set (finalizers_of (w_objs w' p))"
  using assms unfolding AddFinalizer_def by (rule add_retry.retry_success)

lemma ReplaceFinalizer_success:
  assumes "honours_patches c" "keeps (swappable a b) c" "a \<noteq> b" "swappable a b (w_objs w p)"
    and "run_state (ReplaceFinalizer isConflict c p a b) w = (None, w')"
  shows "b \<in> set (finalizers_of (w_objs w' p)) \<and> a \<notin> set (finalizers_of (w_objs w' p))"
  using assms replace_retry.retry_success [of c a b w p isConflict w']
  unfolding ReplaceFinalizer_def by blast

text \<open>The events of an updater call, seen from the components that make it.\<close>

definition updater_events :: "ptr \<Rightarrow> event list \<Rightarrow> bool" where
  "updater_events p es \<longleftrightarrow> (\<forall>ev \<in> set es. guarded_patch p ev \<or> (\<exists>r. ev = EvGet p r))"

lemma updater_events_simps [simp]:
  "updater_events p []"
  "updater_events p (es @ es') \<longleftrightarrow> updater_events p es \<and> updater_events p es'"
  by (auto simp: updater_events_def)

lemma bounded_update_events:
  "bounded_update p w w' \<Longrightarrow> \<exists>es. w_trace w' = w_trace w @ es \<and> updater_events p es"
  by (auto simp: bounded_update_def updater_events_def)

lemma updater_call_events:
  "run_state (AddFinalizer isConflict c p f) w = (r, w') \<Longrightarrow>
     \<exists>es. w_trace w' = w_trace w @ es \<and> updater_events p es"
  "run_state (RemoveFinalizer isConflict c p f) w = (r, w') \<Longrightarrow>
     \<exists>es. w_trace w' = w_trace w @ es \<and> updater_events p es"
  "run_state (ReplaceFinalizer isConflict c p f g) w = (r, w') \<Longrightarrow>
     \<exists>es. w_trace w' = w_trace w @ es \<and> updater_events p es"
  using updates_bounded [THEN bounded_update_events] by (metis snd_conv)+

section \<open>Properties\<close>

text \<open>
  An API server to run the operations against: it stores nothing itself, applies every request
  to the object it was sent, and answers the first \<open>n\<close> patches with a conflict (code 409).
\<close>

definition sample_client :: "nat PatchClient" where
  "sample_client =
     \<lparr>PatchInto = (\<lambda>i req ob n.
        if 0 < n then ((Some (External 409 ''conflict''), ob), n - 1)
        else (case request_effect req (finalizers_of ob) of
                Some fs \<Rightarrow> ((None, ob\<lparr>o_Finalizers := Some fs\<rparr>), n)
              | None \<Rightarrow> ((Some (External 422 ''invalid''), ob), n))),
      GetInto = (\<lambda>i ob n. ((None, ob), n))\<rparr>"

definition sample_conflict :: "go_error \<Rightarrow> bool" where
  "sample_conflict e = (case e of
       FinalizerOperationError (External code m) req \<Rightarrow> code = 409
     | External code m \<Rightarrow> code = 409
     | _ \<Rightarrow> False)"

definition sample_object :: "string list \<Rightarrow> object" where
  "sample_object fs =
     \<lparr>o_Group = ''g'', o_Version = ''v1'', o_Kind = ''Foo'', o_Namespace = ''ns'', o_Name = ''foo'',
      o_ResourceVersion = ''7'', o_Generation = 1, o_DeletionTimestamp = None,
      o_Finalizers = Some fs, o_Spec = []\<rparr>"

definition sample_world :: "object \<Rightarrow> nat \<Rightarrow> nat world" where
  "sample_world ob n = \<lparr>w_objs = (\<lambda>q. ob), w_now = 0, w_trace = [], w_ext = n\<rparr>"

lemma sample_client_honours [simp]: "honours_patches sample_client"
  by (auto simp: honours_patches_def sample_client_def split: if_splits option.splits)

lemma sample_client_keeps [simp]: "keeps R sample_client"
  by (auto simp: keeps_def sample_client_def split: if_splits option.splits)

lemmas sample_defs = sample_client_def sample_conflict_def sample_object_def sample_world_def

lemmas finalizer_ops = AddFinalizer_def RemoveFinalizer_def ReplaceFinalizer_def
  with_conflict_retry_def doAddFinalizer_def doRemoveFinalizer_def doReplaceFinalizer_def
  send_patch_def patch_into_def get_into_def

text \<open>
  A successful \<open>AddFinalizer\<close> leaves the finalizer in the object's list, whatever conflicts
  and fetches happened on the way.
\<close>

lemma AddFinalizer_present:
  assumes "honours_patches c" "run_state (AddFinalizer isConflict c p f) w = (None, w')"
  shows "f \<in> set (finalizers_of (w_objs w' p))"
  using assms by (rule AddFinalizer_success)

lemma AddFinalizer_present_witness:
  "''b'' \<in> set (finalizers_of (w_objs (snd (run_state
     (AddFinalizer sample_conflict sample_client 0 ''b'') (sample_world (sample_object [''a'']) 1))) 0))"
proof -
  let ?m = "AddFinalizer sample_conflict sample_client 0 ''b''"
  let ?w = "sample_world (sample_object [''a'']) 1"
  have "fst (run_state ?m ?w) = None" by code_simp
  then have "run_state ?m ?w = (None, snd (run_state ?m ?w))" by (simp add: prod_eq_iff)
  from AddFinalizer_present [OF sample_client_honours this] show ?thesis .
qed

text \<open>
  A successful \<open>RemoveFinalizer\<close> leaves no occurrence of the finalizer.
\<close>

lemma RemoveFinalizer_absent:
  assumes "honours_patches c" "run_state (RemoveFinalizer isConflict c p f) w = (None, w')"
  shows "f \<notin> set (finalizers_of (w_objs w' p))"
  using assms unfolding RemoveFinalizer_def by (rule remove_retry.retry_success)

lemma RemoveFinalizer_absent_witness:
  "''a'' \<notin> set (finalizers_of (w_objs (snd (run_state
     (RemoveFinalizer sample_conflict sample_client 0 ''a'')
     (sample_world (sample_object [''a'', ''b'', ''a'']) 1))) 0))"
proof -
  let ?m = "RemoveFinalizer sample_conflict sample_client 0 ''a''"
  let ?w = "sample_world (sample_object [''a'', ''b'', ''a'']) 1"
  have "fst (run_state ?m ?w) = None" by code_simp
  then have "run_state ?m ?w = (None, snd (run_state ?m ?w))" by (simp add: prod_eq_iff)
  from RemoveFinalizer_absent [OF sample_client_honours this] show ?thesis .
qed

text \<open>
  A successful \<open>ReplaceFinalizer\<close> on an object that carries one of the two finalizers (and
  keeps doing so in every version fetched after a conflict) ends with the new one in the list
  and the old one out of it.
\<close>

lemma ReplaceFinalizer_swaps:
  assumes "honours_patches c" "keeps (swappable a b) c" "a \<noteq> b" "swappable a b (w_objs w p)"
    and "run_state (ReplaceFinalizer isConflict c p a b) w = (None, w')"
  shows "b \<in> set (finalizers_of (w_objs w' p)) \<and> a \<notin> set (finalizers_of (w_objs w' p))"
  using assms by (rule ReplaceFinalizer_success)

lemma ReplaceFinalizer_swaps_witness:
  "let w' = snd (run_state (ReplaceFinalizer sample_conflict sample_client 0 ''wip'' ''done'')
              (sample_world (sample_object [''x'', ''wip'']) 1))
   in ''done'' \<in> set (finalizers_of (w_objs w' 0)) \<and> ''wip'' \<notin> set (finalizers_of (w_objs w' 0))"
proof -
  let ?m = "ReplaceFinalizer sample_conflict sample_client 0 ''wip'' ''done''"
  let ?w = "sample_world (sample_object [''x'', ''wip'']) 1"
  have "fst (run_state ?m ?w) = None" by code_simp
  then have run: "run_state ?m ?w = (None, snd (run_state ?m ?w))" by (simp add: prod_eq_iff)
  have "swappable ''wip'' ''done'' (w_objs ?w 0)" by code_simp
  from ReplaceFinalizer_swaps [OF sample_client_honours sample_client_keeps _ this run]
  show ?thesis by (simp add: Let_def)
qed

text \<open>
  When the object carries neither finalizer, a successful replace attempt appends the
  finalizer that was to be replaced, not the one to replace it with: the branch that the source
  comments as "just add replaceWith" passes \<open>toReplace\<close>.
\<close>

lemma doReplaceFinalizer_adds_toReplace:
  assumes "honours_patches c"
    and "a \<notin> set (finalizers_of (w_objs w p))" "b \<notin> set (finalizers_of (w_objs w p))"
    and "run_state (doReplaceFinalizer c p a b) w = (None, w')"
  shows "finalizers_of (w_objs w' p) = finalizers_of (w_objs w p) @ [a]"
proof -
  from assms(2) have "slice_index (finalizers_of (w_objs w p)) a = None" by simp
  with assms(3,4) have "run_state (doAddFinalizer c p a) w = (None, w')"
    by (simp add: doReplaceFinalizer_def del: slice_index_None)
  from doAddFinalizer_success [OF assms(1) this] assms(2) show ?thesis by simp
qed

lemma doReplaceFinalizer_adds_toReplace_witness:
  "finalizers_of (w_objs (snd (run_state (doReplaceFinalizer sample_client 0 ''wip'' ''done'')
     (sample_world (sample_object [''x'']) 0))) 0) = [''x'', ''wip'']"
proof -
  let ?m = "doReplaceFinalizer sample_client 0 ''wip'' ''done''"
  let ?w = "sample_world (sample_object [''x'']) 0"
  have "fst (run_state ?m ?w) = None" by code_simp
  then have run: "run_state ?m ?w = (None, snd (run_state ?m ?w))" by (simp add: prod_eq_iff)
  have fs: "finalizers_of (w_objs ?w 0) = [''x'']" by code_simp
  show ?thesis
    using doReplaceFinalizer_adds_toReplace [OF sample_client_honours _ _ run] unfolding fs by simp
qed

text \<open>
  Every call of \<open>AddFinalizer\<close>, \<open>RemoveFinalizer\<close> and \<open>ReplaceFinalizer\<close> returns after at
  most four guarded patches and three fetches and touches no other object.
\<close>

lemma finalizer_updates_bounded:
  "bounded_update p w (snd (run_state (AddFinalizer isConflict c p f) w)) \<and>
   bounded_update p w (snd (run_state (RemoveFinalizer isConflict c p f) w)) \<and>
   bounded_update p w (snd (run_state (ReplaceFinalizer isConflict c p f g) w))"
  by (intro conjI AddFinalizer_bounded RemoveFinalizer_bounded ReplaceFinalizer_bounded)

end
