(* ===== verification/Opinionated_Watcher.thy ===== *)
theory Opinionated_Watcher
  imports Finalizers
begin

text \<open>
  \<^verbatim>\<open>operator/opinionatedwatcher.go\<close> and \<^verbatim>\<open>operator/simplewatcher.go\<close>: the watcher that puts a
  finalizer on every object it has handled, so that a delete cannot complete before its
  \<open>DeleteFunc\<close> has succeeded and a restart can tell new objects from known ones. Logging, tracing
  spans and metrics are left out; each call of a user function is recorded in the ghost trace.
\<close>

section \<open>SimpleWatcher\<close>

record 'u SimpleWatcher =
  sw_AddFunc :: "(ptr option \<Rightarrow> ('u, go_error option) io) option"
  sw_UpdateFunc :: "(ptr option \<Rightarrow> ptr option \<Rightarrow> ('u, go_error option) io) option"
  sw_DeleteFunc :: "(ptr option \<Rightarrow> ('u, go_error option) io) option"

definition simple_Add :: "'u SimpleWatcher \<Rightarrow> ptr option \<Rightarrow> ('u, go_error option) io" where
  "simple_Add s ob = (case sw_AddFunc s of Some f \<Rightarrow> f ob | None \<Rightarrow> State_Monad.return None)"

definition simple_Update :: "'u SimpleWatcher \<Rightarrow> ptr option \<Rightarrow> ptr option \<Rightarrow> ('u, go_error option) io"
where
  "simple_Update s src tgt =
     (case sw_UpdateFunc s of Some f \<Rightarrow> f src tgt | None \<Rightarrow> State_Monad.return None)"

definition simple_Delete :: "'u SimpleWatcher \<Rightarrow> ptr option \<Rightarrow> ('u, go_error option) io" where
  "simple_Delete s ob = (case sw_DeleteFunc s of Some f \<Rightarrow> f ob | None \<Rightarrow> State_Monad.return None)"

definition simple_watcher :: "'u SimpleWatcher \<Rightarrow> 'u ResourceWatcher" where
  "simple_watcher s = \<lparr>rw_Add = simple_Add s, rw_Update = simple_Update s, rw_Delete = simple_Delete s\<rparr>"

section \<open>OpinionatedWatcher\<close>

record 'u OpinionatedWatcher =
  ow_AddFunc :: "(ptr option \<Rightarrow> ('u, go_error option) io) option"
  ow_UpdateFunc :: "(ptr option \<Rightarrow> ptr option \<Rightarrow> ('u, go_error option) io) option"
  ow_DeleteFunc :: "(ptr option \<Rightarrow> ('u, go_error option) io) option"
  ow_SyncFunc :: "(ptr option \<Rightarrow> ('u, go_error option) io) option"
  ow_finalizer :: string
  ow_addPendingFinalizer :: string
  ow_schema :: schema
  ow_client :: "'u PatchClient"

type_synonym FinalizerSupplier = "schema \<Rightarrow> string"

definition DefaultFinalizerSupplier :: FinalizerSupplier where
  "DefaultFinalizerSupplier sch =
     ''operator.'' @ sch_Version sch @ ''.'' @ sch_Kind sch @ ''.'' @ sch_Group sch"

definition InProgressFinalizerSupplier :: FinalizerSupplier where
  "InProgressFinalizerSupplier sch =
     ''wip.'' @ sch_Version sch @ ''.'' @ sch_Kind sch @ ''.'' @ sch_Group sch"

record OpinionatedWatcherConfig =
  owc_Finalizer :: "FinalizerSupplier option"
  owc_InProgressFinalizer :: "FinalizerSupplier option"

text \<open>The second length error formats \<open>finalizer\<close>, not the in-progress finalizer, as the source does.\<close>

definition NewOpinionatedWatcher ::
  "schema option \<Rightarrow> 'u PatchClient option \<Rightarrow> OpinionatedWatcherConfig \<Rightarrow> go_error + 'u OpinionatedWatcher"
where
  "NewOpinionatedWatcher sch client config =
     (case sch of None \<Rightarrow> Inl (GoErr ''schema cannot be nil'')
      | Some s \<Rightarrow>
        (case client of None \<Rightarrow> Inl (GoErr ''client cannot be nil'')
         | Some c \<Rightarrow>
           (let supplier = (case owc_Finalizer config of None \<Rightarrow> DefaultFinalizerSupplier | Some f \<Rightarrow> f);
                finalizer = supplier s
            in if 63 < length finalizer
               then Inl (GoErr (''finalizer length cannot exceed 63 chars: '' @ finalizer))
               else
                 (let pendingAddSupplier = (case owc_InProgressFinalizer config of
                        None \<Rightarrow> InProgressFinalizerSupplier | Some f \<Rightarrow> f);
                      pendingAddFinalizer = pendingAddSupplier s
                  in if 63 < length pendingAddFinalizer
                     then Inl (GoErr (''in-progress finalizer length cannot exceed 63 chars: '' @ finalizer))
                     else Inr \<lparr>ow_AddFunc = None, ow_UpdateFunc = None, ow_DeleteFunc = None,
                               ow_SyncFunc = None, ow_finalizer = finalizer,
                               ow_addPendingFinalizer = pendingAddFinalizer,
                               ow_schema = s, ow_client = c\<rparr>))))"

definition Wrap :: "'u OpinionatedWatcher \<Rightarrow> 'u ResourceWatcher option \<Rightarrow> bool \<Rightarrow> 'u OpinionatedWatcher"
where
  "Wrap ow watcher syncToAdd =
     (case watcher of None \<Rightarrow> ow
      | Some rw \<Rightarrow>
          (let ow' = ow\<lparr>ow_AddFunc := Some (rw_Add rw), ow_UpdateFunc := Some (rw_Update rw),
                        ow_DeleteFunc := Some (rw_Delete rw)\<rparr>
           in if syncToAdd then ow'\<lparr>ow_SyncFunc := Some (rw_Add rw)\<rparr> else ow'))"

section \<open>Calling the user's functions\<close>

definition call_handler ::
  "handler \<Rightarrow> ptr \<Rightarrow> ('u, go_error option) io option \<Rightarrow> ('u, go_error option) io" where
  "call_handler h p f = (case f of
     None \<Rightarrow> State_Monad.return None
   | Some m \<Rightarrow> do { r \<leftarrow> m; emit (EvHandler h p r); State_Monad.return r })"

definition addFunc :: "'u OpinionatedWatcher \<Rightarrow> ptr \<Rightarrow> ('u, go_error option) io" where
  "addFunc ow p = call_handler HAdd p (map_option (\<lambda>f. f (Some p)) (ow_AddFunc ow))"

definition updateFunc :: "'u OpinionatedWatcher \<Rightarrow> ptr \<Rightarrow> ptr \<Rightarrow> ('u, go_error option) io" where
  "updateFunc ow src tgt =
     call_handler HUpdate tgt (map_option (\<lambda>f. f (Some src) (Some tgt)) (ow_UpdateFunc ow))"

definition deleteFunc :: "'u OpinionatedWatcher \<Rightarrow> ptr \<Rightarrow> ('u, go_error option) io" where
  "deleteFunc ow p = call_handler HDelete p (map_option (\<lambda>f. f (Some p)) (ow_DeleteFunc ow))"

definition syncFunc :: "'u OpinionatedWatcher \<Rightarrow> ptr \<Rightarrow> ('u, go_error option) io" where
  "syncFunc ow p = call_handler HSync p (map_option (\<lambda>f. f (Some p)) (ow_SyncFunc ow))"

definition getFinalizers :: "object \<Rightarrow> string list" where
  "getFinalizers ob = (case o_Finalizers ob of Some fs \<Rightarrow> fs | None \<Rightarrow> [])"

section \<open>Add, Update, Delete\<close>

text \<open>
  The delete block that \<open>Add\<close> and \<open>Update\<close> both contain: run the delete handler, then remove
  whichever of the watcher's finalizers were on the object when the event was received.
\<close>

definition handle_deletion ::
  "(go_error \<Rightarrow> bool) \<Rightarrow> 'u OpinionatedWatcher \<Rightarrow> ptr \<Rightarrow> string list \<Rightarrow> ('u, go_error option) io" where
  "handle_deletion isConflict ow p fs = do {
     err \<leftarrow> deleteFunc ow p;
     (case err of
        Some e \<Rightarrow> State_Monad.return (Some e)
      | None \<Rightarrow> do {
          err1 \<leftarrow> (if ow_finalizer ow \<in> set fs
                   then RemoveFinalizer isConflict (ow_client ow) p (ow_finalizer ow)
                   else State_Monad.return None);
          (case err1 of
             Some e \<Rightarrow> State_Monad.return (Some e)
           | None \<Rightarrow>
               if ow_addPendingFinalizer ow \<in> set fs
               then RemoveFinalizer isConflict (ow_client ow) p (ow_addPendingFinalizer ow)
               else State_Monad.return None)
        })
   }"

definition handle_sync ::
  "(go_error \<Rightarrow> bool) \<Rightarrow> 'u OpinionatedWatcher \<Rightarrow> ptr \<Rightarrow> string list \<Rightarrow> ('u, go_error option) io" where
  "handle_sync isConflict ow p fs = do {
     err \<leftarrow> syncFunc ow p;
     (case err of
        Some e \<Rightarrow> State_Monad.return (Some e)
      | None \<Rightarrow>
          if ow_addPendingFinalizer ow \<in> set fs
          then RemoveFinalizer isConflict (ow_client ow) p (ow_addPendingFinalizer ow)
          else State_Monad.return None)
   }"

text \<open>The add handler and, when it succeeds, the swap of the in-progress finalizer for the final one.\<close>

definition add_and_finalize ::
  "(go_error \<Rightarrow> bool) \<Rightarrow> 'u OpinionatedWatcher \<Rightarrow> ptr \<Rightarrow> ('u, go_error option) io" where
  "add_and_finalize isConflict ow p = do {
     err \<leftarrow> addFunc ow p;
     (case err of
        Some e \<Rightarrow> State_Monad.return (Some e)
      | None \<Rightarrow> do {
          err' \<leftarrow> ReplaceFinalizer isConflict (ow_client ow) p (ow_addPendingFinalizer ow) (ow_finalizer ow);
          State_Monad.return (map_option (Wrapped ''error adding finalizer'') err')
        })
   }"

definition Add ::
  "(go_error \<Rightarrow> bool) \<Rightarrow> 'u OpinionatedWatcher \<Rightarrow> ptr option \<Rightarrow> ('u, go_error option) io" where
  "Add isConflict ow object =
     (case object of
        None \<Rightarrow> State_Monad.return (Some (GoErr ''object cannot be nil''))
      | Some p \<Rightarrow> do {
          ob \<leftarrow> deref p;
          let fs = getFinalizers ob;
          if o_DeletionTimestamp ob \<noteq> None then
            (if ow_finalizer ow \<notin> set fs \<and> ow_addPendingFinalizer ow \<notin> set fs
             then State_Monad.return None
             else handle_deletion isConflict ow p fs)
          else if ow_finalizer ow \<in> set fs then handle_sync isConflict ow p fs
          else do {
            err \<leftarrow> AddFinalizer isConflict (ow_client ow) p (ow_addPendingFinalizer ow);
            (case err of
               Some e \<Rightarrow> State_Monad.return (Some (Wrapped ''error adding in-progress finalizer'' e))
             | None \<Rightarrow> add_and_finalize isConflict ow p)
          }
        })"

text \<open>
  The second half of \<open>Update\<close>, from the check of the deletion timestamp on. It reads the
  timestamp again, but keeps using the finalizers read before the add block.
\<close>

definition update_rest ::
  "(go_error \<Rightarrow> bool) \<Rightarrow> 'u OpinionatedWatcher \<Rightarrow> ptr \<Rightarrow> ptr \<Rightarrow> string list \<Rightarrow> string list \<Rightarrow>
   ('u, go_error option) io" where
  "update_rest isConflict ow src tgt oldFinalizers newFinalizers = do {
     ob \<leftarrow> deref tgt;
     if o_DeletionTimestamp ob \<noteq> None then
       (if ow_finalizer ow \<notin> set newFinalizers \<and> ow_addPendingFinalizer ow \<notin> set newFinalizers
        then State_Monad.return None
        else handle_deletion isConflict ow tgt newFinalizers)
     else if ow_finalizer ow \<notin> set oldFinalizers \<and> ow_finalizer ow \<in> set newFinalizers
     then State_Monad.return None
     else updateFunc ow src tgt
   }"

definition Update ::
  "(go_error \<Rightarrow> bool) \<Rightarrow> 'u OpinionatedWatcher \<Rightarrow> ptr option \<Rightarrow> ptr option \<Rightarrow> ('u, go_error option) io"
where
  "Update isConflict ow src tgt =
     (case (src, tgt) of
        (None, _) \<Rightarrow> State_Monad.return (Some (GoErr ''old cannot be nil''))
      | (_, None) \<Rightarrow> State_Monad.return (Some (GoErr ''new cannot be nil''))
      | (Some s, Some t) \<Rightarrow> do {
          old \<leftarrow> deref s;
          new \<leftarrow> deref t;
          if 0 < o_Generation new \<and> o_Generation old = o_Generation new
          then State_Monad.return None
          else do {
            let oldFinalizers = getFinalizers old;
            let newFinalizers = getFinalizers new;
            if ow_finalizer ow \<notin> set newFinalizers \<and> o_DeletionTimestamp new = None then do {
              err \<leftarrow> add_and_finalize isConflict ow t;
              (case err of
                 Some e \<Rightarrow> State_Monad.return (Some e)
               | None \<Rightarrow> update_rest isConflict ow s t oldFinalizers newFinalizers)
            } else update_rest isConflict ow s t oldFinalizers newFinalizers
          }
        })"

definition Delete :: "'u OpinionatedWatcher \<Rightarrow> ptr option \<Rightarrow> ('u, go_error option) io" where
  "Delete ow object = State_Monad.return None"

definition opinionated_watcher :: "(go_error \<Rightarrow> bool) \<Rightarrow> 'u OpinionatedWatcher \<Rightarrow> 'u ResourceWatcher" where
  "opinionated_watcher isConflict ow =
     \<lparr>rw_Add = Add isConflict ow, rw_Update = Update isConflict ow, rw_Delete = Delete ow\<rparr>"

section \<open>Lemmas on the branches\<close>

text \<open>A user function does not write the ghost trace.\<close>

definition untraced :: "('u, 'a) io \<Rightarrow> bool" where
  "untraced m \<longleftrightarrow> (\<forall>w. w_trace (snd (run_state m w)) = w_trace w)"

lemma untracedD: "untraced m \<Longrightarrow> run_state m w = (r, w') \<Longrightarrow> w_trace w' = w_trace w"
  by (auto simp: untraced_def dest: spec [of _ w])

lemma getFinalizers_eq [simp]: "getFinalizers ob = finalizers_of ob"
  by (simp add: getFinalizers_def slice_def split: option.split)

lemma call_handler_trace:
  assumes "run_state (call_handler h p (Some m)) w = (r, w')" "untraced m"
  shows "w_trace w' = w_trace w @ [EvHandler h p r]"
  using assms by (auto simp: call_handler_def split: prod.splits dest: untracedD)

lemma call_handler_objs:
  assumes "run_state (call_handler h p (Some m)) w = (r, w')"
  shows "\<exists>w1. run_state m w = (r, w1) \<and> w_objs w' = w_objs w1"
  using assms by (auto simp: call_handler_def split: prod.splits)

lemma optional_remove_events:
  assumes "run_state (if b then RemoveFinalizer isConflict c p f else State_Monad.return None) w = (r, w')"
  shows "\<exists>es. w_trace w' = w_trace w @ es \<and> updater_events p es"
  using assms updater_call_events by (cases b) auto

lemma handle_deletion_trace:
  assumes "ow_DeleteFunc ow = Some d" "untraced (d (Some p))"
    and "run_state (handle_deletion isConflict ow p fs) w = (r, w')"
  shows "\<exists>r' es. w_trace w' = w_trace w @ EvHandler HDelete p r' # es \<and> updater_events p es \<and>
           (r' \<noteq> None \<longrightarrow> es = [] \<and> r = r')"
proof -
  from assms obtain r1 w1 where del: "run_state (deleteFunc ow p) w = (r1, w1)"
    by (cases "run_state (deleteFunc ow p) w") auto
  with assms(1,2) have tr1: "w_trace w1 = w_trace w @ [EvHandler HDelete p r1]"
    by (auto simp: deleteFunc_def intro: call_handler_trace)
  show ?thesis
  proof (cases r1)
    case (Some e)
    with del assms(3) tr1 show ?thesis by (auto simp: handle_deletion_def)
  next
    case None
    with del assms(3) obtain r2 w2 where
        rem1: "run_state (if ow_finalizer ow \<in> set fs
                 then RemoveFinalizer isConflict (ow_client ow) p (ow_finalizer ow)
                 else State_Monad.return None) w1 = (r2, w2)"
      and rest: "w' = w2 \<or> run_state (if ow_addPendingFinalizer ow \<in> set fs
                 then RemoveFinalizer isConflict (ow_client ow) p (ow_addPendingFinalizer ow)
                 else State_Monad.return None) w2 = (r, w')"
      by (auto simp: handle_deletion_def split: prod.splits option.splits if_splits)
    from optional_remove_events [OF rem1] rest optional_remove_events
    obtain es where "w_trace w' = w_trace w1 @ es" "updater_events p es"
      by (metis append.assoc updater_events_simps(2))
    with tr1 None show ?thesis by auto
  qed
qed

lemma Add_deleted:
  assumes "o_DeletionTimestamp (w_objs w p) \<noteq> None"
  shows "run_state (Add isConflict ow (Some p)) w =
    (if ow_finalizer ow \<notin> set (finalizers_of (w_objs w p)) \<and>
        ow_addPendingFinalizer ow \<notin> set (finalizers_of (w_objs w p))
     then (None, w)
     else run_state (handle_deletion isConflict ow p (finalizers_of (w_objs w p))) w)"
  using assms by (simp add: Add_def)

lemma Add_known:
  assumes "o_DeletionTimestamp (w_objs w p) = None"
    and "ow_finalizer ow \<in> set (finalizers_of (w_objs w p))"
  shows "run_state (Add isConflict ow (Some p)) w =
    run_state (handle_sync isConflict ow p (finalizers_of (w_objs w p))) w"
  using assms by (simp add: Add_def)

lemma Add_new:
  assumes "o_DeletionTimestamp (w_objs w p) = None"
    and "ow_finalizer ow \<notin> set (finalizers_of (w_objs w p))"
  shows "run_state (Add isConflict ow (Some p)) w =
    (case run_state (AddFinalizer isConflict (ow_client ow) p (ow_addPendingFinalizer ow)) w of
       (Some e, w') \<Rightarrow> (Some (Wrapped ''error adding in-progress finalizer'' e), w')
     | (None, w') \<Rightarrow> run_state (add_and_finalize isConflict ow p) w')"
  using assms by (simp add: Add_def split: prod.split option.split)

lemma Update_skips:
  assumes "0 < o_Generation (w_objs w t)" "o_Generation (w_objs w s) = o_Generation (w_objs w t)"
  shows "run_state (Update isConflict ow (Some s) (Some t)) w = (None, w)"
  using assms by (simp add: Update_def)

lemma Update_deleted:
  assumes "o_DeletionTimestamp (w_objs w t) \<noteq> None"
    and "\<not> (0 < o_Generation (w_objs w t) \<and> o_Generation (w_objs w s) = o_Generation (w_objs w t))"
  shows "run_state (Update isConflict ow (Some s) (Some t)) w =
    (if ow_finalizer ow \<notin> set (finalizers_of (w_objs w t)) \<and>
        ow_addPendingFinalizer ow \<notin> set (finalizers_of (w_objs w t))
     then (None, w)
     else run_state (handle_deletion isConflict ow t (finalizers_of (w_objs w t))) w)"
  using assms by (auto simp: Update_def update_rest_def Let_def)

lemma deletion_cases:
  assumes del: "o_DeletionTimestamp (w_objs w p) \<noteq> None"
    and run: "run_state (Add isConflict ow (Some p)) w = (r, w') \<or>
         run_state (Update isConflict ow (Some s) (Some p)) w = (r, w')"
  shows "w' = w \<or> run_state (handle_deletion isConflict ow p (finalizers_of (w_objs w p))) w = (r, w')"
proof (cases "0 < o_Generation (w_objs w p) \<and> o_Generation (w_objs w s) = o_Generation (w_objs w p)")
  case True
  with run Add_deleted [OF del] Update_skips [of w p s] show ?thesis by (auto split: if_splits)
next
  case False
  from run Add_deleted [OF del] Update_deleted [OF del False] show ?thesis by (auto split: if_splits)
qed

text \<open>After a successful add the final finalizer is on the object and the in-progress one is off it.\<close>

lemma add_and_finalize_success:
  assumes c: "honours_patches (ow_client ow)"
      "keeps (swappable (ow_addPendingFinalizer ow) (ow_finalizer ow)) (ow_client ow)"
    and ne: "ow_addPendingFinalizer ow \<noteq> ow_finalizer ow"
    and f: "ow_AddFunc ow = Some f" "\<And>w r w'. run_state (f (Some p)) w = (r, w') \<Longrightarrow> w_objs w' p = w_objs w p"
    and sw: "swappable (ow_addPendingFinalizer ow) (ow_finalizer ow) (w_objs w p)"
    and run: "run_state (add_and_finalize isConflict ow p) w = (None, w')"
  shows "ow_finalizer ow \<in> set (finalizers_of (w_objs w' p)) \<and>
         ow_addPendingFinalizer ow \<notin> set (finalizers_of (w_objs w' p))"
proof -
  from run obtain w1 where add: "run_state (addFunc ow p) w = (None, w1)"
    and rep: "run_state (ReplaceFinalizer isConflict (ow_client ow) p
                (ow_addPendingFinalizer ow) (ow_finalizer ow)) w1 = (None, w')"
    by (auto simp: add_and_finalize_def split: prod.splits option.splits)
  from add f have "w_objs w1 p = w_objs w p"
    by (auto simp: addFunc_def dest: call_handler_objs)
  with sw rep ReplaceFinalizer_success [OF c ne] show ?thesis by metis
qed

lemma add_and_finalize_trace:
  assumes "ow_AddFunc ow = Some f" "untraced (f (Some p))"
    and "run_state (add_and_finalize isConflict ow p) w = (r, w')"
  shows "\<exists>r' es. w_trace w' = w_trace w @ EvHandler HAdd p r' # es \<and> updater_events p es \<and>
           (r' \<noteq> None \<longrightarrow> es = [] \<and> r = r')"
proof -
  obtain r1 w1 where add: "run_state (addFunc ow p) w = (r1, w1)" by fastforce
  with assms(1,2) have tr1: "w_trace w1 = w_trace w @ [EvHandler HAdd p r1]"
    by (auto simp: addFunc_def intro: call_handler_trace)
  show ?thesis
  proof (cases r1)
    case (Some e)
    with add assms(3) tr1 show ?thesis by (auto simp: add_and_finalize_def)
  next
    case None
    with add assms(3) obtain r2 where
      "run_state (ReplaceFinalizer isConflict (ow_client ow) p
         (ow_addPendingFinalizer ow) (ow_finalizer ow)) w1 = (r2, w')"
      by (auto simp: add_and_finalize_def split: prod.splits)
    from updater_call_events(3) [OF this] tr1 None show ?thesis by auto
  qed
qed

section \<open>Properties\<close>

text \<open>A watcher to run: handlers that succeed, except that the given one fails, on the sample server.\<close>

definition sample_watcher :: "handler option \<Rightarrow> nat OpinionatedWatcher" where
  "sample_watcher bad =
     (let run = (\<lambda>h. State_Monad.return (if bad = Some h then Some (GoErr ''boom'') else None))
      in \<lparr>ow_AddFunc = Some (\<lambda>ob. run HAdd), ow_UpdateFunc = Some (\<lambda>src tgt. run HUpdate),
          ow_DeleteFunc = Some (\<lambda>ob. run HDelete), ow_SyncFunc = Some (\<lambda>ob. run HSync),
          ow_finalizer = ''done'', ow_addPendingFinalizer = ''wip'',
          ow_schema = \<lparr>sch_Group = ''g'', sch_Version = ''v1'', sch_Kind = ''Foo'', sch_Plural = ''foos''\<rparr>,
          ow_client = sample_client\<rparr>)"

lemma sample_watcher_sel [simp]:
  "ow_finalizer (sample_watcher b) = ''done''" "ow_addPendingFinalizer (sample_watcher b) = ''wip''"
  "ow_client (sample_watcher b) = sample_client"
  "ow_AddFunc (sample_watcher b) =
     Some (\<lambda>ob. State_Monad.return (if b = Some HAdd then Some (GoErr ''boom'') else None))"
  "ow_UpdateFunc (sample_watcher b) =
     Some (\<lambda>src tgt. State_Monad.return (if b = Some HUpdate then Some (GoErr ''boom'') else None))"
  "ow_DeleteFunc (sample_watcher b) =
     Some (\<lambda>ob. State_Monad.return (if b = Some HDelete then Some (GoErr ''boom'') else None))"
  "ow_SyncFunc (sample_watcher b) =
     Some (\<lambda>ob. State_Monad.return (if b = Some HSync then Some (GoErr ''boom'') else None))"
  by (simp_all add: sample_watcher_def Let_def)

lemma untraced_return [simp]: "untraced (State_Monad.return x)"
  by (simp add: untraced_def)

definition deleted :: "object \<Rightarrow> object" where
  "deleted ob = ob\<lparr>o_DeletionTimestamp := Some 5\<rparr>"

text \<open>
  C7. On an object that is being deleted, \<open>Add\<close> and \<open>Update\<close> touch the finalizers only after the
  delete handler has returned without an error; if it fails, its error is returned and no
  request is sent at all.
\<close>

theorem release_after_delete:
  assumes "o_DeletionTimestamp (w_objs w p) \<noteq> None"
    and "ow_DeleteFunc ow = Some d" "untraced (d (Some p))"
    and "run_state (Add isConflict ow (Some p)) w = (r, w') \<or>
         run_state (Update isConflict ow (Some s) (Some p)) w = (r, w')"
  shows "\<exists>es. w_trace w' = w_trace w @ es \<and>
    (es = [] \<or> (\<exists>r' es'. es = EvHandler HDelete p r' # es' \<and> updater_events p es' \<and>
                  (r' \<noteq> None \<longrightarrow> es' = [] \<and> r = r')))"
proof -
  from deletion_cases [OF assms(1,4)] show ?thesis
  proof
    assume "w' = w"
    then show ?thesis by simp
  next
    assume "run_state (handle_deletion isConflict ow p (finalizers_of (w_objs w p))) w = (r, w')"
    from handle_deletion_trace [OF assms(2,3) this] show ?thesis by auto
  qed
qed

theorem release_after_delete_witness:
  "\<exists>es. w_trace (snd (run_state (Add sample_conflict (sample_watcher None) (Some 0))
        (sample_world (deleted (sample_object [''done''])) 0))) = [] @ es \<and>
    (es = [] \<or> (\<exists>r' es'. es = EvHandler HDelete 0 r' # es' \<and> updater_events 0 es' \<and>
                  (r' \<noteq> None \<longrightarrow> es' = [] \<and>
                   fst (run_state (Add sample_conflict (sample_watcher None) (Some 0))
                     (sample_world (deleted (sample_object [''done''])) 0)) = r')))"
proof -
  let ?w = "sample_world (deleted (sample_object [''done''])) 0"
  have ts: "o_DeletionTimestamp (w_objs ?w 0) \<noteq> None"
    by (simp add: sample_world_def deleted_def)
  have tr: "w_trace ?w = []" by (simp add: sample_world_def)
  let ?m = "Add sample_conflict (sample_watcher None) (Some 0)"
  have run: "run_state ?m ?w = (fst (run_state ?m ?w), snd (run_state ?m ?w)) \<or>
      run_state (Update sample_conflict (sample_watcher None) (Some 0) (Some 0)) ?w =
        (fst (run_state ?m ?w), snd (run_state ?m ?w))"
    by simp
  from release_after_delete [OF ts sample_watcher_sel(6) untraced_return run]
  show ?thesis unfolding tr .
qed

text \<open>
  An \<open>Add\<close> of a new object that returns without an error leaves the watcher's finalizer on the
  object and the in-progress finalizer off it.
\<close>

lemma Add_new_finalized:
  assumes "honours_patches (ow_client ow)"
      "keeps (swappable (ow_addPendingFinalizer ow) (ow_finalizer ow)) (ow_client ow)"
      "ow_addPendingFinalizer ow \<noteq> ow_finalizer ow"
    and "ow_AddFunc ow = Some f"
      "\<And>w r w'. run_state (f (Some p)) w = (r, w') \<Longrightarrow> w_objs w' p = w_objs w p"
    and "o_DeletionTimestamp (w_objs w p) = None"
      "ow_finalizer ow \<notin> set (finalizers_of (w_objs w p))"
    and "\<And>w1. run_state (AddFinalizer isConflict (ow_client ow) p (ow_addPendingFinalizer ow)) w
            = (None, w1) \<Longrightarrow> distinct (finalizers_of (w_objs w1 p))"
    and "run_state (Add isConflict ow (Some p)) w = (None, w')"
  shows "ow_finalizer ow \<in> set (finalizers_of (w_objs w' p)) \<and>
         ow_addPendingFinalizer ow \<notin> set (finalizers_of (w_objs w' p))"
proof -
  from assms(9) Add_new [OF assms(6,7)] obtain w1 where
      add: "run_state (AddFinalizer isConflict (ow_client ow) p (ow_addPendingFinalizer ow)) w = (None, w1)"
    and fin: "run_state (add_and_finalize isConflict ow p) w1 = (None, w')"
    by (auto split: prod.splits option.splits)
  have "swappable (ow_addPendingFinalizer ow) (ow_finalizer ow) (w_objs w1 p)"
    using AddFinalizer_success [OF assms(1) add] assms(8) [OF add] by (simp add: swappable_def)
  from add_and_finalize_success [OF assms(1-5) this fin] show ?thesis by simp
qed

lemma Add_new_finalized_witness:
  "let w' = snd (run_state (Add sample_conflict (sample_watcher None) (Some 0))
              (sample_world (sample_object [''x'']) 0))
   in ''done'' \<in> set (finalizers_of (w_objs w' 0)) \<and> ''wip'' \<notin> set (finalizers_of (w_objs w' 0))"
proof -
  let ?ow = "sample_watcher None"
  let ?w = "sample_world (sample_object [''x'']) 0"
  let ?m = "Add sample_conflict ?ow (Some 0)"
  have fs: "o_DeletionTimestamp (w_objs ?w 0) = None" "finalizers_of (w_objs ?w 0) = [''x'']"
    by (simp_all add: sample_world_def sample_object_def)
  have "fst (run_state ?m ?w) = None" by code_simp
  then have run: "run_state ?m ?w = (None, snd (run_state ?m ?w))" by (simp add: prod_eq_iff)
  have d: "distinct (finalizers_of (w_objs (snd (run_state
      (AddFinalizer sample_conflict sample_client 0 ''wip'') ?w)) 0))" by code_simp
  have "ow_finalizer ?ow \<in> set (finalizers_of (w_objs (snd (run_state ?m ?w)) 0)) \<and>
        ow_addPendingFinalizer ?ow \<notin> set (finalizers_of (w_objs (snd (run_state ?m ?w)) 0))"
    by (rule Add_new_finalized [OF _ _ _ sample_watcher_sel(4) _ fs(1) _ _ run])
       (use d fs in \<open>auto simp: prod_eq_iff\<close>)
  then show ?thesis by (simp add: Let_def)
qed

text \<open>
  When the add handler fails on a new object, \<open>Add\<close> returns the handler's error and the object
  keeps the in-progress finalizer it was given before, without the final one: a later event for it
  is treated as an add again, and a delete still reaches the delete handler.
\<close>

lemma Add_failed_stays_pending:
  assumes "honours_patches (ow_client ow)"
    and "ow_AddFunc ow = Some f"
      "\<And>w r w'. run_state (f (Some p)) w = (r, w') \<Longrightarrow> r = Some e \<and> w_objs w' p = w_objs w p"
    and "o_DeletionTimestamp (w_objs w p) = None"
      "ow_finalizer ow \<notin> set (finalizers_of (w_objs w p))"
    and "run_state (AddFinalizer isConflict (ow_client ow) p (ow_addPendingFinalizer ow)) w = (None, w1)"
  shows "\<exists>w'. run_state (Add isConflict ow (Some p)) w = (Some e, w') \<and> w_objs w' p = w_objs w1 p \<and>
           ow_addPendingFinalizer ow \<in> set (finalizers_of (w_objs w' p))"
proof -
  obtain r w2 where call: "run_state (f (Some p)) w1 = (r, w2)" by fastforce
  with assms(3) have r: "r = Some e" "w_objs w2 p = w_objs w1 p" by blast+
  from Add_new [OF assms(4,5), of isConflict] assms(2,6) call r
  have "run_state (Add isConflict ow (Some p)) w =
      (Some e, w2\<lparr>w_trace := w_trace w2 @ [EvHandler HAdd p (Some e)]\<rparr>)"
    by (simp add: add_and_finalize_def addFunc_def call_handler_def)
  with r AddFinalizer_success [OF assms(1,6)] show ?thesis by simp
qed

lemma Add_failed_stays_pending_witness:
  "\<exists>w'. run_state (Add sample_conflict (sample_watcher (Some HAdd)) (Some 0))
          (sample_world (sample_object [''x'']) 0) = (Some (GoErr ''boom''), w') \<and>
        ''wip'' \<in> set (finalizers_of (w_objs w' 0))"
proof -
  let ?ow = "sample_watcher (Some HAdd)"
  let ?w = "sample_world (sample_object [''x'']) 0"
  let ?m = "AddFinalizer sample_conflict sample_client 0 ''wip''"
  have "fst (run_state ?m ?w) = None" by code_simp
  then have run: "run_state (AddFinalizer sample_conflict (ow_client ?ow) 0 (ow_addPendingFinalizer ?ow)) ?w
      = (None, snd (run_state ?m ?w))" by (simp add: prod_eq_iff)
  have "\<exists>w'. run_state (Add sample_conflict ?ow (Some 0)) ?w = (Some (GoErr ''boom''), w') \<and>
      w_objs w' 0 = w_objs (snd (run_state ?m ?w)) 0 \<and>
      ow_addPendingFinalizer ?ow \<in> set (finalizers_of (w_objs w' 0))"
    by (rule Add_failed_stays_pending [OF _ sample_watcher_sel(4) _ _ _ run])
       (simp_all add: sample_world_def sample_object_def)
  then show ?thesis by auto
qed

text \<open>
  An update event for a live object without the watcher's finalizer runs the add handler and,
  when the add succeeds, the update handler as well, in this order: the check that is meant to
  skip the update handler for the watcher's own finalizer change reads the finalizers from before
  the change.
\<close>

lemma Update_missing_runs_both:
  assumes "ow_AddFunc ow = Some f" "untraced (f (Some t))"
    and "ow_UpdateFunc ow = Some u" "untraced (u (Some s) (Some t))"
    and "o_DeletionTimestamp (w_objs w t) = None"
      "ow_finalizer ow \<notin> set (finalizers_of (w_objs w t))"
      "o_Generation (w_objs w s) \<noteq> o_Generation (w_objs w t)"
    and "run_state (add_and_finalize isConflict ow t) w = (None, w1)"
      "o_DeletionTimestamp (w_objs w1 t) = None"
    and "run_state (Update isConflict ow (Some s) (Some t)) w = (r, w')"
  shows "\<exists>es. updater_events t es \<and>
           w_trace w' = w_trace w @ EvHandler HAdd t None # es @ [EvHandler HUpdate t r]"
proof -
  from add_and_finalize_trace [OF assms(1,2,8)] obtain es where
    es: "w_trace w1 = w_trace w @ EvHandler HAdd t None # es" "updater_events t es" by auto
  from assms(5-10) have "run_state (updateFunc ow s t) w1 = (r, w')"
    by (simp add: Update_def update_rest_def Let_def)
  with assms(3,4) have "w_trace w' = w_trace w1 @ [EvHandler HUpdate t r]"
    by (auto simp: updateFunc_def intro: call_handler_trace)
  with es show ?thesis by auto
qed

definition sample_pair :: "object \<Rightarrow> object \<Rightarrow> nat world" where
  "sample_pair old new = \<lparr>w_objs = (\<lambda>q. if q = 0 then old else new), w_now = 0, w_trace = [], w_ext = 0\<rparr>"

lemma Update_missing_runs_both_witness:
  "\<exists>es. updater_events 1 es \<and>
     w_trace (snd (run_state (Update sample_conflict (sample_watcher None) (Some 0) (Some 1))
       (sample_pair ((sample_object [''x''])\<lparr>o_Generation := 2\<rparr>) (sample_object [''wip''])))) =
     [] @ EvHandler HAdd 1 None # es @ [EvHandler HUpdate 1
       (fst (run_state (Update sample_conflict (sample_watcher None) (Some 0) (Some 1))
       (sample_pair ((sample_object [''x''])\<lparr>o_Generation := 2\<rparr>) (sample_object [''wip'']))))]"
proof -
  let ?ow = "sample_watcher None"
  let ?w = "sample_pair ((sample_object [''x''])\<lparr>o_Generation := 2\<rparr>) (sample_object [''wip''])"
  let ?m = "add_and_finalize sample_conflict ?ow 1"
  have "fst (run_state ?m ?w) = None" by code_simp
  then have run: "run_state ?m ?w = (None, snd (run_state ?m ?w))" by (simp add: prod_eq_iff)
  have live: "o_DeletionTimestamp (w_objs (snd (run_state ?m ?w)) 1) = None" by code_simp
  have tr: "w_trace ?w = []" by (simp add: sample_pair_def)
  from Update_missing_runs_both [OF sample_watcher_sel(4) untraced_return sample_watcher_sel(5)
      untraced_return _ _ _ run live surjective_pairing, of 0]
  show ?thesis unfolding tr by (simp add: sample_pair_def sample_object_def)
qed

text \<open>
  A watcher that \<open>NewOpinionatedWatcher\<close> returns has the finalizers its suppliers compute for
  the schema, both at most 63 characters long, and the call fails exactly when an argument is nil
  or one of the two is longer.
\<close>

lemma NewOpinionatedWatcher_finalizers:
  "case NewOpinionatedWatcher sch client cfg of
     Inr ow \<Rightarrow> sch = Some (ow_schema ow) \<and> client = Some (ow_client ow) \<and>
       ow_finalizer ow = (case owc_Finalizer cfg of None \<Rightarrow> DefaultFinalizerSupplier | Some f \<Rightarrow> f) (ow_schema ow) \<and>
       ow_addPendingFinalizer ow =
         (case owc_InProgressFinalizer cfg of None \<Rightarrow> InProgressFinalizerSupplier | Some f \<Rightarrow> f) (ow_schema ow) \<and>
       length (ow_finalizer ow) \<le> 63 \<and> length (ow_addPendingFinalizer ow) \<le> 63
   | Inl e \<Rightarrow> sch = None \<or> client = None \<or> (\<exists>s. sch = Some s \<and>
       (63 < length ((case owc_Finalizer cfg of None \<Rightarrow> DefaultFinalizerSupplier | Some f \<Rightarrow> f) s) \<or>
        63 < length ((case owc_InProgressFinalizer cfg of None \<Rightarrow> InProgressFinalizerSupplier | Some f \<Rightarrow> f) s)))"
  by (auto simp: NewOpinionatedWatcher_def Let_def split: option.splits)

end
