(* ===== verification/Opinionated_Reconciler.thy ===== *)
theory Opinionated_Reconciler
  imports Opinionated_Watcher
begin

text \<open>
  \<^verbatim>\<open>operator/reconciler.go\<close>: reconcile requests and results, the conversions between the two kinds
  of actions, and the \<open>OpinionatedReconciler\<close>, which turns creates of known objects into
  resyncs, converts the update that starts a deletion into a delete, and keeps a finalizer on every
  object its wrapped reconciler has handled. Each call of the wrapped reconciler is recorded in
  the ghost trace with the action it is given.
\<close>

section \<open>Requests and results\<close>

datatype ResourceAction =
    ResourceActionCreate
  | ResourceActionUpdate
  | ResourceActionDelete
  | ResourceActionResync
  | ResourceActionOther string

text \<open>The values of a \<^verbatim>\<open>map[string]any\<close>: nil, an error stored by the SDK, or a value of the user's.\<close>

datatype any = AnyNil | AnyErr go_error | AnyVal string

type_synonym state_map = "string \<Rightarrow> any option"

record ReconcileRequest =
  rq_Action :: ReconcileAction
  rq_Object :: ptr
  rq_State :: "state_map option"

record ReconcileResult =
  rr_RequeueAfter :: "duration option"
  rr_State :: "state_map option"

definition empty_result :: ReconcileResult where
  "empty_result = \<lparr>rr_RequeueAfter = None, rr_State = None\<rparr>"

type_synonym 'u Reconciler = "ReconcileRequest \<Rightarrow> ('u, ReconcileResult \<times> go_error option) io"

definition ReconcileActionFromResourceAction :: "ResourceAction \<Rightarrow> ReconcileAction" where
  "ReconcileActionFromResourceAction action = (case action of
     ResourceActionCreate \<Rightarrow> ReconcileActionCreated
   | ResourceActionUpdate \<Rightarrow> ReconcileActionUpdated
   | ResourceActionDelete \<Rightarrow> ReconcileActionDeleted
   | ResourceActionResync \<Rightarrow> ReconcileActionResynced
   | ResourceActionOther s \<Rightarrow> ReconcileActionUnknown)"

definition ResourceActionFromReconcileAction :: "ReconcileAction \<Rightarrow> ResourceAction" where
  "ResourceActionFromReconcileAction action = (case action of
     ReconcileActionCreated \<Rightarrow> ResourceActionCreate
   | ReconcileActionUpdated \<Rightarrow> ResourceActionUpdate
   | ReconcileActionDeleted \<Rightarrow> ResourceActionDelete
   | ReconcileActionResynced \<Rightarrow> ResourceActionResync
   | ReconcileActionUnknown \<Rightarrow> ResourceActionOther [])"

text \<open>\<^verbatim>\<open>State == nil || State[key] == nil\<close> and \<^verbatim>\<open>State[key] = v\<close> with the map made when it is nil.\<close>

definition state_unset :: "state_map option \<Rightarrow> string \<Rightarrow> bool" where
  "state_unset st key = (case st of None \<Rightarrow> True | Some m \<Rightarrow> m key = None \<or> m key = Some AnyNil)"

definition state_put :: "state_map option \<Rightarrow> string \<Rightarrow> any \<Rightarrow> state_map option" where
  "state_put st key v = Some ((case st of None \<Rightarrow> Map.empty | Some m \<Rightarrow> m)(key \<mapsto> v))"

lemma state_unset_put [simp]: "state_unset (state_put st key v) key \<longleftrightarrow> v = AnyNil"
  by (auto simp: state_unset_def state_put_def)

section \<open>OpinionatedReconciler\<close>

record 'u OpinionatedReconciler =
  or_Reconciler :: "'u Reconciler option"
  or_finalizer :: string
  or_client :: "'u PatchClient"

definition NewOpinionatedReconciler ::
  "'u PatchClient option \<Rightarrow> string \<Rightarrow> go_error + 'u OpinionatedReconciler" where
  "NewOpinionatedReconciler client finalizer =
     (case client of None \<Rightarrow> Inl (GoErr ''client cannot be nil'')
      | Some c \<Rightarrow>
          if finalizer = [] then Inl (GoErr ''finalizer cannot be empty'')
          else if 63 < length finalizer
          then Inl (GoErr (''finalizer length cannot exceed 63 chars: '' @ finalizer))
          else Inr \<lparr>or_Reconciler = None, or_finalizer = finalizer, or_client = c\<rparr>)"

definition patchAddStateKey :: string where
  "patchAddStateKey = ''grafana-app-sdk-opinionated-reconciler-create-patch-status''"

definition patchRemoveStateKey :: string where
  "patchRemoveStateKey = ''grafana-app-sdk-opinionated-reconciler-delete-patch-status''"

definition wrappedReconcile ::
  "'u OpinionatedReconciler \<Rightarrow> ReconcileRequest \<Rightarrow> ('u, ReconcileResult \<times> go_error option) io" where
  "wrappedReconcile o' req = (case or_Reconciler o' of
     None \<Rightarrow> State_Monad.return (empty_result, None)
   | Some rec \<Rightarrow> do {
       r \<leftarrow> rec req;
       emit (EvHandler (HReconcile (rq_Action req)) (rq_Object req) (snd r));
       State_Monad.return r })"

definition WrapReconciler :: "'u OpinionatedReconciler \<Rightarrow> 'u Reconciler option \<Rightarrow> 'u OpinionatedReconciler"
where
  "WrapReconciler o' rec = o'\<lparr>or_Reconciler := rec\<rparr>"

text \<open>
  The tail that the delete and the create branch share: after the wrapped reconciler has succeeded
  (now or on an earlier try), run the finalizer operation and store its error under the key.
\<close>

definition finish_patch ::
  "('u, go_error option) io \<Rightarrow> string \<Rightarrow> ReconcileResult \<Rightarrow> ('u, ReconcileResult \<times> go_error option) io" where
  "finish_patch op key res = do {
     patchErr \<leftarrow> op;
     State_Monad.return
       (case patchErr of
          None \<Rightarrow> (res, None)
        | Some e \<Rightarrow> (res\<lparr>rr_State := state_put (rr_State res) key (AnyErr e)\<rparr>, Some e))
   }"

definition delegate_then ::
  "'u OpinionatedReconciler \<Rightarrow> ReconcileRequest \<Rightarrow> ('u, go_error option) io \<Rightarrow> string \<Rightarrow>
   ('u, ReconcileResult \<times> go_error option) io" where
  "delegate_then o' request op key =
     (if state_unset (rq_State request) key then do {
        (res, err) \<leftarrow> wrappedReconcile o' request;
        if err \<noteq> None \<or> rr_RequeueAfter res \<noteq> None then State_Monad.return (res, err)
        else finish_patch op key res
      } else finish_patch op key empty_result)"

definition Reconcile ::
  "(go_error \<Rightarrow> bool) \<Rightarrow> 'u OpinionatedReconciler \<Rightarrow> ReconcileRequest \<Rightarrow>
   ('u, ReconcileResult \<times> go_error option) io" where
  "Reconcile isConflict o' request =
     (if rq_Action request = ReconcileActionDeleted then State_Monad.return (empty_result, None)
      else do {
        ob \<leftarrow> deref (rq_Object request);
        let p = rq_Object request;
        let fin = or_finalizer o';
        if o_DeletionTimestamp ob \<noteq> None \<and> fin \<in> set (finalizers_of ob) then
          delegate_then o' (request\<lparr>rq_Action := ReconcileActionDeleted\<rparr>)
            (RemoveFinalizer isConflict (or_client o') p fin) patchRemoveStateKey
        else if o_DeletionTimestamp ob \<noteq> None then State_Monad.return (empty_result, None)
        else if rq_Action request = ReconcileActionCreated \<and> fin \<in> set (finalizers_of ob) then
          wrappedReconcile o' (request\<lparr>rq_Action := ReconcileActionResynced\<rparr>)
        else if rq_Action request = ReconcileActionCreated then
          delegate_then o' request (AddFinalizer isConflict (or_client o') p fin) patchAddStateKey
        else if rq_Action request = ReconcileActionUpdated \<and> fin \<notin> set (finalizers_of ob) then do {
          patchErr \<leftarrow> AddFinalizer isConflict (or_client o') p fin;
          State_Monad.return (empty_result, patchErr)
        } else wrappedReconcile o' request
      })"

section \<open>Simple and typed reconcilers\<close>

record 'u SimpleReconciler =
  sr_ReconcileFunc :: "'u Reconciler option"

definition simple_Reconcile :: "'u SimpleReconciler \<Rightarrow> 'u Reconciler" where
  "simple_Reconcile s req = (case sr_ReconcileFunc s of
     Some f \<Rightarrow> f req | None \<Rightarrow> State_Monad.return (empty_result, None))"

text \<open>
  A \<^verbatim>\<open>TypedReconciler[T]\<close>: \<open>tr_is_T\<close> tells whether the dynamic type of an object is \<open>T\<close>, so a
  typed request has the fields of an untyped one.
\<close>

record 'u TypedReconciler =
  tr_ReconcileFunc :: "'u Reconciler option"
  tr_is_T :: "object \<Rightarrow> bool"

definition typed_Reconcile :: "'u TypedReconciler \<Rightarrow> 'u Reconciler" where
  "typed_Reconcile t request = (case tr_ReconcileFunc t of
     None \<Rightarrow> State_Monad.return (empty_result, None)
   | Some f \<Rightarrow> do {
       ob \<leftarrow> deref (rq_Object request);
       if tr_is_T t ob
       then f \<lparr>rq_Action = rq_Action request, rq_Object = rq_Object request, rq_State = rq_State request\<rparr>
       else State_Monad.return (empty_result, Some (NewCannotCastError (GetStaticMetadata ob)))
     })"

section \<open>What the operations do to the trace\<close>

definition handler_events :: "event list \<Rightarrow> event list" where
  "handler_events es = filter (\<lambda>e. case e of EvHandler h p r \<Rightarrow> True | _ \<Rightarrow> False) es"

lemma handler_events_simps [simp]:
  "handler_events [] = []"
  "handler_events (EvHandler h p r # es) = EvHandler h p r # handler_events es"
  "handler_events (es @ es') = handler_events es @ handler_events es'"
  by (simp_all add: handler_events_def)

lemma updater_events_no_handler [simp]: "updater_events p es \<Longrightarrow> handler_events es = []"
  by (auto simp: updater_events_def handler_events_def guarded_patch_def filter_empty_conv)

lemma wrappedReconcile_trace:
  assumes "or_Reconciler o' = Some rec" "untraced (rec req)"
    and "run_state (wrappedReconcile o' req) w = ((res, err), w')"
  shows "w_trace w' = w_trace w @ [EvHandler (HReconcile (rq_Action req)) (rq_Object req) err]"
  using assms by (auto simp: wrappedReconcile_def split: prod.splits dest: untracedD)

lemma finish_patch_run:
  assumes "run_state (finish_patch op key res) w = ((res', err), w')"
  shows "run_state op w = (err, w') \<and>
         (err = None \<longrightarrow> res' = res) \<and>
         (\<forall>e. err = Some e \<longrightarrow> res' = res\<lparr>rr_State := state_put (rr_State res) key (AnyErr e)\<rparr>)"
  using assms by (auto simp: finish_patch_def split: prod.splits option.splits)

lemma delegate_then_skips:
  assumes "\<not> state_unset (rq_State req) key"
    and "run_state (delegate_then o' req op key) w = ((res, err), w')"
  shows "run_state op w = (err, w')"
  using assms finish_patch_run by (fastforce simp: delegate_then_def)

lemma delegate_then_fails:
  assumes "state_unset (rq_State req) key"
    and "run_state (wrappedReconcile o' req) w = ((res, None), w1)" "rr_RequeueAfter res = None"
    and "run_state op w1 = (Some e, w')"
  shows "run_state (delegate_then o' req op key) w =
     ((res\<lparr>rr_State := state_put (rr_State res) key (AnyErr e)\<rparr>, Some e), w')"
  using assms by (simp add: delegate_then_def finish_patch_def)

text \<open>A delegated request: the wrapped reconciler first, the finalizer operation only on its success.\<close>

lemma delegate_then_trace:
  assumes rec: "or_Reconciler o' = Some rec" "untraced (rec req)"
    and op: "\<And>w r w'. run_state op w = (r, w') \<Longrightarrow>
        \<exists>es. w_trace w' = w_trace w @ es \<and> updater_events (rq_Object req) es"
    and run: "run_state (delegate_then o' req op key) w = ((res, err), w')"
    and unset: "state_unset (rq_State req) key"
  shows "\<exists>r es. w_trace w' = w_trace w @ EvHandler (HReconcile (rq_Action req)) (rq_Object req) r # es \<and>
           updater_events (rq_Object req) es \<and>
           (r \<noteq> None \<or> rr_RequeueAfter res \<noteq> None \<longrightarrow> es = [] \<and> err = r)"
proof -
  obtain res1 err1 w1 where wr: "run_state (wrappedReconcile o' req) w = ((res1, err1), w1)"
    by (metis surj_pair)
  note tr = wrappedReconcile_trace [OF rec wr]
  show ?thesis
  proof (cases "err1 \<noteq> None \<or> rr_RequeueAfter res1 \<noteq> None")
    case True
    with run unset wr tr show ?thesis by (auto simp: delegate_then_def)
  next
    case False
    with run unset wr have fin: "run_state (finish_patch op key res1) w1 = ((res, err), w')"
      by (simp add: delegate_then_def)
    from finish_patch_run [OF this] False have "rr_RequeueAfter res = None" by (cases err) auto
    with op [of w1 err w'] finish_patch_run [OF fin] tr False show ?thesis by force
  qed
qed

lemma Reconcile_deleting:
  assumes "o_DeletionTimestamp (w_objs w (rq_Object req)) \<noteq> None"
    and "or_finalizer o' \<in> set (finalizers_of (w_objs w (rq_Object req)))"
    and "rq_Action req \<noteq> ReconcileActionDeleted"
  shows "run_state (Reconcile isConflict o' req) w =
     run_state (delegate_then o' (req\<lparr>rq_Action := ReconcileActionDeleted\<rparr>)
       (RemoveFinalizer isConflict (or_client o') (rq_Object req) (or_finalizer o')) patchRemoveStateKey) w"
  using assms by (simp add: Reconcile_def Let_def)

lemma Reconcile_drops:
  assumes "o_DeletionTimestamp (w_objs w (rq_Object req)) \<noteq> None"
    and "or_finalizer o' \<notin> set (finalizers_of (w_objs w (rq_Object req))) \<or>
         rq_Action req = ReconcileActionDeleted"
  shows "run_state (Reconcile isConflict o' req) w = ((empty_result, None), w)"
  using assms by (auto simp: Reconcile_def Let_def)

text \<open>The retry of a delete whose wrapped reconciler has already succeeded.\<close>

lemma Reconcile_delete_retry:
  assumes "o_DeletionTimestamp (w_objs w (rq_Object req)) \<noteq> None"
    and "\<not> state_unset (rq_State req) patchRemoveStateKey"
    and "run_state (Reconcile isConflict o' req) w = ((res, err), w')"
  shows "\<exists>es. w_trace w' = w_trace w @ es \<and> updater_events (rq_Object req) es"
proof (cases "or_finalizer o' \<notin> set (finalizers_of (w_objs w (rq_Object req))) \<or>
    rq_Action req = ReconcileActionDeleted")
  case True
  from Reconcile_drops [OF assms(1) True, of isConflict] assms(3) show ?thesis by simp
next
  case False
  with Reconcile_deleting [OF assms(1), of o' isConflict] assms(3)
  have "run_state (delegate_then o' (req\<lparr>rq_Action := ReconcileActionDeleted\<rparr>)
      (RemoveFinalizer isConflict (or_client o') (rq_Object req) (or_finalizer o')) patchRemoveStateKey) w
      = ((res, err), w')" by simp
  from delegate_then_skips [OF _ this] assms(2)
  have "run_state (RemoveFinalizer isConflict (or_client o') (rq_Object req) (or_finalizer o')) w = (err, w')"
    by simp
  then show ?thesis by (rule updater_call_events(2))
qed

lemma action_roundtrip:
  "ReconcileActionFromResourceAction (ResourceActionFromReconcileAction a) = a"
  by (cases a) (simp_all add: ReconcileActionFromResourceAction_def ResourceActionFromReconcileAction_def)

section \<open>Properties\<close>

definition sample_reconciler :: "nat OpinionatedReconciler" where
  "sample_reconciler =
     \<lparr>or_Reconciler = Some (\<lambda>req. State_Monad.return (empty_result, None)),
      or_finalizer = ''done'', or_client = sample_client\<rparr>"

definition sample_request :: "ReconcileAction \<Rightarrow> ReconcileRequest" where
  "sample_request a = \<lparr>rq_Action = a, rq_Object = 0, rq_State = None\<rparr>"

text \<open>
  The contract of the reconciler as the runs it allows, one rule for each thing that can happen, over the wrapped
  reconciler and the two finalizer operations only. \<open>called\<close> is a call of the wrapped reconciler with an action.
\<close>

definition called ::
  "'u OpinionatedReconciler \<Rightarrow> ReconcileRequest \<Rightarrow> ReconcileAction \<Rightarrow> 'u world \<Rightarrow> (ReconcileResult \<times> go_error option) \<times> 'u world" where
  "called o' req a w = (case or_Reconciler o' of
     None \<Rightarrow> ((empty_result, None), w)
   | Some rec \<Rightarrow> (case run_state (rec (req\<lparr>rq_Action := a\<rparr>)) w of ((res, err), w1) \<Rightarrow>
       ((res, err), w1\<lparr>w_trace := w_trace w1 @ [EvHandler (HReconcile a) (rq_Object req) err]\<rparr>)))"

definition is_deleting :: "ReconcileRequest \<Rightarrow> 'u world \<Rightarrow> bool" where
  "is_deleting req w \<longleftrightarrow> o_DeletionTimestamp (w_objs w (rq_Object req)) \<noteq> None"

definition has_finalizer :: "'u OpinionatedReconciler \<Rightarrow> ReconcileRequest \<Rightarrow> 'u world \<Rightarrow> bool" where
  "has_finalizer o' req w \<longleftrightarrow> or_finalizer o' \<in> set (finalizers_of (w_objs w (rq_Object req)))"

text \<open>The requests that the wrapped reconciler must handle before the finalizer is changed.\<close>

inductive owed :: "'u OpinionatedReconciler \<Rightarrow> ReconcileRequest \<Rightarrow> 'u world \<Rightarrow> ReconcileAction \<Rightarrow> string \<Rightarrow> bool" for o' req w where
  owed_delete: "rq_Action req \<noteq> ReconcileActionDeleted \<Longrightarrow> is_deleting req w \<Longrightarrow> has_finalizer o' req w \<Longrightarrow>
    owed o' req w ReconcileActionDeleted patchRemoveStateKey"
| owed_create: "rq_Action req = ReconcileActionCreated \<Longrightarrow> \<not> is_deleting req w \<Longrightarrow> \<not> has_finalizer o' req w \<Longrightarrow>
    owed o' req w ReconcileActionCreated patchAddStateKey"

text \<open>The finalizer is added after a create and removed after a delete.\<close>

definition change_finalizer ::
  "(go_error \<Rightarrow> bool) \<Rightarrow> 'u OpinionatedReconciler \<Rightarrow> ReconcileRequest \<Rightarrow> ReconcileAction \<Rightarrow> 'u world \<Rightarrow> go_error option \<times> 'u world" where
  "change_finalizer isConflict o' req a w = run_state
     ((if a = ReconcileActionDeleted then RemoveFinalizer else AddFinalizer) isConflict (or_client o') (rq_Object req) (or_finalizer o')) w"

definition remember :: "string \<Rightarrow> go_error option \<Rightarrow> ReconcileResult \<Rightarrow> ReconcileResult \<times> go_error option" where
  "remember key patchErr res = (case patchErr of
     None \<Rightarrow> (res, None)
   | Some e \<Rightarrow> (res\<lparr>rr_State := Some ((case rr_State res of None \<Rightarrow> Map.empty | Some m \<Rightarrow> m)(key \<mapsto> AnyErr e))\<rparr>, Some e))"

inductive reconciles ::
  "(go_error \<Rightarrow> bool) \<Rightarrow> 'u OpinionatedReconciler \<Rightarrow> ReconcileRequest \<Rightarrow> 'u world \<Rightarrow>
   (ReconcileResult \<times> go_error option) \<times> 'u world \<Rightarrow> bool" for isConflict o' req w where
  dropped: "rq_Action req = ReconcileActionDeleted \<or> is_deleting req w \<and> \<not> has_finalizer o' req w \<Longrightarrow>
    reconciles isConflict o' req w ((empty_result, None), w)"
| not_finished: "owed o' req w a key \<Longrightarrow> state_unset (rq_State req) key \<Longrightarrow> called o' req a w = ((res, err), w1) \<Longrightarrow>
    err \<noteq> None \<or> rr_RequeueAfter res \<noteq> None \<Longrightarrow> reconciles isConflict o' req w ((res, err), w1)"
| finished: "owed o' req w a key \<Longrightarrow> state_unset (rq_State req) key \<Longrightarrow> called o' req a w = ((res, None), w1) \<Longrightarrow>
    rr_RequeueAfter res = None \<Longrightarrow> change_finalizer isConflict o' req a w1 = (patchErr, w2) \<Longrightarrow>
    reconciles isConflict o' req w (remember key patchErr res, w2)"
| finished_before: "owed o' req w a key \<Longrightarrow> \<not> state_unset (rq_State req) key \<Longrightarrow>
    change_finalizer isConflict o' req a w = (patchErr, w2) \<Longrightarrow> reconciles isConflict o' req w (remember key patchErr empty_result, w2)"
| known_create: "rq_Action req = ReconcileActionCreated \<Longrightarrow> \<not> is_deleting req w \<Longrightarrow> has_finalizer o' req w \<Longrightarrow>
    reconciles isConflict o' req w (called o' req ReconcileActionResynced w)"
| unknown_update: "rq_Action req = ReconcileActionUpdated \<Longrightarrow> \<not> is_deleting req w \<Longrightarrow> \<not> has_finalizer o' req w \<Longrightarrow>
    change_finalizer isConflict o' req ReconcileActionUpdated w = (patchErr, w2) \<Longrightarrow>
    reconciles isConflict o' req w ((empty_result, patchErr), w2)"
| passed: "rq_Action req = ReconcileActionUpdated \<and> has_finalizer o' req w \<or> rq_Action req \<in> {ReconcileActionResynced, ReconcileActionUnknown} \<Longrightarrow>
    \<not> is_deleting req w \<Longrightarrow> reconciles isConflict o' req w (called o' req (rq_Action req) w)"

inductive_simps owed_iff: "owed o' req w a key"

lemma wrapped_called: "run_state (wrappedReconcile o' (req\<lparr>rq_Action := a\<rparr>)) w = called o' req a w"
  by (auto simp: wrappedReconcile_def called_def emit_def split: option.split prod.split)

lemma same_action: "req\<lparr>rq_Action := rq_Action req\<rparr> = req"
  by simp

lemma finish_patch_remember:
  "run_state (finish_patch op key res) w = (case run_state op w of (patchErr, w2) \<Rightarrow> (remember key patchErr res, w2))"
  by (auto simp: finish_patch_def remember_def state_put_def split: prod.split option.split)

text \<open>A request that is owed runs as one of three of the rules say.\<close>

lemma delegate_reconciles:
  assumes "owed o' req w a key"
    and op: "\<And>v. run_state op v = change_finalizer isConflict o' req a v"
  shows "reconciles isConflict o' req w (run_state (delegate_then o' (req\<lparr>rq_Action := a\<rparr>) op key) w)"
proof (cases "state_unset (rq_State req) key")
  case True
  obtain res err w1 where c: "called o' req a w = ((res, err), w1)" by (metis surj_pair)
  obtain patchErr w2 where f: "change_finalizer isConflict o' req a w1 = (patchErr, w2)" by (metis surj_pair)
  show ?thesis
  proof (cases "err \<noteq> None \<or> rr_RequeueAfter res \<noteq> None")
    case stop: True
    then show ?thesis using not_finished [OF assms(1) True c stop] True c by (simp add: delegate_then_def wrapped_called)
  next
    case go: False
    then show ?thesis using finished [OF assms(1) True _ _ f] True c f op
      by (simp add: delegate_then_def wrapped_called finish_patch_remember)
  qed
next
  case False
  obtain patchErr w2 where f: "change_finalizer isConflict o' req a w = (patchErr, w2)" by (metis surj_pair)
  then show ?thesis using finished_before [OF assms(1) False f] False op by (simp add: delegate_then_def finish_patch_remember)
qed

lemma Reconcile_reconciles: "reconciles isConflict o' req w (run_state (Reconcile isConflict o' req) w)"
proof -
  let ?p = "rq_Object req"
  consider (drop) "rq_Action req = ReconcileActionDeleted \<or> is_deleting req w \<and> \<not> has_finalizer o' req w"
    | (delete) "rq_Action req \<noteq> ReconcileActionDeleted" "is_deleting req w" "has_finalizer o' req w"
    | (resync) "rq_Action req = ReconcileActionCreated" "\<not> is_deleting req w" "has_finalizer o' req w"
    | (create) "rq_Action req = ReconcileActionCreated" "\<not> is_deleting req w" "\<not> has_finalizer o' req w"
    | (add) "rq_Action req = ReconcileActionUpdated" "\<not> is_deleting req w" "\<not> has_finalizer o' req w"
    | (other) "rq_Action req = ReconcileActionUpdated \<and> has_finalizer o' req w \<or>
        rq_Action req \<in> {ReconcileActionResynced, ReconcileActionUnknown}" "\<not> is_deleting req w"
    by (cases "rq_Action req") auto
  then show ?thesis
  proof cases
    case drop
    then show ?thesis using dropped [OF drop] by (auto simp: Reconcile_def is_deleting_def has_finalizer_def Let_def)
  next
    case delete
    have "run_state (Reconcile isConflict o' req) w = run_state (delegate_then o' (req\<lparr>rq_Action := ReconcileActionDeleted\<rparr>)
        (RemoveFinalizer isConflict (or_client o') ?p (or_finalizer o')) patchRemoveStateKey) w"
      using delete by (simp add: Reconcile_def is_deleting_def has_finalizer_def Let_def)
    moreover have "reconciles isConflict o' req w (run_state (delegate_then o' (req\<lparr>rq_Action := ReconcileActionDeleted\<rparr>)
        (RemoveFinalizer isConflict (or_client o') ?p (or_finalizer o')) patchRemoveStateKey) w)"
      by (rule delegate_reconciles) (use delete in \<open>auto simp: owed_iff change_finalizer_def\<close>)
    ultimately show ?thesis by simp
  next
    case resync
    then have "run_state (Reconcile isConflict o' req) w = called o' req ReconcileActionResynced w"
      by (simp add: Reconcile_def is_deleting_def has_finalizer_def Let_def wrapped_called)
    then show ?thesis using known_create [OF resync] by simp
  next
    case create
    have same: "req\<lparr>rq_Action := ReconcileActionCreated\<rparr> = req" using same_action [of req] create(1) by simp
    have "run_state (Reconcile isConflict o' req) w = run_state (delegate_then o' (req\<lparr>rq_Action := ReconcileActionCreated\<rparr>)
        (AddFinalizer isConflict (or_client o') ?p (or_finalizer o')) patchAddStateKey) w"
      unfolding same using create by (simp add: Reconcile_def is_deleting_def has_finalizer_def Let_def)
    moreover have "reconciles isConflict o' req w (run_state (delegate_then o' (req\<lparr>rq_Action := ReconcileActionCreated\<rparr>)
        (AddFinalizer isConflict (or_client o') ?p (or_finalizer o')) patchAddStateKey) w)"
      by (rule delegate_reconciles) (use create in \<open>auto simp: owed_iff change_finalizer_def\<close>)
    ultimately show ?thesis by simp
  next
    case add
    obtain patchErr w2 where f: "change_finalizer isConflict o' req ReconcileActionUpdated w = (patchErr, w2)" by (metis surj_pair)
    then have "run_state (Reconcile isConflict o' req) w = ((empty_result, patchErr), w2)"
      using add by (simp add: Reconcile_def is_deleting_def has_finalizer_def Let_def change_finalizer_def)
    then show ?thesis using unknown_update [OF add f] by simp
  next
    case other
    then have "run_state (Reconcile isConflict o' req) w = called o' req (rq_Action req) w"
      using wrapped_called [where o'=o' and req=req and a="rq_Action req" and w=w]
      by (auto simp: Reconcile_def is_deleting_def has_finalizer_def Let_def)
    then show ?thesis using passed [OF other] by simp
  qed
qed

lemma reconciles_unique: "reconciles isConflict o' req w x \<Longrightarrow> reconciles isConflict o' req w y \<Longrightarrow> x = y"
  by (elim reconciles.cases) (auto simp: owed_iff patchAddStateKey_def patchRemoveStateKey_def)


text \<open>
  C6. When the wrapped reconciler has handled a delete and only removing the finalizer failed,
  \<open>Reconcile\<close> returns the removal's error and a state; a retry with that state, whatever happened
  to the object meanwhile, never calls the wrapped reconciler again: it only sends finalizer
  requests.
\<close>

theorem delete_delivered_once:
  assumes "o_DeletionTimestamp (w_objs w (rq_Object req)) \<noteq> None"
      "or_finalizer o' \<in> set (finalizers_of (w_objs w (rq_Object req)))"
      "rq_Action req \<noteq> ReconcileActionDeleted" "state_unset (rq_State req) patchRemoveStateKey"
    and "run_state (wrappedReconcile o' (req\<lparr>rq_Action := ReconcileActionDeleted\<rparr>)) w = ((res, None), w1)"
      "rr_RequeueAfter res = None"
    and "run_state (RemoveFinalizer isConflict (or_client o') (rq_Object req) (or_finalizer o')) w1
           = (Some e, w2)"
  shows "\<exists>st. run_state (Reconcile isConflict o' req) w = ((res\<lparr>rr_State := st\<rparr>, Some e), w2) \<and>
    (\<forall>v. o_DeletionTimestamp (w_objs v (rq_Object req)) \<noteq> None \<longrightarrow>
       (\<exists>es. w_trace (snd (run_state (Reconcile isConflict o' (req\<lparr>rq_State := st\<rparr>)) v)) =
               w_trace v @ es \<and> updater_events (rq_Object req) es))"
proof -
  let ?st = "state_put (rr_State res) patchRemoveStateKey (AnyErr e)"
  have "run_state (Reconcile isConflict o' req) w = ((res\<lparr>rr_State := ?st\<rparr>, Some e), w2)"
    using Reconcile_deleting [OF assms(1-3)] assms(4-)
    by (simp add: delegate_then_fails)
  moreover have "\<exists>es. w_trace (snd (run_state (Reconcile isConflict o' (req\<lparr>rq_State := ?st\<rparr>)) v)) =
      w_trace v @ es \<and> updater_events (rq_Object req) es"
    if "o_DeletionTimestamp (w_objs v (rq_Object req)) \<noteq> None" for v
    using that Reconcile_delete_retry [of v "req\<lparr>rq_State := ?st\<rparr>" isConflict o']
    by (cases "run_state (Reconcile isConflict o' (req\<lparr>rq_State := ?st\<rparr>)) v") auto
  ultimately show ?thesis by blast
qed

theorem delete_delivered_once_witness:
  "\<exists>st. run_state (Reconcile (\<lambda>e. False) sample_reconciler (sample_request ReconcileActionUpdated))
        (sample_world (deleted (sample_object [''done''])) 1) =
      ((empty_result\<lparr>rr_State := st\<rparr>,
        fst (run_state (RemoveFinalizer (\<lambda>e. False) sample_client 0 ''done'') (snd (run_state
          (wrappedReconcile sample_reconciler (sample_request ReconcileActionDeleted))
          (sample_world (deleted (sample_object [''done''])) 1))))),
       snd (run_state (RemoveFinalizer (\<lambda>e. False) sample_client 0 ''done'') (snd (run_state
          (wrappedReconcile sample_reconciler (sample_request ReconcileActionDeleted))
          (sample_world (deleted (sample_object [''done''])) 1)))))"
proof -
  let ?w = "sample_world (deleted (sample_object [''done''])) 1"
  let ?req = "sample_request ReconcileActionUpdated"
  let ?w1 = "snd (run_state (wrappedReconcile sample_reconciler (sample_request ReconcileActionDeleted)) ?w)"
  let ?rm = "RemoveFinalizer (\<lambda>e. False) sample_client 0 ''done''"
  have wr: "run_state (wrappedReconcile sample_reconciler (?req\<lparr>rq_Action := ReconcileActionDeleted\<rparr>)) ?w
      = ((empty_result, None), ?w1)"
    by (simp add: wrappedReconcile_def sample_reconciler_def sample_request_def)
  have "fst (run_state ?rm ?w1) = Some (FinalizerOperationError (External 409 ''conflict'')
      (remove_request (sample_object [''done'']) []))" by code_simp
  then obtain e where e: "fst (run_state ?rm ?w1) = Some e" by simp
  then have rm: "run_state (RemoveFinalizer (\<lambda>e. False) (or_client sample_reconciler) (rq_Object ?req)
      (or_finalizer sample_reconciler)) ?w1 = (Some e, snd (run_state ?rm ?w1))"
    by (simp add: prod_eq_iff sample_reconciler_def sample_request_def)
  have "\<exists>st. run_state (Reconcile (\<lambda>e. False) sample_reconciler ?req) ?w =
      ((empty_result\<lparr>rr_State := st\<rparr>, Some e), snd (run_state ?rm ?w1)) \<and>
    (\<forall>v. o_DeletionTimestamp (w_objs v (rq_Object ?req)) \<noteq> None \<longrightarrow>
       (\<exists>es. w_trace (snd (run_state (Reconcile (\<lambda>e. False) sample_reconciler (?req\<lparr>rq_State := st\<rparr>)) v)) =
               w_trace v @ es \<and> updater_events (rq_Object ?req) es))"
    by (rule delete_delivered_once [OF _ _ _ _ wr _ rm])
       (simp_all add: sample_world_def sample_object_def deleted_def sample_request_def
         sample_reconciler_def state_unset_def empty_result_def)
  then show ?thesis unfolding e by blast
qed

text \<open>
  On an object under deletion the finalizer is removed only after the wrapped reconciler has
  been called with a delete action and returned neither an error nor a requeue; otherwise nothing
  is sent and the reconciler's answer is returned.
\<close>

lemma reconcile_release_after_delete:
  assumes "or_Reconciler o' = Some rec" "untraced (rec (req\<lparr>rq_Action := ReconcileActionDeleted\<rparr>))"
    and "o_DeletionTimestamp (w_objs w (rq_Object req)) \<noteq> None"
    and "state_unset (rq_State req) patchRemoveStateKey"
    and "run_state (Reconcile isConflict o' req) w = ((res, err), w')"
  shows "\<exists>es. w_trace w' = w_trace w @ es \<and> (es = [] \<or>
    (\<exists>r es'. es = EvHandler (HReconcile ReconcileActionDeleted) (rq_Object req) r # es' \<and>
       updater_events (rq_Object req) es' \<and>
       (r \<noteq> None \<or> rr_RequeueAfter res \<noteq> None \<longrightarrow> es' = [] \<and> err = r)))"
proof (cases "or_finalizer o' \<notin> set (finalizers_of (w_objs w (rq_Object req))) \<or>
    rq_Action req = ReconcileActionDeleted")
  case True
  from Reconcile_drops [OF assms(3) True, of isConflict] assms(5) show ?thesis by simp
next
  case False
  with Reconcile_deleting [OF assms(3), of o' isConflict] assms(5)
  have "run_state (delegate_then o' (req\<lparr>rq_Action := ReconcileActionDeleted\<rparr>)
      (RemoveFinalizer isConflict (or_client o') (rq_Object req) (or_finalizer o')) patchRemoveStateKey) w
      = ((res, err), w')" by simp
  from delegate_then_trace [OF assms(1,2) _ this] assms(4) updater_call_events(2)
  show ?thesis by fastforce
qed

lemma reconcile_release_after_delete_witness:
  "\<exists>res err w'. run_state (Reconcile sample_conflict sample_reconciler (sample_request ReconcileActionUpdated))
       (sample_world (deleted (sample_object [''done''])) 0) = ((res, err), w') \<and>
   (\<exists>es. w_trace w' = [] @ es \<and> (es = [] \<or>
    (\<exists>r es'. es = EvHandler (HReconcile ReconcileActionDeleted) 0 r # es' \<and> updater_events 0 es' \<and>
       (r \<noteq> None \<or> rr_RequeueAfter res \<noteq> None \<longrightarrow> es' = [] \<and> err = r))))"
proof -
  let ?w = "sample_world (deleted (sample_object [''done''])) 0"
  let ?req = "sample_request ReconcileActionUpdated"
  obtain res err w' where
    run: "run_state (Reconcile sample_conflict sample_reconciler ?req) ?w = ((res, err), w')"
    by (metis surj_pair)
  have "\<exists>es. w_trace w' = w_trace ?w @ es \<and> (es = [] \<or>
    (\<exists>r es'. es = EvHandler (HReconcile ReconcileActionDeleted) (rq_Object ?req) r # es' \<and>
       updater_events (rq_Object ?req) es' \<and>
       (r \<noteq> None \<or> rr_RequeueAfter res \<noteq> None \<longrightarrow> es' = [] \<and> err = r)))"
    by (rule reconcile_release_after_delete [OF _ untraced_return _ _ run])
       (simp_all add: sample_reconciler_def sample_world_def deleted_def sample_request_def state_unset_def)
  with run show ?thesis by (auto simp: sample_world_def sample_request_def)
qed

text \<open>
  A create of a new object that \<open>Reconcile\<close> completes (no error, no requeue) puts the finalizer
  on it, so the next create for the object, as an informer sends after a restart, reaches the
  wrapped reconciler as a resync.
\<close>

lemma created_once_then_resynced:
  assumes "honours_patches (or_client o')"
    and "rq_Action req = ReconcileActionCreated"
      "o_DeletionTimestamp (w_objs w (rq_Object req)) = None"
      "or_finalizer o' \<notin> set (finalizers_of (w_objs w (rq_Object req)))"
    and "run_state (Reconcile isConflict o' req) w = ((res, None), w')" "rr_RequeueAfter res = None"
      "o_DeletionTimestamp (w_objs w' (rq_Object req)) = None"
  shows "or_finalizer o' \<in> set (finalizers_of (w_objs w' (rq_Object req))) \<and>
    run_state (Reconcile isConflict o' req) w' =
      run_state (wrappedReconcile o' (req\<lparr>rq_Action := ReconcileActionResynced\<rparr>)) w'"
proof -
  from assms(2-5) have "run_state (delegate_then o' req (AddFinalizer isConflict (or_client o')
      (rq_Object req) (or_finalizer o')) patchAddStateKey) w = ((res, None), w')"
    by (simp add: Reconcile_def Let_def)
  with assms(6) obtain w1 where
    "run_state (AddFinalizer isConflict (or_client o') (rq_Object req) (or_finalizer o')) w1 = (None, w')"
    by (auto simp: delegate_then_def dest: finish_patch_run split: if_splits prod.splits)
  from AddFinalizer_success [OF assms(1) this] assms(2,7) show ?thesis
    by (simp add: Reconcile_def Let_def)
qed

lemma created_once_then_resynced_witness:
  "let w' = snd (run_state (Reconcile sample_conflict sample_reconciler (sample_request ReconcileActionCreated))
       (sample_world (sample_object []) 1))
   in ''done'' \<in> set (finalizers_of (w_objs w' 0)) \<and>
      run_state (Reconcile sample_conflict sample_reconciler (sample_request ReconcileActionCreated)) w' =
      run_state (wrappedReconcile sample_reconciler (sample_request ReconcileActionResynced)) w'"
proof -
  let ?w = "sample_world (sample_object []) 1"
  let ?m = "Reconcile sample_conflict sample_reconciler (sample_request ReconcileActionCreated)"
  have "snd (fst (run_state ?m ?w)) = None" by code_simp
  then have run: "run_state ?m ?w = ((fst (fst (run_state ?m ?w)), None), snd (run_state ?m ?w))"
    by (simp add: prod_eq_iff)
  have req: "rr_RequeueAfter (fst (fst (run_state ?m ?w))) = None" by code_simp
  have live: "o_DeletionTimestamp (w_objs (snd (run_state ?m ?w))
      (rq_Object (sample_request ReconcileActionCreated))) = None" by code_simp
  show ?thesis
    using created_once_then_resynced [OF _ _ _ _ run req live]
    by (simp add: sample_reconciler_def sample_request_def sample_world_def sample_object_def Let_def)
qed

end
