(* ===== verification/Go_Heap.thy ===== *)
theory Go_Heap
  imports Prelude
begin

text \<open>
  The package \<^verbatim>\<open>container/heap\<close> of the Go standard library on a slice, as the retry processor's
  \<open>retryPriorityQueue\<close> instantiates it: \<^verbatim>\<open>Less(i, j)\<close> compares a key of the two entries,
  \<^verbatim>\<open>Swap\<close>, \<^verbatim>\<open>Push\<close> and \<^verbatim>\<open>Pop\<close> work on the end of the slice. The theory ends with the laws of a
  priority queue, as a locale, and their proof for these operations.
\<close>

section \<open>The operations\<close>

definition Swap :: "'a list \<Rightarrow> nat \<Rightarrow> nat \<Rightarrow> 'a list" where
  "Swap h i j = h[i := h ! j, j := h ! i]"

definition Less :: "('a \<Rightarrow> 'k::linorder) \<Rightarrow> 'a list \<Rightarrow> nat \<Rightarrow> nat \<Rightarrow> bool" where
  "Less key h i j \<longleftrightarrow> key (h ! i) < key (h ! j)"

text \<open>The parent of position \<open>j\<close>; Go's \<^verbatim>\<open>(0 - 1) / 2\<close> is \<open>0\<close>, as here.\<close>

definition parent :: "nat \<Rightarrow> nat" where
  "parent j = (j - 1) div 2"

function up :: "('a \<Rightarrow> 'k::linorder) \<Rightarrow> 'a list \<Rightarrow> nat \<Rightarrow> 'a list" where
  "up key h j =
     (let i = parent j
      in if i = j \<or> \<not> Less key h j i then h else up key (Swap h i j) i)"
  by auto
termination
  by (relation "measure (\<lambda>(key, h, j). j)") (auto simp: parent_def)

definition down_child :: "('a \<Rightarrow> 'k::linorder) \<Rightarrow> 'a list \<Rightarrow> nat \<Rightarrow> nat \<Rightarrow> nat" where
  "down_child key h i n =
     (let j1 = 2 * i + 1; j2 = j1 + 1 in if j2 < n \<and> Less key h j2 j1 then j2 else j1)"

function down :: "('a \<Rightarrow> 'k::linorder) \<Rightarrow> 'a list \<Rightarrow> nat \<Rightarrow> nat \<Rightarrow> 'a list" where
  "down key h i n =
     (if n \<le> 2 * i + 1 then h
      else let j = down_child key h i n
           in if \<not> Less key h j i then h else down key (Swap h i j) j n)"
  by auto
termination
  by (relation "measure (\<lambda>(key, h, i, n). n - i)") (auto simp: down_child_def Let_def)

declare up.simps [simp del] down.simps [simp del]

primrec init_from :: "('a \<Rightarrow> 'k::linorder) \<Rightarrow> 'a list \<Rightarrow> nat \<Rightarrow> 'a list" where
  "init_from key h 0 = h"
| "init_from key h (Suc i) = init_from key (down key h i (length h)) i"

definition heap_Init :: "('a \<Rightarrow> 'k::linorder) \<Rightarrow> 'a list \<Rightarrow> 'a list" where
  "heap_Init key h = init_from key h (length h div 2)"

definition heap_Push :: "('a \<Rightarrow> 'k::linorder) \<Rightarrow> 'a list \<Rightarrow> 'a \<Rightarrow> 'a list" where
  "heap_Push key h x = (let h' = h @ [x] in up key h' (length h' - 1))"

text \<open>\<^verbatim>\<open>heap.Pop\<close> indexes position \<open>-1\<close> of an empty slice: a panic, \<open>None\<close>.\<close>

definition heap_Pop :: "('a \<Rightarrow> 'k::linorder) \<Rightarrow> 'a list \<Rightarrow> ('a \<times> 'a list) option" where
  "heap_Pop key h =
     (if h = [] then None
      else let n = length h - 1; h' = down key (Swap h 0 n) 0 n
           in Some (h' ! n, take n h'))"

section \<open>Contents\<close>

lemma length_Swap [simp]: "length (Swap h i j) = length h"
  by (simp add: Swap_def)

lemma mset_Swap [simp]: "i < length h \<Longrightarrow> j < length h \<Longrightarrow> mset (Swap h i j) = mset h"
  by (simp add: Swap_def mset_swap)

lemma nth_Swap:
  "i < length h \<Longrightarrow> j < length h \<Longrightarrow>
     Swap h i j ! k = (if k = j then h ! i else if k = i then h ! j else h ! k)"
  by (simp add: Swap_def nth_list_update)

lemma parent_le: "parent j \<le> j"
  by (simp add: parent_def)

lemma parent_less: "0 < j \<Longrightarrow> parent j < j"
  by (simp add: parent_def)

lemma parent_eq_iff: "0 < k \<Longrightarrow> parent k = i \<longleftrightarrow> k = 2 * i + 1 \<or> k = 2 * i + 2"
  by (auto simp: parent_def)

lemma down_child_range: "2 * i + 1 < n \<Longrightarrow> down_child key h i n < n"
  by (simp add: down_child_def Let_def)

lemma down_child_cases: "down_child key h i n = 2 * i + 1 \<or> down_child key h i n = 2 * i + 2"
  by (simp add: down_child_def Let_def)

lemma down_child_parent [simp]: "parent (down_child key h i n) = i"
  using down_child_cases [of key h i n] by (auto simp: parent_def)

lemma down_child_gt: "i < down_child key h i n"
  using down_child_cases [of key h i n] by auto

lemma up_stop: "parent j = j \<or> \<not> Less key h j (parent j) \<Longrightarrow> up key h j = h"
  by (subst up.simps) (auto simp: Let_def)

lemma up_step:
  "\<not> (parent j = j \<or> \<not> Less key h j (parent j)) \<Longrightarrow>
     up key h j = up key (Swap h (parent j) j) (parent j)"
  by (subst up.simps) (auto simp: Let_def)

lemma down_stop:
  "n \<le> 2 * i + 1 \<or> \<not> Less key h (down_child key h i n) i \<Longrightarrow> down key h i n = h"
  by (subst down.simps) (auto simp: Let_def)

lemma down_step:
  "\<not> (n \<le> 2 * i + 1 \<or> \<not> Less key h (down_child key h i n) i) \<Longrightarrow>
     down key h i n = down key (Swap h i (down_child key h i n)) (down_child key h i n) n"
  by (subst down.simps) (auto simp: Let_def)

lemma up_mset: "j < length h \<Longrightarrow> mset (up key h j) = mset h"
proof (induction key h j rule: up.induct)
  case (1 key h j)
  then show ?case
    using parent_le [of j] by (subst up.simps) (auto simp: Let_def)
qed

lemma down_mset: "n \<le> length h \<Longrightarrow> mset (down key h i n) = mset h"
proof (induction key h i n rule: down.induct)
  case (1 key h i n)
  then show ?case
    using down_child_range [of i n key h] by (subst down.simps) (auto simp: Let_def)
qed

lemma down_length [simp]: "length (down key h i n) = length h"
proof (induction key h i n rule: down.induct)
  case (1 key h i n)
  then show ?case by (subst down.simps) (auto simp: Let_def)
qed

text \<open>\<open>down\<close> leaves every position from \<open>n\<close> on alone.\<close>

lemma down_above: "n \<le> length h \<Longrightarrow> n \<le> k \<Longrightarrow> down key h i n ! k = h ! k"
proof (induction key h i n rule: down.induct)
  case (1 key h i n)
  show ?case
  proof (cases "n \<le> 2 * i + 1 \<or> \<not> Less key h (down_child key h i n) i")
    case True
    then show ?thesis by (subst down.simps) (auto simp: Let_def)
  next
    case False
    with 1 down_child_range [of i n key h] show ?thesis
      by (subst down.simps) (auto simp: Let_def nth_Swap)
  qed
qed

section \<open>The heap order\<close>

text \<open>\<open>heap_from key h m n\<close>: among the first \<open>n\<close> positions, every edge whose parent is at least \<open>m\<close> is in order.\<close>

definition edge_ok :: "('a \<Rightarrow> 'k::linorder) \<Rightarrow> 'a list \<Rightarrow> nat \<Rightarrow> bool" where
  "edge_ok key h k \<longleftrightarrow> key (h ! parent k) \<le> key (h ! k)"

definition heap_from :: "('a \<Rightarrow> 'k::linorder) \<Rightarrow> 'a list \<Rightarrow> nat \<Rightarrow> nat \<Rightarrow> bool" where
  "heap_from key h m n \<longleftrightarrow> (\<forall>k. 0 < k \<and> k < n \<and> m \<le> parent k \<longrightarrow> edge_ok key h k)"

abbreviation is_heap :: "('a \<Rightarrow> 'k::linorder) \<Rightarrow> 'a list \<Rightarrow> bool" where
  "is_heap key h \<equiv> heap_from key h 0 (length h)"

text \<open>In order but for the edge above \<open>j\<close>: what \<open>up\<close> repairs.\<close>

definition almost_up :: "('a \<Rightarrow> 'k::linorder) \<Rightarrow> 'a list \<Rightarrow> nat \<Rightarrow> bool" where
  "almost_up key h j \<longleftrightarrow>
     (\<forall>k. 0 < k \<and> k < length h \<and> k \<noteq> j \<longrightarrow> edge_ok key h k) \<and>
     (\<forall>k. 0 < k \<and> k < length h \<and> parent k = j \<and> 0 < j \<longrightarrow> key (h ! parent j) \<le> key (h ! k))"

lemma almost_up_step:
  assumes j: "0 < j" "j < length h" "key (h ! j) < key (h ! parent j)" and h: "almost_up key h j"
  shows "almost_up key (Swap h (parent j) j) (parent j)"
proof -
  let ?i = "parent j"
  have i: "?i < j" "?i < length h" using j parent_less [of j] by auto
  from h have edge: "key (h ! parent k) \<le> key (h ! k)" if "0 < k" "k < length h" "k \<noteq> j" for k
    using that by (simp add: almost_up_def edge_ok_def)
  from h j(1) have below: "key (h ! ?i) \<le> key (h ! k)" if "0 < k" "k < length h" "parent k = j" for k
    using that by (simp add: almost_up_def)
  have 1: "edge_ok key (Swap h ?i j) k" if k: "0 < k" "k < length h" "k \<noteq> ?i" for k
  proof -
    consider "k = j" | "k \<noteq> j" "parent k = j" | "k \<noteq> j" "parent k = ?i" | "k \<noteq> j" "parent k \<noteq> j" "parent k \<noteq> ?i"
      by blast
    then show ?thesis
    proof cases
      case 1
      with i j k show ?thesis by (simp add: edge_ok_def nth_Swap)
    next
      case 2
      with i j k below [OF k(1,2)] show ?thesis by (simp add: edge_ok_def nth_Swap)
    next
      case 3
      with i j k edge [OF k(1,2)] show ?thesis by (simp add: edge_ok_def nth_Swap)
    next
      case 4
      with i j k edge [OF k(1,2)] show ?thesis by (simp add: edge_ok_def nth_Swap)
    qed
  qed
  have 2: "key (Swap h ?i j ! parent ?i) \<le> key (Swap h ?i j ! k)"
    if k: "0 < k" "k < length h" "parent k = ?i" "0 < ?i" for k
  proof -
    from i k(4) parent_less [of ?i] have "parent ?i < ?i" "parent ?i \<noteq> j" by auto
    moreover from parent_less [of k] k have "k \<noteq> ?i" by auto
    moreover have "key (h ! parent ?i) \<le> key (h ! ?i)" using edge [of ?i] k i by simp
    moreover have "key (h ! ?i) \<le> key (h ! k)" if "k \<noteq> j" using edge [OF k(1,2) that] k by simp
    ultimately show ?thesis using i j by (auto simp: nth_Swap)
  qed
  from 1 2 show ?thesis by (simp add: almost_up_def)
qed

lemma up_is_heap: "j < length h \<Longrightarrow> almost_up key h j \<Longrightarrow> is_heap key (up key h j)"
proof (induction key h j rule: up.induct)
  case (1 key h j)
  let ?i = "parent j"
  show ?case
  proof (cases "?i = j \<or> \<not> Less key h j ?i")
    case True
    then have "j = 0 \<or> edge_ok key h j"
      using parent_less [of j] by (auto simp: Less_def edge_ok_def)
    with True 1(3) show ?thesis
      by (auto simp: up_stop heap_from_def almost_up_def)
  next
    case False
    then have j: "0 < j" "?i < j" "key (h ! j) < key (h ! ?i)"
      using parent_less [of j] by (auto simp: Less_def parent_def)
    have "almost_up key (Swap h ?i j) ?i" by (rule almost_up_step) (use 1 j in auto)
    with False 1(1) [OF refl False] 1(2) j show ?thesis by (simp add: up_step)
  qed
qed

lemma heap_Push_is_heap: "is_heap key h \<Longrightarrow> is_heap key (heap_Push key h x)"
  unfolding heap_Push_def Let_def
proof (rule up_is_heap)
  assume h: "is_heap key h"
  have "edge_ok key (h @ [x]) k" if "0 < k" "k < length h" for k
    using h that parent_less [of k] by (simp add: heap_from_def edge_ok_def nth_append)
  moreover have "parent k \<noteq> length h" if "0 < k" "k \<le> length h" for k
    using that parent_less [of k] by simp
  ultimately show "almost_up key (h @ [x]) (length (h @ [x]) - 1)"
    by (auto simp: almost_up_def less_Suc_eq)
qed simp

text \<open>In order from \<open>m\<close> on but for the edges below \<open>i\<close>: what \<open>down\<close> repairs.\<close>

definition almost_down :: "('a \<Rightarrow> 'k::linorder) \<Rightarrow> 'a list \<Rightarrow> nat \<Rightarrow> nat \<Rightarrow> nat \<Rightarrow> bool" where
  "almost_down key h m i n \<longleftrightarrow>
     (\<forall>k. 0 < k \<and> k < n \<and> m \<le> parent k \<and> parent k \<noteq> i \<longrightarrow> edge_ok key h k) \<and>
     (\<forall>k. 0 < k \<and> k < n \<and> parent k = i \<and> 0 < i \<and> m \<le> parent i \<longrightarrow> key (h ! parent i) \<le> key (h ! k))"

lemma down_child_least:
  assumes "0 < k" "k < n" "parent k = i"
  shows "key (h ! down_child key h i n) \<le> key (h ! k)"
  using assms parent_eq_iff [of k i] by (auto simp: down_child_def Let_def Less_def)

lemma down_is_heap:
  "n \<le> length h \<Longrightarrow> m \<le> i \<Longrightarrow> almost_down key h m i n \<Longrightarrow> heap_from key (down key h i n) m n"
proof (induction key h i n rule: down.induct)
  case (1 key h i n)
  let ?j = "down_child key h i n"
  show ?case
  proof (cases "n \<le> 2 * i + 1 \<or> \<not> Less key h ?j i")
    case True
    have "edge_ok key h k" if "0 < k" "k < n" "parent k = i" for k
      using True that down_child_least [OF that, of key h] parent_eq_iff [of k i]
      by (auto simp: Less_def edge_ok_def)
    with True 1(4) show ?thesis
      by (auto simp: down_stop heap_from_def almost_down_def)
  next
    case False
    then have j: "?j < n" "i < ?j" "key (h ! ?j) < key (h ! i)" "i < length h" "?j < length h"
      using down_child_range [of i n key h] down_child_gt [of i key h n] 1(2) by (auto simp: Less_def)
    have "edge_ok key (Swap h i ?j) k"
      if "0 < k" "k < n" "m \<le> parent k" "parent k \<noteq> ?j" for k
    proof (cases "parent k = i")
      case True
      with that down_child_least [OF that(1,2) True, of key h] j show ?thesis
        using parent_less [of k] by (auto simp: edge_ok_def nth_Swap)
    next
      case False
      with 1(4) that j show ?thesis
        using parent_less [of k] down_child_parent [of key h i n]
        by (auto simp: edge_ok_def nth_Swap almost_down_def)
    qed
    moreover have "key (Swap h i ?j ! parent ?j) \<le> key (Swap h i ?j ! k)"
      if "0 < k" "k < n" "parent k = ?j" for k
    proof -
      have "edge_ok key h k" using that j 1(3,4) by (simp add: almost_down_def)
      with that j parent_less [of k] show ?thesis by (auto simp: nth_Swap edge_ok_def)
    qed
    ultimately have "almost_down key (Swap h i ?j) m ?j n"
      by (auto simp: almost_down_def)
    from 1(1) [OF _ refl _ _ _ this] False 1(2,3) j show ?thesis by (simp add: down_step)
  qed
qed

lemma init_from_is_heap:
  "heap_from key h i (length h) \<Longrightarrow> heap_from key (init_from key h i) 0 (length h)"
proof (induction i arbitrary: h)
  case (Suc i)
  have "almost_down key h i i (length h)"
    using Suc.prems parent_less [of i] by (auto simp: almost_down_def heap_from_def)
  then have "heap_from key (down key h i (length h)) i (length h)"
    by (intro down_is_heap) auto
  with Suc.IH [of "down key h i (length h)"] show ?case by simp
qed simp

lemma init_from_mset: "mset (init_from key h i) = mset h"
  by (induction i arbitrary: h) (simp_all add: down_mset)

lemma heap_Init_mset [simp]: "mset (heap_Init key h) = mset h"
  by (simp add: heap_Init_def init_from_mset)

lemma heap_Init_length [simp]: "length (heap_Init key h) = length h"
  by (metis heap_Init_mset size_mset)

lemma heap_Init_is_heap: "is_heap key (heap_Init key h)"
proof -
  have "heap_from key h (length h div 2) (length h)"
    by (auto simp: heap_from_def parent_def)
  from init_from_is_heap [OF this] show ?thesis by (simp only: heap_Init_length) (simp add: heap_Init_def)
qed

lemma heap_Push_mset [simp]: "mset (heap_Push key h x) = add_mset x (mset h)"
  by (simp add: heap_Push_def Let_def up_mset)

text \<open>The root of a heap is a least entry.\<close>

lemma heap_root_least:
  assumes "heap_from key h 0 n" "k < n"
  shows "key (h ! 0) \<le> key (h ! k)"
  using assms(2)
proof (induction k rule: less_induct)
  case (less k)
  show ?case
  proof (cases "k = 0")
    case False
    with less parent_less [of k] have "key (h ! 0) \<le> key (h ! parent k)" by simp
    also from assms(1) False less.prems have "\<dots> \<le> key (h ! k)"
      by (simp add: heap_from_def edge_ok_def)
    finally show ?thesis .
  qed simp
qed

lemma heap_Pop_correct:
  assumes h: "is_heap key h" and pop: "heap_Pop key h = Some (x, h')"
  shows "mset h = add_mset x (mset h')" "is_heap key h'" "\<forall>y \<in> set h. key x \<le> key y"
proof -
  let ?n = "length h - 1"
  let ?s = "Swap h 0 ?n"
  let ?d = "down key ?s 0 ?n"
  from pop have ne: "0 < length h" and x: "x = ?d ! ?n" and h': "h' = take ?n ?d"
    by (auto simp: heap_Pop_def Let_def split: if_splits)
  from ne have root: "?d ! ?n = h ! 0" by (simp add: down_above nth_Swap)
  have "mset ?d = mset h" using ne by (simp add: down_mset)
  moreover have "?d = h' @ [x]"
    using ne h' x by (metis One_nat_def Suc_pred down_length length_Swap lessI order.refl
        take_Suc_conv_app_nth take_all)
  ultimately have "mset h = mset (h' @ [x])" by simp
  then show "mset h = add_mset x (mset h')" by simp
  have "almost_down key ?s 0 0 ?n"
  proof -
    have "edge_ok key ?s k" if k: "0 < k" "k < ?n" "parent k \<noteq> 0" for k
    proof -
      from k have "edge_ok key h k" using h by (simp add: heap_from_def)
      with k ne parent_less [of k] show ?thesis by (simp add: edge_ok_def nth_Swap)
    qed
    then show ?thesis by (simp add: almost_down_def)
  qed
  then have "heap_from key ?d 0 ?n" by (intro down_is_heap) auto
  then have "edge_ok key h' k" if "0 < k" "k < length h'" for k
    using that h' ne parent_less [of k] by (simp add: heap_from_def edge_ok_def)
  then show "is_heap key h'" by (simp add: heap_from_def)
  show "\<forall>y \<in> set h. key x \<le> key y"
    using heap_root_least [OF h] root x by (auto simp: in_set_conv_nth)
qed

section \<open>The interface\<close>

text \<open>
  A priority queue as its clients use it: insertion, removal of a least entry, rebuilding the
  order from an arbitrary list of entries.
\<close>

locale priority_queue =
  fixes key :: "'a \<Rightarrow> 'k::linorder"
    and push :: "'q \<Rightarrow> 'a \<Rightarrow> 'q"
    and pop :: "'q \<Rightarrow> ('a \<times> 'q) option"
    and build :: "'a list \<Rightarrow> 'q"
    and contents :: "'q \<Rightarrow> 'a multiset"
    and ok :: "'q \<Rightarrow> bool"
  assumes push: "ok q \<Longrightarrow> ok (push q x) \<and> contents (push q x) = add_mset x (contents q)"
    and build: "ok (build xs) \<and> contents (build xs) = mset xs"
    and pop_empty: "pop q = None \<longleftrightarrow> contents q = {#}"
    and pop_least: "ok q \<Longrightarrow> pop q = Some (x, q') \<Longrightarrow>
      ok q' \<and> contents q = add_mset x (contents q') \<and> (\<forall>y \<in># contents q. key x \<le> key y)"
begin

lemma push_ok: "ok q \<Longrightarrow> ok (push q x)"
  using push by simp

lemma push_contents: "ok q \<Longrightarrow> contents (push q x) = add_mset x (contents q)"
  using push by simp

text \<open>Pushing a list of entries, one after the other.\<close>

lemma fold_push:
  "ok q \<Longrightarrow> ok (foldl push q xs) \<and> contents (foldl push q xs) = contents q + mset xs"
  by (induction xs arbitrary: q) (simp_all add: push)

text \<open>What remains when every pop gave an entry that was due stays at or above the ones popped.\<close>

lemma pop_rest_ge:
  assumes "ok q" "pop q = Some (x, q')"
  shows "\<forall>y \<in># contents q'. key x \<le> key y"
  using pop_least [OF assms] by auto

lemma pop_size:
  assumes "ok q" "pop q = Some (x, q')"
  shows "size (contents q) = Suc (size (contents q'))"
  using pop_least [OF assms] by simp

end

interpretation go_heap: priority_queue key "heap_Push key" "heap_Pop key" "heap_Init key" mset "is_heap key"
  for key :: "'a \<Rightarrow> 'k::linorder"
proof unfold_locales
  fix q x q'
  assume "is_heap key q" "heap_Pop key q = Some (x, q')"
  note c = heap_Pop_correct [OF this]
  show "is_heap key q' \<and> mset q = add_mset x (mset q') \<and> (\<forall>y \<in># mset q. key x \<le> key y)"
    by (intro conjI c(1,2)) (use c(3) in simp)
qed (auto simp: heap_Push_is_heap heap_Init_is_heap [unfolded heap_Init_length] heap_Pop_def Let_def)

end
