(* ===== verification/Retry_Processor.thy ===== *)
theory Retry_Processor
  imports Opinionated_Reconciler Go_Heap
begin

text \<open>
  \<^verbatim>\<open>operator/retry_processor.go\<close>: the sharded worker pool that runs retries when they are due. A
  request is routed to a worker by a hash of its key (\<^verbatim>\<open>xxhash.Sum64\<close>, a parameter); each worker
  keeps its requests in a min-heap by due time. \<open>processReady\<close> is three pieces, because the
  worker's lock is released between them: pop what is due, run it, put failures back. The
  second half of the theory is the step relation in which these pieces interleave with
  \<open>Enqueue\<close> and \<open>Dequeue\<close> calls.
\<close>

section \<open>Requests and workers\<close>

type_synonym 'u retry_func = "('u, duration option \<times> go_error option) io"

record 'u RetryRequest =
  rt_Key :: string
  rt_RetryAfter :: time
  rt_RetryFunc :: "'u retry_func"
  rt_Attempt :: int
  rt_Action :: ResourceAction
  rt_Object :: ptr
  rt_LastError :: "go_error option"

type_synonym RetryPolicy = "go_error \<Rightarrow> int \<Rightarrow> bool \<times> duration"

text \<open>The channel \<^verbatim>\<open>wake\<close> holds at most one signal.\<close>

record 'u retryWorker =
  wk_queue :: "'u RetryRequest list"
  wk_wake :: bool
  wk_checkInterval :: duration

record 'u retryProcessor =
  rp_workers :: "'u retryWorker list"
  rp_workerCount :: nat
  rp_retryPolicyFn :: "unit \<Rightarrow> RetryPolicy option"

record RetryProcessorConfig =
  rpc_WorkerPoolSize :: int
  rpc_CheckInterval :: duration

definition second :: duration where
  "second = 1000000000"

definition NewRetryProcessor ::
  "RetryProcessorConfig \<Rightarrow> (unit \<Rightarrow> RetryPolicy option) option \<Rightarrow> 'u retryProcessor" where
  "NewRetryProcessor cfg retryPolicyFn =
     (let size = (if rpc_WorkerPoolSize cfg \<le> 0 then 4 else rpc_WorkerPoolSize cfg);
          interval = (if rpc_CheckInterval cfg \<le> 0 then second else rpc_CheckInterval cfg);
          policyFn = (case retryPolicyFn of None \<Rightarrow> (\<lambda>_. None) | Some f \<Rightarrow> f)
      in \<lparr>rp_workers = replicate (nat size) \<lparr>wk_queue = [], wk_wake = False, wk_checkInterval = interval\<rparr>,
          rp_workerCount = nat size, rp_retryPolicyFn = policyFn\<rparr>)"

definition shard :: "(string \<Rightarrow> nat) \<Rightarrow> 'u retryProcessor \<Rightarrow> string \<Rightarrow> nat" where
  "shard hash p key = hash key mod rp_workerCount p"

definition upd_worker ::
  "nat \<Rightarrow> ('u retryWorker \<Rightarrow> 'u retryWorker) \<Rightarrow> 'u retryProcessor \<Rightarrow> 'u retryProcessor" where
  "upd_worker i f p = p\<lparr>rp_workers := (rp_workers p)[i := f (rp_workers p ! i)]\<rparr>"

definition queue_push :: "'u RetryRequest list \<Rightarrow> 'u RetryRequest \<Rightarrow> 'u RetryRequest list" where
  "queue_push q req = heap_Push rt_RetryAfter q req"

definition Enqueue :: "(string \<Rightarrow> nat) \<Rightarrow> 'u retryProcessor \<Rightarrow> 'u RetryRequest \<Rightarrow> 'u retryProcessor" where
  "Enqueue hash p req =
     upd_worker (shard hash p (rt_Key req))
       (\<lambda>w. w\<lparr>wk_queue := queue_push (wk_queue w) req, wk_wake := True\<rparr>) p"

text \<open>The filter loop of \<open>Dequeue\<close> and \<open>DequeueAll\<close>; the heap is rebuilt only when something left.\<close>

definition filter_queue ::
  "('u RetryRequest \<Rightarrow> bool) \<Rightarrow> 'u RetryRequest list \<Rightarrow> 'u RetryRequest list" where
  "filter_queue drop_it q =
     (let filtered = filter (\<lambda>req. \<not> drop_it req) q
      in if length filtered \<noteq> length q then heap_Init rt_RetryAfter filtered else q)"

definition DequeueAll :: "(string \<Rightarrow> nat) \<Rightarrow> 'u retryProcessor \<Rightarrow> string \<Rightarrow> 'u retryProcessor" where
  "DequeueAll hash p key =
     upd_worker (shard hash p key)
       (\<lambda>w. w\<lparr>wk_queue := filter_queue (\<lambda>req. rt_Key req = key) (wk_queue w)\<rparr>) p"

definition Dequeue ::
  "(string \<Rightarrow> nat) \<Rightarrow> 'u retryProcessor \<Rightarrow> string \<Rightarrow> ('u RetryRequest \<Rightarrow> bool) option \<Rightarrow> 'u retryProcessor"
where
  "Dequeue hash p key predicate = (case predicate of
     None \<Rightarrow> DequeueAll hash p key
   | Some pr \<Rightarrow> upd_worker (shard hash p key)
       (\<lambda>w. w\<lparr>wk_queue := filter_queue (\<lambda>req. rt_Key req = key \<and> pr req) (wk_queue w)\<rparr>) p)"

definition Len :: "'u retryProcessor \<Rightarrow> nat" where
  "Len p = sum_list (map (\<lambda>w. length (wk_queue w)) (rp_workers p))"

section \<open>Processing what is due\<close>

lemma heap_Pop_length: "heap_Pop key q = Some (x, q') \<Longrightarrow> length q' < length q"
  by (auto simp: heap_Pop_def Let_def split: if_splits)

function pop_due :: "time \<Rightarrow> 'u RetryRequest list \<Rightarrow> 'u RetryRequest list \<times> 'u RetryRequest list" where
  "pop_due t q =
     (if q \<noteq> [] \<and> \<not> t < rt_RetryAfter (q ! 0) then
        (case heap_Pop rt_RetryAfter q of
           None \<Rightarrow> ([], q)
         | Some (req, q') \<Rightarrow> (let (ready, rest) = pop_due t q' in (req # ready, rest)))
      else ([], q))"
  by auto
termination
  by (relation "measure (\<lambda>(t, q). length q)") (auto simp: heap_Pop_length)

declare pop_due.simps [simp del]

record 'u retry_result =
  res_req :: "'u RetryRequest"
  res_requeue :: "duration option"
  res_err :: "go_error option"

fun run_ready :: "'u RetryRequest list \<Rightarrow> ('u, 'u retry_result list) io" where
  "run_ready [] = State_Monad.return []"
| "run_ready (req # reqs) = do {
     (requeue, err) \<leftarrow> rt_RetryFunc req;
     rest \<leftarrow> run_ready reqs;
     State_Monad.return (\<lparr>res_req = req, res_requeue = requeue, res_err = err\<rparr> # rest)
   }"

text \<open>What phase 3 pushes for one result: the explicit requeue first, then the policy.\<close>

definition next_request :: "RetryPolicy option \<Rightarrow> time \<Rightarrow> 'u retry_result \<Rightarrow> 'u RetryRequest option" where
  "next_request policy t res =
     (case res_requeue res of
        Some d \<Rightarrow> Some ((res_req res)\<lparr>rt_RetryAfter := t + d, rt_LastError := res_err res\<rparr>)
      | None \<Rightarrow>
          (case (res_err res, policy) of
             (Some e, Some pol) \<Rightarrow>
               (let (ok, after) = pol e (rt_Attempt (res_req res) + 1)
                in if ok
                   then Some ((res_req res)\<lparr>rt_RetryAfter := t + after,
                          rt_Attempt := rt_Attempt (res_req res) + 1, rt_LastError := Some e\<rparr>)
                   else None)
           | _ \<Rightarrow> None))"

fun push_results ::
  "RetryPolicy option \<Rightarrow> 'u retry_result list \<Rightarrow> 'u RetryRequest list \<Rightarrow> ('u, 'u RetryRequest list) io" where
  "push_results policy [] q = State_Monad.return q"
| "push_results policy (res # results) q = do {
     t \<leftarrow> now;
     push_results policy results
       (case next_request policy t res of None \<Rightarrow> q | Some req \<Rightarrow> queue_push q req)
   }"

text \<open>\<open>processReady\<close> of one worker, when nothing else touches its queue meanwhile.\<close>

definition processReady ::
  "(unit \<Rightarrow> RetryPolicy option) \<Rightarrow> 'u RetryRequest list \<Rightarrow> ('u, 'u RetryRequest list) io" where
  "processReady retryPolicyFn q = do {
     t \<leftarrow> now;
     let (ready, rest) = pop_due t q;
     if ready = [] then State_Monad.return rest
     else do {
       results \<leftarrow> run_ready ready;
       push_results (retryPolicyFn ()) results rest
     }
   }"

section \<open>Lemmas on the queues\<close>

abbreviation queue_ok :: "'u RetryRequest list \<Rightarrow> bool" where
  "queue_ok q \<equiv> is_heap rt_RetryAfter q"

lemma pop_due_correct:
  assumes "queue_ok q" "pop_due t q = (ready, rest)"
  shows "queue_ok rest \<and> mset q = mset ready + mset rest \<and>
    (\<forall>r \<in> set ready. rt_RetryAfter r \<le> t) \<and> (\<forall>r \<in> set rest. t < rt_RetryAfter r) \<and>
    sorted (map rt_RetryAfter ready)"
  using assms
proof (induction t q arbitrary: ready rule: pop_due.induct)
  case (1 t q)
  show ?case
  proof (cases "q \<noteq> [] \<and> \<not> t < rt_RetryAfter (q ! 0)")
    case False
    then have "ready = []" "rest = q" using 1(3) by (auto simp: pop_due.simps [of t q])
    moreover have "t < rt_RetryAfter r" if "r \<in> set q" for r
      using that False heap_root_least [OF 1(2)] by (fastforce simp: in_set_conv_nth)
    ultimately show ?thesis using 1(2) by simp
  next
    case True
    then obtain x q' where pop: "heap_Pop rt_RetryAfter q = Some (x, q')"
      by (cases "heap_Pop rt_RetryAfter q") (auto simp: heap_Pop_def Let_def)
    from True pop 1(3) obtain ready' where rec: "pop_due t q' = (ready', rest)" "ready = x # ready'"
      by (auto simp: pop_due.simps [of t q] split: prod.splits)
    note c = heap_Pop_correct [OF 1(2) pop]
    from 1(1) [OF True pop refl c(2) rec(1)] have ih: "queue_ok rest"
        "mset q' = mset ready' + mset rest" "\<forall>r \<in> set ready'. rt_RetryAfter r \<le> t"
        "\<forall>r \<in> set rest. t < rt_RetryAfter r" "sorted (map rt_RetryAfter ready')" by auto
    have "rt_RetryAfter x \<le> t"
      using True c(3) by (meson length_greater_0_conv leI nth_mem order.trans)
    moreover have "\<forall>r \<in> set ready'. rt_RetryAfter x \<le> rt_RetryAfter r"
    proof
      fix r assume "r \<in> set ready'"
      then have "r \<in># mset q'" using ih(2) by simp
      then have "r \<in> set q" using c(1) by (metis insert_iff set_mset_add_mset_insert set_mset_mset)
      with c(3) show "rt_RetryAfter x \<le> rt_RetryAfter r" by blast
    qed
    ultimately show ?thesis using ih c(1) rec(2) by simp
  qed
qed

lemma filter_queue_mset: "mset (filter_queue P q) = filter_mset (\<lambda>r. \<not> P r) (mset q)"
proof (cases "length (filter (\<lambda>r. \<not> P r) q) = length q")
  case True
  then have "filter (\<lambda>r. \<not> P r) q = q"
    by (metis filter_id_conv length_filter_less nat_neq_iff)
  then show ?thesis by (simp add: filter_queue_def Let_def flip: mset_filter)
qed (simp add: filter_queue_def Let_def)

lemma filter_queue_ok: "queue_ok q \<Longrightarrow> queue_ok (filter_queue P q)"
  using heap_Init_is_heap [of rt_RetryAfter "filter (\<lambda>r. \<not> P r) q"]
  by (auto simp: filter_queue_def Let_def)

lemma queue_push_correct:
  "queue_ok q \<Longrightarrow> queue_ok (queue_push q r)" "mset (queue_push q r) = add_mset r (mset q)"
  by (simp_all add: queue_push_def go_heap.push_ok)

text \<open>The requests phase 3 pushes, at the time \<open>t\<close>.\<close>

definition requeued :: "RetryPolicy option \<Rightarrow> time \<Rightarrow> 'u retry_result list \<Rightarrow> 'u RetryRequest list" where
  "requeued policy t results = List.map_filter (next_request policy t) results"

lemma push_results_run:
  "run_state (push_results policy results q) w =
     (foldl queue_push q (requeued policy (w_now w) results), w)"
  by (induction results arbitrary: q)
     (auto simp: requeued_def map_filter_simps split: option.split)

lemma foldl_push_correct:
  "queue_ok q \<Longrightarrow> queue_ok (foldl queue_push q rs) \<and> mset (foldl queue_push q rs) = mset q + mset rs"
  unfolding queue_push_def by (rule go_heap.fold_push)

lemma set_queue_push [simp]: "set (queue_push q r) = insert r (set q)"
  by (metis queue_push_correct(2) set_mset_add_mset_insert set_mset_mset)

lemma set_filter_queue [simp]: "set (filter_queue P q) = {r \<in> set q. \<not> P r}"
  by (metis filter_queue_mset set_mset_filter set_mset_mset)

lemma requeued_from: "r \<in> set (requeued policy t results) \<Longrightarrow>
    \<exists>res \<in> set results. next_request policy t res = Some r"
  by (auto simp: requeued_def List.map_filter_def)

lemma next_request_key: "next_request policy t res = Some r \<Longrightarrow> rt_Key r = rt_Key (res_req res)"
  by (auto simp: next_request_def split: option.splits prod.splits if_splits)

section \<open>The processor's invariant\<close>

text \<open>Every worker's queue is a heap of requests that belong to its shard.\<close>

definition proc_ok :: "(string \<Rightarrow> nat) \<Rightarrow> 'u retryProcessor \<Rightarrow> bool" where
  "proc_ok hash p \<longleftrightarrow> 0 < rp_workerCount p \<and> length (rp_workers p) = rp_workerCount p \<and>
     (\<forall>i < rp_workerCount p. queue_ok (wk_queue (rp_workers p ! i)) \<and>
        (\<forall>r \<in> set (wk_queue (rp_workers p ! i)). shard hash p (rt_Key r) = i))"

text \<open>All pending requests, and those of one key.\<close>

definition all_pending :: "'u retryProcessor \<Rightarrow> 'u RetryRequest multiset" where
  "all_pending p = (\<Sum>i < rp_workerCount p. mset (wk_queue (rp_workers p ! i)))"

definition pending :: "'u retryProcessor \<Rightarrow> string \<Rightarrow> 'u RetryRequest multiset" where
  "pending p key = filter_mset (\<lambda>r. rt_Key r = key) (all_pending p)"

lemma shard_less: "proc_ok hash p \<Longrightarrow> shard hash p key < rp_workerCount p"
  by (simp add: proc_ok_def shard_def)

lemma upd_worker_sel [simp]:
  "rp_workerCount (upd_worker i f p) = rp_workerCount p"
  "shard hash (upd_worker i f p) key = shard hash p key"
  "length (rp_workers (upd_worker i f p)) = length (rp_workers p)"
  by (simp_all add: upd_worker_def shard_def)

lemma upd_worker_ok:
  assumes ok: "proc_ok hash p" and i: "i < rp_workerCount p"
    and f: "\<And>w. queue_ok (wk_queue w) \<Longrightarrow> \<forall>r \<in> set (wk_queue w). shard hash p (rt_Key r) = i \<Longrightarrow>
        queue_ok (wk_queue (f w)) \<and> (\<forall>r \<in> set (wk_queue (f w)). shard hash p (rt_Key r) = i)"
  shows "proc_ok hash (upd_worker i f p)"
  using assms by (auto simp: proc_ok_def upd_worker_def nth_list_update shard_def)

lemma nth_upd_worker:
  "i < length (rp_workers p) \<Longrightarrow>
     rp_workers (upd_worker i f p) ! j = (if j = i then f (rp_workers p ! i) else rp_workers p ! j)"
  by (simp add: upd_worker_def nth_list_update)

lemma all_pending_split:
  "i < rp_workerCount p \<Longrightarrow>
     all_pending p = mset (wk_queue (rp_workers p ! i)) +
       (\<Sum>j \<in> {..<rp_workerCount p} - {i}. mset (wk_queue (rp_workers p ! j)))"
  by (simp add: all_pending_def sum.remove)

lemma all_pending_upd:
  assumes "proc_ok hash p" "i < rp_workerCount p"
  shows "all_pending (upd_worker i f p) + mset (wk_queue (rp_workers p ! i)) =
         all_pending p + mset (wk_queue (f (rp_workers p ! i)))"
proof -
  have "i < length (rp_workers p)" using assms by (simp add: proc_ok_def)
  then have "all_pending (upd_worker i f p) = mset (wk_queue (f (rp_workers p ! i))) +
      (\<Sum>j \<in> {..<rp_workerCount p} - {i}. mset (wk_queue (rp_workers p ! j)))"
    using assms(2) by (subst all_pending_split [of i]) (simp_all add: nth_upd_worker)
  with all_pending_split [OF assms(2)] show ?thesis by (simp add: ac_simps)
qed

lemma filter_mset_sum: "finite I \<Longrightarrow> filter_mset P (sum f I) = (\<Sum>i \<in> I. filter_mset P (f i))"
  by (induction I rule: finite_induct) simp_all

lemma NewRetryProcessor_ok: "proc_ok hash (NewRetryProcessor cfg fn)"
  by (auto simp: proc_ok_def NewRetryProcessor_def Let_def heap_from_def)

lemma NewRetryProcessor_empty: "all_pending (NewRetryProcessor cfg fn) = {#}"
  by (simp add: all_pending_def NewRetryProcessor_def Let_def)

lemma Enqueue_ok [inv_intros]: "proc_ok hash p \<Longrightarrow> proc_ok hash (Enqueue hash p r)"
  unfolding Enqueue_def
  by (rule upd_worker_ok) (auto simp: shard_less queue_push_correct(1))

lemma Enqueue_pending: "proc_ok hash p \<Longrightarrow> all_pending (Enqueue hash p r) = add_mset r (all_pending p)"
  using all_pending_upd [of hash p "shard hash p (rt_Key r)"
      "\<lambda>w. w\<lparr>wk_queue := queue_push (wk_queue w) r, wk_wake := True\<rparr>"]
  by (simp add: Enqueue_def shard_less queue_push_correct(2))

text \<open>Both dequeue operations filter the queue of the key's shard by a predicate of that key.\<close>

lemma DequeueAll_alt: "DequeueAll hash p key = Dequeue hash p key (Some (\<lambda>r. True))"
  by (simp add: DequeueAll_def Dequeue_def)

lemma Dequeue_alt:
  "Dequeue hash p key pr =
     upd_worker (shard hash p key)
       (\<lambda>w. w\<lparr>wk_queue := filter_queue (\<lambda>r. rt_Key r = key \<and> (case pr of None \<Rightarrow> True | Some f \<Rightarrow> f r))
                 (wk_queue w)\<rparr>) p"
  by (simp add: Dequeue_def DequeueAll_def split: option.split)

lemma Dequeue_ok [inv_intros]: "proc_ok hash p \<Longrightarrow> proc_ok hash (Dequeue hash p key pr)"
  unfolding Dequeue_alt by (rule upd_worker_ok) (auto simp: shard_less filter_queue_ok)

text \<open>The shard invariant makes looking at one worker enough.\<close>

lemma Dequeue_pending:
  assumes ok: "proc_ok hash p"
  shows "all_pending (Dequeue hash p key pr) =
    filter_mset (\<lambda>r. \<not> (rt_Key r = key \<and> (case pr of None \<Rightarrow> True | Some f \<Rightarrow> f r))) (all_pending p)"
    (is "_ = filter_mset ?keep _")
proof -
  let ?i = "shard hash p key"
  let ?q = "\<lambda>j. wk_queue (rp_workers p ! j)"
  have i: "?i < length (rp_workers p)" "length (rp_workers p) = rp_workerCount p"
    using shard_less [OF ok, of key] ok by (simp_all add: proc_ok_def)
  have "mset (wk_queue (rp_workers (Dequeue hash p key pr) ! j)) = filter_mset ?keep (mset (?q j))"
    if "j < rp_workerCount p" for j
  proof (cases "j = ?i")
    case True
    then show ?thesis using i by (simp add: Dequeue_alt nth_upd_worker filter_queue_mset)
  next
    case False
    with ok that have "\<forall>r \<in> set (?q j). rt_Key r \<noteq> key" by (auto simp: proc_ok_def)
    then have "filter_mset ?keep (mset (?q j)) = mset (?q j)" by (auto simp: filter_mset_eq_conv)
    with False i show ?thesis by (simp add: Dequeue_alt nth_upd_worker)
  qed
  then show ?thesis
    by (simp add: all_pending_def filter_mset_sum) (simp add: Dequeue_alt)
qed

lemma size_sum_mset:
  fixes f :: "'i \<Rightarrow> 'a multiset"
  shows "finite I \<Longrightarrow> size (sum f I) = (\<Sum>i \<in> I. size (f i))"
  by (induction I rule: finite_induct) simp_all

lemma Len_pending: "proc_ok hash p \<Longrightarrow> Len p = size (all_pending p)"
  by (simp add: Len_def all_pending_def proc_ok_def sum_list_sum_nth atLeast0LessThan size_sum_mset)

lemma Len_Enqueue: "proc_ok hash p \<Longrightarrow> Len (Enqueue hash p r) = Suc (Len p)"
  by (simp add: Len_pending [of hash] Enqueue_ok Enqueue_pending)

section \<open>The interface the controller uses\<close>

text \<open>
  What the informer controller relies on when it queues and drops retries, whichever of its two
  stores is behind it: a store keeps, per key, a bag of pending retries; queueing adds one,
  dropping by a predicate removes exactly the retries of the key that satisfy it.
\<close>

locale retry_store =
  fixes enqueue :: "'q \<Rightarrow> string \<Rightarrow> 'r \<Rightarrow> 'q"
    and dequeue :: "'q \<Rightarrow> string \<Rightarrow> ('r \<Rightarrow> bool) \<Rightarrow> 'q"
    and dequeue_all :: "'q \<Rightarrow> string \<Rightarrow> 'q"
    and waiting :: "'q \<Rightarrow> string \<Rightarrow> 'r multiset"
    and fits :: "string \<Rightarrow> 'r \<Rightarrow> bool"
    and ok :: "'q \<Rightarrow> bool"
  assumes enqueue: "ok q \<Longrightarrow> fits key r \<Longrightarrow> ok (enqueue q key r) \<and>
      waiting (enqueue q key r) k = (if k = key then add_mset r (waiting q k) else waiting q k)"
    and dequeue: "ok q \<Longrightarrow> ok (dequeue q key P) \<and>
      waiting (dequeue q key P) k = (if k = key then filter_mset (\<lambda>r. \<not> P r) (waiting q k) else waiting q k)"
    and dequeue_all: "ok q \<Longrightarrow> ok (dequeue_all q key) \<and>
      waiting (dequeue_all q key) k = (if k = key then {#} else waiting q k)"
begin

text \<open>The controller's dequeue step: by the policy when there is one, everything otherwise.\<close>

definition supersede :: "('r \<Rightarrow> bool) option \<Rightarrow> 'q \<Rightarrow> string \<Rightarrow> 'q" where
  "supersede P q key = (case P of None \<Rightarrow> dequeue_all q key | Some f \<Rightarrow> dequeue q key f)"

lemma supersede_ok: "ok q \<Longrightarrow> ok (supersede P q key)"
  by (simp add: supersede_def dequeue dequeue_all split: option.split)

lemma supersede_waiting:
  "ok q \<Longrightarrow> waiting (supersede P q key) k =
     (if k = key then filter_mset (\<lambda>r. \<not> (case P of None \<Rightarrow> True | Some f \<Rightarrow> f r)) (waiting q k)
      else waiting q k)"
  by (simp add: supersede_def dequeue dequeue_all split: option.split)

lemma supersede_other: "ok q \<Longrightarrow> k \<noteq> key \<Longrightarrow> waiting (supersede P q key) k = waiting q k"
  by (simp add: supersede_waiting)

text \<open>One event: drop what it supersedes, then queue its own retry. Only the key's retries change.\<close>

lemma supersede_then_enqueue:
  assumes "ok q" "fits key r"
  shows "waiting (enqueue (supersede P q key) key r) key =
      add_mset r (filter_mset (\<lambda>r. \<not> (case P of None \<Rightarrow> True | Some f \<Rightarrow> f r)) (waiting q key))"
    and "k \<noteq> key \<Longrightarrow> waiting (enqueue (supersede P q key) key r) k = waiting q k"
  using assms enqueue [OF supersede_ok [OF assms(1)] assms(2)] by (simp_all add: supersede_waiting)

end

lemma pending_laws:
  assumes "proc_ok hash p"
  shows "pending (Enqueue hash p r) k = (if k = rt_Key r then add_mset r (pending p k) else pending p k)"
    and "pending (Dequeue hash p key pr) k =
      (if k = key then filter_mset (\<lambda>r. \<not> (case pr of None \<Rightarrow> True | Some f \<Rightarrow> f r)) (pending p k)
       else pending p k)"
proof -
  show "pending (Enqueue hash p r) k = (if k = rt_Key r then add_mset r (pending p k) else pending p k)"
    using assms by (auto simp: pending_def Enqueue_pending)
  show "pending (Dequeue hash p key pr) k =
      (if k = key then filter_mset (\<lambda>r. \<not> (case pr of None \<Rightarrow> True | Some f \<Rightarrow> f r)) (pending p k)
       else pending p k)"
    unfolding pending_def Dequeue_pending [OF assms] filter_filter_mset
    by (auto intro!: filter_mset_cong)
qed

interpretation proc_store: retry_store "\<lambda>p key r. Enqueue hash p r" "\<lambda>p key P. Dequeue hash p key (Some P)"
    "DequeueAll hash" pending "\<lambda>key r. rt_Key r = key" "proc_ok hash"
  for hash
  by unfold_locales (auto simp: pending_laws DequeueAll_alt Enqueue_ok Dequeue_ok)

section \<open>Interleaved execution\<close>

text \<open>
  The pool while it runs: the queues, per worker the popped requests it has not run yet and the
  results it has not put back, the clock, and a ghost log of executions (worker, request, time).
\<close>

record 'u pool =
  pl_proc :: "'u retryProcessor"
  pl_ready :: "nat \<Rightarrow> 'u RetryRequest list"
  pl_results :: "nat \<Rightarrow> 'u retry_result list"
  pl_now :: time
  pl_log :: "(nat \<times> 'u RetryRequest \<times> time) list"

definition set_queue :: "'u RetryRequest list \<Rightarrow> 'u retryWorker \<Rightarrow> 'u retryWorker" where
  "set_queue q w = w\<lparr>wk_queue := q\<rparr>"

definition worker_queue :: "'u pool \<Rightarrow> nat \<Rightarrow> 'u RetryRequest list" where
  "worker_queue s i = wk_queue (rp_workers (pl_proc s) ! i)"

text \<open>
  Other goroutines enqueue and dequeue and time passes at any moment; worker \<open>i\<close> goes through
  the three phases of \<open>processReady\<close>. What a retry function returns is not constrained.
\<close>

inductive pool_step :: "(string \<Rightarrow> nat) \<Rightarrow> 'u pool \<Rightarrow> 'u pool \<Rightarrow> bool" for hash where
  step_enqueue: "pool_step hash s (s\<lparr>pl_proc := Enqueue hash (pl_proc s) r\<rparr>)"
| step_dequeue: "pool_step hash s (s\<lparr>pl_proc := Dequeue hash (pl_proc s) key pr\<rparr>)"
| step_tick: "pl_now s \<le> t \<Longrightarrow> pool_step hash s (s\<lparr>pl_now := t\<rparr>)"
| step_pop: "i < rp_workerCount (pl_proc s) \<Longrightarrow> pl_ready s i = [] \<Longrightarrow> pl_results s i = [] \<Longrightarrow>
    pop_due (pl_now s) (worker_queue s i) = (ready, rest) \<Longrightarrow>
    pool_step hash s (s\<lparr>pl_proc := upd_worker i (set_queue rest) (pl_proc s),
                        pl_ready := (pl_ready s)(i := ready)\<rparr>)"
| step_run: "i < rp_workerCount (pl_proc s) \<Longrightarrow> pl_ready s i = r # rs \<Longrightarrow>
    pool_step hash s (s\<lparr>pl_ready := (pl_ready s)(i := rs),
        pl_results := (pl_results s)
          (i := pl_results s i @ [\<lparr>res_req = r, res_requeue = requeue, res_err = err\<rparr>]),
        pl_log := pl_log s @ [(i, r, pl_now s)]\<rparr>)"
| step_finish: "i < rp_workerCount (pl_proc s) \<Longrightarrow> pl_ready s i = [] \<Longrightarrow>
    pool_step hash s (s\<lparr>pl_proc := upd_worker i
          (set_queue (foldl queue_push (worker_queue s i)
             (requeued (rp_retryPolicyFn (pl_proc s) ()) (pl_now s) (pl_results s i)))) (pl_proc s),
        pl_results := (pl_results s)(i := [])\<rparr>)"

inductive_cases pool_stepE: "pool_step hash s s'"

definition pool_init :: "RetryProcessorConfig \<Rightarrow> (unit \<Rightarrow> RetryPolicy option) option \<Rightarrow> time \<Rightarrow> 'u pool" where
  "pool_init cfg fn t =
     \<lparr>pl_proc = NewRetryProcessor cfg fn, pl_ready = (\<lambda>i. []), pl_results = (\<lambda>i. []), pl_now = t, pl_log = []\<rparr>"

text \<open>Every request in flight is due and with the worker of its shard; so was every logged one.\<close>

definition pool_inv :: "(string \<Rightarrow> nat) \<Rightarrow> 'u pool \<Rightarrow> bool" where
  "pool_inv hash s \<longleftrightarrow> proc_ok hash (pl_proc s) \<and>
     (\<forall>i. \<forall>r \<in> set (pl_ready s i). shard hash (pl_proc s) (rt_Key r) = i \<and> rt_RetryAfter r \<le> pl_now s) \<and>
     (\<forall>i. \<forall>res \<in> set (pl_results s i). shard hash (pl_proc s) (rt_Key (res_req res)) = i) \<and>
     (\<forall>(i, r, t) \<in> set (pl_log s). shard hash (pl_proc s) (rt_Key r) = i \<and> rt_RetryAfter r \<le> t)"

lemma shard_ops [simp]:
  "shard hash' (Enqueue hash p r) k = shard hash' p k" "shard hash' (Dequeue hash p key pr) k = shard hash' p k"
  by (simp_all add: Enqueue_def Dequeue_alt)

lemma pool_inv_init: "pool_inv hash (pool_init cfg fn t)"
  by (simp add: pool_inv_def pool_init_def NewRetryProcessor_ok)

lemma upd_queue_ok:
  assumes "proc_ok hash p" "i < rp_workerCount p" "queue_ok q"
    and "\<forall>r \<in> set q. shard hash p (rt_Key r) = i"
  shows "proc_ok hash (upd_worker i (set_queue q) p)"
  using assms by (intro upd_worker_ok) (auto simp: set_queue_def)

lemma pool_inv_queue:
  "pool_inv hash s \<Longrightarrow> i < rp_workerCount (pl_proc s) \<Longrightarrow>
     queue_ok (worker_queue s i) \<and> (\<forall>r \<in> set (worker_queue s i). shard hash (pl_proc s) (rt_Key r) = i)"
  by (simp add: pool_inv_def proc_ok_def worker_queue_def)

lemma pool_inv_pop:
  assumes inv: "pool_inv hash s" and i: "i < rp_workerCount (pl_proc s)"
    and pop: "pop_due (pl_now s) (worker_queue s i) = (ready, rest)"
  shows "pool_inv hash (s\<lparr>pl_proc := upd_worker i (set_queue rest) (pl_proc s),
                        pl_ready := (pl_ready s)(i := ready)\<rparr>)"
proof -
  note q = pool_inv_queue [OF inv i]
  from pop_due_correct [OF _ pop] q have c: "queue_ok rest" "\<forall>r \<in> set ready. rt_RetryAfter r \<le> pl_now s"
      "mset (worker_queue s i) = mset ready + mset rest" by auto
  from c(3) have "set (worker_queue s i) = set ready \<union> set rest"
    by (metis set_mset_mset set_mset_union)
  with q c inv i show ?thesis
    by (auto simp: pool_inv_def intro!: upd_queue_ok)
qed

lemma pool_inv_finish:
  assumes inv: "pool_inv hash s" and i: "i < rp_workerCount (pl_proc s)"
  shows "pool_inv hash (s\<lparr>pl_proc := upd_worker i
          (set_queue (foldl queue_push (worker_queue s i)
             (requeued (rp_retryPolicyFn (pl_proc s) ()) (pl_now s) (pl_results s i)))) (pl_proc s),
        pl_results := (pl_results s)(i := [])\<rparr>)"
proof -
  let ?new = "requeued (rp_retryPolicyFn (pl_proc s) ()) (pl_now s) (pl_results s i)"
  note q = pool_inv_queue [OF inv i]
  then have c: "queue_ok (foldl queue_push (worker_queue s i) ?new)"
      "mset (foldl queue_push (worker_queue s i) ?new) = mset (worker_queue s i) + mset ?new"
    using foldl_push_correct by blast+
  from c(2) have "set (foldl queue_push (worker_queue s i) ?new) = set (worker_queue s i) \<union> set ?new"
    by (metis set_mset_mset set_mset_union)
  moreover have "shard hash (pl_proc s) (rt_Key r) = i" if "r \<in> set ?new" for r
    using requeued_from [OF that] next_request_key inv by (fastforce simp: pool_inv_def)
  ultimately show ?thesis using q c inv i by (auto simp: pool_inv_def intro!: upd_queue_ok)
qed

lemma pool_inv_step: "pool_step hash s s' \<Longrightarrow> pool_inv hash s \<Longrightarrow> pool_inv hash s'"
proof (induction rule: pool_step.induct)
  case (step_pop i s ready rest)
  then show ?case by (intro pool_inv_pop)
next
  case (step_finish i s)
  then show ?case by (intro pool_inv_finish)
next
  case (step_run i s r rs requeue err)
  have "\<forall>ra \<in> set (pl_ready s i). shard hash (pl_proc s) (rt_Key ra) = i \<and> rt_RetryAfter ra \<le> pl_now s"
    using step_run.prems unfolding pool_inv_def by blast
  with step_run show ?case by (auto simp: pool_inv_def)
next
  case (step_tick s t)
  then show ?case by (fastforce simp: pool_inv_def)
qed (auto simp: pool_inv_def inv_intros)

lemma two_steps: "R a b \<Longrightarrow> R b c \<Longrightarrow> R\<^sup>*\<^sup>* a c"
  by auto

lemma pool_inv_reachable: "(pool_step hash)\<^sup>*\<^sup>* s s' \<Longrightarrow> pool_inv hash s \<Longrightarrow> pool_inv hash s'"
  by (induction rule: rtranclp_induct) (auto dest: pool_inv_step)

lemma run_ready_requests:
  "run_state (run_ready reqs) w = (results, w') \<Longrightarrow> map res_req results = reqs"
  by (induction reqs arbitrary: w results) (auto split: prod.splits)

section \<open>Properties\<close>

text \<open>
  \<open>processReady\<close> runs exactly the requests that are due, earliest first, and leaves in the
  queue, again a heap, the ones that are not due together with what the requeue durations and the
  retry policy ask for.
\<close>

lemma processReady_exact:
  assumes "queue_ok q"
  shows "\<exists>ready rest results w' q'.
    mset q = mset ready + mset rest \<and> sorted (map rt_RetryAfter ready) \<and>
    (\<forall>r \<in> set ready. rt_RetryAfter r \<le> w_now w) \<and> (\<forall>r \<in> set rest. w_now w < rt_RetryAfter r) \<and>
    run_state (run_ready ready) w = (results, w') \<and> map res_req results = ready \<and>
    run_state (processReady fn q) w = (q', w') \<and> queue_ok q' \<and>
    mset q' = mset rest + mset (requeued (fn ()) (w_now w') results)"
proof -
  obtain ready rest where pop: "pop_due (w_now w) q = (ready, rest)" by fastforce
  obtain results w' where run: "run_state (run_ready ready) w = (results, w')" by fastforce
  note c = pop_due_correct [OF assms pop]
  let ?q' = "foldl queue_push rest (requeued (fn ()) (w_now w') results)"
  from c have q': "queue_ok ?q' \<and> mset ?q' = mset rest + mset (requeued (fn ()) (w_now w') results)"
    by (intro foldl_push_correct) simp
  have "run_state (processReady fn q) w = (?q', w')"
    using pop run by (cases "ready = []")
      (auto simp: processReady_def push_results_run requeued_def map_filter_simps)
  with c run q' run_ready_requests [OF run] show ?thesis by blast
qed

definition sample_retry :: "string \<Rightarrow> time \<Rightarrow> go_error option \<Rightarrow> nat RetryRequest" where
  "sample_retry key t err =
     \<lparr>rt_Key = key, rt_RetryAfter = t, rt_RetryFunc = State_Monad.return (None, err), rt_Attempt = 0,
      rt_Action = ResourceActionUpdate, rt_Object = 0, rt_LastError = None\<rparr>"

lemma processReady_exact_witness:
  "let q = [sample_retry ''b'' (- 2) None, sample_retry ''a'' 0 (Some (GoErr ''x'')), sample_retry ''c'' 3 None];
       w = sample_world (sample_object []) 0; fn = (\<lambda>_. Some (\<lambda>e n. (True, 5)))
   in \<exists>ready rest results w' q'.
    mset q = mset ready + mset rest \<and> sorted (map rt_RetryAfter ready) \<and>
    (\<forall>r \<in> set ready. rt_RetryAfter r \<le> w_now w) \<and> (\<forall>r \<in> set rest. w_now w < rt_RetryAfter r) \<and>
    run_state (run_ready ready) w = (results, w') \<and> map res_req results = ready \<and>
    run_state (processReady fn q) w = (q', w') \<and> queue_ok q' \<and>
    mset q' = mset rest + mset (requeued (fn ()) (w_now w') results)"
proof -
  have "queue_ok [sample_retry ''b'' (- 2) None, sample_retry ''a'' 0 (Some (GoErr ''x'')),
      sample_retry ''c'' 3 None]"
    by (auto simp: heap_from_def edge_ok_def parent_def sample_retry_def less_Suc_eq numeral_3_eq_3)
  from processReady_exact [OF this] show ?thesis unfolding Let_def .
qed

text \<open>
  C2. However \<open>Enqueue\<close>, \<open>Dequeue\<close> and the workers' phases interleave, a request is only ever run
  by the worker its key hashes to, so never by two workers at once, and never before it is due.
\<close>

theorem retries_run_on_their_shard_when_due:
  assumes "(pool_step hash)\<^sup>*\<^sup>* (pool_init cfg fn t0) s" "(i, r, t) \<in> set (pl_log s)"
  shows "i = shard hash (pl_proc s) (rt_Key r) \<and> rt_RetryAfter r \<le> t"
  using pool_inv_reachable [OF assms(1) pool_inv_init] assms(2) by (auto simp: pool_inv_def)

definition sample_config :: RetryProcessorConfig where
  "sample_config = \<lparr>rpc_WorkerPoolSize = 1, rpc_CheckInterval = 0\<rparr>"

definition sample_pool :: "nat pool" where
  "sample_pool =
     \<lparr>pl_proc = upd_worker 0 (set_queue []) (Enqueue length (NewRetryProcessor sample_config
                  (Some (\<lambda>_. Some (\<lambda>e n. (True, 7))))) (sample_retry ''a'' 3 None)),
      pl_ready = (\<lambda>i. if i = 0 then [sample_retry ''a'' 3 None] else []), pl_results = (\<lambda>i. []),
      pl_now = 5, pl_log = []\<rparr>"

lemma sample_pool_reachable:
  "(pool_step length)\<^sup>*\<^sup>* (pool_init sample_config (Some (\<lambda>_. Some (\<lambda>e n. (True, 7)))) 5) sample_pool"
proof -
  let ?r = "sample_retry ''a'' 3 None"
  let ?s0 = "pool_init sample_config (Some (\<lambda>_. Some (\<lambda>e n. (True, 7)))) 5 :: nat pool"
  let ?s1 = "?s0\<lparr>pl_proc := Enqueue length (pl_proc ?s0) ?r\<rparr>"
  have q: "worker_queue ?s1 0 = [?r]"
    by (simp add: worker_queue_def Enqueue_def upd_worker_def pool_init_def NewRetryProcessor_def
        sample_config_def shard_def queue_push_def heap_Push_def Let_def up_stop parent_def)
  have "heap_Pop rt_RetryAfter [?r] = Some (?r, [])"
    by (simp add: heap_Pop_def Swap_def down_stop Let_def)
  then have "pop_due (pl_now ?s1) (worker_queue ?s1 0) = ([?r], [])"
    unfolding q by (simp add: pop_due.simps sample_retry_def pool_init_def)
  from step_pop [OF _ _ _ this, of length]
  have "pool_step length ?s1 (?s1\<lparr>pl_proc := upd_worker 0 (set_queue []) (pl_proc ?s1),
      pl_ready := (pl_ready ?s1)(0 := [?r])\<rparr>)"
    by (simp add: pool_init_def Enqueue_def NewRetryProcessor_def sample_config_def)
  also have "?s1\<lparr>pl_proc := upd_worker 0 (set_queue []) (pl_proc ?s1),
      pl_ready := (pl_ready ?s1)(0 := [?r])\<rparr> = sample_pool"
    by (simp add: sample_pool_def pool_init_def fun_eq_iff)
  finally have "pool_step length ?s1 sample_pool" .
  moreover have "pool_step length ?s0 ?s1" by (rule step_enqueue)
  ultimately show ?thesis by (meson converse_rtranclp_into_rtranclp rtranclp.rtrancl_refl)
qed

theorem retries_run_on_their_shard_when_due_witness:
  "\<exists>s :: nat pool. (0, sample_retry ''a'' 3 None, 5) \<in> set (pl_log s) \<and>
     0 = shard length (pl_proc s) (rt_Key (sample_retry ''a'' 3 None)) \<and>
     rt_RetryAfter (sample_retry ''a'' 3 None) \<le> 5"
proof -
  let ?r = "sample_retry ''a'' 3 None"
  let ?s = "sample_pool\<lparr>pl_ready := (pl_ready sample_pool)(0 := []),
        pl_results := (pl_results sample_pool)
          (0 := pl_results sample_pool 0 @ [\<lparr>res_req = ?r, res_requeue = None, res_err = None\<rparr>]),
        pl_log := pl_log sample_pool @ [(0, ?r, pl_now sample_pool)]\<rparr>"
  have "pool_step length sample_pool ?s"
    by (rule step_run) (simp_all add: sample_pool_def Enqueue_def NewRetryProcessor_def sample_config_def)
  with sample_pool_reachable have
    "(pool_step length)\<^sup>*\<^sup>* (pool_init sample_config (Some (\<lambda>_. Some (\<lambda>e n. (True, 7)))) 5) ?s" by simp
  moreover have log: "(0, ?r, 5) \<in> set (pl_log ?s)" by (simp add: sample_pool_def)
  ultimately have "0 = shard length (pl_proc ?s) (rt_Key ?r) \<and> rt_RetryAfter ?r \<le> 5"
    by (rule retries_run_on_their_shard_when_due)
  with log show ?thesis by (intro exI [of _ ?s] conjI) (elim conjE, assumption)+
qed

text \<open>
  \<open>Dequeue\<close> removes, from the whole pool, exactly the pending requests of its key that satisfy
  the predicate (all of the key's without one) and keeps the invariant, although it looks at one
  worker only.
\<close>

lemma Dequeue_exact:
  assumes "proc_ok hash p"
  shows "proc_ok hash (Dequeue hash p key pr) \<and>
    all_pending (Dequeue hash p key pr) =
      filter_mset (\<lambda>r. \<not> (rt_Key r = key \<and> (case pr of None \<Rightarrow> True | Some f \<Rightarrow> f r))) (all_pending p)"
  using assms by (simp add: Dequeue_ok Dequeue_pending)

lemma Dequeue_exact_witness:
  "let p = Enqueue length (Enqueue length (NewRetryProcessor \<lparr>rpc_WorkerPoolSize = 2, rpc_CheckInterval = 0\<rparr> None)
             (sample_retry ''a'' 1 None)) (sample_retry ''bb'' 2 None)
   in proc_ok length (Dequeue length p ''a'' None) \<and>
    all_pending (Dequeue length p ''a'' None) = filter_mset (\<lambda>r. \<not> (rt_Key r = ''a'' \<and> True)) (all_pending p)"
proof -
  let ?p = "Enqueue length (Enqueue length
      (NewRetryProcessor \<lparr>rpc_WorkerPoolSize = 2, rpc_CheckInterval = 0\<rparr> None)
      (sample_retry ''a'' 1 None)) (sample_retry ''bb'' 2 None)"
  have "proc_ok length ?p" by (intro Enqueue_ok NewRetryProcessor_ok)
  from Dequeue_exact [OF this, of "''a''" None] show ?thesis by (simp add: Let_def)
qed

text \<open>
  \<open>Dequeue\<close> does not reach a request that its worker has popped and not finished: from such a
  state, dropping every retry of the key, the run failing and the policy accepting another attempt
  ends with a retry of the key pending again.
\<close>

lemma Dequeue_misses_in_flight:
  assumes "pool_inv hash s" "i < rp_workerCount (pl_proc s)"
    and "pl_ready s i = [r]" "pl_results s i = []"
    and "rp_retryPolicyFn (pl_proc s) () = Some pol" "pol e (rt_Attempt r + 1) = (True, d)"
  shows "\<exists>s1 s'. pool_step hash s s1 \<and> pl_proc s1 = Dequeue hash (pl_proc s) (rt_Key r) None \<and>
    pending (pl_proc s1) (rt_Key r) = {#} \<and> (pool_step hash)\<^sup>*\<^sup>* s1 s' \<and>
    pending (pl_proc s') (rt_Key r) =
      {#r\<lparr>rt_RetryAfter := pl_now s + d, rt_Attempt := rt_Attempt r + 1, rt_LastError := Some e\<rparr>#}"
proof -
  let ?p1 = "Dequeue hash (pl_proc s) (rt_Key r) None"
  let ?res = "\<lparr>res_req = r, res_requeue = None, res_err = Some e\<rparr>"
  let ?new = "r\<lparr>rt_RetryAfter := pl_now s + d, rt_Attempt := rt_Attempt r + 1, rt_LastError := Some e\<rparr>"
  let ?s1 = "s\<lparr>pl_proc := ?p1\<rparr>"
  let ?s2 = "?s1\<lparr>pl_ready := (pl_ready s)(i := []), pl_results := (pl_results s)(i := [?res]),
      pl_log := pl_log s @ [(i, r, pl_now s)]\<rparr>"
  have inv1: "pool_inv hash ?s1" using assms(1) step_dequeue pool_inv_step by blast
  then have ok1: "proc_ok hash ?p1" by (simp add: pool_inv_def)
  have i1: "i < rp_workerCount ?p1" using assms(2) by (simp add: Dequeue_alt)
  have pol1: "rp_retryPolicyFn ?p1 () = Some pol" using assms(5) by (simp add: Dequeue_alt upd_worker_def)
  have none: "pending ?p1 (rt_Key r) = {#}"
    using assms(1) by (simp add: pool_inv_def pending_laws)
  have run: "pool_step hash ?s1 ?s2"
    using step_run [of i ?s1 r "[]" hash None "Some e"] i1 assms(3,4) by simp
  have req: "requeued (rp_retryPolicyFn (pl_proc ?s2) ()) (pl_now ?s2) (pl_results ?s2 i) = [?new]"
    using pol1 assms(6) by (simp add: requeued_def map_filter_simps next_request_def)
  let ?f = "set_queue (foldl queue_push (worker_queue ?s2 i) [?new])"
  let ?s3 = "?s2\<lparr>pl_proc := upd_worker i ?f ?p1, pl_results := (pl_results ?s2)(i := [])\<rparr>"
  have fin: "pool_step hash ?s2 ?s3"
    using step_finish [of i ?s2 hash] i1 unfolding req by simp
  have "all_pending (upd_worker i ?f ?p1) = add_mset ?new (all_pending ?p1)"
    using all_pending_upd [OF ok1 i1, of ?f]
    by (simp add: set_queue_def queue_push_correct(2) worker_queue_def)
  then have "pending (upd_worker i ?f ?p1) (rt_Key r) = {#?new#}"
    using none by (simp add: pending_def)
  moreover have "(pool_step hash)\<^sup>*\<^sup>* ?s1 ?s3"
    by (rule two_steps [where R = "pool_step hash", OF run fin])
  moreover have "pool_step hash s ?s1" by (rule step_dequeue)
  ultimately show ?thesis using none by (intro exI [of _ ?s1] exI [of _ ?s3]) simp
qed

lemma Dequeue_misses_in_flight_witness:
  "\<exists>s1 s'. pl_proc s1 = Dequeue length (pl_proc sample_pool) ''a'' None \<and>
     pending (pl_proc s1) ''a'' = {#} \<and> (pool_step length)\<^sup>*\<^sup>* s1 s' \<and> pending (pl_proc s') ''a'' \<noteq> {#}"
proof -
  let ?r = "sample_retry ''a'' 3 None"
  have inv: "pool_inv length sample_pool"
    using pool_inv_reachable [OF sample_pool_reachable pool_inv_init] .
  have "\<exists>s1 s'. pool_step length sample_pool s1 \<and>
    pl_proc s1 = Dequeue length (pl_proc sample_pool) (rt_Key ?r) None \<and>
    pending (pl_proc s1) (rt_Key ?r) = {#} \<and> (pool_step length)\<^sup>*\<^sup>* s1 s' \<and>
    pending (pl_proc s') (rt_Key ?r) =
      {#?r\<lparr>rt_RetryAfter := pl_now sample_pool + 7, rt_Attempt := rt_Attempt ?r + 1,
           rt_LastError := Some (GoErr ''x'')\<rparr>#}"
    by (rule Dequeue_misses_in_flight [OF inv, of 0 _ "\<lambda>e n. (True, 7)"])
       (simp_all add: sample_pool_def Enqueue_def NewRetryProcessor_def sample_config_def upd_worker_def Let_def)
  moreover have "rt_Key ?r = ''a''" by (simp add: sample_retry_def)
  ultimately show ?thesis by (metis add_mset_not_empty)
qed

end
