(* ===== verification/Retry_Policy.thy ===== *)
theory Retry_Policy
  imports Retry_Processor "HOL-Library.Word"
begin

text \<open>
  The retry policies of \<^verbatim>\<open>operator/informer_controller.go\<close>: the exponential backoff, whose delays
  are 64-bit durations that wrap, the default policy built from it, and the policy that says
  which pending retries a new event makes obsolete.
\<close>

section \<open>Exponential backoff\<close>

text \<open>
  \<^verbatim>\<open>time.Duration(math.Pow(2, float64(attempt)))\<close>: a power of two up to \<open>2 ^ 62\<close> is exact; a
  fraction truncates to \<open>0\<close>; from \<open>2 ^ 63\<close> on the conversion does not fit and its result is up to
  the implementation, the parameter \<open>over\<close>.
\<close>

definition pow2_duration :: "64 word \<Rightarrow> int \<Rightarrow> 64 word" where
  "pow2_duration over attempt =
     (if attempt < 0 then 0 else if attempt < 63 then 2 ^ nat attempt else over)"

definition ExponentialBackoffRetryPolicy :: "64 word \<Rightarrow> 64 word \<Rightarrow> int \<Rightarrow> RetryPolicy" where
  "ExponentialBackoffRetryPolicy over initialDelay maxAttempts err attempt =
     (if maxAttempts < attempt then (False, 0)
      else (True, sint (initialDelay * pow2_duration over attempt)))"

definition DefaultRetryPolicy :: "64 word \<Rightarrow> RetryPolicy" where
  "DefaultRetryPolicy over = ExponentialBackoffRetryPolicy over (5 * 1000000000) 5"

section \<open>Dequeue policy\<close>

type_synonym RetryDequeuePolicy =
  "ResourceAction \<Rightarrow> object \<Rightarrow> ResourceAction \<Rightarrow> object \<Rightarrow> go_error option \<Rightarrow> bool"

definition OpinionatedRetryDequeuePolicy :: RetryDequeuePolicy where
  "OpinionatedRetryDequeuePolicy newAction newObject retryAction retryObject err =
     (if newAction = ResourceActionDelete then True
      else if newAction \<noteq> retryAction then False
      else if o_Generation newObject = o_Generation retryObject then False
      else True)"

section \<open>Retries under a policy\<close>

text \<open>
  The attempts of one operation that fails every time, from attempt \<open>n\<close> on, as \<open>queueRetry\<close> and
  phase 3 of the processor drive the policy: the delays granted before the policy refuses.
\<close>

fun granted :: "RetryPolicy \<Rightarrow> go_error \<Rightarrow> int \<Rightarrow> nat \<Rightarrow> duration list" where
  "granted pol e n 0 = []"
| "granted pol e n (Suc fuel) =
     (let (ok, after) = pol e n in if ok then after # granted pol e (n + 1) fuel else [])"

lemma granted_backoff:
  assumes "0 \<le> n" "n \<le> m + 1" "nat (m + 1 - n) < fuel"
  shows "granted (ExponentialBackoffRetryPolicy over d m) e n fuel =
    map (\<lambda>k. sint (d * pow2_duration over (n + int k))) [0..<nat (m + 1 - n)]"
  using assms
proof (induction fuel arbitrary: n)
  case (Suc fuel)
  show ?case
  proof (cases "n = m + 1")
    case True
    then show ?thesis by (simp add: ExponentialBackoffRetryPolicy_def)
  next
    case False
    let ?k = "nat (m + 1 - (n + 1))"
    from False Suc.prems have len: "nat (m + 1 - n) = Suc ?k" by simp
    have "granted (ExponentialBackoffRetryPolicy over d m) e n (Suc fuel) =
        sint (d * pow2_duration over n) # granted (ExponentialBackoffRetryPolicy over d m) e (n + 1) fuel"
      using False Suc.prems by (simp add: ExponentialBackoffRetryPolicy_def)
    also have "granted (ExponentialBackoffRetryPolicy over d m) e (n + 1) fuel =
        map (\<lambda>k. sint (d * pow2_duration over (n + 1 + int k))) [0..<?k]"
      using Suc.prems False len by (intro Suc.IH) auto
    also have "sint (d * pow2_duration over n) # \<dots> =
        map (\<lambda>k. sint (d * pow2_duration over (n + int k))) [0..<Suc ?k]"
      unfolding upt_conv_Cons [OF zero_less_Suc] map_Suc_upt [symmetric] by (simp add: ac_simps)
    finally show ?thesis by (simp only: len)
  qed
qed simp

lemma sint_mult_pow2:
  assumes "0 \<le> sint d" "sint d * 2 ^ k < 2 ^ 63" "k < 63"
  shows "sint ((d :: 64 word) * 2 ^ k) = sint d * 2 ^ k"
proof -
  have "sint (d * 2 ^ k) = signed_take_bit 63 (sint d * 2 ^ k)"
  proof -
    have "d * 2 ^ k = word_of_int (sint d * 2 ^ k)" by simp
    moreover have "sint (word_of_int (sint d * 2 ^ k) :: 64 word) =
        signed_take_bit (LENGTH(64) - 1) (sint d * 2 ^ k)" by (rule sint_sbintrunc')
    ultimately show ?thesis by (simp only:) simp
  qed
  also have "\<dots> = sint d * 2 ^ k"
    using assms by (intro signed_take_bit_int_eq_self) (auto intro: order.trans [of _ 0])
  finally show ?thesis .
qed

lemma dequeue_policy_spec:
  "OpinionatedRetryDequeuePolicy newAction newObject retryAction retryObject err \<longleftrightarrow>
     newAction = ResourceActionDelete \<or>
     newAction = retryAction \<and> o_Generation newObject \<noteq> o_Generation retryObject"
  by (simp add: OpinionatedRetryDequeuePolicy_def)

section \<open>Properties\<close>

text \<open>
  C8. As long as the longest delay fits a duration, the backoff grants exactly \<open>maxAttempts + 1\<close>
  retries, one for each of the attempts \<open>0 .. maxAttempts\<close>, the delay doubling from the initial one.
\<close>

theorem backoff_delays:
  assumes "0 \<le> sint d" "m < 63" "sint d * 2 ^ m < 2 ^ 63" "m + 1 < fuel"
  shows "granted (ExponentialBackoffRetryPolicy over d (int m)) e 0 fuel =
    map (\<lambda>k. sint d * 2 ^ k) [0..<m + 1]"
proof -
  have "sint (d * pow2_duration over (int k)) = sint d * 2 ^ k" if "k < m + 1" for k
  proof -
    from that have "(2 :: int) ^ k \<le> 2 ^ m" by (intro power_increasing) auto
    then have "sint d * 2 ^ k < 2 ^ 63"
      using assms(1,3) mult_left_mono [of "2 ^ k" "2 ^ m" "sint d"] by linarith
    with that assms(1,2) show ?thesis by (simp add: pow2_duration_def sint_mult_pow2)
  qed
  moreover have "nat (int m + 1 - 0) = m + 1" by simp
  ultimately show ?thesis
    using granted_backoff [of 0 "int m" fuel over d e] assms(4) by simp
qed

theorem backoff_delays_witness:
  "granted (DefaultRetryPolicy 0) (GoErr ''x'') 0 100 =
     map (\<lambda>k. sint (5 * 1000000000 :: 64 word) * 2 ^ k) [0..<5 + 1]"
proof -
  have "sint (5 * 1000000000 :: 64 word) = 5000000000" by simp
  then show ?thesis
    using backoff_delays [of "5 * 1000000000" 5 100 0 "GoErr ''x''"] unfolding DefaultRetryPolicy_def by simp
qed

end
