(* ===== verification/List_Map.thy ===== *)
theory List_Map
  imports Prelude
begin

text \<open>
  \<^verbatim>\<open>operator/util.go\<close>: \<open>ListMap\<close>, the lock-protected map of lists that the informer controller
  keeps its informers, watchers, reconcilers and (without a retry processor) its retries in. Every
  operation holds the lock of its key, so operations on a key are atomic steps. The
  \<^verbatim>\<open>xsync.MapOf\<close> behind it is an association list with distinct keys; its order is the
  order in which \<^verbatim>\<open>Range\<close> visits the keys. A result \<open>None\<close> of an indexing operation is a panic.
\<close>

section \<open>The operations\<close>

type_synonym ('k, 'v) ListMap = "('k \<times> 'v list) list"

definition NewListMap :: "('k, 'v) ListMap" where
  "NewListMap = []"

definition ItemAt :: "'v \<Rightarrow> ('k, 'v) ListMap \<Rightarrow> 'k \<Rightarrow> int \<Rightarrow> ('v \<times> bool) option" where
  "ItemAt zero l key index = (case map_of l key of
     Some list \<Rightarrow>
       if index < int (length list)
       then (if index < 0 then None else Some (list ! nat index, True))
       else Some (zero, False)
   | None \<Rightarrow> Some (zero, False))"

definition Keys :: "('k, 'v) ListMap \<Rightarrow> 'k list" where
  "Keys l = map fst l"

definition Size :: "('k, 'v) ListMap \<Rightarrow> nat" where
  "Size l = length l"

definition KeySize :: "('k, 'v) ListMap \<Rightarrow> 'k \<Rightarrow> nat" where
  "KeySize l key = (case map_of l key of None \<Rightarrow> 0 | Some list \<Rightarrow> length list)"

text \<open>
  \<open>Range\<close> calls the function on each index and value of the list it loaded; \<open>range_from\<close> is its
  loop from index \<open>i\<close> on.
\<close>

fun range_from :: "nat \<Rightarrow> 'v list \<Rightarrow> (nat \<Rightarrow> 'v \<Rightarrow> ('s, unit) state) \<Rightarrow> ('s, unit) state" where
  "range_from i [] f = State_Monad.return ()"
| "range_from i (v # vs) f = do { f i v; range_from (Suc i) vs f }"

definition Range :: "('k, 'v) ListMap \<Rightarrow> 'k \<Rightarrow> (nat \<Rightarrow> 'v \<Rightarrow> ('s, unit) state) \<Rightarrow> ('s, unit) state" where
  "Range l key f = (case map_of l key of
     None \<Rightarrow> State_Monad.return () | Some list \<Rightarrow> range_from 0 list f)"

fun range_keys ::
  "('k, 'v) ListMap \<Rightarrow> 'k list \<Rightarrow> ('k \<Rightarrow> nat \<Rightarrow> 'v \<Rightarrow> ('s, unit) state) \<Rightarrow> ('s, unit) state" where
  "range_keys l [] f = State_Monad.return ()"
| "range_keys l (k # ks) f = do { Range l k (f k); range_keys l ks f }"

definition RangeAll :: "('k, 'v) ListMap \<Rightarrow> ('k \<Rightarrow> nat \<Rightarrow> 'v \<Rightarrow> ('s, unit) state) \<Rightarrow> ('s, unit) state" where
  "RangeAll l f = range_keys l (Keys l) f"

definition AddItem :: "('k, 'v) ListMap \<Rightarrow> 'k \<Rightarrow> 'v list \<Rightarrow> ('k, 'v) ListMap" where
  "AddItem l key items =
     (let list = (case map_of l key of None \<Rightarrow> [] | Some list \<Rightarrow> list)
      in AList.update key (list @ items) l)"

definition RemoveKey :: "('k, 'v) ListMap \<Rightarrow> 'k \<Rightarrow> ('k, 'v) ListMap" where
  "RemoveKey l key = AList.delete key l"

text \<open>\<open>remove\<close>: a negative index slices out of range, a panic.\<close>

definition remove :: "'v list \<Rightarrow> int \<Rightarrow> 'v list option" where
  "remove list i =
     (if int (length list) - 1 < i then Some list
      else if i = 0 then (if 1 < length list then Some (drop 1 list) else Some [])
      else if i < 0 then None
      else if i = int (length list) - 1 then Some (take (nat i) list)
      else Some (take (nat i) list @ drop (nat i + 1) list))"

definition RemoveItemAt :: "('k, 'v) ListMap \<Rightarrow> 'k \<Rightarrow> int \<Rightarrow> ('k, 'v) ListMap option" where
  "RemoveItemAt l key index = (case map_of l key of
     None \<Rightarrow> Some l
   | Some list \<Rightarrow> map_option (\<lambda>list'. AList.update key list' l) (remove list index))"

fun first_match :: "('v \<Rightarrow> bool) \<Rightarrow> 'v list \<Rightarrow> nat option" where
  "first_match match [] = None"
| "first_match match (v # vs) = (if match v then Some 0 else map_option Suc (first_match match vs))"

definition RemoveItem :: "('k, 'v) ListMap \<Rightarrow> 'k \<Rightarrow> ('v \<Rightarrow> bool) \<Rightarrow> (('k, 'v) ListMap \<times> bool) option" where
  "RemoveItem l key match = (case map_of l key of
     None \<Rightarrow> Some (l, False)
   | Some list \<Rightarrow> (case first_match match list of
       None \<Rightarrow> Some (l, False)
     | Some i \<Rightarrow> map_option (\<lambda>list'. (AList.update key list' l, True)) (remove list (int i))))"

text \<open>
  \<open>RemoveItems\<close> runs \<open>match\<close> on the items in order, collecting the indices to remove; \<open>match\<close> may
  have effects (the retry ticker runs the retry in it). Then it removes from the last index down.
\<close>

fun collect :: "('v \<Rightarrow> ('s, bool) state) \<Rightarrow> int \<Rightarrow> nat \<Rightarrow> nat list \<Rightarrow> 'v list \<Rightarrow> ('s, nat list) state" where
  "collect match limit i toRemove [] = State_Monad.return toRemove"
| "collect match limit i toRemove (v # vs) = do {
     b \<leftarrow> match v;
     if b then
       (if 0 < limit \<and> limit \<le> int (length (toRemove @ [i]))
        then State_Monad.return (toRemove @ [i])
        else collect match limit (Suc i) (toRemove @ [i]) vs)
     else collect match limit (Suc i) toRemove vs
   }"

definition remove_all :: "'v list \<Rightarrow> nat list \<Rightarrow> 'v list option" where
  "remove_all list toRemove =
     foldl (\<lambda>acc i. Option.bind acc (\<lambda>xs. remove xs (int i))) (Some list) (rev toRemove)"

definition RemoveItemsM ::
  "('k, 'v) ListMap \<Rightarrow> 'k \<Rightarrow> ('v \<Rightarrow> ('s, bool) state) \<Rightarrow> int \<Rightarrow>
   ('s, (('k, 'v) ListMap \<times> nat) option) state" where
  "RemoveItemsM l key match limit = (case map_of l key of
     None \<Rightarrow> State_Monad.return (Some (l, 0))
   | Some list \<Rightarrow> do {
       toRemove \<leftarrow> collect match limit 0 [] list;
       State_Monad.return
         (map_option (\<lambda>list'. (AList.update key list' l, length toRemove)) (remove_all list toRemove))
     })"

definition RemoveItems ::
  "('k, 'v) ListMap \<Rightarrow> 'k \<Rightarrow> ('v \<Rightarrow> bool) \<Rightarrow> int \<Rightarrow> (('k, 'v) ListMap \<times> nat) option" where
  "RemoveItems l key match limit =
     fst (run_state (RemoveItemsM l key (\<lambda>v. State_Monad.return (match v)) limit) ())"

section \<open>What they do\<close>

text \<open>The list of a key; a missing key has no items.\<close>

definition items :: "('k, 'v) ListMap \<Rightarrow> 'k \<Rightarrow> 'v list" where
  "items l key = (case map_of l key of None \<Rightarrow> [] | Some list \<Rightarrow> list)"

lemma items_NewListMap [simp]: "items NewListMap k = []"
  by (simp add: items_def NewListMap_def)

lemma items_AddItem [simp]: "items (AddItem l key vs) k = (if k = key then items l key @ vs else items l k)"
  by (simp add: items_def AddItem_def Let_def update_conv' split: option.split)

lemma items_RemoveKey [simp]: "items (RemoveKey l key) k = (if k = key then [] else items l k)"
  by (simp add: items_def RemoveKey_def delete_conv' restrict_map_def)

lemma distinct_keys [simp]:
  "distinct (map fst NewListMap)"
  "distinct (map fst l) \<Longrightarrow> distinct (map fst (AddItem l key vs))"
  "distinct (map fst l) \<Longrightarrow> distinct (map fst (RemoveKey l key))"
  by (simp_all add: NewListMap_def AddItem_def RemoveKey_def Let_def distinct_update distinct_delete)

lemma remove_nat: "remove list (int i) = Some (take i list @ drop (Suc i) list)"
proof (cases "i < length list")
  case True
  then show ?thesis
    by (cases list; cases i) (auto simp: remove_def nat_add_distrib take_Cons split: nat.splits)
qed (auto simp: remove_def)

lemma first_match_Some:
  "first_match match list = Some i \<Longrightarrow>
     i < length list \<and> match (list ! i) \<and> (\<forall>j<i. \<not> match (list ! j))"
proof (induction list arbitrary: i)
  case (Cons v vs)
  then show ?case by (auto simp: less_Suc_eq_0_disj split: if_splits)
qed simp

lemma first_match_None: "first_match match list = None \<longleftrightarrow> (\<forall>v \<in> set list. \<not> match v)"
  by (induction list) auto

text \<open>The list without its first match.\<close>

fun drop_first :: "('v \<Rightarrow> bool) \<Rightarrow> 'v list \<Rightarrow> 'v list" where
  "drop_first match [] = []"
| "drop_first match (v # vs) = (if match v then vs else v # drop_first match vs)"

lemma drop_first_index:
  "first_match match list = Some i \<Longrightarrow> take i list @ drop (Suc i) list = drop_first match list"
  by (induction list arbitrary: i) (auto split: if_splits)

lemma drop_first_None: "first_match match list = None \<Longrightarrow> drop_first match list = list"
  by (induction list) (auto split: if_splits)

lemma RemoveItem_run:
  "\<exists>l' b. RemoveItem l key match = Some (l', b) \<and> b = (\<exists>v \<in> set (items l key). match v) \<and>
     (\<forall>k. items l' k = (if k = key then drop_first match (items l key) else items l k))"
proof (cases "map_of l key")
  case None
  then show ?thesis by (auto simp: RemoveItem_def items_def)
next
  case (Some list)
  show ?thesis
  proof (cases "first_match match list")
    case None
    with Some drop_first_None [OF None] None [unfolded first_match_None] show ?thesis
      by (auto simp: RemoveItem_def items_def)
  next
    case (Some i)
    with \<open>map_of l key = Some list\<close> first_match_Some [OF Some] show ?thesis
      by (auto simp: RemoveItem_def items_def remove_nat update_conv' drop_first_index)
  qed
qed

text \<open>Removing a strictly increasing list of positions from the last one down keeps the rest.\<close>

definition kept :: "nat \<Rightarrow> nat set \<Rightarrow> 'v list \<Rightarrow> 'v list" where
  "kept i A xs = nths xs {j. i + j \<notin> A}"

lemma kept_Nil [simp]: "kept i A [] = []"
  by (simp add: kept_def)

lemma kept_Cons [simp]: "kept i A (x # xs) = (if i \<in> A then [] else [x]) @ kept (Suc i) A xs"
  by (simp add: kept_def nths_Cons)

lemma kept_append: "kept i A (xs @ ys) = kept i A xs @ kept (i + length xs) A ys"
  by (induction xs arbitrary: i) simp_all

lemma kept_all: "(\<And>j. i \<le> j \<Longrightarrow> j < i + length xs \<Longrightarrow> j \<notin> A) \<Longrightarrow> kept i A xs = xs"
proof (induction xs arbitrary: i)
  case (Cons x xs)
  from Cons.IH [of "Suc i"] Cons.prems show ?case by auto
qed simp

lemma kept_cong: "(\<And>j. i \<le> j \<Longrightarrow> j < i + length xs \<Longrightarrow> j \<in> A \<longleftrightarrow> j \<in> B) \<Longrightarrow> kept i A xs = kept i B xs"
proof (induction xs arbitrary: i)
  case (Cons x xs)
  from Cons.IH [of "Suc i"] Cons.prems show ?case by auto
qed simp

lemma remove_all_kept:
  "sorted_wrt (<) is \<Longrightarrow> \<forall>i \<in> set is. i < length xs \<Longrightarrow> remove_all xs is = Some (kept 0 (set is) xs)"
proof (induction "is" arbitrary: xs rule: rev_induct)
  case Nil
  then show ?case by (simp add: remove_all_def kept_all)
next
  case (snoc i "is")
  let ?ys = "take i xs @ drop (Suc i) xs"
  from snoc.prems have lt: "\<forall>j \<in> set is. j < i" and i: "i < length xs"
    by (auto simp: sorted_wrt_append)
  have "remove_all xs (is @ [i]) = remove_all ?ys is"
    by (simp add: remove_all_def remove_nat)
  also have "\<dots> = Some (kept 0 (set is) ?ys)"
    using snoc lt i by (intro snoc.IH) (auto simp: sorted_wrt_append)
  also have "kept 0 (set is) ?ys = kept 0 (set is) (take i xs) @ drop (Suc i) xs"
    using lt i kept_all [of i "drop (Suc i) xs" "set is"] by (force simp: kept_append)
  also have "\<dots> = kept 0 (set (is @ [i])) xs"
  proof -
    have "kept 0 (set (is @ [i])) xs = kept 0 (set (is @ [i])) (take i xs @ xs ! i # drop (Suc i) xs)"
      using i by (simp add: Cons_nth_drop_Suc)
    also have "\<dots> = kept 0 (set (is @ [i])) (take i xs) @ drop (Suc i) xs"
      using lt i kept_all [of "Suc i" "drop (Suc i) xs" "set (is @ [i])"] by (force simp: kept_append)
    also have "kept 0 (set (is @ [i])) (take i xs) = kept 0 (set is) (take i xs)"
      by (rule kept_cong) (use i in auto)
    finally show ?thesis by simp
  qed
  finally show ?case .
qed

text \<open>What \<open>match\<close> answers on each item when it is run on all of them.\<close>

fun answers :: "('v \<Rightarrow> ('s, bool) state) \<Rightarrow> 'v list \<Rightarrow> ('s, bool list) state" where
  "answers match [] = State_Monad.return []"
| "answers match (v # vs) = do { b \<leftarrow> match v; bs \<leftarrow> answers match vs; State_Monad.return (b # bs) }"

lemma answers_length: "run_state (answers match vs) s = (bs, s') \<Longrightarrow> length bs = length vs"
  by (induction vs arbitrary: s bs) (auto split: prod.splits)

text \<open>The positions of the answers yes, counted from \<open>i\<close>.\<close>

fun trues :: "nat \<Rightarrow> bool list \<Rightarrow> nat list" where
  "trues i [] = []"
| "trues i (b # bs) = (if b then [i] else []) @ trues (Suc i) bs"

lemma trues_range: "j \<in> set (trues i bs) \<Longrightarrow> i \<le> j \<and> j < i + length bs"
proof (induction bs arbitrary: i)
  case (Cons b bs)
  from Cons.IH [of "Suc i"] Cons.prems show ?case by (auto split: if_splits)
qed simp

lemma collect_unlimited:
  assumes "limit \<le> 0" "run_state (answers match vs) s = (bs, s')"
  shows "run_state (collect match limit i acc vs) s = (acc @ trues i bs, s')"
  using assms(2)
proof (induction vs arbitrary: s i acc bs)
  case (Cons v vs)
  obtain b s1 where b: "run_state (match v) s = (b, s1)" by fastforce
  with Cons.prems obtain cs where "run_state (answers match vs) s1 = (cs, s')" "bs = b # cs"
    by (auto split: prod.splits)
  with b assms(1) Cons.IH [OF this(1)] show ?case by simp
qed simp

lemma trues_sorted: "sorted_wrt (<) (trues i bs)"
  by (induction bs arbitrary: i) (auto dest: trues_range)

text \<open>The items whose answer was no.\<close>

fun unmatched :: "bool list \<Rightarrow> 'v list \<Rightarrow> 'v list" where
  "unmatched (b # bs) (v # vs) = (if b then unmatched bs vs else v # unmatched bs vs)"
| "unmatched bs vs = []"

lemma kept_trues: "length bs = length vs \<Longrightarrow> kept i (set (trues i bs)) vs = unmatched bs vs"
proof (induction bs vs arbitrary: i rule: list_induct2)
  case (Cons b bs v vs)
  have "kept (Suc i) (set (trues i (b # bs))) vs = kept (Suc i) (set (trues (Suc i) bs)) vs"
    by (rule kept_cong) auto
  moreover have "i \<in> set (trues i (b # bs)) \<longleftrightarrow> b" by (auto dest: trues_range)
  ultimately show ?case using Cons by (auto simp del: trues.simps)
qed simp

lemma RemoveItemsM_unlimited:
  assumes "limit \<le> 0" "run_state (answers match (items l key)) s = (bs, s')"
  shows "\<exists>l'. run_state (RemoveItemsM l key match limit) s = (Some (l', length (trues 0 bs)), s') \<and>
    (\<forall>k. items l' k = (if k = key then unmatched bs (items l key) else items l k)) \<and>
    (distinct (map fst l) \<longrightarrow> distinct (map fst l'))"
proof (cases "map_of l key")
  case None
  with assms(2) show ?thesis by (auto simp: RemoveItemsM_def items_def)
next
  case (Some list)
  then have it: "items l key = list" by (simp add: items_def)
  with assms(2) have len: "length bs = length list" using answers_length by fastforce
  have "\<forall>i \<in> set (trues 0 bs). i < length list" using trues_range [of _ 0 bs] len by auto
  then have "remove_all list (trues 0 bs) = Some (unmatched bs list)"
    using kept_trues [OF len, of 0] remove_all_kept [OF trues_sorted [of 0 bs], of list] by simp
  with Some collect_unlimited [OF assms(1), of match list s bs s' 0 "[]"] assms(2) it show ?thesis
    by (auto simp: RemoveItemsM_def items_def update_conv' distinct_update)
qed

lemma answers_pure: "run_state (answers (\<lambda>v. State_Monad.return (P v)) vs) s = (map P vs, s)"
  by (induction vs) simp_all

lemma unmatched_map: "unmatched (map P vs) vs = filter (\<lambda>v. \<not> P v) vs"
  by (induction vs) simp_all

lemma length_trues: "length (trues i (map P vs)) = length (filter P vs)"
  by (induction vs arbitrary: i) simp_all

lemma RemoveItems_unlimited:
  assumes "limit \<le> 0"
  shows "\<exists>l'. RemoveItems l key match limit = Some (l', length (filter match (items l key))) \<and>
    (\<forall>k. items l' k = (if k = key then filter (\<lambda>v. \<not> match v) (items l key) else items l k)) \<and>
    (distinct (map fst l) \<longrightarrow> distinct (map fst l'))"
proof -
  from RemoveItemsM_unlimited [OF assms answers_pure [of match "items l key" "()"]] show ?thesis
    unfolding RemoveItems_def unmatched_map length_trues by fastforce
qed

lemma remove_out_of_range: "remove list i = None \<longleftrightarrow> i < 0 \<and> i \<le> int (length list) - 1"
  by (auto simp: remove_def)

lemma ItemAt_negative: "i < 0 \<Longrightarrow> map_of l key = Some list \<Longrightarrow> ItemAt zero l key i = None"
  by (simp add: ItemAt_def)

lemma RemoveItemAt_negative:
  "i < 0 \<Longrightarrow> map_of l key = Some (v # vs) \<Longrightarrow> RemoveItemAt l key i = None"
  by (simp add: RemoveItemAt_def remove_def)

text \<open>
  The slice of a list is shared: removing an inner index shifts the entries in place, so a \<open>Range\<close>
  over the list loaded before (its callback may remove an item of the same key) goes on reading the
  shifted array, in which the last entry stands twice. \<open>remove_seen\<close> is that array.
\<close>

definition remove_seen :: "'v list \<Rightarrow> nat \<Rightarrow> 'v list" where
  "remove_seen list i =
     (if 0 < i \<and> i < length list - 1 then take i list @ drop (Suc i) list @ [last list] else list)"

lemma remove_seen_duplicates:
  assumes "0 < i" "i < length list - 1" "distinct list"
  shows "\<not> distinct (remove_seen list i) \<and> list ! i \<notin> set (remove_seen list i)"
proof -
  let ?ys = "drop (Suc i) list"
  from assms have split: "list = take i list @ list ! i # ?ys" by (intro id_take_nth_drop) auto
  from assms have ne: "?ys \<noteq> []" by auto
  with assms have "last list = last ?ys" by simp
  with last_in_set [OF ne] have last: "last list \<in> set ?ys" by simp
  from assms(3) split have "distinct (take i list @ list ! i # ?ys)" by simp
  with last show ?thesis using assms(1,2) by (auto simp: remove_seen_def)
qed

section \<open>Properties\<close>

text \<open>
  \<open>RemoveItems\<close> without a limit removes exactly the matching items of its key, keeps the order
  of the others and every other key, never panics, and returns the number of removed items.
\<close>

lemma RemoveItems_filters:
  assumes "limit \<le> 0"
  shows "\<exists>l'. RemoveItems l key match limit = Some (l', length (filter match (items l key))) \<and>
    (\<forall>k. items l' k = (if k = key then filter (\<lambda>v. \<not> match v) (items l key) else items l k))"
  using RemoveItems_unlimited [OF assms, of l key match] by blast

lemma RemoveItems_filters_witness:
  "\<exists>l'. RemoveItems [(''a'', [1, 2, 3, 4 :: nat])] ''a'' even (- 1) = Some (l', 2) \<and>
    (\<forall>k. items l' k = (if k = ''a'' then [1, 3] else items [(''a'', [1, 2, 3, 4])] k))"
proof -
  let ?l = "[(''a'', [1, 2, 3, 4 :: nat])]"
  have it: "items ?l ''a'' = [1, 2, 3, 4]" by (simp add: items_def)
  have "length (filter even (items ?l ''a'')) = 2" "filter (\<lambda>v. \<not> even v) (items ?l ''a'') = [1, 3]"
    unfolding it by simp_all
  note eqs = this
  have "\<exists>l'. RemoveItems ?l ''a'' even (- 1) = Some (l', length (filter even (items ?l ''a''))) \<and>
    (\<forall>k. items l' k = (if k = ''a'' then filter (\<lambda>v. \<not> even v) (items ?l ''a'') else items ?l k))"
    by (rule RemoveItems_filters) simp
  then show ?thesis unfolding eqs .
qed

end
