(* ===== verification/Informer_Controller.thy ===== *)
theory Informer_Controller
  imports Retry_Policy List_Map
begin

text \<open>
  \<^verbatim>\<open>operator/informer_controller.go\<close>: the controller that passes every event of its informers to
  the watchers and reconcilers registered for the kind, in the order they were added, drops
  pending retries that the event makes obsolete, and queues a retry when a handler fails. Retries
  wait in the retry processor or, without one, in the legacy \<open>toRetry\<close> map that a ticker serves.

  The handlers run on the pair of the controller and the world. Metrics and tracing are left out.
\<close>

section \<open>The controller\<close>

record 'u retryInfo =
  ri_retryAfter :: time
  ri_retryFunc :: "'u retry_func"
  ri_attempt :: int
  ri_action :: ResourceAction
  ri_object :: ptr
  ri_err :: "go_error option"

text \<open>
  Watchers and reconcilers are compared by identity (\<^verbatim>\<open>watcher == w\<close>), so each comes with one; an
  informer is known by its identity only.
\<close>

record 'u InformerController =
  ic_ErrorHandler :: "(go_error \<Rightarrow> ('u, unit) io) option"
  ic_RetryPolicy :: "RetryPolicy option"
  ic_RetryDequeuePolicy :: "RetryDequeuePolicy option"
  ic_informers :: "(string, nat) ListMap"
  ic_watchers :: "(string, nat \<times> 'u ResourceWatcher) ListMap"
  ic_reconcilers :: "(string, nat \<times> 'u Reconciler) ListMap"
  ic_toRetry :: "(string, 'u retryInfo) ListMap"
  ic_retryProcessor :: "'u retryProcessor option"
  ic_runnables :: "nat list"

record 'u InformerControllerConfig =
  icc_ErrorHandler :: "(go_error \<Rightarrow> ('u, unit) io) option"
  icc_RetryPolicy :: "RetryPolicy option"
  icc_RetryDequeuePolicy :: "RetryDequeuePolicy option"
  icc_RetryProcessorConfig :: "RetryProcessorConfig option"

text \<open>\<open>DefaultErrorHandler\<close> logs the error.\<close>

definition DefaultErrorHandler :: "go_error \<Rightarrow> ('u, unit) io" where
  "DefaultErrorHandler err = State_Monad.return ()"

definition DefaultInformerControllerConfig :: "64 word \<Rightarrow> 'u InformerControllerConfig" where
  "DefaultInformerControllerConfig over =
     \<lparr>icc_ErrorHandler = Some DefaultErrorHandler, icc_RetryPolicy = Some (DefaultRetryPolicy over),
      icc_RetryDequeuePolicy = Some OpinionatedRetryDequeuePolicy, icc_RetryProcessorConfig = None\<rparr>"

definition NewInformerController :: "64 word \<Rightarrow> 'u InformerControllerConfig \<Rightarrow> 'u InformerController" where
  "NewInformerController over cfg =
     (let policy = (case icc_RetryPolicy cfg of None \<Rightarrow> Some (DefaultRetryPolicy over) | Some p \<Rightarrow> Some p)
      in \<lparr>ic_ErrorHandler =
            (case icc_ErrorHandler cfg of None \<Rightarrow> Some DefaultErrorHandler | Some h \<Rightarrow> Some h),
          ic_RetryPolicy = policy, ic_RetryDequeuePolicy = icc_RetryDequeuePolicy cfg,
          ic_informers = NewListMap, ic_watchers = NewListMap, ic_reconcilers = NewListMap,
          ic_toRetry = NewListMap,
          ic_retryProcessor = map_option (\<lambda>rc. NewRetryProcessor rc (Some (\<lambda>_. policy)))
            (icc_RetryProcessorConfig cfg),
          ic_runnables = []\<rparr>)"

section \<open>Registration\<close>

text \<open>
  \<open>AddInformer\<close>: \<open>handler_err\<close> is what the informer's \<open>AddEventHandler\<close> returned. The runner keeps the
  informers to run.
\<close>

definition AddInformer ::
  "'u InformerController \<Rightarrow> nat option \<Rightarrow> string \<Rightarrow> go_error option \<Rightarrow>
   'u InformerController \<times> go_error option" where
  "AddInformer c informer resourceKind handler_err =
     (case informer of
        None \<Rightarrow> (c, Some (GoErr ''informer cannot be nil''))
      | Some i \<Rightarrow>
          if resourceKind = [] then (c, Some (GoErr ''resourceKind cannot be empty''))
          else (case handler_err of
             Some e \<Rightarrow> (c, Some e)
           | None \<Rightarrow> (c\<lparr>ic_runnables := ic_runnables c @ [i],
                       ic_informers := AddItem (ic_informers c) resourceKind [i]\<rparr>, None)))"

definition remove_first :: "('k, 'v) ListMap \<Rightarrow> 'k \<Rightarrow> ('v \<Rightarrow> bool) \<Rightarrow> ('k, 'v) ListMap" where
  "remove_first l key match = (case RemoveItem l key match of None \<Rightarrow> l | Some (l', b) \<Rightarrow> l')"

definition AddWatcher ::
  "'u InformerController \<Rightarrow> (nat \<times> 'u ResourceWatcher) option \<Rightarrow> string \<Rightarrow>
   'u InformerController \<times> go_error option" where
  "AddWatcher c watcher resourceKind =
     (case watcher of
        None \<Rightarrow> (c, Some (GoErr ''watcher cannot be nil''))
      | Some w \<Rightarrow>
          if resourceKind = [] then (c, Some (GoErr ''resourceKind cannot be empty''))
          else (c\<lparr>ic_watchers := AddItem (ic_watchers c) resourceKind [w]\<rparr>, None))"

definition RemoveWatcher :: "'u InformerController \<Rightarrow> nat \<Rightarrow> string \<Rightarrow> 'u InformerController" where
  "RemoveWatcher c watcher resourceKind =
     c\<lparr>ic_watchers := remove_first (ic_watchers c) resourceKind (\<lambda>w. watcher = fst w)\<rparr>"

definition RemoveAllWatchersForResource :: "'u InformerController \<Rightarrow> string \<Rightarrow> 'u InformerController" where
  "RemoveAllWatchersForResource c resourceKind =
     c\<lparr>ic_watchers := RemoveKey (ic_watchers c) resourceKind\<rparr>"

definition AddReconciler ::
  "'u InformerController \<Rightarrow> (nat \<times> 'u Reconciler) option \<Rightarrow> string \<Rightarrow>
   'u InformerController \<times> go_error option" where
  "AddReconciler c reconciler resourceKind =
     (case reconciler of
        None \<Rightarrow> (c, Some (GoErr ''reconciler cannot be nil''))
      | Some r \<Rightarrow>
          if resourceKind = [] then (c, Some (GoErr ''resourceKind cannot be empty''))
          else (c\<lparr>ic_reconcilers := AddItem (ic_reconcilers c) resourceKind [r]\<rparr>, None))"

definition RemoveReconciler :: "'u InformerController \<Rightarrow> nat \<Rightarrow> string \<Rightarrow> 'u InformerController" where
  "RemoveReconciler c reconciler resourceKind =
     c\<lparr>ic_reconcilers := remove_first (ic_reconcilers c) resourceKind (\<lambda>r. reconciler = fst r)\<rparr>"

definition RemoveAllReconcilersForResource :: "'u InformerController \<Rightarrow> string \<Rightarrow> 'u InformerController"
where
  "RemoveAllReconcilersForResource c resourceKind =
     c\<lparr>ic_reconcilers := RemoveKey (ic_reconcilers c) resourceKind\<rparr>"

section \<open>Retry keys\<close>

definition keyForWatcherEvent :: "string \<Rightarrow> nat \<Rightarrow> object option \<Rightarrow> string" where
  "keyForWatcherEvent resourceKind watcherIndex obj = (case obj of
     None \<Rightarrow> resourceKind @ '':'' @ show_nat watcherIndex @ '':nil:nil''
   | Some ob \<Rightarrow> resourceKind @ '':'' @ show_nat watcherIndex @ '':'' @ o_Namespace ob @ '':'' @ o_Name ob)"

definition keyForReconcilerEvent :: "string \<Rightarrow> nat \<Rightarrow> object option \<Rightarrow> string" where
  "keyForReconcilerEvent resourceKind reconcilerIndex obj = (case obj of
     None \<Rightarrow> ''reconcile:'' @ resourceKind @ '':'' @ show_nat reconcilerIndex @ '':nil:nil''
   | Some ob \<Rightarrow> ''reconcile:'' @ resourceKind @ '':'' @ show_nat reconcilerIndex @ '':'' @
               o_Namespace ob @ '':'' @ o_Name ob)"

section \<open>Queueing and dropping retries\<close>

type_synonym ('u, 'a) cio = "('u InformerController \<times> 'u world, 'a) state"

definition lift_io :: "('u, 'a) io \<Rightarrow> ('u, 'a) cio" where
  "lift_io m = State (\<lambda>(c, w). let (a, w') = run_state m w in (a, (c, w')))"

definition get_ctl :: "('u, 'u InformerController) cio" where
  "get_ctl = State (\<lambda>(c, w). (c, (c, w)))"

definition put_ctl :: "'u InformerController \<Rightarrow> ('u, unit) cio" where
  "put_ctl c' = State (\<lambda>(c, w). ((), (c', w)))"

definition get_objs :: "('u, ptr \<Rightarrow> object) cio" where
  "get_objs = State (\<lambda>(c, w). (w_objs w, (c, w)))"

lemma run_cio [simp]:
  "run_state (lift_io m) (c, w) = (fst (run_state m w), (c, snd (run_state m w)))"
  "run_state get_ctl (c, w) = (c, (c, w))"
  "run_state (put_ctl c') (c, w) = ((), (c', w))"
  "run_state get_objs (c, w) = (w_objs w, (c, w))"
  by (simp_all add: lift_io_def get_ctl_def put_ctl_def get_objs_def split: prod.split)

definition drop_retries :: "('k, 'v) ListMap \<Rightarrow> 'k \<Rightarrow> ('v \<Rightarrow> bool) \<Rightarrow> ('k, 'v) ListMap" where
  "drop_retries l key match = (case RemoveItems l key match (- 1) of None \<Rightarrow> l | Some (l', n) \<Rightarrow> l')"

text \<open>The controller after \<open>dequeueIfRequired\<close>, given what the object pointers refer to.\<close>

definition dequeued ::
  "(string \<Rightarrow> nat) \<Rightarrow> (ptr \<Rightarrow> object) \<Rightarrow> string \<Rightarrow> ptr \<Rightarrow> ResourceAction \<Rightarrow>
   'u InformerController \<Rightarrow> 'u InformerController" where
  "dequeued hash objs retryKey cur action c =
     (case ic_retryProcessor c of
        Some p \<Rightarrow>
          (case ic_RetryDequeuePolicy c of
             Some pol \<Rightarrow> c\<lparr>ic_retryProcessor := Some (Dequeue hash p retryKey
               (Some (\<lambda>req. pol action (objs cur) (rt_Action req) (objs (rt_Object req)) (rt_LastError req))))\<rparr>
           | None \<Rightarrow> c\<lparr>ic_retryProcessor := Some (DequeueAll hash p retryKey)\<rparr>)
      | None \<Rightarrow>
          (case ic_RetryDequeuePolicy c of
             Some pol \<Rightarrow> c\<lparr>ic_toRetry := drop_retries (ic_toRetry c) retryKey
               (\<lambda>info. pol action (objs cur) (ri_action info) (objs (ri_object info)) (ri_err info))\<rparr>
           | None \<Rightarrow> c\<lparr>ic_toRetry := RemoveKey (ic_toRetry c) retryKey\<rparr>))"

definition dequeueIfRequired :: "(string \<Rightarrow> nat) \<Rightarrow> string \<Rightarrow> ptr \<Rightarrow> ResourceAction \<Rightarrow> ('u, unit) cio" where
  "dequeueIfRequired hash retryKey cur action = do {
     c \<leftarrow> get_ctl;
     objs \<leftarrow> get_objs;
     put_ctl (dequeued hash objs retryKey cur action c)
   }"

text \<open>Adding a retry to whichever store the controller has; attempts start at \<open>0\<close>.\<close>

definition add_retry ::
  "(string \<Rightarrow> nat) \<Rightarrow> string \<Rightarrow> time \<Rightarrow> 'u retry_func \<Rightarrow> ResourceAction \<Rightarrow> ptr \<Rightarrow> go_error option \<Rightarrow>
   'u InformerController \<Rightarrow> 'u InformerController" where
  "add_retry hash key after f action obj err c =
     (case ic_retryProcessor c of
        Some p \<Rightarrow> c\<lparr>ic_retryProcessor := Some (Enqueue hash p
          \<lparr>rt_Key = key, rt_RetryAfter = after, rt_RetryFunc = f, rt_Attempt = 0, rt_Action = action,
           rt_Object = obj, rt_LastError = err\<rparr>)\<rparr>
      | None \<Rightarrow> c\<lparr>ic_toRetry := AddItem (ic_toRetry c) key
          [\<lparr>ri_retryAfter = after, ri_retryFunc = f, ri_attempt = 0, ri_action = action,
            ri_object = obj, ri_err = err\<rparr>]\<rparr>)"

definition queueRetry ::
  "(string \<Rightarrow> nat) \<Rightarrow> string \<Rightarrow> go_error \<Rightarrow> 'u retry_func \<Rightarrow> ResourceAction \<Rightarrow> ptr \<Rightarrow> ('u, unit) cio" where
  "queueRetry hash key err toRetry action obj = do {
     c \<leftarrow> get_ctl;
     (case ic_RetryPolicy c of
        None \<Rightarrow> State_Monad.return ()
      | Some pol \<Rightarrow>
          (let (ok, after) = pol err 0
           in if ok then do {
                t \<leftarrow> lift_io now;
                put_ctl (add_retry hash key (t + after) toRetry action obj (Some err) c)
              } else State_Monad.return ()))
   }"

definition call_error_handler :: "go_error \<Rightarrow> ('u, unit) cio" where
  "call_error_handler err = do {
     c \<leftarrow> get_ctl;
     (case ic_ErrorHandler c of None \<Rightarrow> State_Monad.return () | Some h \<Rightarrow> lift_io (h err))
   }"

section \<open>Events\<close>

text \<open>
  One watcher call of an event: run it, pass an error to the error handler and queue a retry that
  makes the same call.
\<close>

definition watcher_retry :: "('u, go_error option) io \<Rightarrow> 'u retry_func" where
  "watcher_retry m = do { err \<leftarrow> m; State_Monad.return (None, err) }"

definition watcher_call ::
  "(string \<Rightarrow> nat) \<Rightarrow> string \<Rightarrow> ('u, go_error option) io \<Rightarrow> ResourceAction \<Rightarrow> ptr \<Rightarrow> ('u, unit) cio" where
  "watcher_call hash retryKey m action obj = do {
     err \<leftarrow> lift_io m;
     (case err of
        None \<Rightarrow> State_Monad.return ()
      | Some e \<Rightarrow> do {
          call_error_handler e;
          queueRetry hash retryKey e (watcher_retry m) action obj
        })
   }"

definition reconcile_retry :: "'u Reconciler \<Rightarrow> ReconcileRequest \<Rightarrow> 'u retry_func" where
  "reconcile_retry reconciler req = do {
     (res, err) \<leftarrow> reconciler req;
     State_Monad.return (rr_RequeueAfter res, err)
   }"

text \<open>The retry keeps the request with the state of this first result; results of retries do not change it.\<close>

definition doReconcile ::
  "(string \<Rightarrow> nat) \<Rightarrow> 'u Reconciler \<Rightarrow> ReconcileRequest \<Rightarrow> string \<Rightarrow> ('u, unit) cio" where
  "doReconcile hash reconciler req retryKey = do {
     (res, err) \<leftarrow> lift_io (reconciler req);
     let req' = (case rr_State res of None \<Rightarrow> req | Some st \<Rightarrow> req\<lparr>rq_State := Some st\<rparr>);
     let action = ResourceActionFromReconcileAction (rq_Action req);
     (case rr_RequeueAfter res of
        Some d \<Rightarrow> do {
          c \<leftarrow> get_ctl;
          t \<leftarrow> lift_io now;
          put_ctl (add_retry hash retryKey (t + d) (reconcile_retry reconciler req') action (rq_Object req) err c)
        }
      | None \<Rightarrow>
          (case err of
             None \<Rightarrow> State_Monad.return ()
           | Some e \<Rightarrow> do {
               call_error_handler e;
               queueRetry hash retryKey e (reconcile_retry reconciler req') action (rq_Object req)
             }))
   }"

definition key_object :: "ptr \<Rightarrow> ('u, object) cio" where
  "key_object p = lift_io (deref p)"

definition ErrNilObject :: go_error where
  "ErrNilObject = GoErr ''object cannot be nil''"

text \<open>
  The bodies of the two loops of an event function, and the loops over the watchers and then the
  reconcilers of the kind.
\<close>

definition watcher_event ::
  "(string \<Rightarrow> nat) \<Rightarrow> string \<Rightarrow> ptr \<Rightarrow> ResourceAction \<Rightarrow>
   ('u ResourceWatcher \<Rightarrow> ('u, go_error option) io) \<Rightarrow> nat \<Rightarrow> nat \<times> 'u ResourceWatcher \<Rightarrow> ('u, unit) cio" where
  "watcher_event hash resourceKind obj action call idx watcher = do {
     ob \<leftarrow> key_object obj;
     let retryKey = keyForWatcherEvent resourceKind idx (Some ob);
     dequeueIfRequired hash retryKey obj action;
     watcher_call hash retryKey (call (snd watcher)) action obj
   }"

definition reconciler_event ::
  "(string \<Rightarrow> nat) \<Rightarrow> string \<Rightarrow> ptr \<Rightarrow> ('u, ResourceAction) io \<Rightarrow> nat \<Rightarrow> nat \<times> 'u Reconciler \<Rightarrow>
   ('u, unit) cio" where
  "reconciler_event hash resourceKind obj action_of idx reconciler = do {
     ob \<leftarrow> key_object obj;
     let retryKey = keyForReconcilerEvent resourceKind idx (Some ob);
     action \<leftarrow> lift_io action_of;
     dequeueIfRequired hash retryKey obj action;
     doReconcile hash (snd reconciler)
       \<lparr>rq_Action = ReconcileActionFromResourceAction action, rq_Object = obj, rq_State = None\<rparr> retryKey
   }"

definition watchers_loop ::
  "(string \<Rightarrow> nat) \<Rightarrow> string \<Rightarrow> ptr \<Rightarrow> ResourceAction \<Rightarrow>
   ('u ResourceWatcher \<Rightarrow> ('u, go_error option) io) \<Rightarrow> ('u, unit) cio" where
  "watchers_loop hash resourceKind obj action call = do {
     c \<leftarrow> get_ctl;
     Range (ic_watchers c) resourceKind (watcher_event hash resourceKind obj action call)
   }"

definition reconcilers_loop ::
  "(string \<Rightarrow> nat) \<Rightarrow> string \<Rightarrow> ptr \<Rightarrow> ('u, ResourceAction) io \<Rightarrow> ('u, unit) cio" where
  "reconcilers_loop hash resourceKind obj action_of = do {
     c \<leftarrow> get_ctl;
     Range (ic_reconcilers c) resourceKind (reconciler_event hash resourceKind obj action_of)
   }"

definition informerAddFunc ::
  "(string \<Rightarrow> nat) \<Rightarrow> string \<Rightarrow> ptr option \<Rightarrow> ('u, go_error option) cio" where
  "informerAddFunc hash resourceKind object = (case object of
     None \<Rightarrow> State_Monad.return (Some ErrNilObject)
   | Some obj \<Rightarrow> do {
       watchers_loop hash resourceKind obj ResourceActionCreate (\<lambda>w. rw_Add w (Some obj));
       reconcilers_loop hash resourceKind obj (State_Monad.return ResourceActionCreate);
       State_Monad.return None
     })"

text \<open>An update in which both objects have the same resource version reaches reconcilers as a resync.\<close>

definition update_action :: "ptr option \<Rightarrow> ptr \<Rightarrow> ('u, ResourceAction) io" where
  "update_action oldObj newObj = (case oldObj of
     None \<Rightarrow> State_Monad.return ResourceActionUpdate
   | Some p \<Rightarrow> do {
       old \<leftarrow> deref p;
       new \<leftarrow> deref newObj;
       State_Monad.return
         (if o_ResourceVersion old = o_ResourceVersion new
          then ResourceActionResync else ResourceActionUpdate)
     })"

definition informerUpdateFunc ::
  "(string \<Rightarrow> nat) \<Rightarrow> string \<Rightarrow> ptr option \<Rightarrow> ptr option \<Rightarrow> ('u, go_error option) cio" where
  "informerUpdateFunc hash resourceKind oldObj newObj = (case newObj of
     None \<Rightarrow> State_Monad.return (Some ErrNilObject)
   | Some new \<Rightarrow> do {
       watchers_loop hash resourceKind new ResourceActionUpdate
         (\<lambda>w. rw_Update w oldObj (Some new));
       reconcilers_loop hash resourceKind new (update_action oldObj new);
       State_Monad.return None
     })"

definition informerDeleteFunc ::
  "(string \<Rightarrow> nat) \<Rightarrow> string \<Rightarrow> ptr option \<Rightarrow> ('u, go_error option) cio" where
  "informerDeleteFunc hash resourceKind object = (case object of
     None \<Rightarrow> State_Monad.return (Some ErrNilObject)
   | Some obj \<Rightarrow> do {
       watchers_loop hash resourceKind obj ResourceActionDelete
         (\<lambda>w. rw_Delete w (Some obj));
       reconcilers_loop hash resourceKind obj (State_Monad.return ResourceActionDelete);
       State_Monad.return None
     })"

section \<open>The legacy retry loop\<close>

text \<open>
  One tick of \<open>retryTicker\<close> at time \<open>t\<close>. The match function given to \<open>RemoveItems\<close> runs a due retry
  and collects what to add back; its state is the world and that list.
\<close>

definition tick_match ::
  "RetryPolicy option \<Rightarrow> time \<Rightarrow> 'u retryInfo \<Rightarrow> ('u world \<times> 'u retryInfo list, bool) state" where
  "tick_match policy t val = State (\<lambda>(w, toAdd).
     if ri_retryAfter val < t then
       (let ((specifiedRetry, err), w') = run_state (ri_retryFunc val) w
        in (True, (w',
          (case specifiedRetry of
             Some d \<Rightarrow> toAdd @ [val\<lparr>ri_retryAfter := t + d, ri_err := None\<rparr>]
           | None \<Rightarrow>
               (case (err, policy) of
                  (Some e, Some pol) \<Rightarrow>
                    (let (ok, after) = pol e (ri_attempt val + 1)
                     in if ok then toAdd @ [val\<lparr>ri_attempt := ri_attempt val + 1,
                                               ri_retryAfter := t + after, ri_err := None\<rparr>]
                        else toAdd)
                | _ \<Rightarrow> toAdd)))))
     else (False, (w, toAdd)))"

definition tick_key :: "time \<Rightarrow> string \<Rightarrow> ('u, unit) cio" where
  "tick_key t key = State (\<lambda>(c, w).
     let (r, (w', toAdd)) = run_state (RemoveItemsM (ic_toRetry c) key (tick_match (ic_RetryPolicy c) t) (- 1)) (w, []);
         l = (case r of None \<Rightarrow> ic_toRetry c | Some (l', n) \<Rightarrow> l')
     in ((), (c\<lparr>ic_toRetry := foldl (\<lambda>l inf. AddItem l key [inf]) l toAdd\<rparr>, w')))"

fun tick_keys :: "time \<Rightarrow> string list \<Rightarrow> ('u, unit) cio" where
  "tick_keys t [] = State_Monad.return ()"
| "tick_keys t (k # ks) = do { tick_key t k; tick_keys t ks }"

definition retry_tick :: "time \<Rightarrow> ('u, unit) cio" where
  "retry_tick t = do { c \<leftarrow> get_ctl; tick_keys t (Keys (ic_toRetry c)) }"

section \<open>Pending retries of the controller\<close>

text \<open>The retries waiting under a key, in whichever store the controller has.\<close>

definition to_info :: "'u RetryRequest \<Rightarrow> 'u retryInfo" where
  "to_info r = \<lparr>ri_retryAfter = rt_RetryAfter r, ri_retryFunc = rt_RetryFunc r, ri_attempt = rt_Attempt r,
                ri_action = rt_Action r, ri_object = rt_Object r, ri_err = rt_LastError r\<rparr>"

definition waiting :: "'u InformerController \<Rightarrow> string \<Rightarrow> 'u retryInfo multiset" where
  "waiting c key = (case ic_retryProcessor c of
     Some p \<Rightarrow> image_mset to_info (pending p key)
   | None \<Rightarrow> mset (items (ic_toRetry c) key))"

definition ctl_ok :: "(string \<Rightarrow> nat) \<Rightarrow> 'u InformerController \<Rightarrow> bool" where
  "ctl_ok hash c \<longleftrightarrow> (case ic_retryProcessor c of None \<Rightarrow> True | Some p \<Rightarrow> proc_ok hash p)"

definition ctl_enqueue ::
  "(string \<Rightarrow> nat) \<Rightarrow> 'u InformerController \<Rightarrow> string \<Rightarrow> 'u retryInfo \<Rightarrow> 'u InformerController" where
  "ctl_enqueue hash c key r =
     add_retry hash key (ri_retryAfter r) (ri_retryFunc r) (ri_action r) (ri_object r) (ri_err r) c"

definition ctl_dequeue ::
  "(string \<Rightarrow> nat) \<Rightarrow> 'u InformerController \<Rightarrow> string \<Rightarrow> ('u retryInfo \<Rightarrow> bool) \<Rightarrow> 'u InformerController" where
  "ctl_dequeue hash c key P = (case ic_retryProcessor c of
     Some p \<Rightarrow> c\<lparr>ic_retryProcessor := Some (Dequeue hash p key (Some (\<lambda>r. P (to_info r))))\<rparr>
   | None \<Rightarrow> c\<lparr>ic_toRetry := drop_retries (ic_toRetry c) key P\<rparr>)"

definition ctl_dequeue_all :: "(string \<Rightarrow> nat) \<Rightarrow> 'u InformerController \<Rightarrow> string \<Rightarrow> 'u InformerController" where
  "ctl_dequeue_all hash c key = (case ic_retryProcessor c of
     Some p \<Rightarrow> c\<lparr>ic_retryProcessor := Some (DequeueAll hash p key)\<rparr>
   | None \<Rightarrow> c\<lparr>ic_toRetry := RemoveKey (ic_toRetry c) key\<rparr>)"

lemma items_drop_retries [simp]:
  "items (drop_retries l key P) k = (if k = key then filter (\<lambda>v. \<not> P v) (items l key) else items l k)"
  using RemoveItems_unlimited [of "- 1" l key P] by (auto simp: drop_retries_def)

interpretation ctl_store: retry_store "ctl_enqueue hash" "ctl_dequeue hash" "ctl_dequeue_all hash"
    waiting "\<lambda>key r. ri_attempt r = 0" "ctl_ok hash"
  for hash
proof unfold_locales
  fix q :: "'u InformerController" and key k :: string and r :: "'u retryInfo"
  assume "ctl_ok hash q" "ri_attempt r = 0"
  then show "ctl_ok hash (ctl_enqueue hash q key r) \<and> waiting (ctl_enqueue hash q key r) k =
      (if k = key then add_mset r (waiting q k) else waiting q k)"
    by (cases r; cases "ic_retryProcessor q")
       (auto simp: ctl_enqueue_def add_retry_def waiting_def ctl_ok_def to_info_def Enqueue_ok pending_laws)
next
  fix q :: "'u InformerController" and key k :: string and P
  assume ok: "ctl_ok hash q"
  show "ctl_ok hash (ctl_dequeue hash q key P) \<and> waiting (ctl_dequeue hash q key P) k =
      (if k = key then filter_mset (\<lambda>r. \<not> P r) (waiting q k) else waiting q k)"
    using ok by (cases "ic_retryProcessor q")
      (auto simp: ctl_dequeue_def waiting_def ctl_ok_def Dequeue_ok pending_laws filter_mset_image_mset)
next
  fix q :: "'u InformerController" and key k :: string
  assume ok: "ctl_ok hash q"
  show "ctl_ok hash (ctl_dequeue_all hash q key) \<and> waiting (ctl_dequeue_all hash q key) k =
      (if k = key then {#} else waiting q k)"
    using ok by (cases "ic_retryProcessor q")
      (auto simp: ctl_dequeue_all_def waiting_def ctl_ok_def DequeueAll_alt Dequeue_ok pending_laws)
qed

text \<open>\<open>dequeueIfRequired\<close> is the store's \<open>supersede\<close> by the dequeue policy.\<close>

definition obsolete ::
  "'u InformerController \<Rightarrow> (ptr \<Rightarrow> object) \<Rightarrow> ptr \<Rightarrow> ResourceAction \<Rightarrow> ('u retryInfo \<Rightarrow> bool) option" where
  "obsolete c objs cur action =
     map_option (\<lambda>pol info. pol action (objs cur) (ri_action info) (objs (ri_object info)) (ri_err info))
       (ic_RetryDequeuePolicy c)"

lemma dequeued_supersedes:
  "dequeued hash objs key cur action c = ctl_store.supersede hash (obsolete c objs cur action) c key"
  by (simp add: dequeued_def ctl_store.supersede_def obsolete_def ctl_dequeue_def ctl_dequeue_all_def
      to_info_def split: option.split)

lemma add_retry_enqueue:
  "add_retry hash key t f action obj err c =
     ctl_enqueue hash c key \<lparr>ri_retryAfter = t, ri_retryFunc = f, ri_attempt = 0, ri_action = action,
       ri_object = obj, ri_err = err\<rparr>"
  by (simp add: ctl_enqueue_def)

section \<open>What an event does to the world\<close>

text \<open>Everything of the controller but its retries.\<close>

definition regs where
  "regs c = (ic_ErrorHandler c, ic_RetryPolicy c, ic_RetryDequeuePolicy c, ic_informers c,
             ic_watchers c, ic_reconcilers c, ic_runnables c)"

lemma regs_dequeued [simp]: "regs (dequeued hash objs key cur action c) = regs c"
  by (simp add: regs_def dequeued_def split: option.split)

lemma regs_add_retry [simp]: "regs (add_retry hash key t f action obj err c) = regs c"
  by (simp add: regs_def add_retry_def split: option.split)

lemma regs_sel:
  "regs c' = regs c \<Longrightarrow> ic_ErrorHandler c' = ic_ErrorHandler c" "regs c' = regs c \<Longrightarrow> ic_RetryPolicy c' = ic_RetryPolicy c"
  "regs c' = regs c \<Longrightarrow> ic_RetryDequeuePolicy c' = ic_RetryDequeuePolicy c"
  "regs c' = regs c \<Longrightarrow> ic_watchers c' = ic_watchers c" "regs c' = regs c \<Longrightarrow> ic_reconcilers c' = ic_reconcilers c"
  by (simp_all add: regs_def)

text \<open>The calls themselves, without the bookkeeping of retries: run the handler, report its error.\<close>

definition report :: "(go_error \<Rightarrow> ('u, unit) io) option \<Rightarrow> go_error option \<Rightarrow> ('u, unit) io" where
  "report eh err = (case (eh, err) of (Some h, Some e) \<Rightarrow> h e | _ \<Rightarrow> State_Monad.return ())"

definition watcher_only ::
  "(go_error \<Rightarrow> ('u, unit) io) option \<Rightarrow> ('u, go_error option) io \<Rightarrow> ('u, unit) io" where
  "watcher_only eh m = do { err \<leftarrow> m; report eh err }"

definition reconcile_only ::
  "(go_error \<Rightarrow> ('u, unit) io) option \<Rightarrow> ('u, ResourceAction) io \<Rightarrow> ptr \<Rightarrow> 'u Reconciler \<Rightarrow> ('u, unit) io" where
  "reconcile_only eh action_of obj rec = do {
     action \<leftarrow> action_of;
     (res, err) \<leftarrow> rec \<lparr>rq_Action = ReconcileActionFromResourceAction action, rq_Object = obj, rq_State = None\<rparr>;
     (case rr_RequeueAfter res of Some d \<Rightarrow> State_Monad.return () | None \<Rightarrow> report eh err)
   }"

fun run_all :: "('u, unit) io list \<Rightarrow> ('u, unit) io" where
  "run_all [] = State_Monad.return ()"
| "run_all (m # ms) = do { m; run_all ms }"

lemma run_all_append: "run_state (run_all (ms @ ns)) w = run_state (run_all ns) (snd (run_state (run_all ms) w))"
  by (induction ms arbitrary: w) (auto split: prod.splits)

lemma queueRetry_run:
  "\<exists>c'. run_state (queueRetry hash key e f action obj) (c, w) = ((), (c', w)) \<and> regs c' = regs c"
  by (auto simp: queueRetry_def split: option.splits prod.splits)

lemma call_error_handler_run:
  "run_state (call_error_handler e) (c, w) =
     ((), (c, snd (run_state (report (ic_ErrorHandler c) (Some e)) w)))"
  by (simp add: call_error_handler_def report_def split: option.split)

lemma dequeueIfRequired_run [simp]:
  "run_state (dequeueIfRequired hash key cur action) (c, w) =
     ((), (dequeued hash (w_objs w) key cur action c, w))"
  by (simp add: dequeueIfRequired_def)

lemma watcher_call_run:
  "\<exists>c'. run_state (watcher_call hash key m action obj) (c, w) =
      ((), (c', snd (run_state (watcher_only (ic_ErrorHandler c) m) w))) \<and> regs c' = regs c"
proof -
  obtain r w1 where m: "run_state m w = (r, w1)" by fastforce
  let ?w2 = "snd (run_state (report (ic_ErrorHandler c) r) w1)"
  show ?thesis
  proof (cases r)
    case None
    with m show ?thesis by (auto simp: watcher_call_def watcher_only_def report_def split: option.split)
  next
    case (Some e)
    from queueRetry_run [of hash key e "watcher_retry m" action obj c ?w2] m Some show ?thesis
      by (auto simp: watcher_call_def watcher_only_def call_error_handler_run)
  qed
qed

lemma doReconcile_run:
  assumes "run_state (rec req) w = ((res, err), w1)"
  shows "\<exists>c'. run_state (doReconcile hash rec req key) (c, w) =
      ((), (c', if rr_RequeueAfter res = None then snd (run_state (report (ic_ErrorHandler c) err) w1) else w1)) \<and>
      regs c' = regs c"
proof (cases "rr_RequeueAfter res")
  case (Some d)
  with assms show ?thesis by (auto simp: doReconcile_def Let_def)
next
  case None
  show ?thesis
  proof (cases err)
    case None
    with \<open>rr_RequeueAfter res = None\<close> assms show ?thesis
      by (auto simp: doReconcile_def Let_def report_def split: option.split)
  next
    case (Some e)
    let ?w2 = "snd (run_state (report (ic_ErrorHandler c) err) w1)"
    let ?req = "case rr_State res of None \<Rightarrow> req | Some st \<Rightarrow> req\<lparr>rq_State := Some st\<rparr>"
    from queueRetry_run [of hash key e "reconcile_retry rec ?req"
        "ResourceActionFromReconcileAction (rq_Action req)" "rq_Object req" c ?w2]
      \<open>rr_RequeueAfter res = None\<close> assms Some show ?thesis
      by (auto simp: doReconcile_def Let_def call_error_handler_run)
  qed
qed

lemma watcher_event_run:
  "\<exists>c'. run_state (watcher_event hash kind obj action call idx wt) (c, w) =
      ((), (c', snd (run_state (watcher_only (ic_ErrorHandler c) (call (snd wt))) w))) \<and> regs c' = regs c"
proof -
  let ?key = "keyForWatcherEvent kind idx (Some (w_objs w obj))"
  let ?c = "dequeued hash (w_objs w) ?key obj action c"
  have "ic_ErrorHandler ?c = ic_ErrorHandler c" by (rule regs_sel(1)) simp
  with watcher_call_run [of hash ?key "call (snd wt)" action obj ?c w] show ?thesis
    by (simp add: watcher_event_def key_object_def Let_def)
qed

lemma reconciler_event_run:
  assumes "\<And>w. snd (run_state action_of w) = w"
  shows "\<exists>c'. run_state (reconciler_event hash kind obj action_of idx rc) (c, w) =
      ((), (c', snd (run_state (reconcile_only (ic_ErrorHandler c) action_of obj (snd rc)) w))) \<and> regs c' = regs c"
proof -
  obtain a where a: "run_state action_of w = (a, w)" using assms [of w] by (cases "run_state action_of w") auto
  let ?key = "keyForReconcilerEvent kind idx (Some (w_objs w obj))"
  let ?c = "dequeued hash (w_objs w) ?key obj a c"
  let ?req = "\<lparr>rq_Action = ReconcileActionFromResourceAction a, rq_Object = obj, rq_State = None\<rparr>"
  obtain res err w1 where rec: "run_state (snd rc ?req) w = ((res, err), w1)" by (metis surj_pair)
  have "ic_ErrorHandler ?c = ic_ErrorHandler c" by (rule regs_sel(1)) simp
  with doReconcile_run [where rec = "snd rc" and req = ?req, OF rec, of hash ?key ?c] a rec show ?thesis
    by (auto simp: reconciler_event_def reconcile_only_def key_object_def Let_def split: option.splits)
qed

text \<open>A loop whose body does \<open>g v\<close> to the world and keeps the registrations does all of them, in order.\<close>

lemma range_from_run:
  assumes "\<And>i v c' w'. regs c' = regs c \<Longrightarrow>
      \<exists>c''. run_state (f i v) (c', w') = ((), (c'', snd (run_state (g v) w'))) \<and> regs c'' = regs c"
    and "regs c0 = regs c"
  shows "\<exists>c'. run_state (range_from i vs f) (c0, w) =
      ((), (c', snd (run_state (run_all (map g vs)) w))) \<and> regs c' = regs c"
  using assms(2)
proof (induction vs arbitrary: i c0 w)
  case (Cons v vs)
  from assms(1) [OF Cons.prems, of i v w] obtain c1 where
    c1: "run_state (f i v) (c0, w) = ((), (c1, snd (run_state (g v) w)))" "regs c1 = regs c" by blast
  from Cons.IH [OF c1(2), of "Suc i" "snd (run_state (g v) w)"] c1(1) show ?case
    by (auto split: prod.splits)
qed simp

lemma Range_items: "Range l key f = range_from 0 (items l key) f"
  by (simp add: Range_def items_def split: option.split)

lemma watchers_loop_run:
  assumes "regs c0 = regs c"
  shows "\<exists>c'. run_state (watchers_loop hash kind obj action call) (c0, w) =
      ((), (c', snd (run_state (run_all (map (\<lambda>wt. watcher_only (ic_ErrorHandler c) (call (snd wt)))
        (items (ic_watchers c) kind))) w))) \<and> regs c' = regs c"
proof -
  have "\<exists>c''. run_state (watcher_event hash kind obj action call i v) (c', w') =
      ((), (c'', snd (run_state (watcher_only (ic_ErrorHandler c) (call (snd v))) w'))) \<and> regs c'' = regs c"
    if "regs c' = regs c" for i v c' w'
    using watcher_event_run [of hash kind obj action call i v c' w'] that regs_sel(1) [OF that] by simp
  from range_from_run [of c "watcher_event hash kind obj action call", OF this assms] show ?thesis
    using regs_sel(4) [OF assms] by (simp add: watchers_loop_def Range_items)
qed

lemma reconcilers_loop_run:
  assumes "regs c0 = regs c" "\<And>w. snd (run_state action_of w) = w"
  shows "\<exists>c'. run_state (reconcilers_loop hash kind obj action_of) (c0, w) =
      ((), (c', snd (run_state (run_all (map (\<lambda>rc. reconcile_only (ic_ErrorHandler c) action_of obj (snd rc))
        (items (ic_reconcilers c) kind))) w))) \<and> regs c' = regs c"
proof -
  have "\<exists>c''. run_state (reconciler_event hash kind obj action_of i v) (c', w') =
      ((), (c'', snd (run_state (reconcile_only (ic_ErrorHandler c) action_of obj (snd v)) w'))) \<and> regs c'' = regs c"
    if "regs c' = regs c" for i v c' w'
    using reconciler_event_run [OF assms(2), where hash = hash and kind = kind and obj = obj and idx = i
        and rc = v and c = c' and w = w'] that regs_sel(1) [OF that] by simp
  from range_from_run [of c "reconciler_event hash kind obj action_of", OF this assms(1)] show ?thesis
    using regs_sel(5) [OF assms(1)] by (simp add: reconcilers_loop_def Range_items)
qed

text \<open>The handlers an event of a kind reaches, in order: all watchers, then all reconcilers.\<close>

definition event_calls ::
  "'u InformerController \<Rightarrow> string \<Rightarrow> ptr \<Rightarrow> ('u ResourceWatcher \<Rightarrow> ('u, go_error option) io) \<Rightarrow>
   ('u, ResourceAction) io \<Rightarrow> ('u, unit) io" where
  "event_calls c kind obj call action_of = run_all
     (map (\<lambda>wt. watcher_only (ic_ErrorHandler c) (call (snd wt))) (items (ic_watchers c) kind) @
      map (\<lambda>rc. reconcile_only (ic_ErrorHandler c) action_of obj (snd rc)) (items (ic_reconcilers c) kind))"

lemma event_loops_run:
  assumes "\<And>w. snd (run_state action_of w) = w"
  shows "\<exists>c'. run_state (do { watchers_loop hash kind obj action call;
        reconcilers_loop hash kind obj action_of; State_Monad.return None }) (c, w) =
      (None, (c', snd (run_state (event_calls c kind obj call action_of) w))) \<and> regs c' = regs c"
proof -
  from watchers_loop_run [of c c hash kind obj action call w] obtain c1 where
    1: "run_state (watchers_loop hash kind obj action call) (c, w) =
      ((), (c1, snd (run_state (run_all (map (\<lambda>wt. watcher_only (ic_ErrorHandler c) (call (snd wt)))
        (items (ic_watchers c) kind))) w)))" "regs c1 = regs c" by auto
  let ?w1 = "snd (run_state (run_all (map (\<lambda>wt. watcher_only (ic_ErrorHandler c) (call (snd wt)))
      (items (ic_watchers c) kind))) w)"
  from reconcilers_loop_run [OF 1(2) assms, of hash kind obj ?w1] obtain c2 where
    "run_state (reconcilers_loop hash kind obj action_of) (c1, ?w1) =
      ((), (c2, snd (run_state (run_all (map (\<lambda>rc. reconcile_only (ic_ErrorHandler c) action_of obj (snd rc))
        (items (ic_reconcilers c) kind))) ?w1)))" "regs c2 = regs c" by auto
  with 1(1) show ?thesis by (simp add: event_calls_def run_all_append)
qed

section \<open>What an event does to the retries\<close>

lemma waiting_dequeued:
  assumes "ctl_ok hash c"
  shows "ctl_ok hash (dequeued hash objs key cur action c)"
    and "waiting (dequeued hash objs key cur action c) k =
      (if k = key then filter_mset (\<lambda>r. \<not> (case obsolete c objs cur action of None \<Rightarrow> True | Some f \<Rightarrow> f r))
         (waiting c k) else waiting c k)"
  using assms by (simp_all add: dequeued_supersedes ctl_store.supersede_ok ctl_store.supersede_waiting)

text \<open>A delete event makes every pending retry obsolete, with the opinionated policy or with none.\<close>

definition drops_on_delete :: "'u InformerController \<Rightarrow> bool" where
  "drops_on_delete c \<longleftrightarrow>
     (\<forall>pol. ic_RetryDequeuePolicy c = Some pol \<longrightarrow> pol = OpinionatedRetryDequeuePolicy)"

lemma waiting_dequeued_delete:
  assumes "ctl_ok hash c" "drops_on_delete c"
  shows "waiting (dequeued hash objs key cur ResourceActionDelete c) k = (if k = key then {#} else waiting c k)"
  using assms
  by (cases "ic_RetryDequeuePolicy c")
     (auto simp: waiting_dequeued obsolete_def drops_on_delete_def OpinionatedRetryDequeuePolicy_def)

lemma watcher_event_success:
  assumes "run_state (call (snd wt)) w = (None, w1)"
  shows "run_state (watcher_event hash kind obj action call idx wt) (c, w) =
    ((), (dequeued hash (w_objs w) (keyForWatcherEvent kind idx (Some (w_objs w obj))) obj action c, w1))"
  using assms by (simp add: watcher_event_def watcher_call_def key_object_def Let_def)

lemma reconciler_event_success:
  assumes "run_state action_of w = (a, w)"
    and "run_state (snd rc \<lparr>rq_Action = ReconcileActionFromResourceAction a, rq_Object = obj, rq_State = None\<rparr>) w
           = ((res, None), w1)" "rr_RequeueAfter res = None"
  shows "run_state (reconciler_event hash kind obj action_of idx rc) (c, w) =
    ((), (dequeued hash (w_objs w) (keyForReconcilerEvent kind idx (Some (w_objs w obj))) obj a c, w1))"
  using assms by (simp add: reconciler_event_def doReconcile_def key_object_def Let_def)

text \<open>
  A loop in which every body only drops the retries of its own key (computed from the unchanged
  object) leaves none of these keys with a retry, and adds none elsewhere.
\<close>

lemma range_from_clears:
  assumes body: "\<And>j v c w. ctl_ok hash c \<Longrightarrow> drops_on_delete c \<Longrightarrow> w_objs w obj = ob \<Longrightarrow> v \<in> set vs \<Longrightarrow>
      \<exists>c' w'. run_state (f j v) (c, w) = ((), (c', w')) \<and> w_objs w' obj = ob \<and> ctl_ok hash c' \<and>
        regs c' = regs c \<and> (\<forall>k. waiting c' k = (if k = key j then {#} else waiting c k))"
    and "ctl_ok hash c" "drops_on_delete c" "w_objs w obj = ob" "set us \<subseteq> set vs"
  shows "\<exists>c' w'. run_state (range_from i us f) (c, w) = ((), (c', w')) \<and> w_objs w' obj = ob \<and>
      ctl_ok hash c' \<and> regs c' = regs c \<and>
      (\<forall>k. waiting c' k = (if \<exists>j < length us. k = key (i + j) then {#} else waiting c k))"
  using assms(2-)
proof (induction us arbitrary: i c w)
  case (Cons u us)
  from body [OF Cons.prems(1-3), of u i] Cons.prems(4) obtain c1 w1 where
    1: "run_state (f i u) (c, w) = ((), (c1, w1))" "w_objs w1 obj = ob" "ctl_ok hash c1" "regs c1 = regs c"
       "\<And>k. waiting c1 k = (if k = key i then {#} else waiting c k)" by auto
  have "drops_on_delete c1" using Cons.prems(2) regs_sel(3) [OF 1(4)] by (simp add: drops_on_delete_def)
  from Cons.IH [OF 1(3) this 1(2), of "Suc i"] Cons.prems(4) obtain c2 w2 where
    2: "run_state (range_from (Suc i) us f) (c1, w1) = ((), (c2, w2))" "w_objs w2 obj = ob" "ctl_ok hash c2"
       "regs c2 = regs c1"
       "\<And>k. waiting c2 k = (if \<exists>j < length us. k = key (Suc i + j) then {#} else waiting c1 k)" by auto
  have "(\<exists>j < length (u # us). k = key (i + j)) \<longleftrightarrow> k = key i \<or> (\<exists>j < length us. k = key (Suc i + j))" for k
    by (auto simp: less_Suc_eq_0_disj)
  note keys = this
  have "waiting c2 k = (if \<exists>j < length (u # us). k = key (i + j) then {#} else waiting c k)" for k
    unfolding keys 2(5) 1(5) by auto
  with 1 2 show ?case by simp
qed simp

lemma range_from_zero_clears:
  assumes "\<And>j v c w. ctl_ok hash c \<Longrightarrow> drops_on_delete c \<Longrightarrow> w_objs w obj = ob \<Longrightarrow> v \<in> set vs \<Longrightarrow>
      \<exists>c' w'. run_state (f j v) (c, w) = ((), (c', w')) \<and> w_objs w' obj = ob \<and> ctl_ok hash c' \<and>
        regs c' = regs c \<and> (\<forall>k. waiting c' k = (if k = key j then {#} else waiting c k))"
    and "ctl_ok hash c" "drops_on_delete c" "w_objs w obj = ob"
  shows "\<exists>c' w'. run_state (range_from 0 vs f) (c, w) = ((), (c', w')) \<and> w_objs w' obj = ob \<and>
      ctl_ok hash c' \<and> regs c' = regs c \<and>
      (\<forall>k. waiting c' k = (if \<exists>j < length vs. k = key j then {#} else waiting c k))"
proof -
  have "\<exists>c' w'. run_state (range_from 0 vs f) (c, w) = ((), (c', w')) \<and> w_objs w' obj = ob \<and>
      ctl_ok hash c' \<and> regs c' = regs c \<and>
      (\<forall>k. waiting c' k = (if \<exists>j < length vs. k = key (0 + j) then {#} else waiting c k))"
    by (rule range_from_clears [where vs = vs, OF assms(1) assms(2-4) subset_refl])
  then show ?thesis by simp
qed

text \<open>Handlers that accept the delete of an object and leave the object alone.\<close>

definition watcher_accepts :: "ptr \<Rightarrow> 'u ResourceWatcher \<Rightarrow> bool" where
  "watcher_accepts obj wt \<longleftrightarrow> (\<forall>w. fst (run_state (rw_Delete wt (Some obj)) w) = None \<and>
     w_objs (snd (run_state (rw_Delete wt (Some obj)) w)) obj = w_objs w obj)"

definition reconciler_accepts :: "ptr \<Rightarrow> 'u Reconciler \<Rightarrow> bool" where
  "reconciler_accepts obj rc \<longleftrightarrow> (\<forall>w.
     let r = run_state (rc \<lparr>rq_Action = ReconcileActionDeleted, rq_Object = obj, rq_State = None\<rparr>) w
     in snd (fst r) = None \<and> rr_RequeueAfter (fst (fst r)) = None \<and> w_objs (snd r) obj = w_objs w obj)"

lemma delete_watcher_body:
  assumes "ctl_ok hash c" "drops_on_delete c" "w_objs w obj = ob" "watcher_accepts obj (snd v)"
  shows "\<exists>c' w'. run_state (watcher_event hash kind obj ResourceActionDelete (\<lambda>w. rw_Delete w (Some obj)) j v) (c, w)
        = ((), (c', w')) \<and> w_objs w' obj = ob \<and> ctl_ok hash c' \<and> regs c' = regs c \<and>
        (\<forall>k. waiting c' k = (if k = keyForWatcherEvent kind j (Some ob) then {#} else waiting c k))"
proof -
  obtain w1 where w1: "run_state (rw_Delete (snd v) (Some obj)) w = (None, w1)" "w_objs w1 obj = ob"
    using assms(3,4) by (cases "run_state (rw_Delete (snd v) (Some obj)) w")
      (auto simp: watcher_accepts_def dest!: spec [of _ w])
  from watcher_event_success [where call = "\<lambda>w. rw_Delete w (Some obj)", OF w1(1)] w1(2) assms(1-3) show ?thesis
    by (simp add: waiting_dequeued(1) waiting_dequeued_delete)
qed

lemma delete_reconciler_body:
  assumes "ctl_ok hash c" "drops_on_delete c" "w_objs w obj = ob" "reconciler_accepts obj (snd v)"
  shows "\<exists>c' w'. run_state (reconciler_event hash kind obj (State_Monad.return ResourceActionDelete) j v) (c, w)
        = ((), (c', w')) \<and> w_objs w' obj = ob \<and> ctl_ok hash c' \<and> regs c' = regs c \<and>
        (\<forall>k. waiting c' k = (if k = keyForReconcilerEvent kind j (Some ob) then {#} else waiting c k))"
proof -
  let ?req = "\<lparr>rq_Action = ReconcileActionDeleted, rq_Object = obj, rq_State = None\<rparr>"
  obtain res w1 where w1: "run_state (snd v ?req) w = ((res, None), w1)" "rr_RequeueAfter res = None"
      "w_objs w1 obj = ob"
    using assms(3,4) by (cases "run_state (snd v ?req) w")
      (auto simp: reconciler_accepts_def Let_def dest!: spec [of _ w] intro: prod.collapse [symmetric])
  have "ReconcileActionFromResourceAction ResourceActionDelete = ReconcileActionDeleted"
    by (simp add: ReconcileActionFromResourceAction_def)
  with reconciler_event_success [of "State_Monad.return ResourceActionDelete" w ResourceActionDelete v obj res w1
      hash kind j c] w1 assms(1-3) show ?thesis
    by (simp add: waiting_dequeued(1) waiting_dequeued_delete)
qed

section \<open>Properties\<close>

definition no_colon :: "string \<Rightarrow> bool" where
  "no_colon s \<longleftrightarrow> CHR '':'' \<notin> set s"

definition colons :: "string \<Rightarrow> nat" where
  "colons s = length (filter ((=) CHR '':'') s)"

lemma colons_simps [simp]:
  "colons (a @ b) = colons a + colons b"
  "colons (x # a) = (if x = CHR '':'' then Suc (colons a) else colons a)"
  "colons [] = 0"
  by (simp_all add: colons_def)

lemma colons_none [simp]: "no_colon s \<Longrightarrow> colons s = 0"
  by (induction s) (auto simp: no_colon_def)

lemma colons_show_nat [simp]: "colons (show_nat n) = 0"
  by (rule colons_none) (simp add: no_colon_def)

lemma key_parts_inject:
  assumes "no_colon a" "no_colon a'" "no_colon ns" "no_colon ns'"
  shows "a @ '':'' @ show_nat i @ '':'' @ ns @ '':'' @ n = a' @ '':'' @ show_nat j @ '':'' @ ns' @ '':'' @ n' \<longleftrightarrow>
    a = a' \<and> i = j \<and> ns = ns' \<and> n = n'"
  using assms by (auto simp: no_colon_def separated_inject)

text \<open>
  Retry keys identify what is retried: for kinds, namespaces and names without a colon, two
  watcher keys (and two reconciler keys) are equal only for the same kind, handler index, namespace
  and name, and a watcher key is never a reconciler key.
\<close>

lemma retry_keys_identify:
  assumes "no_colon kind" "no_colon kind'" "no_colon (o_Namespace ob)" "no_colon (o_Namespace ob')"
    and "no_colon (o_Name ob)" "no_colon (o_Name ob')"
  shows "(keyForWatcherEvent kind i (Some ob) = keyForWatcherEvent kind' j (Some ob') \<longleftrightarrow>
      kind = kind' \<and> i = j \<and> o_Namespace ob = o_Namespace ob' \<and> o_Name ob = o_Name ob') \<and>
    (keyForReconcilerEvent kind i (Some ob) = keyForReconcilerEvent kind' j (Some ob') \<longleftrightarrow>
      kind = kind' \<and> i = j \<and> o_Namespace ob = o_Namespace ob' \<and> o_Name ob = o_Name ob') \<and>
    keyForWatcherEvent kind i (Some ob) \<noteq> keyForReconcilerEvent kind' j (Some ob')"
proof (intro conjI)
  show "keyForWatcherEvent kind i (Some ob) \<noteq> keyForReconcilerEvent kind' j (Some ob')"
  proof
    assume "keyForWatcherEvent kind i (Some ob) = keyForReconcilerEvent kind' j (Some ob')"
    then have "colons (keyForWatcherEvent kind i (Some ob)) = colons (keyForReconcilerEvent kind' j (Some ob'))"
      by simp
    with assms show False by (simp add: keyForWatcherEvent_def keyForReconcilerEvent_def)
  qed
qed (use assms key_parts_inject in \<open>simp_all add: keyForWatcherEvent_def keyForReconcilerEvent_def\<close>)

lemma retry_keys_identify_witness:
  "keyForWatcherEvent ''Foo'' 1 (Some (sample_object [])) \<noteq>
     keyForWatcherEvent ''Foo'' 11 (Some (sample_object [])) \<and>
   keyForWatcherEvent ''Foo'' 1 (Some (sample_object [])) \<noteq>
     keyForReconcilerEvent ''Foo'' 1 (Some (sample_object []))"
proof -
  have "no_colon ''Foo''" "no_colon (o_Namespace (sample_object []))" "no_colon (o_Name (sample_object []))"
    by (simp_all add: no_colon_def sample_object_def)
  note ok = this
  from retry_keys_identify [OF ok(1) ok(1) ok(2) ok(2) ok(3) ok(3), of 1 11]
    retry_keys_identify [OF ok(1) ok(1) ok(2) ok(2) ok(3) ok(3), of 1 1] show ?thesis by simp
qed

text \<open>
  C1. Every event of a kind reaches every watcher and then every reconciler registered for it, in
  the order they were added and whatever the others return: what the event function does to the
  world is exactly the sequence of these calls (errors going to the error handler), and it keeps
  the registrations.
\<close>

theorem events_reach_all_handlers:
  "(\<exists>c'. run_state (informerAddFunc hash kind (Some obj)) (c, w) =
      (None, (c', snd (run_state (event_calls c kind obj (\<lambda>wt. rw_Add wt (Some obj))
        (State_Monad.return ResourceActionCreate)) w))) \<and> regs c' = regs c) \<and>
   (\<exists>c'. run_state (informerUpdateFunc hash kind old (Some obj)) (c, w) =
      (None, (c', snd (run_state (event_calls c kind obj (\<lambda>wt. rw_Update wt old (Some obj))
        (update_action old obj)) w))) \<and> regs c' = regs c) \<and>
   (\<exists>c'. run_state (informerDeleteFunc hash kind (Some obj)) (c, w) =
      (None, (c', snd (run_state (event_calls c kind obj (\<lambda>wt. rw_Delete wt (Some obj))
        (State_Monad.return ResourceActionDelete)) w))) \<and> regs c' = regs c)"
proof (intro conjI)
  have "snd (run_state (update_action old obj) w) = w" for w :: "'a world"
    by (simp add: update_action_def split: option.split)
  then show "\<exists>c'. run_state (informerUpdateFunc hash kind old (Some obj)) (c, w) =
      (None, (c', snd (run_state (event_calls c kind obj (\<lambda>wt. rw_Update wt old (Some obj))
        (update_action old obj)) w))) \<and> regs c' = regs c"
    unfolding informerUpdateFunc_def option.case by (rule event_loops_run)
qed (unfold informerAddFunc_def informerDeleteFunc_def option.case, (rule event_loops_run, simp)+)

text \<open>
  C3. When a watcher fails on an event and the retry policy accepts attempt \<open>0\<close> with a delay, the
  event drops the obsolete retries of the watcher's key and queues exactly one retry under it, due
  after that delay, which repeats the watcher's call; retries of every other key are untouched.
\<close>

theorem failed_watcher_retried:
  assumes "ctl_ok hash c" "ic_RetryPolicy c = Some pol" "pol e 0 = (True, d)"
    and "run_state (call (snd wt)) w = (Some e, w1)"
    and "key = keyForWatcherEvent kind idx (Some (w_objs w obj))"
    and "run_state (watcher_event hash kind obj action call idx wt) (c, w) = ((), (c', w'))"
  shows "waiting c' key = add_mset
      \<lparr>ri_retryAfter = w_now w' + d, ri_retryFunc = watcher_retry (call (snd wt)), ri_attempt = 0,
       ri_action = action, ri_object = obj, ri_err = Some e\<rparr>
      (filter_mset (\<lambda>r. \<not> (case obsolete c (w_objs w) obj action of None \<Rightarrow> True | Some f \<Rightarrow> f r)) (waiting c key)) \<and>
    (\<forall>k. k \<noteq> key \<longrightarrow> waiting c' k = waiting c k)"
proof -
  let ?c = "dequeued hash (w_objs w) key obj action c"
  let ?r = "\<lparr>ri_retryAfter = w_now w' + d, ri_retryFunc = watcher_retry (call (snd wt)), ri_attempt = 0,
       ri_action = action, ri_object = obj, ri_err = Some e\<rparr>"
  have "ic_RetryPolicy ?c = Some pol" using assms(2) regs_sel(2) [OF regs_dequeued] by metis
  with assms(3-6) have "c' = ctl_enqueue hash ?c key ?r"
    by (auto simp: watcher_event_def watcher_call_def key_object_def Let_def call_error_handler_run
        queueRetry_def ctl_enqueue_def)
  with ctl_store.supersede_then_enqueue [OF assms(1), where r = ?r and key = key] show ?thesis
    by (simp add: dequeued_supersedes)
qed

definition sample_controller :: "nat InformerController" where
  "sample_controller = NewInformerController 0 (DefaultInformerControllerConfig 0)"

definition sample_failing :: "nat \<times> nat ResourceWatcher" where
  "sample_failing = (0, opinionated_watcher sample_conflict (sample_watcher (Some HAdd)))"

lemma sample_controller_ok: "ctl_ok hash sample_controller"
  by (simp add: sample_controller_def NewInformerController_def DefaultInformerControllerConfig_def ctl_ok_def)

theorem failed_watcher_retried_witness:
  "\<exists>c' w'. run_state (watcher_event length ''Foo'' 0 ResourceActionCreate (\<lambda>wt. rw_Add wt (Some 0)) 0
       sample_failing) (sample_controller, sample_world (sample_object []) 0) = ((), (c', w')) \<and>
     size (waiting c' ''Foo:0:ns:foo'') = 1"
proof -
  let ?w = "sample_world (sample_object []) 0"
  let ?call = "\<lambda>wt. rw_Add wt (Some 0)"
  obtain c' w' where run: "run_state (watcher_event length ''Foo'' 0 ResourceActionCreate ?call 0 sample_failing)
      (sample_controller, ?w) = ((), (c', w'))"
    by (cases "run_state (watcher_event length ''Foo'' 0 ResourceActionCreate ?call 0 sample_failing)
      (sample_controller, ?w)") auto
  have "fst (run_state (?call (snd sample_failing)) ?w) = Some (GoErr ''boom'')" by code_simp
  then have fails: "run_state (?call (snd sample_failing)) ?w =
      (Some (GoErr ''boom''), snd (run_state (?call (snd sample_failing)) ?w))" by (simp add: prod_eq_iff)
  have key: "''Foo:0:ns:foo'' = keyForWatcherEvent ''Foo'' 0 (Some (w_objs ?w 0))" by code_simp
  have pol: "ic_RetryPolicy sample_controller = Some (DefaultRetryPolicy 0)"
    by (simp add: sample_controller_def NewInformerController_def DefaultInformerControllerConfig_def)
  have d: "DefaultRetryPolicy 0 (GoErr ''boom'') 0 = (True, 5000000000)"
    by (simp add: DefaultRetryPolicy_def ExponentialBackoffRetryPolicy_def pow2_duration_def)
  have "waiting sample_controller k = {#}" for k
    by (simp add: sample_controller_def NewInformerController_def DefaultInformerControllerConfig_def waiting_def)
  with failed_watcher_retried [where call = ?call, OF sample_controller_ok pol d fails key run] run
  show ?thesis by auto
qed


definition sample_registered :: "nat InformerController" where
  "sample_registered = fst (AddWatcher (add_retry length ''Foo:0:ns:foo'' 3 (State_Monad.return (None, None))
     ResourceActionCreate 0 None sample_controller) (Some sample_failing) ''Foo'')"


text \<open>
  A reconcile that asks for a requeue is queued under its key, due after the requested
  duration, and its retry calls the reconciler with the request carrying the state the reconcile
  returned; other keys are untouched.
\<close>

lemma requeue_keeps_state:
  assumes "ctl_ok hash c" "run_state (rec req) w = ((res, err), w1)"
    and "rr_RequeueAfter res = Some d" "rr_State res = Some st"
  shows "\<exists>c'. run_state (doReconcile hash rec req key) (c, w) = ((), (c', w1)) \<and>
    waiting c' key = add_mset
      \<lparr>ri_retryAfter = w_now w1 + d, ri_retryFunc = reconcile_retry rec (req\<lparr>rq_State := Some st\<rparr>),
       ri_attempt = 0, ri_action = ResourceActionFromReconcileAction (rq_Action req),
       ri_object = rq_Object req, ri_err = err\<rparr> (waiting c key) \<and>
    (\<forall>k. k \<noteq> key \<longrightarrow> waiting c' k = waiting c k)"
  using assms by (simp add: doReconcile_def Let_def add_retry_enqueue ctl_store.enqueue)

definition sample_requeuer :: "nat Reconciler" where
  "sample_requeuer req = State_Monad.return (\<lparr>rr_RequeueAfter = Some 9, rr_State = Some [''k'' \<mapsto> AnyVal ''v'']\<rparr>, None)"

lemma requeue_keeps_state_witness:
  "\<exists>c'. run_state (doReconcile length sample_requeuer (sample_request ReconcileActionCreated) ''key'')
      (sample_controller, sample_world (sample_object []) 0) = ((), (c', sample_world (sample_object []) 0)) \<and>
    (\<exists>r. waiting c' ''key'' = add_mset r (waiting sample_controller ''key'') \<and> ri_retryAfter r = 9)"
proof -
  let ?w = "sample_world (sample_object []) 0"
  have "run_state (sample_requeuer (sample_request ReconcileActionCreated)) ?w =
      ((\<lparr>rr_RequeueAfter = Some 9, rr_State = Some [''k'' \<mapsto> AnyVal ''v'']\<rparr>, None), ?w)"
    by (simp add: sample_requeuer_def)
  from requeue_keeps_state [where rec = sample_requeuer, OF sample_controller_ok [of length] this, of 9 _ "''key''"] show ?thesis
    by (force simp: sample_world_def)
qed

definition flaky_reconciler :: "nat OpinionatedReconciler" where
  "flaky_reconciler = sample_reconciler\<lparr>or_Reconciler := Some (\<lambda>req. State (\<lambda>w.
     if w_ext w = 2 then ((empty_result, Some (GoErr ''boom'')), w\<lparr>w_ext := 1\<rparr>)
     else ((empty_result, None), w)))\<rparr>"

text \<open>The controller's handling of one flaky delete: the first call, then two retries as it queues them.\<close>

definition flaky_run :: "(nat, unit) io" where
  "flaky_run = do {
     (res, err) \<leftarrow> Reconcile (\<lambda>e. False) flaky_reconciler (sample_request ReconcileActionUpdated);
     let retry = reconcile_retry (Reconcile (\<lambda>e. False) flaky_reconciler)
       (case rr_State res of None \<Rightarrow> sample_request ReconcileActionUpdated
        | Some st \<Rightarrow> (sample_request ReconcileActionUpdated)\<lparr>rq_State := Some st\<rparr>);
     r1 \<leftarrow> retry;
     r2 \<leftarrow> retry;
     State_Monad.return ()
   }"

text \<open>
  The state that a retry returns is lost: when the first reconcile of a delete fails and the
  first retry is handled but cannot remove the finalizer, the next retry calls the wrapped
  reconciler with the delete again, so it is handled twice.
\<close>

lemma retried_delete_repeats:
  "handler_events (w_trace (snd (run_state flaky_run
     (sample_world (deleted (sample_object [''done''])) 2)))) =
   [EvHandler (HReconcile ReconcileActionDeleted) 0 (Some (GoErr ''boom'')),
    EvHandler (HReconcile ReconcileActionDeleted) 0 None,
    EvHandler (HReconcile ReconcileActionDeleted) 0 None]"
  by code_simp

text \<open>
  The legacy ticker at one key, without the list bookkeeping: run the given retries in order and
  return the ones to queue again.
\<close>

definition tick_next ::
  "RetryPolicy option \<Rightarrow> time \<Rightarrow> 'u retryInfo \<Rightarrow> duration option \<times> go_error option \<Rightarrow> 'u retryInfo list" where
  "tick_next policy t val r = (case fst r of
     Some d \<Rightarrow> [val\<lparr>ri_retryAfter := t + d, ri_err := None\<rparr>]
   | None \<Rightarrow>
       (case (snd r, policy) of
          (Some e, Some pol) \<Rightarrow>
            (if fst (pol e (ri_attempt val + 1))
             then [val\<lparr>ri_attempt := ri_attempt val + 1,
                      ri_retryAfter := t + snd (pol e (ri_attempt val + 1)), ri_err := None\<rparr>]
             else [])
        | _ \<Rightarrow> []))"

fun tick_runs :: "RetryPolicy option \<Rightarrow> time \<Rightarrow> 'u retryInfo list \<Rightarrow> ('u, 'u retryInfo list) io" where
  "tick_runs policy t [] = State_Monad.return []"
| "tick_runs policy t (v # vs) = do {
     r \<leftarrow> ri_retryFunc v;
     rest \<leftarrow> tick_runs policy t vs;
     State_Monad.return (tick_next policy t v r @ rest)
   }"

abbreviation due :: "time \<Rightarrow> 'u retryInfo \<Rightarrow> bool" where
  "due t v \<equiv> ri_retryAfter v < t"

lemma tick_match_run:
  "run_state (tick_match policy t v) (w, acc) =
     (if due t v
      then (True, (snd (run_state (ri_retryFunc v) w), acc @ tick_next policy t v (fst (run_state (ri_retryFunc v) w))))
      else (False, (w, acc)))"
  by (auto simp: tick_match_def tick_next_def split: prod.splits option.splits)

lemma answers_tick:
  "run_state (answers (tick_match policy t) vs) (w, acc) =
     (map (due t) vs,
      (snd (run_state (tick_runs policy t (filter (due t) vs)) w),
       acc @ fst (run_state (tick_runs policy t (filter (due t) vs)) w)))"
  by (induction vs arbitrary: w acc) (auto simp: tick_match_run split: prod.splits)

lemma items_fold_AddItem:
  "items (foldl (\<lambda>l v. AddItem l key [v]) l vs) k = (if k = key then items l key @ vs else items l k)"
  by (induction vs arbitrary: l) auto

text \<open>
  A tick of the legacy retry loop at a key runs exactly the retries that are due (their time
  strictly before the tick), in list order, and leaves the ones that are not due, in order, followed
  by the ones that the requeue durations and the retry policy ask for; other keys are untouched.
\<close>

lemma tick_key_exact:
  "\<exists>c'. run_state (tick_key t key) (c, w) =
      ((), (c', snd (run_state (tick_runs (ic_RetryPolicy c) t (filter (due t) (items (ic_toRetry c) key))) w))) \<and>
    items (ic_toRetry c') = (items (ic_toRetry c))
      (key := filter (\<lambda>v. \<not> due t v) (items (ic_toRetry c) key) @
        fst (run_state (tick_runs (ic_RetryPolicy c) t (filter (due t) (items (ic_toRetry c) key))) w))"
proof -
  from RemoveItemsM_unlimited [of "- 1", OF _ answers_tick [of "ic_RetryPolicy c" t "items (ic_toRetry c) key" w "[]"]]
  show ?thesis
    by (auto simp: tick_key_def unmatched_map items_fold_AddItem fun_eq_iff split: prod.splits)
qed

end
