(* ===== verification/K8s_Translation.thy ===== *)
theory K8s_Translation
  imports Resource_Model
begin

text \<open>
  \<^verbatim>\<open>k8s/translation.go\<close> apart from admission: how patch paths are rewritten for Kubernetes before a
  patch is sent, and how a list is read item by item. The names of Kubernetes' own metadata fields
  are read off the struct tags of a third-party type and are a parameter.
\<close>

section \<open>Metadata fields\<close>

text \<open>\<open>getV1ObjectMetaFields\<close>, given the \<^verbatim>\<open>json\<close> tags of the struct's fields.\<close>

definition tag_field :: "string \<Rightarrow> string option" where
  "tag_field jsonTag =
     (if jsonTag = [] \<or> hd jsonTag = CHR ''-'' \<or> hd jsonTag = CHR '','' then None
      else Some (takeWhile (\<lambda>c. c \<noteq> CHR '','') jsonTag))"

definition getV1ObjectMetaFields :: "string list \<Rightarrow> string list" where
  "getV1ObjectMetaFields tags = List.map_filter tag_field tags"

section \<open>Patch paths\<close>

definition AnnotationPrefix_escaped :: string where
  "AnnotationPrefix_escaped = join ''~1'' (split_on CHR ''/'' AnnotationPrefix)"

lemma AnnotationPrefix_escaped_eq: "AnnotationPrefix_escaped = ''grafana.com~1''"
  by (simp add: AnnotationPrefix_escaped_def AnnotationPrefix_def)

definition rewrite_op :: "string list \<Rightarrow> patch_operation \<Rightarrow> go_error + patch_operation" where
  "rewrite_op metaV1Fields op =
     (if po_Path op = ''/metadata'' then Inl (GoErr ''cannot patch entire metadata object'')
      else if \<not> has_prefix ''/metadata/'' (po_Path op) then Inr op
      else
        (let parts = split_on CHR ''/'' (trim_char CHR ''/'' (po_Path op))
         in if length parts \<le> 1 then Inl (GoErr ''invalid patch path'')
            else if parts ! 1 \<in> set metaV1Fields then Inr op
            else if parts ! 1 = ''extraFields'' then
              (if length parts < 3
               then Inl (GoErr ''cannot patch entire extraFields, please patch fields in extraFields instead'')
               else Inr (op\<lparr>po_Path := ''/metadata/'' @ join ''/'' (drop 2 parts)\<rparr>))
            else Inr (op\<lparr>po_Path := ''/metadata/annotations/'' @ AnnotationPrefix_escaped @ join ''~1'' (drop 1 parts),
                         po_Operation := (if po_Operation op = PatchOpReplace then PatchOpAdd else po_Operation op)\<rparr>)))"

text \<open>
  The loop of \<open>marshalJSONPatch\<close>. It writes into the slice of the request it was given: the result
  is what the caller's slice holds afterwards, and the error.
\<close>

fun rewrite_ops :: "string list \<Rightarrow> patch_operation list \<Rightarrow> patch_operation list \<times> go_error option" where
  "rewrite_ops mf [] = ([], None)"
| "rewrite_ops mf (op # ops) = (case rewrite_op mf op of
     Inl e \<Rightarrow> (op # ops, Some e)
   | Inr op' \<Rightarrow> (let (ops', err) = rewrite_ops mf ops in (op' # ops', err)))"

text \<open>The encoded patch, with \<open>marshal\<close> for the JSON encoder, and the caller's request after the call.\<close>

definition marshalJSONPatch ::
  "(patch_operation list \<Rightarrow> go_error + string) \<Rightarrow> string list \<Rightarrow> patch_request \<Rightarrow> (go_error + string) \<times> patch_request" where
  "marshalJSONPatch marshal mf patch =
     (let (ops, err) = rewrite_ops mf (pr_Operations patch)
      in (case err of Some e \<Rightarrow> Inl e | None \<Rightarrow> marshal ops, patch\<lparr>pr_Operations := ops\<rparr>))"

section \<open>Lists\<close>

record list_meta =
  lm_APIVersion :: string
  lm_Kind :: string
  lm_ResourceVersion :: string
  lm_SelfLink :: string
  lm_Continue :: string
  lm_RemainingItemCount :: "int option"

record 'o list_into =
  ls_meta :: list_meta
  ls_items :: "'o list"

fun parse_items :: "(string \<Rightarrow> go_error + 'o) \<Rightarrow> string list \<Rightarrow> go_error + 'o list" where
  "parse_items p [] = Inr []"
| "parse_items p (x # xs) = (case p x of
     Inl e \<Rightarrow> Inl e
   | Inr y \<Rightarrow> (case parse_items p xs of Inl e \<Rightarrow> Inl e | Inr ys \<Rightarrow> Inr (y # ys)))"

text \<open>\<open>rawToListWithParser\<close>: what is in \<open>into\<close> afterwards, and the error.\<close>

definition rawToListWithParser ::
  "(string \<Rightarrow> go_error + list_meta \<times> string list) \<Rightarrow> string \<Rightarrow> 'o list_into \<Rightarrow> (string \<Rightarrow> go_error + 'o) \<Rightarrow>
   'o list_into \<times> go_error option" where
  "rawToListWithParser unmarshal raw into itemParser =
     (case unmarshal raw of
        Inl e \<Rightarrow> (into, Some e)
      | Inr (md, rawItems) \<Rightarrow> (case parse_items itemParser rawItems of
          Inl e \<Rightarrow> (into, Some e)
        | Inr items \<Rightarrow> (\<lparr>ls_meta = md, ls_items = items\<rparr>, None)))"

lemma parse_items_Inr:
  "parse_items p xs = Inr ys \<longleftrightarrow> list_all2 (\<lambda>x y. p x = Inr y) xs ys"
proof (induction xs arbitrary: ys)
  case (Cons x xs)
  show ?case
  proof (cases "parse_items p xs")
    case (Inl e)
    then have "\<not> list_all2 (\<lambda>x y. p x = Inr y) xs zs" for zs using Cons.IH [of zs] by simp
    then show ?thesis using Inl by (auto simp: list_all2_Cons1 split: sum.splits)
  next
    case (Inr zs)
    then have "list_all2 (\<lambda>x y. p x = Inr y) xs zs' \<longleftrightarrow> zs = zs'" for zs' using Cons.IH [of zs'] by simp
    then show ?thesis using Inr by (auto simp: list_all2_Cons1 split: sum.splits)
  qed
qed auto

text \<open>A list is read entirely or left as it was.\<close>

lemma rawToList_all_or_nothing:
  "rawToListWithParser unmarshal raw into p = (into', err) \<Longrightarrow>
     (case err of
        Some e \<Rightarrow> into' = into
      | None \<Rightarrow> \<exists>md raws. unmarshal raw = Inr (md, raws) \<and> ls_meta into' = md \<and>
                  list_all2 (\<lambda>x y. p x = Inr y) raws (ls_items into'))"
  by (auto simp: rawToListWithParser_def parse_items_Inr split: sum.splits)

section \<open>Rewriting twice\<close>

lemma dropWhile_no_slash: "c \<notin> set s \<Longrightarrow> dropWhile (\<lambda>x. x = c) (s @ t) = (if s = [] then dropWhile (\<lambda>x. x = c) t else s @ t)"
  by (cases s) auto

lemma trim_inner:
  assumes "c \<notin> set a" "a \<noteq> []" "c \<notin> set b" "b \<noteq> []"
  shows "trim_char c (c # a @ c # m @ c # b) = a @ c # m @ c # b"
proof -
  have "dropWhile (\<lambda>x. x = c) (c # a @ c # m @ c # b) = a @ c # m @ c # b"
    using assms by (simp add: dropWhile_no_slash)
  moreover have "dropWhile (\<lambda>x. x = c) (rev (a @ c # m @ c # b)) = rev (a @ c # m @ c # b)"
    using assms dropWhile_no_slash [of c "rev b"] by simp
  ultimately show ?thesis by (simp add: trim_char_def)
qed

lemma join_no_sep: "\<forall>p \<in> set ps. c \<notin> set p \<Longrightarrow> c \<notin> set sep \<Longrightarrow> c \<notin> set (join sep ps)"
  by (induction ps) (auto simp: join_Cons)

lemma annotation_path_fixed:
  assumes "''annotations'' \<in> set mf" "CHR ''/'' \<notin> set rest"
    "po_Path op = ''/metadata/annotations/'' @ AnnotationPrefix_escaped @ rest"
  shows "rewrite_op mf op = Inr op"
proof -
  let ?b = "AnnotationPrefix_escaped @ rest"
  have path: "po_Path op = CHR ''/'' # ''metadata'' @ CHR ''/'' # ''annotations'' @ CHR ''/'' # ?b"
    using assms(3) by simp
  have b: "CHR ''/'' \<notin> set ?b" "?b \<noteq> []" using assms(2) by (auto simp: AnnotationPrefix_escaped_eq)
  have "trim_char CHR ''/'' (po_Path op) = ''metadata'' @ CHR ''/'' # ''annotations'' @ CHR ''/'' # ?b"
    unfolding path by (rule trim_inner) (use b in auto)
  then have "split_on CHR ''/'' (trim_char CHR ''/'' (po_Path op)) = [''metadata'', ''annotations'', ?b]"
    using b by (simp add: split_on_append [of _ "''metadata''", simplified] split_on_append [of _ "''annotations''", simplified]
        split_on_plain)
  moreover have "has_prefix ''/metadata/'' (po_Path op)" "po_Path op \<noteq> ''/metadata''"
    by (simp_all add: path has_prefix_def)
  ultimately show ?thesis using assms(1) by (simp add: rewrite_op_def)
qed

section \<open>What a rewritten patch is\<close>

text \<open>The paths the rewriting treats apart from annotations: those below \<open>extraFields\<close>.\<close>

definition extra_path :: "patch_operation \<Rightarrow> bool" where
  "extra_path op \<longleftrightarrow> has_prefix ''/metadata/'' (po_Path op) \<and>
     drop 1 (take 2 (split_on CHR ''/'' (trim_char CHR ''/'' (po_Path op)))) = [''extraFields'']"

text \<open>An operation on a single annotation under the SDK's prefix.\<close>

definition sdk_annotation :: "patch_operation \<Rightarrow> bool" where
  "sdk_annotation op \<longleftrightarrow>
     (\<exists>rest. CHR ''/'' \<notin> set rest \<and> po_Path op = ''/metadata/annotations/'' @ AnnotationPrefix_escaped @ rest)"

lemma rewrite_op_cases:
  assumes "rewrite_op mf op = Inr op'" "\<not> extra_path op"
  shows "op' = op \<or> sdk_annotation op'"
proof -
  let ?parts = "split_on CHR ''/'' (trim_char CHR ''/'' (po_Path op))"
  have slash: "CHR ''/'' \<notin> set (join ''~1'' (drop 1 ?parts))"
    using split_on_no_sep by (intro join_no_sep) (auto dest: in_set_dropD)
  have "2 \<le> length ?parts \<Longrightarrow> drop 1 (take 2 ?parts) = [?parts ! 1]"
    by (cases ?parts; cases "tl ?parts") auto
  then have "extra_path op \<longleftrightarrow> ?parts ! 1 = ''extraFields''"
    if "has_prefix ''/metadata/'' (po_Path op)" "2 \<le> length ?parts"
    using that by (simp add: extra_path_def)
  then show ?thesis
    using assms slash unfolding rewrite_op_def Let_def sdk_annotation_def
    by (auto split: if_splits simp: not_le Suc_le_eq)
qed

lemma rewrite_op_idem:
  assumes "''annotations'' \<in> set mf" "rewrite_op mf op = Inr op'" "\<not> extra_path op"
  shows "rewrite_op mf op' = Inr op'"
  using rewrite_op_cases [OF assms(2,3)] annotation_path_fixed [OF assms(1)] assms(2) unfolding sdk_annotation_def by metis

lemma rewrite_op_value:
  "rewrite_op mf op = Inr op' \<Longrightarrow> po_Value op' = po_Value op"
  by (auto simp: rewrite_op_def Let_def split: if_splits)

lemma rewrite_ops_ok:
  "rewrite_ops mf ops = (ops', None) \<Longrightarrow> list_all2 (\<lambda>op op'. rewrite_op mf op = Inr op') ops ops'"
  by (induction ops arbitrary: ops') (auto split: sum.splits prod.splits)

lemma rewrite_ops_fixed:
  "\<forall>op \<in> set ops. rewrite_op mf op = Inr op \<Longrightarrow> rewrite_ops mf ops = (ops, None)"
  by (induction ops) auto

text \<open>
  A patch that was rewritten without an error, and has no path below \<open>extraFields\<close>, names only
  what Kubernetes has: each operation is the caller's own, or an annotation under the SDK's prefix
  with the caller's value; and a request that is used again, whose operations the first call has
  already rewritten in place, is sent as it was the first time.
\<close>

lemma marshalJSONPatch_idempotent:
  assumes "''annotations'' \<in> set mf"
    and "\<forall>op \<in> set (pr_Operations patch). \<not> extra_path op"
    and "marshalJSONPatch marshal mf patch = (Inr out, patch')"
  shows "list_all2 (\<lambda>op op'. op' = op \<or> (po_Value op' = po_Value op \<and> sdk_annotation op'))
         (pr_Operations patch) (pr_Operations patch') \<and>
       marshalJSONPatch marshal mf patch' = (Inr out, patch')"
proof (intro conjI)
  obtain ops where ops: "rewrite_ops mf (pr_Operations patch) = (ops, None)" "marshal ops = Inr out"
    and patch': "patch' = patch\<lparr>pr_Operations := ops\<rparr>"
    using assms(3) by (auto simp: marshalJSONPatch_def split: prod.splits option.splits)
  have rel: "list_all2 (\<lambda>op op'. rewrite_op mf op = Inr op') (pr_Operations patch) ops"
    by (rule rewrite_ops_ok [OF ops(1)])
  show "list_all2 (\<lambda>op op'. op' = op \<or> (po_Value op' = po_Value op \<and> sdk_annotation op'))
         (pr_Operations patch) (pr_Operations patch')"
    unfolding patch' by (simp, rule list.rel_mono_strong [OF rel])
      (use rewrite_op_cases rewrite_op_value assms(2) in blast)
  have "rewrite_op mf op' = Inr op'" if mem: "op' \<in> set ops" for op'
  proof -
    obtain i where "i < length ops" "ops ! i = op'" using mem by (auto simp: in_set_conv_nth)
    then have "pr_Operations patch ! i \<in> set (pr_Operations patch)" "rewrite_op mf (pr_Operations patch ! i) = Inr op'"
      using rel by (auto simp: list_all2_conv_all_nth)
    then show ?thesis using rewrite_op_idem [OF assms(1)] assms(2) by blast
  qed
  then have "rewrite_ops mf ops = (ops, None)" by (rule rewrite_ops_fixed [OF ballI])
  then show "marshalJSONPatch marshal mf patch' = (Inr out, patch')"
    using ops(2) by (simp add: marshalJSONPatch_def patch')
qed

definition patch_sample :: patch_request where
  "patch_sample = \<lparr>pr_Operations =
     [\<lparr>po_Path = ''/metadata/createdBy'', po_Operation = PatchOpReplace, po_Value = PVString ''me''\<rparr>,
      \<lparr>po_Path = ''/metadata/labels/a'', po_Operation = PatchOpReplace, po_Value = PVString ''b''\<rparr>]\<rparr>"

definition patch_sample_out :: patch_request where
  "patch_sample_out = \<lparr>pr_Operations =
     [\<lparr>po_Path = ''/metadata/annotations/grafana.com~1createdBy'', po_Operation = PatchOpAdd, po_Value = PVString ''me''\<rparr>,
      \<lparr>po_Path = ''/metadata/labels/a'', po_Operation = PatchOpReplace, po_Value = PVString ''b''\<rparr>]\<rparr>"

lemma marshalJSONPatch_idempotent_witness:
  "marshalJSONPatch (\<lambda>_. Inr ''x'') [''annotations'', ''labels''] patch_sample = (Inr ''x'', patch_sample_out) \<and>
   marshalJSONPatch (\<lambda>_. Inr ''x'') [''annotations'', ''labels''] patch_sample_out = (Inr ''x'', patch_sample_out)"
proof -
  have "marshalJSONPatch (\<lambda>_. Inr ''x'') [''annotations'', ''labels''] patch_sample = (Inr ''x'', patch_sample_out)"
    by code_simp
  moreover have "\<forall>op \<in> set (pr_Operations patch_sample). \<not> extra_path op" by code_simp
  ultimately show ?thesis
    using marshalJSONPatch_idempotent [of "[''annotations'', ''labels'']" patch_sample "\<lambda>_. Inr ''x''" "''x''" patch_sample_out]
    by simp
qed

text \<open>
  Below \<open>extraFields\<close> it is otherwise: the first use moves the path up to the metadata, and when
  the same request is used again the path it left is taken for a custom field.
\<close>

lemma extraFields_reused_differs:
  "let use = \<lambda>ops. fst (rewrite_ops [''annotations''] ops);
       op = \<lparr>po_Path = ''/metadata/extraFields/foo'', po_Operation = PatchOpAdd, po_Value = PVString ''v''\<rparr>
   in map po_Path (use [op]) = [''/metadata/foo''] \<and>
      map po_Path (use (use [op])) = [''/metadata/annotations/grafana.com~1foo'']"
  by code_simp

section \<open>The requests of the operator\<close>

text \<open>
  A path whose second part is one of Kubernetes' metadata fields is left alone, whatever follows it.
\<close>

lemma field_path_fixed:
  assumes "f \<in> set mf" "CHR ''/'' \<notin> set f" "f \<noteq> []" "CHR ''/'' \<notin> set rest" "rest \<noteq> []"
    "po_Path op = ''/metadata/'' @ f @ CHR ''/'' # rest"
  shows "rewrite_op mf op = Inr op"
proof -
  have path: "po_Path op = CHR ''/'' # ''metadata'' @ CHR ''/'' # f @ CHR ''/'' # rest"
    using assms(6) by simp
  have "trim_char CHR ''/'' (po_Path op) = ''metadata'' @ CHR ''/'' # f @ CHR ''/'' # rest"
    unfolding path by (rule trim_inner) (use assms in auto)
  then have "split_on CHR ''/'' (trim_char CHR ''/'' (po_Path op)) = [''metadata'', f, rest]"
    using assms by (simp add: split_on_append [of _ "''metadata''", simplified] split_on_append split_on_plain)
  moreover have "has_prefix ''/metadata/'' (po_Path op)" "po_Path op \<noteq> ''/metadata''"
    by (simp_all add: path has_prefix_def)
  ultimately show ?thesis using assms(1) by (simp add: rewrite_op_def)
qed

lemma whole_field_fixed:
  assumes "f \<in> set mf" "CHR ''/'' \<notin> set f" "f \<noteq> []" "po_Path op = ''/metadata/'' @ f"
  shows "rewrite_op mf op = Inr op"
proof -
  have path: "po_Path op = CHR ''/'' # ''metadata'' @ CHR ''/'' # f"
    using assms(4) by simp
  have "dropWhile (\<lambda>x. x = CHR ''/'') (rev (''metadata'' @ CHR ''/'' # f)) = rev (''metadata'' @ CHR ''/'' # f)"
    using assms dropWhile_no_slash [of "CHR ''/''" "rev f"] by simp
  then have "trim_char CHR ''/'' (po_Path op) = ''metadata'' @ CHR ''/'' # f"
    by (simp add: trim_char_def path)
  then have "split_on CHR ''/'' (trim_char CHR ''/'' (po_Path op)) = [''metadata'', f]"
    using assms by (simp add: split_on_append [of _ "''metadata''", simplified] split_on_append split_on_plain)
  moreover have "has_prefix ''/metadata/'' (po_Path op)" "po_Path op \<noteq> ''/metadata''"
    by (simp_all add: path has_prefix_def)
  ultimately show ?thesis using assms(1) by (simp add: rewrite_op_def)
qed

end
