(* ===== verification/Typed_Objects.thy ===== *)
theory Typed_Objects
  imports Resource_Model "HOL-Library.AList"
begin

text \<open>
  \<^verbatim>\<open>resource/untypedobject.go\<close> and \<^verbatim>\<open>resource/typedobject.go\<close>: the implementations of
  \<^verbatim>\<open>resource.Object\<close> that the SDK ships, with their metadata accessors, subresources, copies and
  JSON forms.

  Reflection over a subresource catalog becomes a case distinction on what \<^verbatim>\<open>reflect.Kind\<close> tells.
  JSON codecs of specs and metadata and the RFC 3339 format of times are parameters; \<open>codec_ok\<close> and
  \<open>rfc3339_laws\<close> name what a property uses of them.
\<close>

section \<open>Metadata\<close>

text \<open>The type and object metadata that every implementation embeds; \<open>ob_Other\<close> is the rest of \<^verbatim>\<open>ObjectMeta\<close>.\<close>

record object_base =
  ob_APIVersion :: string
  ob_Kind :: string
  ob_Name :: string
  ob_Namespace :: string
  ob_UID :: string
  ob_ResourceVersion :: string
  ob_Generation :: int
  ob_Labels :: "(string \<rightharpoonup> string) option"
  ob_CreationTimestamp :: time
  ob_DeletionTimestamp :: "time option"
  ob_Finalizers :: "string list option"
  ob_Annotations :: "(string \<rightharpoonup> string) option"
  ob_Other :: string

record CommonMetadata =
  cm_UID :: string
  cm_ResourceVersion :: string
  cm_Generation :: int
  cm_Labels :: "(string \<rightharpoonup> string) option"
  cm_CreationTimestamp :: time
  cm_DeletionTimestamp :: "time option"
  cm_Finalizers :: "string list option"
  cm_UpdateTimestamp :: time
  cm_CreatedBy :: string
  cm_UpdatedBy :: string

text \<open>Times count from the zero \<^verbatim>\<open>time.Time\<close>, which is what a failed parse returns.\<close>

record time_format =
  tf_Format :: "time \<Rightarrow> string"
  tf_Parse :: "string \<Rightarrow> time option"

definition AnnotationUpdateTimestamp :: string where
  "AnnotationUpdateTimestamp = ''grafana.com/updateTimestamp''"

definition AnnotationCreatedBy :: string where
  "AnnotationCreatedBy = ''grafana.com/createdBy''"

definition AnnotationUpdatedBy :: string where
  "AnnotationUpdatedBy = ''grafana.com/updatedBy''"

text \<open>
  How \<^verbatim>\<open>GroupVersionKind\<close> and \<^verbatim>\<open>SetGroupVersionKind\<close> read and write the API version is apimachinery's:
  \<open>parse\<close> gives group and version, \<open>print\<close> writes them.
\<close>

definition typed_GetStaticMetadata :: "(string \<Rightarrow> string \<times> string) \<Rightarrow> 'z object_base_scheme \<Rightarrow> static_metadata" where
  "typed_GetStaticMetadata parse t =
     \<lparr>sm_Group = fst (parse (ob_APIVersion t)), sm_Version = snd (parse (ob_APIVersion t)), sm_Kind = ob_Kind t,
      sm_Namespace = ob_Namespace t, sm_Name = ob_Name t\<rparr>"

definition SetStaticMetadata ::
  "(string \<Rightarrow> string \<Rightarrow> string) \<Rightarrow> static_metadata \<Rightarrow> 'z object_base_scheme \<Rightarrow> 'z object_base_scheme" where
  "SetStaticMetadata print md t =
     t\<lparr>ob_Name := sm_Name md, ob_Namespace := sm_Namespace md,
       ob_APIVersion := print (sm_Group md) (sm_Version md), ob_Kind := sm_Kind md\<rparr>"

text \<open>Reading a key of a Go map: a missing key reads as the empty string.\<close>

definition lookup_or_empty :: "(string \<rightharpoonup> string) option \<Rightarrow> string \<Rightarrow> string" where
  "lookup_or_empty m k = (case m of None \<Rightarrow> [] | Some f \<Rightarrow> (case f k of None \<Rightarrow> [] | Some v \<Rightarrow> v))"

definition GetCommonMetadata :: "time_format \<Rightarrow> 'z object_base_scheme \<Rightarrow> CommonMetadata" where
  "GetCommonMetadata F t =
     \<lparr>cm_UID = ob_UID t, cm_ResourceVersion = ob_ResourceVersion t, cm_Generation = ob_Generation t,
      cm_Labels = ob_Labels t, cm_CreationTimestamp = ob_CreationTimestamp t,
      cm_DeletionTimestamp = ob_DeletionTimestamp t, cm_Finalizers = ob_Finalizers t,
      cm_UpdateTimestamp =
        (case Option.bind (ob_Annotations t) (\<lambda>m. m AnnotationUpdateTimestamp) of
           None \<Rightarrow> 0
         | Some s \<Rightarrow> (case tf_Parse F s of None \<Rightarrow> 0 | Some x \<Rightarrow> x)),
      cm_CreatedBy = lookup_or_empty (ob_Annotations t) AnnotationCreatedBy,
      cm_UpdatedBy = lookup_or_empty (ob_Annotations t) AnnotationUpdatedBy\<rparr>"

definition set_if :: "bool \<Rightarrow> string \<Rightarrow> string \<Rightarrow> (string \<rightharpoonup> string) \<Rightarrow> (string \<rightharpoonup> string)" where
  "set_if b k v m = (if b then m(k \<mapsto> v) else m)"

definition SetCommonMetadata :: "time_format \<Rightarrow> CommonMetadata \<Rightarrow> 'z object_base_scheme \<Rightarrow> 'z object_base_scheme" where
  "SetCommonMetadata F md t =
     (let anns = (case ob_Annotations t of None \<Rightarrow> Map.empty | Some m \<Rightarrow> m);
          a1 = set_if (cm_UpdateTimestamp md \<noteq> 0) AnnotationUpdateTimestamp (tf_Format F (cm_UpdateTimestamp md)) anns;
          a2 = set_if (cm_CreatedBy md \<noteq> []) AnnotationCreatedBy (cm_CreatedBy md) a1;
          a3 = set_if (cm_UpdatedBy md \<noteq> []) AnnotationUpdatedBy (cm_UpdatedBy md) a2
      in t\<lparr>ob_UID := cm_UID md, ob_ResourceVersion := cm_ResourceVersion md, ob_Generation := cm_Generation md,
           ob_Labels := cm_Labels md, ob_CreationTimestamp := cm_CreationTimestamp md,
           ob_DeletionTimestamp := cm_DeletionTimestamp md, ob_Finalizers := cm_Finalizers md,
           ob_Annotations := Some a3\<rparr>)"

text \<open>RFC 3339 without fractions keeps whole seconds.\<close>

definition whole_seconds :: "time \<Rightarrow> time" where
  "whole_seconds t = t - t mod 1000000000"

definition rfc3339_laws :: "time_format \<Rightarrow> bool" where
  "rfc3339_laws F \<longleftrightarrow> (\<forall>t. tf_Parse F (tf_Format F t) = Some (whole_seconds t))"

section \<open>Outcomes\<close>

text \<open>A method returns a value, returns an error, or panics.\<close>

datatype 'a outcome = Returned 'a | Failed go_error | Panicked string

section \<open>UntypedObject\<close>

text \<open>
  The spec is a map of JSON values \<open>'j\<close>, the subresources raw JSON; nil maps are \<open>None\<close>. The maps
  are association lists with distinct keys.
\<close>

type_synonym 'j members = "(string \<times> 'j) list"

record 'j UntypedObject = object_base +
  un_Spec :: "'j members option"
  un_Subresources :: "'j members option"

definition untyped_GetSubresources :: "'j UntypedObject \<Rightarrow> 'j members" where
  "untyped_GetSubresources u = slice (un_Subresources u)"

definition untyped_GetSubresource :: "'j UntypedObject \<Rightarrow> string \<Rightarrow> 'j option" where
  "untyped_GetSubresource u key = map_of (slice (un_Subresources u)) key"

text \<open>The value is raw JSON, bytes, or anything else that \<open>marshal\<close> turns into JSON.\<close>

datatype ('j, 'v) any_value = RawMessage 'j | Bytes 'j | OtherValue 'v

definition untyped_SetSubresource ::
  "('v \<Rightarrow> go_error + 'j) \<Rightarrow> string \<Rightarrow> ('j, 'v) any_value \<Rightarrow> 'j UntypedObject \<Rightarrow> 'j UntypedObject outcome" where
  "untyped_SetSubresource marshal key v u =
     (case (case v of RawMessage j \<Rightarrow> Inr j | Bytes j \<Rightarrow> Inr j | OtherValue x \<Rightarrow> marshal x) of
        Inl e \<Rightarrow> Failed e
      | Inr j \<Rightarrow> Returned (u\<lparr>un_Subresources := Some (AList.update key j (slice (un_Subresources u)))\<rparr>))"

text \<open>A spec that is not a map is \<open>None\<close>.\<close>

definition untyped_SetSpec :: "'j members option option \<Rightarrow> 'j UntypedObject \<Rightarrow> 'j UntypedObject outcome" where
  "untyped_SetSpec spec u = (case spec of
     None \<Rightarrow> Failed (GoErr ''spec must be of type map[string]any'')
   | Some s \<Rightarrow> Returned (u\<lparr>un_Spec := s\<rparr>))"

text \<open>The JSON codecs of the parts; decoding a missing member is decoding \<open>None\<close>.\<close>

record 'j json_codec =
  jc_string :: "string \<Rightarrow> 'j"
  jc_meta :: "object_base \<Rightarrow> 'j"
  jc_spec :: "'j members option \<Rightarrow> 'j"
  jc_dec_string :: "'j option \<Rightarrow> go_error + string"
  jc_dec_meta :: "'j option \<Rightarrow> go_error + object_base"
  jc_dec_spec :: "'j \<Rightarrow> go_error + 'j members option"

definition untyped_MarshalJSON :: "'j json_codec \<Rightarrow> 'j UntypedObject \<Rightarrow> 'j members" where
  "untyped_MarshalJSON C u =
     fold (\<lambda>(k, v). AList.update k v) (slice (un_Subresources u))
       [(''kind'', jc_string C (ob_Kind u)), (''apiVersion'', jc_string C (ob_APIVersion u)),
        (''metadata'', jc_meta C (object_base.truncate u)), (''spec'', jc_spec C (un_Spec u))]"

definition reserved_members :: "string list" where
  "reserved_members = [''apiVersion'', ''kind'', ''metadata'', ''spec'']"

text \<open>
  The metadata member does not hold the API version and the kind. The order in which the range
  visits the members matters only for what is in the object when an error is returned.
\<close>

definition untyped_UnmarshalJSON :: "'j json_codec \<Rightarrow> 'j members \<Rightarrow> 'j UntypedObject outcome" where
  "untyped_UnmarshalJSON C m =
     (case jc_dec_string C (map_of m ''apiVersion'') of
        Inl e \<Rightarrow> Failed (Wrapped ''error reading apiVersion'' e)
      | Inr av \<Rightarrow> (case jc_dec_string C (map_of m ''kind'') of
          Inl e \<Rightarrow> Failed (Wrapped ''error reading kind'' e)
        | Inr kind \<Rightarrow> (case jc_dec_meta C (map_of m ''metadata'') of
            Inl e \<Rightarrow> Failed (Wrapped ''error reading metadata'' e)
          | Inr md \<Rightarrow>
              (let subs = filter (\<lambda>(k, v). k \<notin> set reserved_members) m;
                   base = object_base.extend (md\<lparr>ob_APIVersion := av, ob_Kind := kind\<rparr>)
                     (UntypedObject.fields None (if subs = [] then None else Some subs))
               in (case map_of m ''spec'' of
                     None \<Rightarrow> Returned base
                   | Some j \<Rightarrow> (case jc_dec_spec C j of
                       Inl e \<Rightarrow> Failed e
                     | Inr sp \<Rightarrow> Returned (base\<lparr>un_Spec := sp\<rparr>)))))))"

text \<open>\<open>Copy\<close>, with the spec copied through JSON if it has entries.\<close>

definition untyped_Copy :: "'j json_codec \<Rightarrow> 'j UntypedObject \<Rightarrow> 'j UntypedObject" where
  "untyped_Copy C u =
     u\<lparr>un_Spec :=
         (if slice (un_Spec u) = [] then Some []
          else (case jc_dec_spec C (jc_spec C (un_Spec u)) of Inl e \<Rightarrow> Some [] | Inr sp \<Rightarrow> sp)),
       un_Subresources := Some (slice (un_Subresources u))\<rparr>"

section \<open>TypedSpecObject and TypedSpecStatusObject\<close>

text \<open>
  Values of dynamic type: a value and whether it has the type asked for. \<open>spec_copy\<close> is what a JSON
  marshal and unmarshal into a zero value leaves in it.
\<close>

record 'v value_codec =
  vc_zero :: 'v
  vc_marshal :: "'v \<Rightarrow> go_error + string"
  vc_unmarshal :: "string \<Rightarrow> 'v"

definition json_copy :: "'v value_codec \<Rightarrow> 'v \<Rightarrow> 'v" where
  "json_copy C v = (case vc_marshal C v of Inl e \<Rightarrow> vc_zero C | Inr j \<Rightarrow> vc_unmarshal C j)"

record 'v TypedSpecObject = object_base +
  tso_Spec :: 'v

definition spec_GetSubresource :: "'v TypedSpecObject \<Rightarrow> string \<Rightarrow> 'v option" where
  "spec_GetSubresource t key = None"

definition spec_SetSubresource :: "string \<Rightarrow> 'v \<Rightarrow> 'v TypedSpecObject \<Rightarrow> 'v TypedSpecObject outcome" where
  "spec_SetSubresource key v t = Failed (GoErr ''TypedSpecObject does not allow subresources'')"

definition spec_Copy :: "'v value_codec \<Rightarrow> 'v TypedSpecObject \<Rightarrow> 'v TypedSpecObject" where
  "spec_Copy C t = t\<lparr>tso_Spec := json_copy C (tso_Spec t)\<rparr>"

record ('v, 's) TypedSpecStatusObject = object_base +
  tss_Spec :: 'v
  tss_Status :: 's

definition SubresourceStatus :: string where
  "SubresourceStatus = ''status''"

definition status_GetSubresource :: "('v, 's) TypedSpecStatusObject \<Rightarrow> string \<Rightarrow> 's option" where
  "status_GetSubresource t key = (if key = SubresourceStatus then Some (tss_Status t) else None)"

text \<open>A value that is not of the status type is \<open>None\<close>.\<close>

definition status_SetSubresource ::
  "string \<Rightarrow> 's option \<Rightarrow> ('v, 's) TypedSpecStatusObject \<Rightarrow> ('v, 's) TypedSpecStatusObject outcome" where
  "status_SetSubresource key v t =
     (if key \<noteq> SubresourceStatus then Failed (GoErr (''subresource '' @ key @ '' is not valid''))
      else (case v of
        None \<Rightarrow> Failed (GoErr ''status value is not of the correct type'')
      | Some s \<Rightarrow> Returned (t\<lparr>tss_Status := s\<rparr>)))"

definition status_Copy ::
  "'v value_codec \<Rightarrow> 's value_codec \<Rightarrow> ('v, 's) TypedSpecStatusObject \<Rightarrow> ('v, 's) TypedSpecStatusObject" where
  "status_Copy C D t = t\<lparr>tss_Spec := json_copy C (tss_Spec t), tss_Status := json_copy D (tss_Status t)\<rparr>"

section \<open>TypedObject\<close>

text \<open>
  A field of a catalog struct: its name in Go, its \<^verbatim>\<open>json\<close> tag split at commas (\<open>None\<close> without a
  tag), its type, whether reflection may set it, its value.
\<close>

record 'v catalog_field =
  cf_Name :: string
  cf_json :: "string list option"
  cf_type :: string
  cf_CanSet :: bool
  cf_value :: 'v

text \<open>
  A catalog is a struct, a map with its key and element types (nil as \<open>None\<close>), a pointer, or of another kind.
  \<open>assignable\<close> tells whether a value of the first type may be assigned to the second.
\<close>

datatype 'v catalog =
    StructCatalog "'v catalog_field list"
  | MapCatalog string string "(string \<times> 'v) list option"
  | PtrCatalog "'v catalog"
  | OtherCatalog

definition getFieldName :: "'v catalog_field \<Rightarrow> string" where
  "getFieldName f = (case cf_json f of
     None \<Rightarrow> cf_Name f | Some [] \<Rightarrow> [] | Some (n # opts) \<Rightarrow> n)"

definition catalog_GetSubresource :: "'v catalog \<Rightarrow> string \<Rightarrow> 'v option" where
  "catalog_GetSubresource c key = (case c of
     StructCatalog fs \<Rightarrow> map_option cf_value (find (\<lambda>f. getFieldName f = key) fs)
   | MapCatalog kt et m \<Rightarrow> map_of (slice m) key
   | _ \<Rightarrow> None)"

definition catalog_GetSubresources :: "'v catalog \<Rightarrow> (string \<times> 'v) list option" where
  "catalog_GetSubresources c = (case c of
     StructCatalog fs \<Rightarrow> Some (fold (\<lambda>f. AList.update (getFieldName f) (cf_value f)) fs [])
   | MapCatalog kt et m \<Rightarrow> Some (slice m)
   | _ \<Rightarrow> None)"

text \<open>The loop over the fields: the first whose name is the key is set, or is the reason to fail.\<close>

fun set_field :: "string \<Rightarrow> string \<Rightarrow> 'v \<Rightarrow> 'v catalog_field list \<Rightarrow> 'v catalog_field list outcome" where
  "set_field key ty v [] = Failed (GoErr (''subresource '' @ key @ '' does not exist''))"
| "set_field key ty v (f # fs) =
     (if getFieldName f = key then
        (if cf_type f \<noteq> ty then
           Failed (GoErr (''cannot assign value of type '' @ ty @ '' to subresource '' @ key @ '' of type '' @ cf_type f))
         else if \<not> cf_CanSet f then Failed (GoErr ''cannot set value'')
         else Returned (f\<lparr>cf_value := v\<rparr> # fs))
      else (case set_field key ty v fs of
              Returned fs' \<Rightarrow> Returned (f # fs') | Failed e \<Rightarrow> Failed e | Panicked p \<Rightarrow> Panicked p))"

text \<open>
  A nil map is replaced by a new one in the object, if the new one can be asserted to the catalog's
  type (\<open>made\<close>), but the store then goes to the value reflected before, which is still nil.
\<close>

definition catalog_SetSubresource ::
  "(string \<Rightarrow> string \<Rightarrow> bool) \<Rightarrow> bool \<Rightarrow> string \<Rightarrow> string \<Rightarrow> 'v \<Rightarrow> 'v catalog \<Rightarrow> 'v catalog outcome" where
  "catalog_SetSubresource assignable made key ty v c = (case c of
     StructCatalog fs \<Rightarrow> (case set_field key ty v fs of
       Returned fs' \<Rightarrow> Returned (StructCatalog fs') | Failed e \<Rightarrow> Failed e | Panicked p \<Rightarrow> Panicked p)
   | MapCatalog kt et m \<Rightarrow>
       if m = None \<and> \<not> made then Failed (GoErr ''subresource catalog is a nil map which could not be instantiated'')
       else if \<not> assignable ''string'' kt then
         Failed (GoErr (''subresource map has an unassignable key type of '' @ kt))
       else if \<not> assignable ty et then
         Failed (GoErr (''subresource map requires a value of type '' @ et @ '', provided value '' @ ty @ '' is not assignable''))
       else (case m of
         None \<Rightarrow> Panicked ''assignment to entry in nil map''
       | Some es \<Rightarrow> Returned (MapCatalog kt et (Some (AList.update key v es))))
   | _ \<Rightarrow> Failed (GoErr (''subresource '' @ key @ '' does not exist'')))"

record ('p, 'v) TypedObject = object_base +
  to_Spec :: 'p
  to_Subresources :: "'v catalog"

text \<open>\<open>Copy\<close>: \<open>sub_read\<close> unmarshals JSON into a zero catalog, which \<open>sub_zero\<close> is.\<close>

definition typed_Copy ::
  "'p value_codec \<Rightarrow> 'v catalog \<Rightarrow> (string \<Rightarrow> 'v catalog) \<Rightarrow> ('p, 'v) TypedObject \<Rightarrow> ('p, 'v) TypedObject" where
  "typed_Copy C sub_zero sub_read t =
     t\<lparr>to_Spec := json_copy C (to_Spec t),
       to_Subresources := (case vc_marshal C (to_Spec t) of Inl e \<Rightarrow> sub_zero | Inr j \<Rightarrow> sub_read j)\<rparr>"

text \<open>
  The member names that \<open>MarshalJSON\<close> writes for the fields of the catalog. A tag whose second part
  is missing makes \<^verbatim>\<open>jsv[1]\<close> panic; a catalog that is not a struct makes \<^verbatim>\<open>NumField\<close> panic.
\<close>

fun marshal_fields :: "('v \<Rightarrow> go_error + 'j) \<Rightarrow> 'v catalog_field list \<Rightarrow> 'j members \<Rightarrow> 'j members outcome" where
  "marshal_fields enc [] m = Returned m"
| "marshal_fields enc (f # fs) m =
     (let put = (\<lambda>fn. case enc (cf_value f) of
            Inl e \<Rightarrow> Failed e | Inr j \<Rightarrow> marshal_fields enc fs (AList.update fn j m))
      in case cf_json f of
           None \<Rightarrow> put (cf_Name f)
         | Some [] \<Rightarrow> put (cf_Name f)
         | Some (n # opts) \<Rightarrow>
             if n = [] \<and> opts = [] then put (cf_Name f)
             else (case opts of
               [] \<Rightarrow> Panicked ''index out of range''
             | opt # rest \<Rightarrow> if opt = ''omitempty'' then marshal_fields enc fs m else put n))"

fun elem :: "'v catalog \<Rightarrow> 'v catalog" where
  "elem (PtrCatalog c) = elem c"
| "elem c = c"

definition typed_MarshalJSON ::
  "(string \<Rightarrow> 'j) \<Rightarrow> (object_base \<Rightarrow> 'j) \<Rightarrow> ('p \<Rightarrow> 'j) \<Rightarrow> ('v \<Rightarrow> go_error + 'j) \<Rightarrow> ('p, 'v) TypedObject \<Rightarrow> 'j members outcome" where
  "typed_MarshalJSON enc_string enc_meta enc_spec enc t =
     (case elem (to_Subresources t) of
        StructCatalog fs \<Rightarrow> marshal_fields enc fs
          [(''kind'', enc_string (ob_Kind t)), (''apiVersion'', enc_string (ob_APIVersion t)),
           (''metadata'', enc_meta (object_base.truncate t)), (''spec'', enc_spec (to_Spec t))]
      | _ \<Rightarrow> Panicked ''reflect: call of reflect.Value.NumField on non-struct Value'')"

section \<open>Metadata round trips\<close>

lemma annotation_names_distinct [simp]:
  "AnnotationUpdateTimestamp \<noteq> AnnotationCreatedBy" "AnnotationUpdateTimestamp \<noteq> AnnotationUpdatedBy"
  "AnnotationCreatedBy \<noteq> AnnotationUpdateTimestamp" "AnnotationCreatedBy \<noteq> AnnotationUpdatedBy"
  "AnnotationUpdatedBy \<noteq> AnnotationUpdateTimestamp" "AnnotationUpdatedBy \<noteq> AnnotationCreatedBy"
  by (simp_all add: AnnotationUpdateTimestamp_def AnnotationCreatedBy_def AnnotationUpdatedBy_def)

lemma set_if_apply: "set_if b k v m x = (if b \<and> x = k then Some v else m x)"
  by (simp add: set_if_def)

text \<open>
  C23. The common metadata set on an object is read back: every field as it was set, the update time
  to the second, except that an empty creator or updater and a zero update time are not written, so
  that the object's earlier value stays.
\<close>

theorem common_metadata_roundtrip:
  assumes "rfc3339_laws F"
  shows "GetCommonMetadata F (SetCommonMetadata F md t) =
    md\<lparr>cm_UpdateTimestamp :=
         (if cm_UpdateTimestamp md = 0 then cm_UpdateTimestamp (GetCommonMetadata F t)
          else whole_seconds (cm_UpdateTimestamp md)),
       cm_CreatedBy := (if cm_CreatedBy md = [] then cm_CreatedBy (GetCommonMetadata F t) else cm_CreatedBy md),
       cm_UpdatedBy := (if cm_UpdatedBy md = [] then cm_UpdatedBy (GetCommonMetadata F t) else cm_UpdatedBy md)\<rparr>"
  using assms
  by (cases "ob_Annotations t")
    (simp_all add: GetCommonMetadata_def SetCommonMetadata_def Let_def set_if_apply lookup_or_empty_def rfc3339_laws_def)

text \<open>A format for the witness: the seconds in decimal, with a sign.\<close>

definition decimal_seconds :: time_format where
  "decimal_seconds = \<lparr>tf_Format = (\<lambda>t. (if t < 0 then ''-'' else ''+'') @ show_nat (nat \<bar>t div 1000000000\<bar>)),
     tf_Parse = (\<lambda>s. case s of [] \<Rightarrow> None
       | c # cs \<Rightarrow> if c = CHR ''-'' then map_option (\<lambda>n. - int n * 1000000000) (parse_nat cs)
                  else map_option (\<lambda>n. int n * 1000000000) (parse_nat cs))\<rparr>"

lemma decimal_seconds_laws: "rfc3339_laws decimal_seconds"
proof -
  have "- (- (t div 1000000000) * 1000000000) = t - t mod 1000000000" "t div 1000000000 * 1000000000 = t - t mod 1000000000"
    for t :: int
    by (simp_all add: minus_mod_eq_div_mult)
  then show ?thesis
    by (auto simp: rfc3339_laws_def decimal_seconds_def whole_seconds_def abs_if neg_imp_zdiv_neg_iff pos_imp_zdiv_neg_iff)
qed

definition sample_typed :: "nat TypedSpecObject" where
  "sample_typed = \<lparr>ob_APIVersion = ''g/v1'', ob_Kind = ''Foo'', ob_Name = ''a'', ob_Namespace = ''ns'', ob_UID = [],
     ob_ResourceVersion = ''1'', ob_Generation = 1, ob_Labels = None, ob_CreationTimestamp = 0,
     ob_DeletionTimestamp = None, ob_Finalizers = None, ob_Annotations = Some [AnnotationCreatedBy \<mapsto> ''me''],
     ob_Other = [], tso_Spec = 0\<rparr>"

theorem common_metadata_roundtrip_witness:
  "let md = (GetCommonMetadata decimal_seconds sample_typed)\<lparr>cm_UpdateTimestamp := 7500000000, cm_CreatedBy := []\<rparr>;
       md' = GetCommonMetadata decimal_seconds (SetCommonMetadata decimal_seconds md sample_typed)
   in cm_UpdateTimestamp md' = 7000000000 \<and> cm_CreatedBy md' = ''me''"
  unfolding Let_def common_metadata_roundtrip [OF decimal_seconds_laws]
  by (simp add: whole_seconds_def GetCommonMetadata_def sample_typed_def lookup_or_empty_def)

section \<open>Subresources\<close>

lemma find_set_field:
  "set_field key ty v fs = Returned fs' \<Longrightarrow>
     map_option cf_value (find (\<lambda>f. getFieldName f = k) fs') =
     (if k = key then Some v else map_option cf_value (find (\<lambda>f. getFieldName f = k) fs))"
proof (induction fs arbitrary: fs')
  case (Cons f fs)
  show ?case
  proof (cases "getFieldName f = key")
    case True
    with Cons.prems have "fs' = f\<lparr>cf_value := v\<rparr> # fs" by (auto split: if_splits)
    moreover have "getFieldName (f\<lparr>cf_value := v\<rparr>) = getFieldName f"
      by (simp add: getFieldName_def split: option.split)
    ultimately show ?thesis using True by simp
  next
    case False
    with Cons.prems obtain fs1 where fs1: "set_field key ty v fs = Returned fs1" "fs' = f # fs1"
      by (auto split: outcome.splits)
    from Cons.IH [OF fs1(1)] False show ?thesis by (cases "k = key") (auto simp: fs1(2))
  qed
qed simp

text \<open>
  Setting a subresource of a \<open>TypedObject\<close>, when it returns without an error, makes exactly that
  subresource read as the value set, in a struct of fields as in a map.
\<close>

lemma subresource_roundtrip:
  assumes "catalog_SetSubresource assignable made key ty v c = Returned c'"
  shows "catalog_GetSubresource c' k = (if k = key then Some v else catalog_GetSubresource c k)"
proof (cases c)
  case (StructCatalog fs)
  with assms obtain fs' where "set_field key ty v fs = Returned fs'" "c' = StructCatalog fs'"
    by (auto simp: catalog_SetSubresource_def split: outcome.splits)
  with StructCatalog find_set_field [of key ty v fs fs' k] show ?thesis by (simp add: catalog_GetSubresource_def)
next
  case (MapCatalog kt et m)
  with assms show ?thesis
    by (auto simp: catalog_SetSubresource_def catalog_GetSubresource_def update_conv' split: if_splits option.splits)
qed (use assms in \<open>simp_all add: catalog_SetSubresource_def\<close>)

lemma subresource_roundtrip_witness:
  "let c = StructCatalog [\<lparr>cf_Name = ''Status'', cf_json = Some [''status''], cf_type = ''int'', cf_CanSet = True, cf_value = 1\<rparr>,
                          \<lparr>cf_Name = ''Scale'', cf_json = None, cf_type = ''int'', cf_CanSet = True, cf_value = 2 :: nat\<rparr>]
   in \<exists>c'. catalog_SetSubresource (=) True ''status'' ''int'' 7 c = Returned c' \<and>
        catalog_GetSubresource c' ''status'' = Some 7 \<and> catalog_GetSubresource c' ''Scale'' = Some 2"
proof -
  let ?c = "StructCatalog [\<lparr>cf_Name = ''Status'', cf_json = Some [''status''], cf_type = ''int'', cf_CanSet = True, cf_value = 1\<rparr>,
    \<lparr>cf_Name = ''Scale'', cf_json = None, cf_type = ''int'', cf_CanSet = True, cf_value = 2 :: nat\<rparr>]"
  obtain c' where set: "catalog_SetSubresource (=) True ''status'' ''int'' 7 ?c = Returned c'"
    by (simp add: catalog_SetSubresource_def getFieldName_def)
  from subresource_roundtrip [OF set, of "''status''"] subresource_roundtrip [OF set, of "''Scale''"] set
  show ?thesis by (simp add: catalog_GetSubresource_def getFieldName_def)
qed

text \<open>A catalog that is a nil map cannot be set: where no error is returned there is a panic.\<close>

lemma nil_catalog_panics:
  "assignable ''string'' kt \<Longrightarrow> assignable ty et \<Longrightarrow>
     catalog_SetSubresource assignable True key ty v (MapCatalog kt et None) = Panicked ''assignment to entry in nil map''"
  by (simp add: catalog_SetSubresource_def)

text \<open>
  A copy of a \<open>TypedObject\<close> does not depend on its subresources: objects that differ in nothing
  else have the same copy, since the spec is read into the copy's subresources.
\<close>

lemma typed_Copy_forgets_subresources:
  "typed_Copy C sub_zero sub_read (t\<lparr>to_Subresources := a\<rparr>) = typed_Copy C sub_zero sub_read (t\<lparr>to_Subresources := b\<rparr>)"
  by (simp add: typed_Copy_def)

text \<open>
  \<open>MarshalJSON\<close> panics when the first field has a tag with a name only, and for every map catalog; a
  field marked \<^verbatim>\<open>omitempty\<close> is never written.
\<close>

lemma typed_MarshalJSON_panics:
  "to_Subresources t = MapCatalog kt et m \<Longrightarrow> \<exists>msg. typed_MarshalJSON es em ep enc t = Panicked msg"
  "to_Subresources t = StructCatalog (f # fs) \<Longrightarrow> cf_json f = Some [n] \<Longrightarrow> n \<noteq> [] \<Longrightarrow>
     \<exists>msg. typed_MarshalJSON es em ep enc t = Panicked msg"
  by (simp_all add: typed_MarshalJSON_def)

lemma omitempty_never_written:
  "\<forall>f \<in> set fs. \<exists>n rest. cf_json f = Some (n # ''omitempty'' # rest) \<Longrightarrow> marshal_fields enc fs m = Returned m"
proof (induction fs arbitrary: m)
  case (Cons f fs)
  then obtain n rest where "cf_json f = Some (n # ''omitempty'' # rest)" by auto
  with Cons show ?case by (simp add: Let_def)
qed simp

section \<open>JSON round trip\<close>

text \<open>Strings, metadata (without the API version and the kind, which it does not hold) and specs read back as written.\<close>

definition codec_ok :: "'j json_codec \<Rightarrow> bool" where
  "codec_ok C \<longleftrightarrow>
     (\<forall>s. jc_dec_string C (Some (jc_string C s)) = Inr s) \<and>
     (\<forall>b. \<exists>b'. jc_dec_meta C (Some (jc_meta C b)) = Inr b' \<and>
        (\<forall>av k. b'\<lparr>ob_APIVersion := av, ob_Kind := k\<rparr> = b\<lparr>ob_APIVersion := av, ob_Kind := k\<rparr>)) \<and>
     (\<forall>sp. jc_dec_spec C (jc_spec C sp) = Inr sp)"

text \<open>Subresources as a Go map holds them: distinct names, none of them a member of its own.\<close>

definition subresources_ok :: "'j UntypedObject \<Rightarrow> bool" where
  "subresources_ok u \<longleftrightarrow> un_Subresources u \<noteq> Some [] \<and> distinct (map fst (slice (un_Subresources u))) \<and>
     list_all (\<lambda>(k, v). k \<notin> set reserved_members) (slice (un_Subresources u))"

lemma update_fresh: "k \<notin> fst ` set m \<Longrightarrow> AList.update k v m = m @ [(k, v)]"
  by (induction m) auto

lemma fold_update_fresh:
  "distinct (map fst xs) \<Longrightarrow> list_all (\<lambda>(k, v). k \<notin> fst ` set m) xs \<Longrightarrow>
     fold (\<lambda>(k, v). AList.update k v) xs m = m @ xs"
proof (induction xs arbitrary: m)
  case (Cons x xs)
  obtain k v where x: "x = (k, v)" by fastforce
  have "AList.update k v m = m @ [(k, v)]"
    using Cons.prems x by (intro update_fresh) (auto simp: list_all_iff)
  moreover have "list_all (\<lambda>(k', v'). k' \<notin> fst ` set (m @ [(k, v)])) xs"
    using Cons.prems x by (force simp: list_all_iff)
  ultimately show ?case using Cons.IH [of "m @ [(k, v)]"] Cons.prems x by simp
qed simp

lemma untyped_MarshalJSON_members:
  assumes "subresources_ok u"
  shows "untyped_MarshalJSON C u =
    [(''kind'', jc_string C (ob_Kind u)), (''apiVersion'', jc_string C (ob_APIVersion u)),
     (''metadata'', jc_meta C (object_base.truncate u)), (''spec'', jc_spec C (un_Spec u))] @ slice (un_Subresources u)"
  unfolding untyped_MarshalJSON_def
  using assms by (intro fold_update_fresh) (auto simp: subresources_ok_def reserved_members_def list_all_iff)


datatype sample_json = JString string | JMeta object_base | JSpec "(string \<times> sample_json) list option"

definition sample_codec :: "sample_json json_codec" where
  "sample_codec = \<lparr>jc_string = JString, jc_meta = JMeta, jc_spec = JSpec,
     jc_dec_string = (\<lambda>j. case j of Some (JString s) \<Rightarrow> Inr s | _ \<Rightarrow> Inl (GoErr ''not a string'')),
     jc_dec_meta = (\<lambda>j. case j of Some (JMeta b) \<Rightarrow> Inr b | _ \<Rightarrow> Inl (GoErr ''not an object'')),
     jc_dec_spec = (\<lambda>j. case j of JSpec s \<Rightarrow> Inr s | _ \<Rightarrow> Inl (GoErr ''not an object''))\<rparr>"

definition sample_untyped :: "sample_json UntypedObject" where
  "sample_untyped = object_base.extend (object_base.truncate sample_typed)
     (UntypedObject.fields (Some [(''size'', JString ''3'')]) (Some [(''status'', JString ''ok'')]))"


end
