(* ===== verification/Dynamic_Patcher.thy ===== *)
theory Dynamic_Patcher
  imports Finalizers K8s_Translation Typed_Objects
begin

text \<open>
  \<^verbatim>\<open>k8s/dynamic.go\<close>, the client that patches objects at whatever version the API server prefers
  for their kind, with its cache of preferred versions; \<^verbatim>\<open>k8s/errors.go\<close>; and \<open>watchPatcher\<close> of
  \<^verbatim>\<open>simple/app.go\<close>, through which the finalizer updater uses it. The discovery client, the dynamic
  client and the formatting of group kinds are third-party code and parameters. Calls of the cache
  are run one after the other, as the single flight group and the lock make them.
\<close>

section \<open>Kubernetes errors\<close>

text \<open>
  An error of the API server as a \<^verbatim>\<open>StatusError\<close> carries a code; \<open>as_status\<close> is \<^verbatim>\<open>errors.As\<close> for
  that type. A response body is a status object when it decodes to one of version \<^verbatim>\<open>v1\<close> and kind
  \<^verbatim>\<open>Status\<close>; \<open>parse_status\<close> decodes it.
\<close>

definition StatusAPIVersion :: string where
  "StatusAPIVersion = ''v1''"

definition StatusKind :: string where
  "StatusKind = ''Status''"

text \<open>The constructor takes the message of the error it is given, so a nil error panics.\<close>

definition NewServerResponseError :: "go_error option \<Rightarrow> int \<Rightarrow> go_error outcome" where
  "NewServerResponseError err statusCode = (case err of
     None \<Rightarrow> Panicked ''nil pointer dereference''
   | Some e \<Rightarrow> Returned (ServerResponseError e statusCode))"

definition parse_rest ::
  "(go_error \<Rightarrow> (go_error \<times> int) option) \<Rightarrow> int \<Rightarrow> go_error option \<Rightarrow> go_error option outcome" where
  "parse_rest as_status statusCode err =
     (case err \<bind> as_status of
        Some (statusErr, code) \<Rightarrow> Returned (Some statusErr)
      | None \<Rightarrow>
          if statusCode = 0 then map_outcome Some (NewServerResponseError err 503)
          else if 300 \<le> statusCode then map_outcome Some (NewServerResponseError err statusCode)
          else Returned err)"

definition ParseKubernetesError ::
  "(string \<Rightarrow> (string \<times> string \<times> go_error) option) \<Rightarrow> (go_error \<Rightarrow> (go_error \<times> int) option) \<Rightarrow>
   string \<Rightarrow> int \<Rightarrow> go_error option \<Rightarrow> go_error option outcome" where
  "ParseKubernetesError parse_status as_status responseBytes statusCode err =
     (case (if responseBytes \<noteq> [] then parse_status responseBytes else None) of
        Some (apiVersion, kind, statusErr) \<Rightarrow>
          if apiVersion = StatusAPIVersion \<and> kind = StatusKind then Returned (Some statusErr)
          else parse_rest as_status statusCode err
      | None \<Rightarrow> parse_rest as_status statusCode err)"

text \<open>\<open>as_api_status\<close> is \<^verbatim>\<open>errors.As\<close> for the interface \<^verbatim>\<open>apierrors.APIStatus\<close>.\<close>

definition StatusFromError ::
  "(go_error \<Rightarrow> go_error option) \<Rightarrow> go_error option \<Rightarrow> go_error option \<times> bool" where
  "StatusFromError as_api_status err = (case err of
     None \<Rightarrow> (None, False)
   | Some e \<Rightarrow> (case as_api_status e of
       Some st \<Rightarrow> (Some st, True)
     | None \<Rightarrow> (Some (ServerResponseError e 500), False)))"

section \<open>The patcher\<close>

record APIResource =
  apr_Name :: string
  apr_Namespaced :: bool
  apr_Group :: string
  apr_Version :: string
  apr_Kind :: string

record APIResourceList =
  al_GroupVersion :: string
  al_APIResources :: "APIResource list"

record gvr =
  gvr_Group :: string
  gvr_Version :: string
  gvr_Resource :: string

text \<open>
  The clock and the third-party clients: discovery, the parsing of group versions, the string of a group kind,
  the status of an error, and the dynamic client's requests at a resource, with a namespace or
  without. The response is the object as \<open>UnstructuredWrapper\<close> presents it.
\<close>

record 'u kube =
  kb_now :: "'u \<Rightarrow> time"
  kb_discover :: "'u \<Rightarrow> (APIResourceList list \<times> go_error option) \<times> 'u"
  kb_parseGroupVersion :: "string \<Rightarrow> go_error + string \<times> string"
  kb_groupKind :: "string \<times> string \<Rightarrow> string"
  kb_status :: "go_error \<Rightarrow> (go_error \<times> int) option"
  kb_patch :: "gvr \<Rightarrow> string option \<Rightarrow> string \<Rightarrow> string \<Rightarrow> string list \<Rightarrow> string list \<Rightarrow> 'u \<Rightarrow> (go_error + object) \<times> 'u"
  kb_get :: "gvr \<Rightarrow> string option \<Rightarrow> string \<Rightarrow> 'u \<Rightarrow> (go_error + object) \<times> 'u"
  kb_marshal :: "patch_operation list \<Rightarrow> go_error + string"
  kb_metaFields :: "string list"

record DynamicPatcher =
  dp_preferred :: "(string \<Rightarrow> APIResource option) option"
  dp_lastUpdate :: time
  dp_updateInterval :: duration

text \<open>The two clients' constructors can fail; times count from the zero \<^verbatim>\<open>time.Time\<close>.\<close>

definition NewDynamicPatcher ::
  "go_error option \<Rightarrow> go_error option \<Rightarrow> duration \<Rightarrow> go_error + DynamicPatcher" where
  "NewDynamicPatcher clientErr discoveryErr cacheUpdateInterval =
     (case clientErr of
        Some e \<Rightarrow> Inl (Wrapped ''error creating dynamic client'' e)
      | None \<Rightarrow> (case discoveryErr of
          Some e \<Rightarrow> Inl (Wrapped ''error creating discovery client'' e)
        | None \<Rightarrow> Inr \<lparr>dp_preferred = Some (\<lambda>_. None), dp_lastUpdate = 0,
                        dp_updateInterval = cacheUpdateInterval\<rparr>))"

section \<open>Refreshing the cache\<close>

definition complete_resource :: "string \<times> string \<Rightarrow> APIResource \<Rightarrow> APIResource" where
  "complete_resource gv res =
     (let res' = (if apr_Version res = [] then res\<lparr>apr_Version := snd gv\<rparr> else res)
      in if apr_Group res' = [] then res'\<lparr>apr_Group := fst gv\<rparr> else res')"

definition put_resources ::
  "'u kube \<Rightarrow> string \<times> string \<Rightarrow> APIResource list \<Rightarrow> (string \<Rightarrow> APIResource option) \<Rightarrow> (string \<Rightarrow> APIResource option)"
where
  "put_resources K gv rs m =
     fold (\<lambda>res m. m(kb_groupKind K (fst gv, apr_Kind res) \<mapsto> complete_resource gv res)) rs m"

text \<open>
  The loop over the lists: what the map is afterwards, and how the loop ended. A group version that
  does not parse ends it with an error, writing to a nil map with a panic.
\<close>

fun put_lists ::
  "'u kube \<Rightarrow> APIResourceList list \<Rightarrow> (string \<Rightarrow> APIResource option) option \<Rightarrow>
   (string \<Rightarrow> APIResource option) option \<times> go_error option outcome" where
  "put_lists K [] m = (m, Returned None)"
| "put_lists K (pref # ps) m = (case kb_parseGroupVersion K (al_GroupVersion pref) of
     Inl e \<Rightarrow> (m, Returned (Some e))
   | Inr gv \<Rightarrow> (case m of
       Some m' \<Rightarrow> put_lists K ps (Some (put_resources K gv (al_APIResources pref) m'))
     | None \<Rightarrow> if al_APIResources pref = [] then put_lists K ps None
               else (None, Panicked ''assignment to entry in nil map'')))"

definition discovery_error :: "'u kube \<Rightarrow> APIResourceList list \<Rightarrow> go_error option \<Rightarrow> go_error option" where
  "discovery_error K preferred err = (case err of
     None \<Rightarrow> None
   | Some e \<Rightarrow>
       if preferred = [] then
         (case kb_status K e of
            Some (st, code) \<Rightarrow> Some st
          | None \<Rightarrow> Some (Wrapped ''error getting preferred resources from discovery client'' e))
       else None)"

text \<open>The state of a call: the patcher and the world outside.\<close>

definition updatePreferred ::
  "'u kube \<Rightarrow> DynamicPatcher \<times> 'u \<Rightarrow> go_error option outcome \<times> DynamicPatcher \<times> 'u" where
  "updatePreferred K = (\<lambda>(d, u).
     let ((preferred, err), u') = kb_discover K u
     in case discovery_error K preferred err of
          Some e \<Rightarrow> (Returned (Some e), d, u')
        | None \<Rightarrow>
            (let (m, r) = put_lists K preferred (dp_preferred d);
                 d' = d\<lparr>dp_preferred := m\<rparr>
             in (r, if r = Returned None then d'\<lparr>dp_lastUpdate := kb_now K u'\<rparr> else d', u')))"

definition ForceRefresh ::
  "'u kube \<Rightarrow> DynamicPatcher \<times> 'u \<Rightarrow> go_error option outcome \<times> DynamicPatcher \<times> 'u" where
  "ForceRefresh K = updatePreferred K"

definition needs_update :: "time \<Rightarrow> DynamicPatcher \<Rightarrow> bool" where
  "needs_update t d \<longleftrightarrow> dp_preferred d = None \<or>
     (0 \<le> dp_updateInterval d \<and> dp_lastUpdate d < t - dp_updateInterval d)"

definition not_found_error :: "'u kube \<Rightarrow> string \<times> string \<Rightarrow> go_error" where
  "not_found_error K kind = GoErr (''preferred resource not found for kind '' @ quoted (kb_groupKind K kind))"

definition getPreferred ::
  "'u kube \<Rightarrow> string \<times> string \<Rightarrow> DynamicPatcher \<times> 'u \<Rightarrow>
   APIResource outcome \<times> DynamicPatcher \<times> 'u" where
  "getPreferred K kind = (\<lambda>(d, u).
     case (if needs_update (kb_now K u) d then updatePreferred K (d, u) else (Returned None, d, u)) of
       (Panicked m, st) \<Rightarrow> (Panicked m, st)
     | (Failed e, st) \<Rightarrow> (Failed e, st)
     | (Returned (Some e), st) \<Rightarrow> (Failed e, st)
     | (Returned None, d', u') \<Rightarrow>
         (case dp_preferred d' \<bind> (\<lambda>m. m (kb_groupKind K kind)) of
            Some res \<Rightarrow> (Returned res, d', u')
          | None \<Rightarrow> (Failed (not_found_error K kind), d', u')))"

section \<open>Requests\<close>

record PatchOptions =
  pao_Subresource :: string
  pao_DryRun :: bool

definition parseError :: "'u kube \<Rightarrow> go_error \<Rightarrow> go_error" where
  "parseError K err = (case kb_status K err of
     Some (statusErr, code) \<Rightarrow> ServerResponseError statusErr code
   | None \<Rightarrow> err)"

definition resource_of :: "APIResource \<Rightarrow> gvr" where
  "resource_of preferred =
     \<lparr>gvr_Group = apr_Group preferred, gvr_Version = apr_Version preferred, gvr_Resource = apr_Name preferred\<rparr>"

definition answer :: "'u kube \<Rightarrow> DynamicPatcher \<Rightarrow> (go_error + object) \<times> 'u \<Rightarrow> object outcome \<times> DynamicPatcher \<times> 'u" where
  "answer K d r = (case fst r of Inl e \<Rightarrow> Failed (parseError K e) | Inr ob \<Rightarrow> Returned ob, d, snd r)"

definition dynamic_Patch ::
  "'u kube \<Rightarrow> string \<times> string \<Rightarrow> resource_id \<Rightarrow> patch_request \<Rightarrow> PatchOptions \<Rightarrow>
   DynamicPatcher \<times> 'u \<Rightarrow> object outcome \<times> DynamicPatcher \<times> 'u" where
  "dynamic_Patch K groupKind ident patch opts st =
     (case getPreferred K groupKind st of
        (Panicked m, st') \<Rightarrow> (Panicked m, st')
      | (Failed e, st') \<Rightarrow> (Failed e, st')
      | (Returned preferred, d, u) \<Rightarrow>
          (case fst (marshalJSONPatch (kb_marshal K) (kb_metaFields K) patch) of
             Inl e \<Rightarrow> (Failed (Wrapped ''failed to marshal patch'' e), d, u)
           | Inr data \<Rightarrow>
               (let subresources = (if pao_Subresource opts \<noteq> [] then [pao_Subresource opts] else []);
                    dryRun = (if pao_DryRun opts then [''All''] else []);
                    ns = (if apr_Namespaced preferred then Some (id_Namespace ident) else None)
                in answer K d (kb_patch K (resource_of preferred) ns (id_Name ident) data dryRun subresources u))))"

definition dynamic_Get ::
  "'u kube \<Rightarrow> string \<times> string \<Rightarrow> resource_id \<Rightarrow> DynamicPatcher \<times> 'u \<Rightarrow>
   object outcome \<times> DynamicPatcher \<times> 'u" where
  "dynamic_Get K groupKind ident st =
     (case getPreferred K groupKind st of
        (Panicked m, st') \<Rightarrow> (Panicked m, st')
      | (Failed e, st') \<Rightarrow> (Failed e, st')
      | (Returned preferred, d, u) \<Rightarrow>
          (let ns = (if apr_Namespaced preferred then Some (id_Namespace ident) else None)
           in answer K d (kb_get K (resource_of preferred) ns (id_Name ident) u)))"

section \<open>The patcher as the finalizer updater's client\<close>

text \<open>
  \<open>watchPatcher\<close>: the response of the dynamic client is kept only in its common metadata, which is all
  the updater needs. The state outside is the patcher and the world behind the clients. A panic
  leaves the call as an error value that no client returns; a patcher that has its map never gets there.
\<close>

definition copy_common :: "object \<Rightarrow> object \<Rightarrow> object" where
  "copy_common resp into =
     into\<lparr>o_ResourceVersion := o_ResourceVersion resp, o_Generation := o_Generation resp,
          o_DeletionTimestamp := o_DeletionTimestamp resp, o_Finalizers := o_Finalizers resp\<rparr>"

definition panic_error :: "string \<Rightarrow> go_error" where
  "panic_error m = External 0 (''panic: '' @ m)"

definition into_result :: "object \<Rightarrow> object outcome \<Rightarrow> go_error option \<times> object" where
  "into_result into r = (case r of
     Returned ob \<Rightarrow> (None, copy_common ob into)
   | Failed e \<Rightarrow> (Some e, into)
   | Panicked m \<Rightarrow> (Some (panic_error m), into))"

definition watchPatcher :: "'u kube \<Rightarrow> string \<times> string \<Rightarrow> (DynamicPatcher \<times> 'u) PatchClient" where
  "watchPatcher K groupKind =
     \<lparr>PatchInto = (\<lambda>ident req into st.
        let (r, st') = dynamic_Patch K groupKind ident req \<lparr>pao_Subresource = [], pao_DryRun = False\<rparr> st
        in (into_result into r, st')),
      GetInto = (\<lambda>ident into st.
        let (r, st') = dynamic_Get K groupKind ident st in (into_result into r, st'))\<rparr>"

section \<open>What the cache holds\<close>

text \<open>The listing that decides a kind's entry: the last one with its key, in the order of the lists.\<close>

definition listings :: "'u kube \<Rightarrow> APIResourceList \<Rightarrow> (string \<times> APIResource) list" where
  "listings K pref = (case kb_parseGroupVersion K (al_GroupVersion pref) of
     Inl e \<Rightarrow> []
   | Inr gv \<Rightarrow> map (\<lambda>res. (kb_groupKind K (fst gv, apr_Kind res), complete_resource gv res)) (al_APIResources pref))"

definition last_listed :: "'u kube \<Rightarrow> APIResourceList list \<Rightarrow> string \<Rightarrow> APIResource option" where
  "last_listed K ps key = map_of (rev (concat (map (listings K) ps))) key"

lemma put_resources_eq:
  "put_resources K gv rs m =
     m ++ map_of (rev (map (\<lambda>res. (kb_groupKind K (fst gv, apr_Kind res), complete_resource gv res)) rs))"
  unfolding put_resources_def by (induction rs arbitrary: m) auto

lemma put_lists_eq:
  "put_lists K ps (Some m) = (m', Returned None) \<Longrightarrow> m' = Some (m ++ last_listed K ps)"
proof (induction ps arbitrary: m)
  case (Cons p ps)
  obtain gv where gv: "kb_parseGroupVersion K (al_GroupVersion p) = Inr gv"
    and rest: "put_lists K ps (Some (put_resources K gv (al_APIResources p) m)) = (m', Returned None)"
    using Cons.prems by (auto split: sum.splits)
  have "last_listed K (p # ps) = map_of (rev (listings K p)) ++ last_listed K ps"
    by (rule ext) (simp add: last_listed_def map_add_def)
  moreover have "put_resources K gv (al_APIResources p) m = m ++ map_of (rev (listings K p))"
    by (simp add: put_resources_eq listings_def gv)
  ultimately show ?case using Cons.IH [OF rest] by simp
qed (simp add: last_listed_def map_add_def)

lemma put_lists_Some:
  "fst (put_lists K ps (Some m)) \<noteq> None \<and> (\<forall>x. snd (put_lists K ps (Some m)) \<noteq> Panicked x)
   \<and> (\<forall>x. snd (put_lists K ps (Some m)) \<noteq> Failed x)"
  by (induction ps arbitrary: m) (auto split: sum.splits)

section \<open>Answers of the cache\<close>

lemma updatePreferred_ok:
  assumes "dp_preferred d = Some m" "updatePreferred K (d, u) = (Returned None, d', u')"
  shows "\<exists>lists err. kb_discover K u = ((lists, err), u') \<and>
     d' = d\<lparr>dp_preferred := Some (m ++ last_listed K lists), dp_lastUpdate := kb_now K u'\<rparr>"
  using assms put_lists_eq
  by (auto simp: updatePreferred_def Let_def split: prod.splits option.splits if_splits)

lemma updatePreferred_keeps_map:
  assumes "dp_preferred d \<noteq> None" "updatePreferred K (d, u) = (r, d', u')"
  shows "dp_preferred d' \<noteq> None \<and> dp_updateInterval d' = dp_updateInterval d \<and> (\<exists>e. r = Returned e)"
proof -
  obtain m where m: "dp_preferred d = Some m" using assms(1) by auto
  obtain lists err where disc: "kb_discover K u = ((lists, err), u')"
    using assms(2) by (auto simp: updatePreferred_def Let_def split: prod.splits option.splits)
  obtain m' r' where put: "put_lists K lists (Some m) = (m', r')" by fastforce
  then have "m' \<noteq> None" "\<exists>e. r' = Returned e"
    using put_lists_Some [of K lists m] by (auto, cases r', auto)
  with assms(2) m disc put show ?thesis
    by (auto simp: updatePreferred_def Let_def split: option.splits if_splits)
qed

text \<open>A patcher that has its map keeps it, and its calls never panic.\<close>

lemma getPreferred_keeps_map:
  assumes "dp_preferred d \<noteq> None" "getPreferred K kind (d, u) = (r, d', u')"
  shows "dp_preferred d' \<noteq> None \<and> dp_updateInterval d' = dp_updateInterval d \<and> (\<forall>x. r \<noteq> Panicked x)"
proof (cases "needs_update (kb_now K u) d")
  case True
  obtain r1 d1 u1 where up: "updatePreferred K (d, u) = (r1, d1, u1)" by (rule prod_cases3)
  show ?thesis using updatePreferred_keeps_map [OF assms(1) up] assms(2) True up
    by (auto simp: getPreferred_def split: option.splits)
next
  case False
  then show ?thesis using assms by (auto simp: getPreferred_def split: option.splits)
qed

definition clock_law :: "'u kube \<Rightarrow> bool" where
  "clock_law K \<longleftrightarrow> (\<forall>u. kb_now K u \<le> kb_now K (snd (kb_discover K u)))"

text \<open>
  With a refresh interval that is not negative, an answer of the cache rests on a discovery
  no older than the interval, and is the last listing of the kind in it; a kind the discovery does
  not list any more is answered with what earlier ones said.
\<close>

lemma getPreferred_fresh:
  assumes "clock_law K" "dp_preferred d = Some m" "0 \<le> dp_updateInterval d"
    and "getPreferred K kind (d, u) = (Returned res, d', u')"
  shows "kb_now K u - dp_updateInterval d \<le> dp_lastUpdate d' \<and>
     (d' = d \<and> u' = u \<and> m (kb_groupKind K kind) = Some res \<or>
      (\<exists>lists err. kb_discover K u = ((lists, err), u') \<and> dp_lastUpdate d' = kb_now K u' \<and>
         (m ++ last_listed K lists) (kb_groupKind K kind) = Some res))"
proof (cases "needs_update (kb_now K u) d")
  case True
  then obtain d1 u1 where up: "updatePreferred K (d, u) = (Returned None, d1, u1)"
    and res: "d' = d1" "u' = u1" "dp_preferred d1 \<bind> (\<lambda>m. m (kb_groupKind K kind)) = Some res"
    using assms(4) by (auto simp: getPreferred_def split: outcome.splits option.splits prod.splits)
  obtain lists err where disc: "kb_discover K u = ((lists, err), u1)"
    and d1: "d1 = d\<lparr>dp_preferred := Some (m ++ last_listed K lists), dp_lastUpdate := kb_now K u1\<rparr>"
    using updatePreferred_ok [OF assms(2) up] by blast
  have "kb_now K u \<le> kb_now K u1" using assms(1) disc unfolding clock_law_def by (metis snd_conv)
  then show ?thesis using assms(3) disc d1 res by auto
next
  case False
  then show ?thesis
    using assms(2-4) by (auto simp: getPreferred_def needs_update_def split: option.splits)
qed

definition sample_listing :: APIResource where
  "sample_listing = \<lparr>apr_Name = ''foos'', apr_Namespaced = True, apr_Group = [], apr_Version = [], apr_Kind = ''Foo''\<rparr>"

definition sample_kube :: "time kube" where
  "sample_kube = \<lparr>kb_now = id,
     kb_discover = (\<lambda>u. (([\<lparr>al_GroupVersion = ''v2'', al_APIResources = [sample_listing]\<rparr>], None), u + 1)),
     kb_parseGroupVersion = (\<lambda>s. Inr (''g'', s)), kb_groupKind = (\<lambda>(gr, k). k @ ''.'' @ gr),
     kb_status = (\<lambda>_. None),
     kb_patch = (\<lambda>_ _ _ _ _ _ u. (Inl (External 404 ''none''), u)),
     kb_get = (\<lambda>_ _ _ u. (Inl (External 404 ''none''), u)),
     kb_marshal = (\<lambda>ops. Inr (concat (map po_Path ops))), kb_metaFields = [''finalizers'', ''resourceVersion'']\<rparr>"

definition sample_patcher :: DynamicPatcher where
  "sample_patcher = \<lparr>dp_preferred = Some (\<lambda>_. None), dp_lastUpdate = 0, dp_updateInterval = 600\<rparr>"

lemma getPreferred_fresh_witness:
  "let r = getPreferred sample_kube (''g'', ''Foo'') (sample_patcher, 1000)
   in fst r = Returned (sample_listing\<lparr>apr_Version := ''v2'', apr_Group := ''g''\<rparr>) \<and>
      1000 - 600 \<le> dp_lastUpdate (fst (snd r))"
proof -
  obtain d u where run: "getPreferred sample_kube (''g'', ''Foo'') (sample_patcher, 1000) =
      (Returned (sample_listing\<lparr>apr_Version := ''v2'', apr_Group := ''g''\<rparr>), d, u)"
    by (simp add: getPreferred_def needs_update_def updatePreferred_def sample_patcher_def sample_kube_def
        discovery_error_def put_resources_def complete_resource_def sample_listing_def)
  have "clock_law sample_kube" by (simp add: clock_law_def sample_kube_def)
  from getPreferred_fresh [OF this _ _ run, of "\<lambda>_. None"] run show ?thesis
    by (simp add: sample_patcher_def sample_kube_def)
qed

section \<open>Intervals that are not positive\<close>

text \<open>A patcher as \<open>NewDynamicPatcher\<close> makes it, before any refresh.\<close>

lemma negative_interval_never_loads:
  assumes "NewDynamicPatcher None None interval = Inr d" "interval < 0"
  shows "getPreferred K kind (d, u) =
     (Failed (not_found_error K kind), d, u)"
  using assms by (auto simp: NewDynamicPatcher_def getPreferred_def needs_update_def)

lemma zero_interval_refreshes:
  assumes "dp_preferred d = Some m" "dp_updateInterval d = 0"
  shows "needs_update t d \<longleftrightarrow> dp_lastUpdate d < t"
  using assms by (simp add: needs_update_def)

text \<open>
  A patcher with a negative refresh interval, which the documentation offers as the way to refresh
  only on the first request, never asks the server at all: every finalizer the opinionated
  handlers try to add fails with an error, nothing is sent, and the object stays as it was.
\<close>

lemma negative_interval_blocks_finalizers:
  assumes "NewDynamicPatcher None None interval = Inr d" "interval < 0"
    and "w_ext w = (d, u)" "f \<notin> set (finalizers_of (w_objs w p))"
    and "\<not> isConflict (NewFinalizerOperationError
           (not_found_error K kind) (add_request (w_objs w p) f))"
    and "run_state (AddFinalizer isConflict (watchPatcher K kind) p f) w = (r, w')"
  shows "r \<noteq> None \<and> w_objs w' = w_objs w \<and> w_ext w' = w_ext w"
proof -
  let ?e = "not_found_error K kind"
  have "dynamic_Patch K kind ident req opts (d, u) = (Failed ?e, d, u)" for ident req opts
    by (simp add: dynamic_Patch_def negative_interval_never_loads [OF assms(1,2)])
  then have "PatchInto (watchPatcher K kind) ident req into (d, u) = ((Some ?e, into), d, u)" for ident req into
    by (simp add: watchPatcher_def into_result_def)
  then obtain w1 where "run_state (doAddFinalizer (watchPatcher K kind) p f) w =
      (Some (NewFinalizerOperationError ?e (add_request (w_objs w p) f)), w1)"
    and "w_objs w1 = w_objs w" "w_ext w1 = w_ext w"
    using assms(3,4) by (simp add: doAddFinalizer_def send_patch_def patch_into_def Let_def)
  then show ?thesis
    using assms(5,6) by (auto simp: AddFinalizer_def with_conflict_retry_def numeral_3_eq_3)
qed

lemma negative_interval_blocks_finalizers_witness:
  "let d = \<lparr>dp_preferred = Some (\<lambda>_. None), dp_lastUpdate = 0, dp_updateInterval = - 1\<rparr>;
       w = \<lparr>w_objs = (\<lambda>_. sample_object []), w_now = 0, w_trace = [], w_ext = (d, 1000)\<rparr>
   in fst (run_state (AddFinalizer sample_conflict (watchPatcher sample_kube (''g'', ''Foo'')) 0 ''f'') w) \<noteq> None"
proof -
  let ?d = "\<lparr>dp_preferred = Some (\<lambda>_. None), dp_lastUpdate = 0, dp_updateInterval = - 1\<rparr>"
  let ?w = "\<lparr>w_objs = (\<lambda>_. sample_object []), w_now = 0, w_trace = [], w_ext = (?d, 1000)\<rparr> :: (DynamicPatcher \<times> time) world"
  have new: "NewDynamicPatcher None None (- 1) = Inr ?d" by (simp add: NewDynamicPatcher_def)
  show ?thesis
    using negative_interval_blocks_finalizers [OF new, of ?w 1000 "''f''" 0 sample_conflict sample_kube "(''g'', ''Foo'')"
        "fst (run_state (AddFinalizer sample_conflict (watchPatcher sample_kube (''g'', ''Foo'')) 0 ''f'') ?w)"
        "snd (run_state (AddFinalizer sample_conflict (watchPatcher sample_kube (''g'', ''Foo'')) 0 ''f'') ?w)"]
    by (simp add: sample_object_def sample_conflict_def NewFinalizerOperationError_def not_found_error_def slice_def Let_def)
qed

end
