(* ===== verification/Admission.thy ===== *)
theory Admission
  imports Typed_Objects "HOL-Library.Word"
begin

text \<open>
  \<^verbatim>\<open>k8s/webhooks.go\<close>, \<^verbatim>\<open>k8s/admission.go\<close>, the admission part of \<^verbatim>\<open>k8s/translation.go\<close>,
  \<^verbatim>\<open>k8s/conversion.go\<close> and \<^verbatim>\<open>resource/admission.go\<close>: the webhook server with its three HTTP handlers,
  the opinionated admission controllers, and how they compose.

  A request's body is decoded and a response's body encoded by JSON, whose decoders are parameters;
  a response body is kept as the value that was encoded. Controllers act on a state \<open>'s\<close>.
\<close>

section \<open>Admission requests\<close>

datatype AdmissionAction =
    AdmissionActionNone
  | AdmissionActionCreate
  | AdmissionActionUpdate
  | AdmissionActionDelete
  | AdmissionActionConnect

record AdmissionUserInfo =
  ui_Username :: string
  ui_UID :: string
  ui_Groups :: "string list"

record 'o AdmissionRequest =
  ar_Action :: AdmissionAction
  ar_Kind :: string
  ar_Group :: string
  ar_Version :: string
  ar_UserInfo :: AdmissionUserInfo
  ar_Object :: "'o option"
  ar_OldObject :: "'o option"

text \<open>An error with a status code and a reason implements \<^verbatim>\<open>resource.AdmissionError\<close>; others have a message only.\<close>

datatype adm_error = PlainError string | SimpleAdmissionError string int string

definition NewAdmissionError :: "string \<Rightarrow> int \<Rightarrow> string \<Rightarrow> adm_error" where
  "NewAdmissionError err statusCode reason = SimpleAdmissionError err statusCode reason"

fun err_message :: "adm_error \<Rightarrow> string" where
  "err_message (PlainError m) = m"
| "err_message (SimpleAdmissionError m c r) = m"

text \<open>A call that returns, or panics.\<close>

datatype 'a ran = Ran 'a | Panic

text \<open>
  A mutating controller returns a response, nil as \<open>None\<close>, whose updated object may be nil, and an
  error.
\<close>

type_synonym ('o, 's) ValidatingAdmissionController = "'o AdmissionRequest \<Rightarrow> 's \<Rightarrow> adm_error option ran \<times> 's"
type_synonym ('o, 's) MutatingAdmissionController =
  "'o AdmissionRequest \<Rightarrow> 's \<Rightarrow> ('o option option \<times> adm_error option) ran \<times> 's"

definition SimpleValidate :: "('o, 's) ValidatingAdmissionController option \<Rightarrow> ('o, 's) ValidatingAdmissionController" where
  "SimpleValidate ValidateFunc request s = (case ValidateFunc of
     None \<Rightarrow> (Ran None, s) | Some f \<Rightarrow> f request s)"

definition SimpleMutate :: "('o, 's) MutatingAdmissionController option \<Rightarrow> ('o, 's) MutatingAdmissionController" where
  "SimpleMutate MutateFunc request s = (case MutateFunc of
     None \<Rightarrow> (Ran (None, None), s) | Some f \<Rightarrow> f request s)"

section \<open>The opinionated controllers\<close>

definition ErrReasonFieldNotAllowed :: string where
  "ErrReasonFieldNotAllowed = ''field_not_allowed''"

definition makeAnnotationError :: "string \<Rightarrow> adm_error" where
  "makeAnnotationError annotation =
     NewAdmissionError (''cannot set /metadata/annotations/'' @ AnnotationPrefix @ annotation) 400 ErrReasonFieldNotAllowed"

definition opinionated_metadata ::
  "'o AdmissionRequest \<Rightarrow> time \<Rightarrow> CommonMetadata \<Rightarrow> CommonMetadata" where
  "opinionated_metadata request ts cmd =
     (let cmd1 = cmd\<lparr>cm_Labels := Some ((case cm_Labels cmd of None \<Rightarrow> Map.empty | Some m \<Rightarrow> m)
                       (versionLabel \<mapsto> ar_Version request))\<rparr>
      in case ar_Action request of
           AdmissionActionCreate \<Rightarrow>
             cmd1\<lparr>cm_CreatedBy := ui_Username (ar_UserInfo request), cm_UpdateTimestamp := cm_CreationTimestamp cmd1\<rparr>
         | AdmissionActionUpdate \<Rightarrow>
             cmd1\<lparr>cm_UpdatedBy := ui_Username (ar_UserInfo request), cm_UpdateTimestamp := ts\<rparr>
         | _ \<Rightarrow> cmd1)"

text \<open>
  \<open>OpinionatedMutatingAdmissionController.Mutate\<close>: the accessors of a nil object, what is left when
  neither the underlying controller nor the request has one, panic.
\<close>

definition OpinionatedMutate ::
  "time_format \<Rightarrow> ('s \<Rightarrow> time) \<Rightarrow> ('z object_base_scheme, 's) MutatingAdmissionController option \<Rightarrow>
   ('z object_base_scheme, 's) MutatingAdmissionController" where
  "OpinionatedMutate F clock Underlying request s =
     (let (r, s1) = (case Underlying of None \<Rightarrow> (Ran (None, None), s) | Some f \<Rightarrow> f request s)
      in case r of
           Panic \<Rightarrow> (Panic, s1)
         | Ran (resp, Some e) \<Rightarrow> (Ran (resp, Some e), s1)
         | Ran (resp, None) \<Rightarrow>
             (case (case resp of Some (Some ob) \<Rightarrow> Some ob | _ \<Rightarrow> ar_Object request) of
                None \<Rightarrow> (Panic, s1)
              | Some ob \<Rightarrow>
                  (Ran (Some (Some (SetCommonMetadata F
                     (opinionated_metadata request (clock s1) (GetCommonMetadata F ob)) ob)), None), s1)))"

text \<open>
  The checks of \<open>OpinionatedValidatingAdmissionController.Validate\<close>; a nil object panics. Timestamps are instants here; the
  code compares \<^verbatim>\<open>time.Time\<close> values with \<^verbatim>\<open>!=\<close>, which also tells two zones of one instant apart.
\<close>

definition protected_error ::
  "time_format \<Rightarrow> 'z object_base_scheme AdmissionRequest \<Rightarrow> adm_error option ran" where
  "protected_error F request =
     (case ar_Action request of
        AdmissionActionCreate \<Rightarrow>
          (case ar_Object request of
             None \<Rightarrow> Panic
           | Some ob \<Rightarrow>
               (let md = GetCommonMetadata F ob; user = ui_Username (ar_UserInfo request)
                in Ran (if cm_CreatedBy md \<noteq> [] \<and> cm_CreatedBy md \<noteq> user then Some (makeAnnotationError ''createdBy'')
                        else if cm_UpdatedBy md \<noteq> [] \<and> cm_UpdatedBy md \<noteq> user then Some (makeAnnotationError ''updatedBy'')
                        else if cm_UpdateTimestamp md \<noteq> 0 then Some (makeAnnotationError ''updateTimestamp'')
                        else None)))
      | AdmissionActionUpdate \<Rightarrow>
          (case (ar_Object request, ar_OldObject request) of
             (Some ob, Some old) \<Rightarrow>
               (let md = GetCommonMetadata F ob; omd = GetCommonMetadata F old; user = ui_Username (ar_UserInfo request)
                in Ran (if cm_CreatedBy md \<noteq> cm_CreatedBy omd then Some (makeAnnotationError ''createdBy'')
                        else if cm_UpdatedBy md \<noteq> cm_UpdatedBy omd \<and> cm_UpdatedBy md \<noteq> user
                        then Some (makeAnnotationError ''updatedBy'')
                        else if cm_UpdateTimestamp md \<noteq> cm_UpdateTimestamp omd
                        then Some (makeAnnotationError ''updateTimestamp'')
                        else None))
           | _ \<Rightarrow> Panic)
      | _ \<Rightarrow> Ran None)"

definition OpinionatedValidate ::
  "time_format \<Rightarrow> ('z object_base_scheme, 's) ValidatingAdmissionController option \<Rightarrow>
   ('z object_base_scheme, 's) ValidatingAdmissionController" where
  "OpinionatedValidate F Underlying request s =
     (case protected_error F request of
        Panic \<Rightarrow> (Panic, s)
      | Ran (Some e) \<Rightarrow> (Ran (Some e), s)
      | Ran None \<Rightarrow> (case Underlying of None \<Rightarrow> (Ran None, s) | Some f \<Rightarrow> f request s))"

section \<open>The webhook server\<close>

text \<open>A kind as the server uses it: its schema, and reading and writing of its objects as JSON.\<close>

record 'o kind_info =
  ki_schema :: schema
  ki_read :: "string \<Rightarrow> go_error + 'o"
  ki_write :: "'o \<Rightarrow> adm_error + string"

record RawKind =
  rk_Kind :: string
  rk_APIVersion :: string
  rk_Group :: string
  rk_Version :: string
  rk_Raw :: string

type_synonym Converter = "RawKind \<Rightarrow> string \<Rightarrow> go_error + string"

record ('o, 's) WebhookServer =
  ws_DefaultValidating :: "('o, 's) ValidatingAdmissionController option"
  ws_DefaultMutating :: "('o, 's) MutatingAdmissionController option"
  ws_validating :: "string \<rightharpoonup> 'o kind_info \<times> ('o, 's) ValidatingAdmissionController option"
  ws_mutating :: "string \<rightharpoonup> 'o kind_info \<times> ('o, 's) MutatingAdmissionController option"
  ws_converters :: "string \<rightharpoonup> Converter"
  ws_port :: int
  ws_CertPath :: string
  ws_KeyPath :: string

text \<open>\<^verbatim>\<open>metav1.GroupVersionKind\<close>, and its \<^verbatim>\<open>String\<close> method as a parameter \<open>str\<close> where it is used.\<close>

record gvk =
  gvk_Group :: string
  gvk_Version :: string
  gvk_Kind :: string

definition gk :: "string \<Rightarrow> string \<Rightarrow> string" where
  "gk group' kind = kind @ ''.'' @ group'"

definition kind_gvk :: "schema \<Rightarrow> gvk" where
  "kind_gvk sch = \<lparr>gvk_Group = sch_Group sch, gvk_Version = sch_Version sch, gvk_Kind = sch_Kind sch\<rparr>"

definition AddValidatingAdmissionController ::
  "(gvk \<Rightarrow> string) \<Rightarrow> ('o, 's) ValidatingAdmissionController option \<Rightarrow> 'o kind_info \<Rightarrow> ('o, 's) WebhookServer \<Rightarrow>
   ('o, 's) WebhookServer" where
  "AddValidatingAdmissionController str controller kind w =
     w\<lparr>ws_validating := (ws_validating w)(str (kind_gvk (ki_schema kind)) \<mapsto> (kind, controller))\<rparr>"

definition AddMutatingAdmissionController ::
  "(gvk \<Rightarrow> string) \<Rightarrow> ('o, 's) MutatingAdmissionController option \<Rightarrow> 'o kind_info \<Rightarrow> ('o, 's) WebhookServer \<Rightarrow>
   ('o, 's) WebhookServer" where
  "AddMutatingAdmissionController str controller kind w =
     w\<lparr>ws_mutating := (ws_mutating w)(str (kind_gvk (ki_schema kind)) \<mapsto> (kind, controller))\<rparr>"

definition AddConverter :: "Converter \<Rightarrow> string \<times> string \<Rightarrow> ('o, 's) WebhookServer \<Rightarrow> ('o, 's) WebhookServer" where
  "AddConverter converter groupKind w =
     w\<lparr>ws_converters := (ws_converters w)(gk (fst groupKind) (snd groupKind) \<mapsto> converter)\<rparr>"

text \<open>The maps of the configuration, in the order the ranges visit them.\<close>

record ('o, 's) WebhookServerConfig =
  wc_Port :: int
  wc_CertPath :: string
  wc_KeyPath :: string
  wc_Validating :: "('o kind_info \<times> ('o, 's) ValidatingAdmissionController option) list"
  wc_Mutating :: "('o kind_info \<times> ('o, 's) MutatingAdmissionController option) list"
  wc_Converters :: "((string \<times> string) \<times> Converter) list"
  wc_DefaultValidating :: "('o, 's) ValidatingAdmissionController option"
  wc_DefaultMutating :: "('o, 's) MutatingAdmissionController option"

definition NewWebhookServer ::
  "(gvk \<Rightarrow> string) \<Rightarrow> ('o, 's) WebhookServerConfig \<Rightarrow> go_error + ('o, 's) WebhookServer" where
  "NewWebhookServer str config =
     (if wc_Port config < 1 \<or> 65536 < wc_Port config
      then Inl (GoErr ''config.Port must be a valid port number (between 1 and 65536)'')
      else if wc_CertPath config = [] then Inl (GoErr ''config.TLSConfig.CertPath is required'')
      else if wc_KeyPath config = [] then Inl (GoErr ''config.TLSConfig.KeyPath is required'')
      else
        (let ws = \<lparr>ws_DefaultValidating = wc_DefaultValidating config, ws_DefaultMutating = wc_DefaultMutating config,
                   ws_validating = Map.empty, ws_mutating = Map.empty, ws_converters = Map.empty,
                   ws_port = wc_Port config, ws_CertPath = wc_CertPath config, ws_KeyPath = wc_KeyPath config\<rparr>;
             ws1 = fold (\<lambda>(k, c). AddValidatingAdmissionController str c k) (wc_Validating config) ws;
             ws2 = fold (\<lambda>(k, c). AddMutatingAdmissionController str c k) (wc_Mutating config) ws1
         in Inr (fold (\<lambda>(g, c). AddConverter c g) (wc_Converters config) ws2)))"

section \<open>Reviews\<close>

text \<open>The Kubernetes request: the request kind is a pointer, as is the request of a review.\<close>

record k8s_request =
  kr_UID :: string
  kr_RequestKind :: "gvk option"
  kr_Kind :: gvk
  kr_Operation :: string
  kr_Object :: string
  kr_OldObject :: string
  kr_UserInfo :: AdmissionUserInfo

record AdmissionReview =
  rev_TypeMeta :: "string \<times> string"
  rev_Request :: "k8s_request option"

record status =
  stat_Status :: string
  stat_Message :: string
  stat_Code :: int
  stat_Reason :: string

record AdmissionResponse =
  resp_UID :: string
  resp_Allowed :: bool
  resp_Result :: "status option"
  resp_Patch :: "string option"

text \<open>\<open>translateKubernetesAdmissionRequest\<close>; an empty raw object stays nil.\<close>

definition read_raw :: "'o kind_info \<Rightarrow> string \<Rightarrow> go_error + 'o option" where
  "read_raw sch raw = (if raw = [] then Inr None
     else (case ki_read sch raw of Inl e \<Rightarrow> Inl e | Inr ob \<Rightarrow> Inr (Some ob)))"

definition admission_action :: "string \<Rightarrow> AdmissionAction" where
  "admission_action op =
     (if op = ''CREATE'' then AdmissionActionCreate else if op = ''UPDATE'' then AdmissionActionUpdate
      else if op = ''DELETE'' then AdmissionActionDelete else if op = ''CONNECT'' then AdmissionActionConnect
      else AdmissionActionNone)"

definition translateKubernetesAdmissionRequest ::
  "k8s_request \<Rightarrow> 'o kind_info \<Rightarrow> go_error + 'o AdmissionRequest" where
  "translateKubernetesAdmissionRequest req sch =
     (case read_raw sch (kr_Object req) of
        Inl e \<Rightarrow> Inl e
      | Inr obj \<Rightarrow> (case read_raw sch (kr_OldObject req) of
          Inl e \<Rightarrow> Inl e
        | Inr old \<Rightarrow> Inr
            \<lparr>ar_Action = admission_action (kr_Operation req), ar_Kind = gvk_Kind (kr_Kind req),
             ar_Group = gvk_Group (kr_Kind req), ar_Version = gvk_Version (kr_Kind req),
             ar_UserInfo = kr_UserInfo req, ar_Object = obj, ar_OldObject = old\<rparr>))"

text \<open>The status code is converted to a 32-bit integer.\<close>

definition addAdmissionError :: "AdmissionResponse \<Rightarrow> adm_error option \<Rightarrow> AdmissionResponse" where
  "addAdmissionError resp err = (case err of
     None \<Rightarrow> resp
   | Some e \<Rightarrow> resp\<lparr>resp_Allowed := False, resp_Result := Some (case e of
       PlainError m \<Rightarrow> \<lparr>stat_Status = ''Failure'', stat_Message = m, stat_Code = 0, stat_Reason = []\<rparr>
     | SimpleAdmissionError m code reason \<Rightarrow>
         \<lparr>stat_Status = ''Failure'', stat_Message = m, stat_Code = sint (word_of_int code :: 32 word),
          stat_Reason = reason\<rparr>)\<rparr>)"

section \<open>HTTP handlers\<close>

record http_request =
  hq_Method :: string
  hq_Body :: "go_error + string"

datatype http_body =
    NoBody
  | TextBody string
  | ReviewBody "string \<times> string" AdmissionResponse

record http_response =
  hp_Code :: nat
  hp_Body :: http_body

definition status_only :: "nat \<Rightarrow> http_response" where
  "status_only code = \<lparr>hp_Code = code, hp_Body = NoBody\<rparr>"

definition no_controller :: "string \<Rightarrow> gvk \<Rightarrow> http_response" where
  "no_controller what kind = \<lparr>hp_Code = 500, hp_Body = TextBody (''no '' @ what @ '' admission controller defined for group '' @
     gvk_Group kind @ '' and kind '' @ gvk_Kind kind)\<rparr>"

text \<open>
  What the handlers share. \<open>ad_unmarshal\<close> decodes a review, \<open>ad_default\<close> makes the kind for a default
  controller, \<open>ad_marshal_error\<close> is an error of encoding the answer, \<open>ad_patch\<close> creates the encoded
  JSON patch between two documents.
\<close>

record 'o admission_env =
  ad_str :: "gvk \<Rightarrow> string"
  ad_unmarshal :: "string \<Rightarrow> go_error + AdmissionReview"
  ad_default :: "gvk \<Rightarrow> 'o kind_info"
  ad_marshal_error :: "AdmissionResponse \<Rightarrow> string option"
  ad_patch :: "string \<Rightarrow> string \<Rightarrow> adm_error + string"

definition write_review :: "'o admission_env \<Rightarrow> string \<times> string \<Rightarrow> AdmissionResponse \<Rightarrow> http_response" where
  "write_review E tm resp = (case ad_marshal_error E resp of
     Some m \<Rightarrow> \<lparr>hp_Code = 500, hp_Body = TextBody m\<rparr>
   | None \<Rightarrow> \<lparr>hp_Code = 200, hp_Body = ReviewBody tm resp\<rparr>)"

text \<open>The controller registered for the kind, else the default one with a generic kind.\<close>

definition find_controller ::
  "'o admission_env \<Rightarrow> (string \<rightharpoonup> 'o kind_info \<times> 'c option) \<Rightarrow> 'c option \<Rightarrow> gvk \<Rightarrow> ('o kind_info \<times> 'c) option" where
  "find_controller E registered fallback kind =
     (case registered (ad_str E kind) of
        Some (sch, c) \<Rightarrow> map_option (Pair sch) c
      | None \<Rightarrow> map_option (Pair (ad_default E kind)) fallback)"

text \<open>The steps before the controller runs: an HTTP answer, or the review, the kind, the controller and the request.\<close>

definition admit_prepare ::
  "'o admission_env \<Rightarrow> string \<Rightarrow> (string \<rightharpoonup> 'o kind_info \<times> 'c option) \<Rightarrow> 'c option \<Rightarrow> http_request \<Rightarrow>
   (http_response + AdmissionReview \<times> k8s_request \<times> 'o kind_info \<times> 'c \<times> 'o AdmissionRequest) ran" where
  "admit_prepare E what registered fallback req =
     (if hq_Method req \<noteq> ''POST'' then Ran (Inl (status_only 405))
      else (case hq_Body req of
        Inl e \<Rightarrow> Ran (Inl (status_only 400))
      | Inr body \<Rightarrow> (case ad_unmarshal E body of
          Inl e \<Rightarrow> Ran (Inl (status_only 400))
        | Inr admRev \<Rightarrow> (case rev_Request admRev of
            None \<Rightarrow> Panic
          | Some kreq \<Rightarrow> (case kr_RequestKind kreq of
              None \<Rightarrow> Panic
            | Some kind \<Rightarrow> (case find_controller E registered fallback kind of
                None \<Rightarrow> Ran (Inl (no_controller what kind))
              | Some (sch, c) \<Rightarrow> (case translateKubernetesAdmissionRequest kreq sch of
                  Inl e \<Rightarrow> Ran (Inl (status_only 400))
                | Inr admReq \<Rightarrow> Ran (Inr (admRev, kreq, sch, c, admReq)))))))))"

definition HandleValidateHTTP ::
  "'o admission_env \<Rightarrow> ('o, 's) WebhookServer \<Rightarrow> http_request \<Rightarrow> 's \<Rightarrow> http_response ran \<times> 's" where
  "HandleValidateHTTP E w req s =
     (case admit_prepare E ''validating'' (ws_validating w) (ws_DefaultValidating w) req of
        Panic \<Rightarrow> (Panic, s)
      | Ran (Inl r) \<Rightarrow> (Ran r, s)
      | Ran (Inr (admRev, kreq, sch, controller, admReq)) \<Rightarrow>
          (case controller admReq s of
             (Panic, s1) \<Rightarrow> (Panic, s1)
           | (Ran err, s1) \<Rightarrow>
               (Ran (write_review E (rev_TypeMeta admRev)
                  (addAdmissionError \<lparr>resp_UID = kr_UID kreq, resp_Allowed = True, resp_Result = None, resp_Patch = None\<rparr> err)),
                s1)))"

definition generatePatch ::
  "'o admission_env \<Rightarrow> k8s_request \<Rightarrow> 'o \<Rightarrow> 'o kind_info \<Rightarrow> adm_error + string" where
  "generatePatch E kreq alteredObject sch = (case ki_write sch alteredObject of
     Inl e \<Rightarrow> Inl e
   | Inr bytes \<Rightarrow> ad_patch E (kr_Object kreq) bytes)"

definition mutate_response ::
  "'o admission_env \<Rightarrow> k8s_request \<Rightarrow> 'o kind_info \<Rightarrow> 'o option option \<times> adm_error option \<Rightarrow> AdmissionResponse" where
  "mutate_response E kreq sch r =
     (let resp = \<lparr>resp_UID = kr_UID kreq, resp_Allowed = True, resp_Result = None, resp_Patch = None\<rparr>
      in case r of
           (Some (Some ob), None) \<Rightarrow>
             (case generatePatch E kreq ob sch of
                Inl e \<Rightarrow> addAdmissionError resp (Some e)
              | Inr p \<Rightarrow> resp\<lparr>resp_Patch := Some p\<rparr>)
         | (mResp, err) \<Rightarrow> addAdmissionError resp err)"

definition HandleMutateHTTP ::
  "'o admission_env \<Rightarrow> ('o, 's) WebhookServer \<Rightarrow> http_request \<Rightarrow> 's \<Rightarrow> http_response ran \<times> 's" where
  "HandleMutateHTTP E w req s =
     (case admit_prepare E ''mutating'' (ws_mutating w) (ws_DefaultMutating w) req of
        Panic \<Rightarrow> (Panic, s)
      | Ran (Inl r) \<Rightarrow> (Ran r, s)
      | Ran (Inr (admRev, kreq, sch, controller, admReq)) \<Rightarrow>
          (case controller admReq s of
             (Panic, s1) \<Rightarrow> (Panic, s1)
           | (Ran r, s1) \<Rightarrow> (Ran (write_review E (rev_TypeMeta admRev) (mutate_response E kreq sch r)), s1)))"

section \<open>Conversion\<close>

record ConversionResponse =
  cr_UID :: string
  cr_Converted :: "string list"
  cr_Status :: string
  cr_Code :: nat
  cr_Message :: string

text \<open>Each object of a request by its raw bytes; \<open>type_meta\<close> reads the kind and API version of one.\<close>

record conversion_request =
  cq_UID :: string
  cq_DesiredAPIVersion :: string
  cq_Objects :: "string list"

definition conversion_failed :: "ConversionResponse \<Rightarrow> nat \<Rightarrow> string \<Rightarrow> ConversionResponse" where
  "conversion_failed resp code msg = resp\<lparr>cr_Status := ''Failure'', cr_Code := code, cr_Message := msg\<rparr>"

fun convert_loop ::
  "(string \<rightharpoonup> Converter) \<Rightarrow> (string \<Rightarrow> string + string \<times> string) \<Rightarrow> (string \<Rightarrow> string \<times> string) \<Rightarrow> string \<Rightarrow> string list \<Rightarrow>
   ConversionResponse \<Rightarrow> ConversionResponse" where
  "convert_loop convs type_meta parse desired [] resp = resp"
| "convert_loop convs type_meta parse desired (raw # rest) resp =
     (case type_meta raw of
        Inl msg \<Rightarrow> conversion_failed resp 400 msg
      | Inr (kind, apiVersion) \<Rightarrow>
          (case convs (gk (fst (parse apiVersion)) kind) of
             None \<Rightarrow> conversion_failed resp 422 (''No converter registered for kind '' @ kind)
           | Some conv \<Rightarrow>
               (case conv \<lparr>rk_Kind = kind, rk_APIVersion = apiVersion, rk_Group = fst (parse apiVersion),
                           rk_Version = snd (parse apiVersion), rk_Raw = raw\<rparr> desired of
                  Inl e \<Rightarrow> conversion_failed resp 500 ''Error converting object''
                | Inr res \<Rightarrow> convert_loop convs type_meta parse desired rest
                    (resp\<lparr>cr_Converted := cr_Converted resp @ [res]\<rparr>))))"

text \<open>A response that came with the review is kept and filled in.\<close>

definition convert_review ::
  "(string \<rightharpoonup> Converter) \<Rightarrow> (string \<Rightarrow> string + string \<times> string) \<Rightarrow> (string \<Rightarrow> string \<times> string) \<Rightarrow>
   conversion_request \<Rightarrow> ConversionResponse option \<Rightarrow> ConversionResponse" where
  "convert_review convs type_meta parse req given =
     convert_loop convs type_meta parse (cq_DesiredAPIVersion req) (cq_Objects req)
       ((case given of None \<Rightarrow> \<lparr>cr_UID = [], cr_Converted = [], cr_Status = [], cr_Code = 0, cr_Message = []\<rparr> | Some r \<Rightarrow> r)
        \<lparr>cr_UID := cq_UID req, cr_Code := 200, cr_Status := ''Success''\<rparr>)"

text \<open>\<open>HandleConvertHTTP\<close>: the status of an HTTP answer, and the response of the review it carries.\<close>

definition HandleConvertHTTP ::
  "(string \<Rightarrow> go_error + conversion_request option \<times> ConversionResponse option) \<Rightarrow> (ConversionResponse \<Rightarrow> bool) \<Rightarrow>
   (string \<Rightarrow> string + string \<times> string) \<Rightarrow> (string \<Rightarrow> string \<times> string) \<Rightarrow> ('o, 's) WebhookServer \<Rightarrow> http_request \<Rightarrow>
   (nat \<times> ConversionResponse option) ran" where
  "HandleConvertHTTP unmarshal marshals type_meta parse w req =
     (if hq_Method req \<noteq> ''POST'' then Ran (405, None)
      else (case hq_Body req of
        Inl e \<Rightarrow> Ran (400, None)
      | Inr body \<Rightarrow> (case unmarshal body of
          Inl e \<Rightarrow> Ran (400, None)
        | Inr (None, given) \<Rightarrow> Panic
        | Inr (Some creq, given) \<Rightarrow>
            (let resp = convert_review (ws_converters w) type_meta parse creq given
             in if marshals resp then Ran (200, Some resp) else Ran (500, None)))))"

section \<open>What the handlers guarantee\<close>

text \<open>
  What a handler must make of an HTTP request, stated over the request alone. The body decodes to the review, the review
  carries the Kubernetes request, and the request for the controller has its operation, kind and user and the objects
  its two documents read as, a document that is empty being no object.
\<close>

definition action_named :: "string \<Rightarrow> AdmissionAction" where
  "action_named op = (case map_of [(''CREATE'', AdmissionActionCreate), (''UPDATE'', AdmissionActionUpdate),
      (''DELETE'', AdmissionActionDelete), (''CONNECT'', AdmissionActionConnect)] op of
     Some a \<Rightarrow> a | None \<Rightarrow> AdmissionActionNone)"

definition document_of :: "'o kind_info \<Rightarrow> string \<Rightarrow> 'o option \<Rightarrow> bool" where
  "document_of sch raw ob \<longleftrightarrow> (case ob of None \<Rightarrow> raw = [] | Some x \<Rightarrow> raw \<noteq> [] \<and> ki_read sch raw = Inr x)"

definition asks_for :: "k8s_request \<Rightarrow> 'o kind_info \<Rightarrow> 'o AdmissionRequest \<Rightarrow> bool" where
  "asks_for kreq sch admReq \<longleftrightarrow>
     ar_Action admReq = action_named (kr_Operation kreq) \<and> ar_UserInfo admReq = kr_UserInfo kreq \<and>
     kr_Kind kreq = \<lparr>gvk_Group = ar_Group admReq, gvk_Version = ar_Version admReq, gvk_Kind = ar_Kind admReq\<rparr> \<and>
     document_of sch (kr_Object kreq) (ar_Object admReq) \<and> document_of sch (kr_OldObject kreq) (ar_OldObject admReq)"

definition carries_review :: "'o admission_env \<Rightarrow> http_request \<Rightarrow> AdmissionReview \<Rightarrow> k8s_request \<Rightarrow> bool" where
  "carries_review E req rv kreq \<longleftrightarrow> hq_Method req = ''POST'' \<and>
     (\<exists>body. hq_Body req = Inr body \<and> ad_unmarshal E body = Inr rv) \<and> rev_Request rv = Some kreq"

text \<open>The controller for the kind of the request: the registered one, or the default one where none is registered.\<close>

definition responsible ::
  "'o admission_env \<Rightarrow> (string \<rightharpoonup> 'o kind_info \<times> 'c option) \<Rightarrow> 'c option \<Rightarrow> k8s_request \<Rightarrow> 'o kind_info \<Rightarrow> 'c \<Rightarrow> bool" where
  "responsible E registered fallback kreq sch c \<longleftrightarrow> (\<exists>kind. kr_RequestKind kreq = Some kind \<and>
     (registered (ad_str E kind) = Some (sch, Some c) \<or>
      registered (ad_str E kind) = None \<and> fallback = Some c \<and> sch = ad_default E kind))"

lemma admission_action_named: "admission_action op = action_named op"
  by (simp add: admission_action_def action_named_def)

lemma read_raw_document: "read_raw sch raw = Inr ob \<longleftrightarrow> document_of sch raw ob"
  by (auto simp: read_raw_def document_of_def split: sum.splits option.splits)

lemma admit_prepare_Inr:
  assumes "admit_prepare E what registered fallback req = Ran (Inr (admRev, kreq, sch, c, admReq))"
  shows "carries_review E req admRev kreq" "responsible E registered fallback kreq sch c" "asks_for kreq sch admReq"
proof -
  from assms obtain body kind where
    b: "hq_Method req = ''POST''" "hq_Body req = Inr body" "ad_unmarshal E body = Inr admRev" "rev_Request admRev = Some kreq"
      "kr_RequestKind kreq = Some kind" "find_controller E registered fallback kind = Some (sch, c)"
      "translateKubernetesAdmissionRequest kreq sch = Inr admReq"
    by (auto simp: admit_prepare_def split: if_splits sum.splits option.splits)
  then show "carries_review E req admRev kreq" by (simp add: carries_review_def)
  from b(5,6) show "responsible E registered fallback kreq sch c"
    by (auto simp: responsible_def find_controller_def split: option.splits prod.splits)
  from b(7) show "asks_for kreq sch admReq"
    by (auto simp: translateKubernetesAdmissionRequest_def asks_for_def admission_action_named read_raw_document split: sum.splits)
qed

lemma admit_prepare_Inl:
  assumes "admit_prepare E what registered fallback req = Ran (Inl r)"
  shows "hp_Code r \<noteq> 200 \<and> (\<forall>tm resp. hp_Body r \<noteq> ReviewBody tm resp)"
  using assms
  by (auto simp: admit_prepare_def status_only_def no_controller_def split: if_splits sum.splits option.splits prod.splits)

lemma write_review_body:
  "hp_Body (write_review E tm resp) = ReviewBody tm' resp' \<longleftrightarrow> ad_marshal_error E resp = None \<and> tm' = tm \<and> resp' = resp"
  by (auto simp: write_review_def split: option.splits)

lemma addAdmissionError_allowed [simp]:
  "resp_Allowed (addAdmissionError resp err) \<longleftrightarrow> resp_Allowed resp \<and> err = None"
  "resp_UID (addAdmissionError resp err) = resp_UID resp"
  "resp_Patch (addAdmissionError resp err) = resp_Patch resp"
  by (auto simp: addAdmissionError_def split: option.splits)

text \<open>
  C25. The validating webhook fails closed: an answer that allows the request is given only to a POST whose body is a
  review, when the controller for the review's kind, its own or the default one, was run on a request with the review's
  operation, user and objects and returned no error; the answer carries_review the request's identifier and the review's type.
\<close>

theorem validate_fails_closed:
  assumes run: "HandleValidateHTTP E w req s = (Ran r, s')" and body: "hp_Body r = ReviewBody tm resp"
    and allowed: "resp_Allowed resp"
  shows "\<exists>rv kreq sch c admReq. carries_review E req rv kreq \<and>
    responsible E (ws_validating w) (ws_DefaultValidating w) kreq sch c \<and> asks_for kreq sch admReq \<and>
    c admReq s = (Ran None, s') \<and> resp_UID resp = kr_UID kreq \<and> tm = rev_TypeMeta rv"
proof -
  from run body obtain admRev kreq sch c admReq where
    p: "admit_prepare E ''validating'' (ws_validating w) (ws_DefaultValidating w) req = Ran (Inr (admRev, kreq, sch, c, admReq))"
    by (auto simp: HandleValidateHTTP_def split: ran.splits sum.splits dest: admit_prepare_Inl)
  obtain e s1 where c: "c admReq s = (Ran e, s1)"
    using run p by (auto simp: HandleValidateHTTP_def split: ran.splits prod.splits)
  from run p c body allowed have "e = None" "s' = s1" "resp_UID resp = kr_UID kreq" "tm = rev_TypeMeta admRev"
    by (auto simp: HandleValidateHTTP_def write_review_body)
  with c admit_prepare_Inr [OF p] show ?thesis by blast
qed

text \<open>What is documented of the patch library: applying a created patch to the first document gives the second.\<close>

definition patch_laws :: "'o admission_env \<Rightarrow> (string \<Rightarrow> string \<Rightarrow> string option) \<Rightarrow> bool" where
  "patch_laws E apply_patch \<longleftrightarrow> (\<forall>a b p. ad_patch E a b = Inr p \<longrightarrow> apply_patch p a = Some b)"

lemma mutate_response_allowed:
  assumes "resp_Allowed (mutate_response E kreq sch (mResp, err))"
  shows "err = None \<and>
    (case resp_Patch (mutate_response E kreq sch (mResp, err)) of
       None \<Rightarrow> mResp = None \<or> mResp = Some None
     | Some p \<Rightarrow> \<exists>ob bytes. mResp = Some (Some ob) \<and> ki_write sch ob = Inr bytes \<and> ad_patch E (kr_Object kreq) bytes = Inr p)"
  using assms
  by (cases mResp; cases "the mResp"; cases err)
    (auto simp: mutate_response_def generatePatch_def Let_def split: sum.splits)

lemma mutate_response_UID:
  "resp_Allowed (mutate_response E kreq sch (mResp, err)) \<Longrightarrow> err = None \<Longrightarrow>
     resp_UID (mutate_response E kreq sch (mResp, err)) = kr_UID kreq"
  by (cases mResp; cases "the mResp") (auto simp: mutate_response_def Let_def split: sum.splits)

text \<open>
  C26. The mutating webhook applies the controller's change: an answer that allows the request is given only when the
  controller for the review's kind was run on a request with the review's operation, user and objects and returned no
  error; it has no patch, when the controller returned no object, or a patch that turns the document of the review's
  object into the encoding of the object the controller returned.
\<close>

theorem mutate_patches_to_updated:
  assumes run: "HandleMutateHTTP E w req s = (Ran r, s')" and body: "hp_Body r = ReviewBody tm resp"
    and allowed: "resp_Allowed resp" and laws: "patch_laws E apply_patch"
  shows "\<exists>rv kreq sch c admReq mResp. carries_review E req rv kreq \<and>
    responsible E (ws_mutating w) (ws_DefaultMutating w) kreq sch c \<and> asks_for kreq sch admReq \<and>
    c admReq s = (Ran (mResp, None), s') \<and> resp_UID resp = kr_UID kreq \<and> tm = rev_TypeMeta rv \<and>
    (case resp_Patch resp of
       None \<Rightarrow> mResp = None \<or> mResp = Some None
     | Some p \<Rightarrow> \<exists>ob bytes. mResp = Some (Some ob) \<and> ki_write sch ob = Inr bytes \<and> apply_patch p (kr_Object kreq) = Some bytes)"
proof -
  from run body obtain admRev kreq sch c admReq where
    p: "admit_prepare E ''mutating'' (ws_mutating w) (ws_DefaultMutating w) req = Ran (Inr (admRev, kreq, sch, c, admReq))"
    by (auto simp: HandleMutateHTTP_def split: ran.splits sum.splits dest: admit_prepare_Inl)
  obtain mResp err s1 where c: "c admReq s = (Ran (mResp, err), s1)"
    using run p by (auto simp: HandleMutateHTTP_def split: ran.splits prod.splits)
  from run p c body have resp: "resp = mutate_response E kreq sch (mResp, err)" "s' = s1" "tm = rev_TypeMeta admRev"
    by (auto simp: HandleMutateHTTP_def write_review_body)
  note m = mutate_response_allowed [of E kreq sch mResp err]
  from allowed resp m have err: "err = None" by simp
  from allowed resp m laws have
    "case resp_Patch resp of
       None \<Rightarrow> mResp = None \<or> mResp = Some None
     | Some p \<Rightarrow> \<exists>ob bytes. mResp = Some (Some ob) \<and> ki_write sch ob = Inr bytes \<and> apply_patch p (kr_Object kreq) = Some bytes"
    by (cases "resp_Patch resp") (auto simp: patch_laws_def)
  moreover have "resp_UID resp = kr_UID kreq" using allowed err unfolding resp(1) by (rule mutate_response_UID)
  ultimately show ?thesis using c err resp(2,3) admit_prepare_Inr [OF p] by blast
qed

section \<open>Conversion, object by object\<close>

text \<open>The conversion of one object: its bytes in the desired version, or the code and message of the failure.\<close>

definition convert_one ::
  "(string \<rightharpoonup> Converter) \<Rightarrow> (string \<Rightarrow> string + string \<times> string) \<Rightarrow> (string \<Rightarrow> string \<times> string) \<Rightarrow> string \<Rightarrow> string \<Rightarrow>
   nat \<times> string + string" where
  "convert_one convs type_meta parse desired raw =
     (case type_meta raw of
        Inl msg \<Rightarrow> Inl (400, msg)
      | Inr (kind, av) \<Rightarrow> (case convs (gk (fst (parse av)) kind) of
          None \<Rightarrow> Inl (422, ''No converter registered for kind '' @ kind)
        | Some conv \<Rightarrow> (case conv \<lparr>rk_Kind = kind, rk_APIVersion = av, rk_Group = fst (parse av),
              rk_Version = snd (parse av), rk_Raw = raw\<rparr> desired of
            Inl e \<Rightarrow> Inl (500, ''Error converting object'') | Inr res \<Rightarrow> Inr res)))"

lemma convert_loop_Cons:
  "convert_loop convs tm parse desired (raw # rest) resp =
     (case convert_one convs tm parse desired raw of
        Inl (code, msg) \<Rightarrow> conversion_failed resp code msg
      | Inr res \<Rightarrow> convert_loop convs tm parse desired rest (resp\<lparr>cr_Converted := cr_Converted resp @ [res]\<rparr>))"
  by (simp add: convert_one_def split: sum.split option.split prod.split)

lemma convert_loop_spec:
  assumes "cr_Status resp = ''Success''"
  shows "cr_UID (convert_loop convs tm parse desired objs resp) = cr_UID resp \<and>
    cr_Converted (convert_loop convs tm parse desired objs resp) =
      cr_Converted resp @ map (projr \<circ> convert_one convs tm parse desired)
        (takeWhile (\<lambda>raw. \<not> isl (convert_one convs tm parse desired raw)) objs) \<and>
    cr_Status (convert_loop convs tm parse desired objs resp) =
      (if list_all (\<lambda>raw. \<not> isl (convert_one convs tm parse desired raw)) objs then ''Success'' else ''Failure'')"
  using assms
proof (induction objs arbitrary: resp)
  case (Cons raw rest)
  show ?case
  proof (cases "convert_one convs tm parse desired raw")
    case (Inl cm)
    then show ?thesis by (cases cm) (simp add: convert_loop_Cons conversion_failed_def del: convert_loop.simps)
  next
    case (Inr res)
    with Cons.IH [of "resp\<lparr>cr_Converted := cr_Converted resp @ [res]\<rparr>"] Cons.prems show ?thesis
      by (simp add: convert_loop_Cons del: convert_loop.simps)
  qed
qed simp

text \<open>
  C27. The conversion webhook converts the objects of a review in order up to the first that cannot be
  converted: the answer has the request's identifier, the conversions of the objects before that
  one, and reports success exactly when every object was converted.
\<close>

theorem convert_review_correct:
  "let one = convert_one convs type_meta parse (cq_DesiredAPIVersion req);
       resp = convert_review convs type_meta parse req None
   in cr_UID resp = cq_UID req \<and>
      cr_Converted resp = map (projr \<circ> one) (takeWhile (\<lambda>raw. \<not> isl (one raw)) (cq_Objects req)) \<and>
      cr_Status resp = (if list_all (\<lambda>raw. \<not> isl (one raw)) (cq_Objects req) then ''Success'' else ''Failure'')"
  by (simp add: convert_review_def convert_loop_spec Let_def)

section \<open>What the opinionated controllers guarantee\<close>

text \<open>
  C28. The opinionated validating controller protects the metadata: an update it admits changes
  neither the creator nor the update time, and the updater only to the user of the request; a
  creation it admits names no other user and no update time. Its underlying controller runs only
  after these checks.
\<close>

theorem opinionated_validate_protects:
  assumes "OpinionatedValidate F Underlying request s = (Ran None, s')" and "ar_Object request = Some ob"
  shows "(ar_Action request = AdmissionActionUpdate \<longrightarrow> (\<exists>old. ar_OldObject request = Some old \<and>
      cm_CreatedBy (GetCommonMetadata F ob) = cm_CreatedBy (GetCommonMetadata F old) \<and>
      cm_UpdateTimestamp (GetCommonMetadata F ob) = cm_UpdateTimestamp (GetCommonMetadata F old) \<and>
      cm_UpdatedBy (GetCommonMetadata F ob) \<in> {cm_UpdatedBy (GetCommonMetadata F old), ui_Username (ar_UserInfo request)})) \<and>
    (ar_Action request = AdmissionActionCreate \<longrightarrow>
      cm_CreatedBy (GetCommonMetadata F ob) \<in> {[], ui_Username (ar_UserInfo request)} \<and>
      cm_UpdatedBy (GetCommonMetadata F ob) \<in> {[], ui_Username (ar_UserInfo request)} \<and>
      cm_UpdateTimestamp (GetCommonMetadata F ob) = 0) \<and>
    (case Underlying of None \<Rightarrow> s' = s | Some f \<Rightarrow> f request s = (Ran None, s'))"
proof -
  from assms(1) have pe: "protected_error F request = Ran None"
    and un: "(case Underlying of None \<Rightarrow> (Ran None, s) | Some f \<Rightarrow> f request s) = (Ran None, s')"
    by (auto simp: OpinionatedValidate_def split: ran.splits option.splits)
  from un have "case Underlying of None \<Rightarrow> s' = s | Some f \<Rightarrow> f request s = (Ran None, s')"
    by (auto split: option.splits)
  with pe assms(2) show ?thesis
    by (cases "ar_Action request") (auto simp: protected_error_def Let_def split: if_splits option.splits)
qed

lemma mutated_metadata:
  assumes laws: "rfc3339_laws F" and act: "ar_Action request = AdmissionActionUpdate" and ts: "ts \<noteq> 0"
  shows "cm_UpdateTimestamp (GetCommonMetadata F (SetCommonMetadata F
      (opinionated_metadata request ts (GetCommonMetadata F ob)) ob)) = whole_seconds ts"
  using laws ts
  by (simp add: GetCommonMetadata_def SetCommonMetadata_def opinionated_metadata_def act Let_def set_if_apply rfc3339_laws_def)

text \<open>
  The two opinionated controllers do not work together: an API server runs the mutating webhook
  first and validates its result, and the update time the mutating controller sets is rejected by
  the validating one, so an update of an object whose stored update time is not the current second is
  always denied.
\<close>

lemma opinionated_update_denied:
  assumes laws: "rfc3339_laws F" and act: "ar_Action request = AdmissionActionUpdate"
    and old: "ar_OldObject request = Some old" and ts: "clock s \<noteq> 0"
    and later: "cm_UpdateTimestamp (GetCommonMetadata F old) \<noteq> whole_seconds (clock s)"
    and mutate: "OpinionatedMutate F clock None request s = (Ran (Some (Some ob), None), s')"
  shows "\<exists>annotation. OpinionatedValidate F Underlying (request\<lparr>ar_Object := Some ob\<rparr>) s' =
    (Ran (Some (makeAnnotationError annotation)), s')"
proof -
  from mutate obtain ob0 where ob: "ob = SetCommonMetadata F (opinionated_metadata request (clock s) (GetCommonMetadata F ob0)) ob0"
    by (auto simp: OpinionatedMutate_def split: option.splits)
  from mutated_metadata [OF laws act ts, of ob0] have "cm_UpdateTimestamp (GetCommonMetadata F ob) = whole_seconds (clock s)"
    by (simp add: ob)
  with later act old have "\<exists>a. protected_error F (request\<lparr>ar_Object := Some ob\<rparr>) = Ran (Some (makeAnnotationError a))"
    by (auto simp: protected_error_def Let_def)
  then show ?thesis by (auto simp: OpinionatedValidate_def)
qed

text \<open>A deletion has no object, and the opinionated mutating controller panics on it.\<close>

lemma opinionated_delete_panics:
  "ar_Object request = None \<Longrightarrow> OpinionatedMutate F clock None request s = (Panic, s)"
  by (simp add: OpinionatedMutate_def)

section \<open>Witnesses\<close>

definition sample_user :: AdmissionUserInfo where
  "sample_user = \<lparr>ui_Username = ''ann'', ui_UID = ''1'', ui_Groups = []\<rparr>"

definition sample_base :: object_base where
  "sample_base = object_base.truncate sample_typed"

definition sample_update :: "object_base AdmissionRequest" where
  "sample_update = \<lparr>ar_Action = AdmissionActionUpdate, ar_Kind = ''Foo'', ar_Group = ''g'', ar_Version = ''v1'',
     ar_UserInfo = sample_user, ar_Object = Some sample_base, ar_OldObject = Some sample_base\<rparr>"

lemmas sample_defs = sample_update_def sample_base_def sample_typed_def sample_user_def object_base.defs
  GetCommonMetadata_def lookup_or_empty_def

theorem opinionated_validate_protects_witness:
  "OpinionatedValidate decimal_seconds None sample_update () = (Ran None, ()) \<and>
   cm_CreatedBy (GetCommonMetadata decimal_seconds sample_base) = ''me''"
proof -
  have run: "OpinionatedValidate decimal_seconds None sample_update () = (Ran None, ())"
    by (simp add: OpinionatedValidate_def protected_error_def sample_update_def Let_def)
  from opinionated_validate_protects [OF run] have
    "cm_CreatedBy (GetCommonMetadata decimal_seconds sample_base) = cm_CreatedBy (GetCommonMetadata decimal_seconds sample_base)"
    by (simp add: sample_update_def)
  with run show ?thesis by (simp add: sample_defs)
qed

lemma opinionated_update_denied_witness:
  "\<exists>ob annotation. OpinionatedMutate decimal_seconds (\<lambda>s. 9000000000) None sample_update () = (Ran (Some (Some ob), None), ()) \<and>
     OpinionatedValidate decimal_seconds None (sample_update\<lparr>ar_Object := Some ob\<rparr>) () =
       (Ran (Some (makeAnnotationError annotation)), ())"
proof -
  obtain ob where mutate: "OpinionatedMutate decimal_seconds (\<lambda>s. 9000000000) None sample_update () = (Ran (Some (Some ob), None), ())"
    by (simp add: OpinionatedMutate_def sample_update_def)
  have "cm_UpdateTimestamp (GetCommonMetadata decimal_seconds sample_base) = 0" by (simp add: sample_defs)
  then have "\<exists>a. OpinionatedValidate decimal_seconds None (sample_update\<lparr>ar_Object := Some ob\<rparr>) () =
      (Ran (Some (makeAnnotationError a)), ())"
    using opinionated_update_denied [OF decimal_seconds_laws _ _ _ _ mutate, of sample_base None]
    by (simp add: sample_update_def whole_seconds_def)
  with mutate show ?thesis by blast
qed

text \<open>Objects that are their own encoding, patches that are the new document, and one request.\<close>

definition plain_kind :: "string kind_info" where
  "plain_kind = \<lparr>ki_schema = \<lparr>sch_Group = ''g'', sch_Version = ''v1'', sch_Kind = ''Foo'', sch_Plural = ''foos''\<rparr>,
     ki_read = Inr, ki_write = Inr\<rparr>"

definition plain_gvk :: gvk where
  "plain_gvk = \<lparr>gvk_Group = ''g'', gvk_Version = ''v1'', gvk_Kind = ''Foo''\<rparr>"

definition plain_review :: AdmissionReview where
  "plain_review = \<lparr>rev_TypeMeta = (''AdmissionReview'', ''v1beta1''), rev_Request = Some
     \<lparr>kr_UID = ''u1'', kr_RequestKind = Some plain_gvk, kr_Kind = plain_gvk, kr_Operation = ''CREATE'',
      kr_Object = ''old'', kr_OldObject = [], kr_UserInfo = sample_user\<rparr>\<rparr>"

definition plain_env :: "string admission_env" where
  "plain_env = \<lparr>ad_str = (\<lambda>g. gvk_Group g @ ''/'' @ gvk_Version g @ '', Kind='' @ gvk_Kind g),
     ad_unmarshal = (\<lambda>body. if body = ''review'' then Inr plain_review else Inl (GoErr ''bad'')),
     ad_default = (\<lambda>g. plain_kind), ad_marshal_error = (\<lambda>r. None), ad_patch = (\<lambda>a b. Inr b)\<rparr>"

definition plain_server :: "(string, nat) WebhookServer" where
  "plain_server = \<lparr>ws_DefaultValidating = Some (\<lambda>r s. (Ran None, Suc s)),
     ws_DefaultMutating = Some (\<lambda>r s. (Ran (Some (Some ''new''), None), Suc s)),
     ws_validating = Map.empty, ws_mutating = Map.empty, ws_converters = Map.empty, ws_port = 8443,
     ws_CertPath = ''c'', ws_KeyPath = ''k''\<rparr>"

definition plain_http :: http_request where
  "plain_http = \<lparr>hq_Method = ''POST'', hq_Body = Inr ''review''\<rparr>"

definition allowed_with :: "string option \<Rightarrow> AdmissionResponse" where
  "allowed_with p = \<lparr>resp_UID = ''u1'', resp_Allowed = True, resp_Result = None, resp_Patch = p\<rparr>"

lemma plain_prepare:
  "admit_prepare plain_env what Map.empty (Some c) plain_http =
     Ran (Inr (plain_review, the (rev_Request plain_review), plain_kind, c,
       \<lparr>ar_Action = AdmissionActionCreate, ar_Kind = ''Foo'', ar_Group = ''g'', ar_Version = ''v1'',
        ar_UserInfo = sample_user, ar_Object = Some ''old'', ar_OldObject = None\<rparr>))"
  by (simp add: admit_prepare_def plain_env_def plain_http_def plain_review_def plain_gvk_def plain_kind_def
      find_controller_def translateKubernetesAdmissionRequest_def read_raw_def admission_action_def)

lemma plain_env_fields: "ad_marshal_error plain_env r = None" "ad_patch plain_env a b = Inr b" "ki_write plain_kind ob = Inr ob"
  by (simp_all add: plain_env_def plain_kind_def)

lemma plain_runs:
  "HandleValidateHTTP plain_env plain_server plain_http 0 =
     (Ran \<lparr>hp_Code = 200, hp_Body = ReviewBody (''AdmissionReview'', ''v1beta1'') (allowed_with None)\<rparr>, Suc 0)"
  "HandleMutateHTTP plain_env plain_server plain_http 0 =
     (Ran \<lparr>hp_Code = 200, hp_Body = ReviewBody (''AdmissionReview'', ''v1beta1'') (allowed_with (Some ''new''))\<rparr>, Suc 0)"
  by (simp_all add: HandleValidateHTTP_def HandleMutateHTTP_def plain_server_def plain_prepare
      write_review_def plain_env_fields addAdmissionError_def mutate_response_def generatePatch_def plain_review_def
      allowed_with_def)

theorem validate_fails_closed_witness:
  "\<exists>rv kreq sch c admReq. carries_review plain_env plain_http rv kreq \<and>
     responsible plain_env Map.empty (ws_DefaultValidating plain_server) kreq sch c \<and> asks_for kreq sch admReq \<and>
     c admReq 0 = (Ran None, Suc 0) \<and> kr_UID kreq = ''u1''"
  using validate_fails_closed [OF plain_runs(1)] by (simp add: allowed_with_def plain_server_def) metis

theorem mutate_patches_to_updated_witness:
  "\<exists>rv kreq sch c admReq ob. carries_review plain_env plain_http rv kreq \<and>
     responsible plain_env Map.empty (ws_DefaultMutating plain_server) kreq sch c \<and> asks_for kreq sch admReq \<and>
     c admReq 0 = (Ran (Some (Some ob), None), Suc 0) \<and> ki_write sch ob = Inr ''new''"
proof -
  have "patch_laws plain_env (\<lambda>p a. Some p)" by (simp add: patch_laws_def plain_env_def)
  from mutate_patches_to_updated [OF plain_runs(2) _ _ this]
  show ?thesis by (simp add: allowed_with_def plain_server_def) blast
qed

end
