(* ===== verification/Event_Queues.thy ===== *)
theory Event_Queues
  imports Resource_Model "HOL-Library.Sublist"
begin

text \<open>
  \<^verbatim>\<open>operator/informer_processor.go\<close>, \<^verbatim>\<open>operator/concurrentwatcher.go\<close> and
  \<^verbatim>\<open>operator/informer_concurrent.go\<close>: the buffered queue between the producer of events and a
  worker, the processor that distributes an informer's events to its listeners, and the watcher that
  spreads events over a fixed pool of workers by a hash of the object.

  The ring buffer (\<^verbatim>\<open>k8s.io/utils/buffer\<close>) and the hash are parameters; \<open>ring_laws\<close> is the ring
  buffer's documented behaviour.
\<close>

section \<open>The buffered queue\<close>

text \<open>\<open>ReadOne\<close> returns the oldest entry, nothing when the buffer is empty; \<open>WriteOne\<close> adds an entry.\<close>

record ('e, 'b) ring =
  ReadOne :: "'b \<Rightarrow> 'e option \<times> 'b"
  WriteOne :: "'e \<Rightarrow> 'b \<Rightarrow> 'b"
  NewRing :: "nat \<Rightarrow> 'b"

definition ring_laws :: "('e, 'b) ring \<Rightarrow> ('b \<Rightarrow> 'e list) \<Rightarrow> bool" where
  "ring_laws R contents \<longleftrightarrow>
     (\<forall>n. contents (NewRing R n) = []) \<and>
     (\<forall>e b. contents (WriteOne R e b) = contents b @ [e]) \<and>
     (\<forall>b. contents b = [] \<longrightarrow> fst (ReadOne R b) = None \<and> contents (snd (ReadOne R b)) = []) \<and>
     (\<forall>b e es. contents b = e # es \<longrightarrow> fst (ReadOne R b) = Some e \<and> contents (snd (ReadOne R b)) = es)"

text \<open>
  The local variables of \<open>run\<close> (the event to send next, nil as \<open>None\<close>, and whether \<open>nextCh\<close> is
  non-nil), the buffer, and the flags of \<open>stop\<close>. The channels are unbuffered, so a receive of \<open>run\<close>
  is the completion of a push and a send of \<open>run\<close> is a delivery.
\<close>

record ('e, 'b) bufferedQueue =
  bq_event :: "'e option"
  bq_nextCh :: bool
  bq_buf :: 'b
  bq_stopped :: bool
  bq_closed :: bool

definition newBufferedQueue :: "('e, 'b) ring \<Rightarrow> nat \<Rightarrow> ('e, 'b) bufferedQueue" where
  "newBufferedQueue R bufferSize =
     \<lparr>bq_event = None, bq_nextCh = False, bq_buf = NewRing R bufferSize, bq_stopped = False, bq_closed = False\<rparr>"

text \<open>The case of \<open>run\<close>'s select that receives an event.\<close>

definition queue_recv :: "('e, 'b) ring \<Rightarrow> 'e \<Rightarrow> ('e, 'b) bufferedQueue \<Rightarrow> ('e, 'b) bufferedQueue" where
  "queue_recv R eventToAdd q =
     (if bq_event q = None then q\<lparr>bq_event := Some eventToAdd, bq_nextCh := True\<rparr>
      else q\<lparr>bq_buf := WriteOne R eventToAdd (bq_buf q)\<rparr>)"

text \<open>The case that sends: possible while \<open>nextCh\<close> is non-nil; the event sent and the queue after.\<close>

definition queue_send ::
  "('e, 'b) ring \<Rightarrow> ('e, 'b) bufferedQueue \<Rightarrow> ('e option \<times> ('e, 'b) bufferedQueue) option" where
  "queue_send R q =
     (if bq_nextCh q \<and> \<not> bq_closed q
      then let (event, buf) = ReadOne R (bq_buf q)
           in Some (bq_event q, q\<lparr>bq_event := event, bq_buf := buf,
                bq_nextCh := (if event = None then False else bq_nextCh q)\<rparr>)
      else None)"

text \<open>\<open>push\<close>: dropped once stopped, otherwise received by \<open>run\<close>.\<close>

definition queue_push1 :: "('e, 'b) ring \<Rightarrow> 'e \<Rightarrow> ('e, 'b) bufferedQueue \<Rightarrow> ('e, 'b) bufferedQueue" where
  "queue_push1 R event q = (if bq_stopped q then q else queue_recv R event q)"

text \<open>\<open>stop\<close> closes the incoming channel; \<open>run\<close> then returns and closes the outgoing one.\<close>

definition queue_stop :: "('e, 'b) bufferedQueue \<Rightarrow> ('e, 'b) bufferedQueue" where
  "queue_stop q = q\<lparr>bq_stopped := True, bq_closed := True\<rparr>"

text \<open>What waits in a queue, oldest first, and the shape \<open>run\<close> keeps.\<close>

definition queued :: "('b \<Rightarrow> 'e list) \<Rightarrow> ('e, 'b) bufferedQueue \<Rightarrow> 'e list" where
  "queued contents q = (case bq_event q of None \<Rightarrow> [] | Some e \<Rightarrow> [e]) @ contents (bq_buf q)"

definition queue_ok' :: "('b \<Rightarrow> 'e list) \<Rightarrow> ('e, 'b) bufferedQueue \<Rightarrow> bool" where
  "queue_ok' contents q \<longleftrightarrow> (bq_nextCh q \<longleftrightarrow> bq_event q \<noteq> None) \<and> (bq_event q = None \<longrightarrow> contents (bq_buf q) = [])"

lemma newBufferedQueue_laws:
  assumes "ring_laws R contents"
  shows "queue_ok' contents (newBufferedQueue R n)" "queued contents (newBufferedQueue R n) = []"
  using assms by (simp_all add: queue_ok'_def queued_def newBufferedQueue_def ring_laws_def)

lemma queue_recv_laws:
  assumes "ring_laws R contents" "queue_ok' contents q"
  shows "queue_ok' contents (queue_recv R e q)" "queued contents (queue_recv R e q) = queued contents q @ [e]"
  using assms by (auto simp: queue_ok'_def queued_def queue_recv_def ring_laws_def)

lemma queue_send_laws:
  assumes "ring_laws R contents" "queue_ok' contents q" "queue_send R q = Some (r, q')"
  shows "queue_ok' contents q'" "\<exists>e. r = Some e \<and> queued contents q = e # queued contents q'"
proof -
  from assms(2,3) obtain e where e: "bq_event q = Some e" and r: "r = Some e"
    and q': "q' = q\<lparr>bq_event := fst (ReadOne R (bq_buf q)), bq_buf := snd (ReadOne R (bq_buf q)),
        bq_nextCh := (if fst (ReadOne R (bq_buf q)) = None then False else bq_nextCh q)\<rparr>"
    and ch: "bq_nextCh q"
    by (auto simp: queue_send_def queue_ok'_def split: if_splits prod.splits)
  have "queue_ok' contents q' \<and> queued contents q = e # queued contents q'"
  proof (cases "contents (bq_buf q)")
    case Nil
    with assms(1) e q' show ?thesis by (simp add: ring_laws_def queue_ok'_def queued_def)
  next
    case (Cons x xs)
    with assms(1) have "fst (ReadOne R (bq_buf q)) = Some x" "contents (snd (ReadOne R (bq_buf q))) = xs"
      by (auto simp: ring_laws_def)
    with Cons e q' ch show ?thesis by (simp add: queue_ok'_def queued_def)
  qed
  with r show "queue_ok' contents q'" "\<exists>e. r = Some e \<and> queued contents q = e # queued contents q'" by auto
qed

lemma queue_send_enabled:
  assumes "queue_ok' contents q" "queued contents q \<noteq> []" "\<not> bq_closed q"
  shows "queue_send R q \<noteq> None"
  using assms by (cases "bq_event q") (auto simp: queue_send_def queue_ok'_def queued_def split: prod.split)

section \<open>The informer processor\<close>

datatype 'o informer_event =
    informerEventAdd 'o bool
  | informerEventUpdate 'o 'o
  | informerEventDelete 'o
  | informerEventCacheSync 'o

text \<open>The calls of a \<^verbatim>\<open>cache.ResourceEventHandler\<close>.\<close>

datatype 'o handler_call = OnAdd 'o bool | OnUpdate 'o 'o | OnDelete 'o

fun dispatch :: "'o informer_event \<Rightarrow> 'o handler_call" where
  "dispatch (informerEventAdd obj initial) = OnAdd obj initial"
| "dispatch (informerEventUpdate obj old) = OnUpdate old obj"
| "dispatch (informerEventDelete obj) = OnDelete obj"
| "dispatch (informerEventCacheSync obj) = OnUpdate obj obj"

record ('o, 'b) informerProcessor =
  ip_listeners :: "(nat \<times> ('o informer_event, 'b) bufferedQueue) list"
  ip_started :: bool

definition newInformerProcessor :: "('o, 'b) informerProcessor" where
  "newInformerProcessor = \<lparr>ip_listeners = [], ip_started = False\<rparr>"

definition addListener ::
  "('o, 'b) informerProcessor \<Rightarrow> nat \<Rightarrow> ('o informer_event, 'b) bufferedQueue \<Rightarrow>
   ('o, 'b) informerProcessor \<times> go_error option" where
  "addListener p l q =
     (if ip_started p
      then (p, Some (GoErr ''error adding listener: not allowed after processor already started''))
      else (p\<lparr>ip_listeners := AList.update l q (ip_listeners p)\<rparr>, None))"

definition distribute ::
  "('o informer_event, 'b) ring \<Rightarrow> 'o informer_event \<Rightarrow> ('o, 'b) informerProcessor \<Rightarrow> ('o, 'b) informerProcessor"
where
  "distribute R event p = p\<lparr>ip_listeners := map (\<lambda>(l, q). (l, queue_push1 R event q)) (ip_listeners p)\<rparr>"

definition processor_start :: "('o, 'b) informerProcessor \<Rightarrow> ('o, 'b) informerProcessor" where
  "processor_start p = p\<lparr>ip_started := True\<rparr>"

definition processor_stop :: "('o, 'b) informerProcessor \<Rightarrow> ('o, 'b) informerProcessor" where
  "processor_stop p = p\<lparr>ip_started := False, ip_listeners := map (\<lambda>(l, q). (l, queue_stop q)) (ip_listeners p)\<rparr>"

section \<open>The concurrent watcher\<close>

datatype cw_event = CreateEvent object | UpdateEvent object object | DeleteEvent object

text \<open>The object whose identity picks the worker: the source of an update, as the code takes it.\<close>

fun event_object :: "cw_event \<Rightarrow> object" where
  "event_object (CreateEvent ob) = ob"
| "event_object (UpdateEvent src tgt) = src"
| "event_object (DeleteEvent ob) = ob"

text \<open>\<^verbatim>\<open>GroupVersionKind().String()\<close>, then namespace and name.\<close>

definition object_key :: "object \<Rightarrow> string" where
  "object_key ob =
     (o_Group ob @ ''/'' @ o_Version ob @ '', Kind='' @ o_Kind ob) @ ''/'' @ o_Namespace ob @ ''/'' @ o_Name ob"

definition hashMod :: "(string \<Rightarrow> nat) \<Rightarrow> nat \<Rightarrow> object \<Rightarrow> nat" where
  "hashMod hash poolSize ob = hash (object_key ob) mod poolSize"

record 'b concurrentWatcher =
  cw_size :: nat
  cw_workers :: "nat \<Rightarrow> (cw_event, 'b) bufferedQueue"
  cw_pushed :: "cw_event list"
  cw_handled :: "cw_event list"

definition initialBufferSize :: nat where
  "initialBufferSize = 64"

definition newConcurrentWatcher ::
  "(cw_event, 'b) ring \<Rightarrow> bool \<Rightarrow> nat \<Rightarrow> go_error + 'b concurrentWatcher" where
  "newConcurrentWatcher R watcher_nil initialPoolSize =
     (if watcher_nil then Inl (GoErr ''resource watcher cannot be nil'')
      else if initialPoolSize \<le> 0
      then Inl (GoErr ''initial worker pool size needs to be greater than 0'')
      else Inr \<lparr>cw_size = initialPoolSize, cw_workers = (\<lambda>i. newBufferedQueue R initialBufferSize),
                cw_pushed = [], cw_handled = []\<rparr>)"

text \<open>
  \<open>Add\<close>, \<open>Update\<close> and \<open>Delete\<close> push an event to the worker of its object; the ghost \<open>cw_pushed\<close> lists the
  pushes that \<open>stop\<close> did not drop.
\<close>

definition cw_push ::
  "(string \<Rightarrow> nat) \<Rightarrow> (cw_event, 'b) ring \<Rightarrow> cw_event \<Rightarrow> 'b concurrentWatcher \<Rightarrow> 'b concurrentWatcher" where
  "cw_push hash R e w =
     (let i = hashMod hash (cw_size w) (event_object e); q = cw_workers w i
      in w\<lparr>cw_workers := (cw_workers w)(i := queue_push1 R e q),
           cw_pushed := (if bq_stopped q then cw_pushed w else cw_pushed w @ [e])\<rparr>)"

text \<open>
  One worker takes the next event of its queue and handles it before it takes another;
  \<open>cw_handled\<close> lists the calls of the wrapped watcher by the time they start.
\<close>

inductive cw_step ::
  "(string \<Rightarrow> nat) \<Rightarrow> (cw_event, 'b) ring \<Rightarrow> 'b concurrentWatcher \<Rightarrow> 'b concurrentWatcher \<Rightarrow> bool"
  for hash R where
  cws_push: "cw_step hash R w (cw_push hash R e w)"
| cws_handle: "i < cw_size w \<Longrightarrow> queue_send R (cw_workers w i) = Some (Some e, q') \<Longrightarrow>
    cw_step hash R w (w\<lparr>cw_workers := (cw_workers w)(i := q'), cw_handled := cw_handled w @ [e]\<rparr>)"
| cws_stop: "i < cw_size w \<Longrightarrow>
    cw_step hash R w (w\<lparr>cw_workers := (cw_workers w)(i := queue_stop (cw_workers w i))\<rparr>)"

text \<open>The events of one worker, and of one object.\<close>

abbreviation on_worker :: "(string \<Rightarrow> nat) \<Rightarrow> nat \<Rightarrow> nat \<Rightarrow> cw_event list \<Rightarrow> cw_event list" where
  "on_worker hash n i \<equiv> filter (\<lambda>e. hashMod hash n (event_object e) = i)"

abbreviation of_object :: "string \<Rightarrow> cw_event list \<Rightarrow> cw_event list" where
  "of_object k \<equiv> filter (\<lambda>e. object_key (event_object e) = k)"

definition cw_inv ::
  "(string \<Rightarrow> nat) \<Rightarrow> ('b \<Rightarrow> cw_event list) \<Rightarrow> 'b concurrentWatcher \<Rightarrow> bool" where
  "cw_inv hash contents w \<longleftrightarrow> 0 < cw_size w \<and>
     (\<forall>i < cw_size w. queue_ok' contents (cw_workers w i) \<and>
        on_worker hash (cw_size w) i (cw_pushed w) =
        on_worker hash (cw_size w) i (cw_handled w) @ queued contents (cw_workers w i))"

lemma hashMod_less: "0 < n \<Longrightarrow> hashMod hash n ob < n"
  by (simp add: hashMod_def)

lemma queue_stop_laws [simp]:
  "queue_ok' contents (queue_stop q) = queue_ok' contents q" "queued contents (queue_stop q) = queued contents q"
  by (simp_all add: queue_ok'_def queued_def queue_stop_def)

lemma cw_inv_init:
  assumes "ring_laws R contents" "newConcurrentWatcher R b n = Inr w"
  shows "cw_inv hash contents w"
  using assms newBufferedQueue_laws [OF assms(1)]
  by (auto simp: newConcurrentWatcher_def cw_inv_def split: if_splits)

lemma cw_inv_push:
  assumes "ring_laws R contents" "cw_inv hash contents w"
  shows "cw_inv hash contents (cw_push hash R e w)"
proof -
  let ?j = "hashMod hash (cw_size w) (event_object e)"
  have j: "?j < cw_size w" using assms(2) by (simp add: cw_inv_def hashMod_less)
  then have "queue_ok' contents (cw_workers w ?j)" using assms(2) by (simp add: cw_inv_def)
  with assms j show ?thesis
    by (auto simp: cw_inv_def cw_push_def Let_def queue_push1_def queue_recv_laws)
qed

lemma cw_inv_handle:
  assumes "ring_laws R contents" "cw_inv hash contents w" "i < cw_size w"
    and send: "queue_send R (cw_workers w i) = Some (Some e, q')"
  shows "cw_inv hash contents (w\<lparr>cw_workers := (cw_workers w)(i := q'), cw_handled := cw_handled w @ [e]\<rparr>)"
proof -
  have ok: "queue_ok' contents (cw_workers w i)" using assms(2,3) by (simp add: cw_inv_def)
  from queue_send_laws [OF assms(1) ok send] have q': "queue_ok' contents q'"
    "queued contents (cw_workers w i) = e # queued contents q'" by auto
  have "e \<in> set (on_worker hash (cw_size w) i (cw_pushed w))"
    using assms(2,3) q'(2) by (simp add: cw_inv_def)
  then have "hashMod hash (cw_size w) (event_object e) = i" by simp
  with assms(2) q' show ?thesis by (auto simp: cw_inv_def)
qed

lemma cw_inv_step:
  assumes "cw_step hash R w w'" "ring_laws R contents" "cw_inv hash contents w"
  shows "cw_inv hash contents w'"
  using assms
proof (induction rule: cw_step.induct)
  case (cws_stop i w)
  then show ?case by (auto simp: cw_inv_def)
qed (auto intro: cw_inv_push cw_inv_handle)

lemma cw_inv_reachable:
  assumes "(cw_step hash R)\<^sup>*\<^sup>* w w'" "ring_laws R contents" "cw_inv hash contents w"
  shows "cw_inv hash contents w'"
  using assms by (induction rule: rtranclp_induct) (auto intro: cw_inv_step)

text \<open>The events of an object are a part of its worker's, in the same order.\<close>

lemma of_object_on_worker:
  "of_object k (on_worker hash n (hash k mod n) es) = of_object k es"
  by (auto simp: hashMod_def intro!: filter_cong)

lemma cw_inv_object_order:
  assumes "cw_inv hash contents w"
  shows "prefix (of_object k (cw_handled w)) (of_object k (cw_pushed w))"
proof -
  let ?i = "hash k mod cw_size w"
  have "?i < cw_size w" using assms by (simp add: cw_inv_def)
  with assms have "on_worker hash (cw_size w) ?i (cw_pushed w) =
      on_worker hash (cw_size w) ?i (cw_handled w) @ queued contents (cw_workers w ?i)" by (simp add: cw_inv_def)
  then have "of_object k (cw_pushed w) = of_object k (cw_handled w) @ of_object k (queued contents (cw_workers w ?i))"
    by (metis filter_append of_object_on_worker)
  then show ?thesis by simp
qed

section \<open>The concurrent informer\<close>

record ConcurrentInformerOptions =
  cio_MaxConcurrentWorkers :: nat

definition maxConcurrentWorkers :: "ConcurrentInformerOptions \<Rightarrow> nat" where
  "maxConcurrentWorkers opts =
     (if 0 < cio_MaxConcurrentWorkers opts then cio_MaxConcurrentWorkers opts else 10)"

record 'b ConcurrentInformer =
  ci_watchers :: "'b concurrentWatcher list"
  ci_maxConcurrentWorkers :: nat

definition NewConcurrentInformer :: "ConcurrentInformerOptions \<Rightarrow> 'b ConcurrentInformer" where
  "NewConcurrentInformer opts = \<lparr>ci_watchers = [], ci_maxConcurrentWorkers = maxConcurrentWorkers opts\<rparr>"

text \<open>\<open>inner\<close> is what the wrapped informer's \<open>AddEventHandler\<close> returns.\<close>

definition AddEventHandler ::
  "(cw_event, 'b) ring \<Rightarrow> 'b ConcurrentInformer \<Rightarrow> bool \<Rightarrow> go_error option \<Rightarrow>
   'b ConcurrentInformer \<times> go_error option" where
  "AddEventHandler R ci handler_nil inner =
     (case newConcurrentWatcher R handler_nil (ci_maxConcurrentWorkers ci) of
        Inl e \<Rightarrow> (ci, Some e)
      | Inr cw \<Rightarrow> (ci\<lparr>ci_watchers := ci_watchers ci @ [cw]\<rparr>, inner))"

lemma default_workers: "ci_maxConcurrentWorkers (NewConcurrentInformer \<lparr>cio_MaxConcurrentWorkers = 0\<rparr>) = 10"
  by (simp add: NewConcurrentInformer_def maxConcurrentWorkers_def)

section \<open>Properties\<close>

text \<open>A ring buffer to run the queues on.\<close>

definition list_ring :: "('e, 'e list) ring" where
  "list_ring = \<lparr>ReadOne = (\<lambda>b. case b of [] \<Rightarrow> (None, []) | e # es \<Rightarrow> (Some e, es)),
                WriteOne = (\<lambda>e b. b @ [e]), NewRing = (\<lambda>n. [])\<rparr>"

lemma list_ring_laws: "ring_laws list_ring (\<lambda>b. b)"
  by (simp add: ring_laws_def list_ring_def)

text \<open>A run of a queue: what was pushed, what was delivered, and the queue after.\<close>

inductive queue_run ::
  "('e, 'b) ring \<Rightarrow> ('e, 'b) bufferedQueue \<Rightarrow> 'e list \<Rightarrow> 'e list \<Rightarrow> ('e, 'b) bufferedQueue \<Rightarrow> bool" for R q0 where
  run_start: "queue_run R q0 [] [] q0"
| run_push: "queue_run R q0 ps ds q \<Longrightarrow> \<not> bq_stopped q \<Longrightarrow> queue_run R q0 (ps @ [e]) ds (queue_push1 R e q)"
| run_deliver: "queue_run R q0 ps ds q \<Longrightarrow> queue_send R q = Some (Some e, q') \<Longrightarrow>
    queue_run R q0 ps (ds @ [e]) q'"

lemma queue_run_fifo:
  assumes "queue_run R q0 ps ds q" "ring_laws R contents" "queue_ok' contents q0" "queued contents q0 = []"
  shows "queue_ok' contents q \<and> ps = ds @ queued contents q"
  using assms
proof (induction rule: queue_run.induct)
  case (run_deliver ps ds q e q')
  then have ok: "queue_ok' contents q" "ps = ds @ queued contents q" by auto
  from queue_send_laws [OF assms(2) ok(1) run_deliver.hyps(2)] ok(2) show ?case by auto
qed (auto simp: queue_push1_def queue_recv_laws)

text \<open>
  The buffered queue is first in, first out and loses nothing while it is not stopped: after any
  run of pushes and deliveries, what was delivered followed by what still waits is what was pushed,
  and a delivery is possible whenever something waits.
\<close>

lemma queue_fifo:
  assumes "ring_laws R contents" "queue_run R (newBufferedQueue R n) pushed delivered q"
  shows "pushed = delivered @ queued contents q \<and>
    (queued contents q \<noteq> [] \<and> \<not> bq_closed q \<longrightarrow> queue_send R q \<noteq> None)"
  using queue_run_fifo [OF assms(2,1)] newBufferedQueue_laws [OF assms(1)] queue_send_enabled
  by metis

lemma queue_fifo_witness:
  "queued (\<lambda>b. b) (queue_push1 list_ring 2 (queue_push1 list_ring (1 :: nat) (newBufferedQueue list_ring 4))) = [1, 2]"
proof -
  let ?q0 = "newBufferedQueue list_ring 4"
  let ?q1 = "queue_push1 list_ring (1 :: nat) ?q0"
  let ?q2 = "queue_push1 list_ring 2 ?q1"
  have "queue_run list_ring ?q0 ([] @ [1]) [] ?q1"
    by (intro run_push run_start) (simp add: newBufferedQueue_def)
  then have "queue_run list_ring ?q0 (([] @ [1]) @ [2]) [] ?q2"
    by (rule run_push) (simp add: newBufferedQueue_def queue_push1_def queue_recv_def)
  from queue_fifo [OF list_ring_laws this] show ?thesis by simp
qed

text \<open>
  C10. The concurrent watcher keeps the order of events per object: whatever the workers' and
  producers' interleaving, the calls handled for an object are, in order and without gaps, the
  first of the events pushed for it.
\<close>

theorem concurrent_watcher_object_order:
  assumes "ring_laws R contents" "newConcurrentWatcher R False n = Inr w0" "(cw_step hash R)\<^sup>*\<^sup>* w0 w"
  shows "prefix (of_object k (cw_handled w)) (of_object k (cw_pushed w))"
  using cw_inv_object_order [OF cw_inv_reachable [OF assms(3,1) cw_inv_init [OF assms(1,2)]]] .

definition sample_cw :: "cw_event list concurrentWatcher" where
  "sample_cw = \<lparr>cw_size = 2, cw_workers = (\<lambda>i. newBufferedQueue list_ring initialBufferSize),
     cw_pushed = [], cw_handled = []\<rparr>"

definition sample_created :: cw_event where
  "sample_created = CreateEvent \<lparr>o_Group = ''g'', o_Version = ''v1'', o_Kind = ''Foo'', o_Namespace = ''ns'',
     o_Name = ''foo'', o_ResourceVersion = ''7'', o_Generation = 1, o_DeletionTimestamp = None,
     o_Finalizers = None, o_Spec = []\<rparr>"

theorem concurrent_watcher_object_order_witness:
  "\<exists>w :: cw_event list concurrentWatcher. cw_handled w = [sample_created] \<and> cw_pushed w = [sample_created, sample_created] \<and>
     prefix (of_object ''g/v1, Kind=Foo/ns/foo'' (cw_handled w)) (of_object ''g/v1, Kind=Foo/ns/foo'' (cw_pushed w))"
proof -
  let ?R = "list_ring :: (cw_event, cw_event list) ring"
  let ?w1 = "cw_push length ?R sample_created sample_cw"
  let ?w2 = "cw_push length ?R sample_created ?w1"
  let ?i = "hashMod length 2 (event_object sample_created)"
  have new: "newConcurrentWatcher ?R False 2 = Inr sample_cw"
    by (simp add: newConcurrentWatcher_def sample_cw_def)
  obtain q' where send: "queue_send ?R (cw_workers ?w2 ?i) = Some (Some sample_created, q')"
    by (simp add: queue_send_def cw_push_def sample_cw_def Let_def queue_push1_def queue_recv_def
        newBufferedQueue_def list_ring_def)
  let ?w3 = "?w2\<lparr>cw_workers := (cw_workers ?w2)(?i := q'), cw_handled := cw_handled ?w2 @ [sample_created]\<rparr>"
  have size: "cw_size ?w2 = 2" by (simp add: cw_push_def sample_cw_def Let_def)
  have "cw_step length ?R ?w2 ?w3" by (rule cws_handle [OF _ send]) (simp add: size hashMod_less)
  moreover have "cw_step length ?R sample_cw ?w1" "cw_step length ?R ?w1 ?w2" by (rule cws_push)+
  ultimately have "successively (cw_step length ?R) (sample_cw # [?w1, ?w2, ?w3])"
    by (simp only: successively.simps simp_thms)
  from successively_rtranclp [OF this] have "(cw_step length ?R)\<^sup>*\<^sup>* sample_cw ?w3"
    by (simp only: last.simps list.distinct if_False if_True simp_thms)
  from concurrent_watcher_object_order [OF list_ring_laws new this]
  have "prefix (of_object ''g/v1, Kind=Foo/ns/foo'' (cw_handled ?w3)) (of_object ''g/v1, Kind=Foo/ns/foo'' (cw_pushed ?w3))" .
  moreover have "cw_handled ?w3 = [sample_created]" "cw_pushed ?w3 = [sample_created, sample_created]"
    by (simp_all add: cw_push_def sample_cw_def Let_def newBufferedQueue_def queue_push1_def queue_recv_def)
  ultimately show ?thesis by blast
qed

end
