(* ===== verification/Informer_Cache.thy ===== *)
theory Informer_Cache
  imports Event_Queues
begin

text \<open>
  \<^verbatim>\<open>operator/informer_customcache.go\<close>, \<^verbatim>\<open>operator/informer_kubernetes.go\<close> and
  \<^verbatim>\<open>operator/cache_memcached.go\<close>: how an informer with its own store turns deltas into store updates
  and handler calls, the functions that adapt a watcher to informer callbacks, the options of both
  informers, and the store that keeps objects in memcached.

  The memcached client and the JSON codecs are parameters; \<open>memcache_laws\<close> and \<open>ms_laws\<close> state what
  the store relies on.
\<close>

section \<open>Stores\<close>

text \<open>\<^verbatim>\<open>cache.Store\<close> as \<open>processDeltas\<close> uses it, on a state \<open>'s\<close>: \<open>Get\<close> returns the item if it exists.\<close>

record ('o, 's) cache_store =
  st_Get :: "'o \<Rightarrow> 's \<Rightarrow> (go_error + 'o option) \<times> 's"
  st_Add :: "'o \<Rightarrow> 's \<Rightarrow> go_error option \<times> 's"
  st_Update :: "'o \<Rightarrow> 's \<Rightarrow> go_error option \<times> 's"
  st_Delete :: "'o \<Rightarrow> 's \<Rightarrow> go_error option \<times> 's"

text \<open>
  The contract of a store: it holds a map from keys to objects, writes that succeed change it at the
  object's key only, and operations that fail leave it as it was.
\<close>

definition store_laws :: "('o, 's) cache_store \<Rightarrow> ('o \<Rightarrow> string) \<Rightarrow> ('s \<Rightarrow> string \<Rightarrow> 'o option) \<Rightarrow> bool" where
  "store_laws st key held \<longleftrightarrow>
     (\<forall>ob s r s'. st_Get st ob s = (r, s') \<longrightarrow> held s' = held s \<and>
        (\<forall>x. r = Inr x \<longrightarrow> held s (key ob) = x)) \<and>
     (\<forall>ob s e s'. st_Add st ob s = (e, s') \<longrightarrow>
        held s' = (if e = None then (held s)(key ob \<mapsto> ob) else held s)) \<and>
     (\<forall>ob s e s'. st_Update st ob s = (e, s') \<longrightarrow>
        held s' = (if e = None then (held s)(key ob \<mapsto> ob) else held s)) \<and>
     (\<forall>ob s e s'. st_Delete st ob s = (e, s') \<longrightarrow>
        held s' = (if e = None then (held s)(key ob := None) else held s))"

section \<open>Processing deltas\<close>

datatype delta_type = Sync | Replaced | Added | Updated | Deleted | OtherDelta string

type_synonym 'o delta = "delta_type \<times> 'o"

definition processDelta ::
  "('o, 's) cache_store \<Rightarrow> bool \<Rightarrow> 'o delta \<Rightarrow> 's \<Rightarrow> (go_error + 'o handler_call list) \<times> 's" where
  "processDelta st isInInitialList d s =
     (let obj = snd d in
      case fst d of
        Deleted \<Rightarrow>
          (case st_Delete st obj s of
             (Some e, s') \<Rightarrow> (Inl e, s')
           | (None, s') \<Rightarrow> (Inr [OnDelete obj], s'))
      | OtherDelta x \<Rightarrow> (Inr [], s)
      | _ \<Rightarrow>
          (case st_Get st obj s of
             (Inr (Some old), s1) \<Rightarrow>
               (case st_Update st obj s1 of
                  (Some e, s') \<Rightarrow> (Inl e, s')
                | (None, s') \<Rightarrow> (Inr [OnUpdate old obj], s'))
           | (_, s1) \<Rightarrow>
               (case st_Add st obj s1 of
                  (Some e, s') \<Rightarrow> (Inl e, s')
                | (None, s') \<Rightarrow> (Inr [OnAdd obj isInInitialList], s'))))"

text \<open>The loop over the deltas: the error that ended it, the handler's calls in order, the store after.\<close>

fun processDeltas ::
  "('o, 's) cache_store \<Rightarrow> bool \<Rightarrow> 'o delta list \<Rightarrow> 's \<Rightarrow> (go_error option \<times> 'o handler_call list) \<times> 's" where
  "processDeltas st isInInitialList [] s = ((None, []), s)"
| "processDeltas st isInInitialList (d # ds) s =
     (case processDelta st isInInitialList d s of
        (Inl e, s') \<Rightarrow> ((Some e, []), s')
      | (Inr calls, s') \<Rightarrow>
          (let ((err, rest), s'') = processDeltas st isInInitialList ds s' in ((err, calls @ rest), s'')))"

text \<open>
  A handler that mirrors the store by the calls it gets: an update must name the object it has, and
  every call changes its map at the object's key. \<open>None\<close> is a call that does not fit its view.
\<close>

fun mirror :: "('o \<Rightarrow> string) \<Rightarrow> 'o handler_call list \<Rightarrow> (string \<Rightarrow> 'o option) \<Rightarrow> (string \<Rightarrow> 'o option) option" where
  "mirror key [] m = Some m"
| "mirror key (OnAdd ob b # cs) m = mirror key cs (m(key ob \<mapsto> ob))"
| "mirror key (OnUpdate old ob # cs) m =
     (if m (key ob) = Some old then mirror key cs (m(key ob \<mapsto> ob)) else None)"
| "mirror key (OnDelete ob # cs) m = mirror key cs (m(key ob := None))"

lemma mirror_append: "mirror key (cs @ cs') m = Option.bind (mirror key cs m) (mirror key cs')"
proof (induction cs arbitrary: m)
  case (Cons c cs)
  then show ?case by (cases c) (simp_all del: fun_upd_apply)
qed simp

lemma processDelta_mirrored:
  assumes laws: "store_laws st key held" and run: "processDelta st b d s = (r, s')"
  shows "case r of Inl e \<Rightarrow> held s' = held s | Inr calls \<Rightarrow> mirror key calls (held s) = Some (held s')"
proof -
  obtain t obj where d: "d = (t, obj)" by fastforce
  obtain r0 s1 where get: "st_Get st obj s = (r0, s1)" by fastforce
  from laws get have same: "held s1 = held s" "\<And>x. r0 = Inr x \<Longrightarrow> held s (key obj) = x"
    unfolding store_laws_def by blast+
  note w = laws [unfolded store_laws_def, THEN conjunct2]
  note add = w [THEN conjunct1, rule_format] and upd = w [THEN conjunct2, THEN conjunct1, rule_format]
    and del = w [THEN conjunct2, THEN conjunct2, rule_format]
  have upsert: "case r of Inl e \<Rightarrow> held s' = held s | Inr calls \<Rightarrow> mirror key calls (held s) = Some (held s')"
    if "t \<noteq> Deleted" "\<And>x. t \<noteq> OtherDelta x"
  proof (cases "\<exists>old. r0 = Inr (Some old)")
    case True
    then obtain old where old: "r0 = Inr (Some old)" by blast
    obtain e s2 where u: "st_Update st obj s1 = (e, s2)" by fastforce
    from that have "processDelta st b d s =
        (case e of Some e \<Rightarrow> (Inl e, s2) | None \<Rightarrow> (Inr [OnUpdate old obj], s2))"
      using get old u d by (cases t) (auto simp: processDelta_def split: option.split)
    with run upd [OF u] same old show ?thesis by (auto split: option.splits)
  next
    case False
    obtain e s2 where a: "st_Add st obj s1 = (e, s2)" by fastforce
    from that have "processDelta st b d s =
        (case e of Some e \<Rightarrow> (Inl e, s2) | None \<Rightarrow> (Inr [OnAdd obj b], s2))"
      using get a d False by (cases t) (auto simp: processDelta_def split: option.split sum.split)
    with run add [OF a] same show ?thesis by (auto split: option.splits)
  qed
  show ?thesis
  proof (cases "t = Deleted \<or> (\<exists>x. t = OtherDelta x)")
    case True
    then show ?thesis
    proof
      assume "t = Deleted"
      moreover obtain e s2 where "st_Delete st obj s = (e, s2)" by fastforce
      ultimately show ?thesis using run d del [of obj s e s2] by (auto simp: processDelta_def split: option.splits)
    next
      assume "\<exists>x. t = OtherDelta x"
      then show ?thesis using run d by (auto simp: processDelta_def)
    qed
  next
    case False
    then show ?thesis by (intro upsert) auto
  qed
qed

lemma processDeltas_mirrored:
  assumes "store_laws st key held" "processDeltas st b ds s = ((err, calls), s')"
  shows "mirror key calls (held s) = Some (held s')"
  using assms(2)
proof (induction ds arbitrary: s calls)
  case (Cons d ds)
  obtain r s1 where step: "processDelta st b d s = (r, s1)" by fastforce
  note m = processDelta_mirrored [OF assms(1) step]
  show ?case
  proof (cases r)
    case (Inl e)
    with Cons.prems step m show ?thesis by auto
  next
    case (Inr cs)
    with Cons.prems step obtain rest where rest: "processDeltas st b ds s1 = ((err, rest), s')" "calls = cs @ rest"
      by (auto split: prod.splits)
    from Cons.IH [OF rest(1)] m Inr rest(2) show ?thesis by (simp add: mirror_append)
  qed
qed simp

section \<open>Adapting a watcher\<close>

text \<open>What an informer may hand to a callback, and its conversion to an object of the kind.\<close>

datatype raw_object =
    RawNil
  | RawObject ptr
  | RawWrapper "ptr option"
  | RawConvertible "go_error + ptr"
  | RawOther string

definition toResourceObject :: "raw_object \<Rightarrow> go_error + ptr option" where
  "toResourceObject obj = (case obj of
     RawNil \<Rightarrow> Inl (GoErr ''object cannot be nil'')
   | RawObject p \<Rightarrow> Inr (Some p)
   | RawWrapper p \<Rightarrow> Inr p
   | RawConvertible r \<Rightarrow> (case r of Inl e \<Rightarrow> Inl e | Inr p \<Rightarrow> Inr (Some p))
   | RawOther t \<Rightarrow> Inl (GoErr (''unable to cast '' @ t @ '' into resource.Object'')))"

definition report_error :: "(go_error \<Rightarrow> ('u, unit) io) \<Rightarrow> go_error option \<Rightarrow> ('u, unit) io" where
  "report_error errorHandler err = (case err of None \<Rightarrow> State_Monad.return () | Some e \<Rightarrow> errorHandler e)"

text \<open>
  \<open>toResourceEventHandlerFuncs\<close>: the three callbacks. Each reads the kind and name of the first
  object for its tracing span, which panics on the nil that a wrapper may hold.
\<close>

datatype callback_end = Returns | Panics

definition handlerAdd ::
  "'u ResourceWatcher \<Rightarrow> (go_error \<Rightarrow> ('u, unit) io) \<Rightarrow> raw_object \<Rightarrow> ('u, callback_end) io" where
  "handlerAdd handler errorHandler obj = (case toResourceObject obj of
     Inl e \<Rightarrow> do { errorHandler e; State_Monad.return Returns }
   | Inr None \<Rightarrow> State_Monad.return Panics
   | Inr (Some p) \<Rightarrow> do {
       err \<leftarrow> rw_Add handler (Some p);
       report_error errorHandler err;
       State_Monad.return Returns
     })"

definition handlerUpdate ::
  "'u ResourceWatcher \<Rightarrow> (go_error \<Rightarrow> ('u, unit) io) \<Rightarrow> raw_object \<Rightarrow> raw_object \<Rightarrow> ('u, callback_end) io" where
  "handlerUpdate handler errorHandler oldObj newObj = (case toResourceObject oldObj of
     Inl e \<Rightarrow> do { errorHandler e; State_Monad.return Returns }
   | Inr None \<Rightarrow> State_Monad.return Panics
   | Inr (Some old) \<Rightarrow> (case toResourceObject newObj of
       Inl e \<Rightarrow> do { errorHandler e; State_Monad.return Returns }
     | Inr new \<Rightarrow> do {
         err \<leftarrow> rw_Update handler (Some old) new;
         report_error errorHandler err;
         State_Monad.return Returns
       }))"

definition handlerDelete ::
  "'u ResourceWatcher \<Rightarrow> (go_error \<Rightarrow> ('u, unit) io) \<Rightarrow> raw_object \<Rightarrow> ('u, callback_end) io" where
  "handlerDelete handler errorHandler obj = (case toResourceObject obj of
     Inl e \<Rightarrow> do { errorHandler e; State_Monad.return Returns }
   | Inr None \<Rightarrow> State_Monad.return Panics
   | Inr (Some p) \<Rightarrow> do {
       err \<leftarrow> rw_Delete handler (Some p);
       report_error errorHandler err;
       State_Monad.return Returns
     })"

text \<open>A callback ends in a panic exactly on a wrapper without an object.\<close>

lemma callback_panics:
  "fst (run_state (handlerAdd handler eh obj) w) = Panics \<longleftrightarrow> obj = RawWrapper None"
  "fst (run_state (handlerUpdate handler eh obj new) w) = Panics \<longleftrightarrow> obj = RawWrapper None"
  "fst (run_state (handlerDelete handler eh obj) w) = Panics \<longleftrightarrow> obj = RawWrapper None"
  by (auto simp: handlerAdd_def handlerUpdate_def handlerDelete_def toResourceObject_def
      split: raw_object.splits option.splits sum.splits prod.splits)

section \<open>Listing and watching\<close>

text \<open>
  \<open>NewListerWatcher\<close>: the requests made of the client for the list and watch options of the
  reflector. The filters come from the informer, the rest from the reflector.
\<close>

record ListWatchOptions =
  lw_Namespace :: string
  lw_LabelFilters :: "string list"
  lw_FieldSelectors :: "string list"

record reflector_options =
  ro_ResourceVersion :: string
  ro_ResourceVersionMatch :: string
  ro_Continue :: string
  ro_Limit :: int
  ro_AllowWatchBookmarks :: bool
  ro_TimeoutSeconds :: "int option"
  ro_SendInitialEvents :: "bool option"

definition lister_list ::
  "(string \<Rightarrow> ListOptions \<Rightarrow> 'c \<Rightarrow> (go_error + 'l) \<times> 'c) \<Rightarrow> ListWatchOptions \<Rightarrow> reflector_options \<Rightarrow>
   'c \<Rightarrow> (go_error + 'l) \<times> 'c" where
  "lister_list ListInto filterOptions options =
     ListInto (lw_Namespace filterOptions)
       \<lparr>lo_ResourceVersion = ro_ResourceVersion options, lo_LabelFilters = lw_LabelFilters filterOptions,
        lo_FieldSelectors = lw_FieldSelectors filterOptions, lo_Limit = ro_Limit options,
        lo_Continue = ro_Continue options\<rparr>"

text \<open>
  A watch response either carries a Kubernetes watch or is wrapped; the wrapper's \<open>run\<close> forwards
  the events one by one.
\<close>

datatype ('k, 'e) watch_response = KubernetesCompatible 'k | PlainWatch "'e list"

datatype ('k, 'e) watch_interface = KubernetesWatch 'k | WatchWrapper "'e list"

definition lister_watch ::
  "(string \<Rightarrow> WatchOptions \<Rightarrow> 'c \<Rightarrow> (go_error + ('k, string \<times> 'o) watch_response) \<times> 'c) \<Rightarrow> ListWatchOptions \<Rightarrow>
   reflector_options \<Rightarrow> 'c \<Rightarrow> (go_error + ('k, string \<times> 'o) watch_interface) \<times> 'c" where
  "lister_watch Watch filterOptions options c =
     (case Watch (lw_Namespace filterOptions)
        \<lparr>wo_ResourceVersion = ro_ResourceVersion options,
         wo_ResourceVersionMatch = ro_ResourceVersionMatch options,
         wo_EventBufferSize = 0,
         wo_LabelFilters = lw_LabelFilters filterOptions, wo_FieldSelectors = lw_FieldSelectors filterOptions,
         wo_AllowWatchBookmarks = ro_AllowWatchBookmarks options,
         wo_TimeoutSeconds = ro_TimeoutSeconds options,
         wo_SendInitialEvents = ro_SendInitialEvents options\<rparr> c of
        (Inl e, c') \<Rightarrow> (Inl e, c')
      | (Inr (KubernetesCompatible k), c') \<Rightarrow> (Inr (KubernetesWatch k), c')
      | (Inr (PlainWatch es), c') \<Rightarrow> (Inr (WatchWrapper es), c'))"

section \<open>Informer options\<close>

record InformerOptions =
  io_Namespace :: string
  io_LabelFilters :: "string list"
  io_FieldSelectors :: "string list"
  io_CacheResyncInterval :: duration
  io_EventTimeout :: duration

text \<open>The event timeout of a \<open>KubernetesBasedInformer\<close> and the name of its health check.\<close>

definition kubernetes_timeout :: "InformerOptions \<Rightarrow> duration" where
  "kubernetes_timeout options =
     (let timeout = (if 0 < io_EventTimeout options then io_EventTimeout options else 0)
      in if 0 < io_CacheResyncInterval options \<and> io_CacheResyncInterval options < timeout
         then io_CacheResyncInterval options else timeout)"

definition healthCheckName :: "schema \<Rightarrow> InformerOptions \<Rightarrow> string" where
  "healthCheckName sch options =
     (let base = ''informer-'' @ sch_Plural sch @ ''.'' @ sch_Group sch @ ''/'' @ sch_Version sch;
          name = (if io_Namespace options \<noteq> [] then base @ ''/namespaces/'' @ io_Namespace options else base);
          params = (if io_LabelFilters options \<noteq> []
                    then [''labelSelector='' @ join '','' (io_LabelFilters options)] else []) @
                   (if io_FieldSelectors options \<noteq> []
                    then [''fieldSelector='' @ join '','' (io_FieldSelectors options)] else [])
      in if io_LabelFilters options \<noteq> [] \<or> io_FieldSelectors options \<noteq> []
         then name @ ''?'' @ join ''&'' params else name)"

definition HealthCheck :: "bool \<Rightarrow> bool \<Rightarrow> bool \<Rightarrow> go_error option" where
  "HealthCheck hasSynced ignoreSync isStopped =
     (if \<not> hasSynced \<and> \<not> ignoreSync then Some (GoErr ''informer has not synced'')
      else if isStopped then Some (GoErr ''informer is stopped'') else None)"

text \<open>The options as \<open>NewCustomCacheInformer\<close> stores them.\<close>

record CustomCacheInformerOptions =
  cc_ProcessorBufferSize :: int
  cc_CacheResyncInterval :: duration
  cc_EventTimeout :: duration

definition processorBufferSize :: int where
  "processorBufferSize = 1024"

definition custom_cache_options :: "CustomCacheInformerOptions \<Rightarrow> CustomCacheInformerOptions" where
  "custom_cache_options opts =
     (let buf = (if cc_ProcessorBufferSize opts \<le> 0 then processorBufferSize else cc_ProcessorBufferSize opts);
          resync = (if cc_CacheResyncInterval opts < 0 then 0 else cc_CacheResyncInterval opts);
          timeout = (if cc_EventTimeout opts < 0 then 0 else cc_EventTimeout opts);
          timeout' = (if 0 < resync \<and> resync < timeout then resync else timeout)
      in \<lparr>cc_ProcessorBufferSize = buf, cc_CacheResyncInterval = resync, cc_EventTimeout = timeout'\<rparr>)"

text \<open>\<open>WaitForSync\<close> of the custom cache: the pauses, given how many checks fail before the informer has synced.\<close>

definition waitForSyncMaxInterval :: duration where
  "waitForSyncMaxInterval = 100 * 1000000"

fun sync_pauses :: "nat \<Rightarrow> duration \<Rightarrow> duration list" where
  "sync_pauses 0 interval = []"
| "sync_pauses (Suc checks) interval =
     interval # sync_pauses checks (min (interval * 2) waitForSyncMaxInterval)"

lemma sync_pauses_bounded:
  "0 < interval \<Longrightarrow> interval \<le> waitForSyncMaxInterval \<Longrightarrow>
     \<forall>p \<in> set (sync_pauses n interval). 0 < p \<and> p \<le> waitForSyncMaxInterval"
proof (induction n arbitrary: interval)
  case (Suc n)
  have "0 < min (interval * 2) waitForSyncMaxInterval" using Suc.prems by simp
  from Suc.IH [OF this] Suc.prems show ?case by simp
qed simp

section \<open>The memcached store\<close>

text \<open>
  The client on a state \<open>'m\<close> of the servers; \<open>Get\<close> returns the stored bytes or an error, a miss among
  them. \<open>GetMulti\<close> returns the found items in the order a range over the Go map visits them.
\<close>

record 'm memcache_client =
  mc_Add :: "string \<Rightarrow> string \<Rightarrow> 'm \<Rightarrow> go_error option \<times> 'm"
  mc_Replace :: "string \<Rightarrow> string \<Rightarrow> 'm \<Rightarrow> go_error option \<times> 'm"
  mc_Delete :: "string \<Rightarrow> 'm \<Rightarrow> go_error option \<times> 'm"
  mc_Get :: "string \<Rightarrow> 'm \<Rightarrow> (go_error + string) \<times> 'm"
  mc_GetMulti :: "string list \<Rightarrow> 'm \<Rightarrow> (go_error + (string \<times> string) list) \<times> 'm"
  mc_isMiss :: "go_error \<Rightarrow> bool"
  mc_isTimeout :: "go_error \<Rightarrow> bool"

text \<open>
  A memcached that keeps what it is given, which a real one need not do: it may evict a value, and a request that times
  out may have been applied. \<open>Get\<close> returns the value of a key or a miss, a write that succeeds takes effect at its key
  only, one that fails is not applied. \<^verbatim>\<open>errors.Is\<close> finds a miss in an error that wraps one. These laws are assumed by the
  lemmas on how the store calls its client and hold of the map client below.
\<close>

definition memcache_laws :: "'m memcache_client \<Rightarrow> ('m \<Rightarrow> string \<Rightarrow> string option) \<Rightarrow> bool" where
  "memcache_laws c bytes \<longleftrightarrow>
     (\<forall>k v m e m'. mc_Add c k v m = (e, m') \<longrightarrow> bytes m' = (if e = None then (bytes m)(k \<mapsto> v) else bytes m)) \<and>
     (\<forall>k v m e m'. mc_Replace c k v m = (e, m') \<longrightarrow> bytes m' = (if e = None then (bytes m)(k \<mapsto> v) else bytes m)) \<and>
     (\<forall>k m e m'. mc_Delete c k m = (e, m') \<longrightarrow> bytes m' = (if e = None then (bytes m)(k := None) else bytes m)) \<and>
     (\<forall>k m r m'. mc_Get c k m = (r, m') \<longrightarrow> bytes m' = bytes m \<and>
        (\<forall>v. r = Inr v \<longrightarrow> bytes m k = Some v) \<and> (\<forall>e. r = Inl e \<and> mc_isMiss c e \<longrightarrow> bytes m k = None)) \<and>
     (\<forall>x e f. mc_isMiss c (WrappedBoth x e f) \<longleftrightarrow> mc_isMiss c e \<or> mc_isMiss c f)"

text \<open>
  A store: the client, the key function, marshalling and reading of objects, the kind's plural, the
  tracked keys, and how the server list is refreshed (nil without a server selector).
\<close>

record ('o, 'm) MemcachedStore =
  ms_client :: "'m memcache_client"
  ms_keyFunc :: "('o \<Rightarrow> go_error + string) option"
  ms_marshal :: "'o \<Rightarrow> go_error + string"
  ms_read :: "string \<Rightarrow> go_error + 'o"
  ms_plural :: string
  ms_trackKeys :: bool
  ms_pageSize :: nat
  ms_cacheKeysKey :: string
  ms_refresh :: "('m \<Rightarrow> go_error option \<times> 'm) option"

text \<open>The state the operations change: the tracked keys, in the order a range visits them, and the servers.\<close>

type_synonym 'm ms_state = "string list \<times> 'm"

definition track :: "string \<Rightarrow> string list \<Rightarrow> string list" where
  "track k ks = (if k \<in> set ks then ks else ks @ [k])"

definition attemptWithRefreshOnTimeout ::
  "('o, 'm) MemcachedStore \<Rightarrow> ('m \<Rightarrow> ('a \<times> go_error option) \<times> 'm) \<Rightarrow> 'm \<Rightarrow> ('a \<times> go_error option) \<times> 'm" where
  "attemptWithRefreshOnTimeout ms f m =
     (case f m of
        ((a, None), m1) \<Rightarrow> ((a, None), m1)
      | ((a, Some e), m1) \<Rightarrow>
          (case ms_refresh ms of
             None \<Rightarrow> ((a, Some e), m1)
           | Some refresh \<Rightarrow>
               if mc_isTimeout (ms_client ms) e then
                 (case refresh m1 of
                    (Some re, m2) \<Rightarrow> ((a, Some (WrappedBoth ''could not refresh server list'' e re)), m2)
                  | (None, m2) \<Rightarrow> f m2)
               else ((a, Some e), m1)))"

definition getKey :: "('o, 'm) MemcachedStore \<Rightarrow> 'o \<Rightarrow> go_error + string \<times> string" where
  "getKey ms obj = (case ms_keyFunc ms of
     None \<Rightarrow> Inl (GoErr ''no KeyFunc defined'')
   | Some f \<Rightarrow> (case f obj of Inl e \<Rightarrow> Inl e | Inr k \<Rightarrow> Inr (ms_plural ms @ ''/'' @ k, k)))"

definition ms_Add :: "('o, 'm) MemcachedStore \<Rightarrow> 'o \<Rightarrow> 'm ms_state \<Rightarrow> go_error option \<times> 'm ms_state" where
  "ms_Add ms obj s = (case getKey ms obj of
     Inl e \<Rightarrow> (Some e, s)
   | Inr (key, trackKey) \<Rightarrow> (case ms_marshal ms obj of
       Inl e \<Rightarrow> (Some e, s)
     | Inr v \<Rightarrow>
         (let (err, m') = mc_Add (ms_client ms) key v (snd s)
          in (err, (if ms_trackKeys ms \<and> err = None then track trackKey (fst s) else fst s, m')))))"

definition ms_Update :: "('o, 'm) MemcachedStore \<Rightarrow> 'o \<Rightarrow> 'm ms_state \<Rightarrow> go_error option \<times> 'm ms_state" where
  "ms_Update ms obj s = (case getKey ms obj of
     Inl e \<Rightarrow> (Some e, s)
   | Inr (key, trackKey) \<Rightarrow> (case ms_marshal ms obj of
       Inl e \<Rightarrow> (Some e, s)
     | Inr v \<Rightarrow>
         (let ((u, err), m') = attemptWithRefreshOnTimeout ms
                (\<lambda>m. let (e, m1) = mc_Replace (ms_client ms) key v m in (((), e), m1)) (snd s)
          in (err, (fst s, m')))))"

definition ms_Delete :: "('o, 'm) MemcachedStore \<Rightarrow> 'o \<Rightarrow> 'm ms_state \<Rightarrow> go_error option \<times> 'm ms_state" where
  "ms_Delete ms obj s = (case getKey ms obj of
     Inl e \<Rightarrow> (Some e, s)
   | Inr (key, trackKey) \<Rightarrow>
       (let ((u, err), m') = attemptWithRefreshOnTimeout ms
              (\<lambda>m. let (e, m1) = mc_Delete (ms_client ms) key m in (((), e), m1)) (snd s)
        in (err, (if err = None \<and> ms_trackKeys ms then remove1 trackKey (fst s) else fst s, m'))))"

text \<open>
  \<open>getByKey\<close>: the item read, whether it exists, and the error. A value that cannot be read
  exists and has an error.
\<close>

definition getByKey ::
  "('o, 'm) MemcachedStore \<Rightarrow> string \<Rightarrow> 'm \<Rightarrow> ('o option \<times> bool \<times> go_error option) \<times> 'm" where
  "getByKey ms key m =
     (let ((fromCache, err), m') = attemptWithRefreshOnTimeout ms
        (\<lambda>m. case mc_Get (ms_client ms) key m of
            (Inl e, m1) \<Rightarrow> ((None, Some e), m1) | (Inr v, m1) \<Rightarrow> ((Some v, None), m1)) m
      in (case err of
            Some e \<Rightarrow>
              if \<not> mc_isMiss (ms_client ms) e then ((None, False, Some e), m') else ((None, False, None), m')
          | None \<Rightarrow>
              (case fromCache of
                 None \<Rightarrow> ((None, False, None), m')
               | Some v \<Rightarrow>
                   (case ms_read ms v of
                      Inl e \<Rightarrow> ((None, True, Some e), m') | Inr x \<Rightarrow> ((Some x, True, None), m')))))"

definition ms_Get ::
  "('o, 'm) MemcachedStore \<Rightarrow> 'o \<Rightarrow> 'm ms_state \<Rightarrow> ('o option \<times> bool \<times> go_error option) \<times> 'm ms_state" where
  "ms_Get ms obj s = (case getKey ms obj of
     Inl e \<Rightarrow> ((None, False, Some e), s)
   | Inr (key, trackKey) \<Rightarrow>
       (let ((item, exists, err), m') = getByKey ms key (snd s)
        in ((item, exists, err),
            (if ms_trackKeys ms \<and> err = None \<and> exists then track trackKey (fst s) else fst s, m'))))"

definition ms_GetByKey ::
  "('o, 'm) MemcachedStore \<Rightarrow> string \<Rightarrow> 'm ms_state \<Rightarrow> ('o option \<times> bool \<times> go_error option) \<times> 'm ms_state" where
  "ms_GetByKey ms key s =
     (let ((item, exists, err), m') = getByKey ms (ms_plural ms @ ''/'' @ key) (snd s)
      in ((item, exists, err),
          (if ms_trackKeys ms \<and> exists \<and> err = None then track key (fst s) else fst s, m')))"

definition ms_ListKeys :: "('o, 'm) MemcachedStore \<Rightarrow> 'm ms_state \<Rightarrow> string list option" where
  "ms_ListKeys ms s = (if \<not> ms_trackKeys ms then None else Some (fst s))"

text \<open>
  \<open>List\<close>: one page of keys after another. For each page the loop over the result stores every item
  at the same position, the page's first, so the last one visited stays.
\<close>

fun list_pages ::
  "('o, 'm) MemcachedStore \<Rightarrow> nat \<Rightarrow> string list \<Rightarrow> nat \<Rightarrow> (string \<times> string) option list \<Rightarrow> 'm \<Rightarrow>
   (string \<times> string) option list option \<times> 'm" where
  "list_pages ms 0 keys i items m = (Some items, m)"
| "list_pages ms (Suc fuel) keys i items m =
     (if length keys \<le> i then (Some items, m)
      else (let fetchKeys = map (\<lambda>k. ms_plural ms @ ''/'' @ k) (take (ms_pageSize ms) (drop i keys));
                ((res, err), m') = attemptWithRefreshOnTimeout ms
                  (\<lambda>m. case mc_GetMulti (ms_client ms) fetchKeys m of
                      (Inl e, m1) \<Rightarrow> (([], Some e), m1) | (Inr r, m1) \<Rightarrow> ((r, None), m1)) m
            in (case err of
                  Some e \<Rightarrow> (None, m')
                | None \<Rightarrow>
                    list_pages ms fuel keys (i + ms_pageSize ms)
                      (foldl (\<lambda>its r. its[i := Some r]) items res) m')))"

definition ms_List ::
  "('o, 'm) MemcachedStore \<Rightarrow> 'm ms_state \<Rightarrow> (string \<times> string) option list option \<times> 'm ms_state" where
  "ms_List ms s = (case ms_ListKeys ms s of
     None \<Rightarrow> (None, s)
   | Some keys \<Rightarrow>
       (let (r, m') = list_pages ms (length keys) keys 0 (replicate (length keys) None) (snd s)
        in (r, (fst s, m'))))"

text \<open>\<open>setKeysFromCache\<close> and \<open>syncKeys\<close>, with the JSON codec of a list of strings as \<open>enc\<close> and \<open>dec\<close>.\<close>

definition setKeysFromCache ::
  "('o, 'm) MemcachedStore \<Rightarrow> (string \<Rightarrow> go_error + string list) \<Rightarrow> 'm ms_state \<Rightarrow> go_error option \<times> 'm ms_state" where
  "setKeysFromCache ms dec s =
     (let ((item, err), m') = attemptWithRefreshOnTimeout ms
        (\<lambda>m. case mc_Get (ms_client ms) (ms_cacheKeysKey ms) m of
            (Inl e, m1) \<Rightarrow> (([], Some e), m1) | (Inr v, m1) \<Rightarrow> ((v, None), m1)) (snd s)
      in (case err of
            Some e \<Rightarrow> (if mc_isMiss (ms_client ms) e then None else Some e, (fst s, m'))
          | None \<Rightarrow>
              (case dec item of
                 Inl e \<Rightarrow> (Some e, (fst s, m'))
               | Inr keys \<Rightarrow> (None, (foldl (\<lambda>ks k. track k ks) (fst s) keys, m')))))"

definition syncKeys ::
  "('o, 'm) MemcachedStore \<Rightarrow> (string list \<Rightarrow> string) \<Rightarrow> 'm ms_state \<Rightarrow> go_error option \<times> 'm ms_state" where
  "syncKeys ms enc s =
     (let ((u, err), m1) = attemptWithRefreshOnTimeout ms
        (\<lambda>m. case mc_Get (ms_client ms) (ms_cacheKeysKey ms) m of
            (Inr v, m1) \<Rightarrow> (((), None), m1)
          | (Inl e, m1) \<Rightarrow>
              if \<not> mc_isMiss (ms_client ms) e then (((), Some e), m1)
              else (let (e', m2) = mc_Add (ms_client ms) (ms_cacheKeysKey ms) ''[]'' m1 in (((), e'), m2))) (snd s)
      in (case err of
            Some e \<Rightarrow> (Some e, (fst s, m1))
          | None \<Rightarrow>
              (let ((u, err'), m2) = attemptWithRefreshOnTimeout ms
                 (\<lambda>m. let (e, m') = mc_Replace (ms_client ms) (ms_cacheKeysKey ms) (enc (fst s)) m in (((), e), m')) m1
               in (err', (fst s, m2)))))"

text \<open>
  \<open>NewMemcachedStore\<close>. The keys are loaded before the shard key becomes part of the name they are
  stored under.
\<close>

record ('o, 'm) MemcachedStoreConfig =
  mcfg_KeyFunc :: "('o \<Rightarrow> go_error + string) option"
  mcfg_ServerSelector :: "('m \<Rightarrow> go_error option \<times> 'm) option"
  mcfg_KeySyncInterval :: duration
  mcfg_PageSize :: int
  mcfg_ShardKey :: string

definition MemcachedStoreDefaultPageSize :: nat where
  "MemcachedStoreDefaultPageSize = 500"

definition NewMemcachedStore ::
  "'m memcache_client \<Rightarrow> ('o \<Rightarrow> go_error + string) \<Rightarrow> ('o \<Rightarrow> go_error + string) \<Rightarrow> (string \<Rightarrow> go_error + 'o) \<Rightarrow>
   (string \<Rightarrow> go_error + string list) \<Rightarrow> string \<Rightarrow> ('o, 'm) MemcachedStoreConfig \<Rightarrow> 'm \<Rightarrow>
   (go_error + ('o, 'm) MemcachedStore) \<times> 'm ms_state" where
  "NewMemcachedStore client DeletionHandlingMetaNamespaceKeyFunc marshal read dec plural cfg m =
     (let keyFunc = (case mcfg_KeyFunc cfg of None \<Rightarrow> DeletionHandlingMetaNamespaceKeyFunc | Some f \<Rightarrow> f);
          store = \<lparr>ms_client = client, ms_keyFunc = Some keyFunc, ms_marshal = marshal, ms_read = read,
                   ms_plural = plural, ms_trackKeys = (mcfg_KeySyncInterval cfg \<noteq> 0),
                   ms_pageSize = (if 0 < mcfg_PageSize cfg then nat (mcfg_PageSize cfg)
                                  else MemcachedStoreDefaultPageSize),
                   ms_cacheKeysKey = plural @ ''-keys'', ms_refresh = mcfg_ServerSelector cfg\<rparr>;
          (err, s) = (if ms_trackKeys store then setKeysFromCache store dec ([], m) else (None, ([], m)))
      in (case err of
            Some e \<Rightarrow> (Inl e, s)
          | None \<Rightarrow>
              (Inr (if mcfg_ShardKey cfg \<noteq> []
                    then store\<lparr>ms_cacheKeysKey := ms_cacheKeysKey store @ ''-'' @ mcfg_ShardKey cfg\<rparr> else store), s)))"

text \<open>The page size of a store made by \<open>NewMemcachedStore\<close> is positive, so \<open>List\<close> needs no more rounds than keys.\<close>

lemma NewMemcachedStore_pageSize:
  "NewMemcachedStore client f mar rd dec plural cfg m = (Inr ms, s) \<Longrightarrow> 0 < ms_pageSize ms"
  by (auto simp: NewMemcachedStore_def MemcachedStoreDefaultPageSize_def Let_def split: option.splits prod.splits if_splits)

lemma list_pages_fuel_enough:
  "0 < ms_pageSize ms \<Longrightarrow> length keys \<le> i + n \<Longrightarrow> n \<le> n' \<Longrightarrow> list_pages ms n keys i items m = list_pages ms n' keys i items m"
proof (induction n arbitrary: n' i items m)
  case 0
  then show ?case by (cases n') auto
next
  case (Suc n)
  then obtain k where n': "n' = Suc k" "n \<le> k" by (cases n') auto
  have "length keys \<le> i + ms_pageSize ms + n" using Suc.prems by simp
  note IH = Suc.IH [OF Suc.prems(1) this n'(2)]
  show ?case by (simp add: n' IH Let_def del: foldl.simps split: prod.split option.split)
qed

text \<open>A store with a shard key writes its keys under another name than it reads them from at start.\<close>

lemma shard_keys_not_reloaded:
  "NewMemcachedStore client f mar rd dec plural cfg m = (Inr ms, s) \<Longrightarrow> mcfg_ShardKey cfg \<noteq> [] \<Longrightarrow>
     ms_cacheKeysKey ms = plural @ ''-keys-'' @ mcfg_ShardKey cfg \<and> ms_cacheKeysKey ms \<noteq> plural @ ''-keys''"
  by (auto simp: NewMemcachedStore_def Let_def split: option.splits prod.splits if_splits)

section \<open>The memcached store keeps the contract\<close>

definition memcached_store :: "('o, 'm) MemcachedStore \<Rightarrow> ('o, 'm ms_state) cache_store" where
  "memcached_store ms =
     \<lparr>st_Get = (\<lambda>ob s. let ((item, exists, err), s') = ms_Get ms ob s
        in (case err of Some e \<Rightarrow> Inl e | None \<Rightarrow> Inr (if exists then item else None), s')),
      st_Add = ms_Add ms, st_Update = ms_Update ms, st_Delete = ms_Delete ms\<rparr>"

text \<open>
  The client's laws, objects that read back as they were marshalled, and a refresh of the server list that leaves every
  key on its server (with other servers a key may move to one without its value) and whose error is not a miss.
\<close>

definition ms_laws :: "('o, 'm) MemcachedStore \<Rightarrow> ('m \<Rightarrow> string \<Rightarrow> string option) \<Rightarrow> bool" where
  "ms_laws ms bytes \<longleftrightarrow> memcache_laws (ms_client ms) bytes \<and>
     (\<forall>ob v. ms_marshal ms ob = Inr v \<longrightarrow> ms_read ms v = Inr ob) \<and>
     (\<forall>r m. ms_refresh ms = Some r \<longrightarrow> bytes (snd (r m)) = bytes m \<and>
        (\<forall>e. fst (r m) = Some e \<longrightarrow> \<not> mc_isMiss (ms_client ms) e))"

definition ms_key :: "('o, 'm) MemcachedStore \<Rightarrow> 'o \<Rightarrow> string" where
  "ms_key ms ob = (case getKey ms ob of Inl e \<Rightarrow> [] | Inr (k, t) \<Rightarrow> t)"

text \<open>What the store holds under a key: the object its bytes read as.\<close>

definition ms_held ::
  "('o, 'm) MemcachedStore \<Rightarrow> ('m \<Rightarrow> string \<Rightarrow> string option) \<Rightarrow> 'm ms_state \<Rightarrow> string \<Rightarrow> 'o option" where
  "ms_held ms bytes s k = Option.bind (bytes (snd s) (ms_plural ms @ ''/'' @ k))
     (\<lambda>v. case ms_read ms v of Inl e \<Rightarrow> None | Inr x \<Rightarrow> Some x)"

lemma getKey_parts: "getKey ms ob = Inr (k, t) \<Longrightarrow> k = ms_plural ms @ ''/'' @ t \<and> t = ms_key ms ob"
  by (auto simp: getKey_def ms_key_def split: option.splits sum.splits)

text \<open>An attempt with one refresh has the effect of one successful request, or none.\<close>

lemma attempt_rel:
  assumes laws: "ms_laws ms bytes" and run: "attemptWithRefreshOnTimeout ms f m = ((a, err), m')"
    and f: "\<And>m a e m'. f m = ((a, e), m') \<Longrightarrow> R (bytes m) a e (bytes m')"
    and fails: "\<And>b a e b' x e'. R b a (Some e) b' \<Longrightarrow> \<not> mc_isMiss (ms_client ms) e' \<Longrightarrow>
      b' = b \<and> R b a (Some (WrappedBoth x e e')) b"
    and stays: "\<And>b a e b'. R b a (Some e) b' \<Longrightarrow> b' = b"
  shows "R (bytes m) a err (bytes m')"
proof -
  obtain a1 e1 m1 where 1: "f m = ((a1, e1), m1)" by (metis surj_pair)
  show ?thesis
  proof (cases "\<exists>e r. e1 = Some e \<and> ms_refresh ms = Some r \<and> mc_isTimeout (ms_client ms) e")
    case False
    with run 1 have "m' = m1" "err = e1" "a = a1"
      by (auto simp: attemptWithRefreshOnTimeout_def split: option.splits)
    with f [OF 1] show ?thesis by simp
  next
    case True
    then obtain e r where e: "e1 = Some e" "ms_refresh ms = Some r" "mc_isTimeout (ms_client ms) e" by blast
    obtain re m2 where 2: "r m1 = (re, m2)" by fastforce
    note R1 = f [OF 1, unfolded e(1)]
    from laws e(2) have "bytes (snd (r m1)) = bytes m1" unfolding ms_laws_def by blast
    with 2 stays [OF R1] have same: "bytes m2 = bytes m" by simp
    show ?thesis
    proof (cases re)
      case None
      with run 1 2 e have "f m2 = ((a, err), m')" by (simp add: attemptWithRefreshOnTimeout_def)
      from f [OF this] same show ?thesis by simp
    next
      case (Some x)
      with run 1 2 e have "m' = m2" "a = a1" "err = Some (WrappedBoth ''could not refresh server list'' e x)"
        by (auto simp: attemptWithRefreshOnTimeout_def)
      moreover have "fst (r m1) = Some x" using 2 Some by simp
      with laws e(2) have "\<not> mc_isMiss (ms_client ms) x" unfolding ms_laws_def by blast
      ultimately show ?thesis using same fails [OF R1] by simp
    qed
  qed
qed

definition write_rel :: "('b \<Rightarrow> 'b) \<Rightarrow> 'b \<Rightarrow> unit \<Rightarrow> go_error option \<Rightarrow> 'b \<Rightarrow> bool" where
  "write_rel upd b a e b' \<longleftrightarrow> b' = (if e = None then upd b else b)"

definition get_rel ::
  "'m memcache_client \<Rightarrow> string \<Rightarrow> (string \<Rightarrow> string option) \<Rightarrow> string option \<Rightarrow> go_error option \<Rightarrow>
   (string \<Rightarrow> string option) \<Rightarrow> bool" where
  "get_rel c k b a e b' \<longleftrightarrow> b' = b \<and>
     (case e of None \<Rightarrow> a \<noteq> None \<and> b k = a | Some e' \<Rightarrow> a = None \<and> (mc_isMiss c e' \<longrightarrow> b k = None))"

lemma attempt_write:
  assumes "ms_laws ms bytes" "attemptWithRefreshOnTimeout ms f m = ((u, err), m')"
    and "\<And>m e m'. f m = (((), e), m') \<Longrightarrow> bytes m' = (if e = None then upd (bytes m) else bytes m)"
  shows "bytes m' = (if err = None then upd (bytes m) else bytes m)"
  using attempt_rel [OF assms(1,2), of "write_rel upd"] assms(3) by (simp add: write_rel_def)

lemma attempt_get:
  assumes laws: "ms_laws ms bytes"
    and run: "attemptWithRefreshOnTimeout ms
      (\<lambda>m. case mc_Get (ms_client ms) k m of
            (Inl e, m1) \<Rightarrow> ((None, Some e), m1) | (Inr v, m1) \<Rightarrow> ((Some v, None), m1)) m = ((a, err), m')"
  shows "get_rel (ms_client ms) k (bytes m) a err (bytes m')"
proof (rule attempt_rel [OF laws run])
  fix m a e m'
  assume "(case mc_Get (ms_client ms) k m of
      (Inl e, m1) \<Rightarrow> ((None, Some e), m1) | (Inr v, m1) \<Rightarrow> ((Some v, None), m1)) = ((a, e), m')"
  with laws show "get_rel (ms_client ms) k (bytes m) a e (bytes m')"
    unfolding ms_laws_def memcache_laws_def get_rel_def
    by (cases "mc_Get (ms_client ms) k m") (auto split: sum.splits)
next
  fix b a e b' x e'
  assume "get_rel (ms_client ms) k b a (Some e) b'" "\<not> mc_isMiss (ms_client ms) e'"
  with laws show "b' = b \<and> get_rel (ms_client ms) k b a (Some (WrappedBoth x e e')) b"
    unfolding ms_laws_def memcache_laws_def get_rel_def by auto
next
  fix b a e b'
  assume "get_rel (ms_client ms) k b a (Some e) b'"
  then show "b' = b" by (simp add: get_rel_def)
qed

lemma ms_write_laws:
  assumes laws: "ms_laws ms bytes"
  shows "ms_Add ms ob s = (e, s') \<Longrightarrow>
      ms_held ms bytes s' = (if e = None then (ms_held ms bytes s)(ms_key ms ob \<mapsto> ob) else ms_held ms bytes s)"
    and "ms_Update ms ob s = (e, s') \<Longrightarrow>
      ms_held ms bytes s' = (if e = None then (ms_held ms bytes s)(ms_key ms ob \<mapsto> ob) else ms_held ms bytes s)"
    and "ms_Delete ms ob s = (e, s') \<Longrightarrow>
      ms_held ms bytes s' = (if e = None then (ms_held ms bytes s)(ms_key ms ob := None) else ms_held ms bytes s)"
proof -
  have held: "ms_held ms bytes (ks, m') = (ms_held ms bytes s)(ms_key ms ob \<mapsto> ob)"
    if "bytes m' = (bytes (snd s))(k \<mapsto> v)" "getKey ms ob = Inr (k, t)" "ms_marshal ms ob = Inr v" for ks m' k t v
    using that laws getKey_parts [OF that(2)] by (auto simp: ms_held_def ms_laws_def fun_eq_iff)
  have gone: "ms_held ms bytes (ks, m') = (ms_held ms bytes s)(ms_key ms ob := None)"
    if "bytes m' = (bytes (snd s))(k := None)" "getKey ms ob = Inr (k, t)" for ks m' k t
    using that getKey_parts [OF that(2)] by (auto simp: ms_held_def fun_eq_iff)
  have same: "ms_held ms bytes (ks, m') = ms_held ms bytes s" if "bytes m' = bytes (snd s)" for ks m'
    using that by (simp add: ms_held_def fun_eq_iff)
  note mc = laws [unfolded ms_laws_def memcache_laws_def, THEN conjunct1]
  note mcAdd = mc [THEN conjunct1, rule_format]
  {
    assume run: "ms_Add ms ob s = (e, s')"
    show "ms_held ms bytes s' = (if e = None then (ms_held ms bytes s)(ms_key ms ob \<mapsto> ob) else ms_held ms bytes s)"
    proof (cases "\<exists>k t v. getKey ms ob = Inr (k, t) \<and> ms_marshal ms ob = Inr v")
      case True
      then obtain k t v where kv: "getKey ms ob = Inr (k, t)" "ms_marshal ms ob = Inr v" by blast
      obtain e1 m1 where w: "mc_Add (ms_client ms) k v (snd s) = (e1, m1)" by fastforce
      note mcAdd [OF this]
      with run kv w held [of m1] same [of m1] show ?thesis by (auto simp: ms_Add_def)
    next
      case False
      with run show ?thesis by (auto simp: ms_Add_def split: sum.splits)
    qed
  next
    assume run: "ms_Update ms ob s = (e, s')"
    show "ms_held ms bytes s' = (if e = None then (ms_held ms bytes s)(ms_key ms ob \<mapsto> ob) else ms_held ms bytes s)"
    proof (cases "\<exists>k t v. getKey ms ob = Inr (k, t) \<and> ms_marshal ms ob = Inr v")
      case True
      then obtain k t v where kv: "getKey ms ob = Inr (k, t)" "ms_marshal ms ob = Inr v" by blast
      let ?f = "\<lambda>m. let (e, m1) = mc_Replace (ms_client ms) k v m in (((), e), m1)"
      obtain u e1 m1 where w: "attemptWithRefreshOnTimeout ms ?f (snd s) = ((u, e1), m1)" by (metis surj_pair)
      have "bytes m1 = (if e1 = None then (bytes (snd s))(k \<mapsto> v) else bytes (snd s))"
        by (rule attempt_write [OF laws w]) (use mc in \<open>auto split: prod.splits\<close>)
      with run kv w held [of m1] same [of m1] show ?thesis by (auto simp: ms_Update_def)
    next
      case False
      with run show ?thesis by (auto simp: ms_Update_def split: sum.splits)
    qed
  next
    assume run: "ms_Delete ms ob s = (e, s')"
    show "ms_held ms bytes s' = (if e = None then (ms_held ms bytes s)(ms_key ms ob := None) else ms_held ms bytes s)"
    proof (cases "getKey ms ob")
      case (Inr kt)
      then obtain k t where kt: "getKey ms ob = Inr (k, t)" by (cases kt) auto
      let ?f = "\<lambda>m. let (e, m1) = mc_Delete (ms_client ms) k m in (((), e), m1)"
      obtain u e1 m1 where w: "attemptWithRefreshOnTimeout ms ?f (snd s) = ((u, e1), m1)" by (metis surj_pair)
      have "bytes m1 = (if e1 = None then (bytes (snd s))(k := None) else bytes (snd s))"
        by (rule attempt_write [OF laws w]) (use mc in \<open>auto split: prod.splits\<close>)
      with run kt w gone [of m1] same [of m1] show ?thesis by (auto simp: ms_Delete_def)
    qed (use run in \<open>auto simp: ms_Delete_def\<close>)
  }
qed

lemma surj_pair3: "\<exists>a b c. x = ((a, b), c)"
  by (metis prod.exhaust)

lemma getByKey_held:
  assumes laws: "ms_laws ms bytes" and kt: "getKey ms ob = Inr (k, t)"
    and w: "attemptWithRefreshOnTimeout ms
      (\<lambda>m. case mc_Get (ms_client ms) k m of
            (Inl e, m1) \<Rightarrow> ((None, Some e), m1) | (Inr v, m1) \<Rightarrow> ((Some v, None), m1)) (snd s) = ((a, err), m1)"
  shows "\<exists>item ex e2. getByKey ms k (snd s) = ((item, ex, e2), m1) \<and>
    (e2 = None \<longrightarrow> (if ex then item else None) = ms_held ms bytes s (ms_key ms ob))"
proof -
  have held: "ms_held ms bytes s (ms_key ms ob) =
      Option.bind (bytes (snd s) k) (\<lambda>v. case ms_read ms v of Inl e \<Rightarrow> None | Inr x \<Rightarrow> Some x)"
    using getKey_parts [OF kt] by (simp add: ms_held_def)
  have run: "getByKey ms k (snd s) =
      (case err of
         Some e \<Rightarrow> if \<not> mc_isMiss (ms_client ms) e then ((None, False, Some e), m1) else ((None, False, None), m1)
       | None \<Rightarrow> (case a of
           None \<Rightarrow> ((None, False, None), m1)
         | Some v \<Rightarrow> (case ms_read ms v of
             Inl e \<Rightarrow> ((None, True, Some e), m1) | Inr x \<Rightarrow> ((Some x, True, None), m1))))"
    unfolding getByKey_def w by simp
  show ?thesis
    using attempt_get [OF laws w] unfolding run held get_rel_def by (auto split: option.splits sum.splits)
qed

lemma ms_Get_laws:
  assumes laws: "ms_laws ms bytes" and run: "st_Get (memcached_store ms) ob s = (r, s')"
  shows "ms_held ms bytes s' = ms_held ms bytes s \<and> (\<forall>x. r = Inr x \<longrightarrow> ms_held ms bytes s (ms_key ms ob) = x)"
proof (cases "getKey ms ob")
  case (Inl e)
  with run show ?thesis by (auto simp: memcached_store_def ms_Get_def)
next
  case (Inr kt)
  then obtain k t where kt: "getKey ms ob = Inr (k, t)" by (cases kt) auto
  let ?f = "\<lambda>m. case mc_Get (ms_client ms) k m of
      (Inl e, m1) \<Rightarrow> ((None, Some e), m1) | (Inr v, m1) \<Rightarrow> ((Some v, None), m1)"
  obtain a err m1 where w: "attemptWithRefreshOnTimeout ms ?f (snd s) = ((a, err), m1)"
    using surj_pair3 [of "attemptWithRefreshOnTimeout ms ?f (snd s)"] by blast
  note g = attempt_get [OF laws w]
  obtain item ex e2 where by_key: "getByKey ms k (snd s) = ((item, ex, e2), m1)"
    and found: "e2 = None \<Longrightarrow> (if ex then item else None) = ms_held ms bytes s (ms_key ms ob)"
    using getByKey_held [OF laws kt w] by blast
  have "st_Get (memcached_store ms) ob s =
      (case e2 of Some e \<Rightarrow> Inl e | None \<Rightarrow> Inr (if ex then item else None),
       (if ms_trackKeys ms \<and> e2 = None \<and> ex then track t (fst s) else fst s, m1))"
    by (simp add: memcached_store_def ms_Get_def kt by_key)
  with run have "snd s' = m1" and r: "r = (case e2 of Some e \<Rightarrow> Inl e | None \<Rightarrow> Inr (if ex then item else None))"
    by auto
  with g have "ms_held ms bytes s' = ms_held ms bytes s" by (simp add: get_rel_def ms_held_def fun_eq_iff)
  with r found show ?thesis by (auto split: option.splits if_splits)
qed

text \<open>
  A client for the witnesses: one server that holds a map, where \<open>Add\<close> fails on a present key,
  \<open>Replace\<close> and \<open>Delete\<close> on an absent one.
\<close>

fun is_miss :: "go_error \<Rightarrow> bool" where
  "is_miss (Wrapped m e) = is_miss e"
| "is_miss (WrappedBoth m e f) = (is_miss e \<or> is_miss f)"
| "is_miss e = (e = GoErr ''cache miss'')"

definition map_client :: "(string \<Rightarrow> string option) memcache_client" where
  "map_client =
     \<lparr>mc_Add = (\<lambda>k v m. if m k = None then (None, m(k \<mapsto> v)) else (Some (GoErr ''not stored''), m)),
      mc_Replace = (\<lambda>k v m. if m k = None then (Some (GoErr ''not stored''), m) else (None, m(k \<mapsto> v))),
      mc_Delete = (\<lambda>k m. if m k = None then (Some (GoErr ''cache miss''), m) else (None, m(k := None))),
      mc_Get = (\<lambda>k m. (case m k of None \<Rightarrow> Inl (GoErr ''cache miss'') | Some v \<Rightarrow> Inr v, m)),
      mc_GetMulti = (\<lambda>ks m. (Inr (map (\<lambda>k. (k, the (m k))) (filter (\<lambda>k. m k \<noteq> None) ks)), m)),
      mc_isMiss = is_miss,
      mc_isTimeout = (\<lambda>e. e = GoErr ''EOF'')\<rparr>"

text \<open>A store of pairs of a name and a value, marshalled with a separator.\<close>

definition map_store :: "(string \<times> string, string \<Rightarrow> string option) MemcachedStore" where
  "map_store =
     \<lparr>ms_client = map_client, ms_keyFunc = Some (\<lambda>ob. Inr (fst ob)),
      ms_marshal = (\<lambda>ob. if CHR ''='' \<in> set (fst ob) then Inl (GoErr ''bad name'') else Inr (fst ob @ ''='' @ snd ob)),
      ms_read = (\<lambda>v. Inr (takeWhile (\<lambda>c. c \<noteq> CHR ''='') v, tl (dropWhile (\<lambda>c. c \<noteq> CHR ''='') v))),
      ms_plural = ''foos'', ms_trackKeys = True, ms_pageSize = 2, ms_cacheKeysKey = ''foos-keys'',
      ms_refresh = Some (\<lambda>m. (None, m))\<rparr>"

lemma map_client_laws: "memcache_laws map_client (\<lambda>m. m)"
  by (auto simp: memcache_laws_def map_client_def split: if_splits option.splits)

lemma takeWhile_sep: "c \<notin> set xs \<Longrightarrow> takeWhile (\<lambda>x. x \<noteq> c) (xs @ c # ys) = xs \<and> dropWhile (\<lambda>x. x \<noteq> c) (xs @ c # ys) = c # ys"
  by (induction xs) auto

lemma map_store_laws: "ms_laws map_store (\<lambda>m. m)"
  using map_client_laws takeWhile_sep [of "CHR ''=''"]
  by (auto simp: ms_laws_def map_store_def split: if_splits)

text \<open>
  Over a memcached that keeps what it is given, the store keeps the contract of a store, also when a request was
  repeated after a refresh of the server list.
\<close>

lemma memcached_store_contract:
  assumes "ms_laws ms bytes"
  shows "store_laws (memcached_store ms) (ms_key ms) (ms_held ms bytes)"
  unfolding store_laws_def
proof (intro conjI)
  show "\<forall>ob s r s'. st_Get (memcached_store ms) ob s = (r, s') \<longrightarrow> ms_held ms bytes s' = ms_held ms bytes s \<and>
      (\<forall>x. r = Inr x \<longrightarrow> ms_held ms bytes s (ms_key ms ob) = x)"
    using ms_Get_laws [OF assms] by blast
qed (simp_all add: memcached_store_def ms_write_laws [OF assms])

lemmas ms_store_of_map = memcached_store_contract [OF map_store_laws]

lemmas delta_eval = processDelta_def memcached_store_def ms_Get_def ms_Add_def ms_Update_def ms_Delete_def getKey_def
  getByKey_def attemptWithRefreshOnTimeout_def map_store_def map_client_def track_def Let_def

section \<open>Properties\<close>

text \<open>
  C11. The handler of a custom cache informer sees exactly what happens to the store: whatever deltas
  arrive and whichever store operation fails, a client that starts with the objects held and
  applies the handler's calls in order can apply each of them, every update naming the object it
  replaces, and ends with the objects the store holds.
\<close>

theorem processDeltas_consistent:
  assumes "store_laws st key held" and "processDeltas st isInInitialList ds s = ((err, calls), s')"
  shows "mirror key calls (held s) = Some (held s')"
  by (rule processDeltas_mirrored [OF assms])

theorem processDeltas_consistent_witness:
  "let ms = map_store; held = ms_held ms (\<lambda>m. m);
       ((err, calls), s') = processDeltas (memcached_store ms) False
         [(Added, (''a'', ''1'')), (Updated, (''a'', ''2'')), (Replaced, (''b'', ''x'')),
          (Deleted, (''a'', ''2'')), (Deleted, (''a'', ''2'')), (Sync, (''c'', ''''))] ([], \<lambda>k. None)
   in err = Some (GoErr ''cache miss'') \<and>
      calls = [OnAdd (''a'', ''1'') False, OnUpdate (''a'', ''1'') (''a'', ''2''), OnAdd (''b'', ''x'') False,
               OnDelete (''a'', ''2'')] \<and>
      mirror (ms_key ms) calls (held ([], \<lambda>k. None)) = Some (held s')"
  using processDeltas_consistent [OF ms_store_of_map, of False
      "[(Added, (''a'', ''1'')), (Updated, (''a'', ''2'')), (Replaced, (''b'', ''x'')),
        (Deleted, (''a'', ''2'')), (Deleted, (''a'', ''2'')), (Sync, (''c'', ''''))]" "([], \<lambda>k. None)"]
  by (simp add: delta_eval)

text \<open>
  The page loop of \<open>List\<close> keeps one item of every page: with three keys and pages of two, the
  result has the page's last item at its first position and nothing at the second.
\<close>

lemma List_keeps_one_item_per_page:
  "fst (ms_List map_store ([''a'', ''b'', ''c''],
       [''foos/a'' \<mapsto> ''a=1'', ''foos/b'' \<mapsto> ''b=2'', ''foos/c'' \<mapsto> ''c=3''])) =
     Some [Some (''foos/b'', ''b=2''), None, Some (''foos/c'', ''c=3'')]"
  by (simp add: ms_List_def ms_ListKeys_def attemptWithRefreshOnTimeout_def map_store_def map_client_def eval_nat_numeral)

end
