(* ===== verification/Version_Schema.thy ===== *)
theory Version_Schema
  imports Resource_Model
begin

text \<open>
  \<open>VersionSchema\<close> of \<^verbatim>\<open>app/manifest.go\<close>: the schemas of a kind as decoded JSON, and how a document of
  another shape (a full OpenAPI document, a CRD's schema, or the properties of one) is brought into that
  form. A map is a list of its members in the order a range visits them; its keys are distinct.
\<close>

section \<open>Decoded JSON\<close>

text \<open>The values \<^verbatim>\<open>encoding/json\<close> decodes into an empty interface.\<close>

datatype json = JNull | JBool bool | JNumber int | JString string | JArray "json list" | JObject "(string \<times> json) list"

text \<open>The type assertions to a map and to a string.\<close>

definition as_object :: "json \<Rightarrow> (string \<times> json) list option" where
  "as_object j = (case j of JObject ms \<Rightarrow> Some ms | _ \<Rightarrow> None)"

definition as_string :: "json \<Rightarrow> string option" where
  "as_string j = (case j of JString s \<Rightarrow> Some s | _ \<Rightarrow> None)"

lemma as_object_simps [simp]: "as_object (JObject ms) = Some ms" "as_object (JString s) = None"
  by (simp_all add: as_object_def)

lemma as_string_simps [simp]: "as_string (JString s) = Some s" "as_string (JObject ms) = None"
  by (simp_all add: as_string_def)

section \<open>Bringing a document into form\<close>

definition parsedCRDSchemaKindName :: string where
  "parsedCRDSchemaKindName = ''__KIND__''"

text \<open>Whether a schema has a property \<^verbatim>\<open>spec\<close> that refers to the schema of that name.\<close>

definition references_spec :: "json \<Rightarrow> bool" where
  "references_spec v =
     (case as_object v \<bind> (\<lambda>s. map_of s ''properties'') \<bind> as_object \<bind> (\<lambda>ps. map_of ps ''spec'') \<bind>
           as_object \<bind> (\<lambda>spc. map_of spc ''$ref'') \<bind> as_string of
        Some cr \<Rightarrow> 5 < length cr \<and> drop (length cr - 5) cr = ''/spec''
      | None \<Rightarrow> False)"

definition is_definition :: "string \<Rightarrow> bool" where
  "is_definition k \<longleftrightarrow> 1 < length k \<and> k ! 0 = CHR ''#''"

text \<open>A schema with the given properties under the name for a kind that is not known yet.\<close>

definition crd_kind :: "(string \<times> json) list \<Rightarrow> (string \<times> json)" where
  "crd_kind props = (parsedCRDSchemaKindName, JObject [(''properties'', JObject props), (''type'', JString ''object'')])"

text \<open>The three shapes. An error leaves the document as it is.\<close>

definition fix_document :: "(string \<times> json) list \<Rightarrow> json \<Rightarrow> (string \<times> json) list \<times> go_error option" where
  "fix_document raw components = (case as_object components of
     None \<Rightarrow> (raw, Some (GoErr (quoted ''components'' @ '' in an OpenAPI document must be an object'')))
   | Some cast \<Rightarrow> (case map_of cast ''schemas'' of
       None \<Rightarrow> ([], None)
     | Some s \<Rightarrow> (case as_object s of
         None \<Rightarrow> (raw, Some (GoErr (quoted ''components.schemas'' @ '' in an OpenAPI document must be an object'')))
       | Some schemas \<Rightarrow> (schemas, None))))"

definition fix_crd :: "(string \<times> json) list \<Rightarrow> json \<Rightarrow> (string \<times> json) list \<times> go_error option" where
  "fix_crd raw sch = (case as_object sch of
     None \<Rightarrow> (raw, Some (GoErr (quoted ''openAPIV3Schema'' @ '' must be an object'')))
   | Some oapi \<Rightarrow> (case map_of oapi ''properties'' of
       None \<Rightarrow> (raw, Some (GoErr (quoted ''openAPIV3Schema'' @ '' must contain properties'')))
     | Some props \<Rightarrow> (case as_object props of
         None \<Rightarrow> (raw, Some (GoErr (quoted ''openAPIV3Schema'' @ '' properties must be an object'')))
       | Some m \<Rightarrow> ([crd_kind m], None))))"

definition put_all :: "(string \<times> json) list \<Rightarrow> (string \<times> json) list \<Rightarrow> (string \<times> json) list" where
  "put_all xs m = fold (\<lambda>(k, v). AList.update k v) xs m"

definition fix_properties :: "(string \<times> json) list \<Rightarrow> (string \<times> json) list" where
  "fix_properties raw =
     put_all (filter (\<lambda>x. is_definition (fst x)) raw) [crd_kind (filter (\<lambda>x. \<not> is_definition (fst x)) raw)]"

definition fixRaw :: "(string \<times> json) list \<Rightarrow> (string \<times> json) list \<times> go_error option" where
  "fixRaw raw = (case map_of raw ''components'' of
     Some components \<Rightarrow> fix_document raw components
   | None \<Rightarrow> (case map_of raw ''openAPIV3Schema'' of
       Some sch \<Rightarrow> fix_crd raw sch
     | None \<Rightarrow>
         if map_of raw ''spec'' = None \<or> list_ex (\<lambda>x. fst x \<noteq> ''spec'' \<and> references_spec (snd x)) raw
         then (raw, None) else (fix_properties raw, None)))"

definition not_in_components :: "string \<Rightarrow> go_error" where
  "not_in_components kindName = GoErr (''kind '' @ CHR 0x22 # kindName @ CHR 0x22 # '' not found in map openAPI components'')"

definition VersionSchemaFromMap ::
  "(string \<times> json) list \<Rightarrow> string \<Rightarrow> (string \<times> json) list option \<times> go_error option" where
  "VersionSchemaFromMap openAPISchema kindName =
     (let (raw, err) = fixRaw openAPISchema;
          raw' = (case map_of raw parsedCRDSchemaKindName of
                    None \<Rightarrow> raw
                  | Some v \<Rightarrow> AList.delete parsedCRDSchemaKindName (AList.update kindName v raw))
      in if map_of raw' kindName = None \<and> 0 < length raw' then (None, Some (not_in_components kindName))
         else (Some raw', err))"

text \<open>Decoding of a schema's own JSON; \<open>decode\<close> is the decoder into a map.\<close>

definition UnmarshalJSON :: "('d \<Rightarrow> go_error + (string \<times> json) list) \<Rightarrow> 'd \<Rightarrow> (string \<times> json) list \<times> go_error option" where
  "UnmarshalJSON decode data = (case decode data of Inl e \<Rightarrow> ([], Some e) | Inr raw \<Rightarrow> fixRaw raw)"

definition AsOpenAPI3SchemasMap :: "(string \<times> json) list \<Rightarrow> (string \<times> json) list" where
  "AsOpenAPI3SchemasMap raw = raw"

text \<open>The stored subresources of a kind with a schema; without one there are none.\<close>

definition Subresources :: "string \<Rightarrow> (string \<times> json) list option \<Rightarrow> string list" where
  "Subresources kind sch =
     (case sch \<bind> (\<lambda>raw. map_of (AsOpenAPI3SchemasMap raw) kind) \<bind> as_object \<bind> (\<lambda>k. map_of k ''properties'') \<bind> as_object of
        None \<Rightarrow> []
      | Some props \<Rightarrow> filter (\<lambda>k. k \<notin> {''spec'', ''metadata'', ''apiVersion'', ''kind''}) (map fst props))"

section \<open>The form is stable\<close>

text \<open>A map of schemas that is read as what it is.\<close>

definition in_form :: "(string \<times> json) list \<Rightarrow> bool" where
  "in_form raw \<longleftrightarrow> map_of raw ''components'' = None \<and> map_of raw ''openAPIV3Schema'' = None \<and>
     (map_of raw ''spec'' = None \<or> list_ex (\<lambda>x. fst x \<noteq> ''spec'' \<and> references_spec (snd x)) raw)"

lemma fixRaw_in_form: "in_form raw \<Longrightarrow> fixRaw raw = (raw, None)"
  by (simp add: in_form_def fixRaw_def)

lemma VersionSchemaFromMap_in_form:
  assumes "in_form raw" "map_of raw parsedCRDSchemaKindName = None" "map_of raw kind \<noteq> None \<or> raw = []"
  shows "VersionSchemaFromMap raw kind = (Some raw, None)"
  using assms by (auto simp: VersionSchemaFromMap_def fixRaw_in_form)

text \<open>
  C17. The shapes of a kind's schema are interchangeable: a full OpenAPI document gives the same schemas as its bare
  components, when those are in form; a CRD's schema gives the same as its bare properties, when these have
  a \<open>spec\<close> and none of them is a definition or refers to one named \<open>spec\<close>.
\<close>

theorem schema_shapes_agree:
  assumes "map_of doc ''components'' = Some (JObject comps)" "map_of comps ''schemas'' = Some (JObject raw)" "in_form raw"
    and "map_of crd ''components'' = None" "map_of crd ''openAPIV3Schema'' = Some (JObject oapi)"
    and "map_of oapi ''properties'' = Some (JObject props)"
    and "map_of props ''components'' = None" "map_of props ''openAPIV3Schema'' = None" "map_of props ''spec'' \<noteq> None"
    and "list_all (\<lambda>(k, v). \<not> is_definition k \<and> \<not> references_spec v) props"
    and "kind \<noteq> parsedCRDSchemaKindName"
  shows "VersionSchemaFromMap doc kind = VersionSchemaFromMap raw kind \<and>
    VersionSchemaFromMap crd kind = VersionSchemaFromMap props kind \<and>
    VersionSchemaFromMap props kind =
      (Some [(kind, JObject [(''properties'', JObject props), (''type'', JString ''object'')])], None)"
proof (intro conjI)
  have "fixRaw doc = fixRaw raw"
    using assms(1-3) by (simp add: fixRaw_in_form) (simp add: fixRaw_def fix_document_def)
  then show "VersionSchemaFromMap doc kind = VersionSchemaFromMap raw kind" by (simp add: VersionSchemaFromMap_def)
  have "filter (\<lambda>x. is_definition (fst x)) props = []" "filter (\<lambda>x. \<not> is_definition (fst x)) props = props"
    using assms(10) by (auto simp: list_all_iff filter_empty_conv filter_id_conv)
  moreover have "\<not> list_ex (\<lambda>x. fst x \<noteq> ''spec'' \<and> references_spec (snd x)) props"
    using assms(10) by (auto simp: list_all_iff list_ex_iff)
  ultimately have p: "fixRaw props = ([crd_kind props], None)"
    using assms(7-9) by (auto simp: fixRaw_def fix_properties_def put_all_def)
  moreover have "fixRaw crd = ([crd_kind props], None)"
    using assms(4-6) by (simp add: fixRaw_def fix_crd_def)
  ultimately show "VersionSchemaFromMap crd kind = VersionSchemaFromMap props kind"
    by (simp add: VersionSchemaFromMap_def)
  show "VersionSchemaFromMap props kind =
      (Some [(kind, JObject [(''properties'', JObject props), (''type'', JString ''object'')])], None)"
    using assms(11) by (simp add: VersionSchemaFromMap_def p crd_kind_def)
qed

lemma schema_shapes_agree_witness:
  "VersionSchemaFromMap [(''info'', JNull), (''components'', JObject [(''schemas'', JObject [(''Foo'', JNull)])])] ''Foo'' =
     VersionSchemaFromMap [(''Foo'', JNull)] ''Foo'' \<and>
   VersionSchemaFromMap [(''openAPIV3Schema'', JObject [(''properties'', JObject [(''spec'', JNull)])])] ''Foo'' =
     VersionSchemaFromMap [(''spec'', JNull)] ''Foo'' \<and>
   VersionSchemaFromMap [(''spec'', JNull)] ''Foo'' =
     (Some [(''Foo'', JObject [(''properties'', JObject [(''spec'', JNull)]), (''type'', JString ''object'')])], None)"
  by (rule schema_shapes_agree [where comps = "[(''schemas'', JObject [(''Foo'', JNull)])]"
        and oapi = "[(''properties'', JObject [(''spec'', JNull)])]"])
    (simp_all add: in_form_def is_definition_def references_spec_def as_object_def parsedCRDSchemaKindName_def)

text \<open>
  The form is not closed under reading: a document's component named \<open>spec\<close> that no schema's \<open>spec\<close> refers to is
  taken for a property when the schemas are read again.
\<close>

lemma unreferenced_spec_misread:
  "VersionSchemaFromMap [(''components'', JObject [(''schemas'', JObject [(''Foo'', JNull), (''spec'', JNull)])])] ''Foo'' =
     (Some [(''Foo'', JNull), (''spec'', JNull)], None)"
  "VersionSchemaFromMap [(''Foo'', JNull), (''spec'', JNull)] ''Foo'' =
     (Some [(''Foo'', JObject [(''properties'', JObject [(''Foo'', JNull), (''spec'', JNull)]), (''type'', JString ''object'')])], None)"
  by (simp_all add: VersionSchemaFromMap_def fixRaw_def fix_document_def fix_properties_def crd_kind_def put_all_def
      is_definition_def references_spec_def parsedCRDSchemaKindName_def as_object_def)

end
