(* ===== verification/App_Manifest.thy ===== *)
theory App_Manifest
  imports Version_Schema
begin

text \<open>
  The data of an app manifest and its checks, from \<^verbatim>\<open>app/manifest.go\<close>: the versions of an app with
  their kinds, admission capabilities, custom routes, roles and role bindings. The contents of routes and
  of the schemas they refer to are third-party types, which are modelled by the JSON they are written as.
  Maps are lists of their members in the order the ranges visit them; an option is a pointer, or a map
  or slice that the code compares with nil.
\<close>

section \<open>Manifest data\<close>

record AdmissionCapabilities =
  ad_Validation :: "string list option"
  ad_Mutation :: "string list option"

definition SupportsAnyValidation :: "AdmissionCapabilities \<Rightarrow> bool" where
  "SupportsAnyValidation c = (case ad_Validation c of None \<Rightarrow> False | Some ops \<Rightarrow> 0 < length ops)"

definition SupportsAnyMutation :: "AdmissionCapabilities \<Rightarrow> bool" where
  "SupportsAnyMutation c = (case ad_Mutation c of None \<Rightarrow> False | Some ops \<Rightarrow> 0 < length ops)"

record PrinterColumn =
  pc_Name :: string
  pc_Type :: string
  pc_Format :: string
  pc_Description :: string
  pc_Priority :: "int option"
  pc_JSONPath :: string

record ManifestVersionKind =
  vk_Kind :: string
  vk_Plural :: string
  vk_Scope :: string
  vk_Admission :: "AdmissionCapabilities option"
  vk_Schema :: "(string \<times> json) list option"
  vk_SelectableFields :: "string list"
  vk_Routes :: "(string \<times> json) list option"
  vk_Conversion :: bool
  vk_AdditionalPrinterColumns :: "PrinterColumn list option"

record ManifestVersion =
  mv_Name :: string
  mv_Served :: bool
  mv_Kinds :: "ManifestVersionKind list"
  mv_Namespaced :: "(string \<times> json) list"
  mv_Cluster :: "(string \<times> json) list"
  mv_Schemas :: "(string \<times> json) list"

record KindPermission =
  kp_Group :: string
  kp_Resource :: string
  kp_Actions :: "string list"

record ManifestOperatorWebhookProperties =
  wh_ConversionPath :: string
  wh_ValidationPath :: string
  wh_MutationPath :: string

record ManifestOperatorInfo =
  op_URL :: string
  op_Webhooks :: "ManifestOperatorWebhookProperties option"

record ManifestRoleKind =
  rk_RoleKind :: string
  rk_Verbs :: "string list"
  rk_PermissionSet :: "string option"

record ManifestRole =
  rl_Title :: string
  rl_Description :: string
  rl_Kinds :: "ManifestRoleKind list"
  rl_Routes :: "string list"

record ManifestRoleBindings =
  rb_Viewer :: "string list"
  rb_Editor :: "string list"
  rb_Admin :: "string list"
  rb_Additional :: "(string \<times> string list) list"

record ManifestData =
  md_AppName :: string
  md_AppDisplayName :: string
  md_Group :: string
  md_Versions :: "ManifestVersion list"
  md_PreferredVersion :: string
  md_ExtraPermissions :: "KindPermission list option option"
  md_Operator :: "ManifestOperatorInfo option"
  md_Roles :: "(string \<times> ManifestRole) list option"
  md_RoleBindings :: "ManifestRoleBindings option"

definition IsEmpty :: "ManifestData \<Rightarrow> bool" where
  "IsEmpty m \<longleftrightarrow> md_AppName m = [] \<and> md_Group m = [] \<and> length (md_Versions m) = 0 \<and>
     md_PreferredVersion m = [] \<and> md_ExtraPermissions m = None \<and> md_Operator m = None"

section \<open>Validate\<close>

text \<open>What is remembered of the first version that has a kind. Each error is a value of its own.\<close>

record kindData =
  kd_plural :: string
  kd_scope :: string
  kd_conversion :: bool
  kd_version :: string

datatype manifest_error =
    DifferentPlural string string string
  | DifferentScope string string string
  | ConversionMismatch string string string
  | NamespacedRouteConflict string string
  | ClusterRouteConflict string string
  | NoRoles string string
  | UnknownRole string string

definition check_kind ::
  "string \<Rightarrow> ManifestVersionKind \<Rightarrow> (string \<rightharpoonup> kindData) \<Rightarrow> (string \<rightharpoonup> kindData) \<times> manifest_error list" where
  "check_kind version kind kinds = (case kinds (vk_Kind kind) of
     None \<Rightarrow> (kinds(vk_Kind kind \<mapsto> \<lparr>kd_plural = vk_Plural kind, kd_scope = vk_Scope kind,
                                   kd_conversion = vk_Conversion kind, kd_version = version\<rparr>), [])
   | Some k \<Rightarrow> (kinds,
       (if kd_plural k \<noteq> vk_Plural kind then [DifferentPlural (vk_Kind kind) (kd_version k) version] else []) @
       (if kd_scope k \<noteq> vk_Scope kind then [DifferentScope (vk_Kind kind) (kd_version k) version] else []) @
       (if kd_conversion k \<noteq> vk_Conversion kind then [ConversionMismatch (vk_Kind kind) (kd_version k) version] else [])))"

fun check_kinds ::
  "string \<Rightarrow> ManifestVersionKind list \<Rightarrow> (string \<rightharpoonup> kindData) \<Rightarrow> (string \<rightharpoonup> kindData) \<times> manifest_error list" where
  "check_kinds version [] kinds = (kinds, [])"
| "check_kinds version (k # ks) kinds =
     (let (kinds1, es1) = check_kind version k kinds; (kinds2, es2) = check_kinds version ks kinds1
      in (kinds2, es1 @ es2))"

definition clusterRoutes :: "ManifestVersion \<Rightarrow> string set" where
  "clusterRoutes v = set (map (\<lambda>k. to_lower (vk_Plural k)) (filter (\<lambda>k. vk_Scope k = ''Cluster'') (mv_Kinds v)))"

definition namespacedRoutes :: "ManifestVersion \<Rightarrow> string set" where
  "namespacedRoutes v = set (map (\<lambda>k. to_lower (vk_Plural k)) (filter (\<lambda>k. vk_Scope k \<noteq> ''Cluster'') (mv_Kinds v)))"

definition route_key :: "string \<Rightarrow> string" where
  "route_key rpath = trim_char CHR ''/'' (to_lower rpath)"

definition check_routes :: "ManifestVersion \<Rightarrow> manifest_error list" where
  "check_routes v =
     map (\<lambda>r. NamespacedRouteConflict r (route_key r)) (filter (\<lambda>r. route_key r \<in> namespacedRoutes v) (map fst (mv_Namespaced v))) @
     map (\<lambda>r. ClusterRouteConflict r (route_key r)) (filter (\<lambda>r. route_key r \<in> clusterRoutes v) (map fst (mv_Cluster v)))"

fun check_versions :: "ManifestVersion list \<Rightarrow> (string \<rightharpoonup> kindData) \<Rightarrow> manifest_error list" where
  "check_versions [] kinds = []"
| "check_versions (v # vs) kinds =
     (let (kinds', es) = check_kinds (mv_Name v) (mv_Kinds v) kinds
      in es @ check_routes v @ check_versions vs kinds')"

definition checkRoleBinding :: "string set option \<Rightarrow> string \<Rightarrow> string list \<Rightarrow> manifest_error list" where
  "checkRoleBinding roles rb boundRoles = concat (map (\<lambda>role.
     let role' = trim_char CHR '' '' role
     in if role' = [] then []
        else (case roles of
                None \<Rightarrow> [NoRoles rb role']
              | Some rs \<Rightarrow> if role' \<in> rs then [] else [UnknownRole rb role'])) boundRoles)"

definition check_bindings :: "string set option \<Rightarrow> ManifestRoleBindings \<Rightarrow> manifest_error list" where
  "check_bindings roles b =
     (if 0 < length (rb_Viewer b) then checkRoleBinding roles ''viewer'' (rb_Viewer b) else []) @
     (if 0 < length (rb_Editor b) then checkRoleBinding roles ''editor'' (rb_Editor b) else []) @
     (if 0 < length (rb_Admin b) then checkRoleBinding roles ''admin'' (rb_Admin b) else []) @
     concat (map (\<lambda>(k, v). if 0 < length v then checkRoleBinding roles k v else []) (rb_Additional b))"

definition role_names :: "ManifestData \<Rightarrow> string set option" where
  "role_names m = map_option (\<lambda>rs. fst ` set rs) (md_Roles m)"

definition Validate :: "ManifestData \<Rightarrow> manifest_error list" where
  "Validate m = check_versions (md_Versions m) (\<lambda>_. None) @
     (case md_RoleBindings m of None \<Rightarrow> [] | Some b \<Rightarrow> check_bindings (role_names m) b)"

section \<open>What a valid manifest is\<close>

text \<open>The parts of a kind that have to be the same in all versions.\<close>

definition shape :: "ManifestVersionKind \<Rightarrow> string \<times> string \<times> bool" where
  "shape k = (vk_Plural k, vk_Scope k, vk_Conversion k)"

definition all_kinds :: "ManifestData \<Rightarrow> ManifestVersionKind set" where
  "all_kinds m = (\<Union>v \<in> set (md_Versions m). set (mv_Kinds v))"

definition binding_roles :: "ManifestRoleBindings \<Rightarrow> string set" where
  "binding_roles b = set (rb_Viewer b) \<union> set (rb_Editor b) \<union> set (rb_Admin b) \<union> (\<Union>(k, v) \<in> set (rb_Additional b). set v)"

definition role_ok :: "string set option \<Rightarrow> string \<Rightarrow> bool" where
  "role_ok roles role \<longleftrightarrow>
     (trim_char CHR '' '' role \<noteq> [] \<longrightarrow> (\<exists>rs. roles = Some rs \<and> trim_char CHR '' '' role \<in> rs))"

definition consistent :: "ManifestData \<Rightarrow> bool" where
  "consistent m \<longleftrightarrow>
     (\<forall>k \<in> all_kinds m. \<forall>k' \<in> all_kinds m. vk_Kind k = vk_Kind k' \<longrightarrow> shape k = shape k') \<and>
     (\<forall>v \<in> set (md_Versions m). \<forall>k \<in> set (mv_Kinds v).
        to_lower (vk_Plural k) \<notin> route_key ` fst ` set (if vk_Scope k = ''Cluster'' then mv_Cluster v else mv_Namespaced v)) \<and>
     (\<forall>b. md_RoleBindings m = Some b \<longrightarrow> (\<forall>role \<in> binding_roles b.
        role_ok (role_names m) role))"

definition extends :: "(string \<Rightarrow> string \<times> string \<times> bool) \<Rightarrow> (string \<rightharpoonup> kindData) \<Rightarrow> bool" where
  "extends g kinds \<longleftrightarrow> (\<forall>n d. kinds n = Some d \<longrightarrow> g n = (kd_plural d, kd_scope d, kd_conversion d))"

lemma extends_exists: "\<exists>g. extends g kinds"
  unfolding extends_def
  by (rule exI [of _ "\<lambda>n. case kinds n of Some d \<Rightarrow> (kd_plural d, kd_scope d, kd_conversion d) | None \<Rightarrow> undefined"]) simp

lemma check_kind_spec:
  assumes "check_kind version k kinds = (kinds', es)"
  shows "es = [] \<Longrightarrow> extends g kinds' \<longleftrightarrow> extends g kinds \<and> g (vk_Kind k) = shape k"
    and "es \<noteq> [] \<Longrightarrow> \<not> (extends g kinds \<and> g (vk_Kind k) = shape k)"
proof (atomize (full), cases "kinds (vk_Kind k)")
  case None
  then have new: "extends g (kinds(vk_Kind k \<mapsto> d)) \<longleftrightarrow>
      extends g kinds \<and> g (vk_Kind k) = (kd_plural d, kd_scope d, kd_conversion d)" for d
    unfolding extends_def by (smt (verit) fun_upd_apply option.distinct(1) option.inject)
  from None assms show "(es = [] \<longrightarrow> extends g kinds' = (extends g kinds \<and> g (vk_Kind k) = shape k)) \<and>
      (es \<noteq> [] \<longrightarrow> \<not> (extends g kinds \<and> g (vk_Kind k) = shape k))"
    by (auto simp: check_kind_def new shape_def)
next
  case (Some d)
  with assms show "(es = [] \<longrightarrow> extends g kinds' = (extends g kinds \<and> g (vk_Kind k) = shape k)) \<and>
      (es \<noteq> [] \<longrightarrow> \<not> (extends g kinds \<and> g (vk_Kind k) = shape k))"
    by (auto simp: check_kind_def extends_def shape_def split: if_splits)
qed

lemma check_kinds_spec:
  "check_kinds version ks kinds = (kinds', es) \<Longrightarrow>
     (es = [] \<longrightarrow> extends g kinds' \<longleftrightarrow> extends g kinds \<and> (\<forall>k \<in> set ks. g (vk_Kind k) = shape k)) \<and>
     (es \<noteq> [] \<longrightarrow> \<not> (extends g kinds \<and> (\<forall>k \<in> set ks. g (vk_Kind k) = shape k)))"
proof (induction ks arbitrary: kinds kinds' es)
  case (Cons k ks)
  obtain kinds1 es1 where c1: "check_kind version k kinds = (kinds1, es1)" by fastforce
  obtain kinds2 es2 where c2: "check_kinds version ks kinds1 = (kinds2, es2)" by fastforce
  have "kinds' = kinds2" "es = es1 @ es2" using Cons.prems c1 c2 by simp_all
  with Cons.IH [OF c2] check_kind_spec [OF c1, of g] show ?case by auto
qed simp

lemma check_versions_spec:
  "check_versions vs kinds = [] \<longleftrightarrow>
     (\<exists>g. extends g kinds \<and> (\<forall>v \<in> set vs. \<forall>k \<in> set (mv_Kinds v). g (vk_Kind k) = shape k)) \<and>
     (\<forall>v \<in> set vs. check_routes v = [])"
proof (induction vs arbitrary: kinds)
  case (Cons v vs)
  obtain kinds' es where c: "check_kinds (mv_Name v) (mv_Kinds v) kinds = (kinds', es)" by fastforce
  show ?case
  proof (cases "es = []")
    case True
    then show ?thesis using c Cons.IH [of kinds'] check_kinds_spec [OF c] by auto
  next
    case False
    then show ?thesis using c check_kinds_spec [OF c] by auto
  qed
qed (simp add: extends_exists)

lemma notin_image_swap: "(\<forall>r \<in> R. h r \<notin> f ` K) \<longleftrightarrow> (\<forall>k \<in> K. f k \<notin> h ` R)"
  unfolding image_iff by metis

lemma check_routes_spec:
  "check_routes v = [] \<longleftrightarrow> (\<forall>k \<in> set (mv_Kinds v).
     to_lower (vk_Plural k) \<notin> route_key ` fst ` set (if vk_Scope k = ''Cluster'' then mv_Cluster v else mv_Namespaced v))"
proof -
  define N where "N = route_key ` fst ` set (mv_Namespaced v)"
  define C where "C = route_key ` fst ` set (mv_Cluster v)"
  show ?thesis
    unfolding check_routes_def filter_empty_conv append_is_Nil_conv map_is_Nil_conv
      clusterRoutes_def namespacedRoutes_def set_map set_filter
      notin_image_swap [of "fst ` set (mv_Namespaced v)" route_key] notin_image_swap [of "fst ` set (mv_Cluster v)" route_key]
      if_distrib [of set] if_distrib [of "image fst"] if_distrib [of "image route_key"] N_def [symmetric] C_def [symmetric]
    by auto
qed

lemma checkRoleBinding_spec: "checkRoleBinding roles rb bound = [] \<longleftrightarrow> (\<forall>role \<in> set bound. role_ok roles role)"
  by (cases roles) (auto simp: checkRoleBinding_def Let_def role_ok_def)

lemma guarded_binding_spec:
  "(if 0 < length bound then checkRoleBinding roles rb bound else []) = [] \<longleftrightarrow> (\<forall>role \<in> set bound. role_ok roles role)"
  by (simp add: checkRoleBinding_spec)

lemma check_bindings_spec:
  "check_bindings roles b = [] \<longleftrightarrow> (\<forall>role \<in> binding_roles b. role_ok roles role)"
proof -
  have "concat (map (\<lambda>(k, v). if 0 < length v then checkRoleBinding roles k v else []) xs) = [] \<longleftrightarrow>
      (\<forall>(k, v) \<in> set xs. \<forall>role \<in> set v. role_ok roles role)" for xs
    by (induction xs) (simp_all add: guarded_binding_spec del: length_greater_0_conv split: prod.split)
  then show ?thesis
    unfolding check_bindings_def binding_roles_def append_is_Nil_conv guarded_binding_spec by fastforce
qed

lemma shapes_agree:
  "(\<exists>g. \<forall>k \<in> K. g (vk_Kind k) = shape k) \<longleftrightarrow> (\<forall>k \<in> K. \<forall>k' \<in> K. vk_Kind k = vk_Kind k' \<longrightarrow> shape k = shape k')"
proof
  assume r: "\<forall>k \<in> K. \<forall>k' \<in> K. vk_Kind k = vk_Kind k' \<longrightarrow> shape k = shape k'"
  have "shape (SOME k'. k' \<in> K \<and> vk_Kind k' = vk_Kind k) = shape k" if "k \<in> K" for k
  proof -
    have "(SOME k'. k' \<in> K \<and> vk_Kind k' = vk_Kind k) \<in> K \<and>
        vk_Kind (SOME k'. k' \<in> K \<and> vk_Kind k' = vk_Kind k) = vk_Kind k"
      by (rule someI [of "\<lambda>k'. k' \<in> K \<and> vk_Kind k' = vk_Kind k" k]) (simp add: that)
    then show ?thesis using r that by blast
  qed
  then show "\<exists>g. \<forall>k \<in> K. g (vk_Kind k) = shape k"
    by (intro exI [of _ "\<lambda>n. shape (SOME k'. k' \<in> K \<and> vk_Kind k' = n)"]) blast
next
  assume "\<exists>g. \<forall>k \<in> K. g (vk_Kind k) = shape k"
  then show "\<forall>k \<in> K. \<forall>k' \<in> K. vk_Kind k = vk_Kind k' \<longrightarrow> shape k = shape k'" by metis
qed

text \<open>
  C15. \<open>Validate\<close> reports no error exactly when the manifest is consistent: a kind has the same plural,
  scope and conversion flag wherever it occurs, no custom route of a version hides a kind's own
  path of the same scope, and every role that is bound exists.
\<close>

theorem Validate_iff_consistent: "Validate m = [] \<longleftrightarrow> consistent m"
proof -
  have "check_versions (md_Versions m) (\<lambda>_. None) = [] \<longleftrightarrow>
      (\<forall>k \<in> all_kinds m. \<forall>k' \<in> all_kinds m. vk_Kind k = vk_Kind k' \<longrightarrow> shape k = shape k') \<and>
      (\<forall>v \<in> set (md_Versions m). check_routes v = [])"
    unfolding check_versions_spec shapes_agree [symmetric] by (auto simp: all_kinds_def extends_def)
  then show ?thesis
    unfolding Validate_def consistent_def check_routes_spec
    by (cases "md_RoleBindings m") (simp_all add: check_bindings_spec)
qed

section \<open>Kinds\<close>

text \<open>
  \<open>Kinds\<close> turns the data around: by kind, the versions that have it, in order. The slice it returns holds
  the values of this map in the map's order.
\<close>

record ManifestKind =
  mk_name :: string
  mk_plural :: string
  mk_scope :: string
  mk_conversion :: bool
  mk_versions :: "(string \<times> ManifestVersionKind) list"

definition put_kind :: "string \<Rightarrow> ManifestVersionKind \<Rightarrow> (string \<rightharpoonup> ManifestKind) \<Rightarrow> (string \<rightharpoonup> ManifestKind)" where
  "put_kind version kind kinds =
     (let k = (case kinds (vk_Kind kind) of
                 Some k \<Rightarrow> k
               | None \<Rightarrow> \<lparr>mk_name = vk_Kind kind, mk_plural = vk_Plural kind, mk_scope = vk_Scope kind,
                         mk_conversion = vk_Conversion kind, mk_versions = []\<rparr>)
      in kinds(vk_Kind kind \<mapsto> k\<lparr>mk_versions := mk_versions k @ [(version, kind)]\<rparr>))"

definition Kinds :: "ManifestData \<Rightarrow> string \<rightharpoonup> ManifestKind" where
  "Kinds m = fold (\<lambda>v. fold (put_kind (mv_Name v)) (mv_Kinds v)) (md_Versions m) (\<lambda>_. None)"

definition occurrences :: "ManifestData \<Rightarrow> string \<Rightarrow> (string \<times> ManifestVersionKind) list" where
  "occurrences m n = filter (\<lambda>(v, k). vk_Kind k = n)
     (concat (map (\<lambda>v. map (Pair (mv_Name v)) (mv_Kinds v)) (md_Versions m)))"

lemma Kinds_flat: "Kinds m = fold (\<lambda>(v, k). put_kind v k) (concat (map (\<lambda>v. map (Pair (mv_Name v)) (mv_Kinds v)) (md_Versions m))) (\<lambda>_. None)"
proof -
  have "fold (put_kind v) ks g = fold (\<lambda>(v, k). put_kind v k) (map (Pair v) ks) g" for v ks g
    by (induction ks arbitrary: g) auto
  then have "fold (\<lambda>v. fold (put_kind (mv_Name v)) (mv_Kinds v)) vs g =
      fold (\<lambda>(v, k). put_kind v k) (concat (map (\<lambda>v. map (Pair (mv_Name v)) (mv_Kinds v)) vs)) g" for vs g
    by (induction vs arbitrary: g) auto
  then show ?thesis by (simp add: Kinds_def)
qed

definition versions_in :: "(string \<rightharpoonup> ManifestKind) \<Rightarrow> string \<Rightarrow> (string \<times> ManifestVersionKind) list" where
  "versions_in g n = (case g n of None \<Rightarrow> [] | Some k \<Rightarrow> mk_versions k)"

lemma fold_put_kind:
  "versions_in (fold (\<lambda>(v, k). put_kind v k) ps g) n = versions_in g n @ filter (\<lambda>(v, k). vk_Kind k = n) ps"
proof (induction ps arbitrary: g)
  case (Cons p ps)
  have "versions_in (put_kind (fst p) (snd p) g) n =
      versions_in g n @ (if vk_Kind (snd p) = n then [p] else [])"
    by (auto simp: versions_in_def put_kind_def Let_def split: option.splits)
  then show ?case using Cons.IH by (simp add: case_prod_beta)
qed simp

text \<open>Every version of a kind is listed with it, in the order of the manifest.\<close>

lemma Kinds_complete: "versions_in (Kinds m) n = occurrences m n"
  by (simp add: Kinds_flat fold_put_kind occurrences_def) (simp add: versions_in_def)

end
