(* ===== verification/Simple_App.thy ===== *)
theory Simple_App
  imports Informer_Controller Dynamic_Patcher Admission Informer_Cache App_Manifest
begin

text \<open>
  \<^verbatim>\<open>simple/app.go\<close>, \<^verbatim>\<open>simple/watcher.go\<close> and \<^verbatim>\<open>simple/reconciler.go\<close>: the app that puts the
  components together. \<open>NewApp\<close> takes the kinds of its configuration one by one, wraps their
  handlers in the opinionated ones, registers them and an informer with the informer controller,
  and collects admission handlers, converters and custom routes, to which the app's methods then
  dispatch. Logging, metrics and health checks are left out.

  The world outside is the dynamic patcher together with what is behind it. The informers, the
  formatting of group version kinds and the clients are third-party code and parameters.
\<close>

section \<open>Simple handlers\<close>

record 'u Watcher =
  wt_AddFunc :: "(ptr option \<Rightarrow> ('u, go_error option) io) option"
  wt_UpdateFunc :: "(ptr option \<Rightarrow> ptr option \<Rightarrow> ('u, go_error option) io) option"
  wt_DeleteFunc :: "(ptr option \<Rightarrow> ('u, go_error option) io) option"
  wt_SyncFunc :: "(ptr option \<Rightarrow> ('u, go_error option) io) option"

definition Watcher_Add :: "'u Watcher \<Rightarrow> ptr option \<Rightarrow> ('u, go_error option) io" where
  "Watcher_Add w ob = (case wt_AddFunc w of Some f \<Rightarrow> f ob | None \<Rightarrow> State_Monad.return None)"

definition Watcher_Update :: "'u Watcher \<Rightarrow> ptr option \<Rightarrow> ptr option \<Rightarrow> ('u, go_error option) io" where
  "Watcher_Update w src tgt = (case wt_UpdateFunc w of Some f \<Rightarrow> f src tgt | None \<Rightarrow> State_Monad.return None)"

definition Watcher_Delete :: "'u Watcher \<Rightarrow> ptr option \<Rightarrow> ('u, go_error option) io" where
  "Watcher_Delete w ob = (case wt_DeleteFunc w of Some f \<Rightarrow> f ob | None \<Rightarrow> State_Monad.return None)"

definition Watcher_Sync :: "'u Watcher \<Rightarrow> ptr option \<Rightarrow> ('u, go_error option) io" where
  "Watcher_Sync w ob = (case wt_SyncFunc w of Some f \<Rightarrow> f ob | None \<Rightarrow> State_Monad.return None)"

definition Reconciler_Reconcile :: "'u Reconciler option \<Rightarrow> 'u Reconciler" where
  "Reconciler_Reconcile ReconcileFunc req = (case ReconcileFunc of
     Some f \<Rightarrow> f req | None \<Rightarrow> State_Monad.return (empty_result, None))"

section \<open>Configuration\<close>

text \<open>A kind, whose schema may be nil, with its scope.\<close>

record app_kind =
  k_Schema :: "schema option"
  k_Scope :: string

text \<open>A watcher as an interface value: its identity, its methods, and \<open>Sync\<close> when its type has that method.\<close>

record 'u app_watcher =
  aw_id :: nat
  aw_methods :: "'u ResourceWatcher"
  aw_Sync :: "(ptr option \<Rightarrow> ('u, go_error option) io) option"

record AppCustomRoute =
  cr_Method :: string
  cr_Path :: string

record AppVersionRoute =
  vr_Namespaced :: bool
  vr_Path :: string
  vr_Method :: string

record CustomRouteRequest =
  rr_Identifier :: FullIdentifier
  rr_Path :: string
  rr_Method :: string
  rr_Body :: string

text \<open>A handler runs on the app's own state; calling a nil handler panics.\<close>

type_synonym 's AppCustomRouteHandler = "CustomRouteRequest \<Rightarrow> 's \<Rightarrow> go_error option \<times> 's"

record ReconcileOptions =
  ko_Namespace :: string
  ko_LabelFilters :: "string list"
  ko_FieldSelectors :: "string list"

record ('u, 'o, 's) AppManagedKind =
  mk_Kind :: app_kind
  mk_Reconciler :: "(nat \<times> 'u Reconciler) option"
  mk_Watcher :: "'u app_watcher option"
  mk_Validator :: "('o, 's) ValidatingAdmissionController option"
  mk_Mutator :: "('o, 's) MutatingAdmissionController option"
  mk_CustomRoutes :: "(AppCustomRoute \<times> 's AppCustomRouteHandler option) list"
  mk_ReconcileOptions :: ReconcileOptions
  mk_UsePlain :: bool

record 'u AppUnmanagedKind =
  uk_Kind :: app_kind
  uk_Reconciler :: "(nat \<times> 'u Reconciler) option"
  uk_Watcher :: "'u app_watcher option"
  uk_ReconcileOptions :: ReconcileOptions
  uk_UseOpinionated :: bool

text \<open>
  An informer supplier makes an informer, known by its identity, with what registering the
  controller's event handler with it will return.
\<close>

type_synonym InformerSupplier = "schema \<Rightarrow> InformerOptions \<Rightarrow> go_error + nat option \<times> go_error option"

text \<open>The maps of the configuration are lists in the order the ranges visit them.\<close>

record ('u, 'o, 's) AppConfig =
  ac_Name :: string
  ac_ErrorHandler :: "(go_error \<Rightarrow> ('u, unit) io) option"
  ac_InformerOptions :: InformerOptions
  ac_RetryPolicy :: "RetryPolicy option"
  ac_RetryDequeuePolicy :: "RetryDequeuePolicy option"
  ac_FinalizerSupplier :: "FinalizerSupplier option"
  ac_InProgressFinalizerSupplier :: "FinalizerSupplier option"
  ac_InformerSupplier :: "InformerSupplier option"
  ac_ManagedKinds :: "('u, 'o, 's) AppManagedKind list"
  ac_UnmanagedKinds :: "'u AppUnmanagedKind list"
  ac_Converters :: "((string \<times> string) \<times> Converter) list"
  ac_VersionedCustomRoutes :: "(string \<times> (AppVersionRoute \<times> 's AppCustomRouteHandler option) list) list"
  ac_DiscoveryRefreshInterval :: duration

text \<open>The third-party parts an app uses.\<close>

record 'x app_env =
  ae_kube :: "'x kube"
  ae_gvkString :: "gvk \<Rightarrow> string"
  ae_apiVersion :: "gvk \<Rightarrow> string"
  ae_isConflict :: "go_error \<Rightarrow> bool"
  ae_defaultSupplier :: InformerSupplier
  ae_clientErr :: "go_error option"
  ae_discoveryErr :: "go_error option"
  ae_over :: "64 word"

section \<open>The app\<close>

text \<open>\<open>ap_next\<close> is the identity the next allocated handler gets.\<close>

record ('u, 'o, 's) App =
  ap_controller :: "'u InformerController"
  ap_runnables :: "nat list"
  ap_kinds :: "string \<Rightarrow> ('u, 'o, 's) AppManagedKind option"
  ap_gvrToGVK :: "string \<Rightarrow> string option"
  ap_converters :: "string \<Rightarrow> Converter option"
  ap_customRoutes :: "string \<Rightarrow> 's AppCustomRouteHandler option option"
  ap_cfg :: "('u, 'o, 's) AppConfig"
  ap_next :: nat

definition gvk_key :: "string \<Rightarrow> string \<Rightarrow> string \<Rightarrow> string" where
  "gvk_key group' version kind = join ''/'' [group', version, kind]"

definition gvr_key :: "string \<Rightarrow> string \<Rightarrow> string \<Rightarrow> string" where
  "gvr_key group' version plural = join ''/'' [group', version, plural]"

definition route_path :: "string \<Rightarrow> string" where
  "route_path path = (if path \<noteq> [] \<and> hd path = CHR ''/'' then tl path else path)"

definition customRouteHandlerKey :: "gvk \<Rightarrow> string \<Rightarrow> string \<Rightarrow> string \<Rightarrow> string" where
  "customRouteHandlerKey g method path scope =
     join ''|'' [scope, gvk_Group g, gvk_Version g, gvk_Kind g, map upper_char method, route_path path]"

definition getFinalizer :: "('u, 'o, 's) AppConfig \<Rightarrow> schema \<Rightarrow> string" where
  "getFinalizer cfg sch = (case ac_FinalizerSupplier cfg of
     Some f \<Rightarrow> f sch
   | None \<Rightarrow> if ac_Name cfg \<noteq> [] then ac_Name cfg @ ''-'' @ sch_Plural sch @ ''-finalizer''
             else sch_Plural sch @ ''-finalizer'')"

definition getInProgressFinalizer :: "('u, 'o, 's) AppConfig \<Rightarrow> schema \<Rightarrow> string" where
  "getInProgressFinalizer cfg sch = (case ac_InProgressFinalizerSupplier cfg of
     Some f \<Rightarrow> f sch
   | None \<Rightarrow> if ac_Name cfg \<noteq> [] then ac_Name cfg @ ''-wip'' else sch_Plural sch @ ''-wip'')"

section \<open>Watching a kind\<close>

type_synonym ('x, 'o, 's) app = "(DynamicPatcher \<times> 'x, 'o, 's) App"

definition kind_string :: "'x app_env \<Rightarrow> schema \<Rightarrow> string" where
  "kind_string E sch = ae_gvkString E (kind_gvk sch)"

definition kind_patcher :: "'x app_env \<Rightarrow> schema \<Rightarrow> (DynamicPatcher \<times> 'x) PatchClient" where
  "kind_patcher E sch = watchPatcher (ae_kube E) (sch_Group sch, sch_Kind sch)"

definition kind_options :: "InformerOptions \<Rightarrow> ReconcileOptions \<Rightarrow> InformerOptions" where
  "kind_options opts ro =
     opts\<lparr>io_Namespace := ko_Namespace ro, io_LabelFilters := ko_LabelFilters ro,
          io_FieldSelectors := ko_FieldSelectors ro\<rparr>"

text \<open>The reconciler registered for a kind, which is a new object when it is wrapped.\<close>

definition kind_reconciler ::
  "'x app_env \<Rightarrow> (DynamicPatcher \<times> 'x, 'o, 's) AppConfig \<Rightarrow> nat \<Rightarrow> schema \<Rightarrow> bool \<Rightarrow>
   nat \<times> (DynamicPatcher \<times> 'x) Reconciler \<Rightarrow> go_error + nat \<times> (DynamicPatcher \<times> 'x) Reconciler" where
  "kind_reconciler E cfg fresh sch useOpinionated rec =
     (if useOpinionated then
        (case NewOpinionatedReconciler (Some (kind_patcher E sch)) (getFinalizer cfg sch) of
           Inl e \<Rightarrow> Inl e
         | Inr op \<Rightarrow> Inr (fresh, Reconcile (ae_isConflict E) (WrapReconciler op (Some (snd rec)))))
      else Inr rec)"

definition kind_watcher ::
  "'x app_env \<Rightarrow> (DynamicPatcher \<times> 'x, 'o, 's) AppConfig \<Rightarrow> nat \<Rightarrow> schema \<Rightarrow> bool \<Rightarrow>
   (DynamicPatcher \<times> 'x) app_watcher \<Rightarrow> go_error + nat \<times> (DynamicPatcher \<times> 'x) ResourceWatcher" where
  "kind_watcher E cfg fresh sch useOpinionated w =
     (if useOpinionated then
        (case NewOpinionatedWatcher (Some sch) (Some (kind_patcher E sch))
                \<lparr>owc_Finalizer = Some (getFinalizer cfg), owc_InProgressFinalizer = Some (getInProgressFinalizer cfg)\<rparr> of
           Inl e \<Rightarrow> Inl e
         | Inr op \<Rightarrow> Inr (fresh, opinionated_watcher (ae_isConflict E)
             (case aw_Sync w of
                Some sync \<Rightarrow> (Wrap op (Some (aw_methods w)) False)\<lparr>ow_SyncFunc := Some sync\<rparr>
              | None \<Rightarrow> Wrap op (Some (aw_methods w)) True)))
      else Inr (aw_id w, aw_methods w))"

text \<open>
  The tail of \<open>watchKind\<close> after the informer has been added: the reconciler, then the watcher. The errors
  here format the controller's error with \<^verbatim>\<open>%v\<close>, which does not wrap it; its text is left out.
\<close>

definition add_reconciler ::
  "'x app_env \<Rightarrow> schema \<Rightarrow> (DynamicPatcher \<times> 'x) AppUnmanagedKind \<Rightarrow> ('x, 'o, 's) app \<Rightarrow>
   ('x, 'o, 's) app \<times> go_error option" where
  "add_reconciler E sch kind a = (case uk_Reconciler kind of
     None \<Rightarrow> (a, None)
   | Some rec \<Rightarrow> (case kind_reconciler E (ap_cfg a) (ap_next a) sch (uk_UseOpinionated kind) rec of
       Inl e \<Rightarrow> (a, Some e)
     | Inr r \<Rightarrow>
         (let (c, err) = AddReconciler (ap_controller a) (Some r) (kind_string E sch)
          in (a\<lparr>ap_controller := c, ap_next := Suc (ap_next a)\<rparr>,
              map_option (\<lambda>e. GoErr ''could not add reconciler to controller'') err))))"

definition add_watcher ::
  "'x app_env \<Rightarrow> schema \<Rightarrow> (DynamicPatcher \<times> 'x) AppUnmanagedKind \<Rightarrow> ('x, 'o, 's) app \<Rightarrow>
   ('x, 'o, 's) app \<times> go_error option" where
  "add_watcher E sch kind a = (case uk_Watcher kind of
     None \<Rightarrow> (a, None)
   | Some w \<Rightarrow> (case kind_watcher E (ap_cfg a) (ap_next a) sch (uk_UseOpinionated kind) w of
       Inl e \<Rightarrow> (a, Some e)
     | Inr w' \<Rightarrow>
         (let (c, err) = AddWatcher (ap_controller a) (Some w') (kind_string E sch)
          in (a\<lparr>ap_controller := c, ap_next := Suc (ap_next a)\<rparr>,
              map_option (\<lambda>e. GoErr ''could not add watcher to controller'') err))))"

definition add_informer ::
  "'x app_env \<Rightarrow> schema \<Rightarrow> (DynamicPatcher \<times> 'x) AppUnmanagedKind \<Rightarrow> ('x, 'o, 's) app \<Rightarrow>
   ('x, 'o, 's) app \<times> go_error option" where
  "add_informer E sch kind a =
     (let infSupplier = (case ac_InformerSupplier (ap_cfg a) of None \<Rightarrow> ae_defaultSupplier E | Some s \<Rightarrow> s);
          opts = kind_options (ac_InformerOptions (ap_cfg a)) (uk_ReconcileOptions kind)
      in case infSupplier sch opts of
           Inl e \<Rightarrow> (a, Some e)
         | Inr (informer, handlerErr) \<Rightarrow>
             (let (c, err) = AddInformer (ap_controller a) informer (kind_string E sch) handlerErr
              in (a\<lparr>ap_controller := c\<rparr>, map_option (\<lambda>e. GoErr ''could not add informer to controller'') err)))"

definition watchKind ::
  "'x app_env \<Rightarrow> (DynamicPatcher \<times> 'x) AppUnmanagedKind \<Rightarrow> ('x, 'o, 's) app \<Rightarrow>
   ('x, 'o, 's) app \<times> go_error option" where
  "watchKind E kind a = (case k_Schema (uk_Kind kind) of
     None \<Rightarrow> (a, Some (GoErr ''cannot watch an empty kind''))
   | Some sch \<Rightarrow>
       if uk_Reconciler kind \<noteq> None \<and> uk_Watcher kind \<noteq> None
       then (a, Some (GoErr ''please provide either Watcher or Reconciler, not both''))
       else if uk_Reconciler kind \<noteq> None \<or> uk_Watcher kind \<noteq> None then
         (case add_informer E sch kind a of
            (a1, Some e) \<Rightarrow> (a1, Some e)
          | (a1, None) \<Rightarrow> (case add_reconciler E sch kind a1 of
              (a2, Some e) \<Rightarrow> (a2, Some e)
            | (a2, None) \<Rightarrow> add_watcher E sch kind a2))
       else (a, None))"

section \<open>Managing a kind\<close>

fun add_routes ::
  "schema \<Rightarrow> string \<Rightarrow> (AppCustomRoute \<times> 's AppCustomRouteHandler option) list \<Rightarrow>
   (string \<Rightarrow> 's AppCustomRouteHandler option option) \<Rightarrow>
   (string \<Rightarrow> 's AppCustomRouteHandler option option) \<times> go_error option" where
  "add_routes sch scope [] m = (m, None)"
| "add_routes sch scope ((route, handler) # rs) m =
     (let key = customRouteHandlerKey (kind_gvk sch) (cr_Method route) (cr_Path route) scope
      in if cr_Method route = [] then (m, Some (GoErr ''custom route cannot have an empty method''))
         else if cr_Path route = [] then (m, Some (GoErr ''custom route cannot have an empty path''))
         else if handler = None then (m, Some (GoErr ''custom route cannot have a nil handler''))
         else if m key \<noteq> None
         then (m, Some (GoErr (''custom route '' @ quoted (cr_Method route @ '' '' @ cr_Path route) @ '' already exists'')))
         else add_routes sch scope rs (m(key \<mapsto> handler)))"

definition as_unmanaged :: "('u, 'o, 's) AppManagedKind \<Rightarrow> 'u AppUnmanagedKind" where
  "as_unmanaged kind =
     \<lparr>uk_Kind = mk_Kind kind, uk_Reconciler = mk_Reconciler kind, uk_Watcher = mk_Watcher kind,
      uk_ReconcileOptions = mk_ReconcileOptions kind, uk_UseOpinionated = (\<not> mk_UsePlain kind)\<rparr>"

definition manageKind ::
  "'x app_env \<Rightarrow> (DynamicPatcher \<times> 'x, 'o, 's) AppManagedKind \<Rightarrow> ('x, 'o, 's) app \<Rightarrow>
   ('x, 'o, 's) app \<times> go_error option" where
  "manageKind E kind a = (case k_Schema (mk_Kind kind) of
     None \<Rightarrow> (a, Some (GoErr ''cannot manage an empty kind''))
   | Some sch \<Rightarrow>
       (let key = gvk_key (sch_Group sch) (sch_Version sch) (sch_Kind sch);
            a1 = a\<lparr>ap_gvrToGVK := (ap_gvrToGVK a)(gvr_key (sch_Group sch) (sch_Version sch) (sch_Plural sch) \<mapsto> key),
                   ap_kinds := (ap_kinds a)(key \<mapsto> kind)\<rparr>
        in case add_routes sch (k_Scope (mk_Kind kind)) (mk_CustomRoutes kind) (ap_customRoutes a1) of
             (m, Some e) \<Rightarrow> (a1\<lparr>ap_customRoutes := m\<rparr>, Some e)
           | (m, None) \<Rightarrow>
               if mk_Reconciler kind \<noteq> None \<or> mk_Watcher kind \<noteq> None
               then watchKind E (as_unmanaged kind) (a1\<lparr>ap_customRoutes := m\<rparr>)
               else (a1\<lparr>ap_customRoutes := m\<rparr>, None)))"

section \<open>Making an app\<close>

fun add_version_routes ::
  "string \<Rightarrow> (AppVersionRoute \<times> 's AppCustomRouteHandler option) list \<Rightarrow>
   (string \<Rightarrow> 's AppCustomRouteHandler option option) \<Rightarrow>
   go_error + (string \<Rightarrow> 's AppCustomRouteHandler option option)" where
  "add_version_routes version [] m = Inr m"
| "add_version_routes version ((route, handler) # rs) m =
     (let scope = (if vr_Namespaced route then NamespacedScope else ClusterScope);
          key = customRouteHandlerKey \<lparr>gvk_Group = [], gvk_Version = version, gvk_Kind = []\<rparr>
                  (vr_Method route) (vr_Path route) scope
      in if m key \<noteq> None
         then Inl (GoErr (''custom route '' @ quoted (vr_Method route @ '' '' @ vr_Path route) @
                          '' already exists for version '' @ version))
         else add_version_routes version rs (m(key \<mapsto> handler)))"

fun add_all_version_routes ::
  "(string \<times> (AppVersionRoute \<times> 's AppCustomRouteHandler option) list) list \<Rightarrow>
   (string \<Rightarrow> 's AppCustomRouteHandler option option) \<Rightarrow>
   go_error + (string \<Rightarrow> 's AppCustomRouteHandler option option)" where
  "add_all_version_routes [] m = Inr m"
| "add_all_version_routes ((version, rs) # vs) m = (case add_version_routes version rs m of
     Inl e \<Rightarrow> Inl e
   | Inr m' \<Rightarrow> add_all_version_routes vs m')"

text \<open>A loop over kinds that stops at the first error.\<close>

fun each_kind :: "('k \<Rightarrow> 'a \<Rightarrow> 'a \<times> go_error option) \<Rightarrow> 'k list \<Rightarrow> 'a \<Rightarrow> go_error + 'a" where
  "each_kind f [] a = Inr a"
| "each_kind f (k # ks) a = (case f k a of
     (a', Some e) \<Rightarrow> Inl e
   | (a', None) \<Rightarrow> each_kind f ks a')"

definition RegisterKindConverter ::
  "'x app_env \<Rightarrow> string \<times> string \<Rightarrow> Converter \<Rightarrow> ('x, 'o, 's) app \<Rightarrow> ('x, 'o, 's) app" where
  "RegisterKindConverter E groupKind converter a =
     a\<lparr>ap_converters := (ap_converters a)(kb_groupKind (ae_kube E) groupKind \<mapsto> converter)\<rparr>"

definition app_controller :: "'x app_env \<Rightarrow> (DynamicPatcher \<times> 'x, 'o, 's) AppConfig \<Rightarrow> (DynamicPatcher \<times> 'x) InformerController" where
  "app_controller E config =
     (let c = NewInformerController (ae_over E) (DefaultInformerControllerConfig (ae_over E));
          c1 = (case ac_ErrorHandler config of None \<Rightarrow> c | Some h \<Rightarrow> c\<lparr>ic_ErrorHandler := Some h\<rparr>);
          c2 = (case ac_RetryPolicy config of None \<Rightarrow> c1 | Some p \<Rightarrow> c1\<lparr>ic_RetryPolicy := Some p\<rparr>)
      in case ac_RetryDequeuePolicy config of None \<Rightarrow> c2 | Some p \<Rightarrow> c2\<lparr>ic_RetryDequeuePolicy := Some p\<rparr>)"

definition empty_app :: "'x app_env \<Rightarrow> (DynamicPatcher \<times> 'x, 'o, 's) AppConfig \<Rightarrow> ('x, 'o, 's) app" where
  "empty_app E config =
     \<lparr>ap_controller = app_controller E config, ap_runnables = [], ap_kinds = (\<lambda>_. None), ap_gvrToGVK = (\<lambda>_. None),
      ap_converters = (\<lambda>_. None), ap_customRoutes = (\<lambda>_. None), ap_cfg = config, ap_next = 0\<rparr>"

definition tenMinutes :: duration where
  "tenMinutes = 600 * 10 ^ 9"

definition AddRunnable_app :: "nat \<Rightarrow> ('x, 'o, 's) app \<Rightarrow> ('x, 'o, 's) app" where
  "AddRunnable_app runner a = a\<lparr>ap_runnables := ap_runnables a @ [runner]\<rparr>"

text \<open>The controller is the first runnable, with an identity of its own. The patcher goes into the world outside.\<close>

definition controller_runnable :: nat where
  "controller_runnable = 0"

definition NewApp ::
  "'x app_env \<Rightarrow> (DynamicPatcher \<times> 'x, 'o, 's) AppConfig \<Rightarrow> go_error + ('x, 'o, 's) app \<times> DynamicPatcher" where
  "NewApp E config =
     (let refresh = (if ac_DiscoveryRefreshInterval config = 0 then tenMinutes else ac_DiscoveryRefreshInterval config)
      in case NewDynamicPatcher (ae_clientErr E) (ae_discoveryErr E) refresh of
           Inl e \<Rightarrow> Inl e
         | Inr p \<Rightarrow>
             (case each_kind (manageKind E) (ac_ManagedKinds config) (empty_app E config) of
                Inl e \<Rightarrow> Inl e
              | Inr a \<Rightarrow> (case each_kind (watchKind E) (ac_UnmanagedKinds config) a of
                  Inl e \<Rightarrow> Inl e
                | Inr a1 \<Rightarrow> (case add_all_version_routes (ac_VersionedCustomRoutes config) (ap_customRoutes a1) of
                    Inl e \<Rightarrow> Inl e
                  | Inr m \<Rightarrow> Inr (AddRunnable_app controller_runnable
                      (fold (\<lambda>(gk, conv). RegisterKindConverter E gk conv) (ac_Converters config)
                        (a1\<lparr>ap_customRoutes := m\<rparr>)), p)))))"

section \<open>The methods of the app\<close>

definition ErrNotImplemented :: go_error where
  "ErrNotImplemented = GoErr ''not implemented''"

definition ErrCustomRouteNotFound :: go_error where
  "ErrCustomRouteNotFound = GoErr ''custom route not found''"

definition ManagedKinds :: "('x, 'o, 's) app \<Rightarrow> app_kind set" where
  "ManagedKinds a = mk_Kind ` ran (ap_kinds a)"

text \<open>The controllers' errors are their own; \<open>Inl\<close> is an error of the app itself.\<close>

definition App_Validate ::
  "('x, 'o, 's) app \<Rightarrow> 'o AdmissionRequest \<Rightarrow> 's \<Rightarrow> (go_error + adm_error option) ran \<times> 's" where
  "App_Validate a req s = (case ap_kinds a (gvk_key (ar_Group req) (ar_Version req) (ar_Kind req)) of
     None \<Rightarrow> (Ran (Inl ErrNotImplemented), s)
   | Some k \<Rightarrow> (case mk_Validator k of
       None \<Rightarrow> (Ran (Inl ErrNotImplemented), s)
     | Some v \<Rightarrow> (let (r, s') = v req s in (map_ran Inr r, s'))))"

text \<open>On an error the response is dropped.\<close>

definition App_Mutate ::
  "('x, 'o, 's) app \<Rightarrow> 'o AdmissionRequest \<Rightarrow> 's \<Rightarrow> (go_error + 'o option option \<times> adm_error option) ran \<times> 's" where
  "App_Mutate a req s = (case ap_kinds a (gvk_key (ar_Group req) (ar_Version req) (ar_Kind req)) of
     None \<Rightarrow> (Ran (Inl ErrNotImplemented), s)
   | Some k \<Rightarrow> (case mk_Mutator k of
       None \<Rightarrow> (Ran (Inl ErrNotImplemented), s)
     | Some m \<Rightarrow> (let (r, s') = m req s
         in (map_ran (\<lambda>(resp, err). Inr (if err = None then resp else None, err)) r, s'))))"

record ConversionRequest =
  cq_SourceGVK :: gvk
  cq_TargetGVK :: gvk
  cq_Raw :: string

definition App_Convert :: "'x app_env \<Rightarrow> ('x, 'o, 's) app \<Rightarrow> ConversionRequest \<Rightarrow> go_error + string" where
  "App_Convert E a req =
     (case ap_converters a (kb_groupKind (ae_kube E) (gvk_Group (cq_SourceGVK req), gvk_Kind (cq_SourceGVK req))) of
        None \<Rightarrow> Inl ErrNotImplemented
      | Some converter \<Rightarrow> converter
          \<lparr>rk_Kind = gvk_Kind (cq_SourceGVK req), rk_APIVersion = ae_apiVersion E (cq_SourceGVK req),
           rk_Group = gvk_Group (cq_SourceGVK req), rk_Version = gvk_Version (cq_SourceGVK req),
           rk_Raw = cq_Raw req\<rparr> (ae_apiVersion E (cq_TargetGVK req)))"

text \<open>Calling a handler, which panics when it is nil.\<close>

definition call_route :: "'s AppCustomRouteHandler option \<Rightarrow> CustomRouteRequest \<Rightarrow> 's \<Rightarrow> go_error option ran \<times> 's" where
  "call_route handler req s = (case handler of
     None \<Rightarrow> (Panic, s)
   | Some h \<Rightarrow> (let (err, s') = h req s in (Ran err, s')))"

definition version_key :: "CustomRouteRequest \<Rightarrow> string" where
  "version_key req = customRouteHandlerKey
     \<lparr>gvk_Group = [], gvk_Version = fi_Version (rr_Identifier req), gvk_Kind = []\<rparr> (rr_Method req) (rr_Path req)
     (if fi_Namespace (rr_Identifier req) = [] then ClusterScope else NamespacedScope)"

definition kind_of_request :: "('x, 'o, 's) app \<Rightarrow> FullIdentifier \<Rightarrow> (DynamicPatcher \<times> 'x, 'o, 's) AppManagedKind option" where
  "kind_of_request a ident =
     ap_kinds a
       (if fi_Kind ident = []
        then (case ap_gvrToGVK a (gvr_key (fi_Group ident) (fi_Version ident) (fi_Plural ident)) of
                Some key \<Rightarrow> key | None \<Rightarrow> [])
        else gvk_key (fi_Group ident) (fi_Version ident) (fi_Kind ident))"

text \<open>A managed kind has a schema, from which its group version kind is read.\<close>

definition kind_route_key :: "app_kind \<Rightarrow> CustomRouteRequest \<Rightarrow> string option" where
  "kind_route_key k req = (case k_Schema k of
     None \<Rightarrow> None
   | Some sch \<Rightarrow> Some (customRouteHandlerKey (kind_gvk sch) (rr_Method req) (rr_Path req) (k_Scope k)))"

definition CallCustomRoute ::
  "('x, 'o, 's) app \<Rightarrow> CustomRouteRequest \<Rightarrow> 's \<Rightarrow> go_error option ran \<times> 's" where
  "CallCustomRoute a req s =
     (case (if fi_Kind (rr_Identifier req) = [] \<and> fi_Plural (rr_Identifier req) = []
            then ap_customRoutes a (version_key req) else None) of
        Some handler \<Rightarrow> call_route handler req s
      | None \<Rightarrow> (case kind_of_request a (rr_Identifier req) of
          None \<Rightarrow> (Ran (Some ErrCustomRouteNotFound), s)
        | Some k \<Rightarrow> (case kind_route_key (mk_Kind k) req of
            None \<Rightarrow> (Panic, s)
          | Some key \<Rightarrow> (case ap_customRoutes a key of
              Some handler \<Rightarrow> call_route handler req s
            | None \<Rightarrow> (Ran (Some ErrCustomRouteNotFound), s)))))"

section \<open>Manifests\<close>

text \<open>The checks of \<open>ValidateManifest\<close> for one kind of a version, in the code's order.\<close>

definition manifest_kind_error ::
  "'x app_env \<Rightarrow> ('x, 'o, 's) app \<Rightarrow> string \<Rightarrow> string \<Rightarrow> ManifestVersionKind \<Rightarrow> go_error option" where
  "manifest_kind_error E a group' version k =
     (let kindName = vk_Kind k @ ''/'' @ version;
          validation = (case vk_Admission k of None \<Rightarrow> False | Some c \<Rightarrow> SupportsAnyValidation c);
          mutation = (case vk_Admission k of None \<Rightarrow> False | Some c \<Rightarrow> SupportsAnyMutation c)
      in if ap_converters a (kb_groupKind (ae_kube E) (group', vk_Kind k)) = None \<and> vk_Conversion k
         then Some (GoErr (''kind '' @ vk_Kind k @ '' has conversion enabled but no converter is registered''))
         else (case ap_kinds a (gvk_key group' version (vk_Kind k)) of
           None \<Rightarrow> Some (GoErr (''kind '' @ kindName @ '' exists in manifest but is not managed by the app''))
         | Some kind \<Rightarrow>
             if validation \<and> mk_Validator kind = None
             then Some (GoErr (''kind '' @ kindName @ '' supports validation but has no validator''))
             else if mutation \<and> mk_Mutator kind = None
             then Some (GoErr (''kind '' @ kindName @ '' supports mutation but has no mutator''))
             else if mk_Validator kind \<noteq> None \<and> \<not> validation
             then Some (GoErr (''kind '' @ kindName @ '' does not support validation, but has a validator''))
             else if mk_Mutator kind \<noteq> None \<and> \<not> mutation
             then Some (GoErr (''kind '' @ kindName @ '' does not support mutation, but has a mutator''))
             else None))"

fun first_error :: "('a \<Rightarrow> go_error option) \<Rightarrow> 'a list \<Rightarrow> go_error option" where
  "first_error f [] = None"
| "first_error f (x # xs) = (case f x of Some e \<Rightarrow> Some e | None \<Rightarrow> first_error f xs)"

definition ValidateManifest :: "'x app_env \<Rightarrow> ('x, 'o, 's) app \<Rightarrow> ManifestData \<Rightarrow> go_error option" where
  "ValidateManifest E a manifest =
     first_error (\<lambda>v. first_error (manifest_kind_error E a (md_Group manifest) (mv_Name v)) (mv_Kinds v))
       (md_Versions manifest)"

section \<open>Custom routes\<close>

text \<open>Without bars in its parts a route key determines them.\<close>

definition no_bar :: "string \<Rightarrow> bool" where
  "no_bar s \<longleftrightarrow> CHR ''|'' \<notin> set s"

lemma upper_char_bar: "upper_char c = CHR ''|'' \<longleftrightarrow> c = CHR ''|''"
proof -
  have False if eq: "char_of (of_char c - 32 :: nat) = CHR ''|''" and le: "(of_char c :: nat) \<le> 122"
  proof -
    have "(of_char c - 32 :: nat) mod 256 = of_char (CHR ''|'')" using arg_cong [OF eq, of "of_char :: char \<Rightarrow> nat"] by simp
    then show False using le by simp
  qed
  then show ?thesis by (auto simp: upper_char_def Let_def)
qed

lemma upper_char_bar_image [simp]: "CHR ''|'' \<in> upper_char ` A \<longleftrightarrow> CHR ''|'' \<in> A"
  by (auto simp: image_iff upper_char_bar eq_commute [of "CHR ''|''"])

lemma no_bar_simps [simp]: "no_bar (map upper_char s) \<longleftrightarrow> no_bar s" "no_bar s \<Longrightarrow> no_bar (route_path s)" "no_bar []"
  by (auto simp: no_bar_def route_path_def dest: list.set_sel(2))

lemma route_key_eq:
  assumes "\<forall>x \<in> set [s, gvk_Group g, gvk_Version g, gvk_Kind g, m, p]. no_bar x"
    "\<forall>x \<in> set [s', gvk_Group g', gvk_Version g', gvk_Kind g', m', p']. no_bar x"
  shows "customRouteHandlerKey g m p s = customRouteHandlerKey g' m' p' s' \<longleftrightarrow>
     s = s' \<and> g = g' \<and> map upper_char m = map upper_char m' \<and> route_path p = route_path p'"
proof -
  let ?l = "[s, gvk_Group g, gvk_Version g, gvk_Kind g, map upper_char m, route_path p]"
  let ?l' = "[s', gvk_Group g', gvk_Version g', gvk_Kind g', map upper_char m', route_path p']"
  have "\<forall>x \<in> set ?l. CHR ''|'' \<notin> set x" "\<forall>x \<in> set ?l'. CHR ''|'' \<notin> set x"
    using assms no_bar_simps unfolding no_bar_def by auto
  then have "join ''|'' ?l = join ''|'' ?l' \<longleftrightarrow> ?l = ?l'"
    using split_join [of ?l "CHR ''|''"] split_join [of ?l' "CHR ''|''"] by (metis list.distinct(1))
  then show ?thesis unfolding customRouteHandlerKey_def by (auto intro: gvk.equality)
qed

text \<open>Maps built by adding pairs with new keys.\<close>

definition adds :: "('a \<times> 'b) list \<Rightarrow> ('a \<Rightarrow> 'b option) \<Rightarrow> ('a \<Rightarrow> 'b option) \<Rightarrow> bool" where
  "adds xs m m' \<longleftrightarrow> distinct (map fst xs) \<and> (\<forall>x \<in> set xs. m (fst x) = None) \<and> m' = m ++ map_of xs"

lemma adds_Nil [simp]: "adds [] m m' \<longleftrightarrow> m' = m"
  by (auto simp: adds_def)

lemma adds_append:
  assumes "adds xs m m'" "adds ys m' m''"
  shows "adds (xs @ ys) m m''"
proof -
  have xs: "distinct (map fst xs)" "\<forall>x \<in> set xs. m (fst x) = None" "m' = m ++ map_of xs"
    and ys: "distinct (map fst ys)" "\<forall>y \<in> set ys. m' (fst y) = None" "m'' = m' ++ map_of ys"
    using assms by (simp_all add: adds_def)
  have "fst y \<notin> fst ` set xs \<and> m (fst y) = None" if "y \<in> set ys" for y
    using ys(2) that xs(3) by (auto simp: map_add_None dom_map_of_conv_image_fst [symmetric] domIff)
  moreover from this have "dom (map_of xs) \<inter> dom (map_of ys) = {}"
    unfolding dom_map_of_conv_image_fst disjoint_iff by (metis (no_types, lifting) imageE)
  then have "map_of xs ++ map_of ys = map_of (xs @ ys)"
    using map_add_comm [of "map_of xs" "map_of ys"] by (simp add: map_of_append)
  ultimately show ?thesis
    using xs ys by (auto simp: adds_def map_add_assoc [symmetric] simp del: map_add_assoc)
qed

lemma adds_Cons:
  assumes "m k = None" "adds xs (m(k \<mapsto> v)) m'"
  shows "adds ((k, v) # xs) m m'"
  using adds_append [of "[(k, v)]" m "m(k \<mapsto> v)" xs m'] assms by (simp add: adds_def)

lemma map_of_find: "map_of (map (\<lambda>x. (k x, v x)) xs) key = map_option v (List.find (\<lambda>x. k x = key) xs)"
  by (induction xs) auto

subsection \<open>What a new app holds\<close>

definition tables where
  "tables a = (ap_kinds a, ap_gvrToGVK a, ap_converters a, ap_customRoutes a, ap_cfg a)"

lemma tables_simps [simp]:
  "tables (a\<lparr>ap_controller := c\<rparr>) = tables a" "tables (a\<lparr>ap_next := n\<rparr>) = tables a"
  by (simp_all add: tables_def)

lemma add_informer_tables: "add_informer E sch kind a = (a', r) \<Longrightarrow> tables a' = tables a"
  by (auto simp: add_informer_def Let_def split: sum.splits prod.splits option.splits)

lemma add_reconciler_tables: "add_reconciler E sch kind a = (a', r) \<Longrightarrow> tables a' = tables a"
  by (auto simp: add_reconciler_def Let_def split: sum.splits prod.splits option.splits)

lemma add_watcher_tables: "add_watcher E sch kind a = (a', r) \<Longrightarrow> tables a' = tables a"
  by (auto simp: add_watcher_def Let_def split: sum.splits prod.splits option.splits)

lemma watchKind_tables: "watchKind E kind a = (a', r) \<Longrightarrow> tables a' = tables a"
  unfolding watchKind_def
  by (auto split: option.splits if_splits prod.splits
      dest!: add_informer_tables add_reconciler_tables add_watcher_tables)

lemma each_watchKind_tables: "each_kind (watchKind E) ks a = Inr a' \<Longrightarrow> tables a' = tables a"
  by (induction ks arbitrary: a) (auto split: prod.splits option.splits dest: watchKind_tables)

definition kind_key :: "('u, 'o, 's) AppManagedKind \<Rightarrow> string" where
  "kind_key k = (case k_Schema (mk_Kind k) of None \<Rightarrow> []
     | Some sch \<Rightarrow> gvk_key (sch_Group sch) (sch_Version sch) (sch_Kind sch))"

definition kind_plural_key :: "('u, 'o, 's) AppManagedKind \<Rightarrow> string" where
  "kind_plural_key k = (case k_Schema (mk_Kind k) of None \<Rightarrow> []
     | Some sch \<Rightarrow> gvr_key (sch_Group sch) (sch_Version sch) (sch_Plural sch))"

definition kind_routes :: "('u, 'o, 's) AppManagedKind \<Rightarrow> (string \<times> 's AppCustomRouteHandler option) list" where
  "kind_routes k = (case k_Schema (mk_Kind k) of None \<Rightarrow> []
     | Some sch \<Rightarrow> map (\<lambda>(r, h). (customRouteHandlerKey (kind_gvk sch) (cr_Method r) (cr_Path r) (k_Scope (mk_Kind k)), h))
         (mk_CustomRoutes k))"

definition version_routes ::
  "string \<times> (AppVersionRoute \<times> 's AppCustomRouteHandler option) list \<Rightarrow> (string \<times> 's AppCustomRouteHandler option) list" where
  "version_routes v = map (\<lambda>(r, h). (customRouteHandlerKey \<lparr>gvk_Group = [], gvk_Version = fst v, gvk_Kind = []\<rparr>
     (vr_Method r) (vr_Path r) (if vr_Namespaced r then NamespacedScope else ClusterScope), h)) (snd v)"

lemma add_routes_adds:
  "add_routes sch scope rs m = (m', None) \<Longrightarrow>
     adds (map (\<lambda>(r, h). (customRouteHandlerKey (kind_gvk sch) (cr_Method r) (cr_Path r) scope, h)) rs) m m' \<and>
     (\<forall>(r, h) \<in> set rs. h \<noteq> None)"
  by (induction sch scope rs m rule: add_routes.induct) (auto simp: Let_def split: if_splits intro: adds_Cons)

lemma add_version_routes_adds:
  "add_version_routes v rs m = Inr m' \<Longrightarrow> adds (version_routes (v, rs)) m m'"
  by (induction v rs m rule: add_version_routes.induct)
    (auto simp: version_routes_def Let_def split: if_splits intro: adds_Cons)

lemma add_all_version_routes_adds:
  "add_all_version_routes vs m = Inr m' \<Longrightarrow> adds (concat (map version_routes vs)) m m'"
  by (induction vs m rule: add_all_version_routes.induct)
    (auto split: sum.splits dest: add_version_routes_adds intro: adds_append)

lemma manageKind_tables:
  assumes "manageKind E k a = (a', None)"
  shows "ap_kinds a' = (ap_kinds a)(kind_key k \<mapsto> k)"
    "ap_gvrToGVK a' = (ap_gvrToGVK a)(kind_plural_key k \<mapsto> kind_key k)"
    "adds (kind_routes k) (ap_customRoutes a) (ap_customRoutes a')"
    "k_Schema (mk_Kind k) \<noteq> None" "ap_converters a' = ap_converters a" "ap_cfg a' = ap_cfg a"
    "\<forall>(r, h) \<in> set (mk_CustomRoutes k). h \<noteq> None"
proof -
  obtain sch where sch: "k_Schema (mk_Kind k) = Some sch"
    using assms by (auto simp: manageKind_def split: option.splits)
  let ?a1 = "a\<lparr>ap_gvrToGVK := (ap_gvrToGVK a)(kind_plural_key k \<mapsto> kind_key k), ap_kinds := (ap_kinds a)(kind_key k \<mapsto> k)\<rparr>"
  obtain m where m: "add_routes sch (k_Scope (mk_Kind k)) (mk_CustomRoutes k) (ap_customRoutes a) = (m, None)"
    and rest: "tables a' = tables (?a1\<lparr>ap_customRoutes := m\<rparr>)"
    using assms sch
    by (auto simp: manageKind_def Let_def kind_key_def kind_plural_key_def
        split: prod.splits option.splits if_splits dest: watchKind_tables)
  show "ap_kinds a' = (ap_kinds a)(kind_key k \<mapsto> k)"
    "ap_gvrToGVK a' = (ap_gvrToGVK a)(kind_plural_key k \<mapsto> kind_key k)"
    "adds (kind_routes k) (ap_customRoutes a) (ap_customRoutes a')"
    "k_Schema (mk_Kind k) \<noteq> None" "ap_converters a' = ap_converters a" "ap_cfg a' = ap_cfg a"
    "\<forall>(r, h) \<in> set (mk_CustomRoutes k). h \<noteq> None"
    using rest add_routes_adds [OF m] sch by (auto simp: tables_def kind_routes_def)
qed

lemma each_manageKind_tables:
  assumes "each_kind (manageKind E) ks a = Inr a'"
  shows "ap_kinds a' = ap_kinds a ++ map_of (rev (map (\<lambda>k. (kind_key k, k)) ks)) \<and>
    ap_gvrToGVK a' = ap_gvrToGVK a ++ map_of (rev (map (\<lambda>k. (kind_plural_key k, kind_key k)) ks)) \<and>
    adds (concat (map kind_routes ks)) (ap_customRoutes a) (ap_customRoutes a') \<and>
    (\<forall>k \<in> set ks. k_Schema (mk_Kind k) \<noteq> None \<and> (\<forall>(r, h) \<in> set (mk_CustomRoutes k). h \<noteq> None))"
  using assms
proof (induction ks arbitrary: a)
  case (Cons k ks)
  obtain a1 where a1: "manageKind E k a = (a1, None)" "each_kind (manageKind E) ks a1 = Inr a'"
    using Cons.prems by (auto split: prod.splits option.splits)
  note ih = Cons.IH [OF a1(2)] and mk = manageKind_tables [OF a1(1)]
  have "ap_kinds a' = ap_kinds a ++ map_of (rev (map (\<lambda>k. (kind_key k, k)) (k # ks)))"
    unfolding conjunct1 [OF ih] mk(1) by (simp add: map_of_append)
  moreover have "ap_gvrToGVK a' = ap_gvrToGVK a ++ map_of (rev (map (\<lambda>k. (kind_plural_key k, kind_key k)) (k # ks)))"
    unfolding conjunct1 [OF conjunct2 [OF ih]] mk(2) by (simp add: map_of_append)
  ultimately show ?case using ih mk(3,4,7) adds_append by auto
qed simp

lemma map_of_rev_distinct: "distinct (map fst xs) \<Longrightarrow> map_of (rev xs) = map_of xs"
proof (induction xs)
  case (Cons x xs)
  then have "dom [fst x \<mapsto> snd x] \<inter> dom (map_of xs) = {}" by (auto simp: dom_map_of_conv_image_fst)
  from map_add_comm [OF this] Cons show ?case by (cases x) (simp add: map_of_append)
qed simp

lemma map_of_rev_keys:
  "distinct (map f xs) \<Longrightarrow> map_of (rev (map (\<lambda>x. (f x, g x)) xs)) = map_of (map (\<lambda>x. (f x, g x)) xs)"
  by (rule map_of_rev_distinct) (simp add: comp_def)

lemma fold_converters_tables [simp]:
  "ap_kinds (fold (\<lambda>(gk, conv). RegisterKindConverter E gk conv) cs a) = ap_kinds a"
  "ap_gvrToGVK (fold (\<lambda>(gk, conv). RegisterKindConverter E gk conv) cs a) = ap_gvrToGVK a"
  "ap_customRoutes (fold (\<lambda>(gk, conv). RegisterKindConverter E gk conv) cs a) = ap_customRoutes a"
  "ap_controller (fold (\<lambda>(gk, conv). RegisterKindConverter E gk conv) cs a) = ap_controller a"
  by (induction cs arbitrary: a) (auto simp: RegisterKindConverter_def)

definition all_routes :: "('u, 'o, 's) AppConfig \<Rightarrow> (string \<times> 's AppCustomRouteHandler option) list" where
  "all_routes cfg = concat (map kind_routes (ac_ManagedKinds cfg)) @ concat (map version_routes (ac_VersionedCustomRoutes cfg))"

lemma NewApp_tables:
  assumes "NewApp E cfg = Inr (a, p)"
    and "distinct (map kind_key (ac_ManagedKinds cfg))" "distinct (map kind_plural_key (ac_ManagedKinds cfg))"
  shows "ap_kinds a = map_of (map (\<lambda>k. (kind_key k, k)) (ac_ManagedKinds cfg))"
    "ap_gvrToGVK a = map_of (map (\<lambda>k. (kind_plural_key k, kind_key k)) (ac_ManagedKinds cfg))"
    "ap_customRoutes a = map_of (all_routes cfg)"
    "\<forall>k \<in> set (ac_ManagedKinds cfg). k_Schema (mk_Kind k) \<noteq> None"
proof -
  obtain a1 a2 m where a1: "each_kind (manageKind E) (ac_ManagedKinds cfg) (empty_app E cfg) = Inr a1"
    and a2: "each_kind (watchKind E) (ac_UnmanagedKinds cfg) a1 = Inr a2"
    and m: "add_all_version_routes (ac_VersionedCustomRoutes cfg) (ap_customRoutes a2) = Inr m"
    and a: "a = AddRunnable_app controller_runnable
      (fold (\<lambda>(gk, conv). RegisterKindConverter E gk conv) (ac_Converters cfg) (a2\<lparr>ap_customRoutes := m\<rparr>))"
    using assms(1) by (auto simp: NewApp_def Let_def split: sum.splits)
  have final: "(ap_kinds a, ap_gvrToGVK a, ap_customRoutes a) = (ap_kinds a2, ap_gvrToGVK a2, m)"
    unfolding a AddRunnable_app_def by simp
  note t1 = each_manageKind_tables [OF a1] and t2 = each_watchKind_tables [OF a2]
  have "adds (all_routes cfg) (\<lambda>_. None) m"
  proof -
    have "ap_customRoutes a2 = ap_customRoutes a1" using t2 by (simp add: tables_def)
    then have "adds (concat (map version_routes (ac_VersionedCustomRoutes cfg))) (ap_customRoutes a1) m"
      using add_all_version_routes_adds [OF m] by simp
    moreover have "adds (concat (map kind_routes (ac_ManagedKinds cfg))) (\<lambda>_. None) (ap_customRoutes a1)"
      using t1 by (simp add: empty_app_def)
    ultimately show ?thesis unfolding all_routes_def by (rule adds_append [rotated])
  qed
  then show "ap_customRoutes a = map_of (all_routes cfg)" using final by (auto simp: adds_def map_add_def fun_eq_iff split: option.split)
  show "\<forall>k \<in> set (ac_ManagedKinds cfg). k_Schema (mk_Kind k) \<noteq> None" using t1 by blast
  have empty: "(\<lambda>_. None) ++ g = g" for g :: "string \<Rightarrow> 'y option" by (auto simp: map_add_def fun_eq_iff split: option.split)
  have "ap_kinds a = ap_kinds a1" "ap_gvrToGVK a = ap_gvrToGVK a1" using final t2 by (simp_all add: tables_def)
  moreover have "ap_kinds a1 = map_of (rev (map (\<lambda>k. (kind_key k, k)) (ac_ManagedKinds cfg)))"
    "ap_gvrToGVK a1 = map_of (rev (map (\<lambda>k. (kind_plural_key k, kind_key k)) (ac_ManagedKinds cfg)))"
    using t1 by (simp_all add: empty_app_def empty)
  ultimately show "ap_kinds a = map_of (map (\<lambda>k. (kind_key k, k)) (ac_ManagedKinds cfg))"
    "ap_gvrToGVK a = map_of (map (\<lambda>k. (kind_plural_key k, kind_key k)) (ac_ManagedKinds cfg))"
    using assms(2,3) by (simp_all only: map_of_rev_keys)
qed

subsection \<open>The reference\<close>

text \<open>
  What a request names, read off the configuration: a route of a version when the request names no
  resource, otherwise a route of the kind it names, by its kind or by its plural.
\<close>

definition same_route :: "string \<Rightarrow> string \<Rightarrow> CustomRouteRequest \<Rightarrow> bool" where
  "same_route method path req \<longleftrightarrow>
     map upper_char method = map upper_char (rr_Method req) \<and> route_path path = route_path (rr_Path req)"

definition configured_version_route ::
  "('u, 'o, 's) AppConfig \<Rightarrow> CustomRouteRequest \<Rightarrow> 's AppCustomRouteHandler option option" where
  "configured_version_route cfg req =
     map_option snd (List.find (\<lambda>((v, r), h). v = fi_Version (rr_Identifier req) \<and>
         same_route (vr_Method r) (vr_Path r) req \<and> vr_Namespaced r = (fi_Namespace (rr_Identifier req) \<noteq> []))
       (concat (map (\<lambda>(v, rs). map (\<lambda>(r, h). ((v, r), h)) rs) (ac_VersionedCustomRoutes cfg))))"

definition names_kind :: "FullIdentifier \<Rightarrow> app_kind \<Rightarrow> bool" where
  "names_kind ident k = (case k_Schema k of
     None \<Rightarrow> False
   | Some sch \<Rightarrow> sch_Group sch = fi_Group ident \<and> sch_Version sch = fi_Version ident \<and>
       (if fi_Kind ident = [] then sch_Plural sch = fi_Plural ident else sch_Kind sch = fi_Kind ident))"

definition configured_kind_route ::
  "('u, 'o, 's) AppConfig \<Rightarrow> CustomRouteRequest \<Rightarrow> 's AppCustomRouteHandler option option" where
  "configured_kind_route cfg req =
     List.find (\<lambda>k. names_kind (rr_Identifier req) (mk_Kind k)) (ac_ManagedKinds cfg) \<bind>
       (\<lambda>k. map_option snd (List.find (\<lambda>(r, h). same_route (cr_Method r) (cr_Path r) req) (mk_CustomRoutes k)))"

definition configured_route ::
  "('u, 'o, 's) AppConfig \<Rightarrow> CustomRouteRequest \<Rightarrow> 's AppCustomRouteHandler option option" where
  "configured_route cfg req =
     (case (if fi_Kind (rr_Identifier req) = [] \<and> fi_Plural (rr_Identifier req) = []
            then configured_version_route cfg req else None) of
        Some h \<Rightarrow> Some h
      | None \<Rightarrow> configured_kind_route cfg req)"

text \<open>Names without the separators of the app's keys, kinds with a name, and no two kinds with the same keys.\<close>

definition plain :: "string \<Rightarrow> bool" where
  "plain s \<longleftrightarrow> CHR ''|'' \<notin> set s \<and> CHR ''/'' \<notin> set s"

definition kind_well_named :: "('u, 'o, 's) AppManagedKind \<Rightarrow> bool" where
  "kind_well_named k = (case k_Schema (mk_Kind k) of
     None \<Rightarrow> True
   | Some sch \<Rightarrow> plain (sch_Group sch) \<and> plain (sch_Version sch) \<and> plain (sch_Kind sch) \<and> plain (sch_Plural sch) \<and>
       sch_Kind sch \<noteq> [] \<and> sch_Plural sch \<noteq> [] \<and> no_bar (k_Scope (mk_Kind k)) \<and>
       (\<forall>(r, h) \<in> set (mk_CustomRoutes k). no_bar (cr_Method r) \<and> no_bar (cr_Path r)))"

definition well_named :: "('u, 'o, 's) AppConfig \<Rightarrow> bool" where
  "well_named cfg \<longleftrightarrow>
     (\<forall>k \<in> set (ac_ManagedKinds cfg). kind_well_named k) \<and>
     distinct (map kind_key (ac_ManagedKinds cfg)) \<and> distinct (map kind_plural_key (ac_ManagedKinds cfg)) \<and>
     (\<forall>(v, rs) \<in> set (ac_VersionedCustomRoutes cfg). no_bar v \<and> (\<forall>(r, h) \<in> set rs. no_bar (vr_Method r) \<and> no_bar (vr_Path r)))"

definition request_well_named :: "CustomRouteRequest \<Rightarrow> bool" where
  "request_well_named req \<longleftrightarrow> plain (fi_Group (rr_Identifier req)) \<and> plain (fi_Version (rr_Identifier req)) \<and>
     plain (fi_Kind (rr_Identifier req)) \<and> plain (fi_Plural (rr_Identifier req)) \<and>
     no_bar (rr_Method req) \<and> no_bar (rr_Path req)"

lemma plain_no_bar [simp]: "plain s \<Longrightarrow> no_bar s"
  by (simp add: plain_def no_bar_def)

lemma slash_key_eq:
  assumes "\<forall>x \<in> set [a, b, c, a', b', c']. plain x"
  shows "join ''/'' [a, b, c] = join ''/'' [a', b', c'] \<longleftrightarrow> a = a' \<and> b = b' \<and> c = c'"
proof -
  have "\<forall>x \<in> set [a, b, c]. CHR ''/'' \<notin> set x" "\<forall>x \<in> set [a', b', c']. CHR ''/'' \<notin> set x"
    using assms by (auto simp: plain_def)
  then have "join ''/'' [a, b, c] = join ''/'' [a', b', c'] \<longleftrightarrow> [a, b, c] = [a', b', c']"
    using split_join by (metis list.distinct(1))
  then show ?thesis by simp
qed

lemma find_cong_pred: "(\<And>x. x \<in> set xs \<Longrightarrow> P x \<longleftrightarrow> Q x) \<Longrightarrow> List.find P xs = List.find Q xs"
  by (induction xs) auto

lemma find_distinct_key: "distinct (map f xs) \<Longrightarrow> x \<in> set xs \<Longrightarrow> List.find (\<lambda>y. f y = f x) xs = Some x"
  by (induction xs) (auto simp: image_iff)

text \<open>The kind a request names is the one the app finds.\<close>

lemma kind_of_request_eq:
  assumes "NewApp E cfg = Inr (a, p)" "well_named cfg" "request_well_named req"
  shows "kind_of_request a (rr_Identifier req) =
     List.find (\<lambda>k. names_kind (rr_Identifier req) (mk_Kind k)) (ac_ManagedKinds cfg)"
proof -
  let ?ident = "rr_Identifier req" and ?ks = "ac_ManagedKinds cfg"
  have d: "distinct (map kind_key ?ks)" "distinct (map kind_plural_key ?ks)" using assms(2) by (auto simp: well_named_def)
  note t = NewApp_tables [OF assms(1) d]
  have kinds: "ap_kinds a key = List.find (\<lambda>k. kind_key k = key) ?ks" for key
    unfolding t(1) map_of_find by (simp add: option.map_ident)
  have sch: "\<exists>sch. k_Schema (mk_Kind k) = Some sch" "kind_well_named k" if "k \<in> set ?ks" for k
    using t(4) assms(2) that by (auto simp: well_named_def)
  have key: "kind_key k = gvk_key (fi_Group ?ident) (fi_Version ?ident) (fi_Kind ?ident) \<longleftrightarrow>
      names_kind ?ident (mk_Kind k)" if "k \<in> set ?ks" "fi_Kind ?ident \<noteq> []" for k
    using sch [OF that(1)] assms(3) that(2) slash_key_eq
    by (auto simp: kind_key_def gvk_key_def names_kind_def kind_well_named_def request_well_named_def)
  have plural: "kind_plural_key k = gvr_key (fi_Group ?ident) (fi_Version ?ident) (fi_Plural ?ident) \<longleftrightarrow>
      names_kind ?ident (mk_Kind k)" if "k \<in> set ?ks" "fi_Kind ?ident = []" for k
    using sch [OF that(1)] assms(3) that(2) slash_key_eq
    by (auto simp: kind_plural_key_def gvr_key_def names_kind_def kind_well_named_def request_well_named_def)
  show ?thesis
  proof (cases "fi_Kind ?ident = []")
    case False
    have "List.find (\<lambda>k. kind_key k = gvk_key (fi_Group ?ident) (fi_Version ?ident) (fi_Kind ?ident)) ?ks =
        List.find (\<lambda>k. names_kind ?ident (mk_Kind k)) ?ks"
      by (rule find_cong_pred) (rule key [OF _ False])
    with False show ?thesis unfolding kind_of_request_def kinds by simp
  next
    case True
    let ?f = "List.find (\<lambda>k. names_kind ?ident (mk_Kind k)) ?ks"
    have gvr: "ap_gvrToGVK a (gvr_key (fi_Group ?ident) (fi_Version ?ident) (fi_Plural ?ident)) = map_option kind_key ?f"
      unfolding t(2) map_of_find by (rule arg_cong [OF find_cong_pred [OF plural [OF _ True]]])
    show ?thesis
    proof (cases ?f)
      case None
      have "kind_key k \<noteq> []" if "k \<in> set ?ks" for k
        using sch [OF that] by (auto simp: kind_key_def gvk_key_def)
      then have "List.find (\<lambda>k. kind_key k = []) ?ks = None" by (simp add: find_None_iff)
      then show ?thesis using gvr None True by (simp add: kind_of_request_def kinds)
    next
      case (Some k)
      then have "k \<in> set ?ks" by (auto simp: find_Some_iff)
      moreover have "List.find (\<lambda>k'. kind_key k' = kind_key k) ?ks = Some k"
        using d(1) \<open>k \<in> set ?ks\<close> by (rule find_distinct_key)
      ultimately show ?thesis using gvr Some True by (simp add: kind_of_request_def kinds)
    qed
  qed
qed

lemma map_of_append_None: "(\<And>x. x \<in> set xs \<Longrightarrow> fst x \<noteq> key) \<Longrightarrow> map_of (xs @ ys) key = map_of ys key"
  by (induction xs) auto

lemma map_of_append_None2: "(\<And>y. y \<in> set ys \<Longrightarrow> fst y \<noteq> key) \<Longrightarrow> map_of (xs @ ys) key = map_of xs key"
  by (induction xs) (auto simp: map_of_eq_None_iff)

lemma map_of_concat_in:
  assumes "k \<in> set ks" "\<And>k' x. k' \<in> set ks \<Longrightarrow> x \<in> set (f k') \<Longrightarrow> fst x = key \<Longrightarrow> k' = k"
  shows "map_of (concat (map f ks)) key = map_of (f k) key"
  using assms
proof (induction ks)
  case (Cons k' ks)
  show ?case
  proof (cases "k' = k")
    case False
    then have "\<And>x. x \<in> set (f k') \<Longrightarrow> fst x \<noteq> key" using Cons.prems(2) by fastforce
    with map_of_append_None [of "f k'" key "concat (map f ks)"] Cons False show ?thesis by simp
  next
    case True
    show ?thesis
    proof (cases "map_of (f k) key")
      case None
      have "map_of (concat (map f ks)) key = None"
      proof (rule ccontr)
        assume "map_of (concat (map f ks)) key \<noteq> None"
        then obtain k2 x where "k2 \<in> set ks" "x \<in> set (f k2)" "fst x = key"
          by (auto simp: map_of_eq_None_iff)
        with Cons.prems(2) [of k2 x] have "x \<in> set (f k)" "fst x = key" by auto
        with None show False by (auto simp: map_of_eq_None_iff)
      qed
      with True None show ?thesis by (simp add: map_of_append map_add_def)
    qed (use True in \<open>simp add: map_of_append map_add_def\<close>)
  qed
qed simp

lemma kind_routesE:
  assumes "x \<in> set (kind_routes k)"
  obtains sch r h where "k_Schema (mk_Kind k) = Some sch" "(r, h) \<in> set (mk_CustomRoutes k)"
    "fst x = customRouteHandlerKey (kind_gvk sch) (cr_Method r) (cr_Path r) (k_Scope (mk_Kind k))"
  using assms by (cases "k_Schema (mk_Kind k)") (auto simp: kind_routes_def)

text \<open>The table's answers are the configuration's.\<close>

lemma kind_route_lookup:
  assumes "well_named cfg" "request_well_named req" "k \<in> set (ac_ManagedKinds cfg)" "k_Schema (mk_Kind k) = Some sch"
  shows "map_of (all_routes cfg) (customRouteHandlerKey (kind_gvk sch) (rr_Method req) (rr_Path req) (k_Scope (mk_Kind k))) =
     map_option snd (List.find (\<lambda>(r, h). same_route (cr_Method r) (cr_Path r) req) (mk_CustomRoutes k))"
proof -
  let ?key = "customRouteHandlerKey (kind_gvk sch) (rr_Method req) (rr_Path req) (k_Scope (mk_Kind k))"
  have wk: "kind_well_named k'" if "k' \<in> set (ac_ManagedKinds cfg)" for k' using assms(1) that by (auto simp: well_named_def)
  have parts: "\<forall>x \<in> set [k_Scope (mk_Kind k), gvk_Group (kind_gvk sch), gvk_Version (kind_gvk sch), gvk_Kind (kind_gvk sch),
      rr_Method req, rr_Path req]. no_bar x" "sch_Kind sch \<noteq> []"
    using wk [OF assms(3)] assms(2,4) by (auto simp: kind_well_named_def request_well_named_def kind_gvk_def)
  have vparts: "fst y \<noteq> ?key" if yv: "y \<in> set (version_routes v)" "v \<in> set (ac_VersionedCustomRoutes cfg)" for y v
  proof -
    obtain r h where y: "fst y = customRouteHandlerKey \<lparr>gvk_Group = [], gvk_Version = fst v, gvk_Kind = []\<rparr> (vr_Method r) (vr_Path r)
        (if vr_Namespaced r then NamespacedScope else ClusterScope)" and rh: "(r, h) \<in> set (snd v)"
      using yv(1) by (auto simp: version_routes_def)
    have "\<forall>x \<in> set [if vr_Namespaced r then NamespacedScope else ClusterScope, [], fst v, [], vr_Method r, vr_Path r]. no_bar x"
      using assms(1) yv(2) rh by (cases v) (auto simp: well_named_def no_bar_def NamespacedScope_def ClusterScope_def)
    then show ?thesis unfolding y using parts route_key_eq
      by (subst route_key_eq) (auto simp: kind_gvk_def)
  qed
  have "map_of (all_routes cfg) ?key = map_of (concat (map kind_routes (ac_ManagedKinds cfg))) ?key"
    unfolding all_routes_def by (rule map_of_append_None2) (use vparts in auto)
  also have "\<dots> = map_of (kind_routes k) ?key"
  proof (rule map_of_concat_in [OF assms(3)])
    fix k' x
    assume k': "k' \<in> set (ac_ManagedKinds cfg)" and x: "x \<in> set (kind_routes k')" "fst x = ?key"
    from x(1) obtain sch' r h where sch': "k_Schema (mk_Kind k') = Some sch'" and rh: "(r, h) \<in> set (mk_CustomRoutes k')"
      and fx: "fst x = customRouteHandlerKey (kind_gvk sch') (cr_Method r) (cr_Path r) (k_Scope (mk_Kind k'))"
      by (rule kind_routesE)
    have "\<forall>x \<in> set [k_Scope (mk_Kind k'), gvk_Group (kind_gvk sch'), gvk_Version (kind_gvk sch'), gvk_Kind (kind_gvk sch'),
        cr_Method r, cr_Path r]. no_bar x"
      using wk [OF k'] sch' rh by (auto simp: kind_well_named_def kind_gvk_def)
    from route_key_eq [OF this parts(1)] x(2) fx have "kind_gvk sch' = kind_gvk sch" by simp
    then have "kind_key k' = kind_key k" using sch' assms(4) by (auto simp: kind_key_def kind_gvk_def)
    then show "k' = k" using assms(1,3) k' by (auto simp: well_named_def distinct_map inj_on_def)
  qed
  also have "\<dots> = map_option snd (List.find (\<lambda>(r, h). same_route (cr_Method r) (cr_Path r) req) (mk_CustomRoutes k))"
  proof -
    let ?k = "\<lambda>(r, h). customRouteHandlerKey (kind_gvk sch) (cr_Method r) (cr_Path r) (k_Scope (mk_Kind k))"
    have "kind_routes k = map (\<lambda>x. (?k x, snd x)) (mk_CustomRoutes k)"
      using assms(4) by (auto simp: kind_routes_def)
    moreover have "?k x = ?key \<longleftrightarrow> (case x of (r, h) \<Rightarrow> same_route (cr_Method r) (cr_Path r) req)"
      if x: "x \<in> set (mk_CustomRoutes k)" for x
    proof -
      have "\<forall>y \<in> set [k_Scope (mk_Kind k), gvk_Group (kind_gvk sch), gvk_Version (kind_gvk sch), gvk_Kind (kind_gvk sch),
          cr_Method (fst x), cr_Path (fst x)]. no_bar y"
        using wk [OF assms(3)] assms(4) x by (cases x) (auto simp: kind_well_named_def kind_gvk_def)
      from route_key_eq [OF this parts(1)] show ?thesis by (auto simp: same_route_def split: prod.split)
    qed
    ultimately show ?thesis by (simp add: map_of_find cong: find_cong)
  qed
  finally show ?thesis .
qed

lemma version_route_lookup:
  assumes "well_named cfg" "request_well_named req"
  shows "map_of (all_routes cfg) (version_key req) = configured_version_route cfg req"
proof -
  let ?scope = "if fi_Namespace (rr_Identifier req) = [] then ClusterScope else NamespacedScope"
  let ?g = "\<lparr>gvk_Group = [], gvk_Version = fi_Version (rr_Identifier req), gvk_Kind = []\<rparr>"
  have scopes: "no_bar NamespacedScope" "no_bar ClusterScope" "NamespacedScope \<noteq> ClusterScope"
    by (simp_all add: NamespacedScope_def ClusterScope_def no_bar_def)
  have parts: "\<forall>x \<in> set [?scope, gvk_Group ?g, gvk_Version ?g, gvk_Kind ?g, rr_Method req, rr_Path req]. no_bar x"
    using assms(2) scopes by (auto simp: request_well_named_def)
  have "fst x \<noteq> version_key req" if k: "k \<in> set (ac_ManagedKinds cfg)" and x: "x \<in> set (kind_routes k)" for k x
  proof -
    from x obtain sch r h where sch: "k_Schema (mk_Kind k) = Some sch" and rh: "(r, h) \<in> set (mk_CustomRoutes k)"
      and fx: "fst x = customRouteHandlerKey (kind_gvk sch) (cr_Method r) (cr_Path r) (k_Scope (mk_Kind k))"
      by (rule kind_routesE)
    have wk: "kind_well_named k" using assms(1) k by (auto simp: well_named_def)
    then have "\<forall>x \<in> set [k_Scope (mk_Kind k), gvk_Group (kind_gvk sch), gvk_Version (kind_gvk sch), gvk_Kind (kind_gvk sch),
        cr_Method r, cr_Path r]. no_bar x"
      using sch rh by (auto simp: kind_well_named_def kind_gvk_def)
    from route_key_eq [OF this parts] show ?thesis
      using wk sch unfolding fx version_key_def by (auto simp: kind_well_named_def kind_gvk_def)
  qed
  then have "map_of (all_routes cfg) (version_key req) =
      map_of (concat (map version_routes (ac_VersionedCustomRoutes cfg))) (version_key req)"
    unfolding all_routes_def by (intro map_of_append_None) auto
  also have "concat (map version_routes (ac_VersionedCustomRoutes cfg)) =
      map (\<lambda>x. (case x of ((v, r), h) \<Rightarrow> customRouteHandlerKey \<lparr>gvk_Group = [], gvk_Version = v, gvk_Kind = []\<rparr> (vr_Method r) (vr_Path r)
        (if vr_Namespaced r then NamespacedScope else ClusterScope), snd x))
       (concat (map (\<lambda>(v, rs). map (\<lambda>(r, h). ((v, r), h)) rs) (ac_VersionedCustomRoutes cfg)))"
    by (simp add: map_concat comp_def version_routes_def [abs_def] case_prod_unfold)
  also have "map_of \<dots> (version_key req) = configured_version_route cfg req"
    unfolding map_of_find configured_version_route_def
  proof (rule arg_cong [OF find_cong_pred], goal_cases)
    case (1 x)
    then obtain v rs r h where x: "x = ((v, r), h)" "(v, rs) \<in> set (ac_VersionedCustomRoutes cfg)" "(r, h) \<in> set rs"
      by auto
    let ?g' = "\<lparr>gvk_Group = [], gvk_Version = v, gvk_Kind = []\<rparr>"
    have "\<forall>x \<in> set [if vr_Namespaced r then NamespacedScope else ClusterScope, gvk_Group ?g', gvk_Version ?g', gvk_Kind ?g',
        vr_Method r, vr_Path r]. no_bar x"
      using assms(1) x(2,3) scopes by (auto simp: well_named_def)
    from route_key_eq [OF this parts] show ?case
      unfolding x(1) version_key_def using scopes(3) by (auto simp: same_route_def)
  qed
  finally show ?thesis .
qed

text \<open>
  C13. A custom route request is answered by exactly the handler the configuration names for it: a
  route of the version for a request without a resource, a route of the kind it names by kind or
  by plural otherwise, with the method in any case and one leading slash of the path ignored; and
  by \<open>ErrCustomRouteNotFound\<close> when there is none. The tables are keyed by strings joined with slashes and bars, so this
  is for a configuration whose groups, versions, kinds and plurals have neither, whose methods and paths have no bar, and
  in which no two kinds share a kind or a plural, and for a request with such names; others could collide.
\<close>

theorem CallCustomRoute_configured:
  assumes "NewApp E cfg = Inr (a, p)" "well_named cfg" "request_well_named req"
  shows "CallCustomRoute a req s = (case configured_route cfg req of
     Some h \<Rightarrow> call_route h req s
   | None \<Rightarrow> (Ran (Some ErrCustomRouteNotFound), s))"
proof -
  have d: "distinct (map kind_key (ac_ManagedKinds cfg))" "distinct (map kind_plural_key (ac_ManagedKinds cfg))"
    using assms(2) by (auto simp: well_named_def)
  note t = NewApp_tables [OF assms(1) d]
  have kind: "(case kind_of_request a (rr_Identifier req) of
       None \<Rightarrow> (Ran (Some ErrCustomRouteNotFound), s)
     | Some k \<Rightarrow> (case kind_route_key (mk_Kind k) req of
         None \<Rightarrow> (Panic, s)
       | Some key \<Rightarrow> (case map_of (all_routes cfg) key of
           Some handler \<Rightarrow> call_route handler req s
         | None \<Rightarrow> (Ran (Some ErrCustomRouteNotFound), s)))) =
     (case configured_kind_route cfg req of
        Some h \<Rightarrow> call_route h req s | None \<Rightarrow> (Ran (Some ErrCustomRouteNotFound), s))"
  proof (cases "List.find (\<lambda>k. names_kind (rr_Identifier req) (mk_Kind k)) (ac_ManagedKinds cfg)")
    case (Some k)
    then have k: "k \<in> set (ac_ManagedKinds cfg)" by (auto simp: find_Some_iff)
    then obtain sch where sch: "k_Schema (mk_Kind k) = Some sch" using t(4) by auto
    from Some kind_route_lookup [OF assms(2,3) k sch] show ?thesis
      by (simp add: kind_of_request_eq [OF assms] configured_kind_route_def kind_route_key_def sch)
  qed (simp add: kind_of_request_eq [OF assms] configured_kind_route_def)
  show ?thesis
    unfolding CallCustomRoute_def configured_route_def t(3) version_route_lookup [OF assms(2,3)] kind
    by (auto split: option.splits)
qed

definition no_options :: InformerOptions where
  "no_options = \<lparr>io_Namespace = [], io_LabelFilters = [], io_FieldSelectors = [], io_CacheResyncInterval = 0, io_EventTimeout = 0\<rparr>"

definition sample_kind :: app_kind where
  "sample_kind = \<lparr>k_Schema = Some \<lparr>sch_Group = ''g'', sch_Version = ''v1'', sch_Kind = ''Foo'', sch_Plural = ''foos''\<rparr>,
     k_Scope = ''Namespaced''\<rparr>"

definition count_route :: "nat \<Rightarrow> nat AppCustomRouteHandler" where
  "count_route n = (\<lambda>req s. (None, s + n))"

definition sample_managed :: "(DynamicPatcher \<times> time, unit, nat) AppManagedKind" where
  "sample_managed = \<lparr>mk_Kind = sample_kind, mk_Reconciler = None, mk_Watcher = None, mk_Validator = None, mk_Mutator = None,
     mk_CustomRoutes = [(\<lparr>cr_Method = ''GET'', cr_Path = ''/bar''\<rparr>, Some (count_route 1))],
     mk_ReconcileOptions = \<lparr>ko_Namespace = [], ko_LabelFilters = [], ko_FieldSelectors = []\<rparr>, mk_UsePlain = False\<rparr>"

definition sample_app_config :: "(DynamicPatcher \<times> time, unit, nat) AppConfig" where
  "sample_app_config = \<lparr>ac_Name = ''app'', ac_ErrorHandler = None, ac_InformerOptions = no_options, ac_RetryPolicy = None,
     ac_RetryDequeuePolicy = None, ac_FinalizerSupplier = None, ac_InProgressFinalizerSupplier = None, ac_InformerSupplier = None,
     ac_ManagedKinds = [sample_managed], ac_UnmanagedKinds = [], ac_Converters = [],
     ac_VersionedCustomRoutes = [(''v1'', [(\<lparr>vr_Namespaced = True, vr_Path = ''bar'', vr_Method = ''GET''\<rparr>, Some (count_route 2))])],
     ac_DiscoveryRefreshInterval = 0\<rparr>"

definition sample_app_env :: "time app_env" where
  "sample_app_env = \<lparr>ae_kube = sample_kube, ae_gvkString = (\<lambda>g. gvk_Group g @ ''/'' @ gvk_Version g @ '', Kind='' @ gvk_Kind g),
     ae_apiVersion = (\<lambda>g. gvk_Group g @ ''/'' @ gvk_Version g), ae_isConflict = sample_conflict,
     ae_defaultSupplier = (\<lambda>sch opts. Inr (Some 1, None)), ae_clientErr = None, ae_discoveryErr = None, ae_over = 0\<rparr>"

definition sample_route_request :: "string \<Rightarrow> CustomRouteRequest" where
  "sample_route_request plural = \<lparr>rr_Identifier = \<lparr>fi_Namespace = ''ns'', fi_Name = ''a'', fi_Group = ''g'', fi_Version = ''v1'',
     fi_Kind = [], fi_Plural = plural\<rparr>, rr_Path = ''bar'', rr_Method = ''get'', rr_Body = []\<rparr>"

lemma sample_app_ok: "\<not> isl (NewApp sample_app_env sample_app_config)"
  by (simp add: NewApp_def Let_def sample_app_config_def sample_app_env_def sample_managed_def sample_kind_def manageKind_def
      empty_app_def NewDynamicPatcher_def kind_gvk_def customRouteHandlerKey_def route_path_def NamespacedScope_def)

theorem CallCustomRoute_configured_witness:
  "(case NewApp sample_app_env sample_app_config of
      Inl e \<Rightarrow> False
    | Inr (a, p) \<Rightarrow> CallCustomRoute a (sample_route_request ''foos'') 5 = (Ran None, 6) \<and>
                    CallCustomRoute a (sample_route_request []) 5 = (Ran None, 7))"
proof -
  obtain a p where a: "NewApp sample_app_env sample_app_config = Inr (a, p)"
    using sample_app_ok by (cases "NewApp sample_app_env sample_app_config") auto
  have cfg: "well_named sample_app_config"
    by (simp add: well_named_def sample_app_config_def sample_managed_def sample_kind_def kind_well_named_def plain_def no_bar_def)
  have req: "request_well_named (sample_route_request x)" if "plain x" for x
    using that by (simp add: request_well_named_def sample_route_request_def plain_def no_bar_def)
  have upper: "upper_char (CHR ''g'') = CHR ''G''" "upper_char (CHR ''e'') = CHR ''E''" "upper_char (CHR ''t'') = CHR ''T''"
    "upper_char (CHR ''G'') = CHR ''G''" "upper_char (CHR ''E'') = CHR ''E''" "upper_char (CHR ''T'') = CHR ''T''"
    by code_simp+
  have "configured_route sample_app_config (sample_route_request ''foos'') = Some (Some (count_route 1))"
    "configured_route sample_app_config (sample_route_request []) = Some (Some (count_route 2))"
    by (simp_all add: configured_route_def configured_kind_route_def configured_version_route_def names_kind_def same_route_def
        sample_app_config_def sample_managed_def sample_kind_def sample_route_request_def route_path_def upper)
  with CallCustomRoute_configured [OF a cfg req, of "''foos''" 5] CallCustomRoute_configured [OF a cfg req, of "[]" 5] a
  show ?thesis by (simp add: call_route_def count_route_def plain_def)
qed

section \<open>Manifest coverage\<close>

definition kind_covered :: "'x app_env \<Rightarrow> ('x, 'o, 's) app \<Rightarrow> string \<Rightarrow> string \<Rightarrow> ManifestVersionKind \<Rightarrow> bool" where
  "kind_covered E a group' version k \<longleftrightarrow>
     (vk_Conversion k \<longrightarrow> ap_converters a (kb_groupKind (ae_kube E) (group', vk_Kind k)) \<noteq> None) \<and>
     (\<exists>kind. ap_kinds a (gvk_key group' version (vk_Kind k)) = Some kind \<and>
        (mk_Validator kind \<noteq> None \<longleftrightarrow> (\<exists>c. vk_Admission k = Some c \<and> SupportsAnyValidation c)) \<and>
        (mk_Mutator kind \<noteq> None \<longleftrightarrow> (\<exists>c. vk_Admission k = Some c \<and> SupportsAnyMutation c)))"

definition manifest_covered :: "'x app_env \<Rightarrow> ('x, 'o, 's) app \<Rightarrow> ManifestData \<Rightarrow> bool" where
  "manifest_covered E a m \<longleftrightarrow>
     (\<forall>v \<in> set (md_Versions m). \<forall>k \<in> set (mv_Kinds v). kind_covered E a (md_Group m) (mv_Name v) k)"

lemma first_error_None: "first_error f xs = None \<longleftrightarrow> (\<forall>x \<in> set xs. f x = None)"
  by (induction xs) (auto split: option.splits)

lemma manifest_kind_error_None: "manifest_kind_error E a g v k = None \<longleftrightarrow> kind_covered E a g v k"
proof -
  have v: "(case vk_Admission k of None \<Rightarrow> False | Some c \<Rightarrow> f c) \<longleftrightarrow> (\<exists>c. vk_Admission k = Some c \<and> f c)" for f
    by (simp split: option.split)
  show ?thesis
    unfolding manifest_kind_error_def kind_covered_def Let_def v
    by (cases "ap_kinds a (gvk_key g v (vk_Kind k))") auto
qed

text \<open>
  \<open>ValidateManifest\<close> accepts a manifest exactly when the app manages every kind and version in it,
  has a converter wherever conversion is enabled, and has a validator, or a mutator, for those and
  only those kinds that the manifest gives that capability.
\<close>

lemma ValidateManifest_iff_covered: "ValidateManifest E a m = None \<longleftrightarrow> manifest_covered E a m"
  unfolding ValidateManifest_def first_error_None manifest_kind_error_None manifest_covered_def ..

section \<open>Where events go\<close>

text \<open>The handlers a configured kind contributes under a kind string.\<close>

definition reconcilers_of ::
  "'x app_env \<Rightarrow> (DynamicPatcher \<times> 'x, 'o, 's) AppConfig \<Rightarrow> string \<Rightarrow> (DynamicPatcher \<times> 'x) AppUnmanagedKind \<Rightarrow>
   (DynamicPatcher \<times> 'x) Reconciler list" where
  "reconcilers_of E cfg key uk = (case (k_Schema (uk_Kind uk), uk_Reconciler uk) of
     (Some sch, Some rec) \<Rightarrow>
       if kind_string E sch \<noteq> key then []
       else if uk_UseOpinionated uk
       then [Reconcile (ae_isConflict E) \<lparr>or_Reconciler = Some (snd rec), or_finalizer = getFinalizer cfg sch,
                                          or_client = kind_patcher E sch\<rparr>]
       else [snd rec]
   | _ \<Rightarrow> [])"

definition watchers_of ::
  "'x app_env \<Rightarrow> (DynamicPatcher \<times> 'x, 'o, 's) AppConfig \<Rightarrow> string \<Rightarrow> (DynamicPatcher \<times> 'x) AppUnmanagedKind \<Rightarrow>
   (DynamicPatcher \<times> 'x) ResourceWatcher list" where
  "watchers_of E cfg key uk = (case (k_Schema (uk_Kind uk), uk_Watcher uk) of
     (Some sch, Some w) \<Rightarrow>
       if kind_string E sch \<noteq> key then []
       else if uk_UseOpinionated uk
       then [opinionated_watcher (ae_isConflict E)
         \<lparr>ow_AddFunc = Some (rw_Add (aw_methods w)), ow_UpdateFunc = Some (rw_Update (aw_methods w)),
          ow_DeleteFunc = Some (rw_Delete (aw_methods w)),
          ow_SyncFunc = Some (case aw_Sync w of Some sync \<Rightarrow> sync | None \<Rightarrow> rw_Add (aw_methods w)),
          ow_finalizer = getFinalizer cfg sch, ow_addPendingFinalizer = getInProgressFinalizer cfg sch,
          ow_schema = sch, ow_client = kind_patcher E sch\<rparr>]
       else [aw_methods w]
   | _ \<Rightarrow> [])"

lemma kind_reconciler_Inr:
  "kind_reconciler E cfg fresh sch useOp rec = Inr r \<Longrightarrow>
     snd r = (if useOp then Reconcile (ae_isConflict E) \<lparr>or_Reconciler = Some (snd rec), or_finalizer = getFinalizer cfg sch,
                                          or_client = kind_patcher E sch\<rparr> else snd rec)"
  by (auto simp: kind_reconciler_def NewOpinionatedReconciler_def WrapReconciler_def split: if_splits sum.splits)

lemma kind_watcher_Inr:
  "kind_watcher E cfg fresh sch useOp w = Inr r \<Longrightarrow>
     snd r = (if useOp then opinionated_watcher (ae_isConflict E)
         \<lparr>ow_AddFunc = Some (rw_Add (aw_methods w)), ow_UpdateFunc = Some (rw_Update (aw_methods w)),
          ow_DeleteFunc = Some (rw_Delete (aw_methods w)),
          ow_SyncFunc = Some (case aw_Sync w of Some sync \<Rightarrow> sync | None \<Rightarrow> rw_Add (aw_methods w)),
          ow_finalizer = getFinalizer cfg sch, ow_addPendingFinalizer = getInProgressFinalizer cfg sch,
          ow_schema = sch, ow_client = kind_patcher E sch\<rparr> else aw_methods w)"
  by (auto simp: kind_watcher_def NewOpinionatedWatcher_def Wrap_def Let_def split: if_splits sum.splits option.splits)

definition handlers :: "('x, 'o, 's) app \<Rightarrow> string \<Rightarrow>
    (DynamicPatcher \<times> 'x) ResourceWatcher list \<times> (DynamicPatcher \<times> 'x) Reconciler list" where
  "handlers a key = (map snd (items (ic_watchers (ap_controller a)) key), map snd (items (ic_reconcilers (ap_controller a)) key))"

lemma add_informer_handlers:
  "add_informer E sch kind a = (a', r) \<Longrightarrow> handlers a' key = handlers a key \<and>
     ic_ErrorHandler (ap_controller a') = ic_ErrorHandler (ap_controller a)"
  by (auto simp: add_informer_def AddInformer_def handlers_def Let_def split: sum.splits prod.splits option.splits if_splits)

lemma add_reconciler_handlers:
  assumes "add_reconciler E sch kind a = (a', None)" "k_Schema (uk_Kind kind) = Some sch"
  shows "handlers a' key = (fst (handlers a key), snd (handlers a key) @ reconcilers_of E (ap_cfg a) key kind) \<and>
     ic_ErrorHandler (ap_controller a') = ic_ErrorHandler (ap_controller a)"
proof (cases "uk_Reconciler kind")
  case None
  then show ?thesis using assms by (simp add: add_reconciler_def reconcilers_of_def)
next
  case (Some x)
  obtain r where r: "kind_reconciler E (ap_cfg a) (ap_next a) sch (uk_UseOpinionated kind) x = Inr r"
    using assms(1) Some by (auto simp: add_reconciler_def split: sum.splits)
  have "kind_string E sch \<noteq> []" and a': "a' = a\<lparr>ap_controller := fst (AddReconciler (ap_controller a) (Some r) (kind_string E sch)),
      ap_next := Suc (ap_next a)\<rparr>"
    using assms(1) Some r by (auto simp: add_reconciler_def AddReconciler_def Let_def split: if_splits)
  then show ?thesis
    using kind_reconciler_Inr [OF r] Some assms(2) by (simp add: AddReconciler_def handlers_def reconcilers_of_def)
qed

lemma add_watcher_handlers:
  assumes "add_watcher E sch kind a = (a', None)" "k_Schema (uk_Kind kind) = Some sch"
  shows "handlers a' key = (fst (handlers a key) @ watchers_of E (ap_cfg a) key kind, snd (handlers a key)) \<and>
     ic_ErrorHandler (ap_controller a') = ic_ErrorHandler (ap_controller a)"
proof (cases "uk_Watcher kind")
  case None
  then show ?thesis using assms by (simp add: add_watcher_def watchers_of_def)
next
  case (Some x)
  obtain r where r: "kind_watcher E (ap_cfg a) (ap_next a) sch (uk_UseOpinionated kind) x = Inr r"
    using assms(1) Some by (auto simp: add_watcher_def split: sum.splits)
  have "kind_string E sch \<noteq> []" and a': "a' = a\<lparr>ap_controller := fst (AddWatcher (ap_controller a) (Some r) (kind_string E sch)),
      ap_next := Suc (ap_next a)\<rparr>"
    using assms(1) Some r by (auto simp: add_watcher_def AddWatcher_def Let_def split: if_splits)
  then show ?thesis
    using kind_watcher_Inr [OF r] Some assms(2) by (simp add: AddWatcher_def handlers_def watchers_of_def)
qed

text \<open>All kinds with their handlers, in the order the app takes them.\<close>

definition configured :: "('u, 'o, 's) AppConfig \<Rightarrow> 'u AppUnmanagedKind list" where
  "configured cfg = map as_unmanaged (ac_ManagedKinds cfg) @ ac_UnmanagedKinds cfg"

lemma no_handlers_of [simp]:
  "uk_Reconciler k = None \<Longrightarrow> reconcilers_of E cfg key k = []" "uk_Watcher k = None \<Longrightarrow> watchers_of E cfg key k = []"
  by (auto simp: reconcilers_of_def watchers_of_def split: option.split)

definition takes_on where
  "takes_on E key ks a a' \<longleftrightarrow>
     handlers a' key = (fst (handlers a key) @ concat (map (watchers_of E (ap_cfg a) key) ks),
                        snd (handlers a key) @ concat (map (reconcilers_of E (ap_cfg a) key) ks)) \<and>
     ic_ErrorHandler (ap_controller a') = ic_ErrorHandler (ap_controller a) \<and> ap_cfg a' = ap_cfg a"

lemma takes_on_trans: "takes_on E key ks a a' \<Longrightarrow> takes_on E key ks' a' a'' \<Longrightarrow> takes_on E key (ks @ ks') a a''"
  by (simp add: takes_on_def)

lemma takes_on_Nil: "takes_on E key [] a a"
  by (simp add: takes_on_def)

lemma watchKind_takes_on:
  assumes "watchKind E k a = (a', None)"
  shows "takes_on E key [k] a a'"
proof -
  obtain sch where sch: "k_Schema (uk_Kind k) = Some sch"
    using assms by (auto simp: watchKind_def split: option.splits)
  have cfg: "ap_cfg a' = ap_cfg a" using watchKind_tables [OF assms] by (simp add: tables_def)
  show ?thesis
  proof (cases "uk_Reconciler k \<noteq> None \<or> uk_Watcher k \<noteq> None")
    case False
    then have none: "uk_Reconciler k = None" "uk_Watcher k = None" by blast+
    then show ?thesis using assms sch by (simp add: watchKind_def takes_on_def)
  next
    case True
    then obtain a1 a2 where a1: "add_informer E sch k a = (a1, None)" and a2: "add_reconciler E sch k a1 = (a2, None)"
      and a3: "add_watcher E sch k a2 = (a', None)"
      using assms sch by (auto simp: watchKind_def split: if_splits prod.splits option.splits)
    have "ap_cfg a1 = ap_cfg a" "ap_cfg a2 = ap_cfg a"
      using add_informer_tables [OF a1] add_reconciler_tables [OF a2] by (simp_all add: tables_def)
    then show ?thesis
      using add_informer_handlers [OF a1] add_reconciler_handlers [OF a2 sch] add_watcher_handlers [OF a3 sch] cfg
      by (simp add: takes_on_def)
  qed
qed

lemma manageKind_takes_on:
  assumes "manageKind E k a = (a', None)"
  shows "takes_on E key [as_unmanaged k] a a'"
proof -
  let ?b = "\<lambda>m. a\<lparr>ap_gvrToGVK := (ap_gvrToGVK a)(kind_plural_key k \<mapsto> kind_key k), ap_kinds := (ap_kinds a)(kind_key k \<mapsto> k),
    ap_customRoutes := m\<rparr>"
  obtain m where m: "mk_Reconciler k = None \<and> mk_Watcher k = None \<and> a' = ?b m \<or> watchKind E (as_unmanaged k) (?b m) = (a', None)"
    using assms
    by (cases "mk_Reconciler k"; cases "mk_Watcher k")
      (auto simp: manageKind_def Let_def kind_key_def kind_plural_key_def split: option.splits prod.splits)
  have b: "handlers (?b m) key = handlers a key" "ap_cfg (?b m) = ap_cfg a"
      "ic_ErrorHandler (ap_controller (?b m)) = ic_ErrorHandler (ap_controller a)"
    by (simp_all add: handlers_def)
  show ?thesis
  proof (cases "mk_Reconciler k = None \<and> mk_Watcher k = None \<and> a' = ?b m")
    case True
    then show ?thesis using b by (simp add: takes_on_def as_unmanaged_def)
  next
    case False
    then have "takes_on E key [as_unmanaged k] (?b m) a'" using m watchKind_takes_on by blast
    then show ?thesis unfolding takes_on_def b .
  qed
qed

lemma each_kind_takes_on:
  assumes "\<And>k a a'. f k a = (a', None) \<Longrightarrow> takes_on E key [g k] a a'" "each_kind f ks a = Inr a'"
  shows "takes_on E key (map g ks) a a'"
  using assms(2)
proof (induction ks arbitrary: a)
  case (Cons k ks)
  then obtain a1 where "f k a = (a1, None)" "each_kind f ks a1 = Inr a'" by (auto split: prod.splits option.splits)
  then show ?case using takes_on_trans [OF assms(1) Cons.IH] by simp
qed (simp add: takes_on_Nil)

definition app_error_handler :: "('u, 'o, 's) AppConfig \<Rightarrow> (go_error \<Rightarrow> ('u, unit) io) option" where
  "app_error_handler cfg = Some (case ac_ErrorHandler cfg of None \<Rightarrow> DefaultErrorHandler | Some h \<Rightarrow> h)"

lemma NewApp_handlers:
  assumes "NewApp E cfg = Inr (a, p)"
  shows "handlers a key = (concat (map (watchers_of E cfg key) (configured cfg)),
                           concat (map (reconcilers_of E cfg key) (configured cfg)))"
    and "ic_ErrorHandler (ap_controller a) = app_error_handler cfg"
proof -
  obtain a1 a2 m where a1: "each_kind (manageKind E) (ac_ManagedKinds cfg) (empty_app E cfg) = Inr a1"
    and a2: "each_kind (watchKind E) (ac_UnmanagedKinds cfg) a1 = Inr a2"
    and a: "a = AddRunnable_app controller_runnable
      (fold (\<lambda>(gk, conv). RegisterKindConverter E gk conv) (ac_Converters cfg) (a2\<lparr>ap_customRoutes := m\<rparr>))"
    using assms by (auto simp: NewApp_def Let_def split: sum.splits)
  have "takes_on E key (map as_unmanaged (ac_ManagedKinds cfg) @ map id (ac_UnmanagedKinds cfg)) (empty_app E cfg) a2"
  proof (rule takes_on_trans)
    show "takes_on E key (map as_unmanaged (ac_ManagedKinds cfg)) (empty_app E cfg) a1"
      by (rule each_kind_takes_on [OF _ a1]) (rule manageKind_takes_on)
    show "takes_on E key (map id (ac_UnmanagedKinds cfg)) a1 a2"
      by (rule each_kind_takes_on [OF _ a2]) (simp add: watchKind_takes_on)
  qed
  moreover have "ap_controller a = ap_controller a2" unfolding a AddRunnable_app_def by simp
  moreover have "handlers (empty_app E cfg) key = ([], [])" "ap_cfg (empty_app E cfg) = cfg"
    "ic_ErrorHandler (ap_controller (empty_app E cfg)) = app_error_handler cfg"
    by (simp_all add: handlers_def empty_app_def app_controller_def app_error_handler_def NewInformerController_def
        DefaultInformerControllerConfig_def Let_def split: option.split)
  ultimately show "handlers a key = (concat (map (watchers_of E cfg key) (configured cfg)),
                           concat (map (reconcilers_of E cfg key) (configured cfg)))"
    "ic_ErrorHandler (ap_controller a) = app_error_handler cfg"
    by (simp_all add: takes_on_def configured_def handlers_def)
qed

definition configured_calls where
  "configured_calls E cfg key obj call action_of = run_all
     (map (\<lambda>wt. watcher_only (app_error_handler cfg) (call wt)) (concat (map (watchers_of E cfg key) (configured cfg))) @
      map (reconcile_only (app_error_handler cfg) action_of obj) (concat (map (reconcilers_of E cfg key) (configured cfg))))"

lemma event_calls_configured:
  assumes "NewApp E cfg = Inr (a, p)"
  shows "event_calls (ap_controller a) key obj call action_of = configured_calls E cfg key obj call action_of"
proof -
  have items: "concat (map (watchers_of E cfg key) (configured cfg)) = map snd (items (ic_watchers (ap_controller a)) key)"
    "concat (map (reconcilers_of E cfg key) (configured cfg)) = map snd (items (ic_reconcilers (ap_controller a)) key)"
    using NewApp_handlers(1) [OF assms, of key] by (simp_all add: handlers_def)
  show ?thesis
    unfolding event_calls_def configured_calls_def NewApp_handlers(2) [OF assms] items by (simp add: comp_def)
qed

text \<open>
  C12. An event of a kind does to the world exactly what the configured handlers of that kind do, in
  the order of the configuration, watchers before reconcilers: a handler wrapped in the opinionated
  one with the app's finalizers and a patcher for the kind, unless it is configured to be used plainly.
\<close>

theorem NewApp_delivers_events:
  assumes "NewApp E cfg = Inr (a, p)"
  shows "(\<exists>c'. run_state (informerAddFunc hash key (Some obj)) (ap_controller a, w) =
      (None, (c', snd (run_state (configured_calls E cfg key obj (\<lambda>wt. rw_Add wt (Some obj))
        (State_Monad.return ResourceActionCreate)) w)))) \<and>
    (\<exists>c'. run_state (informerUpdateFunc hash key old (Some obj)) (ap_controller a, w) =
      (None, (c', snd (run_state (configured_calls E cfg key obj (\<lambda>wt. rw_Update wt old (Some obj))
        (update_action old obj)) w)))) \<and>
    (\<exists>c'. run_state (informerDeleteFunc hash key (Some obj)) (ap_controller a, w) =
      (None, (c', snd (run_state (configured_calls E cfg key obj (\<lambda>wt. rw_Delete wt (Some obj))
        (State_Monad.return ResourceActionDelete)) w))))"
proof -
  have run: "\<exists>c'. run_state (do { watchers_loop hash key obj action call;
        reconcilers_loop hash key obj action_of; State_Monad.return None }) (ap_controller a, w) =
      (None, (c', snd (run_state (configured_calls E cfg key obj call action_of) w)))"
    if "\<And>w. snd (run_state action_of w) = w" for action call action_of
    using event_loops_run [OF that, of hash key obj action call "ap_controller a" w]
    unfolding event_calls_configured [OF assms] by blast
  have "snd (run_state (update_action old obj) w) = w" for w :: "(DynamicPatcher \<times> 'a) world"
    by (simp add: update_action_def split: option.split)
  then show ?thesis
    unfolding informerAddFunc_def informerUpdateFunc_def informerDeleteFunc_def option.case
    by (intro conjI run) simp_all
qed

definition reconciled_config :: "(DynamicPatcher \<times> time, unit, nat) AppConfig" where
  "reconciled_config = sample_app_config\<lparr>ac_ManagedKinds :=
     [sample_managed\<lparr>mk_Reconciler := Some (7, \<lambda>req. State_Monad.return (empty_result, None))\<rparr>]\<rparr>"

definition known_world :: "(DynamicPatcher \<times> time) world" where
  "known_world = \<lparr>w_objs = (\<lambda>_. sample_object [''app-foos-finalizer'']), w_now = 0, w_trace = [], w_ext = (sample_patcher, 0)\<rparr>"

lemma reconciled_app_ok: "\<not> isl (NewApp sample_app_env reconciled_config)"
  by (simp add: NewApp_def Let_def reconciled_config_def sample_app_config_def sample_app_env_def sample_managed_def sample_kind_def
      manageKind_def watchKind_def add_informer_def AddInformer_def add_reconciler_def AddReconciler_def add_watcher_def
      kind_reconciler_def NewOpinionatedReconciler_def getFinalizer_def kind_string_def as_unmanaged_def
      empty_app_def NewDynamicPatcher_def kind_gvk_def customRouteHandlerKey_def route_path_def NamespacedScope_def)

theorem NewApp_delivers_events_witness:
  "(case NewApp sample_app_env reconciled_config of
      Inl e \<Rightarrow> False
    | Inr (a, p) \<Rightarrow> w_trace (snd (snd (run_state (informerAddFunc (\<lambda>_. 0) ''g/v1, Kind=Foo'' (Some 0)) (ap_controller a, known_world)))) =
        [EvHandler (HReconcile ReconcileActionResynced) 0 None])"
proof -
  obtain a p where a: "NewApp sample_app_env reconciled_config = Inr (a, p)"
    using reconciled_app_ok by (cases "NewApp sample_app_env reconciled_config") auto
  have "w_trace (snd (run_state (configured_calls sample_app_env reconciled_config ''g/v1, Kind=Foo'' 0 (\<lambda>wt. rw_Add wt (Some 0))
      (State_Monad.return ResourceActionCreate)) known_world)) = [EvHandler (HReconcile ReconcileActionResynced) 0 None]"
    by (simp add: configured_calls_def configured_def reconciled_config_def sample_app_config_def sample_managed_def sample_kind_def
        as_unmanaged_def reconcilers_of_def watchers_of_def kind_string_def sample_app_env_def kind_gvk_def getFinalizer_def
        reconcile_only_def Reconcile_def known_world_def sample_object_def wrappedReconcile_def report_def app_error_handler_def
        DefaultErrorHandler_def empty_result_def ReconcileActionFromResourceAction_def slice_def Let_def)
  with NewApp_delivers_events [OF a, of "\<lambda>_. 0" "''g/v1, Kind=Foo''" 0 known_world None] a show ?thesis by auto
qed

end
