(* ===== verification/App_Runner.thy ===== *)
theory App_Runner
  imports Resource_Model
begin

text \<open>
  \<^verbatim>\<open>app/runner.go\<close>: \<open>MultiRunner\<close> and \<open>DynamicMultiRunner\<close>, which run several runnables in goroutines,
  collect their errors over a channel and stop them together. \<open>Run\<close> is a step relation: one step is
  one move of the main loop or of one runner's goroutine between two synchronisation points. A
  send on a closed channel is a panic, a flag of the state.
\<close>

section \<open>Runner goroutines\<close>

text \<open>
  A goroutine is in its runnable's \<open>Run\<close>; then it has called \<^verbatim>\<open>wg.Done\<close> and holds an error to
  report; then it has found \<open>timedOut\<close> false and is about to send; then it is finished.
\<close>

datatype goroutine = Running | Returned go_error | Sending go_error | Finished

datatype main_phase = Looping | Waiting "go_error option" | Exited "go_error option"

definition ErrRunnerExitTimeout :: go_error where
  "ErrRunnerExitTimeout = GoErr ''exit wait time exceeded waiting for Runners to complete''"

text \<open>\<^verbatim>\<open>errors.Join\<close> of the timeout and an error.\<close>

definition join_timeout :: "go_error option \<Rightarrow> go_error" where
  "join_timeout e = (case e of None \<Rightarrow> ErrRunnerExitTimeout
     | Some err \<Rightarrow> Wrapped ''exit wait time exceeded waiting for Runners to complete'' err)"

text \<open>A goroutine that no longer holds the wait group.\<close>

definition done_wg :: "goroutine \<Rightarrow> bool" where
  "done_wg g \<longleftrightarrow> g \<noteq> Running"

section \<open>MultiRunner\<close>

record MultiRunner =
  mr_ErrorHandler :: "(go_error \<Rightarrow> bool) option"
  mr_ExitWait :: "duration option"

text \<open>\<open>RunnableCollectorDefaultErrorHandler\<close> logs and stops.\<close>

definition RunnableCollectorDefaultErrorHandler :: "go_error \<Rightarrow> bool" where
  "RunnableCollectorDefaultErrorHandler err = True"

definition NewMultiRunner :: MultiRunner where
  "NewMultiRunner = \<lparr>mr_ErrorHandler = Some RunnableCollectorDefaultErrorHandler, mr_ExitWait = None\<rparr>"

definition handle_error :: "MultiRunner \<Rightarrow> go_error \<Rightarrow> bool" where
  "handle_error m err = (case mr_ErrorHandler m of
     None \<Rightarrow> RunnableCollectorDefaultErrorHandler err | Some h \<Rightarrow> h err)"

record multi_state =
  rs_main :: main_phase
  rs_goroutines :: "goroutine list"
  rs_errs :: "go_error list"
  rs_ctxDone :: bool
  rs_cancelled :: bool
  rs_timedOut :: bool
  rs_errsClosed :: bool
  rs_panic :: bool
  rs_returned :: "go_error list"

definition run_init :: "nat \<Rightarrow> multi_state" where
  "run_init n = \<lparr>rs_main = Looping, rs_goroutines = replicate n Running, rs_errs = [], rs_ctxDone = False,
     rs_cancelled = False, rs_timedOut = False, rs_errsClosed = False, rs_panic = False, rs_returned = []\<rparr>"

text \<open>
  The channel has room for one error per runner. \<open>errsClosed\<close> is set and the channel closed in one
  critical section, and the sender checks and sends in one. The ghost \<open>rs_returned\<close> collects the
  errors the runnables returned.
\<close>

inductive multi_step :: "MultiRunner \<Rightarrow> multi_state \<Rightarrow> multi_state \<Rightarrow> bool" for m where
  ms_ctx: "multi_step m s (s\<lparr>rs_ctxDone := True\<rparr>)"
| ms_return_nil: "i < length (rs_goroutines s) \<Longrightarrow> rs_goroutines s ! i = Running \<Longrightarrow>
    multi_step m s (s\<lparr>rs_goroutines := (rs_goroutines s)[i := Finished]\<rparr>)"
| ms_return_err: "i < length (rs_goroutines s) \<Longrightarrow> rs_goroutines s ! i = Running \<Longrightarrow>
    multi_step m s (s\<lparr>rs_goroutines := (rs_goroutines s)[i := Returned e], rs_returned := e # rs_returned s\<rparr>)"
| ms_check: "i < length (rs_goroutines s) \<Longrightarrow> rs_goroutines s ! i = Returned e \<Longrightarrow>
    multi_step m s (s\<lparr>rs_goroutines := (rs_goroutines s)[i := if rs_timedOut s then Finished else Sending e]\<rparr>)"
| ms_send_closed: "i < length (rs_goroutines s) \<Longrightarrow> rs_goroutines s ! i = Sending e \<Longrightarrow> rs_errsClosed s \<Longrightarrow>
    multi_step m s (s\<lparr>rs_goroutines := (rs_goroutines s)[i := Finished]\<rparr>)"
| ms_send: "i < length (rs_goroutines s) \<Longrightarrow> rs_goroutines s ! i = Sending e \<Longrightarrow> \<not> rs_errsClosed s \<Longrightarrow>
    length (rs_errs s) < length (rs_goroutines s) \<Longrightarrow>
    multi_step m s (s\<lparr>rs_goroutines := (rs_goroutines s)[i := Finished], rs_errs := rs_errs s @ [e]\<rparr>)"
| ms_error_stop: "rs_main s = Looping \<Longrightarrow> rs_errs s = e # es \<Longrightarrow> handle_error m e \<Longrightarrow>
    multi_step m s (s\<lparr>rs_main := Waiting (Some e), rs_errs := es, rs_cancelled := True\<rparr>)"
| ms_error_continue: "rs_main s = Looping \<Longrightarrow> rs_errs s = e # es \<Longrightarrow> \<not> handle_error m e \<Longrightarrow>
    multi_step m s (s\<lparr>rs_errs := es\<rparr>)"
| ms_ctx_stop: "rs_main s = Looping \<Longrightarrow> rs_ctxDone s \<Longrightarrow>
    multi_step m s (s\<lparr>rs_main := Waiting None, rs_cancelled := True\<rparr>)"
| ms_all_done: "rs_main s = Waiting r \<Longrightarrow> list_all done_wg (rs_goroutines s) \<Longrightarrow>
    multi_step m s (s\<lparr>rs_main := Exited r, rs_errsClosed := True\<rparr>)"
| ms_timeout: "rs_main s = Waiting r \<Longrightarrow> mr_ExitWait m \<noteq> None \<Longrightarrow>
    multi_step m s (s\<lparr>rs_main := Exited (Some (join_timeout r)), rs_timedOut := True, rs_errsClosed := True\<rparr>)"

section \<open>DynamicMultiRunner\<close>

text \<open>
  A tuple of the runner list; runnables are compared by identity. \<open>dt_started\<close> says that the tuple
  has a \<open>cancelFunc\<close>: its goroutine was started.
\<close>

record dyn_tuple =
  dt_runner :: nat
  dt_started :: bool

record DynamicMultiRunner =
  dm_runners :: "dyn_tuple list"
  dm_running :: bool

definition NewDynamicMultiRunner :: DynamicMultiRunner where
  "NewDynamicMultiRunner = \<lparr>dm_runners = [], dm_running = False\<rparr>"

text \<open>The start of \<open>Run\<close>, under the lock: refuse when running, otherwise start every runner.\<close>

definition dyn_start :: "DynamicMultiRunner \<Rightarrow> DynamicMultiRunner \<times> go_error option" where
  "dyn_start d =
     (if dm_running d then (d, Some (GoErr ''already running''))
      else (d\<lparr>dm_running := True,
              dm_runners := map (\<lambda>t. t\<lparr>dt_started := True\<rparr>) (dm_runners d)\<rparr>, None))"

definition AddRunnable :: "DynamicMultiRunner \<Rightarrow> nat \<Rightarrow> DynamicMultiRunner" where
  "AddRunnable d runnable =
     d\<lparr>dm_runners := dm_runners d @ [\<lparr>dt_runner = runnable, dt_started = dm_running d\<rparr>]\<rparr>"

text \<open>
  \<open>RemoveRunnable\<close> ranges over the slice it loaded while it removes from the same array:
  \<open>arr\<close> is the array behind the loaded slice, \<open>len\<close> the current length of \<^verbatim>\<open>d.runners\<close>, a prefix of
  it, and \<open>i\<close> the index of the loop. Cancelled tuples are collected.
\<close>

definition shift_out :: "'a list \<Rightarrow> nat \<Rightarrow> nat \<Rightarrow> 'a list" where
  "shift_out arr i len = take i arr @ take (len - Suc i) (drop (Suc i) arr) @ drop (len - 1) arr"

function remove_loop ::
  "nat \<Rightarrow> bool \<Rightarrow> nat \<Rightarrow> dyn_tuple list \<Rightarrow> nat \<Rightarrow> nat \<Rightarrow> dyn_tuple list \<Rightarrow>
   dyn_tuple list \<times> nat \<times> dyn_tuple list"
where
  "remove_loop runnable running n arr len i cancelled =
     (if n \<le> i then (arr, len, cancelled)
      else if dt_runner (arr ! i) = runnable then
        (let cancelled' = (if running \<and> dt_started (arr ! i) then cancelled @ [arr ! i] else cancelled)
         in if Suc i < len
            then remove_loop runnable running n (shift_out arr i len) (len - 1) (Suc i) cancelled'
            else remove_loop runnable running n arr i (Suc i) cancelled')
      else remove_loop runnable running n arr len (Suc i) cancelled)"
  by pat_completeness auto
termination
  by (relation "measure (\<lambda>(r, b, n, arr, len, i, c). n - i)") auto

declare remove_loop.simps [simp del]

definition RemoveRunnable :: "DynamicMultiRunner \<Rightarrow> nat \<Rightarrow> DynamicMultiRunner \<times> dyn_tuple list" where
  "RemoveRunnable d runnable =
     (let n = length (dm_runners d);
          (arr, len, cancelled) = remove_loop runnable (dm_running d) n (dm_runners d) n 0 []
      in (d\<lparr>dm_runners := take len arr\<rparr>, cancelled))"

text \<open>
  The loop of \<open>Run\<close> with its goroutines. The channel is unbuffered: a send completes when the main
  loop receives it. When \<open>Run\<close> returns it closes the channel; a goroutine that is sending then, or
  sends later, panics.
\<close>

inductive dyn_step :: "MultiRunner \<Rightarrow> multi_state \<Rightarrow> multi_state \<Rightarrow> bool" for m where
  ds_ctx: "dyn_step m s (s\<lparr>rs_ctxDone := True\<rparr>)"
| ds_return_nil: "i < length (rs_goroutines s) \<Longrightarrow> rs_goroutines s ! i = Running \<Longrightarrow>
    dyn_step m s (s\<lparr>rs_goroutines := (rs_goroutines s)[i := Finished]\<rparr>)"
| ds_return_err: "i < length (rs_goroutines s) \<Longrightarrow> rs_goroutines s ! i = Running \<Longrightarrow>
    dyn_step m s (s\<lparr>rs_goroutines := (rs_goroutines s)[i := Returned e], rs_returned := e # rs_returned s\<rparr>)"
| ds_check: "i < length (rs_goroutines s) \<Longrightarrow> rs_goroutines s ! i = Returned e \<Longrightarrow>
    dyn_step m s (s\<lparr>rs_goroutines := (rs_goroutines s)[i := if rs_timedOut s then Finished else Sending e]\<rparr>)"
| ds_send_closed: "i < length (rs_goroutines s) \<Longrightarrow> rs_goroutines s ! i = Sending e \<Longrightarrow> rs_errsClosed s \<Longrightarrow>
    dyn_step m s (s\<lparr>rs_goroutines := (rs_goroutines s)[i := Finished], rs_panic := True\<rparr>)"
| ds_error_stop: "rs_main s = Looping \<Longrightarrow> i < length (rs_goroutines s) \<Longrightarrow> rs_goroutines s ! i = Sending e \<Longrightarrow>
    handle_error m e \<Longrightarrow>
    dyn_step m s (s\<lparr>rs_main := Waiting (Some e), rs_goroutines := (rs_goroutines s)[i := Finished],
      rs_cancelled := True\<rparr>)"
| ds_error_continue: "rs_main s = Looping \<Longrightarrow> i < length (rs_goroutines s) \<Longrightarrow> rs_goroutines s ! i = Sending e \<Longrightarrow>
    \<not> handle_error m e \<Longrightarrow>
    dyn_step m s (s\<lparr>rs_goroutines := (rs_goroutines s)[i := Finished]\<rparr>)"
| ds_ctx_stop: "rs_main s = Looping \<Longrightarrow> rs_ctxDone s \<Longrightarrow>
    dyn_step m s (s\<lparr>rs_main := Waiting None, rs_cancelled := True\<rparr>)"
| ds_all_done: "rs_main s = Waiting r \<Longrightarrow> list_all done_wg (rs_goroutines s) \<Longrightarrow>
    dyn_step m s (s\<lparr>rs_main := Exited r, rs_errsClosed := True\<rparr>)"
| ds_timeout: "rs_main s = Waiting r \<Longrightarrow> mr_ExitWait m \<noteq> None \<Longrightarrow>
    dyn_step m s (s\<lparr>rs_main := Exited (Some (join_timeout r)), rs_timedOut := True, rs_errsClosed := True\<rparr>)"

section \<open>Invariants\<close>

inductive_cases multi_stepE: "multi_step m s s'"

definition unsent :: "goroutine \<Rightarrow> bool" where
  "unsent g \<longleftrightarrow> g \<noteq> Finished"

definition exit_ok ::
  "MultiRunner \<Rightarrow> goroutine list \<Rightarrow> go_error list \<Rightarrow> bool \<Rightarrow> bool \<Rightarrow> go_error option \<Rightarrow> bool" where
  "exit_ok m gs returned ctxDone timedOut r \<longleftrightarrow>
     (timedOut \<and> mr_ExitWait m \<noteq> None) \<or>
     (list_all done_wg gs \<and>
      (case r of None \<Rightarrow> ctxDone | Some e \<Rightarrow> e \<in> set returned \<and> handle_error m e))"

lemma exit_ok_mono:
  assumes "exit_ok m gs es c t r" "list_all done_wg gs \<Longrightarrow> list_all done_wg gs'" "set es \<subseteq> set es'"
    and "c \<Longrightarrow> c'" "t \<Longrightarrow> t'"
  shows "exit_ok m gs' es' c' t' r"
  using assms by (cases r) (auto simp: exit_ok_def)

text \<open>
  Errors in the channel come from finished goroutines, one each, so the channel has room for
  every send; every error underway was returned by a runnable; the result is one of them that the
  error handler stopped for, nil only after the context was cancelled; without a timeout \<open>Run\<close>
  returns only after every runnable has.
\<close>

definition multi_inv :: "MultiRunner \<Rightarrow> multi_state \<Rightarrow> bool" where
  "multi_inv m s \<longleftrightarrow>
     \<not> rs_panic s \<and>
     length (rs_errs s) + length (filter unsent (rs_goroutines s)) \<le> length (rs_goroutines s) \<and>
     set (rs_errs s) \<subseteq> set (rs_returned s) \<and>
     (\<forall>e. Returned e \<in> set (rs_goroutines s) \<or> Sending e \<in> set (rs_goroutines s) \<longrightarrow> e \<in> set (rs_returned s)) \<and>
     (\<forall>e. rs_main s = Waiting (Some e) \<longrightarrow> e \<in> set (rs_returned s) \<and> handle_error m e) \<and>
     (rs_main s = Waiting None \<longrightarrow> rs_ctxDone s) \<and>
     (\<forall>r. rs_main s = Exited r \<longrightarrow>
        exit_ok m (rs_goroutines s) (rs_returned s) (rs_ctxDone s) (rs_timedOut s) r)"

lemma filter_update_length:
  assumes "i < length gs" "P (gs ! i)"
  shows "length (filter P (gs[i := x])) = (if P x then length (filter P gs) else length (filter P gs) - 1)"
proof -
  have gs: "gs = take i gs @ gs ! i # drop (Suc i) gs" using assms(1) by (rule id_take_nth_drop)
  have "gs[i := x] = take i gs @ x # drop (Suc i) gs" using assms(1) by (rule upd_conv_take_nth_drop)
  moreover have "length (filter P gs) = length (filter P (take i gs)) + 1 + length (filter P (drop (Suc i) gs))"
    using assms(2) by (subst gs) simp
  ultimately show ?thesis by simp
qed

lemma filter_unsent_pos:
  "i < length gs \<Longrightarrow> unsent (gs ! i) \<Longrightarrow> 0 < length (filter unsent gs)"
  by (metis filter_empty_conv length_greater_0_conv nth_mem)

lemma list_all_update: "list_all P gs \<Longrightarrow> P x \<Longrightarrow> list_all P (gs[i := x])"
  by (metis list_all_length list_update_beyond length_list_update linorder_not_less nth_list_update)

lemma multi_inv_init: "multi_inv m (run_init n)"
  using length_filter_le [of unsent "replicate n Running"] by (auto simp: multi_inv_def run_init_def)

text \<open>A goroutine that moves on, keeping its error among the returned ones.\<close>

lemma multi_inv_goroutine:
  assumes inv: "multi_inv m s" and i: "i < length (rs_goroutines s)" "unsent (rs_goroutines s ! i)"
    and g: "done_wg g" "\<forall>e. g = Returned e \<or> g = Sending e \<longrightarrow> e \<in> set es" "set (rs_returned s) \<subseteq> set es"
  shows "multi_inv m (s\<lparr>rs_goroutines := (rs_goroutines s)[i := g], rs_returned := es\<rparr>)"
proof -
  have sub: "set ((rs_goroutines s)[i := g]) \<subseteq> insert g (set (rs_goroutines s))"
    by (rule set_update_subset_insert)
  have "length (filter unsent ((rs_goroutines s)[i := g])) \<le> length (filter unsent (rs_goroutines s))"
    using i by (simp add: filter_update_length)
  moreover have "e \<in> set es" if "Returned e \<in> set ((rs_goroutines s)[i := g]) \<or>
      Sending e \<in> set ((rs_goroutines s)[i := g])" for e
    using that sub g(2,3) inv unfolding multi_inv_def by blast
  moreover have "list_all done_wg (rs_goroutines s) \<Longrightarrow> list_all done_wg ((rs_goroutines s)[i := g])"
    using g(1) by (simp add: list_all_update)
  ultimately show ?thesis
    using inv g(3) unfolding multi_inv_def by (auto intro: exit_ok_mono)
qed

lemma multi_inv_step: "multi_step m s s' \<Longrightarrow> multi_inv m s \<Longrightarrow> multi_inv m s'"
proof (induction rule: multi_step.induct)
  case (ms_return_nil i s)
  with multi_inv_goroutine [of m s i Finished "rs_returned s"] show ?case
    by (simp add: unsent_def done_wg_def)
next
  case (ms_return_err i s e)
  with multi_inv_goroutine [of m s i "Returned e" "e # rs_returned s"] show ?case
    by (auto simp: unsent_def done_wg_def)
next
  case (ms_check i s e)
  then have "e \<in> set (rs_returned s)" unfolding multi_inv_def by (metis nth_mem)
  with ms_check multi_inv_goroutine [of m s i "if rs_timedOut s then Finished else Sending e" "rs_returned s"]
  show ?case by (auto simp: unsent_def done_wg_def split: if_splits)
next
  case (ms_send_closed i s e)
  with multi_inv_goroutine [of m s i Finished "rs_returned s"] show ?case
    by (simp add: unsent_def done_wg_def)
next
  case (ms_send i s e)
  then have "e \<in> set (rs_returned s)" unfolding multi_inv_def by (metis nth_mem)
  moreover have "length (filter unsent ((rs_goroutines s)[i := Finished])) < length (filter unsent (rs_goroutines s))"
    using ms_send filter_unsent_pos [of i "rs_goroutines s"] by (simp add: filter_update_length unsent_def)
  moreover have "multi_inv m (s\<lparr>rs_goroutines := (rs_goroutines s)[i := Finished], rs_returned := rs_returned s\<rparr>)"
    using ms_send by (intro multi_inv_goroutine) (auto simp: unsent_def done_wg_def)
  ultimately show ?case using ms_send.prems by (auto simp: multi_inv_def)
next
  case (ms_all_done s r)
  then show ?case by (cases r) (auto simp: multi_inv_def exit_ok_def)
next
  case (ms_timeout s r)
  then show ?case by (auto simp: multi_inv_def exit_ok_def)
next
  case (ms_ctx s)
  then show ?case by (auto simp: multi_inv_def intro: exit_ok_mono)
qed (auto simp: multi_inv_def)

lemma multi_inv_reachable: "(multi_step m)\<^sup>*\<^sup>* (run_init n) s \<Longrightarrow> multi_inv m s"
  by (induction rule: rtranclp_induct) (auto intro: multi_inv_init multi_inv_step)

section \<open>Removing a runnable\<close>

lemma remove_loop_skip:
  assumes "i \<le> p" "p \<le> n" "\<forall>j. i \<le> j \<and> j < p \<longrightarrow> dt_runner (arr ! j) \<noteq> r"
  shows "remove_loop r b n arr len i c = remove_loop r b n arr len p c"
  using assms
proof (induction "p - i" arbitrary: i)
  case (Suc k)
  have "i < n" "dt_runner (arr ! i) \<noteq> r" using Suc.hyps(2) Suc.prems by auto
  then have "remove_loop r b n arr len i c = remove_loop r b n arr len (Suc i) c"
    by (subst remove_loop.simps) simp
  also have "\<dots> = remove_loop r b n arr len p c" using Suc by (intro Suc.hyps(1)) auto
  finally show ?case .
qed simp

lemma remove_loop_none:
  assumes "i \<le> n" "\<forall>j. i \<le> j \<and> j < n \<longrightarrow> dt_runner (arr ! j) \<noteq> r"
  shows "remove_loop r b n arr len i c = (arr, len, c)"
  using remove_loop_skip [of i n n arr r b len c] assms by (simp add: remove_loop.simps [of r b n arr len n c])

lemma shift_out_full:
  "p < length arr \<Longrightarrow> shift_out arr p (length arr) = take p arr @ drop (Suc p) arr @ drop (length arr - 1) arr"
  by (simp add: shift_out_def)

lemma remove_loop_at:
  assumes p: "p < n" "dt_runner (arr ! p) = r" and n: "n = length arr"
    and others: "\<forall>j < n. j \<noteq> p \<longrightarrow> dt_runner (arr ! j) \<noteq> r"
  shows "\<exists>arr'. remove_loop r b n arr n 0 [] =
      (arr', n - 1, if b \<and> dt_started (arr ! p) then [arr ! p] else []) \<and>
    take (n - 1) arr' = take p arr @ drop (Suc p) arr"
proof -
  let ?c = "if b \<and> dt_started (arr ! p) then [arr ! p] else []"
  have start: "remove_loop r b n arr n 0 [] = remove_loop r b n arr n p []"
    using assms by (intro remove_loop_skip) auto
  show ?thesis
  proof (cases "Suc p < n")
    case False
    then have last: "n - 1 = p" "drop (Suc p) arr = []" using p n by auto
    have "remove_loop r b n arr n p [] = remove_loop r b n arr p (Suc p) ?c"
      using p False by (subst remove_loop.simps) (auto simp: Let_def)
    also have "\<dots> = (arr, p, ?c)" using False p by (intro remove_loop_none) auto
    finally show ?thesis using start last by simp
  next
    case True
    let ?arr = "shift_out arr p n"
    have arr: "?arr = take p arr @ drop (Suc p) arr @ drop (n - 1) arr" using p n by (simp add: shift_out_full)
    have "dt_runner (?arr ! j) \<noteq> r" if "Suc p \<le> j" "j < n" for j
    proof (cases "j < n - 1")
      case True
      then have "?arr ! j = arr ! Suc j" using that p n unfolding arr by (simp add: nth_append)
      with others that True show ?thesis by simp
    next
      case False
      then have "?arr ! j = arr ! (n - 1)" using that p n unfolding arr by (simp add: nth_append)
      with others True p show ?thesis by simp
    qed
    then have "remove_loop r b n ?arr (n - 1) (Suc p) ?c = (?arr, n - 1, ?c)"
      using True by (intro remove_loop_none) auto
    moreover have "remove_loop r b n arr n p [] = remove_loop r b n ?arr (n - 1) (Suc p) ?c"
      using p True by (subst remove_loop.simps) (auto simp: Let_def)
    moreover have "take (n - 1) ?arr = take p arr @ drop (Suc p) arr" using p n unfolding arr by simp
    ultimately show ?thesis using start by simp
  qed
qed

lemma filter_distinct_at:
  assumes "p < length xs" "P (xs ! p)" "\<forall>j < length xs. j \<noteq> p \<longrightarrow> \<not> P (xs ! j)"
  shows "filter (\<lambda>x. \<not> P x) xs = take p xs @ drop (Suc p) xs"
proof -
  have "filter (\<lambda>x. \<not> P x) (take p xs) = take p xs" "filter (\<lambda>x. \<not> P x) (drop (Suc p) xs) = drop (Suc p) xs"
    using others_around [OF assms(1,3)] by (auto simp: filter_id_conv)
  with assms(2) show ?thesis by (subst id_take_nth_drop [OF assms(1)]) (simp add: assms(2))
qed

section \<open>Properties\<close>

text \<open>
  C9. When \<open>MultiRunner.Run\<close> returns and there is no exit timeout, every runnable has returned; the
  error it returns is one a runnable returned and the error handler chose to stop for, and it
  returns nil only after its context was cancelled. It never panics, and a goroutine with an error
  always finds room in the channel.
\<close>

theorem MultiRunner_run_correct:
  assumes "(multi_step m)\<^sup>*\<^sup>* (run_init n) s"
  shows "\<not> rs_panic s \<and>
    (rs_main s = Exited r \<and> mr_ExitWait m = None \<longrightarrow>
       list_all done_wg (rs_goroutines s) \<and>
       (case r of None \<Rightarrow> rs_ctxDone s | Some e \<Rightarrow> e \<in> set (rs_returned s) \<and> handle_error m e)) \<and>
    (i < length (rs_goroutines s) \<and> rs_goroutines s ! i = Sending e \<longrightarrow>
       length (rs_errs s) < length (rs_goroutines s))"
proof -
  note inv = multi_inv_reachable [OF assms]
  have "length (rs_errs s) < length (rs_goroutines s)"
    if "i < length (rs_goroutines s)" "rs_goroutines s ! i = Sending e"
  proof -
    have "0 < length (filter unsent (rs_goroutines s))"
      using filter_unsent_pos [of i "rs_goroutines s"] that by (simp add: unsent_def)
    moreover have "length (rs_errs s) + length (filter unsent (rs_goroutines s)) \<le> length (rs_goroutines s)"
      using inv by (simp add: multi_inv_def)
    ultimately show ?thesis by linarith
  qed
  with inv show ?thesis by (auto simp: multi_inv_def exit_ok_def)
qed

definition sample_exit :: multi_state where
  "sample_exit = (run_init 1)\<lparr>rs_main := Exited (Some (GoErr ''x'')), rs_goroutines := [Finished],
     rs_cancelled := True, rs_errsClosed := True, rs_returned := [GoErr ''x'']\<rparr>"

lemma sample_exit_reachable: "(multi_step NewMultiRunner)\<^sup>*\<^sup>* (run_init 1) sample_exit"
proof -
  let ?m = NewMultiRunner
  let ?s1 = "(run_init 1)\<lparr>rs_goroutines := [Returned (GoErr ''x'')], rs_returned := [GoErr ''x'']\<rparr>"
  let ?s2 = "?s1\<lparr>rs_goroutines := [Sending (GoErr ''x'')]\<rparr>"
  let ?s3 = "?s2\<lparr>rs_goroutines := [Finished], rs_errs := [GoErr ''x'']\<rparr>"
  let ?s4 = "?s3\<lparr>rs_main := Waiting (Some (GoErr ''x'')), rs_errs := [], rs_cancelled := True\<rparr>"
  have 1: "multi_step ?m (run_init 1) ?s1"
    using ms_return_err [of 0 "run_init 1" ?m "GoErr ''x''"] by (simp add: run_init_def)
  have 2: "multi_step ?m ?s1 ?s2"
    using ms_check [of 0 ?s1 "GoErr ''x''" ?m] by (simp add: run_init_def)
  have 3: "multi_step ?m ?s2 ?s3"
    using ms_send [of 0 ?s2 "GoErr ''x''" ?m] by (simp add: run_init_def)
  have 4: "multi_step ?m ?s3 ?s4"
    using ms_error_stop [of ?s3 "GoErr ''x''" "[]" ?m]
    by (simp add: run_init_def NewMultiRunner_def handle_error_def RunnableCollectorDefaultErrorHandler_def)
  have 5: "multi_step ?m ?s4 sample_exit"
    using ms_all_done [of ?s4 "Some (GoErr ''x'')" ?m] by (simp add: run_init_def done_wg_def sample_exit_def)
  from 1 2 3 4 5 have "successively (multi_step ?m) (run_init 1 # [?s1, ?s2, ?s3, ?s4, sample_exit])"
    by (simp only: successively.simps simp_thms)
  from successively_rtranclp [OF this] show ?thesis
    by (simp only: last.simps list.distinct if_False if_True simp_thms)
qed

theorem MultiRunner_run_correct_witness:
  "list_all done_wg (rs_goroutines sample_exit) \<and> GoErr ''x'' \<in> set (rs_returned sample_exit)"
proof -
  have "rs_main sample_exit = Exited (Some (GoErr ''x''))" "mr_ExitWait NewMultiRunner = None"
    by (simp_all add: sample_exit_def NewMultiRunner_def)
  with MultiRunner_run_correct [OF sample_exit_reachable, of "Some (GoErr ''x'')"] show ?thesis by simp
qed

text \<open>
  \<open>DynamicMultiRunner.Run\<close> can panic: two runnables fail, the first error stops the loop, the
  second goroutine has left the wait group but not sent its error when \<open>Run\<close> returns and closes the
  channel.
\<close>

lemma DynamicMultiRunner_run_can_panic:
  "\<exists>s. (dyn_step NewMultiRunner)\<^sup>*\<^sup>* (run_init 2) s \<and> rs_main s = Exited (Some (GoErr ''a'')) \<and> rs_panic s"
proof -
  let ?m = NewMultiRunner
  let ?a = "GoErr ''a''" and ?b = "GoErr ''b''"
  let ?s1 = "(run_init 2)\<lparr>rs_goroutines := [Returned ?a, Running], rs_returned := [?a]\<rparr>"
  let ?s2 = "?s1\<lparr>rs_goroutines := [Sending ?a, Running]\<rparr>"
  let ?s3 = "?s2\<lparr>rs_main := Waiting (Some ?a), rs_goroutines := [Finished, Running], rs_cancelled := True\<rparr>"
  let ?s4 = "?s3\<lparr>rs_goroutines := [Finished, Returned ?b], rs_returned := [?b, ?a]\<rparr>"
  let ?s5 = "?s4\<lparr>rs_goroutines := [Finished, Sending ?b]\<rparr>"
  let ?s6 = "?s5\<lparr>rs_main := Exited (Some ?a), rs_errsClosed := True\<rparr>"
  let ?s7 = "?s6\<lparr>rs_goroutines := [Finished, Finished], rs_panic := True\<rparr>"
  have 1: "dyn_step ?m (run_init 2) ?s1"
    using ds_return_err [of 0 "run_init 2" ?m ?a] by (simp add: run_init_def numeral_2_eq_2)
  have 2: "dyn_step ?m ?s1 ?s2"
    using ds_check [of 0 ?s1 ?a ?m] by (simp add: run_init_def)
  have 3: "dyn_step ?m ?s2 ?s3"
    using ds_error_stop [of ?s2 0 ?a ?m]
    by (simp add: run_init_def NewMultiRunner_def handle_error_def RunnableCollectorDefaultErrorHandler_def)
  have 4: "dyn_step ?m ?s3 ?s4"
    using ds_return_err [of 1 ?s3 ?m ?b] by (simp add: run_init_def)
  have 5: "dyn_step ?m ?s4 ?s5"
    using ds_check [of 1 ?s4 ?b ?m] by (simp add: run_init_def)
  have 6: "dyn_step ?m ?s5 ?s6"
    using ds_all_done [of ?s5 "Some ?a" ?m] by (simp add: done_wg_def)
  have 7: "dyn_step ?m ?s6 ?s7"
    using ds_send_closed [of 1 ?s6 ?b ?m] by (simp add: run_init_def)
  from 1 2 3 4 5 6 7 have "successively (dyn_step ?m) (run_init 2 # [?s1, ?s2, ?s3, ?s4, ?s5, ?s6, ?s7])"
    by (simp only: successively.simps simp_thms)
  from successively_rtranclp [OF this] have "(dyn_step ?m)\<^sup>*\<^sup>* (run_init 2) ?s7"
    by (simp only: last.simps list.distinct if_False if_True simp_thms)
  moreover have "rs_main ?s7 = Exited (Some ?a)" "rs_panic ?s7" by simp_all
  ultimately show ?thesis by blast
qed

text \<open>
  \<open>RemoveRunnable\<close>, although it removes from the array it iterates over, takes exactly the given
  runnable out of a list of distinct ones, keeps the order of the others, and cancels it if and
  only if it was started and the runner is running.
\<close>

lemma RemoveRunnable_exact:
  assumes "distinct (map dt_runner (dm_runners d))"
  shows "dm_runners (fst (RemoveRunnable d r)) = filter (\<lambda>t. dt_runner t \<noteq> r) (dm_runners d) \<and>
    snd (RemoveRunnable d r) =
      filter (\<lambda>t. dt_runner t = r \<and> dm_running d \<and> dt_started t) (dm_runners d)"
proof (cases "\<exists>p < length (dm_runners d). dt_runner (dm_runners d ! p) = r")
  case False
  then have "remove_loop r (dm_running d) (length (dm_runners d)) (dm_runners d) (length (dm_runners d)) 0 [] =
      (dm_runners d, length (dm_runners d), [])" by (intro remove_loop_none) auto
  moreover from False have "\<forall>t \<in> set (dm_runners d). dt_runner t \<noteq> r" by (auto simp: in_set_conv_nth)
  ultimately show ?thesis by (auto simp: RemoveRunnable_def Let_def filter_id_conv filter_empty_conv)
next
  case True
  then obtain p where p: "p < length (dm_runners d)" "dt_runner (dm_runners d ! p) = r" by blast
  have others: "\<forall>j < length (dm_runners d). j \<noteq> p \<longrightarrow> dt_runner (dm_runners d ! j) \<noteq> r"
    using assms p by (auto simp: distinct_conv_nth)
  note rest = filter_distinct_at [of p "dm_runners d" "\<lambda>t. dt_runner t = r", OF p others]
  have "filter (\<lambda>t. dt_runner t = r) (dm_runners d) = [dm_runners d ! p]"
  proof -
    have "\<forall>t \<in> set (take p (dm_runners d)) \<union> set (drop (Suc p) (dm_runners d)). dt_runner t \<noteq> r"
      using others_around [of p "dm_runners d" "\<lambda>t. dt_runner t = r", OF p(1) others] .
    then have "filter (\<lambda>t. dt_runner t = r) (take p (dm_runners d)) = []"
        "filter (\<lambda>t. dt_runner t = r) (drop (Suc p) (dm_runners d)) = []" by (auto simp: filter_empty_conv)
    with p(2) show ?thesis by (subst id_take_nth_drop [OF p(1)]) (simp add: p(2))
  qed
  then have "filter (\<lambda>t. dt_runner t = r \<and> dm_running d \<and> dt_started t) (dm_runners d) =
      (if dm_running d \<and> dt_started (dm_runners d ! p) then [dm_runners d ! p] else [])"
  proof -
    have "filter (\<lambda>t. dt_runner t = r \<and> dm_running d \<and> dt_started t) (dm_runners d) =
        filter (\<lambda>t. dm_running d \<and> dt_started t) (filter (\<lambda>t. dt_runner t = r) (dm_runners d))"
      by (simp add: conj_ac)
    with \<open>filter (\<lambda>t. dt_runner t = r) (dm_runners d) = [dm_runners d ! p]\<close> show ?thesis by simp
  qed
  with remove_loop_at [OF p refl others, of "dm_running d"] rest show ?thesis
    by (auto simp: RemoveRunnable_def Let_def)
qed

lemma RemoveRunnable_exact_witness:
  "dm_runners (fst (RemoveRunnable
      \<lparr>dm_runners = [\<lparr>dt_runner = 1, dt_started = True\<rparr>, \<lparr>dt_runner = 2, dt_started = True\<rparr>,
                     \<lparr>dt_runner = 3, dt_started = True\<rparr>], dm_running = True\<rparr> 2)) =
   [\<lparr>dt_runner = 1, dt_started = True\<rparr>, \<lparr>dt_runner = 3, dt_started = True\<rparr>]"
proof -
  let ?d = "\<lparr>dm_runners = [\<lparr>dt_runner = 1, dt_started = True\<rparr>, \<lparr>dt_runner = 2, dt_started = True\<rparr>,
                     \<lparr>dt_runner = 3, dt_started = True\<rparr>], dm_running = True\<rparr>"
  have "distinct (map dt_runner (dm_runners ?d))" by simp
  from RemoveRunnable_exact [OF this, of 2] show ?thesis by simp
qed

text \<open>What can happen to a runner's list between two calls of \<open>Run\<close>.\<close>

datatype dyn_op = OpAdd nat | OpRemove nat

fun dyn_apply :: "DynamicMultiRunner \<Rightarrow> dyn_op \<Rightarrow> DynamicMultiRunner" where
  "dyn_apply d (OpAdd r) = AddRunnable d r"
| "dyn_apply d (OpRemove r) = fst (RemoveRunnable d r)"

lemma dyn_apply_running: "dm_running (foldl dyn_apply d ops) = dm_running d"
proof (induction ops arbitrary: d)
  case (Cons x ops)
  then show ?case by (cases x) (simp_all add: AddRunnable_def RemoveRunnable_def Let_def split: prod.split)
qed simp

text \<open>
  A \<open>DynamicMultiRunner\<close> runs once: nothing resets its running flag, so after one \<open>Run\<close> every
  later \<open>Run\<close> is refused, however runnables are added and removed in between.
\<close>

lemma DynamicMultiRunner_runs_once:
  "snd (dyn_start (foldl dyn_apply (fst (dyn_start d)) ops)) = Some (GoErr ''already running'')"
  using dyn_apply_running [of "fst (dyn_start d)" ops]
  by (simp add: dyn_start_def split: if_splits)

end
