(* ===== verification/Stores.thy ===== *)
theory Stores
  imports Resource_Model "HOL-Library.Sublist"
begin

text \<open>
  \<^verbatim>\<open>resource/store.go\<close>, \<^verbatim>\<open>resource/typedstore.go\<close>, \<^verbatim>\<open>resource/simplestore.go\<close> and
  \<^verbatim>\<open>resource/updater.go\<close>: the key-value stores over a client and \<open>UpdateObject\<close>, the read, modify
  and write loop with retries on conflicts.

  The client, \<^verbatim>\<open>resource.Client\<close>, is an interface: a record of operations on a state \<open>'s\<close> of
  everything outside. Objects are values of a type \<open>'o\<close> seen through the accessors of
  \<^verbatim>\<open>resource.Object\<close>; an operation that writes into an object returns the object written.
\<close>

section \<open>The interfaces\<close>

text \<open>\<open>oi_touch\<close> sets the update timestamp through \<open>GetCommonMetadata\<close> and \<open>SetCommonMetadata\<close>.\<close>

record 'o object_iface =
  oi_Static :: "'o \<Rightarrow> static_metadata"
  oi_Namespace :: "'o \<Rightarrow> string"
  oi_Name :: "'o \<Rightarrow> string"
  oi_ResourceVersion :: "'o \<Rightarrow> string"
  oi_touch :: "time \<Rightarrow> 'o \<Rightarrow> 'o"

record 'o list_object =
  li_Continue :: string
  li_ResourceVersion :: string
  li_Items :: "'o list"

text \<open>
  \<open>Get\<close> returns an object, nil as \<open>None\<close>, beside its error. The \<open>Into\<close> variants return what is in
  the object afterwards.
\<close>

record ('o, 's) client =
  cl_Get :: "resource_id \<Rightarrow> 's \<Rightarrow> ('o option \<times> go_error option) \<times> 's"
  cl_GetInto :: "resource_id \<Rightarrow> 'o \<Rightarrow> 's \<Rightarrow> ('o \<times> go_error option) \<times> 's"
  cl_Create :: "resource_id \<Rightarrow> 'o \<Rightarrow> 's \<Rightarrow> (go_error + 'o) \<times> 's"
  cl_Update :: "resource_id \<Rightarrow> 'o \<Rightarrow> UpdateOptions \<Rightarrow> 's \<Rightarrow> (go_error + 'o) \<times> 's"
  cl_UpdateInto :: "resource_id \<Rightarrow> 'o \<Rightarrow> UpdateOptions \<Rightarrow> 's \<Rightarrow> ('o \<times> go_error option) \<times> 's"
  cl_Delete :: "resource_id \<Rightarrow> 's \<Rightarrow> go_error option \<times> 's"
  cl_List :: "string \<Rightarrow> ListOptions \<Rightarrow> 's \<Rightarrow> (go_error + 'o list_object) \<times> 's"

text \<open>The parts of \<^verbatim>\<open>apierrors\<close> the stores ask, and the clock.\<close>

record 's api =
  api_IsNotFound :: "go_error \<Rightarrow> bool"
  api_IsConflict :: "go_error \<Rightarrow> bool"
  api_now :: "'s \<Rightarrow> time"

definition get_result :: "'o option \<times> go_error option \<Rightarrow> go_error + 'o option" where
  "get_result r = (case r of (ob, Some e) \<Rightarrow> Inl e | (ob, None) \<Rightarrow> Inr ob)"

section \<open>Store\<close>

record StoreListOptions =
  slo_Namespace :: string
  slo_PerPage :: int
  slo_Filters :: "string list"
  slo_FieldSelectors :: "string list"

text \<open>The client generator returns a client or an error for a kind; the kinds are known by their name.\<close>

record ('o, 's) Store =
  sto_ClientFor :: "schema \<Rightarrow> go_error + ('o, 's) client"
  sto_types :: "string \<Rightarrow> schema option"

definition Register :: "schema \<Rightarrow> ('o, 's) Store \<Rightarrow> ('o, 's) Store" where
  "Register sch s = s\<lparr>sto_types := (sto_types s)(sch_Kind sch \<mapsto> sch)\<rparr>"

definition RegisterGroup :: "schema list \<Rightarrow> ('o, 's) Store \<Rightarrow> ('o, 's) Store" where
  "RegisterGroup kinds s = fold Register kinds s"

definition NewStore :: "(schema \<Rightarrow> go_error + ('o, 's) client) \<Rightarrow> schema list list \<Rightarrow> ('o, 's) Store" where
  "NewStore gen groups = fold RegisterGroup groups \<lparr>sto_ClientFor = gen, sto_types = (\<lambda>k. None)\<rparr>"

definition getClient :: "('o, 's) Store \<Rightarrow> string \<Rightarrow> go_error + ('o, 's) client" where
  "getClient s kind = (case sto_types s kind of
     None \<Rightarrow> Inl (GoErr (''resource kind '' @ [CHR 0x27] @ kind @ [CHR 0x27] @ '' is not registered in store''))
   | Some schema \<Rightarrow> sto_ClientFor s schema)"

definition Store_Get ::
  "('o, 's) Store \<Rightarrow> string \<Rightarrow> resource_id \<Rightarrow> 's \<Rightarrow> ('o option \<times> go_error option) \<times> 's" where
  "Store_Get s kind ident w = (case getClient s kind of
     Inl e \<Rightarrow> ((None, Some e), w)
   | Inr client \<Rightarrow> cl_Get client ident w)"

text \<open>The checks that \<open>Add\<close>, \<open>Update\<close> and \<open>Upsert\<close> start with.\<close>

definition metadata_error :: "'o object_iface \<Rightarrow> 'o \<Rightarrow> go_error option" where
  "metadata_error I obj =
     (if sm_Kind (oi_Static I obj) = [] then Some (GoErr ''obj.GetStaticMetadata().Kind must not be empty'')
      else if oi_Namespace I obj = [] then Some (GoErr ''obj.GetNamespace() must not be empty'')
      else if oi_Name I obj = [] then Some (GoErr ''obj.GetName() must not be empty'') else None)"

definition Store_Add :: "'o object_iface \<Rightarrow> ('o, 's) Store \<Rightarrow> 'o \<Rightarrow> 's \<Rightarrow> (go_error + 'o) \<times> 's" where
  "Store_Add I s obj w = (case metadata_error I obj of
     Some e \<Rightarrow> (Inl e, w)
   | None \<Rightarrow> (case getClient s (sm_Kind (oi_Static I obj)) of
       Inl e \<Rightarrow> (Inl e, w)
     | Inr client \<Rightarrow> cl_Create client (Identifier (oi_Static I obj)) obj w))"

definition Store_SimpleAdd ::
  "('o, 's) Store \<Rightarrow> string \<Rightarrow> resource_id \<Rightarrow> 'o \<Rightarrow> 's \<Rightarrow> (go_error + 'o) \<times> 's" where
  "Store_SimpleAdd s kind ident obj w = (case getClient s kind of
     Inl e \<Rightarrow> (Inl e, w)
   | Inr client \<Rightarrow> cl_Create client ident obj w)"

definition Store_Update :: "'o object_iface \<Rightarrow> 's api \<Rightarrow> ('o, 's) Store \<Rightarrow> 'o \<Rightarrow> 's \<Rightarrow> (go_error + 'o) \<times> 's" where
  "Store_Update I A s obj0 w = (case metadata_error I obj0 of
     Some e \<Rightarrow> (Inl e, w)
   | None \<Rightarrow>
       (let obj = oi_touch I (api_now A w) obj0
        in case getClient s (sm_Kind (oi_Static I obj)) of
             Inl e \<Rightarrow> (Inl e, w)
           | Inr client \<Rightarrow> cl_Update client (Identifier (oi_Static I obj)) obj
               (no_UpdateOptions\<lparr>uo_ResourceVersion := oi_ResourceVersion I obj\<rparr>) w))"

text \<open>\<open>subresource_object\<close> is the untyped object that has only the marshalled subresource.\<close>

definition Store_UpdateSubresource ::
  "(string \<Rightarrow> 'b \<Rightarrow> 'o) \<Rightarrow> ('a \<Rightarrow> go_error + 'b) \<Rightarrow> ('o, 's) Store \<Rightarrow> string \<Rightarrow> resource_id \<Rightarrow> string \<Rightarrow> 'a \<Rightarrow>
   's \<Rightarrow> (go_error + 'o) \<times> 's" where
  "Store_UpdateSubresource subresource_object marshal s kind ident subresourceName obj w =
     (case getClient s kind of
        Inl e \<Rightarrow> (Inl e, w)
      | Inr client \<Rightarrow>
          if subresourceName = [] then (Inl (GoErr ''subresourceName cannot be empty''), w)
          else (case marshal obj of
            Inl e \<Rightarrow> (Inl e, w)
          | Inr srBytes \<Rightarrow> cl_Update client ident (subresource_object subresourceName srBytes)
              (no_UpdateOptions\<lparr>uo_Subresource := subresourceName\<rparr>) w))"

definition Store_Upsert :: "'o object_iface \<Rightarrow> 's api \<Rightarrow> ('o, 's) Store \<Rightarrow> 'o \<Rightarrow> 's \<Rightarrow> (go_error + 'o) \<times> 's" where
  "Store_Upsert I A s obj w = (case metadata_error I obj of
     Some e \<Rightarrow> (Inl e, w)
   | None \<Rightarrow> (case getClient s (sm_Kind (oi_Static I obj)) of
       Inl e \<Rightarrow> (Inl e, w)
     | Inr client \<Rightarrow>
         (let ((resp, err), w1) = cl_Get client (Identifier (oi_Static I obj)) w
          in if (case err of None \<Rightarrow> False | Some e \<Rightarrow> \<not> api_IsNotFound A e) then (Inl (the err), w1)
             else (case resp of
               Some r \<Rightarrow>
                 (let obj1 = oi_touch I (api_now A w1) obj
                  in cl_Update client \<lparr>id_Namespace = oi_Namespace I obj1, id_Name = oi_Name I obj1\<rparr> obj1
                       (no_UpdateOptions\<lparr>uo_ResourceVersion := oi_ResourceVersion I obj1\<rparr>) w1)
             | None \<Rightarrow>
                 cl_Create client \<lparr>id_Namespace = oi_Namespace I obj, id_Name = oi_Name I obj\<rparr> obj w1))))"

definition Store_Delete :: "('o, 's) Store \<Rightarrow> string \<Rightarrow> resource_id \<Rightarrow> 's \<Rightarrow> go_error option \<times> 's" where
  "Store_Delete s kind ident w = (case getClient s kind of
     Inl e \<Rightarrow> (Some e, w)
   | Inr client \<Rightarrow> cl_Delete client ident w)"

definition ignore_not_found :: "'s api \<Rightarrow> go_error option \<Rightarrow> go_error option" where
  "ignore_not_found A err = (case err of None \<Rightarrow> None | Some e \<Rightarrow> if api_IsNotFound A e then None else Some e)"

definition Store_ForceDelete :: "'s api \<Rightarrow> ('o, 's) Store \<Rightarrow> string \<Rightarrow> resource_id \<Rightarrow> 's \<Rightarrow> go_error option \<times> 's" where
  "Store_ForceDelete A s kind ident w = (case getClient s kind of
     Inl e \<Rightarrow> (Some e, w)
   | Inr client \<Rightarrow> (let (err, w1) = cl_Delete client ident w in (ignore_not_found A err, w1)))"

section \<open>Listing all pages\<close>

definition list_options :: "StoreListOptions \<Rightarrow> string \<Rightarrow> ListOptions" where
  "list_options opts cont =
     \<lparr>lo_ResourceVersion = [], lo_LabelFilters = slo_Filters opts, lo_FieldSelectors = slo_FieldSelectors opts,
      lo_Limit = slo_PerPage opts, lo_Continue = cont\<rparr>"

text \<open>
  The loop that follows the continue tokens, for \<open>Store.List\<close> and \<open>TypedStore.List\<close>. A server that
  never stops handing out tokens keeps it going: not returning is \<open>None\<close>.
\<close>

partial_function (option) list_loop ::
  "(ListOptions \<Rightarrow> 's \<Rightarrow> (go_error + 'o list_object) \<times> 's) \<Rightarrow> StoreListOptions \<Rightarrow> 'o list_object \<Rightarrow> 's \<Rightarrow>
   ((go_error + 'o list_object) \<times> 's) option" where
  "list_loop fetch opts resp w =
     (if li_Continue resp = [] then Some (Inr resp, w)
      else (case fetch (list_options opts (li_Continue resp)) w of
        (Inl e, w1) \<Rightarrow> Some (Inl e, w1)
      | (Inr page, w1) \<Rightarrow>
          list_loop fetch opts
            \<lparr>li_Continue = li_Continue page, li_ResourceVersion = li_ResourceVersion page,
             li_Items = li_Items resp @ li_Items page\<rparr> w1))"

definition list_all ::
  "(ListOptions \<Rightarrow> 's \<Rightarrow> (go_error + 'o list_object) \<times> 's) \<Rightarrow> StoreListOptions \<Rightarrow> 's \<Rightarrow>
   ((go_error + 'o list_object) \<times> 's) option" where
  "list_all fetch opts w = (case fetch (list_options opts []) w of
     (Inl e, w1) \<Rightarrow> Some (Inl e, w1)
   | (Inr resp, w1) \<Rightarrow> list_loop fetch opts resp w1)"

definition Store_List ::
  "('o, 's) Store \<Rightarrow> string \<Rightarrow> StoreListOptions \<Rightarrow> 's \<Rightarrow> ((go_error + 'o list_object) \<times> 's) option" where
  "Store_List s kind opts w = (case getClient s kind of
     Inl e \<Rightarrow> Some (Inl e, w)
   | Inr client \<Rightarrow> list_all (cl_List client (slo_Namespace opts)) opts w)"

definition Store_ListPage ::
  "('o, 's) Store \<Rightarrow> string \<Rightarrow> string \<Rightarrow> ListOptions \<Rightarrow> 's \<Rightarrow> (go_error + 'o list_object) \<times> 's" where
  "Store_ListPage s kind namespace opts w = (case getClient s kind of
     Inl e \<Rightarrow> (Inl e, w)
   | Inr client \<Rightarrow> cl_List client namespace opts w)"

section \<open>TypedStore\<close>

text \<open>
  The client of the store's kind, the kind's scope, and the type assertion to \<open>ObjectType\<close>:
  \<open>ts_is\<close> tells which objects are of the type.
\<close>

record ('o, 's) TypedStore =
  ts_client :: "('o, 's) client"
  ts_ClusterScope :: bool
  ts_is :: "'o \<Rightarrow> bool"

definition ErrMissingResourceVersion :: go_error where
  "ErrMissingResourceVersion = GoErr ''object is missing a ResourceVersion''"

text \<open>
  Go types as far as the constructor compares them: pointers to types and others. Both sides are
  stripped of pointers together.
\<close>

datatype go_type = PtrTo go_type | Named string

fun strip_pointers :: "go_type \<Rightarrow> go_type \<Rightarrow> go_type \<times> go_type" where
  "strip_pointers (PtrTo a) (PtrTo b) = strip_pointers a b"
| "strip_pointers a b = (a, b)"

fun type_name :: "go_type \<Rightarrow> string" where
  "type_name (Named n) = n"
| "type_name (PtrTo t) = []"

definition NewTypedStore ::
  "go_type \<Rightarrow> go_type \<Rightarrow> (schema \<Rightarrow> go_error + ('o, 's) client) \<Rightarrow> schema \<Rightarrow> bool \<Rightarrow> ('o \<Rightarrow> bool) \<Rightarrow>
   go_error + ('o, 's) TypedStore" where
  "NewTypedStore schemaType providedType gen kind cluster is_type =
     (let (a, b) = strip_pointers schemaType providedType
      in if a \<noteq> b
         then Inl (GoErr (''underlying types of schema.ZeroValue() and provided ObjectType are not the same ('' @
                          type_name a @ '' != '' @ type_name b @ '')''))
         else (case gen kind of
           Inl e \<Rightarrow> Inl (Wrapped ''error getting client from generator'' e)
         | Inr client \<Rightarrow> Inr \<lparr>ts_client = client, ts_ClusterScope = cluster, ts_is = is_type\<rparr>))"

definition cast :: "('o, 's) TypedStore \<Rightarrow> 'o option \<Rightarrow> go_error + 'o" where
  "cast t obj = (case obj of
     Some ob \<Rightarrow> if ts_is t ob then Inr ob else Inl (GoErr ''unable to cast Object into provided type'')
   | None \<Rightarrow> Inl (GoErr ''unable to cast Object into provided type''))"

definition cast_result :: "('o, 's) TypedStore \<Rightarrow> (go_error + 'o) \<times> 's \<Rightarrow> (go_error + 'o) \<times> 's" where
  "cast_result t r = (case r of (Inl e, w) \<Rightarrow> (Inl e, w) | (Inr ob, w) \<Rightarrow> (cast t (Some ob), w))"

definition Typed_Get :: "('o, 's) TypedStore \<Rightarrow> resource_id \<Rightarrow> 's \<Rightarrow> (go_error + 'o) \<times> 's" where
  "Typed_Get t ident w = (case cl_Get (ts_client t) ident w of
     ((ob, Some e), w1) \<Rightarrow> (Inl e, w1)
   | ((ob, None), w1) \<Rightarrow> (cast t ob, w1))"

definition Typed_Add :: "'o object_iface \<Rightarrow> ('o, 's) TypedStore \<Rightarrow> 'o \<Rightarrow> 's \<Rightarrow> (go_error + 'o) \<times> 's" where
  "Typed_Add I t obj w =
     (if ts_ClusterScope t \<and> oi_Namespace I obj \<noteq> []
      then (Inl (GoErr ''obj.GetNamespace() must be empty for cluster-scoped objects''), w)
      else if \<not> ts_ClusterScope t \<and> oi_Namespace I obj = []
      then (Inl (GoErr ''obj.GetNamespace() must not be empty''), w)
      else if oi_Name I obj = [] then (Inl (GoErr ''obj.GetName() must not be empty''), w)
      else cast_result t
        (cl_Create (ts_client t) \<lparr>id_Namespace = oi_Namespace I obj, id_Name = oi_Name I obj\<rparr> obj w))"

definition Typed_Update ::
  "'o object_iface \<Rightarrow> 's api \<Rightarrow> ('o, 's) TypedStore \<Rightarrow> resource_id \<Rightarrow> 'o \<Rightarrow> 's \<Rightarrow> (go_error + 'o) \<times> 's" where
  "Typed_Update I A t ident obj0 w =
     (let obj = oi_touch I (api_now A w) obj0
      in if oi_ResourceVersion I obj = [] then (Inl ErrMissingResourceVersion, w)
         else cast_result t (cl_Update (ts_client t) ident obj
           (no_UpdateOptions\<lparr>uo_ResourceVersion := oi_ResourceVersion I obj\<rparr>) w))"

definition Typed_Upsert ::
  "'o object_iface \<Rightarrow> 's api \<Rightarrow> ('o, 's) TypedStore \<Rightarrow> resource_id \<Rightarrow> 'o \<Rightarrow> 's \<Rightarrow> (go_error + 'o) \<times> 's" where
  "Typed_Upsert I A t ident obj w =
     (let ((resp, err), w1) = cl_Get (ts_client t) ident w
      in if (case err of None \<Rightarrow> False | Some e \<Rightarrow> \<not> api_IsNotFound A e) then (Inl (the err), w1)
         else cast_result t (case resp of
           Some r \<Rightarrow> cl_Update (ts_client t) ident (oi_touch I (api_now A w1) obj) no_UpdateOptions w1
         | None \<Rightarrow>
             cl_Create (ts_client t) \<lparr>id_Namespace = oi_Namespace I obj, id_Name = oi_Name I obj\<rparr> obj w1))"

definition Typed_UpdateSubresource ::
  "'o object_iface \<Rightarrow> ('o, 's) TypedStore \<Rightarrow> resource_id \<Rightarrow> string \<Rightarrow> 'o \<Rightarrow> 's \<Rightarrow> (go_error + 'o) \<times> 's" where
  "Typed_UpdateSubresource I t ident subresource obj w =
     (if oi_ResourceVersion I obj = [] then (Inl ErrMissingResourceVersion, w)
      else cast_result t (cl_Update (ts_client t) ident obj
        \<lparr>uo_ResourceVersion = oi_ResourceVersion I obj, uo_Subresource = subresource, uo_DryRun = False\<rparr> w))"

definition Typed_Delete :: "('o, 's) TypedStore \<Rightarrow> resource_id \<Rightarrow> 's \<Rightarrow> go_error option \<times> 's" where
  "Typed_Delete t ident w = cl_Delete (ts_client t) ident w"

definition Typed_ForceDelete :: "'s api \<Rightarrow> ('o, 's) TypedStore \<Rightarrow> resource_id \<Rightarrow> 's \<Rightarrow> go_error option \<times> 's" where
  "Typed_ForceDelete A t ident w =
     (let (err, w1) = cl_Delete (ts_client t) ident w in (ignore_not_found A err, w1))"

text \<open>\<open>ListPage\<close> uses \<open>ListInto\<close> with a typed list, here the client's list.\<close>

definition Typed_ListPage ::
  "('o, 's) TypedStore \<Rightarrow> string \<Rightarrow> ListOptions \<Rightarrow> 's \<Rightarrow> (go_error + 'o list_object) \<times> 's" where
  "Typed_ListPage t namespace opts w = cl_List (ts_client t) namespace opts w"

definition Typed_List ::
  "('o, 's) TypedStore \<Rightarrow> StoreListOptions \<Rightarrow> 's \<Rightarrow> ((go_error + 'o list_object) \<times> 's) option" where
  "Typed_List t opts w = list_all (Typed_ListPage t (slo_Namespace opts)) opts w"

section \<open>SimpleStore\<close>

text \<open>
  An object as \<open>SimpleStore\<close> sees it: kind and API version, metadata of a type \<open>'m\<close>, the spec and the
  subresources, and whether it already is a \<open>TypedObject\<close> of the store's type.
\<close>

record ('m, 'p) simple_object =
  so_TypeMeta :: "string \<times> string"
  so_Meta :: 'm
  so_Spec :: 'p
  so_Subresources :: "(string \<times> 'p) list"
  so_typed :: bool

text \<open>The metadata the options work on: labels, nil as \<open>None\<close>, and the resource version.\<close>

record simple_meta =
  me_ResourceVersion :: string
  me_Labels :: "(string \<rightharpoonup> string) option"
  me_Others :: string

definition WithLabels :: "(string \<rightharpoonup> string) option \<Rightarrow> simple_meta \<Rightarrow> simple_meta" where
  "WithLabels labels m = m\<lparr>me_Labels := labels\<rparr>"

definition WithLabel :: "string \<Rightarrow> string \<Rightarrow> simple_meta \<Rightarrow> simple_meta" where
  "WithLabel key v m =
     m\<lparr>me_Labels := Some ((case me_Labels m of None \<Rightarrow> Map.empty | Some ls \<Rightarrow> ls)(key \<mapsto> v))\<rparr>"

definition WithResourceVersion :: "string \<Rightarrow> simple_meta \<Rightarrow> simple_meta" where
  "WithResourceVersion rv m = m\<lparr>me_ResourceVersion := rv\<rparr>"

type_synonym 'p sobj = "(simple_meta, 'p) simple_object"

definition zero_meta :: simple_meta where
  "zero_meta = \<lparr>me_ResourceVersion = [], me_Labels = None, me_Others = []\<rparr>"

text \<open>\<open>cast\<close>: \<open>is_spec\<close> is the type assertion of the spec. The copy has the same metadata.\<close>

definition simple_cast :: "('p \<Rightarrow> bool) \<Rightarrow> 'p sobj \<Rightarrow> go_error + 'p sobj" where
  "simple_cast is_spec obj =
     (if so_typed obj then Inr obj
      else if \<not> is_spec (so_Spec obj) then Inl (GoErr ''returned object could not be cast to store's type'')
      else Inr \<lparr>so_TypeMeta = so_TypeMeta obj, so_Meta = so_Meta obj, so_Spec = so_Spec obj,
                so_Subresources = so_Subresources obj, so_typed = True\<rparr>)"

definition simple_cast_result :: "('p \<Rightarrow> bool) \<Rightarrow> (go_error + 'p sobj) \<times> 's \<Rightarrow> (go_error + 'p sobj) \<times> 's" where
  "simple_cast_result is_spec r = (case r of (Inl e, w) \<Rightarrow> (Inl e, w) | (Inr ob, w) \<Rightarrow> (simple_cast is_spec ob, w))"

fun cast_items :: "('p \<Rightarrow> bool) \<Rightarrow> 'p sobj list \<Rightarrow> go_error + 'p sobj list" where
  "cast_items is_spec [] = Inr []"
| "cast_items is_spec (x # xs) = (case simple_cast is_spec x of
     Inl e \<Rightarrow> Inl e
   | Inr y \<Rightarrow> (case cast_items is_spec xs of Inl e \<Rightarrow> Inl e | Inr ys \<Rightarrow> Inr (y # ys)))"

definition NewSimpleStore ::
  "go_type \<Rightarrow> go_type \<Rightarrow> (schema \<Rightarrow> go_error + ('p sobj, 's) client) \<Rightarrow> schema \<Rightarrow> go_error + ('p sobj, 's) client" where
  "NewSimpleStore specType zeroSpecType gen kind =
     (if zeroSpecType \<noteq> specType
      then Inl (GoErr (''SpecType '' @ type_name specType @ '' does not match underlying type '' @ type_name zeroSpecType))
      else (case gen kind of
        Inl e \<Rightarrow> Inl (Wrapped ''error getting client from generator'' e) | Inr client \<Rightarrow> Inr client))"

definition ListWithFiltersAndSelectors ::
  "('p \<Rightarrow> bool) \<Rightarrow> ('p sobj, 's) client \<Rightarrow> string \<Rightarrow> string list \<Rightarrow> string list \<Rightarrow> 's \<Rightarrow> (go_error + 'p sobj list) \<times> 's" where
  "ListWithFiltersAndSelectors is_spec client namespace filters selectors w =
     (case cl_List client namespace
        \<lparr>lo_ResourceVersion = [], lo_LabelFilters = filters, lo_FieldSelectors = selectors, lo_Limit = 0, lo_Continue = []\<rparr> w of
        (Inl e, w1) \<Rightarrow> (Inl e, w1)
      | (Inr l, w1) \<Rightarrow> (cast_items is_spec (li_Items l), w1))"

definition SimpleStore_List :: "('p \<Rightarrow> bool) \<Rightarrow> ('p sobj, 's) client \<Rightarrow> string \<Rightarrow> 's \<Rightarrow> (go_error + 'p sobj list) \<times> 's" where
  "SimpleStore_List is_spec client namespace w = ListWithFiltersAndSelectors is_spec client namespace [] [] w"

text \<open>A nil object beside a nil error would make \<open>cast\<close> panic: \<open>None\<close>.\<close>

definition SimpleStore_Get ::
  "('p \<Rightarrow> bool) \<Rightarrow> ('p sobj, 's) client \<Rightarrow> resource_id \<Rightarrow> 's \<Rightarrow> (go_error + 'p sobj) option \<times> 's" where
  "SimpleStore_Get is_spec client ident w = (case cl_Get client ident w of
     ((ob, Some e), w1) \<Rightarrow> (Some (Inl e), w1)
   | ((None, None), w1) \<Rightarrow> (None, w1)
   | ((Some ob, None), w1) \<Rightarrow> (Some (simple_cast is_spec ob), w1))"

definition SimpleStore_Add ::
  "('p \<Rightarrow> bool) \<Rightarrow> ('p sobj, 's) client \<Rightarrow> resource_id \<Rightarrow> 'p \<Rightarrow> (simple_meta \<Rightarrow> simple_meta) list \<Rightarrow> 's \<Rightarrow>
   (go_error + 'p sobj) \<times> 's" where
  "SimpleStore_Add is_spec client ident obj opts w =
     simple_cast_result is_spec (cl_Create client ident
       \<lparr>so_TypeMeta = ([], []), so_Meta = fold (\<lambda>opt. opt) opts zero_meta, so_Spec = obj, so_Subresources = [],
        so_typed = True\<rparr> w)"

text \<open>\<open>touch\<close> sets the update timestamp through the common metadata of \<open>TypedObject\<close>.\<close>

definition SimpleStore_Update ::
  "('p \<Rightarrow> bool) \<Rightarrow> 's api \<Rightarrow> (time \<Rightarrow> simple_meta \<Rightarrow> simple_meta) \<Rightarrow> ('p sobj, 's) client \<Rightarrow> resource_id \<Rightarrow> 'p \<Rightarrow> (simple_meta \<Rightarrow> simple_meta) list \<Rightarrow> 's \<Rightarrow>
   (go_error + 'p sobj) option \<times> 's" where
  "SimpleStore_Update is_spec A touch client ident obj opts w =
     (case SimpleStore_Get is_spec client ident w of
        (None, w1) \<Rightarrow> (None, w1)
      | (Some (Inl e), w1) \<Rightarrow> (Some (Inl e), w1)
      | (Some (Inr current), w1) \<Rightarrow>
          (let meta = fold (\<lambda>opt. opt) opts (so_Meta current);
               (r, w2) = cl_Update client ident
                 \<lparr>so_TypeMeta = so_TypeMeta current, so_Meta = touch (api_now A w1) meta,
                  so_Spec = obj, so_Subresources = [], so_typed = True\<rparr>
                 (no_UpdateOptions\<lparr>uo_ResourceVersion := me_ResourceVersion meta\<rparr>) w1;
               (r', w3) = simple_cast_result is_spec (r, w2)
           in (Some r', w3)))"

definition SimpleStore_UpdateSubresource ::
  "('p \<Rightarrow> bool) \<Rightarrow> 'p \<Rightarrow> ('p sobj, 's) client \<Rightarrow> resource_id \<Rightarrow> string \<Rightarrow> 'p \<Rightarrow> 's \<Rightarrow> (go_error + 'p sobj) \<times> 's" where
  "SimpleStore_UpdateSubresource is_spec zero_spec client ident subresource obj w =
     (if subresource = [] then (Inl (GoErr ''subresource may not be empty''), w)
      else simple_cast_result is_spec (cl_Update client ident
        \<lparr>so_TypeMeta = ([], []), so_Meta = zero_meta, so_Spec = zero_spec, so_Subresources = [(subresource, obj)],
         so_typed = True\<rparr>
        (no_UpdateOptions\<lparr>uo_Subresource := subresource\<rparr>) w))"

definition SimpleStore_Delete :: "('p sobj, 's) client \<Rightarrow> resource_id \<Rightarrow> 's \<Rightarrow> go_error option \<times> 's" where
  "SimpleStore_Delete client ident w = cl_Delete client ident w"

section \<open>UpdateObject\<close>

text \<open>
  \<open>zero\<close> is the zero value of the type, \<open>is_type\<close> its type assertion; the update function may itself
  act on the state.
\<close>

definition doUpdate ::
  "'o object_iface \<Rightarrow> 'o \<Rightarrow> ('o, 's) client \<Rightarrow> resource_id \<Rightarrow> ('o \<Rightarrow> bool \<Rightarrow> 's \<Rightarrow> (go_error + 'o) \<times> 's) \<Rightarrow> UpdateOptions \<Rightarrow>
   'o \<Rightarrow> bool \<Rightarrow> 's \<Rightarrow> ('o \<times> go_error option) \<times> 's" where
  "doUpdate I zero client ident updateFunc opts obj0 isRetry w =
     (case updateFunc obj0 isRetry w of
        (Inl e, w1) \<Rightarrow> ((zero, Some e), w1)
      | (Inr obj, w1) \<Rightarrow>
          if oi_ResourceVersion I obj = [] then ((zero, Some ErrMissingResourceVersion), w1)
          else cl_UpdateInto client ident obj
            \<lparr>uo_ResourceVersion = oi_ResourceVersion I obj, uo_Subresource = uo_Subresource opts,
             uo_DryRun = uo_DryRun opts\<rparr> w1)"

text \<open>The retry loop, with the retries left.\<close>

fun update_loop ::
  "'o object_iface \<Rightarrow> 's api \<Rightarrow> 'o \<Rightarrow> ('o, 's) client \<Rightarrow> resource_id \<Rightarrow>
   ('o \<Rightarrow> bool \<Rightarrow> 's \<Rightarrow> (go_error + 'o) \<times> 's) \<Rightarrow> UpdateOptions \<Rightarrow> nat \<Rightarrow>
   ('o \<times> go_error option) \<times> 's \<Rightarrow> (go_error + 'o) \<times> 's" where
  "update_loop I A zero client ident f opts left ((obj, None), w) = (Inr obj, w)"
| "update_loop I A zero client ident f opts 0 ((obj, Some e), w) = (Inl e, w)"
| "update_loop I A zero client ident f opts (Suc left) ((obj, Some e), w) =
     (if \<not> api_IsConflict A e then (Inl e, w)
      else (case cl_GetInto client ident obj w of
        ((obj1, Some e1), w1) \<Rightarrow> (Inl e1, w1)
      | ((obj1, None), w1) \<Rightarrow>
          update_loop I A zero client ident f opts left (doUpdate I zero client ident f opts obj1 True w1)))"

definition UpdateObject ::
  "'o object_iface \<Rightarrow> 's api \<Rightarrow> 'o \<Rightarrow> ('o \<Rightarrow> bool) \<Rightarrow> ('o, 's) client option \<Rightarrow> resource_id \<Rightarrow>
   ('o \<Rightarrow> bool \<Rightarrow> 's \<Rightarrow> (go_error + 'o) \<times> 's) option \<Rightarrow> UpdateOptions \<Rightarrow> 's \<Rightarrow> (go_error + 'o) \<times> 's" where
  "UpdateObject I A zero is_type client_opt ident updateFunc opts w =
     (case client_opt of
        None \<Rightarrow> (Inl (GoErr ''client must not be nil''), w)
      | Some client \<Rightarrow> (case updateFunc of
          None \<Rightarrow> (Inl (GoErr ''updateFunc must not be nil''), w)
        | Some f \<Rightarrow> (case cl_Get client ident w of
            ((raw, Some e), w1) \<Rightarrow> (Inl e, w1)
          | ((None, None), w1) \<Rightarrow> (Inl (GoErr ''unable to cast Object into provided type''), w1)
          | ((Some obj, None), w1) \<Rightarrow>
              if \<not> is_type obj then (Inl (GoErr ''unable to cast Object into provided type''), w1)
              else update_loop I A zero client ident f opts 2 (doUpdate I zero client ident f opts obj False w1))))"

section \<open>A server that pages\<close>

text \<open>
  The contract of a paging server: for a request it holds a fixed list of items; the empty token
  starts at the first, another token at the position it stands for; a page has some of the items
  from there, at least one if any is left, and its token is empty exactly when nothing is left,
  otherwise it stands for the position after the page. Requests do not change the items.
\<close>

definition serves ::
  "(ListOptions \<Rightarrow> 's \<Rightarrow> (go_error + 'o list_object) \<times> 's) \<Rightarrow> StoreListOptions \<Rightarrow> (string \<Rightarrow> nat) \<Rightarrow> 'o list \<Rightarrow>
   ('s \<Rightarrow> bool) \<Rightarrow> bool" where
  "serves fetch opts pos items ok \<longleftrightarrow> pos [] = 0 \<and>
     (\<forall>tok w. ok w \<longrightarrow> pos tok \<le> length items \<longrightarrow>
        (\<exists>page w1 k. fetch (list_options opts tok) w = (Inr page, w1) \<and> ok w1 \<and>
           li_Items page = take k (drop (pos tok) items) \<and>
           (pos tok < length items \<longrightarrow> 0 < k) \<and>
           (if pos tok + k < length items then li_Continue page \<noteq> [] \<and> pos (li_Continue page) = pos tok + k
            else li_Continue page = [])))"

lemma servesD:
  assumes "serves fetch opts pos items ok" "ok w" "pos tok \<le> length items"
  shows "\<exists>page w1 k. fetch (list_options opts tok) w = (Inr page, w1) \<and> ok w1 \<and>
    li_Items page = take k (drop (pos tok) items) \<and> (pos tok < length items \<longrightarrow> 0 < k) \<and>
    (if pos tok + k < length items then li_Continue page \<noteq> [] \<and> pos (li_Continue page) = pos tok + k
     else li_Continue page = [])"
  using assms unfolding serves_def by blast

lemma list_loop_collects:
  assumes "serves fetch opts pos items ok" "ok w"
    and "li_Continue resp \<noteq> [] \<Longrightarrow> pos (li_Continue resp) < length items"
    and "li_Items resp = (if li_Continue resp = [] then items else take (pos (li_Continue resp)) items)"
  shows "\<exists>l w'. list_loop fetch opts resp w = Some (Inr l, w') \<and> li_Items l = items \<and> li_Continue l = [] \<and> ok w'"
  using assms(2-)
proof (induction "if li_Continue resp = [] then 0 else length items - pos (li_Continue resp)"
    arbitrary: resp w rule: less_induct)
  case less
  show ?case
  proof (cases "li_Continue resp = []")
    case True
    with less.prems show ?thesis by (auto simp: list_loop.simps)
  next
    case False
    let ?p = "pos (li_Continue resp)"
    from False less.prems have p: "?p < length items" by blast
    obtain page w1 k where
      page: "fetch (list_options opts (li_Continue resp)) w = (Inr page, w1)" "ok w1"
        "li_Items page = take k (drop ?p items)" "0 < k"
        "if ?p + k < length items then li_Continue page \<noteq> [] \<and> pos (li_Continue page) = ?p + k
         else li_Continue page = []"
      using servesD [OF assms(1) less.prems(1) less_imp_le [OF p]] p by blast
    let ?resp = "\<lparr>li_Continue = li_Continue page, li_ResourceVersion = li_ResourceVersion page,
      li_Items = li_Items resp @ li_Items page\<rparr>"
    have "list_loop fetch opts resp w = list_loop fetch opts ?resp w1"
      using False page(1) by (subst list_loop.simps) simp
    moreover have "\<exists>l w'. list_loop fetch opts ?resp w1 = Some (Inr l, w') \<and> li_Items l = items \<and> li_Continue l = [] \<and> ok w'"
    proof (rule less.hyps)
      show "ok w1" by (rule page(2))
      show "pos (li_Continue ?resp) < length items" if "li_Continue ?resp \<noteq> []"
        using page(5) that by (auto split: if_splits)
      show "li_Items ?resp = (if li_Continue ?resp = [] then items else take (pos (li_Continue ?resp)) items)"
        using page(3,5) p less.prems(3) False by (auto simp: take_add split: if_splits)
      show "(if li_Continue ?resp = [] then 0 else length items - pos (li_Continue ?resp)) <
          (if li_Continue resp = [] then 0 else length items - ?p)"
        using page(4,5) p False by (auto split: if_splits)
    qed
    ultimately show ?thesis by simp
  qed
qed

lemma list_all_collects:
  assumes serves: "serves fetch opts pos items ok" and "ok w"
  shows "\<exists>l w'. list_all fetch opts w = Some (Inr l, w') \<and> li_Items l = items \<and> li_Continue l = []"
proof -
  obtain page w1 k where
    page: "fetch (list_options opts []) w = (Inr page, w1)" "ok w1" "li_Items page = take k items"
      "if k < length items then li_Continue page \<noteq> [] \<and> pos (li_Continue page) = k else li_Continue page = []"
    using servesD [OF assms, of "[]"] serves by (auto simp: serves_def)
  have "\<exists>l w'. list_loop fetch opts page w1 = Some (Inr l, w') \<and> li_Items l = items \<and> li_Continue l = [] \<and> ok w'"
    by (rule list_loop_collects [OF serves page(2)]) (use page(3,4) in \<open>auto split: if_splits\<close>)
  with page(1) show ?thesis by (auto simp: list_all_def)
qed

text \<open>A paging server for the witness: tokens are strings as long as the position, pages have the limit's size.\<close>

definition paging :: "'o list \<Rightarrow> ListOptions \<Rightarrow> unit \<Rightarrow> (go_error + 'o list_object) \<times> unit" where
  "paging items opts w =
     (let i = length (lo_Continue opts); k = nat (max 1 (lo_Limit opts))
      in (Inr \<lparr>li_Continue = (if i + k < length items then replicate (i + k) CHR ''x'' else []),
               li_ResourceVersion = ''7'', li_Items = take k (drop i items)\<rparr>, w))"

lemma paging_serves: "serves (paging items) opts length items (\<lambda>w. True)"
  unfolding serves_def
proof (intro conjI allI impI)
  fix tok :: string and w :: unit
  let ?i = "length tok" and ?k = "nat (max 1 (slo_PerPage opts))"
  let ?page = "\<lparr>li_Continue = (if ?i + ?k < length items then replicate (?i + ?k) CHR ''x'' else []),
    li_ResourceVersion = ''7'', li_Items = take ?k (drop ?i items)\<rparr>"
  have run: "paging items (list_options opts tok) w = (Inr ?page, w)"
    by (simp only: paging_def list_options_def Let_def ListOptions.select_convs)
  show "\<exists>page w1 k. paging items (list_options opts tok) w = (Inr page, w1) \<and> True \<and>
      li_Items page = take k (drop ?i items) \<and> (?i < length items \<longrightarrow> 0 < k) \<and>
      (if ?i + k < length items then li_Continue page \<noteq> [] \<and> length (li_Continue page) = ?i + k
       else li_Continue page = [])"
    by (rule exI [of _ ?page], rule exI [of _ w], rule exI [of _ ?k], intro conjI, rule run)
      (auto simp: less_max_iff_disj)
qed simp

text \<open>
  C21. \<open>List\<close> on a paging server always ends and returns every item exactly once, in the server's
  order, with no continue token left, whatever the sizes of the pages.
\<close>

theorem Store_List_complete:
  assumes "getClient s kind = Inr client"
    and "serves (cl_List client (slo_Namespace opts)) opts pos items ok" and "ok w"
  shows "\<exists>l w'. Store_List s kind opts w = Some (Inr l, w') \<and> li_Items l = items \<and> li_Continue l = []"
  using list_all_collects [OF assms(2,3)] assms(1) by (simp add: Store_List_def)

definition sample_client :: "(nat, unit) client" where
  "sample_client =
     \<lparr>cl_Get = (\<lambda>i w. ((None, None), w)), cl_GetInto = (\<lambda>i ob w. ((ob, None), w)),
      cl_Create = (\<lambda>i ob w. (Inr ob, w)), cl_Update = (\<lambda>i ob opts w. (Inr ob, w)),
      cl_UpdateInto = (\<lambda>i ob opts w. ((ob, None), w)), cl_Delete = (\<lambda>i w. (None, w)),
      cl_List = (\<lambda>ns. paging [10, 20, 30, 40, 50])\<rparr>"

definition sample_schema :: schema where
  "sample_schema = \<lparr>sch_Group = ''g'', sch_Version = ''v1'', sch_Kind = ''Foo'', sch_Plural = ''foos''\<rparr>"

definition sample_options :: StoreListOptions where
  "sample_options = \<lparr>slo_Namespace = ''ns'', slo_PerPage = 2, slo_Filters = [], slo_FieldSelectors = []\<rparr>"

theorem Store_List_complete_witness:
  "\<exists>l. Store_List (NewStore (\<lambda>sch. Inr sample_client) [[sample_schema]]) ''Foo'' sample_options () = Some (Inr l, ()) \<and>
     li_Items l = [10, 20, 30, 40, 50]"
proof -
  have "getClient (NewStore (\<lambda>sch. Inr sample_client) [[sample_schema]]) ''Foo'' = Inr sample_client"
    by (simp add: getClient_def NewStore_def RegisterGroup_def Register_def sample_schema_def)
  moreover have "serves (cl_List sample_client (slo_Namespace sample_options)) sample_options length [10, 20, 30, 40, 50] (\<lambda>w. True)"
    using paging_serves by (simp add: sample_client_def)
  ultimately have "\<exists>l w'. Store_List (NewStore (\<lambda>sch. Inr sample_client) [[sample_schema]]) ''Foo'' sample_options () =
      Some (Inr l, w') \<and> li_Items l = [10, 20, 30, 40, 50] \<and> li_Continue l = []"
    by (rule Store_List_complete) simp
  then show ?thesis by auto
qed

section \<open>Updates on a server with resource versions\<close>

text \<open>
  A server keeps the versions of every object, the newest first, with distinct resource versions.
  Requests and the update function only add versions, their own or those of other writers; a first read returns
  the newest. An update that names one of the versions and succeeds named the newest, and put its object, up to the fields
  the server manages, right on top of it, or added nothing when it changed nothing. \<open>content\<close> is the object without
  those fields.
\<close>

definition occ_laws ::
  "'o object_iface \<Rightarrow> ('o, 's) client \<Rightarrow> resource_id \<Rightarrow> ('s \<Rightarrow> 'o list) \<Rightarrow> ('o \<Rightarrow> 'c) \<Rightarrow> bool" where
  "occ_laws I c ident vs content \<longleftrightarrow>
     (\<forall>w. distinct (map (oi_ResourceVersion I) (vs w))) \<and>
     (\<forall>w ob w'. cl_Get c ident w = ((Some ob, None), w') \<longrightarrow> vs w' \<noteq> [] \<and> hd (vs w') = ob) \<and>
     (\<forall>w obj opts ob e w'. cl_UpdateInto c ident obj opts w = ((ob, e), w') \<longrightarrow> suffix (vs w) (vs w')) \<and>
     (\<forall>w obj opts ob w'. cl_UpdateInto c ident obj opts w = ((ob, None), w') \<and>
        uo_ResourceVersion opts \<noteq> [] \<and> uo_ResourceVersion opts \<in> oi_ResourceVersion I ` set (vs w) \<and> uo_Subresource opts = [] \<and> \<not> uo_DryRun opts \<longrightarrow>
        (\<exists>top cur rest. (vs w' = top # cur # rest \<or> vs w' = top # rest \<and> cur = top) \<and>
           oi_ResourceVersion I cur = uo_ResourceVersion opts \<and> content top = content obj))"

text \<open>
  A client that replaces the object it is given by the newest version. A client whose codec decodes into the object as it
  is, as the SDK's JSON codec does, does not: what the answer leaves out stays.
\<close>

definition replacing_reads :: "('o, 's) client \<Rightarrow> resource_id \<Rightarrow> ('s \<Rightarrow> 'o list) \<Rightarrow> bool" where
  "replacing_reads c ident vs \<longleftrightarrow>
     (\<forall>w into ob w'. cl_GetInto c ident into w = ((ob, None), w') \<longrightarrow> vs w' \<noteq> [] \<and> hd (vs w') = ob) \<and>
     (\<forall>w obj opts ob w'. cl_UpdateInto c ident obj opts w = ((ob, None), w') \<and>
        uo_ResourceVersion opts \<noteq> [] \<and> uo_Subresource opts = [] \<and> \<not> uo_DryRun opts \<longrightarrow> vs w' \<noteq> [] \<and> hd (vs w') = ob)"

text \<open>The update function keeps the resource version and removes no version of the object.\<close>

definition polite ::
  "'o object_iface \<Rightarrow> ('s \<Rightarrow> 'o list) \<Rightarrow> ('o \<Rightarrow> bool \<Rightarrow> 's \<Rightarrow> (go_error + 'o) \<times> 's) \<Rightarrow> bool" where
  "polite I vs f \<longleftrightarrow>
     (\<forall>ob b w r w'. f ob b w = (r, w') \<longrightarrow> suffix (vs w) (vs w') \<and>
        (\<forall>ob'. r = Inr ob' \<longrightarrow> oi_ResourceVersion I ob' = oi_ResourceVersion I ob))"

text \<open>
  What a successful update has done: the newest version is its object, made from the version right below it; or the
  update function changed nothing about the newest version, which stayed.
\<close>

definition made_from_previous ::
  "('s \<Rightarrow> 'o list) \<Rightarrow> ('o \<Rightarrow> 'c) \<Rightarrow> ('o \<Rightarrow> bool \<Rightarrow> 's \<Rightarrow> (go_error + 'o) \<times> 's) \<Rightarrow> 'o \<Rightarrow> 's \<Rightarrow> bool" where
  "made_from_previous vs content f ob w' \<longleftrightarrow>
     (\<exists>cur rest isRetry w1 w2 upd. (vs w' = ob # cur # rest \<or> vs w' = ob # rest \<and> cur = ob) \<and>
        f cur isRetry w1 = (Inr upd, w2) \<and> content ob = content upd)"

lemma occ_same_version:
  assumes "occ_laws I c ident vs content" "a \<in> set (vs w)" "b \<in> set (vs w)"
    "oi_ResourceVersion I a = oi_ResourceVersion I b"
  shows "a = b"
proof -
  from assms(1) have "distinct (map (oi_ResourceVersion I) (vs w))" by (simp add: occ_laws_def)
  with assms(2-) show ?thesis by (auto simp: distinct_map inj_on_def)
qed

lemma doUpdate_made:
  assumes laws: "occ_laws I c ident vs content" and reads: "replacing_reads c ident vs"
    and polite: "polite I vs f" and read: "cur \<in> set (vs w)"
    and opts: "uo_Subresource opts = []" "\<not> uo_DryRun opts"
    and run: "doUpdate I zero c ident f opts cur b w = ((ob, None), w')"
  shows "made_from_previous vs content f ob w'"
proof -
  obtain r w1 where f: "f cur b w = (r, w1)" by fastforce
  with run obtain upd where r: "r = Inr upd" and rv: "oi_ResourceVersion I upd \<noteq> []"
    and w': "cl_UpdateInto c ident upd \<lparr>uo_ResourceVersion = oi_ResourceVersion I upd, uo_Subresource = uo_Subresource opts,
       uo_DryRun = uo_DryRun opts\<rparr> w1 = ((ob, None), w')"
    by (auto simp: doUpdate_def split: sum.splits if_splits)
  from polite f r have grown: "suffix (vs w) (vs w1)" and same: "oi_ResourceVersion I upd = oi_ResourceVersion I cur"
    unfolding polite_def by blast+
  from laws w' have more: "suffix (vs w1) (vs w')" unfolding occ_laws_def by blast
  from read grown have "cur \<in> set (vs w1)" by (auto simp: suffix_def)
  then have "oi_ResourceVersion I upd \<in> oi_ResourceVersion I ` set (vs w1)" using same by simp
  then have "\<exists>top prev rest. (vs w' = top # prev # rest \<or> vs w' = top # rest \<and> prev = top) \<and>
      oi_ResourceVersion I prev = oi_ResourceVersion I upd \<and> content top = content upd"
    using laws w' opts rv unfolding occ_laws_def by fastforce
  then obtain top prev rest where top: "vs w' = top # prev # rest \<or> vs w' = top # rest \<and> prev = top"
    "oi_ResourceVersion I prev = oi_ResourceVersion I upd" "content top = content upd" by blast
  have "hd (vs w') = ob" using reads w' opts rv unfolding replacing_reads_def by fastforce
  with top(1) have ob: "top = ob" by auto
  from read grown more have "cur \<in> set (vs w')" by (auto simp: suffix_def)
  moreover from top(1) have "prev \<in> set (vs w')" by auto
  ultimately have "prev = cur" using top(2) same by (intro occ_same_version [OF laws, of _ w']) auto
  with top f r ob show ?thesis unfolding made_from_previous_def by blast
qed

lemma update_loop_made:
  assumes laws: "occ_laws I c ident vs content" and reads: "replacing_reads c ident vs" and polite: "polite I vs f"
    and opts: "uo_Subresource opts = []" "\<not> uo_DryRun opts"
    and first: "\<And>ob. r = ((ob, None), w1) \<Longrightarrow> made_from_previous vs content f ob w1" and w1: "snd r = w1"
    and run: "update_loop I A zero c ident f opts left r = (Inr ob, w')"
  shows "made_from_previous vs content f ob w'"
  using first w1 run
proof (induction left arbitrary: r w1)
  case 0
  then show ?case by (cases r; cases "fst r"; cases "snd (fst r)") auto
next
  case (Suc left)
  obtain o1 e1 where r: "r = ((o1, e1), w1)" using Suc.prems(2) by (metis prod.exhaust_sel)
  show ?case
  proof (cases e1)
    case None
    with Suc.prems r show ?thesis by simp
  next
    case (Some e)
    obtain o2 e2 w2 where get: "cl_GetInto c ident o1 w1 = ((o2, e2), w2)" by (metis prod.exhaust)
    with Suc.prems(3) r Some have e2: "e2 = None"
      and go: "update_loop I A zero c ident f opts left (doUpdate I zero c ident f opts o2 True w2) = (Inr ob, w')"
      by (auto split: if_splits option.splits)
    from reads get e2 have read: "o2 \<in> set (vs w2)" unfolding replacing_reads_def by fastforce
    show ?thesis
      by (rule Suc.IH [OF _ refl go]) (use doUpdate_made [OF laws reads polite read opts] in \<open>auto simp: prod_eq_iff\<close>)
  qed
qed

text \<open>
  C22. With a client whose reads replace the object they are given, \<open>UpdateObject\<close> never loses another writer's change:
  when it succeeds, the object now stored was made by the update function from the version directly below it, the one
  current at the moment of the write, even if other writers changed the object between its reads and its writes; or the
  function changed nothing about the current version and nothing was added.
\<close>

theorem UpdateObject_no_lost_update:
  assumes laws: "occ_laws I client ident vs content" and reads: "replacing_reads client ident vs" and polite: "polite I vs f"
    and opts: "uo_Subresource opts = []" "\<not> uo_DryRun opts"
    and run: "UpdateObject I A zero is_type (Some client) ident (Some f) opts w = (Inr ob, w')"
  shows "made_from_previous vs content f ob w'"
proof -
  from run obtain cur w1 where get: "cl_Get client ident w = ((Some cur, None), w1)"
    and go: "update_loop I A zero client ident f opts 2 (doUpdate I zero client ident f opts cur False w1) = (Inr ob, w')"
    by (auto simp: UpdateObject_def split: prod.splits option.splits if_splits)
  from laws get have read: "cur \<in> set (vs w1)" unfolding occ_laws_def by fastforce
  show ?thesis
    by (rule update_loop_made [OF laws reads polite opts _ refl go])
      (use doUpdate_made [OF laws reads polite read opts] in \<open>auto simp: prod_eq_iff\<close>)
qed

text \<open>
  A server for the witness: an object is a resource version and a number, the state is the numbers
  stored so far, the newest first, and the writes of somebody else that come before the next
  updates. A version is named by how many came before it.
\<close>

fun versions :: "nat list \<Rightarrow> (string \<times> nat) list" where
  "versions [] = []"
| "versions (x # xs) = (replicate (Suc (length xs)) CHR ''x'', x) # versions xs"

lemma versions_short: "v \<in> set (versions xs) \<Longrightarrow> length (fst v) \<le> length xs"
  by (induction xs) auto

lemma versions_distinct: "distinct (map fst (versions xs))"
proof (induction xs)
  case (Cons x xs)
  have "replicate (Suc (length xs)) CHR ''x'' \<notin> fst ` set (versions xs)"
    using versions_short [of _ xs] by fastforce
  with Cons show ?case by simp
qed simp

fun foreign :: "nat list \<times> nat list \<Rightarrow> nat list \<times> nat list" where
  "foreign (xs, []) = (xs, [])"
| "foreign (xs, y # ys) = (y # xs, ys)"

definition vstate :: "nat list \<times> nat list \<Rightarrow> (string \<times> nat) list" where
  "vstate w = versions (fst w)"

definition number_iface :: "(string \<times> nat) object_iface" where
  "number_iface = \<lparr>oi_Static = (\<lambda>ob. \<lparr>sm_Group = [], sm_Version = [], sm_Kind = [], sm_Namespace = [], sm_Name = []\<rparr>),
     oi_Namespace = (\<lambda>ob. []), oi_Name = (\<lambda>ob. []), oi_ResourceVersion = fst, oi_touch = (\<lambda>t ob. ob)\<rparr>"

definition number_client :: "(string \<times> nat, nat list \<times> nat list) client" where
  "number_client =
     \<lparr>cl_Get = (\<lambda>i w. (case vstate w of [] \<Rightarrow> (None, Some (External 404 ''not found'')) | v # vs \<Rightarrow> (Some v, None), w)),
      cl_GetInto = (\<lambda>i ob w. (case vstate w of [] \<Rightarrow> (ob, Some (External 404 ''not found'')) | v # vs \<Rightarrow> (v, None), w)),
      cl_Create = (\<lambda>i ob w. (Inl (GoErr ''unused''), w)), cl_Update = (\<lambda>i ob opts w. (Inl (GoErr ''unused''), w)),
      cl_UpdateInto = (\<lambda>i ob opts w.
        (let w1 = foreign w
         in if vstate w1 \<noteq> [] \<and> fst (hd (vstate w1)) = uo_ResourceVersion opts
            then ((hd (versions (snd ob # fst w1)), None), (snd ob # fst w1, snd w1))
            else ((ob, Some (External 409 ''conflict'')), w1))),
      cl_Delete = (\<lambda>i w. (None, w)), cl_List = (\<lambda>ns opts w. (Inl (GoErr ''unused''), w))\<rparr>"

definition add_one :: "string \<times> nat \<Rightarrow> bool \<Rightarrow> 's \<Rightarrow> (go_error + string \<times> nat) \<times> 's" where
  "add_one ob isRetry w = (Inr (fst ob, Suc (snd ob)), w)"

definition status_api :: "'s api" where
  "status_api = \<lparr>api_IsNotFound = (\<lambda>e. e = External 404 ''not found''),
     api_IsConflict = (\<lambda>e. e = External 409 ''conflict''), api_now = (\<lambda>w. 0)\<rparr>"

lemma foreign_suffix: "suffix (vstate w) (vstate (foreign w))"
  by (cases w rule: foreign.cases) (auto simp: vstate_def suffix_def)

lemma number_occ:
  "occ_laws number_iface number_client ident vstate snd" "replacing_reads number_client ident vstate"
proof -
  have upd: "cl_UpdateInto number_client ident obj opts w =
      (if vstate (foreign w) \<noteq> [] \<and> fst (hd (vstate (foreign w))) = uo_ResourceVersion opts
       then ((hd (versions (snd obj # fst (foreign w))), None), (snd obj # fst (foreign w), snd (foreign w)))
       else ((obj, Some (External 409 ''conflict'')), foreign w))" for obj opts w
    by (simp add: number_client_def Let_def)
  have grow: "suffix (vstate w) (vstate w')" if "cl_UpdateInto number_client ident obj opts w = ((ob, e), w')" for w obj opts ob e w'
    using that foreign_suffix [of w] unfolding upd
    by (auto simp: vstate_def split: if_splits intro: suffix_ConsI)
  have put: "\<exists>cur rest. vstate w' = ob # cur # rest \<and> fst cur = uo_ResourceVersion opts \<and> snd ob = snd obj"
    if "cl_UpdateInto number_client ident obj opts w = ((ob, None), w')" for w obj opts ob w'
    using that unfolding upd
    by (cases "vstate (foreign w)") (auto simp: vstate_def split: if_splits)
  have rv: "oi_ResourceVersion number_iface = fst" by (simp add: number_iface_def)
  have "distinct (map fst (vstate w))" for w by (simp add: vstate_def versions_distinct)
  moreover have "vstate w' \<noteq> [] \<and> hd (vstate w') = ob" if "cl_Get number_client ident w = ((Some ob, None), w')" for w ob w'
    using that by (auto simp: number_client_def split: list.splits)
  ultimately show "occ_laws number_iface number_client ident vstate snd"
    unfolding occ_laws_def rv using grow
  proof (intro conjI allI impI, goal_cases)
    case (5 w obj opts ob w')
    then show ?case using put by meson
  qed blast+
  have "vstate w' \<noteq> [] \<and> hd (vstate w') = ob" if "cl_GetInto number_client ident into w = ((ob, None), w')" for w into ob w'
    using that by (auto simp: number_client_def split: list.splits)
  then show "replacing_reads number_client ident vstate"
    unfolding replacing_reads_def using put by (metis list.sel(1) list.distinct(1))
qed

theorem UpdateObject_no_lost_update_witness:
  "let run = UpdateObject number_iface status_api ([], 0) (\<lambda>ob. True) (Some number_client)
         \<lparr>id_Namespace = [], id_Name = []\<rparr> (Some add_one) no_UpdateOptions ([5], [50])
   in run = (Inr (''xxx'', 51), ([51, 50, 5], [])) \<and>
      made_from_previous vstate snd add_one (''xxx'', 51) (snd run)"
proof -
  have run: "UpdateObject number_iface status_api ([], 0) (\<lambda>ob. True) (Some number_client)
      \<lparr>id_Namespace = [], id_Name = []\<rparr> (Some add_one) no_UpdateOptions ([5], [50]) =
    (Inr (''xxx'', 51), ([51, 50, 5], []))"
    by (simp add: UpdateObject_def doUpdate_def number_client_def vstate_def add_one_def number_iface_def status_api_def
        Let_def eval_nat_numeral)
  have "polite number_iface vstate add_one" by (auto simp: polite_def add_one_def number_iface_def)
  from UpdateObject_no_lost_update [OF number_occ this _ _ run] run show ?thesis by simp
qed

text \<open>
  An upsert of an existing object through \<open>TypedStore\<close> is unconditional: the update it sends
  names no resource version, whatever the object's own is, so it replaces any newer state. An
  update of an object without a resource version is refused before any request is made.
\<close>

lemma Typed_Upsert_unconditional:
  "(cl_Get (ts_client t) ident w = ((Some cur, None), w1) \<longrightarrow>
      Typed_Upsert I A t ident obj w =
        cast_result t (cl_Update (ts_client t) ident (oi_touch I (api_now A w1) obj)
          \<lparr>uo_ResourceVersion = [], uo_Subresource = [], uo_DryRun = False\<rparr> w1)) \<and>
   (oi_ResourceVersion I (oi_touch I (api_now A w) obj) = [] \<longrightarrow>
      Typed_Update I A t ident obj w = (Inl ErrMissingResourceVersion, w))"
  by (simp add: Typed_Upsert_def Typed_Update_def)

end
