(* ===== verification/Schema_Resolution.thy ===== *)
theory Schema_Resolution
  imports Typed_Objects Version_Schema
begin

text \<open>
  From \<^verbatim>\<open>app/manifest.go\<close>: \<open>GetCRDOpenAPISchema\<close>, which turns a kind's OpenAPI schema into a structural one
  for a CRD. Every reference is replaced by what it refers to, a reference that leads back into itself by
  an object that keeps unknown fields, and \<^verbatim>\<open>allOf\<close>, \<^verbatim>\<open>oneOf\<close> and \<^verbatim>\<open>anyOf\<close> by a merge of their
  schemas with the required fields kept apart.

  The source is a \<open>sref\<close>, as the third-party loader returns it; the result is a \<open>rschema\<close>, which has no
  constructor for a reference. Fields that are only copied are the type \<open>'b\<close>. Two methods of the
  third-party type set, \<^verbatim>\<open>Is\<close> and \<^verbatim>\<open>Permits\<close>, are parameters.
\<close>

section \<open>Schemas\<close>

text \<open>
  A reference has the string it was written with and the required fields of the value the loader has
  attached to it. The map of properties may be nil.
\<close>

datatype 'b sref = RefTo string "string list" | Inline "'b sschema"
and 'b sschema = SSchema (sv_base: 'b) (sv_type: "string list option") (sv_required: "string list")
    (sv_has: "bool option") (sv_addl: "'b sref option") (sv_props: "(string \<times> 'b sref) list option")
    (sv_items: "'b sref option") (sv_allOf: "'b sref list") (sv_oneOf: "'b sref list") (sv_anyOf: "'b sref list")

text \<open>
  In a result the only extension is \<^verbatim>\<open>x-kubernetes-preserve-unknown-fields\<close>, and the schemas of \<^verbatim>\<open>allOf\<close>
  and \<^verbatim>\<open>anyOf\<close> have required fields only, those of \<^verbatim>\<open>oneOf\<close> also fields that must not be required.
\<close>

datatype 'b rschema = RSchema (rs_base: 'b) (rs_type: "string list option") (rs_required: "string list")
    (rs_has: "bool option") (rs_addl: "'b rschema option") (rs_props: "(string \<times> 'b rschema) list option")
    (rs_items: "'b rschema option") (rs_allOf: "string list list") (rs_oneOf: "(string list \<times> string list) list")
    (rs_anyOf: "string list list") (rs_preserve: bool)

record 'b type_env =
  te_is :: "string list option \<Rightarrow> string \<Rightarrow> bool"
  te_permits :: "string list \<Rightarrow> string \<Rightarrow> bool"
  te_zero :: 'b

definition TypeObject :: string where
  "TypeObject = ''object''"

definition getRefName :: "string \<Rightarrow> string" where
  "getRefName ref = last (split_on CHR ''/'' ref)"

text \<open>An empty object that keeps unknown fields, for a cycle.\<close>

definition cycle_schema :: "'b type_env \<Rightarrow> 'b rschema" where
  "cycle_schema T = RSchema (te_zero T) (Some [TypeObject]) [] None None None None [] [] [] True"

section \<open>Merging\<close>

definition merge_types :: "'b type_env \<Rightarrow> string list option \<Rightarrow> string list option \<Rightarrow> string list option" where
  "merge_types T into toMerge = (case into of
     None \<Rightarrow> toMerge
   | Some ts \<Rightarrow> Some (foldl (\<lambda>ts typ. if ts = [] \<or> \<not> te_permits T ts typ then ts @ [typ] else ts) ts
       (case toMerge of None \<Rightarrow> [] | Some us \<Rightarrow> us)))"

definition merge_has :: "bool option \<Rightarrow> bool option \<Rightarrow> bool option" where
  "merge_has into toMerge = (case (into, toMerge) of
     (None, x) \<Rightarrow> x
   | (Some a, None) \<Rightarrow> Some a
   | (Some a, Some b) \<Rightarrow> if \<not> a \<and> b then Some b else Some a)"

text \<open>Results are passed on in sequence, errors with a message in front.\<close>

definition obind :: "'a outcome \<Rightarrow> ('a \<Rightarrow> 'c outcome) \<Rightarrow> 'c outcome" where
  "obind m f = (case m of Returned x \<Rightarrow> f x | Failed e \<Rightarrow> Failed e | Panicked x \<Rightarrow> Panicked x)"

lemma obind_cong [fundef_cong]:
  "m = m' \<Longrightarrow> (\<And>x. m' = Returned x \<Longrightarrow> f x = f' x) \<Longrightarrow> obind m f = obind m' f'"
  by (auto simp: obind_def split: outcome.split)

lemma obind_simps [simp]:
  "obind (Returned x) f = f x" "obind (Failed e) f = Failed e" "obind (Panicked y) f = Panicked y"
  by (simp_all add: obind_def)

lemma obind_Returned: "obind m f = Returned y \<longleftrightarrow> (\<exists>x. m = Returned x \<and> f x = Returned y)"
  by (simp add: obind_def split: outcome.split)

definition wrap_error :: "string \<Rightarrow> 'a outcome \<Rightarrow> 'a outcome" where
  "wrap_error msg m = (case m of Failed e \<Rightarrow> Failed (Wrapped msg e) | _ \<Rightarrow> m)"

lemma wrap_error_of_Returned [simp]: "wrap_error msg (Returned x) = Returned x"
  by (simp add: wrap_error_def)

lemma wrap_error_Returned [simp]: "wrap_error msg m = Returned x \<longleftrightarrow> m = Returned x"
  by (simp add: wrap_error_def split: outcome.split)

text \<open>
  \<open>mergeSchemas\<close>, for schemas, optional schemas and maps of properties; comparing the types of two
  properties dereferences both.
\<close>

function merge :: "'b type_env \<Rightarrow> 'b rschema \<Rightarrow> 'b rschema \<Rightarrow> 'b rschema outcome"
  and merge_opt :: "'b type_env \<Rightarrow> 'b rschema option \<Rightarrow> 'b rschema option \<Rightarrow> 'b rschema option outcome"
  and merge_props :: "'b type_env \<Rightarrow> (string \<times> 'b rschema) list \<Rightarrow> (string \<times> 'b rschema) list \<Rightarrow>
    (string \<times> 'b rschema) list outcome" where
  "merge T i (RSchema mb mt mr mh ma mp mi mall mone many mpr) =
     obind (wrap_error ''failed to merge additionalProperties schema'' (merge_opt T (rs_addl i) ma)) (\<lambda>addl.
     obind (case mp of
              None \<Rightarrow> Returned (rs_props i)
            | Some ps \<Rightarrow> if ps = [] then Returned (rs_props i)
                         else map_outcome Some (merge_props T (case rs_props i of None \<Rightarrow> [] | Some qs \<Rightarrow> qs) ps)) (\<lambda>props.
     obind (wrap_error ''failed to merge items'' (merge_opt T (rs_items i) mi)) (\<lambda>items.
     Returned (RSchema (rs_base i) (merge_types T (rs_type i) mt) (rs_required i) (merge_has (rs_has i) mh)
       addl props items (rs_allOf i) (rs_oneOf i) (rs_anyOf i) (rs_preserve i \<or> mpr)))))"
| "merge_opt T x None = Returned x"
| "merge_opt T None (Some b) = Returned (Some b)"
| "merge_opt T (Some a) (Some b) = map_outcome Some (merge T a b)"
| "merge_props T qs [] = Returned qs"
| "merge_props T qs ((key, val) # ps) = (case map_of qs key of
     None \<Rightarrow> merge_props T (qs @ [(key, val)]) ps
   | Some present \<Rightarrow>
       if rs_type present = None \<or> rs_type val = None then Panicked ''nil pointer dereference''
       else if rs_type present = rs_type val then
         obind (wrap_error (''failed to merge properties key '' @ key) (merge T present val)) (\<lambda>r.
         merge_props T (AList.update key r qs) ps)
       else Failed (GoErr (''property '' @ key @ '' already defined'')))"
  by pat_completeness auto

termination
  by size_change

section \<open>Resolving\<close>

fun ref_required :: "'b sref \<Rightarrow> string list" where
  "ref_required (RefTo ref req) = req"
| "ref_required (Inline s) = sv_required s"

text \<open>
  \<^verbatim>\<open>additionalProperties\<close> for what a CRD expects: an empty or object schema without properties, and a plain
  \<^verbatim>\<open>true\<close>, become the extension; a plain \<^verbatim>\<open>false\<close> is dropped.
\<close>

definition fix_additional ::
  "'b type_env \<Rightarrow> bool option \<Rightarrow> 'b rschema option \<Rightarrow> bool option \<times> 'b rschema option \<times> bool" where
  "fix_additional T has addl = (case addl of
     Some r \<Rightarrow>
       if (rs_props r = None \<or> rs_props r = Some []) \<and> (te_is T (rs_type r) TypeObject \<or> rs_type r = None)
       then (None, None, True) else (has, Some r, False)
   | None \<Rightarrow> (None, None, has = Some True))"

text \<open>How a resolved branch is put into the result: the lists, and the fields a branch of \<^verbatim>\<open>oneOf\<close> lacks.\<close>

datatype branch_mode = AllOf | OneOf "string list" | AnyOf

fun add_branch :: "branch_mode \<Rightarrow> 'b rschema \<Rightarrow> 'b rschema \<Rightarrow> 'b rschema" where
  "add_branch AllOf r (RSchema b t req h a p i all one any pr) =
     RSchema b t req h a p i (all @ [rs_required r]) one any pr"
| "add_branch AnyOf r (RSchema b t req h a p i all one any pr) =
     RSchema b t req h a p i all one (any @ [rs_required r]) pr"
| "add_branch (OneOf allRequired) r (RSchema b t req h a p i all one any pr) =
     RSchema b t req h a p i all
       (one @ [(rs_required r, filter (\<lambda>v. map_of (case rs_props r of None \<Rightarrow> [] | Some ps \<Rightarrow> ps) v = None) allRequired)]) any pr"

fun no_required :: "'b rschema \<Rightarrow> 'b rschema" where
  "no_required (RSchema b t req h a p i all one any pr) = RSchema b t [] h a p i all one any pr"

fun schemaless :: "'b rschema \<Rightarrow> 'b rschema" where
  "schemaless (RSchema b t req h a p i all one any pr) = RSchema b None req h a p i all [] any True"

definition mode_name :: "branch_mode \<Rightarrow> string" where
  "mode_name mode = (case mode of AllOf \<Rightarrow> ''allOf'' | OneOf rs \<Rightarrow> ''oneOf'' | AnyOf \<Rightarrow> ''anyOf'')"

text \<open>How many components have not been entered yet.\<close>

definition unvisited :: "(string \<times> 'b sref) list \<Rightarrow> string set \<Rightarrow> nat" where
  "unvisited C V = length (filter (\<lambda>c. fst c \<notin> V) C)"

lemma unvisited_insert: "map_of C n = Some r \<Longrightarrow> n \<notin> V \<Longrightarrow> unvisited C (insert n V) < unvisited C V"
proof (induction C)
  case (Cons c C)
  have mono: "unvisited C (insert n V) \<le> unvisited C V"
    unfolding unvisited_def by (induction C) auto
  show ?case
  proof (cases "fst c = n")
    case True
    then show ?thesis using Cons.prems(2) mono by (simp add: unvisited_def)
  next
    case False
    then show ?thesis using Cons by (simp add: unvisited_def split: if_splits prod.splits)
  qed
qed simp

text \<open>
  \<open>resolveSchema\<close> with its loops. \<open>V\<close> is the set of visited references, which every call takes as a
  copy: only those on the way down count.
\<close>

function resolve :: "'b type_env \<Rightarrow> (string \<times> 'b sref) list \<Rightarrow> string set \<Rightarrow> 'b sref \<Rightarrow> 'b rschema outcome"
  and resolve_opt :: "'b type_env \<Rightarrow> (string \<times> 'b sref) list \<Rightarrow> string set \<Rightarrow> 'b sref option \<Rightarrow> 'b rschema option outcome"
  and resolve_props :: "'b type_env \<Rightarrow> (string \<times> 'b sref) list \<Rightarrow> string set \<Rightarrow> (string \<times> 'b sref) list \<Rightarrow>
    (string \<times> 'b rschema) list outcome"
  and resolve_into :: "'b type_env \<Rightarrow> (string \<times> 'b sref) list \<Rightarrow> string set \<Rightarrow> branch_mode \<Rightarrow> 'b sref list \<Rightarrow>
    'b rschema \<Rightarrow> 'b rschema outcome" where
  "resolve T C V (RefTo ref req) =
     (if getRefName ref \<in> V then Returned (cycle_schema T)
      else (case map_of C (getRefName ref) of
        None \<Rightarrow> Failed (GoErr (''referenced schema '' @ getRefName ref @ '' not found''))
      | Some r \<Rightarrow> wrap_error (''failed to resolve reference '' @ getRefName ref) (resolve T C (insert (getRefName ref) V) r)))"
| "resolve T C V (Inline (SSchema b t req h a p i all one any)) =
     obind (resolve_opt T C V a) (\<lambda>a'.
     obind (case p of None \<Rightarrow> Returned None | Some ps \<Rightarrow> map_outcome Some (resolve_props T C V ps)) (\<lambda>p'.
     obind (wrap_error ''failed to resolve array items'' (resolve_opt T C V i)) (\<lambda>i'.
     obind (case fix_additional T h a' of (h', a'', pr) \<Rightarrow>
       resolve_into T C V AllOf all (RSchema b t req h' a'' p' i' [] [] [] pr)) (\<lambda>r1.
     if one \<noteq> [] \<and> concat (map ref_required one) = [] then Returned (schemaless r1)
     else obind (resolve_into T C V (OneOf (concat (map ref_required one))) one r1) (\<lambda>r2.
       resolve_into T C V AnyOf any r2)))))"
| "resolve_opt T C V None = Returned None"
| "resolve_opt T C V (Some s) = map_outcome Some (resolve T C V s)"
| "resolve_props T C V [] = Returned []"
| "resolve_props T C V ((name, s) # ps) =
     obind (wrap_error (''failed to resolve property '' @ name) (resolve T C V s)) (\<lambda>r.
     map_outcome (Cons (name, r)) (resolve_props T C V ps))"
| "resolve_into T C V mode [] acc = Returned acc"
| "resolve_into T C V mode (s # ss) acc =
     obind (wrap_error (''failed to resolve '' @ mode_name mode @ '' schema'') (resolve T C V s)) (\<lambda>r.
     obind (wrap_error ''failed to merge anyOf schemas'' (merge T (add_branch mode r acc) (no_required r))) (\<lambda>acc'.
     resolve_into T C V mode ss acc'))"
  by pat_completeness auto

termination
  by (relation "measures [\<lambda>x. case x of
       Inl (Inl (T, C, V, s)) \<Rightarrow> unvisited C V
     | Inl (Inr (T, C, V, s)) \<Rightarrow> unvisited C V
     | Inr (Inl (T, C, V, ps)) \<Rightarrow> unvisited C V
     | Inr (Inr (T, C, V, mode, ss, acc)) \<Rightarrow> unvisited C V,
     \<lambda>x. case x of
       Inl (Inl (T, C, V, s)) \<Rightarrow> size s
     | Inl (Inr (T, C, V, s)) \<Rightarrow> size_option size s
     | Inr (Inl (T, C, V, ps)) \<Rightarrow> size_list (size_prod (\<lambda>_. 0) size) ps
     | Inr (Inr (T, C, V, mode, ss, acc)) \<Rightarrow> size_list size ss]")
    (auto simp: unvisited_insert)

text \<open>
  Deleting properties of the schema of a name. The value of a reference is the object of the component it
  refers to, as the loader shares it, so the deletion in a reference is one in that component.
\<close>

function remove_props :: "string list \<Rightarrow> (string \<times> 'b sref) list \<Rightarrow> string set \<Rightarrow> string \<Rightarrow> (string \<times> 'b sref) list" where
  "remove_props names C V n = (case map_of C n of
     None \<Rightarrow> C
   | Some (RefTo ref req) \<Rightarrow> if n \<in> V then C else remove_props names C (insert n V) (getRefName ref)
   | Some (Inline (SSchema b t req h a p i all one any)) \<Rightarrow>
       AList.update n (Inline (SSchema b t req h a (map_option (filter (\<lambda>x. fst x \<notin> set names)) p) i all one any)) C)"
  by pat_completeness auto

termination
  by (relation "measure (\<lambda>(names, C, V, n). unvisited C V)") (auto simp: unvisited_insert)

declare remove_props.simps [simp del]

text \<open>\<open>GetCRDOpenAPISchema\<close> on components that are there.\<close>

definition GetCRDOpenAPISchema :: "'b type_env \<Rightarrow> (string \<times> 'b sref) list \<Rightarrow> string \<Rightarrow> 'b rschema outcome" where
  "GetCRDOpenAPISchema T C schemaName = (case map_of C schemaName of
     None \<Rightarrow> Failed (GoErr (''schema '' @ schemaName @ '' not found''))
   | Some s \<Rightarrow>
       (let C' = remove_props [''metadata'', ''kind'', ''apiVersion''] C {} schemaName
        in resolve T C' {} (case map_of C' schemaName of Some s' \<Rightarrow> s' | None \<Rightarrow> s)))"

text \<open>\<open>AsCRDOpenAPI3\<close>, on the components the loader made.\<close>

definition AsCRDOpenAPI3 :: "'b type_env \<Rightarrow> (string \<times> 'b sref) list \<Rightarrow> string \<Rightarrow> 'b rschema outcome" where
  "AsCRDOpenAPI3 T C kindObjectName =
     (if map_of C kindObjectName = None \<and> map_of C parsedCRDSchemaKindName = None
      then GetCRDOpenAPISchema T C parsedCRDSchemaKindName
      else GetCRDOpenAPISchema T C kindObjectName)"

section \<open>Depth\<close>

fun sdepth :: "'b sref \<Rightarrow> nat"
  and sdepth_opt :: "'b sref option \<Rightarrow> nat"
  and sdepth_props :: "(string \<times> 'b sref) list \<Rightarrow> nat"
  and sdepth_list :: "'b sref list \<Rightarrow> nat" where
  "sdepth (RefTo ref req) = 1"
| "sdepth (Inline (SSchema b t req h a p i all one any)) =
     Suc (max (sdepth_opt a) (max (case p of None \<Rightarrow> 0 | Some ps \<Rightarrow> sdepth_props ps)
       (max (sdepth_opt i) (max (sdepth_list all) (max (sdepth_list one) (sdepth_list any))))))"
| "sdepth_opt None = 0"
| "sdepth_opt (Some s) = sdepth s"
| "sdepth_props [] = 0"
| "sdepth_props ((n, s) # ps) = max (sdepth s) (sdepth_props ps)"
| "sdepth_list [] = 0"
| "sdepth_list (s # ss) = max (sdepth s) (sdepth_list ss)"

fun rdepth :: "'b rschema \<Rightarrow> nat"
  and rdepth_opt :: "'b rschema option \<Rightarrow> nat"
  and rdepth_props :: "(string \<times> 'b rschema) list \<Rightarrow> nat" where
  "rdepth (RSchema b t req h a p i all one any pr) =
     Suc (max (rdepth_opt a) (max (case p of None \<Rightarrow> 0 | Some ps \<Rightarrow> rdepth_props ps) (rdepth_opt i)))"
| "rdepth_opt None = 0"
| "rdepth_opt (Some s) = rdepth s"
| "rdepth_props [] = 0"
| "rdepth_props ((n, s) # ps) = max (rdepth s) (rdepth_props ps)"

definition max_depth :: "(string \<times> 'b sref) list \<Rightarrow> nat" where
  "max_depth C = Max (insert 0 (sdepth ` snd ` set C))"

lemma sdepth_component: "map_of C n = Some s \<Longrightarrow> sdepth s \<le> max_depth C"
proof -
  assume "map_of C n = Some s"
  then have "sdepth s \<in> sdepth ` snd ` set C"
    by (intro imageI) (metis map_of_SomeD image_eqI snd_conv)
  then show ?thesis unfolding max_depth_def by (intro Max_ge) auto
qed

lemma rdepth_def2: "rdepth r = Suc (max (rdepth_opt (rs_addl r))
    (max (case rs_props r of None \<Rightarrow> 0 | Some ps \<Rightarrow> rdepth_props ps) (rdepth_opt (rs_items r))))"
  by (cases r) simp

lemma rdepth_props_append [simp]: "rdepth_props (xs @ ys) = max (rdepth_props xs) (rdepth_props ys)"
  by (induction xs) auto

lemma rdepth_props_lookup: "map_of qs k = Some r \<Longrightarrow> rdepth r \<le> rdepth_props qs"
  by (induction qs) (auto split: if_splits)

lemma rdepth_props_update: "rdepth_props (AList.update k r qs) \<le> max (rdepth r) (rdepth_props qs)"
  by (induction qs) auto

lemma map_outcome_Returned: "map_outcome f m = Returned y \<longleftrightarrow> (\<exists>x. m = Returned x \<and> y = f x)"
  by (cases m) auto

lemma merge_depth:
  "merge T i m = Returned r \<Longrightarrow> rdepth r \<le> max (rdepth i) (rdepth m)"
  "merge_opt T io mo = Returned ro \<Longrightarrow> rdepth_opt ro \<le> max (rdepth_opt io) (rdepth_opt mo)"
  "merge_props T qs ps = Returned rs \<Longrightarrow> rdepth_props rs \<le> max (rdepth_props qs) (rdepth_props ps)"
proof (induction T i m and T io mo and T qs ps arbitrary: r and ro and rs rule: merge_merge_opt_merge_props.induct)
  case (1 T i mb mt mr mh ma mp mi mall mone many mpr)
  from "1.prems" obtain a p it where
    a: "merge_opt T (rs_addl i) ma = Returned a" and
    p: "(case mp of None \<Rightarrow> Returned (rs_props i)
          | Some ps \<Rightarrow> if ps = [] then Returned (rs_props i)
              else map_outcome Some (merge_props T (case rs_props i of None \<Rightarrow> [] | Some qs \<Rightarrow> qs) ps)) = Returned p" and
    it: "merge_opt T (rs_items i) mi = Returned it" and
    r: "rdepth r = Suc (max (rdepth_opt a) (max (case p of None \<Rightarrow> 0 | Some ps \<Rightarrow> rdepth_props ps) (rdepth_opt it)))"
    by (auto simp: obind_Returned)
  have "rdepth_opt a \<le> max (rdepth_opt (rs_addl i)) (rdepth_opt ma)"
    using a by (rule "1.IH"(1))
  moreover have "rdepth_opt it \<le> max (rdepth_opt (rs_items i)) (rdepth_opt mi)"
    using "1.IH"(3) [OF _ p it] a by simp
  moreover have "(case p of None \<Rightarrow> 0 | Some ps \<Rightarrow> rdepth_props ps) \<le>
      max (case rs_props i of None \<Rightarrow> 0 | Some ps \<Rightarrow> rdepth_props ps) (case mp of None \<Rightarrow> 0 | Some ps \<Rightarrow> rdepth_props ps)"
    using p "1.IH"(2) a
    by (fastforce simp: map_outcome_Returned split: option.splits if_splits)
  ultimately show ?case
    unfolding r rdepth_def2 [of i] by (simp add: max_def split: if_splits)
next
  case (6 T qs key val ps)
  show ?case
  proof (cases "map_of qs key")
    case None
    then show ?thesis using "6.IH"(1) [OF None] "6.prems" by simp
  next
    case (Some present)
    with "6.prems" obtain r where
      ok: "\<not> (rs_type present = None \<or> rs_type val = None)" "rs_type present = rs_type val" and
      r: "merge T present val = Returned r" and rs: "merge_props T (AList.update key r qs) ps = Returned rs"
      by (auto simp: obind_Returned split: if_splits)
    have "rdepth r \<le> max (rdepth_props qs) (rdepth val)"
      using "6.IH"(2) [OF Some ok r] rdepth_props_lookup [OF Some] by simp
    moreover have "rdepth_props rs \<le> max (rdepth_props (AList.update key r qs)) (rdepth_props ps)"
      by (rule "6.IH"(3) [OF Some ok _ rs]) (simp add: r)
    ultimately show ?thesis using rdepth_props_update [of key r qs] by simp
  qed
qed (auto simp: map_outcome_Returned)

lemma add_branch_depth [simp]: "rdepth (add_branch mode r acc) = rdepth acc"
  by (cases acc; cases mode) simp_all

lemma no_required_depth [simp]: "rdepth (no_required r) = rdepth r"
  by (cases r) simp

lemma schemaless_depth [simp]: "rdepth (schemaless r) = rdepth r"
  by (cases r) simp

lemma fix_additional_depth: "fix_additional T h a = (h', a', pr) \<Longrightarrow> rdepth_opt a' \<le> rdepth_opt a"
  by (auto simp: fix_additional_def split: option.splits if_splits)

text \<open>Every component is entered at most once on a way down, so cycles cannot nest a result further.\<close>

lemma resolve_depth:
  "resolve T C V s = Returned r \<Longrightarrow> rdepth r \<le> sdepth s + unvisited C V * max_depth C"
  "resolve_opt T C V so = Returned ro \<Longrightarrow> rdepth_opt ro \<le> sdepth_opt so + unvisited C V * max_depth C"
  "resolve_props T C V sp = Returned rp \<Longrightarrow> rdepth_props rp \<le> sdepth_props sp + unvisited C V * max_depth C"
  "resolve_into T C V mode ss acc = Returned ri \<Longrightarrow>
     rdepth ri \<le> max (rdepth acc) (sdepth_list ss + unvisited C V * max_depth C)"
proof (induction T C V s and T C V so and T C V sp and T C V mode ss acc
    arbitrary: r and ro and rp and ri rule: resolve_resolve_opt_resolve_props_resolve_into.induct)
  case (1 T C V ref req)
  show ?case
  proof (cases "getRefName ref \<in> V")
    case True
    then show ?thesis using "1.prems" by (auto simp: cycle_schema_def)
  next
    case new: False
    with "1.prems" obtain t where t: "map_of C (getRefName ref) = Some t"
      and r: "resolve T C (insert (getRefName ref) V) t = Returned r"
      by (auto split: option.splits)
    have "rdepth r \<le> max_depth C + unvisited C (insert (getRefName ref) V) * max_depth C"
      using "1.IH" [OF new t r] sdepth_component [OF t] by simp
    also have "\<dots> \<le> unvisited C V * max_depth C"
      using mult_le_mono1 [OF Suc_leI [OF unvisited_insert [OF t new]], of "max_depth C"] by simp
    finally show ?thesis by simp
  qed
next
  case (2 T C V b t req h a p i all one any)
  let ?B = "unvisited C V * max_depth C" and ?allReq = "concat (map ref_required one)"
  let ?props = "case p of None \<Rightarrow> Returned None | Some ps \<Rightarrow> map_outcome Some (resolve_props T C V ps)"
  from "2.prems" obtain a' p' i' r1 where
    a': "resolve_opt T C V a = Returned a'" and p': "?props = Returned p'" and
    i': "resolve_opt T C V i = Returned i'" and
    r1': "(case fix_additional T h a' of (h', a'', pr) \<Rightarrow>
      resolve_into T C V AllOf all (RSchema b t req h' a'' p' i' [] [] [] pr)) = Returned r1" and
    rest: "(if one \<noteq> [] \<and> ?allReq = [] then Returned (schemaless r1)
       else obind (resolve_into T C V (OneOf ?allReq) one r1) (resolve_into T C V AnyOf any)) = Returned r"
    unfolding resolve.simps obind_Returned wrap_error_Returned by blast
  obtain h' a'' pr where f: "fix_additional T h a' = (h', a'', pr)"
    by (metis prod_cases3)
  then have r1: "resolve_into T C V AllOf all (RSchema b t req h' a'' p' i' [] [] [] pr) = Returned r1"
    using r1' by simp
  have i2: "wrap_error ''failed to resolve array items'' (resolve_opt T C V i) = Returned i'"
    using i' by simp
  have "rdepth_opt a'' \<le> sdepth_opt a + ?B"
    using "2.IH"(1) [OF a'] fix_additional_depth [OF f] by simp
  moreover have "(case p' of None \<Rightarrow> 0 | Some ps \<Rightarrow> rdepth_props ps) \<le> (case p of None \<Rightarrow> 0 | Some ps \<Rightarrow> sdepth_props ps) + ?B"
    using p' "2.IH"(2) [OF a'] by (auto simp: map_outcome_Returned split: option.splits)
  moreover have "rdepth_opt i' \<le> sdepth_opt i + ?B"
    using "2.IH"(3) [OF a' p' i'] .
  moreover have "rdepth r1 \<le> max (rdepth (RSchema b t req h' a'' p' i' [] [] [] pr)) (sdepth_list all + ?B)"
    using "2.IH"(4) [OF a' p' i2 f [symmetric] refl r1] .
  moreover have "rdepth r \<le> max (rdepth r1) (max (sdepth_list one + ?B) (sdepth_list any + ?B))"
  proof (cases "one \<noteq> [] \<and> ?allReq = []")
    case True
    then show ?thesis using rest by auto
  next
    case False
    with rest obtain r2 where r2: "resolve_into T C V (OneOf ?allReq) one r1 = Returned r2"
      and r: "resolve_into T C V AnyOf any r2 = Returned r"
      by (auto simp: obind_Returned split: if_splits)
    show ?thesis
      using "2.IH"(5) [OF a' p' i2 r1' False r2] "2.IH"(6) [OF a' p' i2 r1' False r2 r] by simp
  qed
  moreover define M where "M = max (sdepth_opt a) (max (case p of None \<Rightarrow> 0 | Some ps \<Rightarrow> sdepth_props ps)
       (max (sdepth_opt i) (max (sdepth_list all) (max (sdepth_list one) (sdepth_list any)))))"
  then have "sdepth_opt a \<le> M" "(case p of None \<Rightarrow> 0 | Some ps \<Rightarrow> sdepth_props ps) \<le> M" "sdepth_opt i \<le> M"
    "sdepth_list all \<le> M" "sdepth_list one \<le> M" "sdepth_list any \<le> M"
    by (simp_all only: max.cobounded1 max.cobounded2 le_max_iff_disj order_refl simp_thms)
  ultimately have "rdepth r \<le> Suc M + ?B" by simp
  then show ?case by (simp add: M_def)
next
  case (8 T C V mode s ss acc)
  from "8.prems" obtain r acc' where r: "resolve T C V s = Returned r"
    and m: "merge T (add_branch mode r acc) (no_required r) = Returned acc'"
    and ri: "resolve_into T C V mode ss acc' = Returned ri"
    by (auto simp: obind_Returned)
  have "rdepth r \<le> sdepth s + unvisited C V * max_depth C"
    using r by (rule "8.IH"(1))
  moreover have "rdepth acc' \<le> max (rdepth acc) (rdepth r)"
    using merge_depth(1) [OF m] by simp
  moreover have "rdepth ri \<le> max (rdepth acc') (sdepth_list ss + unvisited C V * max_depth C)"
    using "8.IH"(2) [OF _ _ ri, of r] r m by simp
  ultimately show ?case by simp
next
  case (6 T C V name s ps)
  from "6.prems" obtain r rp' where r: "resolve T C V s = Returned r"
    and ps: "resolve_props T C V ps = Returned rp'" and rp: "rp = (name, r) # rp'"
    by (auto simp: map_outcome_Returned obind_Returned)
  show ?case
    using "6.IH"(1) [OF r] "6.IH"(2) [OF _ ps, of r] r unfolding rp by (simp add: max_def)
qed (auto simp: map_outcome_Returned)

section \<open>Resolving succeeds\<close>

text \<open>Schemas without \<^verbatim>\<open>allOf\<close>, \<^verbatim>\<open>oneOf\<close> and \<^verbatim>\<open>anyOf\<close>, all of whose references are among the names \<open>N\<close>.\<close>

fun plain :: "string set \<Rightarrow> 'b sref \<Rightarrow> bool"
  and plain_opt :: "string set \<Rightarrow> 'b sref option \<Rightarrow> bool"
  and plain_props :: "string set \<Rightarrow> (string \<times> 'b sref) list \<Rightarrow> bool" where
  "plain N (RefTo ref req) \<longleftrightarrow> getRefName ref \<in> N"
| "plain N (Inline (SSchema b t req h a p i all one any)) \<longleftrightarrow> all = [] \<and> one = [] \<and> any = [] \<and>
     plain_opt N a \<and> (case p of None \<Rightarrow> True | Some ps \<Rightarrow> plain_props N ps) \<and> plain_opt N i"
| "plain_opt N None \<longleftrightarrow> True"
| "plain_opt N (Some s) \<longleftrightarrow> plain N s"
| "plain_props N [] \<longleftrightarrow> True"
| "plain_props N ((n, s) # ps) \<longleftrightarrow> plain N s \<and> plain_props N ps"

definition plain_components :: "(string \<times> 'b sref) list \<Rightarrow> bool" where
  "plain_components C \<longleftrightarrow> list_all (\<lambda>c. plain (fst ` set C) (snd c)) C"

lemma plain_component: "plain_components C \<Longrightarrow> map_of C n = Some s \<Longrightarrow> plain (fst ` set C) s"
  by (auto simp: plain_components_def list_all_iff dest!: map_of_SomeD)

definition returned :: "'a outcome \<Rightarrow> bool" where
  "returned m \<longleftrightarrow> (\<exists>x. m = Returned x)"

lemma returned_simps [simp]:
  "returned (Returned x)" "returned (map_outcome f m) \<longleftrightarrow> returned m" "returned (wrap_error msg m) \<longleftrightarrow> returned m"
  "returned (obind m g) \<longleftrightarrow> (\<exists>x. m = Returned x \<and> returned (g x))"
  by (cases m; auto simp: returned_def wrap_error_def)+

lemma plain_resolves:
  "plain_components C \<Longrightarrow> plain (fst ` set C) s \<Longrightarrow> returned (resolve T C V s)"
  "plain_components C \<Longrightarrow> plain_opt (fst ` set C) so \<Longrightarrow> returned (resolve_opt T C V so)"
  "plain_components C \<Longrightarrow> plain_props (fst ` set C) sp \<Longrightarrow> returned (resolve_props T C V sp)"
  "ss = [] \<Longrightarrow> returned (resolve_into T C V mode ss acc)"
proof (induction T C V s and T C V so and T C V sp and T C V mode ss acc
    rule: resolve_resolve_opt_resolve_props_resolve_into.induct)
  case (1 T C V ref req)
  show ?case
  proof (cases "getRefName ref \<in> V")
    case new: False
    obtain t where t: "map_of C (getRefName ref) = Some t"
      using "1.prems" by (metis plain.simps(1) map_of_eq_None_iff option.exhaust)
    show ?thesis
      using "1.IH" [OF new t] "1.prems"(1) plain_component [OF _ t] new t by simp
  qed simp
next
  case (2 T C V b t req h a p i all one any)
  obtain a' where a': "resolve_opt T C V a = Returned a'"
    using "2.IH"(1) "2.prems" by (auto simp: returned_def)
  obtain p' where p': "(case p of None \<Rightarrow> Returned None | Some ps \<Rightarrow> map_outcome Some (resolve_props T C V ps)) = Returned p'"
    using "2.IH"(2) [OF a'] "2.prems" by (cases p) (auto simp: returned_def)
  obtain i' where i': "resolve_opt T C V i = Returned i'"
    using "2.IH"(3) [OF a' p'] "2.prems" by (auto simp: returned_def)
  show ?case using a' p' i' "2.prems"(2) by (simp split: prod.split)
qed (auto simp: returned_def)

text \<open>
  C14. A kind's CRD schema is found even when its components refer to each other in cycles. On components
  without \<^verbatim>\<open>allOf\<close>, \<^verbatim>\<open>oneOf\<close> and \<^verbatim>\<open>anyOf\<close> whose references all have a component, \<open>resolveSchema\<close> returns a
  schema for each of them, with no error and no panic, and that schema is nested at most as deep as the
  deepest component once for every component and the start: a cycle is cut where it closes.
\<close>

theorem resolve_returns_bounded:
  assumes "plain_components C" and "map_of C n = Some s"
  shows "\<exists>r. resolve T C {} s = Returned r \<and> rdepth r \<le> Suc (length C) * max_depth C"
proof -
  obtain r where r: "resolve T C {} s = Returned r"
    using plain_resolves(1) [OF assms(1) plain_component [OF assms]] by (auto simp: returned_def)
  have "unvisited C {} = length C" by (simp add: unvisited_def)
  then have "rdepth r \<le> Suc (length C) * max_depth C"
    using resolve_depth(1) [OF r] sdepth_component [OF assms(2)] by simp
  with r show ?thesis by blast
qed

text \<open>A list whose tail is a list: the cycle is cut in the second element.\<close>

definition cyclic_components :: "(string \<times> unit sref) list" where
  "cyclic_components = [(''List'', Inline (SSchema () (Some [TypeObject]) [] None None
     (Some [(''tail'', RefTo ''#/components/schemas/List'' [])]) None [] [] []))]"

theorem resolve_returns_bounded_witness:
  "(\<exists>r. resolve \<lparr> te_is = (\<lambda>ts t. ts = Some [t]), te_permits = (\<lambda>ts t. t \<in> set ts), te_zero = () \<rparr>
      cyclic_components {} (snd (cyclic_components ! 0)) = Returned r \<and> rdepth r \<le> 4) \<and>
   plain_components cyclic_components"
proof -
  have "getRefName ''#/components/schemas/List'' = ''List''" by code_simp
  then have p: "plain_components cyclic_components"
    by (simp add: plain_components_def cyclic_components_def)
  have m: "map_of cyclic_components ''List'' = Some (snd (cyclic_components ! 0))"
    by (simp add: cyclic_components_def)
  have d: "max_depth cyclic_components = 2" "length cyclic_components = 1"
    by (simp_all add: max_depth_def cyclic_components_def)
  show ?thesis
    using resolve_returns_bounded [OF p m] p unfolding d by simp
qed

text \<open>
  A schema that was parsed from a CRD and never fixed has its kind under the name \<^verbatim>\<open>__KIND__\<close>; the test
  for it is inverted, and asking for the kind fails.
\<close>

lemma unfixed_schema_fails:
  assumes "map_of C kind = None" and "map_of C parsedCRDSchemaKindName \<noteq> None"
  shows "AsCRDOpenAPI3 T C kind = Failed (GoErr (''schema '' @ kind @ '' not found''))"
  using assms by (auto simp: AsCRDOpenAPI3_def GetCRDOpenAPISchema_def)

end
