(* ===== verification/Manifest_Conversion.thy ===== *)
theory Manifest_Conversion
  imports App_Manifest
begin

text \<open>
  \<^verbatim>\<open>app/appmanifest/v1alpha1/conversion.go\<close> and \<^verbatim>\<open>app/appmanifest/v1alpha2/conversion.go\<close>: a manifest is
  stored in Kubernetes as an \<^verbatim>\<open>AppManifest\<close>, whose spec is converted to the data of a manifest and back. The
  two versions have the same code but for two places, which are the record \<open>manifest_api\<close>: how a kind's
  schemas are stored, and whether the routes of a version are.

  Writing a map of routes as JSON and reading it into the third-party type is a parameter, as is \<open>AsCRDMap\<close>,
  whose loader is third-party code. Where an error prints the type of a value, that part is left out.
\<close>

section \<open>Specs\<close>

record ColumnSpec =
  cs_Name :: string
  cs_Type :: string
  cs_Format :: "string option"
  cs_Description :: "string option"
  cs_Priority :: "int option"
  cs_JsonPath :: string

record KindSpec =
  ks_Kind :: string
  ks_Plural :: "string option"
  ks_Scope :: string
  ks_Admission :: "AdmissionCapabilities option"
  ks_Schemas :: "(string \<times> json) list option"
  ks_SelectableFields :: "string list"
  ks_AdditionalPrinterColumns :: "ColumnSpec list option"
  ks_Conversion :: "bool option"
  ks_Routes :: "(string \<times> json) list"

record RoutesSpec =
  rs_Namespaced :: "(string \<times> json) list"
  rs_Cluster :: "(string \<times> json) list"
  rs_Schemas :: "(string \<times> json) list"

record VersionSpec =
  vs_Name :: string
  vs_Served :: "bool option"
  vs_Kinds :: "KindSpec list"
  vs_Routes :: "RoutesSpec option"

record WebhookSpec =
  ws_ConversionPath :: "string option"
  ws_ValidationPath :: "string option"
  ws_MutationPath :: "string option"

record OperatorSpec =
  os_Url :: "string option"
  os_Webhooks :: "WebhookSpec option"

text \<open>The kinds of a role are values of any type: two structs, a decoded object, or something else.\<close>

datatype RoleKindSpec = WithPermissionSet string string | WithVerbs string "string list"
  | DecodedKind "(string \<times> json) list" | OtherKind

record RoleSpec =
  rp_Title :: string
  rp_Description :: string
  rp_Kinds :: "RoleKindSpec list"
  rp_Routes :: "string list"

record AppManifestSpec =
  sp_AppName :: string
  sp_AppDisplayName :: string
  sp_Group :: string
  sp_Versions :: "VersionSpec list"
  sp_PreferredVersion :: "string option"
  sp_ExtraPermissions :: "KindPermission list option option"
  sp_Operator :: "OperatorSpec option"
  sp_Roles :: "(string \<times> RoleSpec) list option"
  sp_RoleBindings :: "ManifestRoleBindings option"

record manifest_api =
  ma_schema_in :: "string \<Rightarrow> (string \<times> json) list \<Rightarrow> go_error + (string \<times> json) list option"
  ma_schema_out :: "string \<Rightarrow> (string \<times> json) list \<Rightarrow> go_error + (string \<times> json) list"
  ma_has_routes :: bool

record route_codec =
  rc_paths :: "(string \<times> json) list \<Rightarrow> go_error + (string \<times> json) list"
  rc_schemas :: "(string \<times> json) list \<Rightarrow> go_error + (string \<times> json) list"

section \<open>Errors in sequence\<close>

definition ebind :: "'e + 'a \<Rightarrow> ('a \<Rightarrow> 'e + 'b) \<Rightarrow> 'e + 'b" where
  "ebind m f = (case m of Inl e \<Rightarrow> Inl e | Inr x \<Rightarrow> f x)"

lemma ebind_simps [simp]: "ebind (Inr x) f = f x" "ebind (Inl e) f = Inl e"
  by (simp_all add: ebind_def)

fun traverse :: "('a \<Rightarrow> 'e + 'b) \<Rightarrow> 'a list \<Rightarrow> 'e + 'b list" where
  "traverse f [] = Inr []"
| "traverse f (x # xs) = ebind (f x) (\<lambda>y. ebind (traverse f xs) (\<lambda>ys. Inr (y # ys)))"

lemma traverse_Inr: "(\<And>x. x \<in> set xs \<Longrightarrow> f (g x) = Inr (h x)) \<Longrightarrow> traverse f (map g xs) = Inr (map h xs)"
  by (induction xs) auto

section \<open>From a spec to the data\<close>

definition default_to :: "'a \<Rightarrow> 'a option \<Rightarrow> 'a" where
  "default_to d x = (case x of None \<Rightarrow> d | Some y \<Rightarrow> y)"

lemma default_to_simps [simp]: "default_to d None = d" "default_to d (Some x) = x"
  by (simp_all add: default_to_def)

definition to_column :: "ColumnSpec \<Rightarrow> PrinterColumn" where
  "to_column col = \<lparr>pc_Name = cs_Name col, pc_Type = cs_Type col, pc_Format = default_to [] (cs_Format col),
     pc_Description = default_to [] (cs_Description col), pc_Priority = cs_Priority col, pc_JSONPath = cs_JsonPath col\<rparr>"

definition to_routes :: "((string \<times> json) list \<Rightarrow> go_error + (string \<times> json) list) \<Rightarrow> (string \<times> json) list \<Rightarrow>
    go_error + (string \<times> json) list" where
  "to_routes decode rs = (if 0 < length rs then decode rs else Inr [])"

definition to_kind :: "manifest_api \<Rightarrow> route_codec \<Rightarrow> KindSpec \<Rightarrow> go_error + ManifestVersionKind" where
  "to_kind api C kind =
     ebind (case ks_Schemas kind of None \<Rightarrow> Inr None | Some s \<Rightarrow> ma_schema_in api (ks_Kind kind) s) (\<lambda>sch.
     ebind (if 0 < length (ks_Routes kind) then ebind (rc_paths C (ks_Routes kind)) (\<lambda>rs. Inr (Some rs)) else Inr None) (\<lambda>routes.
     Inr \<lparr>vk_Kind = ks_Kind kind,
       vk_Plural = (case ks_Plural kind of None \<Rightarrow> to_lower (ks_Kind kind) @ ''s'' | Some p \<Rightarrow> to_lower p),
       vk_Scope = ks_Scope kind, vk_Admission = ks_Admission kind, vk_Schema = sch,
       vk_SelectableFields = ks_SelectableFields kind, vk_Routes = routes,
       vk_Conversion = default_to False (ks_Conversion kind),
       vk_AdditionalPrinterColumns = map_option (map to_column) (ks_AdditionalPrinterColumns kind)\<rparr>))"

definition to_version :: "manifest_api \<Rightarrow> route_codec \<Rightarrow> VersionSpec \<Rightarrow> go_error + ManifestVersion" where
  "to_version api C version =
     ebind (traverse (to_kind api C) (vs_Kinds version)) (\<lambda>kinds.
     let rs = (case if ma_has_routes api then vs_Routes version else None of
                 None \<Rightarrow> \<lparr>rs_Namespaced = [], rs_Cluster = [], rs_Schemas = []\<rparr> | Some rs \<Rightarrow> rs) in
     ebind (to_routes (rc_paths C) (rs_Namespaced rs)) (\<lambda>namespaced.
     ebind (to_routes (rc_paths C) (rs_Cluster rs)) (\<lambda>cluster.
     ebind (to_routes (rc_schemas C) (rs_Schemas rs)) (\<lambda>schemas.
     Inr \<lparr>mv_Name = vs_Name version, mv_Served = default_to True (vs_Served version), mv_Kinds = kinds,
       mv_Namespaced = namespaced, mv_Cluster = cluster, mv_Schemas = schemas\<rparr>))))"

definition to_operator :: "OperatorSpec \<Rightarrow> ManifestOperatorInfo" where
  "to_operator o1 = \<lparr>op_URL = default_to [] (os_Url o1),
     op_Webhooks = map_option (\<lambda>w. \<lparr>wh_ConversionPath = default_to [] (ws_ConversionPath w),
       wh_ValidationPath = default_to [] (ws_ValidationPath w), wh_MutationPath = default_to [] (ws_MutationPath w)\<rparr>)
       (os_Webhooks o1)\<rparr>"

definition role_error :: "string \<Rightarrow> string \<Rightarrow> nat \<Rightarrow> go_error" where
  "role_error what role idx = GoErr (''unable to parse roles: '' @ what @ '' in role '' @ role @ '', kind index '' @ show_nat idx)"

definition to_role_kind :: "string \<Rightarrow> nat \<times> RoleKindSpec \<Rightarrow> go_error + ManifestRoleKind" where
  "to_role_kind role = (\<lambda>(idx, k2). case k2 of
     WithPermissionSet kind perms \<Rightarrow> Inr \<lparr>rk_RoleKind = kind, rk_Verbs = [], rk_PermissionSet = Some perms\<rparr>
   | WithVerbs kind verbs \<Rightarrow> Inr \<lparr>rk_RoleKind = kind, rk_Verbs = verbs, rk_PermissionSet = None\<rparr>
   | DecodedKind knd \<Rightarrow> (case map_of knd ''kind'' of
       None \<Rightarrow> Inl (role_error ''missing kind'' role idx)
     | Some kindVal \<Rightarrow> (case as_string kindVal of
         None \<Rightarrow> Inl (role_error ''invalid kind'' role idx)
       | Some kind \<Rightarrow> (case map_of knd ''permissionSet'' of
           Some permSetVal \<Rightarrow> (case as_string permSetVal of
             None \<Rightarrow> Inl (role_error ''invalid kind'' role idx)
           | Some str \<Rightarrow> Inr \<lparr>rk_RoleKind = kind, rk_Verbs = [], rk_PermissionSet = Some str\<rparr>)
         | None \<Rightarrow> (case map_of knd ''verbs'' of
             None \<Rightarrow> Inr \<lparr>rk_RoleKind = kind, rk_Verbs = [], rk_PermissionSet = None\<rparr>
           | Some (JArray verbs) \<Rightarrow>
               ebind (traverse (\<lambda>v. case as_string v of None \<Rightarrow> Inl (role_error ''invalid kind'' role idx) | Some s \<Rightarrow> Inr s) verbs)
                 (\<lambda>vs. Inr \<lparr>rk_RoleKind = kind, rk_Verbs = vs, rk_PermissionSet = None\<rparr>)
           | Some _ \<Rightarrow> Inl (role_error ''invalid kind'' role idx)))))
   | OtherKind \<Rightarrow> Inl (role_error ''invalid kind type'' role idx))"

definition to_role :: "string \<times> RoleSpec \<Rightarrow> go_error + string \<times> ManifestRole" where
  "to_role = (\<lambda>(k, v). ebind (traverse (to_role_kind k) (enumerate 0 (rp_Kinds v))) (\<lambda>kinds.
     Inr (k, \<lparr>rl_Title = rp_Title v, rl_Description = rp_Description v, rl_Kinds = kinds, rl_Routes = rp_Routes v\<rparr>)))"

definition to_permissions :: "KindPermission list option option \<Rightarrow> KindPermission list option option" where
  "to_permissions p = (case p of Some (Some ks) \<Rightarrow> Some (Some ks) | _ \<Rightarrow> None)"

text \<open>The data, and the errors of its check, which are returned with it.\<close>

definition ToManifestData ::
  "manifest_api \<Rightarrow> route_codec \<Rightarrow> AppManifestSpec \<Rightarrow> go_error + ManifestData \<times> manifest_error list" where
  "ToManifestData api C s =
     ebind (traverse (to_version api C) (sp_Versions s)) (\<lambda>versions.
     ebind (case sp_Roles s of None \<Rightarrow> Inr None | Some rs \<Rightarrow> ebind (traverse to_role rs) (\<lambda>rs'. Inr (Some rs'))) (\<lambda>roles.
     let data = \<lparr>md_AppName = sp_AppName s, md_AppDisplayName = sp_AppDisplayName s, md_Group = sp_Group s,
       md_Versions = versions,
       md_PreferredVersion = (case sp_PreferredVersion s of
          Some v \<Rightarrow> v
        | None \<Rightarrow> if 0 < length (sp_Versions s) then vs_Name (sp_Versions s ! (length (sp_Versions s) - 1)) else []),
       md_ExtraPermissions = to_permissions (sp_ExtraPermissions s),
       md_Operator = map_option to_operator (sp_Operator s), md_Roles = roles, md_RoleBindings = sp_RoleBindings s\<rparr>
     in Inr (data, Validate data)))"

section \<open>From the data to a spec\<close>

definition from_column :: "PrinterColumn \<Rightarrow> ColumnSpec" where
  "from_column c = \<lparr>cs_Name = pc_Name c, cs_Type = pc_Type c, cs_Format = Some (pc_Format c),
     cs_Description = Some (pc_Description c), cs_Priority = pc_Priority c, cs_JsonPath = pc_JSONPath c\<rparr>"

definition from_kind :: "manifest_api \<Rightarrow> string \<Rightarrow> ManifestVersionKind \<Rightarrow> go_error + KindSpec" where
  "from_kind api version kind =
     ebind (case vk_Schema kind of
              None \<Rightarrow> Inr None
            | Some raw \<Rightarrow> (case ma_schema_out api (vk_Kind kind) raw of
                Inl e \<Rightarrow> Inl (Wrapped (''unable to convert '' @ vk_Kind kind @ ''/'' @ version @ '' schema'') e)
              | Inr s \<Rightarrow> Inr (Some s))) (\<lambda>schemas.
     Inr \<lparr>ks_Kind = vk_Kind kind, ks_Plural = (if vk_Plural kind \<noteq> [] then Some (vk_Plural kind) else None),
       ks_Scope = vk_Scope kind, ks_Admission = vk_Admission kind, ks_Schemas = schemas,
       ks_SelectableFields = vk_SelectableFields kind,
       ks_AdditionalPrinterColumns = (case vk_AdditionalPrinterColumns kind of
          Some (c # cs) \<Rightarrow> Some (map from_column (c # cs)) | _ \<Rightarrow> None),
       ks_Conversion = Some (vk_Conversion kind),
       ks_Routes = (case vk_Routes kind of None \<Rightarrow> [] | Some rs \<Rightarrow> rs)\<rparr>)"

definition from_version :: "manifest_api \<Rightarrow> ManifestVersion \<Rightarrow> go_error + VersionSpec" where
  "from_version api version =
     ebind (traverse (from_kind api (mv_Name version)) (mv_Kinds version)) (\<lambda>kinds.
     Inr \<lparr>vs_Name = mv_Name version, vs_Served = Some (mv_Served version), vs_Kinds = kinds,
       vs_Routes = (if ma_has_routes api \<and> (0 < length (mv_Namespaced version) \<or> 0 < length (mv_Cluster version))
         then Some \<lparr>rs_Namespaced = mv_Namespaced version, rs_Cluster = mv_Cluster version, rs_Schemas = mv_Schemas version\<rparr>
         else None)\<rparr>)"

definition from_operator :: "ManifestOperatorInfo \<Rightarrow> OperatorSpec" where
  "from_operator o1 = \<lparr>os_Url = Some (op_URL o1),
     os_Webhooks = map_option (\<lambda>w. \<lparr>ws_ConversionPath = Some (wh_ConversionPath w),
       ws_ValidationPath = Some (wh_ValidationPath w), ws_MutationPath = Some (wh_MutationPath w)\<rparr>) (op_Webhooks o1)\<rparr>"

definition from_role_kind :: "ManifestRoleKind \<Rightarrow> RoleKindSpec" where
  "from_role_kind knd = (case rk_PermissionSet knd of
     Some p \<Rightarrow> WithPermissionSet (rk_RoleKind knd) p
   | None \<Rightarrow> WithVerbs (rk_RoleKind knd) (rk_Verbs knd))"

definition from_role :: "string \<times> ManifestRole \<Rightarrow> string \<times> RoleSpec" where
  "from_role = (\<lambda>(k, v). (k, \<lparr>rp_Title = rl_Title v, rp_Description = rl_Description v,
     rp_Kinds = map from_role_kind (rl_Kinds v), rp_Routes = rl_Routes v\<rparr>))"

definition SpecFromManifestData :: "manifest_api \<Rightarrow> ManifestData \<Rightarrow> go_error + AppManifestSpec" where
  "SpecFromManifestData api data =
     ebind (traverse (from_version api) (md_Versions data)) (\<lambda>versions.
     Inr \<lparr>sp_AppName = md_AppName data, sp_AppDisplayName = md_AppDisplayName data, sp_Group = md_Group data,
       sp_Versions = versions,
       sp_PreferredVersion = (if md_PreferredVersion data \<noteq> [] then Some (md_PreferredVersion data) else None),
       sp_ExtraPermissions = to_permissions (md_ExtraPermissions data),
       sp_Operator = map_option from_operator (md_Operator data),
       sp_Roles = map_option (map from_role) (md_Roles data), sp_RoleBindings = md_RoleBindings data\<rparr>)"

section \<open>The two versions\<close>

text \<open>\<^verbatim>\<open>v1alpha2\<close> stores the map of schemas.\<close>

definition schemas_in :: "string \<Rightarrow> (string \<times> json) list \<Rightarrow> go_error + (string \<times> json) list option" where
  "schemas_in kind toParse =
     (if map_of toParse kind = None \<and> 0 < length toParse
      then Inl (GoErr (''schemas for '' @ kind @ '' must contain an entry named '' @ quoted kind))
      else (case VersionSchemaFromMap toParse kind of
        (sch, Some e) \<Rightarrow> Inl e
      | (sch, None) \<Rightarrow> Inr sch))"

definition v1alpha2 :: manifest_api where
  "v1alpha2 = \<lparr>ma_schema_in = schemas_in, ma_schema_out = (\<lambda>kind raw. Inr (AsOpenAPI3SchemasMap raw)), ma_has_routes = True\<rparr>"

text \<open>\<^verbatim>\<open>v1alpha1\<close> stores the properties of the kind's resolved schema.\<close>

definition crd_document :: "string \<Rightarrow> (string \<times> json) list \<Rightarrow> (string \<times> json) list" where
  "crd_document kind kindSchema = [(''components'', JObject [(''schemas'',
     JObject [(kind, JObject [(''properties'', JObject kindSchema), (''type'', JString ''object'')])])])]"

definition crd_schema_in :: "string \<Rightarrow> (string \<times> json) list \<Rightarrow> go_error + (string \<times> json) list option" where
  "crd_schema_in kind s = (case VersionSchemaFromMap (crd_document kind s) kind of
     (sch, Some e) \<Rightarrow> Inl e
   | (sch, None) \<Rightarrow> Inr sch)"

definition v1alpha1 :: "(string \<Rightarrow> (string \<times> json) list \<Rightarrow> go_error + (string \<times> json) list) \<Rightarrow> manifest_api" where
  "v1alpha1 AsCRDMap = \<lparr>ma_schema_in = crd_schema_in, ma_schema_out = AsCRDMap, ma_has_routes = False\<rparr>"

section \<open>There and back\<close>

text \<open>A spec as it comes back from the API server: its role kinds are decoded objects.\<close>

definition stored_kind :: "RoleKindSpec \<Rightarrow> RoleKindSpec" where
  "stored_kind k = (case k of
     WithPermissionSet kind p \<Rightarrow> DecodedKind [(''kind'', JString kind), (''permissionSet'', JString p)]
   | WithVerbs kind verbs \<Rightarrow> DecodedKind [(''kind'', JString kind), (''verbs'', JArray (map JString verbs))]
   | _ \<Rightarrow> k)"

definition stored :: "AppManifestSpec \<Rightarrow> AppManifestSpec" where
  "stored s = s\<lparr>sp_Roles := map_option (map (\<lambda>(k, v). (k, v\<lparr>rp_Kinds := map stored_kind (rp_Kinds v)\<rparr>))) (sp_Roles s)\<rparr>"

text \<open>
  What a manifest has to be for its spec to say all of it: plurals are given, in lower case; a map or slice
  that is there is not empty, where the code asks for its length; a version has schemas for its routes only
  beside routes; there is a preferred version; a role's kind has verbs or a permission set. The codec reads
  the routes back as they are.
\<close>

definition kind_ok :: "(string \<Rightarrow> (string \<times> json) list \<Rightarrow> bool) \<Rightarrow> route_codec \<Rightarrow> ManifestVersionKind \<Rightarrow> bool" where
  "kind_ok good C k \<longleftrightarrow> vk_Plural k \<noteq> [] \<and> to_lower (vk_Plural k) = vk_Plural k \<and>
     vk_AdditionalPrinterColumns k \<noteq> Some [] \<and>
     (case vk_Schema k of None \<Rightarrow> True | Some raw \<Rightarrow> good (vk_Kind k) raw) \<and>
     (case vk_Routes k of None \<Rightarrow> True | Some rs \<Rightarrow> rs \<noteq> [] \<and> rc_paths C rs = Inr rs)"

definition version_ok ::
  "manifest_api \<Rightarrow> (string \<Rightarrow> (string \<times> json) list \<Rightarrow> bool) \<Rightarrow> route_codec \<Rightarrow> ManifestVersion \<Rightarrow> bool" where
  "version_ok api good C v \<longleftrightarrow> list_all (kind_ok good C) (mv_Kinds v) \<and>
     (if ma_has_routes api \<and> (mv_Namespaced v \<noteq> [] \<or> mv_Cluster v \<noteq> [])
      then to_routes (rc_paths C) (mv_Namespaced v) = Inr (mv_Namespaced v) \<and>
        to_routes (rc_paths C) (mv_Cluster v) = Inr (mv_Cluster v) \<and>
        to_routes (rc_schemas C) (mv_Schemas v) = Inr (mv_Schemas v)
      else mv_Namespaced v = [] \<and> mv_Cluster v = [] \<and> mv_Schemas v = [])"

definition role_kind_ok :: "ManifestRoleKind \<Rightarrow> bool" where
  "role_kind_ok k \<longleftrightarrow> rk_PermissionSet k = None \<or> rk_Verbs k = []"

definition manifest_ok ::
  "manifest_api \<Rightarrow> (string \<Rightarrow> (string \<times> json) list \<Rightarrow> bool) \<Rightarrow> route_codec \<Rightarrow> ManifestData \<Rightarrow> bool" where
  "manifest_ok api good C d \<longleftrightarrow> list_all (version_ok api good C) (md_Versions d) \<and>
     (md_PreferredVersion d \<noteq> [] \<or> md_Versions d = []) \<and> md_ExtraPermissions d \<noteq> Some None \<and>
     (case md_Roles d of None \<Rightarrow> True | Some rs \<Rightarrow> list_all (\<lambda>(k, v). list_all role_kind_ok (rl_Kinds v)) rs)"

lemma traverse_back:
  "(\<And>x. x \<in> set xs \<Longrightarrow> \<exists>y. f x = Inr y \<and> g y = Inr x) \<Longrightarrow> \<exists>ys. traverse f xs = Inr ys \<and> traverse g ys = Inr xs"
proof (induction xs)
  case (Cons x xs)
  obtain y where y: "f x = Inr y" "g y = Inr x" using Cons.prems by force
  obtain ys where ys: "traverse f xs = Inr ys" "traverse g ys = Inr xs" using Cons by auto
  show ?case by (rule exI [of _ "y # ys"]) (simp add: y ys)
qed simp

lemma column_back: "to_column (from_column c) = c"
  by (simp add: to_column_def from_column_def)

lemma operator_back: "to_operator (from_operator p) = p"
proof -
  have "map_option f x = x" if "\<And>y. f y = y" for f :: "ManifestOperatorWebhookProperties \<Rightarrow> ManifestOperatorWebhookProperties" and x
    using that by (cases x) simp_all
  then show ?thesis by (simp add: to_operator_def from_operator_def option.map_comp comp_def)
qed

lemma traverse_strings: "traverse (\<lambda>v. case as_string v of None \<Rightarrow> Inl e | Some s \<Rightarrow> Inr s) (map JString vs) = Inr vs"
  by (induction vs) simp_all

lemma role_kind_back:
  "role_kind_ok k \<Longrightarrow> to_role_kind r (i, from_role_kind k) = Inr k \<and> to_role_kind r (i, stored_kind (from_role_kind k)) = Inr k"
  by (cases k) (auto simp: to_role_kind_def from_role_kind_def stored_kind_def role_kind_ok_def traverse_strings split: option.split)

lemma role_kinds_back:
  assumes "list_all role_kind_ok ks" "\<And>k i. role_kind_ok k \<Longrightarrow> to_role_kind r (i, g k) = Inr k"
  shows "traverse (to_role_kind r) (enumerate i (map g ks)) = Inr ks"
  using assms(1) by (induction ks arbitrary: i) (simp_all add: assms(2))

lemma role_back:
  assumes "list_all role_kind_ok (rl_Kinds v)"
  shows "to_role (from_role (k, v)) = Inr (k, v)"
    and "to_role ((\<lambda>(k, v). (k, v\<lparr>rp_Kinds := map stored_kind (rp_Kinds v)\<rparr>)) (from_role (k, v))) = Inr (k, v)"
  using role_kinds_back [OF assms, of k from_role_kind] role_kinds_back [OF assms, of k "stored_kind \<circ> from_role_kind"]
  by (simp_all add: to_role_def from_role_def role_kind_back)

lemma roles_back:
  assumes "list_all (\<lambda>(k, v). list_all role_kind_ok (rl_Kinds v)) rs"
  shows "traverse to_role (map from_role rs) = Inr rs"
    and "traverse to_role (map (\<lambda>(k, v). (k, v\<lparr>rp_Kinds := map stored_kind (rp_Kinds v)\<rparr>)) (map from_role rs)) = Inr rs"
  using assms by (induction rs) (auto simp: role_back simp del: map_map)

lemma to_kind_parts:
  assumes "(case ks_Schemas s of None \<Rightarrow> Inr None | Some m \<Rightarrow> ma_schema_in api (vk_Kind k) m) = Inr (vk_Schema k)"
    and "(if 0 < length (ks_Routes s) then ebind (rc_paths C (ks_Routes s)) (\<lambda>rs. Inr (Some rs)) else Inr None) = Inr (vk_Routes k)"
    and "(case ks_Plural s of None \<Rightarrow> to_lower (vk_Kind k) @ ''s'' | Some p \<Rightarrow> to_lower p) = vk_Plural k"
    and "map_option (map to_column) (ks_AdditionalPrinterColumns s) = vk_AdditionalPrinterColumns k"
    and "default_to False (ks_Conversion s) = vk_Conversion k"
    and "ks_Kind s = vk_Kind k" "ks_Scope s = vk_Scope k" "ks_Admission s = vk_Admission k"
    and "ks_SelectableFields s = vk_SelectableFields k"
  shows "to_kind api C s = Inr k"
  unfolding to_kind_def assms(6-) assms(1-5) ebind_simps by (cases k) simp

lemma to_version_parts:
  assumes "traverse (to_kind api C) (vs_Kinds s) = Inr (mv_Kinds v)"
    and "(case if ma_has_routes api then vs_Routes s else None of
            None \<Rightarrow> \<lparr>rs_Namespaced = [], rs_Cluster = [], rs_Schemas = []\<rparr> | Some rs \<Rightarrow> rs) = rs"
    and "to_routes (rc_paths C) (rs_Namespaced rs) = Inr (mv_Namespaced v)"
    and "to_routes (rc_paths C) (rs_Cluster rs) = Inr (mv_Cluster v)"
    and "to_routes (rc_schemas C) (rs_Schemas rs) = Inr (mv_Schemas v)"
    and "vs_Name s = mv_Name v" "default_to True (vs_Served s) = mv_Served v"
  shows "to_version api C s = Inr v"
  unfolding to_version_def assms ebind_simps Let_def by (cases v) simp

lemma ToManifestData_parts:
  assumes "traverse (to_version api C) (sp_Versions s) = Inr (md_Versions d)"
    and "(case sp_Roles s of None \<Rightarrow> Inr None | Some rs \<Rightarrow> ebind (traverse to_role rs) (\<lambda>rs'. Inr (Some rs'))) = Inr (md_Roles d)"
    and "(case sp_PreferredVersion s of Some v \<Rightarrow> v
          | None \<Rightarrow> if 0 < length (sp_Versions s) then vs_Name (sp_Versions s ! (length (sp_Versions s) - 1)) else []) = md_PreferredVersion d"
    and "to_permissions (sp_ExtraPermissions s) = md_ExtraPermissions d"
    and "map_option to_operator (sp_Operator s) = md_Operator d"
    and "sp_AppName s = md_AppName d" "sp_AppDisplayName s = md_AppDisplayName d" "sp_Group s = md_Group d"
    and "sp_RoleBindings s = md_RoleBindings d"
  shows "ToManifestData api C s = Inr (d, Validate d)"
  unfolding ToManifestData_def assms ebind_simps Let_def by (cases d) simp

text \<open>A version of the API: a good map of schemas is stored as something that is read as that map.\<close>

locale schema_conversion =
  fixes api :: manifest_api and good :: "string \<Rightarrow> (string \<times> json) list \<Rightarrow> bool"
  assumes schema_back: "good kind raw \<Longrightarrow> \<exists>s. ma_schema_out api kind raw = Inr s \<and> ma_schema_in api kind s = Inr (Some raw)"
begin

lemma kind_back:
  assumes ok: "kind_ok good C k"
  shows "\<exists>s. from_kind api v k = Inr s \<and> to_kind api C s = Inr k"
proof -
  obtain sch where sch: "(case vk_Schema k of None \<Rightarrow> Inr None
       | Some raw \<Rightarrow> (case ma_schema_out api (vk_Kind k) raw of
           Inl e \<Rightarrow> Inl (Wrapped (''unable to convert '' @ vk_Kind k @ ''/'' @ v @ '' schema'') e) | Inr s \<Rightarrow> Inr (Some s))) = Inr sch"
    and reads: "(case sch of None \<Rightarrow> Inr None | Some s \<Rightarrow> ma_schema_in api (vk_Kind k) s) = Inr (vk_Schema k)"
  proof (cases "vk_Schema k")
    case None
    then show ?thesis by (intro that [of None]) simp_all
  next
    case (Some raw)
    then obtain s where "ma_schema_out api (vk_Kind k) raw = Inr s" "ma_schema_in api (vk_Kind k) s = Inr (Some raw)"
      using ok schema_back [of "vk_Kind k" raw] by (auto simp: kind_ok_def)
    then show ?thesis using Some by (intro that [of "Some s"]) simp_all
  qed
  have plural: "vk_Plural k \<noteq> []" "to_lower (vk_Plural k) = vk_Plural k" using ok by (simp_all add: kind_ok_def)
  have cols: "map_option (map to_column) (case vk_AdditionalPrinterColumns k of Some (c # cs) \<Rightarrow> Some (map from_column (c # cs)) | _ \<Rightarrow> None)
      = vk_AdditionalPrinterColumns k"
    using ok by (auto simp: kind_ok_def column_back comp_def split: option.split list.split)
  have routes: "(let rs = (case vk_Routes k of None \<Rightarrow> [] | Some rs \<Rightarrow> rs)
       in if 0 < length rs then ebind (rc_paths C rs) (\<lambda>rs. Inr (Some rs)) else Inr None) = Inr (vk_Routes k)"
    using ok by (auto simp: kind_ok_def split: option.splits)
  let ?s = "\<lparr>ks_Kind = vk_Kind k, ks_Plural = Some (vk_Plural k),
       ks_Scope = vk_Scope k, ks_Admission = vk_Admission k, ks_Schemas = sch,
       ks_SelectableFields = vk_SelectableFields k,
       ks_AdditionalPrinterColumns = (case vk_AdditionalPrinterColumns k of
          Some (c # cs) \<Rightarrow> Some (map from_column (c # cs)) | _ \<Rightarrow> None),
       ks_Conversion = Some (vk_Conversion k),
       ks_Routes = (case vk_Routes k of None \<Rightarrow> [] | Some rs \<Rightarrow> rs)\<rparr>"
  have "from_kind api v k = Inr ?s" unfolding from_kind_def sch ebind_simps by (simp add: plural)
  moreover have "to_kind api C ?s = Inr k"
    by (rule to_kind_parts, unfold KindSpec.simps option.case default_to_simps plural(2))
      (fact reads routes [unfolded Let_def] cols refl)+
  ultimately show ?thesis by blast
qed

lemma version_back:
  assumes ok: "version_ok api good C v"
  shows "\<exists>s. from_version api v = Inr s \<and> to_version api C s = Inr v"
proof -
  obtain ks where ks: "traverse (from_kind api (mv_Name v)) (mv_Kinds v) = Inr ks" "traverse (to_kind api C) ks = Inr (mv_Kinds v)"
    using traverse_back [of "mv_Kinds v" "from_kind api (mv_Name v)" "to_kind api C"] kind_back ok
    by (auto simp: version_ok_def list_all_iff)
  show ?thesis
  proof (cases "ma_has_routes api \<and> (mv_Namespaced v \<noteq> [] \<or> mv_Cluster v \<noteq> [])")
    case True
    let ?rs = "\<lparr>rs_Namespaced = mv_Namespaced v, rs_Cluster = mv_Cluster v, rs_Schemas = mv_Schemas v\<rparr>"
    let ?s = "\<lparr>vs_Name = mv_Name v, vs_Served = Some (mv_Served v), vs_Kinds = ks, vs_Routes = Some ?rs\<rparr>"
    have "from_version api v = Inr ?s" using True by (simp add: from_version_def ks)
    moreover have "to_version api C ?s = Inr v"
      by (rule to_version_parts [where rs = ?rs]) (use True ok ks in \<open>simp_all add: version_ok_def\<close>)
    ultimately show ?thesis by blast
  next
    case False
    then have none: "mv_Namespaced v = []" "mv_Cluster v = []" "mv_Schemas v = []" using ok unfolding version_ok_def if_not_P [OF False] by blast+
    let ?s = "\<lparr>vs_Name = mv_Name v, vs_Served = Some (mv_Served v), vs_Kinds = ks, vs_Routes = None\<rparr>"
    have "from_version api v = Inr ?s" unfolding from_version_def ks ebind_simps by (simp add: none)
    moreover have "to_version api C ?s = Inr v"
      by (rule to_version_parts [where rs = "\<lparr>rs_Namespaced = [], rs_Cluster = [], rs_Schemas = []\<rparr>"])
        (use ks in \<open>simp_all add: none to_routes_def\<close>)
    ultimately show ?thesis by blast
  qed
qed

lemma manifest_back:
  assumes ok: "manifest_ok api good C d"
  shows "\<exists>s. SpecFromManifestData api d = Inr s \<and> ToManifestData api C s = Inr (d, Validate d) \<and>
    ToManifestData api C (stored s) = Inr (d, Validate d)"
proof -
  obtain vs where vs: "traverse (from_version api) (md_Versions d) = Inr vs" "traverse (to_version api C) vs = Inr (md_Versions d)"
    using traverse_back [of "md_Versions d" "from_version api" "to_version api C"] version_back ok
    by (auto simp: manifest_ok_def list_all_iff)
  have none: "vs = []" if "md_Versions d = []" using vs that by simp
  have perms: "to_permissions (to_permissions (md_ExtraPermissions d)) = md_ExtraPermissions d"
    using ok by (auto simp: manifest_ok_def to_permissions_def split: option.split)
  have op: "map_option to_operator (map_option from_operator (md_Operator d)) = md_Operator d"
    by (simp add: option.map_comp comp_def operator_back option.map_ident)
  have pref: "(case if md_PreferredVersion d \<noteq> [] then Some (md_PreferredVersion d) else None of
      Some v \<Rightarrow> v | None \<Rightarrow> if 0 < length vs then vs_Name (vs ! (length vs - 1)) else []) = md_PreferredVersion d"
    using ok none by (auto simp: manifest_ok_def)
  have roles: "(case map_option (map from_role) (md_Roles d) of None \<Rightarrow> Inr None
      | Some rs \<Rightarrow> ebind (traverse to_role rs) (\<lambda>rs'. Inr (Some rs'))) = Inr (md_Roles d)"
    "(case map_option (map (\<lambda>(k, v). (k, v\<lparr>rp_Kinds := map stored_kind (rp_Kinds v)\<rparr>))) (map_option (map from_role) (md_Roles d)) of
        None \<Rightarrow> Inr None | Some rs \<Rightarrow> ebind (traverse to_role rs) (\<lambda>rs'. Inr (Some rs'))) = Inr (md_Roles d)"
    using ok by (auto simp: manifest_ok_def roles_back simp del: map_map split: option.split)
  let ?s = "\<lparr>sp_AppName = md_AppName d, sp_AppDisplayName = md_AppDisplayName d, sp_Group = md_Group d,
       sp_Versions = vs, sp_PreferredVersion = (if md_PreferredVersion d \<noteq> [] then Some (md_PreferredVersion d) else None),
       sp_ExtraPermissions = to_permissions (md_ExtraPermissions d),
       sp_Operator = map_option from_operator (md_Operator d),
       sp_Roles = map_option (map from_role) (md_Roles d), sp_RoleBindings = md_RoleBindings d\<rparr>"
  have "SpecFromManifestData api d = Inr ?s" by (simp add: SpecFromManifestData_def vs)
  moreover have "ToManifestData api C ?s = Inr (d, Validate d)"
    by (rule ToManifestData_parts, unfold AppManifestSpec.simps) (fact vs roles pref perms op refl)+
  moreover have "ToManifestData api C (stored ?s) = Inr (d, Validate d)"
    by (rule ToManifestData_parts, unfold AppManifestSpec.simps stored_def) (fact vs roles pref perms op refl)+
  ultimately show ?thesis by blast
qed

end

text \<open>A map of schemas in form that has the kind is stored as it is.\<close>

definition plain_schemas :: "string \<Rightarrow> (string \<times> json) list \<Rightarrow> bool" where
  "plain_schemas kind raw \<longleftrightarrow> in_form raw \<and> map_of raw parsedCRDSchemaKindName = None \<and> (map_of raw kind \<noteq> None \<or> raw = [])"

interpretation v2: schema_conversion v1alpha2 plain_schemas
  by unfold_locales (auto simp: v1alpha2_def plain_schemas_def schemas_in_def AsOpenAPI3SchemasMap_def VersionSchemaFromMap_in_form)

text \<open>
  The older version stores the properties of the kind's schema: they are all of it when the map has this
  schema only, and nothing in it has to be resolved.
\<close>

definition crd_only ::
  "(string \<Rightarrow> (string \<times> json) list \<Rightarrow> go_error + (string \<times> json) list) \<Rightarrow> string \<Rightarrow> (string \<times> json) list \<Rightarrow> bool" where
  "crd_only AsCRDMap kind raw \<longleftrightarrow> kind \<noteq> parsedCRDSchemaKindName \<and>
     (case AsCRDMap kind raw of Inl e \<Rightarrow> False
      | Inr ps \<Rightarrow> raw = [(kind, JObject [(''properties'', JObject ps), (''type'', JString ''object'')])])"

interpretation v1: schema_conversion "v1alpha1 AsCRDMap" "crd_only AsCRDMap" for AsCRDMap
proof
  fix kind raw assume "crd_only AsCRDMap kind raw"
  then obtain ps where "AsCRDMap kind raw = Inr ps" "kind \<noteq> parsedCRDSchemaKindName"
    "raw = [(kind, JObject [(''properties'', JObject ps), (''type'', JString ''object'')])]"
    by (auto simp: crd_only_def split: sum.splits)
  then show "\<exists>s. ma_schema_out (v1alpha1 AsCRDMap) kind raw = Inr s \<and> ma_schema_in (v1alpha1 AsCRDMap) kind s = Inr (Some raw)"
    by (simp add: v1alpha1_def crd_schema_in_def crd_document_def VersionSchemaFromMap_def fixRaw_def fix_document_def)
qed

text \<open>
  C16. A manifest survives being stored: the spec that \<open>SpecFromManifestData\<close> makes of a manifest's data is read
  back by \<open>ToManifestData\<close> as exactly the same data, with the errors of the data's own check and no others,
  both directly and after the role kinds have become decoded objects in the API server.
\<close>

theorem manifest_roundtrip:
  assumes "manifest_ok v1alpha2 plain_schemas C d"
  shows "\<exists>s. SpecFromManifestData v1alpha2 d = Inr s \<and> ToManifestData v1alpha2 C s = Inr (d, Validate d) \<and>
    ToManifestData v1alpha2 C (stored s) = Inr (d, Validate d)"
  using assms by (rule v2.manifest_back)

text \<open>The older version loses nothing either of a manifest without version routes and with schemas it can store.\<close>

definition v1alpha1_ToManifestData where
  "v1alpha1_ToManifestData AsCRDMap = ToManifestData (v1alpha1 AsCRDMap)"

definition v1alpha1_SpecFromManifestData where
  "v1alpha1_SpecFromManifestData AsCRDMap = SpecFromManifestData (v1alpha1 AsCRDMap)"

lemma v1alpha1_roundtrip:
  assumes "manifest_ok (v1alpha1 AsCRDMap) (crd_only AsCRDMap) C d"
  shows "\<exists>s. v1alpha1_SpecFromManifestData AsCRDMap d = Inr s \<and>
    v1alpha1_ToManifestData AsCRDMap C s = Inr (d, Validate d) \<and>
    v1alpha1_ToManifestData AsCRDMap C (stored s) = Inr (d, Validate d)"
  using assms unfolding v1alpha1_ToManifestData_def v1alpha1_SpecFromManifestData_def by (rule v1.manifest_back)

text \<open>
  The schemas of a version's routes are stored with the routes only: with neither namespaced nor cluster routes
  they are lost, though kinds may have routes.
\<close>

lemma route_schemas_lost:
  assumes "mv_Namespaced v = []" "mv_Cluster v = []" "from_version api v = Inr s" "to_version api C s = Inr v'"
  shows "mv_Schemas v' = []"
proof -
  have "vs_Routes s = None" using assms(1-3) by (auto simp: from_version_def ebind_def split: sum.splits)
  then have none: "(if ma_has_routes api then vs_Routes s else None) = None" by simp
  then show ?thesis using assms(4)
    unfolding to_version_def none by (auto simp: to_routes_def ebind_def split: sum.splits)
qed

definition sample_kind :: ManifestVersionKind where
  "sample_kind = \<lparr>vk_Kind = ''Foo'', vk_Plural = ''foos'', vk_Scope = ''Namespaced'',
     vk_Admission = Some \<lparr>ad_Validation = Some [''CREATE''], ad_Mutation = None\<rparr>,
     vk_Schema = Some [(''Foo'', JObject [(''type'', JString ''object'')])], vk_SelectableFields = [''spec.x''],
     vk_Routes = Some [(''/bar'', JObject [])], vk_Conversion = True,
     vk_AdditionalPrinterColumns = Some [\<lparr>pc_Name = ''x'', pc_Type = ''string'', pc_Format = [], pc_Description = ''d'',
       pc_Priority = Some 1, pc_JSONPath = ''.spec.x''\<rparr>]\<rparr>"

definition sample_manifest :: ManifestData where
  "sample_manifest = \<lparr>md_AppName = ''app'', md_AppDisplayName = ''App'', md_Group = ''app.ext'',
     md_Versions = [\<lparr>mv_Name = ''v1'', mv_Served = True, mv_Kinds = [sample_kind],
       mv_Namespaced = [(''/baz'', JObject [])], mv_Cluster = [], mv_Schemas = [(''Baz'', JObject [])]\<rparr>],
     md_PreferredVersion = ''v1'', md_ExtraPermissions = Some (Some [\<lparr>kp_Group = ''g'', kp_Resource = ''r'', kp_Actions = [''get'']\<rparr>]),
     md_Operator = Some \<lparr>op_URL = ''https://op'', op_Webhooks = None\<rparr>,
     md_Roles = Some [(''app:reader'', \<lparr>rl_Title = ''Reader'', rl_Description = [],
       rl_Kinds = [\<lparr>rk_RoleKind = ''Foo'', rk_Verbs = [''get'', ''list''], rk_PermissionSet = None\<rparr>,
                   \<lparr>rk_RoleKind = ''Foo'', rk_Verbs = [], rk_PermissionSet = Some ''viewer''\<rparr>], rl_Routes = [''createBaz'']\<rparr>)],
     md_RoleBindings = Some \<lparr>rb_Viewer = [''app:reader''], rb_Editor = [], rb_Admin = [], rb_Additional = []\<rparr>\<rparr>"

lemma manifest_roundtrip_witness:
  "\<exists>s. SpecFromManifestData v1alpha2 sample_manifest = Inr s \<and>
     ToManifestData v1alpha2 \<lparr>rc_paths = Inr, rc_schemas = Inr\<rparr> s = Inr (sample_manifest, Validate sample_manifest) \<and>
     ToManifestData v1alpha2 \<lparr>rc_paths = Inr, rc_schemas = Inr\<rparr> (stored s) = Inr (sample_manifest, Validate sample_manifest)"
proof (rule manifest_roundtrip)
  have "kind_ok plain_schemas \<lparr>rc_paths = Inr, rc_schemas = Inr\<rparr> sample_kind"
    by (simp add: kind_ok_def sample_kind_def plain_schemas_def in_form_def parsedCRDSchemaKindName_def lower_char_def)
  then show "manifest_ok v1alpha2 plain_schemas \<lparr>rc_paths = Inr, rc_schemas = Inr\<rparr> sample_manifest"
    by (simp add: manifest_ok_def sample_manifest_def version_ok_def v1alpha2_def to_routes_def role_kind_ok_def)
qed

end
