(* ===== verification/Reflector.thy ===== *)
theory Reflector
  imports Resource_Model
begin

text \<open>
  \<^verbatim>\<open>k8s/cache/reflector.go\<close>, the loop that keeps a store in step with the objects of a kind on the API
  server: it lists, then watches from the version of the list, and starts again when the watch ends. The
  repository's copy can also stream the initial state (\<^verbatim>\<open>watchList\<close>).

  Each decision of the loop is a definition; \<open>reflect_step\<close> puts them together as the code does, with one
  step for each request to the server, each message that a select receives and each resync of the
  background goroutine. What the server answers is in the step's label, so that the code is modelled
  without assumptions on it; the labels are then restricted to a server that keeps a history.
\<close>

section \<open>Errors of the API server\<close>

text \<open>
  The tests of the third-party package \<^verbatim>\<open>apierrors\<close>. The status of an error has the messages of its
  causes, when it has details.
\<close>

record api_errors =
  ae_expired :: "go_error \<Rightarrow> bool"
  ae_gone :: "go_error \<Rightarrow> bool"
  ae_causeTooLarge :: "go_error \<Rightarrow> bool"
  ae_timeout :: "go_error \<Rightarrow> bool"
  ae_tooManyRequests :: "go_error \<Rightarrow> bool"
  ae_internal :: "go_error \<Rightarrow> bool"
  ae_connectionRefused :: "go_error \<Rightarrow> bool"
  ae_apiStatus :: "go_error \<Rightarrow> (string list option \<times> string) option"

definition contains_text :: "string \<Rightarrow> string \<Rightarrow> bool" where
  "contains_text p s \<longleftrightarrow> list_ex (\<lambda>i. take (length p) (drop i s) = p) [0..<Suc (length s)]"

definition isExpiredError :: "api_errors \<Rightarrow> go_error \<Rightarrow> bool" where
  "isExpiredError E err \<longleftrightarrow> ae_expired E err \<or> ae_gone E err"

definition isTooLargeResourceVersionError :: "api_errors \<Rightarrow> go_error \<Rightarrow> bool" where
  "isTooLargeResourceVersionError E err \<longleftrightarrow>
     (if ae_causeTooLarge E err then True
      else if \<not> ae_timeout E err then False
      else (case ae_apiStatus E err of
        Some (Some causes, message) \<Rightarrow>
          list_ex (\<lambda>cause. cause = ''Too large resource version'') causes \<or>
          contains_text ''Too large resource version'' message
      | _ \<Rightarrow> False))"

definition isWatchErrorRetriable :: "api_errors \<Rightarrow> go_error \<Rightarrow> bool" where
  "isWatchErrorRetriable E err \<longleftrightarrow> ae_connectionRefused E err \<or> ae_tooManyRequests E err"

section \<open>The reflector\<close>

text \<open>
  The group, version and kind of an unstructured example object is what events are compared with. Of
  \<^verbatim>\<open>ShouldResync\<close> only whether it is set; its answers are in the steps' labels.
\<close>

record Reflector =
  rf_expectedType :: "nat option"
  rf_expectedGVK :: "(string \<times> string \<times> string) option"
  rf_resyncPeriod :: duration
  rf_minWatchTimeout :: duration
  rf_paginatedResult :: bool
  rf_lastSyncResourceVersion :: string
  rf_isLastSyncResourceVersionUnavailable :: bool
  rf_WatchListPageSize :: int
  rf_ShouldResync :: "unit option"
  rf_UseWatchList :: "bool option"

record ReflectorOptions =
  ro_ResyncPeriod :: duration
  ro_MinWatchTimeout :: duration
  ro_UseWatchList :: "bool option"

definition defaultMinWatchTimeout :: duration where
  "defaultMinWatchTimeout = 5 * 60 * 10 ^ 9"

text \<open>\<open>gate\<close> is the client's feature gate for streaming lists.\<close>

definition NewReflectorWithOptions ::
  "bool \<Rightarrow> nat option \<Rightarrow> (string \<times> string \<times> string) option \<Rightarrow> ReflectorOptions \<Rightarrow> Reflector" where
  "NewReflectorWithOptions gate expectedType expectedGVK options =
     \<lparr>rf_expectedType = expectedType, rf_expectedGVK = expectedGVK, rf_resyncPeriod = ro_ResyncPeriod options,
      rf_minWatchTimeout =
        (if ro_MinWatchTimeout options > defaultMinWatchTimeout then ro_MinWatchTimeout options else defaultMinWatchTimeout),
      rf_paginatedResult = False, rf_lastSyncResourceVersion = [], rf_isLastSyncResourceVersionUnavailable = False,
      rf_WatchListPageSize = 0, rf_ShouldResync = None,
      rf_UseWatchList = (case ro_UseWatchList options of Some b \<Rightarrow> Some b | None \<Rightarrow> Some gate)\<rparr>"

text \<open>The reflector that the controller of \<^verbatim>\<open>k8s/cache/controller.go\<close> makes from its configuration.\<close>

definition controller_reflector ::
  "bool \<Rightarrow> bool \<Rightarrow> int \<Rightarrow> nat option \<Rightarrow> (string \<times> string \<times> string) option \<Rightarrow> duration \<Rightarrow> duration \<Rightarrow> unit option \<Rightarrow> Reflector" where
  "controller_reflector gate UseWatchList WatchListPageSize objectType gvk fullResyncPeriod minWatchTimeout shouldResync =
     (NewReflectorWithOptions gate objectType gvk
        \<lparr>ro_ResyncPeriod = fullResyncPeriod, ro_MinWatchTimeout = minWatchTimeout,
         ro_UseWatchList = (if UseWatchList then Some True else None)\<rparr>)
       \<lparr>rf_ShouldResync := shouldResync, rf_WatchListPageSize := WatchListPageSize\<rparr>"

definition relistResourceVersion :: "Reflector \<Rightarrow> string" where
  "relistResourceVersion r =
     (if rf_isLastSyncResourceVersionUnavailable r then []
      else if rf_lastSyncResourceVersion r = [] then ''0''
      else rf_lastSyncResourceVersion r)"

definition rewatchResourceVersion :: "Reflector \<Rightarrow> string" where
  "rewatchResourceVersion r =
     (if rf_isLastSyncResourceVersionUnavailable r then [] else rf_lastSyncResourceVersion r)"

section \<open>The store and the events\<close>

text \<open>The store behind the reflector and the accessors of objects are third-party interfaces.\<close>

record ('o, 's) ReflectorStore =
  st_Add :: "'o \<Rightarrow> 's \<Rightarrow> go_error option \<times> 's"
  st_Update :: "'o \<Rightarrow> 's \<Rightarrow> go_error option \<times> 's"
  st_Delete :: "'o \<Rightarrow> 's \<Rightarrow> go_error option \<times> 's"
  st_Replace :: "'o list \<Rightarrow> string \<Rightarrow> 's \<Rightarrow> go_error option \<times> 's"
  st_Resync :: "'s \<Rightarrow> go_error option \<times> 's"
  st_UpdateResourceVersion :: "(string \<Rightarrow> 's \<Rightarrow> 's) option"

record 'o accessors =
  oa_type :: "'o \<Rightarrow> nat"
  oa_gvk :: "'o \<Rightarrow> string \<times> string \<times> string"
  oa_meta :: "'o \<Rightarrow> go_error + string \<times> (string \<Rightarrow> string option)"
  oa_status :: "'o \<Rightarrow> go_error"

datatype watch_type = WatchAdded | WatchModified | WatchDeleted | WatchBookmark | WatchError | WatchUnknown

record 'o watch_event =
  we_Type :: watch_type
  we_Object :: 'o

definition InitialEventsAnnotationKey :: string where
  "InitialEventsAnnotationKey = ''k8s.io/initial-events-end''"

text \<open>What a select of \<open>handleAnyWatch\<close> receives. For a closed channel: whether the watch lasted less than a second.\<close>

datatype 'o received = CtxDone | ErrCh go_error | Closed bool | Event "'o watch_event" | WarningTick

text \<open>An event that has the expected type, kind and readable metadata.\<close>

definition event_meta ::
  "'o accessors \<Rightarrow> Reflector \<Rightarrow> 'o \<Rightarrow> (string \<times> (string \<Rightarrow> string option)) option" where
  "event_meta A r ob =
     (if (case rf_expectedType r of None \<Rightarrow> False | Some t \<Rightarrow> t \<noteq> oa_type A ob) then None
      else if (case rf_expectedGVK r of None \<Rightarrow> False | Some g \<Rightarrow> g \<noteq> oa_gvk A ob) then None
      else (case oa_meta A ob of Inl e \<Rightarrow> None | Inr m \<Rightarrow> Some m))"

text \<open>Errors of the store are only logged.\<close>

definition apply_event :: "('o, 's) ReflectorStore \<Rightarrow> 'o watch_event \<Rightarrow> string \<Rightarrow> 's \<Rightarrow> 's" where
  "apply_event S ev rv s =
     (let s' = (case we_Type ev of
        WatchAdded \<Rightarrow> snd (st_Add S (we_Object ev) s)
      | WatchModified \<Rightarrow> snd (st_Update S (we_Object ev) s)
      | WatchDeleted \<Rightarrow> snd (st_Delete S (we_Object ev) s)
      | _ \<Rightarrow> s)
      in case st_UpdateResourceVersion S of Some f \<Rightarrow> f rv s' | None \<Rightarrow> s')"

text \<open>
  One turn of the loop in \<open>handleAnyWatch\<close>. The loop goes on, or it returns with an error or without; the
  error for a stop request has its own constructor. A turn may also set the last resource version.
\<close>

text \<open>The name of the reflector is left out of the error for a short watch.\<close>

datatype turn = Go bool nat | StopRequested | Exit bool "go_error option"

definition very_short_error :: go_error where
  "very_short_error = GoErr ''very short watch: Unexpected watch close - watch lasted less than a second and no items received''"

definition watch_turn ::
  "'o accessors \<Rightarrow> ('o, 's) ReflectorStore \<Rightarrow> Reflector \<Rightarrow> bool \<Rightarrow> bool \<Rightarrow> nat \<Rightarrow> 'o received \<Rightarrow> 's \<Rightarrow>
   turn \<times> string option \<times> 's" where
  "watch_turn A S r exitOnWatchListBookmarkReceived bookmark eventCount msg s = (case msg of
     CtxDone \<Rightarrow> (StopRequested, None, s)
   | ErrCh err \<Rightarrow> (Exit bookmark (Some err), None, s)
   | Closed short \<Rightarrow> (Exit bookmark (if short \<and> eventCount = 0 then Some very_short_error else None), None, s)
   | WarningTick \<Rightarrow> (Go bookmark eventCount, None, s)
   | Event ev \<Rightarrow>
       if we_Type ev = WatchError then (Exit bookmark (Some (oa_status A (we_Object ev))), None, s)
       else (case event_meta A r (we_Object ev) of
         None \<Rightarrow> (Go bookmark eventCount, None, s)
       | Some (rv, annotations) \<Rightarrow>
           (let bookmark' = (bookmark \<or> we_Type ev = WatchBookmark \<and> annotations InitialEventsAnnotationKey = Some ''true'');
                s' = apply_event S ev rv s
            in (if exitOnWatchListBookmarkReceived \<and> bookmark' then Exit True None else Go bookmark' (Suc eventCount),
                Some rv, s'))))"

section \<open>Listing\<close>

text \<open>The size of a page that the pager is told; none is the pager's own default.\<close>

definition list_page_size :: "Reflector \<Rightarrow> string \<Rightarrow> int option" where
  "list_page_size r optRV =
     (if rf_WatchListPageSize r \<noteq> 0 then Some (rf_WatchListPageSize r)
      else if rf_paginatedResult r then None
      else if optRV \<noteq> [] \<and> optRV \<noteq> ''0'' then Some 0
      else None)"

text \<open>A list answer: an error, a result that cannot be read, or the items with their version and whether they were paginated.\<close>

datatype 'o list_answer = ListFailed go_error | ListUnreadable go_error bool | Listed "'o list" string bool

definition list_needs_retry :: "api_errors \<Rightarrow> 'o list_answer \<Rightarrow> bool" where
  "list_needs_retry E answer = (case answer of
     ListFailed e \<Rightarrow> isExpiredError E e \<or> isTooLargeResourceVersionError E e
   | _ \<Rightarrow> False)"

definition note_paginated :: "string \<Rightarrow> bool \<Rightarrow> Reflector \<Rightarrow> Reflector" where
  "note_paginated optRV paginated r =
     (if optRV = ''0'' \<and> paginated then r\<lparr>rf_paginatedResult := True\<rparr> else r)"

text \<open>What \<open>list\<close> does with the last answer.\<close>

definition finish_list ::
  "('o, 's) ReflectorStore \<Rightarrow> string \<Rightarrow> 'o list_answer \<Rightarrow> Reflector \<Rightarrow> 's \<Rightarrow> go_error option \<times> Reflector \<times> 's" where
  "finish_list S optRV answer r s = (case answer of
     ListFailed e \<Rightarrow> (Some (Wrapped ''failed to list'' e), r, s)
   | ListUnreadable e paginated \<Rightarrow>
       (Some (GoErr ''unable to understand list result''),
        (note_paginated optRV paginated r)\<lparr>rf_isLastSyncResourceVersionUnavailable := False\<rparr>, s)
   | Listed items rv paginated \<Rightarrow>
       (let r' = (note_paginated optRV paginated r)\<lparr>rf_isLastSyncResourceVersionUnavailable := False\<rparr>
        in case st_Replace S items rv s of
             (Some e, s') \<Rightarrow> (Some (GoErr ''unable to sync list result''), r', s')
           | (None, s') \<Rightarrow> (None, r'\<lparr>rf_lastSyncResourceVersion := rv\<rparr>, s')))"

section \<open>Ends of a watch\<close>

datatype watch_next = Rewatch | RewatchAfterBackoff | ReturnNil

definition watch_end :: "api_errors \<Rightarrow> bool \<Rightarrow> go_error option \<Rightarrow> watch_next" where
  "watch_end E shouldRetry err = (case err of
     None \<Rightarrow> Rewatch
   | Some e \<Rightarrow>
       if isExpiredError E e then ReturnNil
       else if ae_tooManyRequests E e then RewatchAfterBackoff
       else if ae_internal E e \<and> shouldRetry then Rewatch
       else ReturnNil)"

text \<open>Whether a failed watch list is tried again, and the reflector it is tried with.\<close>

definition watchlist_retry :: "api_errors \<Rightarrow> go_error \<Rightarrow> Reflector \<Rightarrow> Reflector option" where
  "watchlist_retry E err r =
     (if isWatchErrorRetriable E err then Some r
      else if isExpiredError E err \<or> isTooLargeResourceVersionError E err
      then Some (r\<lparr>rf_isLastSyncResourceVersionUnavailable := True\<rparr>)
      else None)"

section \<open>The loop\<close>

text \<open>
  Where \<open>ListAndWatchWithContext\<close> is: at its start; at the top of the loop of \<open>watchList\<close> or in its stream;
  in \<open>list\<close> before the first and, with the page size and version of the first, before the second request; at
  the top of the loop of \<open>watch\<close>, with an open watch or without; backing off there; in the stream; returned.
\<close>

datatype phase = Starting | WatchListTop | WatchListStream bool nat | Listing | ListingAgain "int option" string
  | WatchTop bool | WatchBackoff | WatchStream bool nat | Finished "go_error option"

text \<open>
  The state of a run. \<open>ru_resyncing\<close> says that the resync goroutine runs, \<open>ru_errc\<close> is its channel, and
  \<open>ru_streamRV\<close> the local resource version of \<open>watchList\<close>.
\<close>

record 's run =
  ru_r :: Reflector
  ru_store :: 's
  ru_phase :: phase
  ru_stopped :: bool
  ru_resyncing :: bool
  ru_errc :: "go_error option"
  ru_streamRV :: string

datatype 'o label =
  Internal
| Cancel
| ResyncTick bool
| ListCall "int option" string "'o list_answer"
| WatchCall string bool "go_error option"
| Recv "'o received"

definition set_lastSync :: "string option \<Rightarrow> Reflector \<Rightarrow> Reflector" where
  "set_lastSync rv r = (case rv of None \<Rightarrow> r | Some v \<Rightarrow> r\<lparr>rf_lastSyncResourceVersion := v\<rparr>)"

definition after_list :: "go_error option \<Rightarrow> 's run \<Rightarrow> 's run" where
  "after_list err x = (case err of
     Some e \<Rightarrow> x\<lparr>ru_phase := Finished (Some e)\<rparr>
   | None \<Rightarrow> x\<lparr>ru_phase := WatchTop False, ru_resyncing := True, ru_errc := None\<rparr>)"

definition after_watchlist :: "'o received \<Rightarrow> turn \<Rightarrow> api_errors \<Rightarrow> 's run \<Rightarrow> 's run" where
  "after_watchlist msg t E x = (case t of
     Go b n \<Rightarrow> x\<lparr>ru_phase := WatchListStream b n\<rparr>
   | StopRequested \<Rightarrow> x\<lparr>ru_phase := Finished None\<rparr>
   | Exit b (Some e) \<Rightarrow>
       (case watchlist_retry E e (ru_r x) of
          Some r \<Rightarrow> x\<lparr>ru_r := r, ru_phase := WatchListTop\<rparr>
        | None \<Rightarrow> x\<lparr>ru_phase := Listing\<rparr>)
   | Exit b None \<Rightarrow>
       if b then x\<lparr>ru_r := (ru_r x)\<lparr>rf_isLastSyncResourceVersionUnavailable := False,
                                     rf_lastSyncResourceVersion := ru_streamRV x\<rparr>,
                   ru_phase := WatchTop True, ru_resyncing := True, ru_errc := None\<rparr>
       else x\<lparr>ru_phase := WatchListTop\<rparr>)"

definition after_watch :: "api_errors \<Rightarrow> bool \<Rightarrow> turn \<Rightarrow> 's run \<Rightarrow> 's run" where
  "after_watch E shouldRetry t x = (case t of
     Go b n \<Rightarrow> x\<lparr>ru_phase := WatchStream b n\<rparr>
   | StopRequested \<Rightarrow> x\<lparr>ru_phase := Finished None\<rparr>
   | Exit b err \<Rightarrow> (case watch_end E shouldRetry err of
       Rewatch \<Rightarrow> x\<lparr>ru_phase := WatchTop False\<rparr>
     | RewatchAfterBackoff \<Rightarrow> x\<lparr>ru_phase := WatchBackoff\<rparr>
     | ReturnNil \<Rightarrow> x\<lparr>ru_phase := Finished None\<rparr>))"

inductive reflect_step ::
  "'o accessors \<Rightarrow> ('o, 's) ReflectorStore \<Rightarrow> api_errors \<Rightarrow> 's run \<Rightarrow> 'o label \<Rightarrow> 's run \<Rightarrow> bool"
  for A S E where
  cancel: "reflect_step A S E x Cancel (x\<lparr>ru_stopped := True\<rparr>)"
| start: "ru_phase x = Starting \<Longrightarrow> reflect_step A S E x Internal
     (x\<lparr>ru_phase := (if rf_UseWatchList (ru_r x) = Some True then WatchListTop else Listing)\<rparr>)"
| watchlist_stop: "ru_phase x = WatchListTop \<Longrightarrow> ru_stopped x \<Longrightarrow>
     reflect_step A S E x Internal (x\<lparr>ru_phase := Finished None\<rparr>)"
| watchlist_open: "ru_phase x = WatchListTop \<Longrightarrow> \<not> ru_stopped x \<Longrightarrow>
     reflect_step A S E x (WatchCall (rewatchResourceVersion (ru_r x)) True None)
       (x\<lparr>ru_phase := WatchListStream False 0, ru_streamRV := []\<rparr>)"
| watchlist_retry: "ru_phase x = WatchListTop \<Longrightarrow> \<not> ru_stopped x \<Longrightarrow> watchlist_retry E e (ru_r x) = Some r \<Longrightarrow>
     reflect_step A S E x (WatchCall (rewatchResourceVersion (ru_r x)) True (Some e)) (x\<lparr>ru_r := r\<rparr>)"
| watchlist_fallback: "ru_phase x = WatchListTop \<Longrightarrow> \<not> ru_stopped x \<Longrightarrow> watchlist_retry E e (ru_r x) = None \<Longrightarrow>
     reflect_step A S E x (WatchCall (rewatchResourceVersion (ru_r x)) True (Some e)) (x\<lparr>ru_phase := Listing\<rparr>)"
| watchlist_turn: "ru_phase x = WatchListStream b n \<Longrightarrow> (msg = CtxDone \<Longrightarrow> ru_stopped x) \<Longrightarrow> (\<forall>e. msg \<noteq> ErrCh e) \<Longrightarrow>
     watch_turn A S (ru_r x) True b n msg (ru_store x) = (t, rv, s) \<Longrightarrow>
     reflect_step A S E x (Recv msg)
       (after_watchlist msg t E (x\<lparr>ru_store := s, ru_streamRV := (case rv of None \<Rightarrow> ru_streamRV x | Some v \<Rightarrow> v)\<rparr>))"
| list_canceled: "ru_phase x = Listing \<or> (\<exists>ps rv. ru_phase x = ListingAgain ps rv) \<Longrightarrow> ru_stopped x \<Longrightarrow>
     reflect_step A S E x Internal (after_list None x)"
| list_again: "ru_phase x = Listing \<Longrightarrow> list_needs_retry E answer \<Longrightarrow> rv = relistResourceVersion (ru_r x) \<Longrightarrow>
     ps = list_page_size (ru_r x) rv \<Longrightarrow>
     reflect_step A S E x (ListCall ps rv answer)
       (x\<lparr>ru_r := (ru_r x)\<lparr>rf_isLastSyncResourceVersionUnavailable := True\<rparr>, ru_phase := ListingAgain ps rv\<rparr>)"
| list_first: "ru_phase x = Listing \<Longrightarrow> \<not> list_needs_retry E answer \<Longrightarrow> rv = relistResourceVersion (ru_r x) \<Longrightarrow>
     ps = list_page_size (ru_r x) rv \<Longrightarrow> finish_list S rv answer (ru_r x) (ru_store x) = (err, r, s) \<Longrightarrow>
     reflect_step A S E x (ListCall ps rv answer) (after_list err (x\<lparr>ru_r := r, ru_store := s\<rparr>))"
| list_second: "ru_phase x = ListingAgain ps optRV \<Longrightarrow> rv = relistResourceVersion (ru_r x) \<Longrightarrow>
     finish_list S optRV answer (ru_r x) (ru_store x) = (err, r, s) \<Longrightarrow>
     reflect_step A S E x (ListCall ps rv answer) (after_list err (x\<lparr>ru_r := r, ru_store := s\<rparr>))"
| watch_stop: "ru_phase x = WatchTop b \<or> ru_phase x = WatchBackoff \<Longrightarrow> ru_stopped x \<Longrightarrow>
     reflect_step A S E x Internal (x\<lparr>ru_phase := Finished None\<rparr>)"
| watch_reuse: "ru_phase x = WatchTop True \<Longrightarrow> \<not> ru_stopped x \<Longrightarrow>
     reflect_step A S E x Internal (x\<lparr>ru_phase := WatchStream False 0\<rparr>)"
| watch_open: "ru_phase x = WatchTop False \<Longrightarrow> \<not> ru_stopped x \<Longrightarrow>
     reflect_step A S E x (WatchCall (rf_lastSyncResourceVersion (ru_r x)) False None)
       (x\<lparr>ru_phase := WatchStream False 0\<rparr>)"
| watch_failed: "ru_phase x = WatchTop False \<Longrightarrow> \<not> ru_stopped x \<Longrightarrow>
     reflect_step A S E x (WatchCall (rf_lastSyncResourceVersion (ru_r x)) False (Some e))
       (x\<lparr>ru_phase := (if isWatchErrorRetriable E e then WatchBackoff else Finished (Some e))\<rparr>)"
| watch_backed_off: "ru_phase x = WatchBackoff \<Longrightarrow> reflect_step A S E x Internal (x\<lparr>ru_phase := WatchTop False\<rparr>)"
| watch_turn: "ru_phase x = WatchStream b n \<Longrightarrow> (msg = CtxDone \<Longrightarrow> ru_stopped x) \<Longrightarrow> (\<forall>e. msg = ErrCh e \<longrightarrow> ru_errc x = Some e) \<Longrightarrow>
     watch_turn A S (ru_r x) False b n msg (ru_store x) = (t, rv, s) \<Longrightarrow>
     reflect_step A S E x (Recv msg)
       (after_watch E shouldRetry t (x\<lparr>ru_store := s, ru_r := set_lastSync rv (ru_r x),
          ru_errc := (if \<exists>e. msg = ErrCh e then None else ru_errc x)\<rparr>))"
| resync: "ru_resyncing x \<Longrightarrow> rf_resyncPeriod (ru_r x) \<noteq> 0 \<Longrightarrow> rf_ShouldResync (ru_r x) = None \<or> answer \<Longrightarrow>
     st_Resync S (ru_store x) = (err, s) \<Longrightarrow>
     (\<exists>b. ru_phase x = WatchTop b) \<or> ru_phase x = WatchBackoff \<or> (\<exists>b n. ru_phase x = WatchStream b n) \<Longrightarrow>
     reflect_step A S E x (ResyncTick answer) (x\<lparr>ru_store := s, ru_resyncing := (err = None), ru_errc := err\<rparr>)"
| restart: "ru_phase x = Finished err \<Longrightarrow> \<not> ru_stopped x \<Longrightarrow>
     reflect_step A S E x Internal (x\<lparr>ru_phase := Starting, ru_resyncing := False\<rparr>)"

inductive_cases reflect_CancelE: "reflect_step A S E x Cancel x'"
inductive_cases reflect_InternalE: "reflect_step A S E x Internal x'"
inductive_cases reflect_ResyncE: "reflect_step A S E x (ResyncTick a) x'"
inductive_cases reflect_ListE: "reflect_step A S E x (ListCall ps rv answer) x'"
inductive_cases reflect_WatchE: "reflect_step A S E x (WatchCall rv initial err) x'"
inductive_cases reflect_RecvE: "reflect_step A S E x (Recv msg) x'"

section \<open>A server with a history\<close>

text \<open>
  The history gives the objects of every version, by key; \<open>enc\<close> is the text of a version. A connection is
  at a version, all changes up to which it has delivered, or it still has objects of the initial state of
  a version to send. Versions above the current one are the server's future.
\<close>

record 'o history =
  hi_at :: "nat \<Rightarrow> string \<Rightarrow> 'o option"
  hi_enc :: "nat \<Rightarrow> string"
  hi_key :: "'o \<Rightarrow> string"

datatype 'o connection = NoConnection | Live nat | Initial nat "'o list"

record 'o server =
  sv_current :: nat
  sv_connection :: "'o connection"

definition keyed :: "'o history \<Rightarrow> 'o list \<Rightarrow> (string \<times> 'o) list" where
  "keyed H items = map (\<lambda>ob. (hi_key H ob, ob)) items"

definition snapshot :: "'o history \<Rightarrow> nat \<Rightarrow> 'o list \<Rightarrow> bool" where
  "snapshot H v items \<longleftrightarrow> distinct (map (hi_key H) items) \<and> map_of (keyed H items) = hi_at H v"

text \<open>What the request of a version may be answered from: at least that version, the newest if none is given.\<close>

definition fresh_enough :: "'o history \<Rightarrow> nat \<Rightarrow> string \<Rightarrow> nat \<Rightarrow> bool" where
  "fresh_enough H current rv v \<longleftrightarrow> v \<le> current \<and> (rv = [] \<longrightarrow> v = current) \<and> (\<forall>w. rv = hi_enc H w \<longrightarrow> w \<le> v)"

text \<open>An event takes the objects of one version to those of a later one.\<close>

definition changes :: "'o history \<Rightarrow> 'o watch_event \<Rightarrow> nat \<Rightarrow> nat \<Rightarrow> bool" where
  "changes H ev p q \<longleftrightarrow> p \<le> q \<and> (case we_Type ev of
     WatchAdded \<Rightarrow> hi_at H q = (hi_at H p)(hi_key H (we_Object ev) \<mapsto> we_Object ev)
   | WatchModified \<Rightarrow> hi_at H q = (hi_at H p)(hi_key H (we_Object ev) \<mapsto> we_Object ev)
   | WatchDeleted \<Rightarrow> hi_at H q = (hi_at H p)(hi_key H (we_Object ev) := None)
   | WatchBookmark \<Rightarrow> hi_at H q = hi_at H p
   | _ \<Rightarrow> False)"

definition carries :: "'o accessors \<Rightarrow> Reflector \<Rightarrow> 'o \<Rightarrow> string \<Rightarrow> bool" where
  "carries A r ob rv \<longleftrightarrow> (\<exists>ann. event_meta A r ob = Some (rv, ann))"

inductive server_step :: "'o accessors \<Rightarrow> 'o history \<Rightarrow> Reflector \<Rightarrow> 'o server \<Rightarrow> 'o label \<Rightarrow> 'o server \<Rightarrow> bool"
  for A H r where
  quiet: "server_step A H r y Internal y"
| cancel: "server_step A H r y Cancel y"
| resync: "server_step A H r y (ResyncTick a) y"
| list_failed: "(\<forall>items v b. answer \<noteq> Listed items v b) \<Longrightarrow> server_step A H r y (ListCall ps rv answer) y"
| listed: "snapshot H v items \<Longrightarrow> fresh_enough H (sv_current y) rv v \<Longrightarrow>
     server_step A H r y (ListCall ps rv (Listed items (hi_enc H v) paginated)) y"
| watch_failed: "server_step A H r y (WatchCall rv initial (Some e)) (y\<lparr>sv_connection := NoConnection\<rparr>)"
| watch_from: "rv = hi_enc H p \<Longrightarrow> p \<le> sv_current y \<Longrightarrow>
     server_step A H r y (WatchCall rv False None) (y\<lparr>sv_connection := Live p\<rparr>)"
| watch_initial: "snapshot H v items \<Longrightarrow> fresh_enough H (sv_current y) rv v \<Longrightarrow>
     server_step A H r y (WatchCall rv True None) (y\<lparr>sv_connection := Initial v items\<rparr>)"
| no_event: "(\<forall>ev. msg \<noteq> Event ev) \<Longrightarrow> server_step A H r y (Recv msg) y"
| error_event: "we_Type ev = WatchError \<Longrightarrow> server_step A H r y (Recv (Event ev)) y"
| change: "sv_connection y = Live p \<Longrightarrow> changes H ev p q \<Longrightarrow> q \<le> sv_current y \<Longrightarrow>
     carries A r (we_Object ev) (hi_enc H q) \<Longrightarrow>
     server_step A H r y (Recv (Event ev)) (y\<lparr>sv_connection := Live q\<rparr>)"
| initial_object: "sv_connection y = Initial v (ob # obs) \<Longrightarrow> carries A r ob rv \<Longrightarrow>
     server_step A H r y (Recv (Event \<lparr>we_Type = WatchAdded, we_Object = ob\<rparr>))
       (y\<lparr>sv_connection := Initial v obs\<rparr>)"
| initial_end: "sv_connection y = Initial v [] \<Longrightarrow>
     event_meta A r (we_Object ev) = Some (hi_enc H v, ann) \<Longrightarrow> ann InitialEventsAnnotationKey = Some ''true'' \<Longrightarrow>
     we_Type ev = WatchBookmark \<Longrightarrow>
     server_step A H r y (Recv (Event ev)) (y\<lparr>sv_connection := Live v\<rparr>)"

text \<open>A run of the reflector with the server, whose history goes on at any time.\<close>

inductive run_with ::
  "'o accessors \<Rightarrow> ('o, 's) ReflectorStore \<Rightarrow> api_errors \<Rightarrow> 'o history \<Rightarrow> 's run \<Rightarrow> 'o server \<Rightarrow> 's run \<Rightarrow> 'o server \<Rightarrow> bool"
  for A S E H x y where
  nothing: "run_with A S E H x y x y"
| together: "run_with A S E H x y x' y' \<Longrightarrow> reflect_step A S E x' l x'' \<Longrightarrow> server_step A H (ru_r x') y' l y'' \<Longrightarrow>
     run_with A S E H x y x'' y''"
| write_on: "run_with A S E H x y x' y' \<Longrightarrow> sv_current y' \<le> n \<Longrightarrow> run_with A S E H x y x' (y'\<lparr>sv_current := n\<rparr>)"

text \<open>What the store promises: its contents follow the calls.\<close>

definition reflector_store_laws :: "('o, 's) ReflectorStore \<Rightarrow> 'o history \<Rightarrow> ('s \<Rightarrow> string \<Rightarrow> 'o option) \<Rightarrow> bool" where
  "reflector_store_laws S H contents \<longleftrightarrow>
     (\<forall>ob s. contents (snd (st_Add S ob s)) = (contents s)(hi_key H ob \<mapsto> ob)) \<and>
     (\<forall>ob s. contents (snd (st_Update S ob s)) = (contents s)(hi_key H ob \<mapsto> ob)) \<and>
     (\<forall>ob s. contents (snd (st_Delete S ob s)) = (contents s)(hi_key H ob := None)) \<and>
     (\<forall>items rv s. fst (st_Replace S items rv s) = None \<and>
        (distinct (map (hi_key H) items) \<longrightarrow> contents (snd (st_Replace S items rv s)) = map_of (keyed H items))) \<and>
     (\<forall>s. contents (snd (st_Resync S s)) = contents s) \<and>
     (\<forall>f rv s. st_UpdateResourceVersion S = Some f \<longrightarrow> contents (f rv s) = contents s)"

definition history_laws :: "'o history \<Rightarrow> bool" where
  "history_laws H \<longleftrightarrow> inj (hi_enc H) \<and> [] \<notin> range (hi_enc H) \<and> ''0'' \<notin> range (hi_enc H)"

definition new_run :: "Reflector \<Rightarrow> 's \<Rightarrow> 's run" where
  "new_run r s = \<lparr>ru_r = r, ru_store = s, ru_phase = Starting, ru_stopped = False, ru_resyncing = False,
     ru_errc = None, ru_streamRV = []\<rparr>"

definition new_server :: "nat \<Rightarrow> 'o server" where
  "new_server n = \<lparr>sv_current = n, sv_connection = NoConnection\<rparr>"

section \<open>The store mirrors the server\<close>

lemma apply_event_contents:
  assumes "reflector_store_laws S H contents" "changes H ev p q" "contents s = hi_at H p"
  shows "contents (apply_event S ev rv s) = hi_at H q"
  using assms by (auto simp: reflector_store_laws_def changes_def apply_event_def Let_def split: watch_type.splits option.splits)

text \<open>The reflector only ever watches without the initial state, and its store is a version of the history.\<close>

definition synced_at :: "'o history \<Rightarrow> ('s \<Rightarrow> string \<Rightarrow> 'o option) \<Rightarrow> 's run \<Rightarrow> nat \<Rightarrow> bool" where
  "synced_at H contents x p \<longleftrightarrow> rf_lastSyncResourceVersion (ru_r x) = hi_enc H p \<and> contents (ru_store x) = hi_at H p"

definition mirrors :: "'o history \<Rightarrow> ('s \<Rightarrow> string \<Rightarrow> 'o option) \<Rightarrow> 's run \<Rightarrow> 'o server \<Rightarrow> bool" where
  "mirrors H contents x y \<longleftrightarrow>
     rf_UseWatchList (ru_r x) \<noteq> Some True \<and>
     (case ru_phase x of
        WatchListTop \<Rightarrow> False
      | WatchListStream b n \<Rightarrow> False
      | WatchTop b \<Rightarrow> \<not> b
      | WatchStream b n \<Rightarrow> \<exists>p. sv_connection y = Live p \<and> synced_at H contents x p
      | _ \<Rightarrow> True) \<and>
     (rf_lastSyncResourceVersion (ru_r x) = [] \<or> (\<exists>p \<le> sv_current y. synced_at H contents x p))"

text \<open>One step keeps this, and does not go back to an older version.\<close>

definition not_before :: "'o history \<Rightarrow> 's run \<Rightarrow> 's run \<Rightarrow> bool" where
  "not_before H x x' \<longleftrightarrow> (\<forall>p. rf_lastSyncResourceVersion (ru_r x) = hi_enc H p \<longrightarrow>
     (\<exists>p' \<ge> p. rf_lastSyncResourceVersion (ru_r x') = hi_enc H p'))"

lemma not_before_same: "rf_lastSyncResourceVersion (ru_r x') = rf_lastSyncResourceVersion (ru_r x) \<Longrightarrow> not_before H x x'"
  by (auto simp: not_before_def)

lemma not_before_trans: "not_before H x x' \<Longrightarrow> not_before H x' x'' \<Longrightarrow> not_before H x x''"
  unfolding not_before_def by (meson order_trans)

lemma watch_turn_cases:
  assumes "watch_turn A S r False b n msg s = (t, rv, s')"
  shows "(\<exists>ev ann v. msg = Event ev \<and> we_Type ev \<noteq> WatchError \<and> event_meta A r (we_Object ev) = Some (v, ann) \<and>
            rv = Some v \<and> s' = apply_event S ev v s \<and> (\<exists>b' n'. t = Go b' n')) \<or>
         (rv = None \<and> s' = s \<and> (\<exists>ev. msg = Event ev \<and> we_Type ev \<noteq> WatchError \<and> event_meta A r (we_Object ev) = None)) \<or>
         (rv = None \<and> s' = s \<and> (\<forall>ev. msg = Event ev \<longrightarrow> we_Type ev = WatchError) \<and>
            (msg = WarningTick \<or> (\<forall>b' n'. t \<noteq> Go b' n')))"
  using assms by (auto simp: watch_turn_def Let_def split: received.splits if_splits option.splits prod.splits)

inductive_cases server_ListedE: "server_step A H r y (ListCall ps rv (Listed items v paginated)) y'"
inductive_cases server_WatchE: "server_step A H r y (WatchCall rv initial err) y'"
inductive_cases server_EventE: "server_step A H r y (Recv (Event ev)) y'"

lemma server_no_event: "server_step A H r y (Recv msg) y' \<Longrightarrow> (\<forall>ev. msg = Event ev \<longrightarrow> we_Type ev = WatchError) \<Longrightarrow>
    y' = y"
  by (erule server_step.cases) (auto simp: changes_def)

lemma server_quiet:
  "server_step A H r y Internal y' \<Longrightarrow> y' = y" "server_step A H r y Cancel y' \<Longrightarrow> y' = y"
  "server_step A H r y (ResyncTick a) y' \<Longrightarrow> y' = y" "server_step A H r y (ListCall ps rv answer) y' \<Longrightarrow> y' = y"
  by (auto elim: server_step.cases)

lemma server_keeps_current: "server_step A H r y l y' \<Longrightarrow> sv_current y' = sv_current y"
  by (auto elim: server_step.cases)

text \<open>A list that is answered takes the reflector to the version of the answer, which is no older.\<close>

lemma finish_list_cases:
  assumes "reflector_store_laws S H contents" "history_laws H" "finish_list S optRV answer r s = (err, r', s')"
    and "server_step A H r0 y (ListCall ps (relistResourceVersion r) answer) y'"
    and "rf_lastSyncResourceVersion r = [] \<or> (\<exists>p \<le> sv_current y. rf_lastSyncResourceVersion r = hi_enc H p)"
  shows "rf_UseWatchList r' = rf_UseWatchList r \<and>
     (err \<noteq> None \<and> s' = s \<and> rf_lastSyncResourceVersion r' = rf_lastSyncResourceVersion r \<or>
      err = None \<and> (\<exists>v \<le> sv_current y. rf_lastSyncResourceVersion r' = hi_enc H v \<and> contents s' = hi_at H v \<and>
        (\<forall>p. rf_lastSyncResourceVersion r = hi_enc H p \<longrightarrow> p \<le> v)))"
proof (cases answer)
  case (Listed items rv paginated)
  then obtain v where v: "snapshot H v items" "fresh_enough H (sv_current y) (relistResourceVersion r) v" "rv = hi_enc H v"
    using assms(4) by (auto elim!: server_ListedE)
  have "fst (st_Replace S items rv s) = None" "contents (snd (st_Replace S items rv s)) = hi_at H v"
    using assms(1) v(1) by (simp_all add: reflector_store_laws_def snapshot_def)
  then have fin: "err = None" "s' = snd (st_Replace S items rv s)" "contents s' = hi_at H v"
    "rf_lastSyncResourceVersion r' = hi_enc H v" "rf_UseWatchList r' = rf_UseWatchList r"
    using assms(3) Listed v(3) by (auto simp: finish_list_def note_paginated_def Let_def split: prod.splits option.splits)
  have "p \<le> v" if p: "rf_lastSyncResourceVersion r = hi_enc H p" for p
  proof -
    have "hi_enc H p \<noteq> []" using assms(2) by (metis history_laws_def rangeI)
    then have "p \<le> sv_current y"
      using assms(2,5) p by (auto simp: history_laws_def dest: injD)
    then show ?thesis
      using v(2) p \<open>hi_enc H p \<noteq> []\<close> by (auto simp: relistResourceVersion_def fresh_enough_def split: if_splits)
  qed
  then show ?thesis using fin v(2) by (auto simp: fresh_enough_def)
qed (use assms(3) in \<open>auto simp: finish_list_def note_paginated_def\<close>)

lemma history_encD: "history_laws H \<Longrightarrow> hi_enc H p = hi_enc H q \<longleftrightarrow> p = q" "history_laws H \<Longrightarrow> hi_enc H p \<noteq> []"
  "history_laws H \<Longrightarrow> hi_enc H p \<noteq> ''0''" "history_laws H \<Longrightarrow> [] \<noteq> hi_enc H p" "history_laws H \<Longrightarrow> ''0'' \<noteq> hi_enc H p"
  by (auto simp: history_laws_def dest: injD) (metis rangeI)+

lemma mirrors_step:
  assumes laws: "reflector_store_laws S H contents" "history_laws H"
    and inv: "mirrors H contents x y"
    and steps: "reflect_step A S E x l x'" "server_step A H (ru_r x) y l y'"
  shows "mirrors H contents x' y' \<and> not_before H x x'"
  using steps(1)
proof cases
  case (watch_turn b n msg t rv s shouldRetry)
  obtain p where p: "sv_connection y = Live p" "synced_at H contents x p"
    using inv watch_turn by (auto simp: mirrors_def)
  then have "p \<le> sv_current y"
    using inv history_encD [OF laws(2)] by (auto simp: mirrors_def synced_at_def)
  consider (applied) ev ann v b' n' where "msg = Event ev" "we_Type ev \<noteq> WatchError"
      "event_meta A (ru_r x) (we_Object ev) = Some (v, ann)"
      "rv = Some v" "s = apply_event S ev v (ru_store x)" "t = Go b' n'"
    | (skipped) ev where "msg = Event ev" "we_Type ev \<noteq> WatchError" "event_meta A (ru_r x) (we_Object ev) = None"
    | (same) "rv = None" "s = ru_store x" "\<forall>ev. msg = Event ev \<longrightarrow> we_Type ev = WatchError"
    using watch_turn_cases [OF watch_turn(6)] by blast
  then show ?thesis
  proof cases
    case ev: applied
    obtain q where q: "changes H ev p q" "q \<le> sv_current y" "carries A (ru_r x) (we_Object ev) (hi_enc H q)"
      "y' = y\<lparr>sv_connection := Live q\<rparr>"
      using steps(2) p(1) ev(1,2) watch_turn by (auto elim!: server_EventE)
    have "v = hi_enc H q" using q(3) ev(3) by (auto simp: carries_def)
    moreover have "contents s = hi_at H q"
      using apply_event_contents [OF laws(1) q(1)] p(2) ev(5) by (simp add: synced_at_def)
    moreover have "p \<le> q" using q(1) by (simp add: changes_def)
    ultimately show ?thesis
      using watch_turn(2) ev q(2,4) p(2) inv laws(2)
      by (auto simp: mirrors_def synced_at_def not_before_def after_watch_def set_lastSync_def history_laws_def dest: injD)
  next
    case skipped
    then show ?thesis
      using steps(2) p(1) watch_turn by (auto simp: carries_def elim!: server_EventE)
  next
    case same
    have "y' = y" using steps(2) watch_turn(1) same(3) server_no_event by metis
    then show ?thesis
      using watch_turn(2,3) same p inv
      by (auto simp: mirrors_def synced_at_def not_before_def after_watch_def set_lastSync_def
          split: turn.split watch_next.split)
  qed
next
  case (list_first answer rv ps err r s)
  have "rf_lastSyncResourceVersion (ru_r x) = [] \<or> (\<exists>p \<le> sv_current y. rf_lastSyncResourceVersion (ru_r x) = hi_enc H p)"
    using inv by (auto simp: mirrors_def synced_at_def)
  from finish_list_cases [OF laws list_first(7) _ this] list_first(1,5) steps(2) show ?thesis
    using inv laws(2) server_quiet(4) list_first(2)
    by (fastforce simp: mirrors_def synced_at_def not_before_def after_list_def split: option.splits)
next
  case (list_second ps optRV rv answer err r s)
  have "rf_lastSyncResourceVersion (ru_r x) = [] \<or> (\<exists>p \<le> sv_current y. rf_lastSyncResourceVersion (ru_r x) = hi_enc H p)"
    using inv by (auto simp: mirrors_def synced_at_def)
  from finish_list_cases [OF laws list_second(5) _ this] list_second(1,4) steps(2) show ?thesis
    using inv laws(2) server_quiet(4) list_second(2)
    by (fastforce simp: mirrors_def synced_at_def not_before_def after_list_def split: option.splits)
next
  case (resync answer err s)
  then have "contents s = contents (ru_store x)"
    using laws(1) by (metis reflector_store_laws_def snd_conv)
  moreover have "y' = y" using steps(2) resync(1) server_quiet(3) by metis
  ultimately show ?thesis
    using inv resync(2) by (auto simp: mirrors_def synced_at_def not_before_def split: phase.splits)
qed (use steps(2) inv history_encD [OF laws(2)] in \<open>auto simp: mirrors_def synced_at_def not_before_def after_list_def
      dest!: server_quiet elim!: server_WatchE split: if_splits phase.splits\<close>)

lemma mirrors_new_run:
  "rf_UseWatchList r \<noteq> Some True \<Longrightarrow> rf_lastSyncResourceVersion r = [] \<Longrightarrow> mirrors H contents (new_run r s) (new_server n)"
  by (simp add: mirrors_def new_run_def)

lemma mirrors_write_on: "mirrors H contents x y \<Longrightarrow> sv_current y \<le> n \<Longrightarrow> mirrors H contents x (y\<lparr>sv_current := n\<rparr>)"
  by (fastforce simp: mirrors_def split: phase.splits)

lemma mirrors_run:
  assumes "run_with A S E H x y x' y'"
    and "reflector_store_laws S H contents" "history_laws H" "mirrors H contents x y"
  shows "mirrors H contents x' y' \<and> not_before H x x'"
  using assms(1)
proof induction
  case nothing
  then show ?case using assms(4) by (simp add: not_before_same)
next
  case (together x' y' l x'' y'')
  then have "mirrors H contents x'' y'' \<and> not_before H x' x''"
    using mirrors_step [OF assms(2,3)] by blast
  then show ?case using together.IH not_before_trans by blast
next
  case (write_on x' y' n)
  then show ?case using mirrors_write_on by blast
qed

text \<open>
  C18. The store mirrors the server. In every run of a reflector that lists and watches, with a server
  that answers lists with snapshots and watches with the changes after a version, whatever errors,
  closed watches, restarts, resyncs and cancellations come between, the contents of the store are, as
  soon as the reflector reports a version, the server's objects at exactly that version.
\<close>

theorem reflector_mirrors_server:
  assumes "reflector_store_laws S H contents" "history_laws H"
    and "rf_UseWatchList r \<noteq> Some True" "rf_lastSyncResourceVersion r = []"
    and "run_with A S E H (new_run r s) (new_server n) x y" "rf_lastSyncResourceVersion (ru_r x) \<noteq> []"
  shows "\<exists>p \<le> sv_current y. rf_lastSyncResourceVersion (ru_r x) = hi_enc H p \<and> contents (ru_store x) = hi_at H p"
  using mirrors_run [OF assms(5,1,2) mirrors_new_run [OF assms(3,4)]] assms(6)
  by (auto simp: mirrors_def synced_at_def)

text \<open>
  C20. The version a reflector reports never goes back: neither a new watch nor a new list, after an
  expired version or an error, takes the store to an older state of the server than it had shown.
\<close>

theorem reflector_never_goes_back:
  assumes "reflector_store_laws S H contents" "history_laws H"
    and "rf_UseWatchList r \<noteq> Some True" "rf_lastSyncResourceVersion r = []"
    and "run_with A S E H (new_run r s) (new_server n) x y" "run_with A S E H x y x' y'"
    and "rf_lastSyncResourceVersion (ru_r x) = hi_enc H p"
  shows "\<exists>p' \<ge> p. rf_lastSyncResourceVersion (ru_r x') = hi_enc H p'"
  using mirrors_run [OF assms(6,1,2)] mirrors_run [OF assms(5,1,2) mirrors_new_run [OF assms(3,4)]] assms(7)
  by (auto simp: not_before_def)

text \<open>
  An object with its key, its version and whether it ends the initial events. It is there at version 1
  and deleted at version 2.
\<close>

definition sample_history :: "(string \<times> string \<times> bool) history" where
  "sample_history = \<lparr>hi_at = (\<lambda>v. if v = 1 then [''a'' \<mapsto> (''a'', ''vi'', False)] else (\<lambda>_. None)),
     hi_enc = (\<lambda>v. CHR ''v'' # replicate v (CHR ''i'')), hi_key = fst\<rparr>"

definition sample_accessors :: "(string \<times> string \<times> bool) accessors" where
  "sample_accessors = \<lparr>oa_type = (\<lambda>_. 0), oa_gvk = (\<lambda>_. ([], [], [])),
     oa_meta = (\<lambda>(k, rv, final). Inr (rv, \<lambda>name. if final then Some ''true'' else None)), oa_status = (\<lambda>_. GoErr ''gone'')\<rparr>"

definition sample_store :: "(string \<times> string \<times> bool, string \<Rightarrow> (string \<times> string \<times> bool) option) ReflectorStore" where
  "sample_store = \<lparr>st_Add = (\<lambda>ob s. (None, s(fst ob \<mapsto> ob))), st_Update = (\<lambda>ob s. (None, s(fst ob \<mapsto> ob))),
     st_Delete = (\<lambda>ob s. (None, s(fst ob := None))), st_Replace = (\<lambda>items rv s. (None, map_of (map (\<lambda>ob. (fst ob, ob)) items))),
     st_Resync = (\<lambda>s. (None, s)), st_UpdateResourceVersion = None\<rparr>"

definition sample_errors :: api_errors where
  "sample_errors = \<lparr>ae_expired = (\<lambda>e. e = GoErr ''gone''), ae_gone = (\<lambda>_. False), ae_causeTooLarge = (\<lambda>_. False),
     ae_timeout = (\<lambda>_. False), ae_tooManyRequests = (\<lambda>_. False), ae_internal = (\<lambda>_. False),
     ae_connectionRefused = (\<lambda>_. False), ae_apiStatus = (\<lambda>_. None)\<rparr>"

definition sample_reflector :: "bool \<Rightarrow> Reflector" where
  "sample_reflector watchList = NewReflectorWithOptions False None None
     \<lparr>ro_ResyncPeriod = 0, ro_MinWatchTimeout = 0, ro_UseWatchList = Some watchList\<rparr>"

lemmas sample_defs = sample_history_def sample_accessors_def sample_store_def sample_errors_def sample_reflector_def
  NewReflectorWithOptions_def new_run_def new_server_def

lemma sample_laws: "reflector_store_laws sample_store sample_history id" "history_laws sample_history"
  by (auto simp: sample_store_def sample_history_def reflector_store_laws_def history_laws_def keyed_def inj_def
      replicate_eq_replicate)

text \<open>The runs of the witnesses, one step after the other.\<close>

definition sample_object :: "string \<Rightarrow> bool \<Rightarrow> string \<times> string \<times> bool" where
  "sample_object rv final = (''a'', rv, final)"

definition sample_synced :: "bool \<Rightarrow> (string \<Rightarrow> (string \<times> string \<times> bool) option) run" where
  "sample_synced watchList = (new_run (sample_reflector watchList) [''a'' \<mapsto> sample_object ''vi'' False])
     \<lparr>ru_r := (sample_reflector watchList)\<lparr>rf_lastSyncResourceVersion := ''vi''\<rparr>, ru_phase := WatchTop watchList, ru_resyncing := True\<rparr>"

abbreviation sample_run where
  "sample_run \<equiv> run_with sample_accessors sample_store sample_errors sample_history"

lemma sample_enc: "hi_enc sample_history 0 = ''v''" "hi_enc sample_history (Suc 0) = ''vi''" "hi_enc sample_history 2 = ''vii''"
  by (simp_all add: sample_history_def numeral_2_eq_2)

lemma sample_reflector_simps [simp]: "rf_UseWatchList (sample_reflector b) = Some b"
  "rf_lastSyncResourceVersion (sample_reflector b) = []" "event_meta A (sample_reflector b) ob = (case oa_meta A ob of Inl e \<Rightarrow> None | Inr m \<Rightarrow> Some m)"
  "event_meta A (sample_reflector b\<lparr>rf_lastSyncResourceVersion := v\<rparr>) ob = (case oa_meta A ob of Inl e \<Rightarrow> None | Inr m \<Rightarrow> Some m)"
  by (simp_all add: sample_defs event_meta_def)

lemma sample_listed:
  "sample_run (new_run (sample_reflector False) (\<lambda>_. None)) (new_server 1) (sample_synced False) (new_server 1)"
proof -
  let ?x0 = "new_run (sample_reflector False) (\<lambda>_. None)" and ?y = "new_server 1"
  let ?x1 = "?x0\<lparr>ru_phase := Listing\<rparr>"
  have "reflect_step sample_accessors sample_store sample_errors ?x0 Internal ?x1"
    using start [of ?x0 sample_accessors sample_store sample_errors] by (simp add: sample_defs)
  from run_with.together [OF run_with.nothing this, of sample_history ?y ?y]
  have r: "sample_run ?x0 ?y ?x1 ?y" by (simp add: quiet)
  let ?answer = "Listed [sample_object ''vi'' False] (hi_enc sample_history 1) False"
  have "reflect_step sample_accessors sample_store sample_errors ?x1 (ListCall None ''0'' ?answer)
      (after_list None (?x1\<lparr>ru_r := (sample_reflector False)\<lparr>rf_lastSyncResourceVersion := ''vi''\<rparr>,
         ru_store := [''a'' \<mapsto> sample_object ''vi'' False]\<rparr>))"
    by (rule list_first)
      (simp_all add: sample_defs list_needs_retry_def relistResourceVersion_def list_page_size_def finish_list_def
        note_paginated_def sample_object_def)
  moreover have "server_step sample_accessors sample_history (ru_r ?x1) ?y (ListCall None ''0'' ?answer) ?y"
    by (rule listed) (auto simp: sample_defs snapshot_def keyed_def fresh_enough_def sample_object_def)
  ultimately have "sample_run ?x0 ?y (after_list None (?x1\<lparr>ru_r := (sample_reflector False)\<lparr>rf_lastSyncResourceVersion := ''vi''\<rparr>,
         ru_store := [''a'' \<mapsto> sample_object ''vi'' False]\<rparr>)) ?y"
    by (rule together [OF r])
  then show ?thesis by (simp add: after_list_def sample_synced_def new_run_def)
qed

theorem reflector_mirrors_server_witness:
  "\<exists>p \<le> 1. ''vi'' = hi_enc sample_history p \<and> [''a'' \<mapsto> sample_object ''vi'' False] = hi_at sample_history p"
  using reflector_mirrors_server [OF sample_laws _ _ sample_listed]
  by (simp add: sample_synced_def sample_defs)

lemma sample_deleted:
  "\<exists>x y. sample_run (sample_synced False) (new_server 1) x y \<and> rf_lastSyncResourceVersion (ru_r x) = ''vii'' \<and> ru_store x = (\<lambda>_. None)"
proof -
  let ?x0 = "sample_synced False" and ?y0 = "new_server 1 :: (string \<times> string \<times> bool) server"
  let ?x1 = "?x0\<lparr>ru_phase := WatchStream False 0\<rparr>" and ?y1 = "?y0\<lparr>sv_connection := Live 1\<rparr>"
  have "reflect_step sample_accessors sample_store sample_errors ?x0 (WatchCall ''vi'' False None) ?x1"
    using watch_open [of ?x0 sample_accessors sample_store sample_errors] by (simp add: sample_synced_def sample_defs)
  moreover have "server_step sample_accessors sample_history (ru_r ?x0) ?y0 (WatchCall ''vi'' False None) ?y1"
    by (rule watch_from) (simp_all add: sample_enc new_server_def)
  ultimately have "sample_run ?x0 ?y0 ?x1 ?y1"
    by (rule run_with.together [OF run_with.nothing])
  then have r: "sample_run ?x0 ?y0 ?x1 (?y1\<lparr>sv_current := 2\<rparr>)"
    by (rule run_with.write_on) (simp add: new_server_def)
  let ?ev = "Event \<lparr>we_Type = WatchDeleted, we_Object = sample_object ''vii'' False\<rparr>"
  have "watch_turn sample_accessors sample_store (ru_r ?x1) False False 0 ?ev (ru_store ?x1) = (Go False 1, Some ''vii'', \<lambda>_. None)"
    by (auto simp: watch_turn_def apply_event_def sample_synced_def sample_accessors_def sample_store_def sample_object_def new_run_def)
  then have "reflect_step sample_accessors sample_store sample_errors ?x1 (Recv ?ev)
      (after_watch sample_errors False (Go False 1) (?x1\<lparr>ru_store := (\<lambda>_. None), ru_r := set_lastSync (Some ''vii'') (ru_r ?x1),
         ru_errc := (if \<exists>e. ?ev = ErrCh e then None else ru_errc ?x1)\<rparr>))"
    by (intro watch_turn [where b = False and n = 0]) simp_all
  moreover have "server_step sample_accessors sample_history (ru_r ?x1) (?y1\<lparr>sv_current := 2\<rparr>) (Recv ?ev)
      (?y1\<lparr>sv_current := 2, sv_connection := Live 2\<rparr>)"
    using change [of "?y1\<lparr>sv_current := 2\<rparr>" 1 sample_history "\<lparr>we_Type = WatchDeleted, we_Object = sample_object ''vii'' False\<rparr>" 2]
    by (simp add: changes_def carries_def sample_synced_def sample_object_def sample_history_def sample_accessors_def numeral_2_eq_2)
  ultimately have "sample_run ?x0 ?y0
      (after_watch sample_errors False (Go False 1) (?x1\<lparr>ru_store := (\<lambda>_. None), ru_r := set_lastSync (Some ''vii'') (ru_r ?x1),
         ru_errc := (if \<exists>e. ?ev = ErrCh e then None else ru_errc ?x1)\<rparr>)) (?y1\<lparr>sv_current := 2, sv_connection := Live 2\<rparr>)"
    by (rule run_with.together [OF r])
  then show ?thesis by (intro exI conjI) (assumption, simp_all add: after_watch_def set_lastSync_def)
qed

theorem reflector_never_goes_back_witness:
  "\<exists>x y p'. sample_run (sample_synced False) (new_server 1) x y \<and> 1 \<le> p' \<and> rf_lastSyncResourceVersion (ru_r x) = hi_enc sample_history p' \<and>
     ru_store x = (\<lambda>_. None)"
proof -
  obtain x y where run: "sample_run (sample_synced False) (new_server 1) x y" "ru_store x = (\<lambda>_. None)"
    using sample_deleted by blast
  then show ?thesis
    using reflector_never_goes_back [OF sample_laws _ _ sample_listed run(1), of 1]
    by (auto simp: sample_synced_def sample_enc)
qed

section \<open>The reflector recovers\<close>

lemma run_trans: "run_with A S E H x1 y1 x2 y2 \<Longrightarrow> run_with A S E H x y x1 y1 \<Longrightarrow> run_with A S E H x y x2 y2"
  by (induction rule: run_with.induct) (blast intro: run_with.intros)+

lemma run_step: "reflect_step A S E x l x' \<Longrightarrow> server_step A H (ru_r x) y l y' \<Longrightarrow> run_with A S E H x' y' x'' y'' \<Longrightarrow>
    run_with A S E H x y x'' y''"
  by (rule run_trans [OF _ run_with.together [OF run_with.nothing]])

lemma run_internal: "reflect_step A S E x Internal x' \<Longrightarrow> run_with A S E H x' y x'' y'' \<Longrightarrow> run_with A S E H x y x'' y''"
  by (rule run_step [OF _ quiet])

definition can_sync :: "'o accessors \<Rightarrow> ('o, 's) ReflectorStore \<Rightarrow> api_errors \<Rightarrow> 'o history \<Rightarrow> ('s \<Rightarrow> string \<Rightarrow> 'o option) \<Rightarrow>
    's run \<Rightarrow> 'o server \<Rightarrow> bool" where
  "can_sync A S E H contents x y \<longleftrightarrow>
     (\<exists>x' y'. run_with A S E H x y x' y' \<and> sv_current y' = sv_current y \<and> synced_at H contents x' (sv_current y))"

lemma can_syncI: "run_with A S E H x y x' y' \<Longrightarrow> can_sync A S E H contents x' y' \<Longrightarrow> sv_current y' = sv_current y \<Longrightarrow>
    can_sync A S E H contents x y"
  unfolding can_sync_def using run_trans by metis

lemma can_sync_internal: "reflect_step A S E x Internal x' \<Longrightarrow> can_sync A S E H contents x' y \<Longrightarrow> can_sync A S E H contents x y"
  by (rule can_syncI [OF run_internal [OF _ run_with.nothing]]) simp_all

lemma can_sync_listing:
  assumes "reflector_store_laws S H contents" "history_laws H" "\<exists>items. snapshot H (sv_current y) items"
    and "ru_phase x = Listing \<or> (\<exists>ps rv. ru_phase x = ListingAgain ps rv)"
    and "rf_lastSyncResourceVersion (ru_r x) = [] \<or> (\<exists>p \<le> sv_current y. rf_lastSyncResourceVersion (ru_r x) = hi_enc H p)"
  shows "can_sync A S E H contents x y"
proof -
  obtain items where items: "snapshot H (sv_current y) items" using assms(3) by blast
  let ?rv = "relistResourceVersion (ru_r x)" and ?answer = "Listed items (hi_enc H (sv_current y)) False"
  have "fresh_enough H (sv_current y) ?rv (sv_current y)"
    using assms(5) history_encD [OF assms(2)] by (auto simp: fresh_enough_def relistResourceVersion_def)
  then have sv: "server_step A H (ru_r x) y (ListCall ps ?rv ?answer) y" for ps
    using items by (rule_tac listed)
  have fin: "\<exists>r s. finish_list S optRV ?answer (ru_r x) (ru_store x) = (None, r, s) \<and>
      rf_lastSyncResourceVersion r = hi_enc H (sv_current y) \<and> contents s = hi_at H (sv_current y)" for optRV
  proof -
    have "fst (st_Replace S items (hi_enc H (sv_current y)) (ru_store x)) = None"
      "contents (snd (st_Replace S items (hi_enc H (sv_current y)) (ru_store x))) = hi_at H (sv_current y)"
      using assms(1) items by (simp_all add: reflector_store_laws_def snapshot_def)
    then show ?thesis by (auto simp: finish_list_def Let_def split: prod.splits)
  qed
  from assms(4) obtain ps r s where step: "reflect_step A S E x (ListCall ps ?rv ?answer) (after_list None (x\<lparr>ru_r := r, ru_store := s\<rparr>))"
    and ok: "rf_lastSyncResourceVersion r = hi_enc H (sv_current y)" "contents s = hi_at H (sv_current y)"
  proof (elim disjE exE)
    assume "ru_phase x = Listing"
    moreover obtain r s where "finish_list S ?rv ?answer (ru_r x) (ru_store x) = (None, r, s)"
      "rf_lastSyncResourceVersion r = hi_enc H (sv_current y)" "contents s = hi_at H (sv_current y)"
      using fin by blast
    ultimately show thesis
      by (intro that list_first) (auto simp: list_needs_retry_def)
  next
    fix ps optRV
    assume "ru_phase x = ListingAgain ps optRV"
    moreover obtain r s where "finish_list S optRV ?answer (ru_r x) (ru_store x) = (None, r, s)"
      "rf_lastSyncResourceVersion r = hi_enc H (sv_current y)" "contents s = hi_at H (sv_current y)"
      using fin by blast
    ultimately show thesis
      by (intro that list_second) auto
  qed
  have "run_with A S E H x y (after_list None (x\<lparr>ru_r := r, ru_store := s\<rparr>)) y"
    by (rule run_step [OF step sv run_with.nothing])
  moreover have "synced_at H contents (after_list None (x\<lparr>ru_r := r, ru_store := s\<rparr>)) (sv_current y)"
    using ok by (simp add: synced_at_def after_list_def)
  ultimately show ?thesis unfolding can_sync_def by blast
qed

lemma mirrors_elsewhere:
  assumes "mirrors H contents x y" "ru_r x' = ru_r x" "ru_store x' = ru_store x" "sv_current y' = sv_current y"
    and "ru_phase x' \<in> {Starting, Listing, WatchTop False} \<or> (\<exists>e. ru_phase x' = Finished e)"
  shows "mirrors H contents x' y'"
  using assms by (auto simp: mirrors_def synced_at_def)

lemma mirrors_version: "mirrors H contents x y \<Longrightarrow>
    rf_lastSyncResourceVersion (ru_r x) = [] \<or> (\<exists>p \<le> sv_current y. rf_lastSyncResourceVersion (ru_r x) = hi_enc H p)"
  by (auto simp: mirrors_def synced_at_def)

lemma can_sync_starting:
  assumes "reflector_store_laws S H contents" "history_laws H" "\<And>v. \<exists>items. snapshot H v items"
    and "mirrors H contents x y" "ru_phase x = Starting"
  shows "can_sync A S E H contents x y"
proof (rule can_sync_internal [OF start])
  show "can_sync A S E H contents (x\<lparr>ru_phase := if rf_UseWatchList (ru_r x) = Some True then WatchListTop else Listing\<rparr>) y"
    using assms(4,5) mirrors_version [OF assms(4)] by (intro can_sync_listing assms(1-3)) (simp_all add: mirrors_def)
qed (rule assms(5))

lemma can_sync_finished:
  assumes "reflector_store_laws S H contents" "history_laws H" "\<And>v. \<exists>items. snapshot H v items"
    and "mirrors H contents x y" "ru_phase x = Finished err" "\<not> ru_stopped x"
  shows "can_sync A S E H contents x y"
proof (rule can_sync_internal [OF restart [OF assms(5,6)]])
  show "can_sync A S E H contents (x\<lparr>ru_phase := Starting, ru_resyncing := False\<rparr>) y"
    by (rule can_sync_starting [OF assms(1-3) mirrors_elsewhere [OF assms(4)]]) simp_all
qed

lemma can_sync_top:
  assumes "reflector_store_laws S H contents" "history_laws H" "\<And>v. \<exists>items. snapshot H v items"
    and "\<not> isWatchErrorRetriable E ordinary" "mirrors H contents x y" "ru_phase x = WatchTop False" "\<not> ru_stopped x"
  shows "can_sync A S E H contents x y"
proof -
  let ?l = "WatchCall (rf_lastSyncResourceVersion (ru_r x)) False (Some ordinary)"
  let ?x = "x\<lparr>ru_phase := Finished (Some ordinary)\<rparr>" and ?y = "y\<lparr>sv_connection := NoConnection\<rparr>"
  have "reflect_step A S E x ?l ?x"
    using reflect_step.watch_failed [OF assms(6,7), of A S E ordinary] assms(4) by simp
  then have "run_with A S E H x y ?x ?y"
    by (rule run_step [OF _ server_step.watch_failed run_with.nothing])
  moreover have "can_sync A S E H contents ?x ?y"
    by (rule can_sync_finished [OF assms(1-3) mirrors_elsewhere [OF assms(5)]]) (simp_all add: assms(7))
  ultimately show ?thesis by (rule can_syncI) simp
qed

lemma can_sync_mirroring:
  assumes "reflector_store_laws S H contents" "history_laws H" "\<And>v. \<exists>items. snapshot H v items"
    and "\<not> isWatchErrorRetriable E ordinary" "mirrors H contents x y" "\<not> ru_stopped x"
  shows "can_sync A S E H contents x y"
proof (cases "ru_phase x")
  case WatchBackoff
  have "can_sync A S E H contents (x\<lparr>ru_phase := WatchTop False\<rparr>) y"
    by (rule can_sync_top [OF assms(1-4) mirrors_elsewhere [OF assms(5)]]) (simp_all add: assms(6))
  then show ?thesis by (rule can_sync_internal [OF watch_backed_off [OF WatchBackoff]])
next
  case (WatchStream b n)
  let ?x = "after_watch E False (Exit b None) x"
  have "reflect_step A S E x (Recv (Closed False)) (after_watch E False (Exit b None)
      (x\<lparr>ru_store := ru_store x, ru_r := set_lastSync None (ru_r x),
         ru_errc := (if \<exists>e. Closed False = (ErrCh e :: 'a received) then None else ru_errc x)\<rparr>))"
    using WatchStream by (intro reflect_step.watch_turn) (auto simp: watch_turn_def)
  then have "reflect_step A S E x (Recv (Closed False)) ?x"
    by (simp add: set_lastSync_def)
  then have "run_with A S E H x y ?x y"
    by (rule run_step [OF _ no_event run_with.nothing]) simp
  moreover have "can_sync A S E H contents ?x y"
    by (rule can_sync_top [OF assms(1-4) mirrors_elsewhere [OF assms(5)]]) (simp_all add: assms(6) after_watch_def watch_end_def)
  ultimately show ?thesis by (rule can_syncI) simp
next
  case (WatchTop b)
  then have "ru_phase x = WatchTop False" using assms(5) by (cases b) (auto simp: mirrors_def)
  then show ?thesis using can_sync_top [OF assms(1-5)] assms(6) by blast
next
  case Listing
  then show ?thesis using can_sync_listing [OF assms(1,2) assms(3) _ mirrors_version [OF assms(5)]] by blast
next
  case (ListingAgain ps rv)
  then show ?thesis using can_sync_listing [OF assms(1,2) assms(3) _ mirrors_version [OF assms(5)]] by blast
next
  case (Finished e)
  then show ?thesis using can_sync_finished [OF assms(1-3,5)] assms(6) by blast
next
  case Starting
  then show ?thesis by (rule can_sync_starting [OF assms(1-3,5)])
qed (use assms(5) in \<open>simp_all add: mirrors_def\<close>)

text \<open>
  C19. The reflector can always catch up. From every state of a run that has not been cancelled, whatever
  has gone wrong before, there is a continuation with the server's current objects unchanged after which
  the store holds exactly them, at the current version: no state of the loop is a dead end.
\<close>

theorem reflector_can_catch_up:
  assumes "reflector_store_laws S H contents" "history_laws H" "\<And>v. \<exists>items. snapshot H v items"
    and "\<not> isWatchErrorRetriable E ordinary"
    and "rf_UseWatchList r \<noteq> Some True" "rf_lastSyncResourceVersion r = []"
    and "run_with A S E H (new_run r s) (new_server n) x y" "\<not> ru_stopped x"
  shows "\<exists>x' y'. run_with A S E H x y x' y' \<and> sv_current y' = sv_current y \<and>
     rf_lastSyncResourceVersion (ru_r x') = hi_enc H (sv_current y) \<and> contents (ru_store x') = hi_at H (sv_current y)"
proof -
  have "mirrors H contents x y"
    using mirrors_run [OF assms(7,1,2) mirrors_new_run [OF assms(5,6)]] by blast
  then have "can_sync A S E H contents x y"
    by (rule can_sync_mirroring [OF assms(1-4) _ assms(8)])
  then show ?thesis by (auto simp: can_sync_def synced_at_def)
qed

theorem reflector_can_catch_up_witness:
  "\<exists>x y. sample_run (sample_synced False) (new_server 1\<lparr>sv_current := 2\<rparr>) x y \<and> sv_current y = 2 \<and>
     rf_lastSyncResourceVersion (ru_r x) = ''vii'' \<and> ru_store x = (\<lambda>_. None)"
proof -
  have run: "sample_run (new_run (sample_reflector False) (\<lambda>_. None)) (new_server 1) (sample_synced False) (new_server 1\<lparr>sv_current := 2\<rparr>)"
    by (rule run_with.write_on [OF sample_listed]) (simp add: new_server_def)
  have snap: "\<exists>items. snapshot sample_history v items" for v
  proof (cases "v = 1")
    case True
    then have "snapshot sample_history v [sample_object ''vi'' False]"
      by (simp add: snapshot_def keyed_def sample_history_def sample_object_def)
    then show ?thesis ..
  next
    case False
    then have "snapshot sample_history v []" by (simp add: snapshot_def keyed_def sample_history_def fun_eq_iff)
    then show ?thesis ..
  qed
  have "\<not> isWatchErrorRetriable sample_errors (GoErr ''down'')"
    by (simp add: isWatchErrorRetriable_def sample_errors_def)
  then obtain x y where "sample_run (sample_synced False) (new_server 1\<lparr>sv_current := 2\<rparr>) x y" "sv_current y = 2"
    "rf_lastSyncResourceVersion (ru_r x) = hi_enc sample_history 2" "ru_store x = hi_at sample_history 2"
    using reflector_can_catch_up [OF sample_laws snap _ _ _ run, of "GoErr ''down''"] by (auto simp: sample_synced_def new_run_def)
  then show ?thesis unfolding sample_enc by (auto simp: sample_history_def)
qed

section \<open>The streamed initial state\<close>

text \<open>The reflector of the run below, in its phases.\<close>

definition streaming :: "string \<Rightarrow> (string \<Rightarrow> (string \<times> string \<times> bool) option) \<Rightarrow> phase \<Rightarrow> string \<Rightarrow> bool \<Rightarrow>
    (string \<Rightarrow> (string \<times> string \<times> bool) option) run" where
  "streaming rv s ph streamRV resyncing = \<lparr>ru_r = (sample_reflector True)\<lparr>rf_lastSyncResourceVersion := rv\<rparr>, ru_store = s,
     ru_phase = ph, ru_stopped = False, ru_resyncing = resyncing, ru_errc = None, ru_streamRV = streamRV\<rparr>"

lemma streaming_opens:
  assumes "snapshot sample_history v items" "fresh_enough sample_history n rv v"
  shows "sample_run (streaming rv s Starting t b) \<lparr>sv_current = n, sv_connection = c\<rparr>
     (streaming rv s (WatchListStream False 0) [] b) \<lparr>sv_current = n, sv_connection = Initial v items\<rparr>"
proof -
  let ?x = "streaming rv s Starting t b" and ?x1 = "streaming rv s WatchListTop t b"
  let ?y = "\<lparr>sv_current = n, sv_connection = c\<rparr>"
  have "reflect_step sample_accessors sample_store sample_errors ?x Internal ?x1"
    using start [of ?x sample_accessors sample_store sample_errors] by (simp add: streaming_def)
  moreover have "reflect_step sample_accessors sample_store sample_errors ?x1 (WatchCall rv True None)
      (streaming rv s (WatchListStream False 0) [] b)"
    using watchlist_open [of ?x1 sample_accessors sample_store sample_errors]
    by (simp add: streaming_def rewatchResourceVersion_def) (simp add: sample_defs)
  moreover have "server_step sample_accessors sample_history (ru_r ?x1) ?y (WatchCall rv True None)
      \<lparr>sv_current = n, sv_connection = Initial v items\<rparr>"
    using watch_initial [OF assms(1), of ?y rv] assms(2) by simp
  ultimately show ?thesis
    by (rule run_internal [OF _ run_step [OF _ _ run_with.nothing]])
qed

lemma streaming_ends:
  "sample_run (streaming rv s (WatchListStream b n) t f) \<lparr>sv_current = c, sv_connection = Initial v []\<rparr>
     (streaming (hi_enc sample_history v) s (WatchTop True) (hi_enc sample_history v) True) \<lparr>sv_current = c, sv_connection = Live v\<rparr>"
proof -
  let ?x = "streaming rv s (WatchListStream b n) t f" and ?rv = "hi_enc sample_history v"
  let ?ev = "\<lparr>we_Type = WatchBookmark, we_Object = sample_object ?rv True\<rparr>"
  have "watch_turn sample_accessors sample_store (ru_r ?x) True b n (Event ?ev) (ru_store ?x) = (Exit True None, Some ?rv, s)"
    by (simp add: watch_turn_def apply_event_def streaming_def sample_accessors_def sample_store_def sample_object_def)
  then have "reflect_step sample_accessors sample_store sample_errors ?x (Recv (Event ?ev))
      (after_watchlist (Event ?ev) (Exit True None) sample_errors
        (?x\<lparr>ru_store := s, ru_streamRV := (case Some ?rv of None \<Rightarrow> ru_streamRV ?x | Some v \<Rightarrow> v)\<rparr>))"
    by (intro watchlist_turn) (simp_all add: streaming_def)
  then have "reflect_step sample_accessors sample_store sample_errors ?x (Recv (Event ?ev)) (streaming ?rv s (WatchTop True) ?rv True)"
    by (simp add: after_watchlist_def streaming_def) (simp add: sample_defs)
  moreover have "server_step sample_accessors sample_history (ru_r ?x) \<lparr>sv_current = c, sv_connection = Initial v []\<rparr>
      (Recv (Event ?ev)) \<lparr>sv_current = c, sv_connection = Live v\<rparr>"
    using initial_end [of "\<lparr>sv_current = c, sv_connection = Initial v []\<rparr>" v sample_accessors "ru_r ?x" ?ev sample_history "\<lambda>_. Some ''true''"]
    by (simp add: streaming_def sample_accessors_def sample_object_def)
  ultimately show ?thesis by (rule run_step) (rule run_with.nothing)
qed

text \<open>
  A reflector that streams its initial state keeps objects that are gone. \<^verbatim>\<open>watchList\<close> writes the initial
  events into the store of the reflector instead of replacing its contents with them: when a watch ends
  and an object is deleted before the next one starts, the reflector reports the new version while its
  store still has the object, and no event will ever remove it.
\<close>

lemma watch_list_keeps_deleted:
  "\<exists>x y. sample_run (new_run (sample_reflector True) (\<lambda>_. None)) (new_server 1) x y \<and>
     ru_phase x = WatchTop True \<and> sv_connection y = Live 2 \<and>
     rf_lastSyncResourceVersion (ru_r x) = hi_enc sample_history 2 \<and>
     ru_store x ''a'' \<noteq> None \<and> hi_at sample_history 2 ''a'' = None"
proof -
  let ?s1 = "[''a'' \<mapsto> sample_object ''vi'' False]"
  let ?Y = "\<lambda>n c. \<lparr>sv_current = n, sv_connection = c\<rparr>"
  let ?add = "\<lparr>we_Type = WatchAdded, we_Object = sample_object ''vi'' False\<rparr>"
  let ?err = "\<lparr>we_Type = WatchError, we_Object = sample_object [] False\<rparr>"
  have open1: "sample_run (streaming [] (\<lambda>_. None) Starting [] False) (?Y 1 NoConnection)
      (streaming [] (\<lambda>_. None) (WatchListStream False 0) [] False) (?Y 1 (Initial 1 [sample_object ''vi'' False]))"
    by (rule streaming_opens) (simp_all add: snapshot_def keyed_def sample_history_def sample_object_def fresh_enough_def)
  have add: "sample_run (streaming [] (\<lambda>_. None) (WatchListStream False 0) [] False) (?Y 1 (Initial 1 [sample_object ''vi'' False]))
      (streaming [] ?s1 (WatchListStream False 1) ''vi'' False) (?Y 1 (Initial 1 []))"
  proof (rule run_step [OF _ _ run_with.nothing])
    let ?x = "streaming [] (\<lambda>_. None) (WatchListStream False 0) [] False"
    have "watch_turn sample_accessors sample_store (ru_r ?x) True False 0 (Event ?add) (ru_store ?x) = (Go False 1, Some ''vi'', ?s1)"
      by (simp add: watch_turn_def apply_event_def streaming_def sample_accessors_def sample_store_def sample_object_def)
    then have "reflect_step sample_accessors sample_store sample_errors ?x (Recv (Event ?add))
        (after_watchlist (Event ?add) (Go False 1) sample_errors
          (?x\<lparr>ru_store := ?s1, ru_streamRV := (case Some ''vi'' of None \<Rightarrow> ru_streamRV ?x | Some v \<Rightarrow> v)\<rparr>))"
      by (intro watchlist_turn) (simp_all add: streaming_def)
    then show "reflect_step sample_accessors sample_store sample_errors ?x (Recv (Event ?add))
        (streaming [] ?s1 (WatchListStream False 1) ''vi'' False)"
      by (simp add: after_watchlist_def streaming_def)
    show "server_step sample_accessors sample_history (ru_r ?x) (?Y 1 (Initial 1 [sample_object ''vi'' False]))
        (Recv (Event ?add)) (?Y 1 (Initial 1 []))"
      using initial_object [of "?Y 1 (Initial 1 [sample_object ''vi'' False])" 1 "sample_object ''vi'' False" "[]" sample_accessors "ru_r ?x" "''vi''"]
      by (simp add: carries_def streaming_def sample_accessors_def sample_object_def)
  qed
  have end1: "sample_run (streaming [] ?s1 (WatchListStream False 1) ''vi'' False) (?Y 1 (Initial 1 []))
      (streaming ''vi'' ?s1 (WatchTop True) ''vi'' True) (?Y 1 (Live 1))"
    using streaming_ends [of "[]" ?s1 False 1 "''vi''" False 1 1] by (simp add: sample_enc)
  have lost: "sample_run (streaming ''vi'' ?s1 (WatchTop True) ''vi'' True) (?Y 1 (Live 1))
      (streaming ''vi'' ?s1 Starting ''vi'' False) (?Y 2 (Live 1))"
  proof -
    let ?x = "\<lambda>ph. streaming ''vi'' ?s1 ph ''vi'' True"
    have reuse: "sample_run (?x (WatchTop True)) (?Y 1 (Live 1)) (?x (WatchStream False 0)) (?Y 1 (Live 1))"
      using run_internal [OF watch_reuse run_with.nothing, of "?x (WatchTop True)"] by (simp add: streaming_def)
    have "watch_turn sample_accessors sample_store (ru_r (?x (WatchStream False 0))) False False 0 (Event ?err) ?s1 =
        (Exit False (Some (GoErr ''gone'')), None, ?s1)"
      by (simp add: watch_turn_def sample_accessors_def)
    then have "reflect_step sample_accessors sample_store sample_errors (?x (WatchStream False 0)) (Recv (Event ?err))
        (after_watch sample_errors False (Exit False (Some (GoErr ''gone'')))
          (?x (WatchStream False 0)\<lparr>ru_store := ?s1, ru_r := set_lastSync None (ru_r (?x (WatchStream False 0))),
            ru_errc := (if \<exists>e. Event ?err = ErrCh e then None else ru_errc (?x (WatchStream False 0)))\<rparr>))"
      by (intro reflect_step.watch_turn) (simp_all add: streaming_def)
    then have "reflect_step sample_accessors sample_store sample_errors (?x (WatchStream False 0)) (Recv (Event ?err)) (?x (Finished None))"
      by (simp add: after_watch_def watch_end_def isExpiredError_def sample_errors_def streaming_def set_lastSync_def)
    then have ended: "sample_run (?x (WatchStream False 0)) (?Y 1 (Live 1)) (?x (Finished None)) (?Y 1 (Live 1))"
      by (rule run_step [OF _ error_event run_with.nothing]) simp
    have "sample_run (?x (Finished None)) (?Y 1 (Live 1)) (?x (Finished None)) (?Y 1 (Live 1)\<lparr>sv_current := 2\<rparr>)"
      by (rule run_with.write_on [OF run_with.nothing]) simp
    then have written: "sample_run (?x (Finished None)) (?Y 1 (Live 1)) (?x (Finished None)) (?Y 2 (Live 1))" by simp
    have again: "sample_run (?x (Finished None)) (?Y 2 (Live 1)) (streaming ''vi'' ?s1 Starting ''vi'' False) (?Y 2 (Live 1))"
      using run_internal [OF restart run_with.nothing, of "?x (Finished None)" None] by (simp add: streaming_def)
    show ?thesis by (rule run_trans [OF run_trans [OF run_trans [OF again written] ended] reuse])
  qed
  have open2: "sample_run (streaming ''vi'' ?s1 Starting ''vi'' False) (?Y 2 (Live 1))
      (streaming ''vi'' ?s1 (WatchListStream False 0) [] False) (?Y 2 (Initial 2 []))"
    by (rule streaming_opens) (auto simp: snapshot_def keyed_def sample_history_def fresh_enough_def dest: arg_cong [of _ _ length])
  have end2: "sample_run (streaming ''vi'' ?s1 (WatchListStream False 0) [] False) (?Y 2 (Initial 2 []))
      (streaming ''vii'' ?s1 (WatchTop True) ''vii'' True) (?Y 2 (Live 2))"
    using streaming_ends [of "''vi''" ?s1 False 0 "[]" False 2 2] by (simp add: sample_enc)
  have "sample_run (streaming [] (\<lambda>_. None) Starting [] False) (?Y 1 NoConnection)
      (streaming ''vii'' ?s1 (WatchTop True) ''vii'' True) (?Y 2 (Live 2))"
    by (rule run_trans [OF run_trans [OF run_trans [OF run_trans [OF run_trans [OF end2 open2] lost] end1] add] open1])
  moreover have "streaming [] (\<lambda>_. None) Starting [] False = new_run (sample_reflector True) (\<lambda>_. None)"
    "?Y 1 NoConnection = (new_server 1 :: (string \<times> string \<times> bool) server)"
    by (simp_all add: streaming_def new_run_def new_server_def sample_defs)
  ultimately have "sample_run (new_run (sample_reflector True) (\<lambda>_. None)) (new_server 1)
      (streaming ''vii'' ?s1 (WatchTop True) ''vii'' True) (?Y 2 (Live 2))"
    by simp
  then show ?thesis
    by (intro exI conjI) (assumption, simp_all add: streaming_def sample_enc, simp add: sample_history_def)
qed

end
