(* ===== verification/K8s_Client.thy ===== *)
theory K8s_Client
  imports K8s_Translation Dynamic_Patcher Stores
begin

text \<open>
  The REST client: \<^verbatim>\<open>k8s/gvclient.go\<close> (requests and answers), \<^verbatim>\<open>k8s/client.go\<close> and
  \<^verbatim>\<open>k8s/custom_route_client.go\<close>.

  Objects are behind pointers, because a call may be given the same object to send and to read the answer into.
  The request builder of client-go only collects what the request has; it is a record. Sending one is a
  parameter, as are the encoders and decoders. The watch that an answered watch request starts is in
  \<open>K8s_Watch\<close>. Metrics, tracing and logging are left out.
\<close>

section \<open>Requests and objects\<close>

record request =
  rq_Verb :: string
  rq_Resource :: "string option"
  rq_Namespace :: "string option"
  rq_Name :: "string option"
  rq_Subresource :: "string list"
  rq_Params :: "(string \<times> string) list"
  rq_Headers :: "(string \<times> string list) list"
  rq_Body :: "string option"

definition Verb :: "string \<Rightarrow> request" where
  "Verb v = \<lparr>rq_Verb = v, rq_Resource = None, rq_Namespace = None, rq_Name = None, rq_Subresource = [],
     rq_Params = [], rq_Headers = [], rq_Body = None\<rparr>"

abbreviation Resource :: "string \<Rightarrow> request \<Rightarrow> request" where
  "Resource p rq \<equiv> rq\<lparr>rq_Resource := Some p\<rparr>"

abbreviation Name :: "string \<Rightarrow> request \<Rightarrow> request" where
  "Name n rq \<equiv> rq\<lparr>rq_Name := Some n\<rparr>"

abbreviation SubResource :: "string list \<Rightarrow> request \<Rightarrow> request" where
  "SubResource s rq \<equiv> rq\<lparr>rq_Subresource := s\<rparr>"

abbreviation Body :: "string \<Rightarrow> request \<Rightarrow> request" where
  "Body b rq \<equiv> rq\<lparr>rq_Body := Some b\<rparr>"

definition Param :: "string \<Rightarrow> string \<Rightarrow> request \<Rightarrow> request" where
  "Param k v rq = rq\<lparr>rq_Params := rq_Params rq @ [(k, v)]\<rparr>"

text \<open>A namespace of nothing but white space (\<^verbatim>\<open>strings.TrimSpace\<close>, on ASCII) is none.\<close>

definition is_space :: "char \<Rightarrow> bool" where
  "is_space c \<longleftrightarrow> (of_char c :: nat) \<in> {9, 10, 11, 12, 13, 32}"

definition in_namespace :: "string \<Rightarrow> request \<Rightarrow> request" where
  "in_namespace ns rq = (if List.list_all is_space ns then rq else rq\<lparr>rq_Namespace := Some ns\<rparr>)"

definition dry_run :: "bool \<Rightarrow> request \<Rightarrow> request" where
  "dry_run b rq = (if b then Param ''dryRun'' ''All'' rq else rq)"

text \<open>What the client asks of an object, and its codec. Reading may change an object and fail nevertheless.\<close>

record 'o object_api =
  oa_Namespace :: "'o \<Rightarrow> string"
  oa_Name :: "'o \<Rightarrow> string"
  oa_Labels :: "'o \<Rightarrow> (string \<rightharpoonup> string) option"
  oa_SetLabels :: "(string \<rightharpoonup> string) option \<Rightarrow> 'o \<Rightarrow> 'o"
  oa_SetStaticMetadata :: "static_metadata \<Rightarrow> 'o \<Rightarrow> 'o"
  oa_SetResourceVersion :: "string \<Rightarrow> 'o \<Rightarrow> 'o"
  oa_Write :: "'o \<Rightarrow> go_error + string"
  oa_Read :: "string \<Rightarrow> 'o \<Rightarrow> 'o \<times> go_error option"

record DeleteOptions =
  do_ResourceVersion :: string
  do_UID :: string
  do_PropagationPolicy :: string

text \<open>The options written to the body: absent members are \<open>None\<close>.\<close>

record meta_delete_options =
  mdo_Preconditions :: "(string option \<times> string option) option"
  mdo_PropagationPolicy :: "string option"

text \<open>
  The REST client with its decoders: the body, status code and error of an answer, the status in a body or
  in an error, the patch and delete encoders, the resource version of a body, and the parts of a list.
\<close>

record 'u rest =
  rs_do :: "request \<Rightarrow> 'u \<Rightarrow> (string \<times> int \<times> go_error option) \<times> 'u"
  rs_watch :: "request \<Rightarrow> 'u \<Rightarrow> go_error option \<times> 'u"
  rs_parse_status :: "string \<Rightarrow> (string \<times> string \<times> go_error) option"
  rs_as_status :: "go_error \<Rightarrow> (go_error \<times> int) option"
  rs_marshal_patch :: "patch_operation list \<Rightarrow> go_error + string"
  rs_metaFields :: "string list"
  rs_marshal_delete :: "meta_delete_options \<Rightarrow> go_error + string"
  rs_read_metadata :: "string \<Rightarrow> go_error + string"
  rs_read_list :: "string \<Rightarrow> go_error + list_meta \<times> string list"

record 'u groupVersionClient =
  gv_client :: "'u rest"
  gv_version :: string

record ('o, 'u) kstate =
  ks_objs :: "ptr \<Rightarrow> 'o"
  ks_next :: ptr
  ks_server :: 'u

type_synonym ('o, 'u, 'a) kio = "(('o, 'u) kstate, 'a) state"

definition obj_at :: "ptr \<Rightarrow> ('o, 'u, 'o) kio" where
  "obj_at p = State (\<lambda>s. (ks_objs s p, s))"

definition update_obj :: "ptr \<Rightarrow> ('o \<Rightarrow> 'o) \<Rightarrow> ('o, 'u, unit) kio" where
  "update_obj p f = State (\<lambda>s. ((), s\<lparr>ks_objs := (ks_objs s)(p := f (ks_objs s p))\<rparr>))"

definition alloc :: "'o \<Rightarrow> ('o, 'u, ptr) kio" where
  "alloc v = State (\<lambda>s. (ks_next s, s\<lparr>ks_objs := (ks_objs s)(ks_next s := v), ks_next := Suc (ks_next s)\<rparr>))"

definition send :: "'u groupVersionClient \<Rightarrow> request \<Rightarrow> ('o, 'u, string \<times> int \<times> go_error option) kio" where
  "send g rq = State (\<lambda>s. let (r, u) = rs_do (gv_client g) rq (ks_server s) in (r, s\<lparr>ks_server := u\<rparr>))"

definition read_into :: "'o object_api \<Rightarrow> string \<Rightarrow> ptr \<Rightarrow> ('o, 'u, go_error option) kio" where
  "read_into C raw p = State (\<lambda>s. let (ob, e) = oa_Read C raw (ks_objs s p) in (e, s\<lparr>ks_objs := (ks_objs s)(p := ob)\<rparr>))"

lemma run_kio [simp]:
  "run_state (obj_at p) s = (ks_objs s p, s)"
  "run_state (update_obj p f) s = ((), s\<lparr>ks_objs := (ks_objs s)(p := f (ks_objs s p))\<rparr>)"
  "run_state (alloc v) s = (ks_next s, s\<lparr>ks_objs := (ks_objs s)(ks_next s := v), ks_next := Suc (ks_next s)\<rparr>)"
  "run_state (send g rq) s = (let (r, u) = rs_do (gv_client g) rq (ks_server s) in (r, s\<lparr>ks_server := u\<rparr>))"
  "run_state (read_into C raw p) s =
     (let (ob, e) = oa_Read C raw (ks_objs s p) in (e, s\<lparr>ks_objs := (ks_objs s)(p := ob)\<rparr>))"
  by (simp_all add: obj_at_def update_obj_def alloc_def send_def read_into_def)

text \<open>The error of a failed request. The error that is parsed is not nil, so nothing panics and there is one.\<close>

definition parse_error :: "'u groupVersionClient \<Rightarrow> string \<Rightarrow> int \<Rightarrow> go_error \<Rightarrow> go_error" where
  "parse_error g raw sc e =
     (case ParseKubernetesError (rs_parse_status (gv_client g)) (rs_as_status (gv_client g)) raw sc (Some e) of
        Returned (Some e') \<Rightarrow> e' | _ \<Rightarrow> e)"

lemma parse_error_eq:
  "ParseKubernetesError (rs_parse_status (gv_client g)) (rs_as_status (gv_client g)) raw sc (Some e) =
     Returned (Some (parse_error g raw sc e))"
  by (simp add: parse_error_def ParseKubernetesError_def parse_rest_def NewServerResponseError_def
      split: option.split outcome.split)

text \<open>Sending a request whose answer is an object.\<close>

definition answer_into ::
  "'u groupVersionClient \<Rightarrow> 'o object_api \<Rightarrow> request \<Rightarrow> ptr \<Rightarrow> ('o, 'u, go_error option) kio" where
  "answer_into g C rq into = do {
     (raw, sc, err) \<leftarrow> send g rq;
     case err of
       Some e \<Rightarrow> State_Monad.return (Some (parse_error g raw sc e))
     | None \<Rightarrow> read_into C raw into }"

section \<open>groupVersionClient\<close>

definition gv_get ::
  "'u groupVersionClient \<Rightarrow> 'o object_api \<Rightarrow> resource_id \<Rightarrow> string \<Rightarrow> ptr \<Rightarrow> ('o, 'u, go_error option) kio" where
  "gv_get g C ident plural into =
     answer_into g C (in_namespace (id_Namespace ident) (Name (id_Name ident) (Resource plural (Verb ''GET'')))) into"

definition getMetadata ::
  "'u groupVersionClient \<Rightarrow> resource_id \<Rightarrow> string \<Rightarrow> ('o, 'u, go_error + string) kio" where
  "getMetadata g ident plural = do {
     (raw, sc, err) \<leftarrow> send g (in_namespace (id_Namespace ident) (Name (id_Name ident) (Resource plural (Verb ''GET''))));
     case err of
       Some e \<Rightarrow> State_Monad.return (Inl (parse_error g raw sc e))
     | None \<Rightarrow> State_Monad.return (rs_read_metadata (gv_client g) raw) }"

definition gv_exists :: "'u groupVersionClient \<Rightarrow> resource_id \<Rightarrow> string \<Rightarrow> ('o, 'u, bool \<times> go_error option) kio" where
  "gv_exists g ident plural = do {
     (raw, statusCode, err) \<leftarrow> send g (in_namespace (id_Namespace ident) (Name (id_Name ident) (Resource plural (Verb ''GET''))));
     case err of
       Some e \<Rightarrow>
         if statusCode = 404 then State_Monad.return (False, None)
         else State_Monad.return (False, Some (parse_error g [] statusCode e))
     | None \<Rightarrow> State_Monad.return (True, None) }"

definition addLabels :: "'o object_api \<Rightarrow> (string \<times> string) list \<Rightarrow> 'o \<Rightarrow> 'o" where
  "addLabels C labels ob =
     oa_SetLabels C (Some (fold (\<lambda>(k, v) l. l(k \<mapsto> v)) labels (case oa_Labels C ob of None \<Rightarrow> Map.empty | Some l \<Rightarrow> l))) ob"

text \<open>The requests that carry the object, under a path that \<open>path\<close> completes.\<close>

definition send_object ::
  "'u groupVersionClient \<Rightarrow> 'o object_api \<Rightarrow> ptr \<Rightarrow> ('o \<Rightarrow> string \<Rightarrow> request) \<Rightarrow> ptr \<Rightarrow> ('o, 'u, go_error option) kio" where
  "send_object g C obj path into = do {
     update_obj obj (addLabels C [(versionLabel, gv_version g)]);
     ob \<leftarrow> obj_at obj;
     case oa_Write C ob of
       Inl e \<Rightarrow> State_Monad.return (Some e)
     | Inr buf \<Rightarrow> answer_into g C (path ob buf) into }"

definition gv_create ::
  "'u groupVersionClient \<Rightarrow> 'o object_api \<Rightarrow> string \<Rightarrow> ptr \<Rightarrow> ptr \<Rightarrow> bool \<Rightarrow> ('o, 'u, go_error option) kio" where
  "gv_create g C plural obj into dryRun =
     send_object g C obj (\<lambda>ob buf.
       dry_run dryRun (in_namespace (oa_Namespace C ob) (Body buf (Resource plural (Verb ''POST''))))) into"

definition gv_update ::
  "'u groupVersionClient \<Rightarrow> 'o object_api \<Rightarrow> string \<Rightarrow> ptr \<Rightarrow> ptr \<Rightarrow> UpdateOptions \<Rightarrow> ('o, 'u, go_error option) kio" where
  "gv_update g C plural obj into opts =
     send_object g C obj (\<lambda>ob buf.
       dry_run (uo_DryRun opts) (in_namespace (oa_Namespace C ob)
         (Body buf (Name (oa_Name C ob) (Resource plural (Verb ''PUT'')))))) into"

definition gv_updateSubresource ::
  "'u groupVersionClient \<Rightarrow> 'o object_api \<Rightarrow> string \<Rightarrow> string \<Rightarrow> ptr \<Rightarrow> ptr \<Rightarrow> UpdateOptions \<Rightarrow>
   ('o, 'u, go_error option) kio" where
  "gv_updateSubresource g C plural subresource obj into opts =
     send_object g C obj (\<lambda>ob buf.
       dry_run (uo_DryRun opts) (in_namespace (oa_Namespace C ob)
         (Body buf (Name (oa_Name C ob) (SubResource [subresource] (Resource plural (Verb ''PUT''))))))) into"

text \<open>The operations of the caller's patch request are rewritten in place.\<close>

definition gv_patch ::
  "'u groupVersionClient \<Rightarrow> 'o object_api \<Rightarrow> resource_id \<Rightarrow> string \<Rightarrow> patch_request \<Rightarrow> ptr \<Rightarrow> PatchOptions \<Rightarrow>
   ('o, 'u, go_error option \<times> patch_request) kio" where
  "gv_patch g C ident plural patch into opts =
     (let (bytes, patch') = marshalJSONPatch (rs_marshal_patch (gv_client g)) (rs_metaFields (gv_client g)) patch
      in case bytes of
           Inl e \<Rightarrow> State_Monad.return (Some e, patch')
         | Inr patchBytes \<Rightarrow> do {
             err \<leftarrow> answer_into g C (dry_run (pao_DryRun opts) (in_namespace (id_Namespace ident)
               (Body patchBytes (Name (id_Name ident)
                 ((if pao_Subresource opts \<noteq> [] then SubResource [pao_Subresource opts] else id)
                   (Resource plural (Verb ''PATCH''))))))) into;
             State_Monad.return (err, patch') })"

definition delete_body :: "DeleteOptions \<Rightarrow> meta_delete_options" where
  "delete_body options =
     \<lparr>mdo_Preconditions =
        (if do_ResourceVersion options \<noteq> [] \<or> do_UID options \<noteq> []
         then Some (if do_ResourceVersion options \<noteq> [] then Some (do_ResourceVersion options) else None,
                    if do_UID options \<noteq> [] then Some (do_UID options) else None)
         else None),
      mdo_PropagationPolicy = (if do_PropagationPolicy options \<noteq> [] then Some (do_PropagationPolicy options) else None)\<rparr>"

definition gv_delete ::
  "'u groupVersionClient \<Rightarrow> resource_id \<Rightarrow> string \<Rightarrow> DeleteOptions \<Rightarrow> ('o, 'u, go_error option) kio" where
  "gv_delete g ident plural options =
     (let rq = in_namespace (id_Namespace ident) (Name (id_Name ident) (Resource plural (Verb ''DELETE'')));
          body = delete_body options;
          opts = (if mdo_Preconditions body \<noteq> None \<or> mdo_PropagationPolicy body \<noteq> None
                  then (case rs_marshal_delete (gv_client g) body of Inl e \<Rightarrow> Inl e | Inr b \<Rightarrow> Inr (Body b rq))
                  else Inr rq)
      in case opts of
           Inl e \<Rightarrow> State_Monad.return (Some (GoErr ''unable to marshal delete options''))
         | Inr rq' \<Rightarrow> do {
             (raw, sc, err) \<leftarrow> send g rq';
             State_Monad.return (case err of
                 Some e \<Rightarrow> if 300 \<le> sc then Some (parse_error g [] sc e) else Some e
               | None \<Rightarrow> None) })"

text \<open>A parameter that is left out when it is empty.\<close>

definition opt_param :: "bool \<Rightarrow> string \<Rightarrow> string \<Rightarrow> request \<Rightarrow> request" where
  "opt_param b k v rq = (if b then Param k v rq else rq)"

definition list_request :: "string \<Rightarrow> string \<Rightarrow> ListOptions \<Rightarrow> request" where
  "list_request namespace plural options =
     opt_param (lo_ResourceVersion options \<noteq> []) ''resourceVersion'' (lo_ResourceVersion options)
     (opt_param (lo_Continue options \<noteq> []) ''continue'' (lo_Continue options)
     (opt_param (0 < lo_Limit options) ''limit'' (show_nat (nat (lo_Limit options)))
     (opt_param (0 < length (lo_FieldSelectors options)) ''fieldSelector'' (join '','' (lo_FieldSelectors options))
     (opt_param (0 < length (lo_LabelFilters options)) ''labelSelector'' (join '','' (lo_LabelFilters options))
     (in_namespace namespace (Resource plural (Verb ''GET'')))))))"

definition gv_list ::
  "'u groupVersionClient \<Rightarrow> string \<Rightarrow> string \<Rightarrow> 'o list_into \<Rightarrow> ListOptions \<Rightarrow> (string \<Rightarrow> go_error + 'o) \<Rightarrow>
   ('o, 'u, 'o list_into \<times> go_error option) kio" where
  "gv_list g namespace plural into options itemParser = do {
     (raw, sc, err) \<leftarrow> send g (list_request namespace plural options);
     State_Monad.return (case err of
         Some e \<Rightarrow> (into, Some (parse_error g raw sc e))
       | None \<Rightarrow> rawToListWithParser (rs_read_list (gv_client g)) raw into itemParser) }"

record CustomRouteRequestOptions =
  cr_Path :: string
  cr_Verb :: string
  cr_Body :: "string option"
  cr_Query :: "(string \<times> string list) list"
  cr_Headers :: "(string \<times> string list) list"

definition route_request :: "string \<Rightarrow> string \<Rightarrow> string \<Rightarrow> CustomRouteRequestOptions \<Rightarrow> request" where
  "route_request namespace plural name request =
     (let rq0 = (if plural \<noteq> [] then Name name (Resource plural (Verb (cr_Verb request))) else Verb (cr_Verb request));
          rq1 = SubResource (split_on CHR ''/'' (trim_char CHR ''/'' (cr_Path request))) rq0;
          rq2 = (if namespace \<noteq> [] then rq1\<lparr>rq_Namespace := Some namespace\<rparr> else rq1);
          rq3 = (case cr_Body request of None \<Rightarrow> rq2 | Some b \<Rightarrow> Body b rq2);
          rq4 = fold (\<lambda>(k, vs). fold (\<lambda>v. Param k v) vs) (cr_Query request) rq3
      in rq4\<lparr>rq_Headers := rq_Headers rq4 @ cr_Headers request\<rparr>)"

definition customRouteRequest ::
  "'u groupVersionClient \<Rightarrow> string \<Rightarrow> string \<Rightarrow> string \<Rightarrow> CustomRouteRequestOptions \<Rightarrow> ('o, 'u, go_error + string) kio" where
  "customRouteRequest g namespace plural name request = do {
     (raw, sc, err) \<leftarrow> send g (route_request namespace plural name request);
     State_Monad.return (case err of Some e \<Rightarrow> Inl (parse_error g raw sc e) | None \<Rightarrow> Inr raw) }"

definition show_int :: "int \<Rightarrow> string" where
  "show_int z = (if z < 0 then CHR ''-'' # show_nat (nat (- z)) else show_nat (nat z))"

definition watch_request :: "string \<Rightarrow> string \<Rightarrow> WatchOptions \<Rightarrow> request" where
  "watch_request namespace plural options =
     (let rq0 = in_namespace namespace (Param ''watch'' ''1'' (Resource plural (Verb ''GET'')));
          rq1 = opt_param (0 < length (wo_LabelFilters options)) ''labelSelector'' (join '','' (wo_LabelFilters options)) rq0;
          rq2 = opt_param (0 < length (wo_FieldSelectors options)) ''fieldSelector'' (join '','' (wo_FieldSelectors options)) rq1;
          rq3 = opt_param (wo_ResourceVersion options \<noteq> []) ''resourceVersion'' (wo_ResourceVersion options) rq2;
          rq4 = opt_param (wo_ResourceVersionMatch options \<noteq> []) ''resourceVersionMatch'' (wo_ResourceVersionMatch options) rq3;
          rq5 = opt_param (wo_AllowWatchBookmarks options) ''allowWatchBookmarks'' ''true'' rq4;
          rq6 = (case wo_TimeoutSeconds options of None \<Rightarrow> rq5 | Some t \<Rightarrow> Param ''timeoutSeconds'' (show_int t) rq5)
      in case wo_SendInitialEvents options of
           None \<Rightarrow> rq6 | Some b \<Rightarrow> Param ''sendInitialEvents'' (if b then ''true'' else ''false'') rq6)"

text \<open>The size of the event buffer of the watch, or the error.\<close>

definition gv_watch ::
  "'u groupVersionClient \<Rightarrow> string \<Rightarrow> string \<Rightarrow> WatchOptions \<Rightarrow> ('o, 'u, go_error + int) kio" where
  "gv_watch g namespace plural options = State (\<lambda>s.
     case rs_watch (gv_client g) (watch_request namespace plural options) (ks_server s) of
       (Some e, u) \<Rightarrow> (Inl e, s\<lparr>ks_server := u\<rparr>)
     | (None, u) \<Rightarrow> (Inr (if wo_EventBufferSize options \<le> 0 then 1 else wo_EventBufferSize options), s\<lparr>ks_server := u\<rparr>))"

section \<open>Client\<close>

record ('o, 'u) K8sClient =
  kc_client :: "'u groupVersionClient"
  kc_schema :: schema
  kc_Scope :: string
  kc_zero :: 'o
  kc_zeroList :: "'o list_into"
  kc_codec :: "'o object_api"

definition NamespaceAll :: string where
  "NamespaceAll = []"

definition double_quoted :: "string \<Rightarrow> string" where
  "double_quoted s = [CHR 0x22] @ s @ [CHR 0x22]"

definition scope_error :: "string \<Rightarrow> string \<Rightarrow> go_error" where
  "scope_error what namespace = GoErr (what @ '' with schema scope '' @ double_quoted ClusterScope @ '' in namespace '' @
     double_quoted namespace @ '', must be NamespaceAll ('' @ double_quoted NamespaceAll @ '')'')"

definition item_parser :: "('o, 'u) K8sClient \<Rightarrow> string \<Rightarrow> go_error + 'o" where
  "item_parser c raw = (case oa_Read (kc_codec c) raw (kc_zero c) of (ob, None) \<Rightarrow> Inr ob | (ob, Some e) \<Rightarrow> Inl e)"

abbreviation kc_Plural :: "('o, 'u) K8sClient \<Rightarrow> string" where
  "kc_Plural c \<equiv> sch_Plural (kc_schema c)"

definition Client_List ::
  "('o, 'u) K8sClient \<Rightarrow> string \<Rightarrow> ListOptions \<Rightarrow> ('o, 'u, go_error + 'o list_into) kio" where
  "Client_List c namespace options = do {
     (into, err) \<leftarrow> gv_list (kc_client c) namespace (kc_Plural c) (kc_zeroList c) options (item_parser c);
     State_Monad.return (case err of Some e \<Rightarrow> Inl e | None \<Rightarrow> Inr into) }"

definition Client_ListInto ::
  "('o, 'u) K8sClient \<Rightarrow> string \<Rightarrow> ListOptions \<Rightarrow> 'o list_into \<Rightarrow> ('o, 'u, 'o list_into \<times> go_error option) kio" where
  "Client_ListInto c namespace options into =
     (if kc_Scope c = ClusterScope \<and> namespace \<noteq> NamespaceAll
      then State_Monad.return (into, Some (scope_error ''cannot list resources'' namespace))
      else gv_list (kc_client c) namespace (kc_Plural c) into options (item_parser c))"

definition nil_error :: "string \<Rightarrow> go_error" where
  "nil_error what = GoErr (what @ '' cannot be nil'')"

definition Client_GetInto ::
  "('o, 'u) K8sClient \<Rightarrow> resource_id \<Rightarrow> ptr option \<Rightarrow> ('o, 'u, go_error option) kio" where
  "Client_GetInto c ident into = (case into of
     None \<Rightarrow> State_Monad.return (Some (nil_error ''into''))
   | Some p \<Rightarrow> gv_get (kc_client c) (kc_codec c) ident (kc_Plural c) p)"

definition new_into :: "('o, 'u) K8sClient \<Rightarrow> (ptr \<Rightarrow> ('o, 'u, go_error option) kio) \<Rightarrow> ('o, 'u, go_error + ptr) kio" where
  "new_into c call = do {
     into \<leftarrow> alloc (kc_zero c);
     err \<leftarrow> call into;
     State_Monad.return (case err of Some e \<Rightarrow> Inl e | None \<Rightarrow> Inr into) }"

definition Client_Get :: "('o, 'u) K8sClient \<Rightarrow> resource_id \<Rightarrow> ('o, 'u, go_error + ptr) kio" where
  "Client_Get c ident = new_into c (\<lambda>into. Client_GetInto c ident (Some into))"

definition static_of :: "('o, 'u) K8sClient \<Rightarrow> resource_id \<Rightarrow> static_metadata" where
  "static_of c ident = \<lparr>sm_Group = sch_Group (kc_schema c), sm_Version = sch_Version (kc_schema c),
     sm_Kind = sch_Kind (kc_schema c), sm_Namespace = id_Namespace ident, sm_Name = id_Name ident\<rparr>"

definition create_scope_error :: "('o, 'u) K8sClient \<Rightarrow> resource_id \<Rightarrow> go_error option" where
  "create_scope_error c ident =
     (if kc_Scope c = NamespacedScope \<and> id_Namespace ident = NamespaceAll
      then Some (GoErr (''cannot create a resource with schema scope '' @ double_quoted NamespacedScope @
        '' in NamespaceAll ('' @ double_quoted NamespaceAll @ '')''))
      else if kc_Scope c = ClusterScope \<and> id_Namespace ident \<noteq> NamespaceAll
      then Some (scope_error ''cannot create a resource'' (id_Namespace ident)) else None)"

definition Client_CreateInto ::
  "('o, 'u) K8sClient \<Rightarrow> resource_id \<Rightarrow> ptr option \<Rightarrow> bool \<Rightarrow> ptr option \<Rightarrow> ('o, 'u, go_error option) kio" where
  "Client_CreateInto c ident obj dryRun into = (case obj of
     None \<Rightarrow> State_Monad.return (Some (nil_error ''obj''))
   | Some p \<Rightarrow> (case into of
       None \<Rightarrow> State_Monad.return (Some (nil_error ''into''))
     | Some q \<Rightarrow> (case create_scope_error c ident of
         Some e \<Rightarrow> State_Monad.return (Some e)
       | None \<Rightarrow> do {
           update_obj p (oa_SetStaticMetadata (kc_codec c) (static_of c ident));
           gv_create (kc_client c) (kc_codec c) (kc_Plural c) p q dryRun })))"

definition Client_Create ::
  "('o, 'u) K8sClient \<Rightarrow> resource_id \<Rightarrow> ptr option \<Rightarrow> bool \<Rightarrow> ('o, 'u, go_error + ptr) kio" where
  "Client_Create c ident obj dryRun = new_into c (\<lambda>into. Client_CreateInto c ident obj dryRun (Some into))"

text \<open>Without a resource version in the options, the one the server has now is taken.\<close>

definition set_version ::
  "'u groupVersionClient \<Rightarrow> 'o object_api \<Rightarrow> string \<Rightarrow> resource_id \<Rightarrow> ptr \<Rightarrow> UpdateOptions \<Rightarrow> ('o, 'u, go_error option) kio" where
  "set_version g C plural ident p options =
     (if uo_ResourceVersion options = [] then do {
        md \<leftarrow> getMetadata g ident plural;
        case md of
          Inl e \<Rightarrow> State_Monad.return (Some e)
        | Inr rv \<Rightarrow> do { update_obj p (oa_SetResourceVersion C rv); State_Monad.return None } }
      else do { update_obj p (oa_SetResourceVersion C (uo_ResourceVersion options)); State_Monad.return None })"

definition send_update ::
  "'u groupVersionClient \<Rightarrow> 'o object_api \<Rightarrow> string \<Rightarrow> ptr \<Rightarrow> ptr \<Rightarrow> UpdateOptions \<Rightarrow> ('o, 'u, go_error option) kio" where
  "send_update g C plural p q options =
     (if uo_Subresource options \<noteq> [] then gv_updateSubresource g C plural (uo_Subresource options) p q options
      else gv_update g C plural p q options)"

definition Client_UpdateInto ::
  "('o, 'u) K8sClient \<Rightarrow> resource_id \<Rightarrow> ptr option \<Rightarrow> UpdateOptions \<Rightarrow> ptr option \<Rightarrow> ('o, 'u, go_error option) kio" where
  "Client_UpdateInto c ident obj options into = (case obj of
     None \<Rightarrow> State_Monad.return (Some (nil_error ''obj''))
   | Some p \<Rightarrow> (case into of
       None \<Rightarrow> State_Monad.return (Some (nil_error ''into''))
     | Some q \<Rightarrow> do {
         update_obj p (oa_SetStaticMetadata (kc_codec c) (static_of c ident));
         err \<leftarrow> set_version (kc_client c) (kc_codec c) (kc_Plural c) ident p options;
         case err of
           Some e \<Rightarrow> State_Monad.return (Some e)
         | None \<Rightarrow> send_update (kc_client c) (kc_codec c) (kc_Plural c) p q options }))"

definition Client_Update ::
  "('o, 'u) K8sClient \<Rightarrow> resource_id \<Rightarrow> ptr option \<Rightarrow> UpdateOptions \<Rightarrow> ('o, 'u, go_error + ptr) kio" where
  "Client_Update c ident obj options = (case obj of
     None \<Rightarrow> State_Monad.return (Inl (nil_error ''obj''))
   | Some p \<Rightarrow> new_into c (\<lambda>into. Client_UpdateInto c ident (Some p) options (Some into)))"

definition Client_PatchInto ::
  "('o, 'u) K8sClient \<Rightarrow> resource_id \<Rightarrow> patch_request \<Rightarrow> PatchOptions \<Rightarrow> ptr \<Rightarrow>
   ('o, 'u, go_error option \<times> patch_request) kio" where
  "Client_PatchInto c ident patch options into =
     gv_patch (kc_client c) (kc_codec c) ident (kc_Plural c) patch into options"

definition Client_Patch ::
  "('o, 'u) K8sClient \<Rightarrow> resource_id \<Rightarrow> patch_request \<Rightarrow> PatchOptions \<Rightarrow>
   ('o, 'u, (go_error + ptr) \<times> patch_request) kio" where
  "Client_Patch c ident patch options = do {
     into \<leftarrow> alloc (kc_zero c);
     (err, patch') \<leftarrow> Client_PatchInto c ident patch options into;
     State_Monad.return (case err of Some e \<Rightarrow> Inl e | None \<Rightarrow> Inr into, patch') }"

definition Client_Delete :: "('o, 'u) K8sClient \<Rightarrow> resource_id \<Rightarrow> DeleteOptions \<Rightarrow> ('o, 'u, go_error option) kio" where
  "Client_Delete c ident options = gv_delete (kc_client c) ident (kc_Plural c) options"

definition Client_Watch :: "('o, 'u) K8sClient \<Rightarrow> string \<Rightarrow> WatchOptions \<Rightarrow> ('o, 'u, go_error + int) kio" where
  "Client_Watch c namespace options =
     (if kc_Scope c = ClusterScope \<and> namespace \<noteq> NamespaceAll
      then State_Monad.return (Inl (scope_error ''cannot watch resources'' namespace))
      else gv_watch (kc_client c) namespace (kc_Plural c) options)"

definition Client_SubresourceRequest ::
  "('o, 'u) K8sClient \<Rightarrow> resource_id \<Rightarrow> CustomRouteRequestOptions \<Rightarrow> ('o, 'u, go_error + string) kio" where
  "Client_SubresourceRequest c ident opts =
     (if kc_Scope c = ClusterScope \<and> id_Namespace ident \<noteq> NamespaceAll
      then State_Monad.return (Inl (scope_error ''cannot watch resources'' (id_Namespace ident)))
      else if cr_Path opts = [] then State_Monad.return (Inl (GoErr ''subresource Path is required''))
      else if cr_Verb opts = [] then State_Monad.return (Inl (GoErr ''request Verb is required''))
      else customRouteRequest (kc_client c) (id_Namespace ident) (kc_Plural c) (id_Name ident) opts)"

section \<open>CustomRouteClient\<close>

record 'u CustomRouteClient =
  crc_client :: "'u groupVersionClient"
  crc_defaultNamespace :: string

definition NamespacedRequest ::
  "'u CustomRouteClient \<Rightarrow> string \<Rightarrow> CustomRouteRequestOptions \<Rightarrow> ('o, 'u, go_error + string) kio" where
  "NamespacedRequest c namespace opts =
     customRouteRequest (crc_client c) (if namespace = [] then crc_defaultNamespace c else namespace) [] [] opts"

definition ClusteredRequest :: "'u CustomRouteClient \<Rightarrow> CustomRouteRequestOptions \<Rightarrow> ('o, 'u, go_error + string) kio" where
  "ClusteredRequest c opts = customRouteRequest (crc_client c) [] [] [] opts"

section \<open>The client under the stores\<close>

text \<open>
  The client as the interface the stores work on, on the state of the pointers and the server. \<open>UpdateObject\<close>
  passes the same object to be sent and to be read into.
\<close>

definition store_options :: DeleteOptions where
  "store_options = \<lparr>do_ResourceVersion = [], do_UID = [], do_PropagationPolicy = []\<rparr>"

definition result_at :: "(go_error + ptr) \<times> ('o, 'u) kstate \<Rightarrow> (go_error + 'o) \<times> ('o, 'u) kstate" where
  "result_at r = (case r of (Inl e, s) \<Rightarrow> (Inl e, s) | (Inr p, s) \<Rightarrow> (Inr (ks_objs s p), s))"

definition as_store_client :: "('o, 'u) K8sClient \<Rightarrow> ('o, ('o, 'u) kstate) client" where
  "as_store_client c =
     \<lparr>cl_Get = (\<lambda>ident s. case result_at (run_state (Client_Get c ident) s) of
        (Inl e, s') \<Rightarrow> ((None, Some e), s') | (Inr ob, s') \<Rightarrow> ((Some ob, None), s')),
      cl_GetInto = (\<lambda>ident ob s.
        let (p, s1) = run_state (alloc ob) s; (err, s2) = run_state (Client_GetInto c ident (Some p)) s1
        in ((ks_objs s2 p, err), s2)),
      cl_Create = (\<lambda>ident ob s.
        let (p, s1) = run_state (alloc ob) s in result_at (run_state (Client_Create c ident (Some p) False) s1)),
      cl_Update = (\<lambda>ident ob opts s.
        let (p, s1) = run_state (alloc ob) s in result_at (run_state (Client_Update c ident (Some p) opts) s1)),
      cl_UpdateInto = (\<lambda>ident ob opts s.
        let (p, s1) = run_state (alloc ob) s;
            (err, s2) = run_state (Client_UpdateInto c ident (Some p) opts (Some p)) s1
        in ((ks_objs s2 p, err), s2)),
      cl_Delete = (\<lambda>ident s. run_state (Client_Delete c ident store_options) s),
      cl_List = (\<lambda>ns opts s. case run_state (Client_List c ns opts) s of
        (Inl e, s') \<Rightarrow> (Inl e, s')
      | (Inr l, s') \<Rightarrow> (Inr \<lparr>li_Continue = lm_Continue (ls_meta l), li_ResourceVersion = lm_ResourceVersion (ls_meta l),
                          li_Items = ls_items l\<rparr>, s'))\<rparr>"

text \<open>
  What the accessors and the codec of an object do. \<open>content\<close> is the object without its place, its version
  and the label the client sets; \<open>dec\<close> is what a body stands for. A read that succeeds \<^emph>\<open>replaces\<close> the object: this holds of
  a codec of the user's, and of the SDK's JSON codec only for an object without a value to keep (the last section).
\<close>

definition codec_laws ::
  "'o object_api \<Rightarrow> ('o \<Rightarrow> string) \<Rightarrow> ('o \<Rightarrow> 'c) \<Rightarrow> (string \<Rightarrow> 'o) \<Rightarrow> bool" where
  "codec_laws C rv content dec \<longleftrightarrow>
     (\<forall>raw ob. snd (oa_Read C raw ob) = None \<longrightarrow> fst (oa_Read C raw ob) = dec raw) \<and>
     (\<forall>ob b. oa_Write C ob = Inr b \<longrightarrow> rv (dec b) = rv ob \<and> content (dec b) = content ob) \<and>
     (\<forall>l ob. oa_Namespace C (oa_SetLabels C l ob) = oa_Namespace C ob \<and> oa_Name C (oa_SetLabels C l ob) = oa_Name C ob \<and>
        rv (oa_SetLabels C l ob) = rv ob \<and> content (oa_SetLabels C l ob) = content ob) \<and>
     (\<forall>v ob. oa_Namespace C (oa_SetResourceVersion C v ob) = oa_Namespace C ob \<and>
        oa_Name C (oa_SetResourceVersion C v ob) = oa_Name C ob \<and>
        rv (oa_SetResourceVersion C v ob) = v \<and> content (oa_SetResourceVersion C v ob) = content ob) \<and>
     (\<forall>sm ob. oa_Namespace C (oa_SetStaticMetadata C sm ob) = sm_Namespace sm \<and>
        oa_Name C (oa_SetStaticMetadata C sm ob) = sm_Name sm \<and> content (oa_SetStaticMetadata C sm ob) = content ob)"

text \<open>
  The API server at the path of one object: \<open>docs\<close> are the documents it has stored there, the newest first, with
  distinct versions. Requests add documents, if they change anything; a read gives the newest; a write that
  names a version there is and succeeds puts a document with the content of its body right on top of that version, or
  answers with that version when it has this content.
\<close>

definition at_path :: "string \<Rightarrow> resource_id \<Rightarrow> request \<Rightarrow> request" where
  "at_path plural ident rq = in_namespace (id_Namespace ident) (Name (id_Name ident) (Resource plural rq))"

definition server_laws ::
  "'u rest \<Rightarrow> string \<Rightarrow> resource_id \<Rightarrow> ('u \<Rightarrow> string list) \<Rightarrow> (string \<Rightarrow> string) \<Rightarrow> (string \<Rightarrow> 'c) \<Rightarrow> bool" where
  "server_laws R plural ident docs docrv doccontent \<longleftrightarrow>
     (\<forall>u. distinct (map docrv (docs u))) \<and>
     (\<forall>rq u. suffix (docs u) (docs (snd (rs_do R rq u)))) \<and>
     (\<forall>u raw sc u'. rs_do R (at_path plural ident (Verb ''GET'')) u = ((raw, sc, None), u') \<longrightarrow>
        docs u' \<noteq> [] \<and> hd (docs u') = raw) \<and>
     (\<forall>b u raw sc u'. rs_do R (at_path plural ident (Body b (Verb ''PUT''))) u = ((raw, sc, None), u') \<and>
        docrv b \<in> docrv ` set (docs u) \<longrightarrow>
        (\<exists>cur rest. (docs u' = raw # cur # rest \<or> docs u' = raw # rest \<and> cur = raw) \<and>
           docrv cur = docrv b \<and> doccontent raw = doccontent b)) \<and>
     (\<forall>b u raw sc u'. rs_do R (at_path plural ident (Body b (Verb ''PUT''))) u = ((raw, sc, None), u') \<longrightarrow>
        docs u' \<noteq> [] \<and> hd (docs u') = raw)"

lemma in_namespace_Body: "in_namespace ns (Body b rq) = Body b (in_namespace ns rq)"
  by (simp add: in_namespace_def)

lemma run_answer_into:
  "run_state (answer_into g C rq into) s =
     (case rs_do (gv_client g) rq (ks_server s) of
        ((raw, sc, Some e), u) \<Rightarrow> (Some (parse_error g raw sc e), s\<lparr>ks_server := u\<rparr>)
      | ((raw, sc, None), u) \<Rightarrow>
          (snd (oa_Read C raw (ks_objs s into)),
           s\<lparr>ks_server := u, ks_objs := (ks_objs s)(into := fst (oa_Read C raw (ks_objs s into)))\<rparr>))"
  by (simp add: answer_into_def split: prod.split option.split)

lemma get_request:
  "in_namespace (id_Namespace ident) (Name (id_Name ident) (Resource plural (Verb v))) = at_path plural ident (Verb v)"
  by (simp add: at_path_def)

text \<open>
  What an update on a pointer does after the metadata is in place, when it is neither a dry run nor for a
  subresource: one request with the object's own document.
\<close>

lemma run_gv_update:
  assumes "codec_laws C rv content dec" "uo_DryRun opts = False"
    and "oa_Namespace C (ks_objs s p) = id_Namespace ident" "oa_Name C (ks_objs s p) = id_Name ident"
    and "run_state (gv_update g C plural p p opts) s = (None, s')"
  obtains b raw sc u where "rv (dec b) = rv (ks_objs s p)" "content (dec b) = content (ks_objs s p)"
    "rs_do (gv_client g) (at_path plural ident (Body b (Verb ''PUT''))) (ks_server s) = ((raw, sc, None), u)"
    "ks_server s' = u" "ks_objs s' p = dec raw"
proof -
  let ?ob = "addLabels C [(versionLabel, gv_version g)] (ks_objs s p)"
  have ob: "oa_Namespace C ?ob = id_Namespace ident" "oa_Name C ?ob = id_Name ident"
    "rv ?ob = rv (ks_objs s p)" "content ?ob = content (ks_objs s p)"
    using assms(1,3,4) by (simp_all add: codec_laws_def addLabels_def)
  obtain b where b: "oa_Write C ?ob = Inr b"
    using assms(5) by (cases "oa_Write C ?ob") (simp_all add: gv_update_def send_object_def)
  have path: "in_namespace (id_Namespace ident) (Body b (Name (id_Name ident) (Resource plural (Verb ''PUT'')))) =
      at_path plural ident (Body b (Verb ''PUT''))"
    by (simp add: at_path_def in_namespace_def Verb_def)
  have run: "run_state (gv_update g C plural p p opts) s =
      run_state (answer_into g C (at_path plural ident (Body b (Verb ''PUT''))) p) (s\<lparr>ks_objs := (ks_objs s)(p := ?ob)\<rparr>)"
    by (simp add: gv_update_def send_object_def b ob assms(2) dry_run_def path)
  obtain raw sc err u where do: "rs_do (gv_client g) (at_path plural ident (Body b (Verb ''PUT''))) (ks_server s) = ((raw, sc, err), u)"
    by (metis prod_cases3 surj_pair)
  have err: "err = None"
    using assms(5) unfolding run run_answer_into by (auto simp: do split: option.splits)
  have "ks_server s' = u \<and> ks_objs s' p = dec raw"
    using assms(1,5) unfolding run run_answer_into by (auto simp: do err codec_laws_def)
  moreover have "rv (dec b) = rv (ks_objs s p)" "content (dec b) = content (ks_objs s p)"
    using assms(1) b ob unfolding codec_laws_def by (metis, metis)
  ultimately show thesis using do err that by blast
qed

text \<open>A computation that only adds documents.\<close>

definition adds_docs :: "('u \<Rightarrow> string list) \<Rightarrow> ('o, 'u, 'a) kio \<Rightarrow> bool" where
  "adds_docs docs m \<longleftrightarrow> (\<forall>s. suffix (docs (ks_server s)) (docs (ks_server (snd (run_state m s)))))"

lemma adds_docs_bind:
  assumes "adds_docs docs m" "\<And>a. adds_docs docs (f a)"
  shows "adds_docs docs (State_Monad.bind m f)"
  unfolding adds_docs_def
proof
  fix s :: "('b, 'a) kstate"
  obtain a s1 where m: "run_state m s = (a, s1)" by fastforce
  have "suffix (docs (ks_server s)) (docs (ks_server s1))" using assms(1) m unfolding adds_docs_def by (metis snd_conv)
  moreover have "suffix (docs (ks_server s1)) (docs (ks_server (snd (run_state (f a) s1))))"
    using assms(2) unfolding adds_docs_def by blast
  ultimately show "suffix (docs (ks_server s)) (docs (ks_server (snd (run_state (State_Monad.bind m f) s))))"
    by (simp add: m)
qed

lemma adds_docs_basic:
  "adds_docs docs (State_Monad.return a)" "adds_docs docs (obj_at p)" "adds_docs docs (update_obj p f)"
  "adds_docs docs (alloc v)" "adds_docs docs (read_into C raw p)"
  by (simp_all add: adds_docs_def split: prod.split)

lemma adds_docs_update:
  assumes "server_laws (gv_client g) plural ident docs docrv doccontent"
  shows "adds_docs docs (set_version g C plural i p opts)" "adds_docs docs (send_update g C plural p q opts)"
    "adds_docs docs (answer_into g C rq p)"
proof -
  have send: "adds_docs docs (send g rq)" for rq
    using assms unfolding server_laws_def by (simp add: adds_docs_def split: prod.split) (metis snd_conv)
  show answer: "adds_docs docs (answer_into g C rq p)" for rq p
    unfolding answer_into_def
    by (rule adds_docs_bind [OF send]) (auto simp: adds_docs_basic split: prod.split option.split)
  show "adds_docs docs (set_version g C plural i p opts)"
    unfolding set_version_def getMetadata_def
    by (auto intro!: send adds_docs_bind [OF adds_docs_bind [OF send]] adds_docs_bind adds_docs_basic
        split: prod.split option.split sum.split)
  have "adds_docs docs (send_object g C obj path into)" for obj path into
    unfolding send_object_def
    by (auto intro!: adds_docs_bind adds_docs_basic answer split: sum.split)
  then show "adds_docs docs (send_update g C plural p q opts)"
    by (simp add: send_update_def gv_update_def gv_updateSubresource_def)
qed

text \<open>
  The REST client keeps the contract that \<open>UpdateObject\<close> needs of a client: on an API server that
  guards writes by the version they name, and with a codec that replaces the object it reads into, a read
  returns the newest version and an update that succeeds was put right on top of the version it names with the
  content of the object that was sent, although the client overwrites that object with the answer.
\<close>

lemma client_keeps_store_contract:
  assumes codec: "codec_laws (kc_codec c) (oi_ResourceVersion I) content dec"
    and server: "server_laws (gv_client (kc_client c)) (kc_Plural c) ident docs (oi_ResourceVersion I \<circ> dec) (content \<circ> dec)"
  shows "occ_laws I (as_store_client c) ident (\<lambda>s. map dec (docs (ks_server s))) content \<and>
    replacing_reads (as_store_client c) ident (\<lambda>s. map dec (docs (ks_server s)))"
proof -
  let ?g = "kc_client c" and ?C = "kc_codec c"
  have read: "docs (ks_server s') \<noteq> [] \<and> hd (map dec (docs (ks_server s'))) = ks_objs s' p"
    if "run_state (Client_GetInto c ident (Some p)) s = (None, s')" for p s s'
    using that server codec unfolding Client_GetInto_def gv_get_def get_request option.case run_answer_into
    by (auto simp: server_laws_def codec_laws_def hd_map split: prod.splits option.splits)
  have got: "docs (ks_server s') \<noteq> [] \<and> hd (map dec (docs (ks_server s'))) = ob"
    if "cl_Get (as_store_client c) ident s = ((Some ob, None), s')" for s ob s'
    using that read by (auto simp: as_store_client_def Client_Get_def new_into_def result_at_def Let_def split: prod.splits option.splits sum.splits)
  have got_into: "docs (ks_server s') \<noteq> [] \<and> hd (map dec (docs (ks_server s'))) = ob"
    if "cl_GetInto (as_store_client c) ident into s = ((ob, None), s')" for s into ob s'
    using that read by (auto simp: as_store_client_def Let_def split: prod.splits)
  have grow: "suffix (docs (ks_server s)) (docs (ks_server s'))"
    if "cl_UpdateInto (as_store_client c) ident ob opts s = ((ob', e), s')" for s ob opts ob' e s'
  proof -
    have "adds_docs docs (do { p \<leftarrow> alloc ob; Client_UpdateInto c ident (Some p) opts (Some p) })"
      unfolding Client_UpdateInto_def option.case
      by (intro adds_docs_bind adds_docs_basic adds_docs_update [OF server])
        (auto intro: adds_docs_basic adds_docs_update [OF server] split: option.split)
    then have "suffix (docs (ks_server s)) (docs (ks_server (snd (run_state (do { p \<leftarrow> alloc ob;
        Client_UpdateInto c ident (Some p) opts (Some p) }) s))))"
      unfolding adds_docs_def by blast
    with that show ?thesis by (simp add: as_store_client_def Let_def split: prod.splits)
  qed
  have put: "uo_ResourceVersion opts \<in> oi_ResourceVersion I ` set (map dec (docs (ks_server s))) \<longrightarrow>
      (\<exists>top cur rest. (map dec (docs (ks_server s')) = top # cur # rest \<or> map dec (docs (ks_server s')) = top # rest \<and> cur = top) \<and>
        oi_ResourceVersion I cur = uo_ResourceVersion opts \<and> content top = content ob)"
    and replaced: "docs (ks_server s') \<noteq> [] \<and> hd (map dec (docs (ks_server s'))) = ob'"
    if run: "cl_UpdateInto (as_store_client c) ident ob opts s = ((ob', None), s')"
      and opts: "uo_ResourceVersion opts \<noteq> []" "uo_Subresource opts = []" "\<not> uo_DryRun opts" for s ob opts ob' s'
  proof -
    define p where "p = ks_next s"
    define ob1 where "ob1 = oa_SetResourceVersion ?C (uo_ResourceVersion opts) (oa_SetStaticMetadata ?C (static_of c ident) ob)"
    define s1 where "s1 = s\<lparr>ks_next := Suc p, ks_objs := (ks_objs s)(p := ob1)\<rparr>"
    have s1: "ks_objs s1 p = ob1" "run_state (gv_update ?g ?C (kc_Plural c) p p opts) s1 = (None, s')" "ks_objs s' p = ob'"
      "ks_server s1 = ks_server s"
      using run opts
      by (auto simp: as_store_client_def Let_def Client_UpdateInto_def set_version_def send_update_def p_def ob1_def s1_def split: prod.splits)
    have ob1: "oa_Namespace ?C ob1 = id_Namespace ident" "oa_Name ?C ob1 = id_Name ident"
      "oi_ResourceVersion I ob1 = uo_ResourceVersion opts" "content ob1 = content ob"
      using codec by (simp_all add: ob1_def codec_laws_def static_of_def)
    obtain b raw sc u where b: "oi_ResourceVersion I (dec b) = uo_ResourceVersion opts" "content (dec b) = content ob"
      "rs_do (gv_client ?g) (at_path (kc_Plural c) ident (Body b (Verb ''PUT''))) (ks_server s) = ((raw, sc, None), u)"
      "ks_server s' = u" "ob' = dec raw"
      using run_gv_update [OF codec, of opts s1 p ident ?g "kc_Plural c" s'] s1 ob1 opts(3) by metis
    have "docs u \<noteq> [] \<and> hd (docs u) = raw" using server b(3) unfolding server_laws_def by blast
    with b show "docs (ks_server s') \<noteq> [] \<and> hd (map dec (docs (ks_server s'))) = ob'" by (simp add: hd_map)
    have "\<exists>top cur rest. (map dec (docs (ks_server s')) = top # cur # rest \<or> map dec (docs (ks_server s')) = top # rest \<and> cur = top) \<and>
        oi_ResourceVersion I cur = uo_ResourceVersion opts \<and> content top = content ob"
      if named: "uo_ResourceVersion opts \<in> oi_ResourceVersion I ` set (map dec (docs (ks_server s)))"
    proof -
    from named have "(oi_ResourceVersion I \<circ> dec) b \<in> (oi_ResourceVersion I \<circ> dec) ` set (docs (ks_server s))"
      using b(1) by (auto simp: image_image)
    then obtain cur rest where cur: "docs u = raw # cur # rest \<or> docs u = raw # rest \<and> cur = raw"
      "oi_ResourceVersion I (dec cur) = oi_ResourceVersion I (dec b)" "content (dec raw) = content (dec b)"
      using server b(3) unfolding server_laws_def comp_def by meson
    show ?thesis using b cur by (intro exI [of _ "dec raw"] exI [of _ "dec cur"] exI [of _ "map dec rest"]) auto
    qed
    then show "uo_ResourceVersion opts \<in> oi_ResourceVersion I ` set (map dec (docs (ks_server s))) \<longrightarrow>
        (\<exists>top cur rest. (map dec (docs (ks_server s')) = top # cur # rest \<or> map dec (docs (ks_server s')) = top # rest \<and> cur = top) \<and>
          oi_ResourceVersion I cur = uo_ResourceVersion opts \<and> content top = content ob)" by blast
  qed
  have versions: "distinct (map (oi_ResourceVersion I) (map dec (docs (ks_server s))))" for s :: "('a, 'c) kstate"
    using server by (simp add: server_laws_def comp_def)
  have "occ_laws I (as_store_client c) ident (\<lambda>s. map dec (docs (ks_server s))) content"
    unfolding occ_laws_def using versions got grow put map_mono_suffix by (metis list.map_disc_iff)
  moreover have "replacing_reads (as_store_client c) ident (\<lambda>s. map dec (docs (ks_server s)))"
    unfolding replacing_reads_def using got_into replaced by (metis list.map_disc_iff)
  ultimately show ?thesis by blast
qed

text \<open>
  An object of the witness is written as its version, each character behind an x, a full stop and its content;
  its server names the versions v, vv, and so on.
\<close>

fun enc_version :: "string \<Rightarrow> string" where
  "enc_version [] = ''.''"
| "enc_version (c # cs) = CHR ''x'' # c # enc_version cs"

fun dec_doc :: "string \<Rightarrow> string \<times> string" where
  "dec_doc (a # c # s) = (if a = CHR ''x'' then (let (v, b) = dec_doc s in (c # v, b)) else ([], c # s))"
| "dec_doc s = ([], [])"

lemma dec_enc: "dec_doc (enc_version v @ b) = (v, b)"
  by (induction v) (cases b; simp)+

definition blank :: object_base where
  "blank = \<lparr>ob_APIVersion = [], ob_Kind = [], ob_Name = [], ob_Namespace = [], ob_UID = [], ob_ResourceVersion = [],
     ob_Generation = 0, ob_Labels = None, ob_CreationTimestamp = 0, ob_DeletionTimestamp = None, ob_Finalizers = None,
     ob_Annotations = None, ob_Other = []\<rparr>"

definition sample_dec :: "string \<Rightarrow> object_base" where
  "sample_dec raw = blank\<lparr>ob_ResourceVersion := fst (dec_doc raw), ob_Other := snd (dec_doc raw)\<rparr>"

definition base_api ::
  "(object_base \<Rightarrow> go_error + string) \<Rightarrow> (string \<Rightarrow> object_base \<Rightarrow> object_base \<times> go_error option) \<Rightarrow> object_base object_api" where
  "base_api wr rd = \<lparr>oa_Namespace = ob_Namespace, oa_Name = ob_Name, oa_Labels = ob_Labels,
     oa_SetLabels = (\<lambda>l ob. ob\<lparr>ob_Labels := l\<rparr>),
     oa_SetStaticMetadata = (\<lambda>sm ob. ob\<lparr>ob_Namespace := sm_Namespace sm, ob_Name := sm_Name sm, ob_Kind := sm_Kind sm\<rparr>),
     oa_SetResourceVersion = (\<lambda>v ob. ob\<lparr>ob_ResourceVersion := v\<rparr>), oa_Write = wr, oa_Read = rd\<rparr>"

definition sample_api :: "object_base object_api" where
  "sample_api = base_api (\<lambda>ob. Inr (enc_version (ob_ResourceVersion ob) @ ob_Other ob)) (\<lambda>raw ob. (sample_dec raw, None))"

fun sample_docs :: "string list \<Rightarrow> string list" where
  "sample_docs [] = []"
| "sample_docs (x # xs) = (enc_version (replicate (Suc (length xs)) CHR ''v'') @ x) # sample_docs xs"

definition sample_do :: "request \<Rightarrow> string list \<Rightarrow> (string \<times> int \<times> go_error option) \<times> string list" where
  "sample_do rq u =
     (case rq_Body rq of
        None \<Rightarrow> (if u = [] then ([], 404, Some (External 404 ''not found'')) else (hd (sample_docs u), 200, None), u)
      | Some b \<Rightarrow>
          if u \<noteq> [] \<and> fst (dec_doc b) = replicate (length u) CHR ''v''
          then ((hd (sample_docs (snd (dec_doc b) # u)), 200, None), snd (dec_doc b) # u)
          else (([], 409, Some (External 409 ''conflict'')), u))"

definition simple_rest :: "(request \<Rightarrow> 'u \<Rightarrow> (string \<times> int \<times> go_error option) \<times> 'u) \<Rightarrow> 'u rest" where
  "simple_rest act = \<lparr>rs_do = act, rs_watch = (\<lambda>rq u. (None, u)), rs_parse_status = (\<lambda>_. None), rs_as_status = (\<lambda>_. None),
     rs_marshal_patch = (\<lambda>_. Inr []), rs_metaFields = [], rs_marshal_delete = (\<lambda>_. Inr []), rs_read_metadata = Inr,
     rs_read_list = (\<lambda>_. Inl (GoErr []))\<rparr>"

definition sample_k8s :: "object_base object_api \<Rightarrow> 'u rest \<Rightarrow> (object_base, 'u) K8sClient" where
  "sample_k8s C R = \<lparr>kc_client = \<lparr>gv_client = R, gv_version = ''v1''\<rparr>,
     kc_schema = \<lparr>sch_Group = ''app'', sch_Version = ''v1'', sch_Kind = ''Foo'', sch_Plural = ''foos''\<rparr>,
     kc_Scope = NamespacedScope, kc_zero = blank,
     kc_zeroList = \<lparr>ls_meta = \<lparr>lm_APIVersion = [], lm_Kind = [], lm_ResourceVersion = [], lm_SelfLink = [], lm_Continue = [],
       lm_RemainingItemCount = None\<rparr>, ls_items = []\<rparr>, kc_codec = C\<rparr>"

definition base_iface :: "object_base object_iface" where
  "base_iface = \<lparr>oi_Static = (\<lambda>ob. \<lparr>sm_Group = [], sm_Version = [], sm_Kind = [], sm_Namespace = [], sm_Name = []\<rparr>),
     oi_Namespace = ob_Namespace, oi_Name = ob_Name, oi_ResourceVersion = ob_ResourceVersion, oi_touch = (\<lambda>t ob. ob)\<rparr>"

lemma sample_docs_versions: "map (fst \<circ> dec_doc) (sample_docs u) = rev (map (\<lambda>n. replicate (Suc n) CHR ''v'') [0..<length u])"
  by (induction u) (simp_all add: dec_enc)

lemma sample_server:
  "server_laws (simple_rest sample_do) ''foos'' ident sample_docs
     (ob_ResourceVersion \<circ> sample_dec) (ob_Other \<circ> sample_dec)"
proof -
  have "distinct (map (fst \<circ> dec_doc) (sample_docs u))" for u
    unfolding sample_docs_versions distinct_rev distinct_map
    by (auto intro!: inj_onI dest!: arg_cong [of _ _ length])
  moreover have "suffix (sample_docs u) (sample_docs (snd (sample_do rq u)))" for rq u
    by (auto simp: sample_do_def suffix_def split: option.split)
  moreover have "u \<noteq> [] \<Longrightarrow> sample_docs u \<noteq> []" for u by (cases u) simp_all
  moreover have "docs \<noteq> [] \<and> hd docs = raw \<and> (\<exists>cur rest. docs = raw # cur # rest \<and> fst (dec_doc cur) = fst (dec_doc b) \<and>
      snd (dec_doc raw) = snd (dec_doc b))"
    if "sample_do (at_path ''foos'' ident (Body b (Verb ''PUT''))) u = ((raw, sc, None), u')" "docs = sample_docs u'"
    for b u raw sc u' docs
    using that by (cases u) (auto simp: sample_do_def at_path_def in_namespace_def Verb_def dec_enc split: if_splits)
  moreover have "rs_do (simple_rest sample_do) = sample_do" by (simp add: simple_rest_def)
  moreover have "docs \<noteq> [] \<and> hd docs = raw"
    if "sample_do (at_path ''foos'' ident (Verb ''GET'')) u = ((raw, sc, None), u')" "docs = sample_docs u'" for u raw sc u' docs
    using that by (cases u) (auto simp: sample_do_def at_path_def in_namespace_def Verb_def split: if_splits)
  ultimately show ?thesis
    unfolding server_laws_def comp_def sample_dec_def by simp meson
qed

lemma client_keeps_store_contract_witness:
  "occ_laws base_iface (as_store_client (sample_k8s sample_api (simple_rest sample_do))) \<lparr>id_Namespace = ''ns'', id_Name = ''a''\<rparr>
     (\<lambda>s. map sample_dec (sample_docs (ks_server s))) ob_Other \<and>
   replacing_reads (as_store_client (sample_k8s sample_api (simple_rest sample_do))) \<lparr>id_Namespace = ''ns'', id_Name = ''a''\<rparr>
     (\<lambda>s. map sample_dec (sample_docs (ks_server s)))"
proof (rule client_keeps_store_contract)
  show "codec_laws (kc_codec (sample_k8s sample_api (simple_rest sample_do))) (oi_ResourceVersion base_iface) ob_Other sample_dec"
    by (auto simp: codec_laws_def sample_k8s_def sample_api_def base_api_def base_iface_def sample_dec_def dec_enc)
  show "server_laws (gv_client (kc_client (sample_k8s sample_api (simple_rest sample_do))))
      (kc_Plural (sample_k8s sample_api (simple_rest sample_do))) \<lparr>id_Namespace = ''ns'', id_Name = ''a''\<rparr> sample_docs
      (oi_ResourceVersion base_iface \<circ> sample_dec) (ob_Other \<circ> sample_dec)"
    using sample_server by (simp add: sample_k8s_def base_iface_def)
qed

section \<open>Reading into an object that is in use\<close>

text \<open>
  The SDK's codecs decode JSON into the object as it is: a member that the document leaves out keeps its old
  value, a map keeps its old entries. Then \<open>UpdateObject\<close> carries what it read before a conflict over to the
  retry. Here a document is its version and the letter a when the object has the label a; somebody else removes
  the label while the first write is on its way, the update function changes nothing, and the label is back.
\<close>

definition merging_api :: "object_base object_api" where
  "merging_api = base_api
     (\<lambda>ob. Inr (ob_ResourceVersion ob @ (if (case ob_Labels ob of None \<Rightarrow> False | Some l \<Rightarrow> l ''a'' \<noteq> None) then ''a'' else [])))
     (\<lambda>raw ob. (ob\<lparr>ob_ResourceVersion := takeWhile (\<lambda>c. c = CHR ''v'') raw,
        ob_Labels := (if CHR ''a'' \<in> set raw
          then Some ((case ob_Labels ob of None \<Rightarrow> Map.empty | Some l \<Rightarrow> l)(''a'' \<mapsto> []))
          else ob_Labels ob)\<rparr>, None))"

definition racing_do :: "request \<Rightarrow> string list \<Rightarrow> (string \<times> int \<times> go_error option) \<times> string list" where
  "racing_do rq u =
     (case rq_Body rq of
        None \<Rightarrow> ((hd u, 200, None), u)
      | Some b \<Rightarrow>
          if u = [''va''] then (([], 409, Some (External 409 ''conflict'')), [''vv'', ''va''])
          else ((CHR ''v'' # b, 200, None), (CHR ''v'' # b) # u))"

definition conflict_api :: "'s api" where
  "conflict_api = \<lparr>api_IsNotFound = (\<lambda>e. False),
     api_IsConflict = (\<lambda>e. case e of ServerResponseError _ code \<Rightarrow> code = 409 | _ \<Rightarrow> False), api_now = (\<lambda>s. 0)\<rparr>"

lemma merging_codec_loses_update:
  "ks_server (snd (UpdateObject base_iface conflict_api blank (\<lambda>ob. True)
       (Some (as_store_client (sample_k8s merging_api (simple_rest racing_do)))) \<lparr>id_Namespace = ''ns'', id_Name = ''x''\<rparr>
       (Some (\<lambda>ob isRetry s. (Inr ob, s))) no_UpdateOptions \<lparr>ks_objs = (\<lambda>_. blank), ks_next = 0, ks_server = [''va'']\<rparr>)) =
     [''vvva'', ''vv'', ''va'']"
proof -
  define c where "c = sample_k8s merging_api (simple_rest racing_do)"
  have api: "kc_codec c = merging_api" "gv_client (kc_client c) = simple_rest racing_do" "kc_zero c = blank"
    by (simp_all add: c_def sample_k8s_def)
  have obj: "oa_Namespace merging_api = ob_Namespace" "oa_Name merging_api = ob_Name" "oa_Labels merging_api = ob_Labels"
    "oa_SetLabels merging_api l ob = ob\<lparr>ob_Labels := l\<rparr>"
    "oa_SetStaticMetadata merging_api sm ob = ob\<lparr>ob_Namespace := sm_Namespace sm, ob_Name := sm_Name sm, ob_Kind := sm_Kind sm\<rparr>"
    "oa_SetResourceVersion merging_api v ob = ob\<lparr>ob_ResourceVersion := v\<rparr>"
    "oa_Write merging_api ob = Inr (ob_ResourceVersion ob @
       (if (case ob_Labels ob of None \<Rightarrow> False | Some l \<Rightarrow> l ''a'' \<noteq> None) then ''a'' else []))"
    "oa_Read merging_api raw ob = (ob\<lparr>ob_ResourceVersion := takeWhile (\<lambda>c. c = CHR ''v'') raw,
        ob_Labels := (if CHR ''a'' \<in> set raw
          then Some ((case ob_Labels ob of None \<Rightarrow> Map.empty | Some l \<Rightarrow> l)(''a'' \<mapsto> [])) else ob_Labels ob)\<rparr>, None)" for l ob sm v raw
    by (simp_all add: merging_api_def base_api_def)
  have rest: "rs_do (simple_rest racing_do) = racing_do" by (simp add: simple_rest_def)
  have err: "parse_error g raw 409 e = ServerResponseError e 409" if "gv_client g = simple_rest racing_do" for g raw e
    by (simp add: parse_error_def ParseKubernetesError_def parse_rest_def NewServerResponseError_def that simple_rest_def split: option.split)
  show ?thesis
    unfolding c_def [symmetric]
    by (simp add: UpdateObject_def doUpdate_def as_store_client_def Client_Get_def Client_GetInto_def Client_UpdateInto_def
        new_into_def gv_get_def set_version_def send_update_def gv_update_def send_object_def run_answer_into result_at_def
        api rest err racing_do_def Verb_def in_namespace_def is_space_def dry_run_def obj
        addLabels_def base_iface_def blank_def versionLabel_def conflict_api_def numeral_2_eq_2)
qed

text \<open>\<open>ListInto\<close> refuses a namespace for a cluster scoped kind, \<open>List\<close> sends the request.\<close>

lemma List_ignores_scope:
  assumes "kc_Scope c = ClusterScope" "namespace \<noteq> NamespaceAll"
  shows "run_state (Client_ListInto c namespace options into) s = ((into, Some (scope_error ''cannot list resources'' namespace)), s)"
    and "ks_server (snd (run_state (Client_List c namespace options) s)) =
      snd (rs_do (gv_client (kc_client c)) (list_request namespace (kc_Plural c) options) (ks_server s))"
  using assms by (simp_all add: Client_ListInto_def Client_List_def gv_list_def split: prod.split option.split)

end
