(* ===== verification/Client_Registry.thy ===== *)
theory Client_Registry
  imports K8s_Client
begin

text \<open>
  Where clients come from: the client that takes the group version from the identifier (\<^verbatim>\<open>k8s/schemaless.go\<close>),
  the registry of clients by kind (\<^verbatim>\<open>k8s/client_registry.go\<close>), the configurations (\<^verbatim>\<open>k8s/client.go\<close>) and the
  transport that turns stream errors into connection errors (\<^verbatim>\<open>k8s/stream_error.go\<close>).

  \<open>RESTClientFor\<close> is third-party code: a parameter that makes a REST client of a configuration or fails. The
  mutexes make each call one step.
\<close>

section \<open>Configurations\<close>

text \<open>The parts of \<^verbatim>\<open>rest.Config\<close> the SDK touches; the transport wrappers are listed from the inside out.\<close>

datatype wrapper = CustomWrapper string | StreamErrorHandling

record RestConfig =
  rc_Host :: string
  rc_APIPath :: string
  rc_GroupVersion :: "(string \<times> string) option"
  rc_Serializer :: string
  rc_TLS :: string
  rc_Wrap :: "wrapper list"
  rc_UserAgent :: string
  rc_BearerToken :: string
  rc_BearerTokenFile :: string
  rc_CertData :: string
  rc_CertFile :: string
  rc_KeyData :: string
  rc_KeyFile :: string

record ClientConfig =
  cc_SerializerProvider :: "(schema \<Rightarrow> string) option"
  cc_KubeConfigProvider :: "(schema \<Rightarrow> RestConfig \<Rightarrow> RestConfig) option"
  cc_EnableStreamErrorHandling :: bool

record RemoteRestConfig =
  rr_Host :: string
  rr_TLS :: string
  rr_Wrap :: "wrapper list"
  rr_OverrideAuth :: bool

definition default_api_path :: "schema \<Rightarrow> RestConfig \<Rightarrow> RestConfig" where
  "default_api_path kind kubeConfig =
     kubeConfig\<lparr>rc_APIPath := (if sch_Group kind = [] then ''/api'' else ''/apis'')\<rparr>"

definition DefaultClientConfig :: ClientConfig where
  "DefaultClientConfig = \<lparr>cc_SerializerProvider = None,
     cc_KubeConfigProvider = Some (\<lambda>kind kubeConfig.
       if rc_APIPath kubeConfig \<noteq> [] then kubeConfig else default_api_path kind kubeConfig),
     cc_EnableStreamErrorHandling = True\<rparr>"

definition overlayRemoteRestConfig :: "RestConfig \<Rightarrow> RemoteRestConfig \<Rightarrow> RestConfig" where
  "overlayRemoteRestConfig kubeConfig remoteCfg =
     (let cfg = kubeConfig\<lparr>rc_Host := rr_Host remoteCfg, rc_TLS := rr_TLS remoteCfg, rc_Wrap := rr_Wrap remoteCfg\<rparr>
      in if rr_OverrideAuth remoteCfg
         then cfg\<lparr>rc_BearerToken := [], rc_BearerTokenFile := [], rc_CertData := [], rc_CertFile := [],
                  rc_KeyData := [], rc_KeyFile := []\<rparr>
         else cfg)"

text \<open>The remote configurations by group; a nil one counts as none.\<close>

definition NewClientConfigWithExternalClients :: "(string \<Rightarrow> RemoteRestConfig option) \<Rightarrow> ClientConfig" where
  "NewClientConfigWithExternalClients remotes = DefaultClientConfig\<lparr>cc_KubeConfigProvider := Some (\<lambda>kind kubeConfig.
     if rc_APIPath kubeConfig \<noteq> [] then kubeConfig
     else (case remotes (sch_Group kind) of
             None \<Rightarrow> default_api_path kind kubeConfig
           | Some remoteCfg \<Rightarrow> overlayRemoteRestConfig (default_api_path kind kubeConfig) remoteCfg))\<rparr>"

section \<open>Stream errors\<close>

definition contains :: "string \<Rightarrow> string \<Rightarrow> bool" where
  "contains s sub \<longleftrightarrow> sublist sub s"

text \<open>An error by its message.\<close>

definition isStreamError :: "string option \<Rightarrow> bool" where
  "isStreamError err = (case err of
     None \<Rightarrow> False
   | Some errStr \<Rightarrow>
       if contains errStr ''stream error:'' then True
       else if contains errStr ''GOAWAY'' then True
       else contains errStr ''INTERNAL_ERROR'' \<or> contains errStr ''received from peer'' \<or>
         contains errStr ''connection reset'' \<or> contains errStr ''broken pipe'')"

datatype transport_error = PlainError string | StreamConnectionError string

text \<open>A response body is the list of what its reads return; \<open>None\<close> is a read without an error.\<close>

definition body_Read :: "nat \<times> string option \<Rightarrow> nat \<times> transport_error option" where
  "body_Read r = (case r of
     (n, None) \<Rightarrow> (n, None)
   | (n, Some err) \<Rightarrow> (n, Some (if isStreamError (Some err) then StreamConnectionError err else PlainError err)))"

text \<open>The answer of the wrapped transport: a response, nil as \<open>None\<close>, as its reads, and an error.\<close>

definition RoundTrip ::
  "(nat \<times> string option) list option \<times> string option \<Rightarrow>
   (nat \<times> transport_error option) list option \<times> transport_error option" where
  "RoundTrip r = (case r of (resp, err) \<Rightarrow>
     if isStreamError err
     then (map_option (map (map_prod id (map_option PlainError))) resp, map_option StreamConnectionError err)
     else (map_option (map body_Read) resp, map_option PlainError err))"

definition WrapWithStreamErrorHandling :: "RestConfig \<Rightarrow> RestConfig" where
  "WrapWithStreamErrorHandling cfg = cfg\<lparr>rc_Wrap := rc_Wrap cfg @ [StreamErrorHandling]\<rparr>"

section \<open>ClientRegistry\<close>

type_synonym gvk_key = "string \<times> string \<times> string"

record 'u ClientRegistry =
  cg_clients :: "gvk_key \<Rightarrow> 'u rest option"
  cg_crClients :: "string \<times> string \<Rightarrow> 'u rest option"
  cg_cfg :: RestConfig
  cg_clientConfig :: ClientConfig

definition GenericNegotiatedSerializer :: string where
  "GenericNegotiatedSerializer = ''GenericNegotiatedSerializer''"

definition NewClientRegistry :: "string \<Rightarrow> RestConfig \<Rightarrow> ClientConfig \<Rightarrow> 'u ClientRegistry" where
  "NewClientRegistry userAgent kubeConfig clientConfig =
     (let cfg = kubeConfig\<lparr>rc_Serializer := GenericNegotiatedSerializer, rc_UserAgent := userAgent\<rparr>
      in \<lparr>cg_clients = (\<lambda>_. None), cg_crClients = (\<lambda>_. None),
          cg_cfg = (if cc_EnableStreamErrorHandling clientConfig then WrapWithStreamErrorHandling cfg else cfg),
          cg_clientConfig = clientConfig\<rparr>)"

definition gvk_of :: "schema \<Rightarrow> gvk_key" where
  "gvk_of sch = (sch_Group sch, sch_Version sch, sch_Kind sch)"

text \<open>The configuration for a kind.\<close>

definition kind_config :: "'u ClientRegistry \<Rightarrow> schema \<Rightarrow> RestConfig" where
  "kind_config c sch =
     (let ccfg = (cg_cfg c)\<lparr>rc_GroupVersion := Some (sch_Group sch, sch_Version sch)\<rparr>;
          ccfg1 = (case cc_SerializerProvider (cg_clientConfig c) of
                     Some provider \<Rightarrow> ccfg\<lparr>rc_Serializer := provider sch\<rparr>
                   | None \<Rightarrow> ccfg\<lparr>rc_Serializer := GenericNegotiatedSerializer\<rparr>)
      in case cc_KubeConfigProvider (cg_clientConfig c) of
           Some provider \<Rightarrow> provider sch ccfg1
         | None \<Rightarrow> ccfg1)"

definition getClientFor ::
  "(RestConfig \<Rightarrow> go_error + 'u rest) \<Rightarrow> schema \<Rightarrow> 'u ClientRegistry \<Rightarrow> (go_error + 'u rest) \<times> 'u ClientRegistry" where
  "getClientFor RESTClientFor sch c = (case cg_clients c (gvk_of sch) of
     Some r \<Rightarrow> (Inr r, c)
   | None \<Rightarrow> (case RESTClientFor (kind_config c sch) of
       Inl e \<Rightarrow> (Inl e, c)
     | Inr client \<Rightarrow> (Inr client, c\<lparr>cg_clients := (cg_clients c)(gvk_of sch \<mapsto> client)\<rparr>)))"

text \<open>A kind: its schema with scope and zero values, and its JSON codec, nil as \<open>None\<close>.\<close>

record 'o resource_Kind =
  ki_schema :: schema
  ki_Scope :: string
  ki_zero :: 'o
  ki_zeroList :: "'o list_into"
  ki_codec :: "'o object_api option"

definition ClientFor ::
  "(RestConfig \<Rightarrow> go_error + 'u rest) \<Rightarrow> 'o resource_Kind \<Rightarrow> 'u ClientRegistry \<Rightarrow>
   (go_error + ('o, 'u) K8sClient) \<times> 'u ClientRegistry" where
  "ClientFor RESTClientFor sch c = (case ki_codec sch of
     None \<Rightarrow> (Inl (GoErr ''no codec for KindEncodingJSON''), c)
   | Some codec \<Rightarrow> (case getClientFor RESTClientFor (ki_schema sch) c of
       (Inl e, c1) \<Rightarrow> (Inl e, c1)
     | (Inr client, c1) \<Rightarrow>
         (Inr \<lparr>kc_client = \<lparr>gv_client = client, gv_version = sch_Version (ki_schema sch)\<rparr>, kc_schema = ki_schema sch,
               kc_Scope = ki_Scope sch, kc_zero = ki_zero sch, kc_zeroList = ki_zeroList sch, kc_codec = codec\<rparr>, c1)))"

definition getCustomRouteClient ::
  "(RestConfig \<Rightarrow> go_error + 'u rest) \<Rightarrow> string \<times> string \<Rightarrow> 'u ClientRegistry \<Rightarrow>
   (go_error + 'u rest) \<times> 'u ClientRegistry" where
  "getCustomRouteClient RESTClientFor gv c = (case cg_crClients c gv of
     Some r \<Rightarrow> (Inr r, c)
   | None \<Rightarrow> (case RESTClientFor ((cg_cfg c)\<lparr>rc_GroupVersion := Some gv\<rparr>) of
       Inl e \<Rightarrow> (Inl e, c)
     | Inr client \<Rightarrow> (Inr client, c\<lparr>cg_crClients := (cg_crClients c)(gv \<mapsto> client)\<rparr>)))"

definition GetCustomRouteClient ::
  "(RestConfig \<Rightarrow> go_error + 'u rest) \<Rightarrow> string \<times> string \<Rightarrow> string \<Rightarrow> 'u ClientRegistry \<Rightarrow>
   (go_error + 'u CustomRouteClient) \<times> 'u ClientRegistry" where
  "GetCustomRouteClient RESTClientFor gv defaultNamespace c = (case getCustomRouteClient RESTClientFor gv c of
     (Inl e, c1) \<Rightarrow> (Inl e, c1)
   | (Inr client, c1) \<Rightarrow> (Inr \<lparr>crc_client = \<lparr>gv_client = client, gv_version = snd gv\<rparr>,
                              crc_defaultNamespace = defaultNamespace\<rparr>, c1))"

section \<open>SchemalessClient\<close>

definition getPlural :: "(string \<Rightarrow> string) \<Rightarrow> FullIdentifier \<Rightarrow> string" where
  "getPlural ToLower ident = (if fi_Plural ident \<noteq> [] then fi_Plural ident else ToLower (fi_Kind ident) @ ''s'')"

text \<open>
  The client with what it gets from outside: the constructor of a REST client for a group version, the
  string of a group version, lower case, and the codec. Its only state is the cache.
\<close>

record ('o, 'u) schemaless_env =
  se_RESTClientFor :: "string \<times> string \<Rightarrow> go_error + 'u rest"
  se_Identifier :: "string \<times> string \<Rightarrow> string"
  se_ToLower :: "string \<Rightarrow> string"
  se_codec :: "'o object_api"

type_synonym 'u clients = "string \<Rightarrow> 'u groupVersionClient option"

definition schemaless_getClient ::
  "('o, 'u) schemaless_env \<Rightarrow> FullIdentifier \<Rightarrow> 'u clients \<Rightarrow> (go_error + 'u groupVersionClient) \<times> 'u clients" where
  "schemaless_getClient E ident clients =
     (let gv = (fi_Group ident, fi_Version ident)
      in case clients (se_Identifier E gv) of
           Some c \<Rightarrow> (Inr c, clients)
         | None \<Rightarrow> (case se_RESTClientFor E gv of
             Inl e \<Rightarrow> (Inl e, clients)
           | Inr client \<Rightarrow>
               (let c = \<lparr>gv_client = client, gv_version = fi_Version ident\<rparr>
                in (Inr c, clients(se_Identifier E gv \<mapsto> c)))))"

text \<open>A call with the identifier's client.\<close>

definition with_client ::
  "('o, 'u) schemaless_env \<Rightarrow> FullIdentifier \<Rightarrow> (go_error \<Rightarrow> 'a) \<Rightarrow> ('u groupVersionClient \<Rightarrow> ('o, 'u, 'a) kio) \<Rightarrow>
   'u clients \<Rightarrow> ('o, 'u, 'a \<times> 'u clients) kio" where
  "with_client E ident failed call clients = (case schemaless_getClient E ident clients of
     (Inl e, clients') \<Rightarrow> State_Monad.return (failed e, clients')
   | (Inr client, clients') \<Rightarrow> do { r \<leftarrow> call client; State_Monad.return (r, clients') })"

abbreviation short_id :: "FullIdentifier \<Rightarrow> resource_id" where
  "short_id ident \<equiv> \<lparr>id_Namespace = fi_Namespace ident, id_Name = fi_Name ident\<rparr>"

definition full_static :: "FullIdentifier \<Rightarrow> static_metadata" where
  "full_static ident = \<lparr>sm_Group = fi_Group ident, sm_Version = fi_Version ident, sm_Kind = fi_Kind ident,
     sm_Namespace = fi_Namespace ident, sm_Name = fi_Name ident\<rparr>"

definition Schemaless_Get ::
  "('o, 'u) schemaless_env \<Rightarrow> FullIdentifier \<Rightarrow> ptr option \<Rightarrow> 'u clients \<Rightarrow> ('o, 'u, go_error option \<times> 'u clients) kio" where
  "Schemaless_Get E ident into clients = (case into of
     None \<Rightarrow> State_Monad.return (Some (nil_error ''into''), clients)
   | Some p \<Rightarrow> with_client E ident Some (\<lambda>g.
       gv_get g (se_codec E) (short_id ident) (getPlural (se_ToLower E) ident) p) clients)"

definition Schemaless_Create ::
  "('o, 'u) schemaless_env \<Rightarrow> FullIdentifier \<Rightarrow> ptr option \<Rightarrow> bool \<Rightarrow> ptr option \<Rightarrow> 'u clients \<Rightarrow>
   ('o, 'u, go_error option \<times> 'u clients) kio" where
  "Schemaless_Create E ident obj dryRun into clients = (case obj of
     None \<Rightarrow> State_Monad.return (Some (nil_error ''obj''), clients)
   | Some p \<Rightarrow> (case into of
       None \<Rightarrow> State_Monad.return (Some (nil_error ''into''), clients)
     | Some q \<Rightarrow> with_client E ident Some (\<lambda>g. do {
         update_obj p (oa_SetStaticMetadata (se_codec E) (full_static ident));
         gv_create g (se_codec E) (getPlural (se_ToLower E) ident) p q dryRun }) clients))"

definition Schemaless_Update ::
  "('o, 'u) schemaless_env \<Rightarrow> FullIdentifier \<Rightarrow> ptr option \<Rightarrow> UpdateOptions \<Rightarrow> ptr option \<Rightarrow> 'u clients \<Rightarrow>
   ('o, 'u, go_error option \<times> 'u clients) kio" where
  "Schemaless_Update E ident obj options into clients = (case obj of
     None \<Rightarrow> State_Monad.return (Some (nil_error ''obj''), clients)
   | Some p \<Rightarrow> (case into of
       None \<Rightarrow> State_Monad.return (Some (nil_error ''into''), clients)
     | Some q \<Rightarrow> with_client E ident Some (\<lambda>g. do {
         update_obj p (oa_SetStaticMetadata (se_codec E) (full_static ident));
         err \<leftarrow> set_version g (se_codec E) (getPlural (se_ToLower E) ident) (short_id ident) p options;
         case err of
           Some e \<Rightarrow> State_Monad.return (Some e)
         | None \<Rightarrow> send_update g (se_codec E) (getPlural (se_ToLower E) ident) p q options }) clients))"

definition Schemaless_Patch ::
  "('o, 'u) schemaless_env \<Rightarrow> FullIdentifier \<Rightarrow> patch_request \<Rightarrow> PatchOptions \<Rightarrow> ptr \<Rightarrow> 'u clients \<Rightarrow>
   ('o, 'u, (go_error option \<times> patch_request) \<times> 'u clients) kio" where
  "Schemaless_Patch E ident patch options into clients =
     with_client E ident (\<lambda>e. (Some e, patch)) (\<lambda>g.
       gv_patch g (se_codec E) (short_id ident) (getPlural (se_ToLower E) ident) patch into options) clients"

definition Schemaless_Delete ::
  "('o, 'u) schemaless_env \<Rightarrow> FullIdentifier \<Rightarrow> DeleteOptions \<Rightarrow> 'u clients \<Rightarrow> ('o, 'u, go_error option \<times> 'u clients) kio" where
  "Schemaless_Delete E ident options clients =
     with_client E ident Some (\<lambda>g. gv_delete g (short_id ident) (getPlural (se_ToLower E) ident) options) clients"

text \<open>The example item is copied for each item; a nil list is \<open>None\<close>.\<close>

definition Schemaless_List ::
  "('o, 'u) schemaless_env \<Rightarrow> FullIdentifier \<Rightarrow> ListOptions \<Rightarrow> 'o list_into option \<Rightarrow> 'o \<Rightarrow> 'u clients \<Rightarrow>
   ('o, 'u, ('o list_into option \<times> go_error option) \<times> 'u clients) kio" where
  "Schemaless_List E ident options into example clients = (case into of
     None \<Rightarrow> State_Monad.return ((None, Some (nil_error ''into'')), clients)
   | Some l \<Rightarrow> with_client E ident (\<lambda>e. (into, Some e)) (\<lambda>g. do {
       (l', err) \<leftarrow> gv_list g (fi_Namespace ident) (getPlural (se_ToLower E) ident) l options
         (\<lambda>raw. case oa_Read (se_codec E) raw example of (ob, None) \<Rightarrow> Inr ob | (ob, Some e) \<Rightarrow> Inl e);
       State_Monad.return (Some l', err) }) clients)"

definition Schemaless_Watch ::
  "('o, 'u) schemaless_env \<Rightarrow> FullIdentifier \<Rightarrow> WatchOptions \<Rightarrow> 'o option \<Rightarrow> 'u clients \<Rightarrow>
   ('o, 'u, (go_error + int) \<times> 'u clients) kio" where
  "Schemaless_Watch E ident options example clients = (case example of
     None \<Rightarrow> State_Monad.return (Inl (nil_error ''exampleItem''), clients)
   | Some ob \<Rightarrow> with_client E ident Inl (\<lambda>g.
       gv_watch g (fi_Namespace ident) (getPlural (se_ToLower E) ident) options) clients)"

section \<open>Every client talks to the server of its kind\<close>

text \<open>The calls that change a registry.\<close>

datatype registry_call = ForKind schema | ForRoutes "string \<times> string"

fun registry_step :: "(RestConfig \<Rightarrow> go_error + 'u rest) \<Rightarrow> registry_call \<Rightarrow> 'u ClientRegistry \<Rightarrow> 'u ClientRegistry" where
  "registry_step F (ForKind sch) c = snd (getClientFor F sch c)"
| "registry_step F (ForRoutes gv) c = snd (getCustomRouteClient F gv c)"

lemma ClientFor_step:
  "snd (ClientFor F k c) = (if ki_codec k = None then c else registry_step F (ForKind (ki_schema k)) c)"
  by (simp add: ClientFor_def split: option.split prod.split sum.split)

lemma GetCustomRouteClient_step: "snd (GetCustomRouteClient F gv ns c) = registry_step F (ForRoutes gv) c"
  by (simp add: GetCustomRouteClient_def split: prod.split sum.split)

text \<open>A cached client was made of the configuration for some kind with its group, version and name.\<close>

definition registry_inv :: "(RestConfig \<Rightarrow> go_error + 'u rest) \<Rightarrow> RestConfig \<Rightarrow> ClientConfig \<Rightarrow> 'u ClientRegistry \<Rightarrow> bool" where
  "registry_inv F cfg cc c \<longleftrightarrow> cg_cfg c = cfg \<and> cg_clientConfig c = cc \<and>
     (\<forall>k r. cg_clients c k = Some r \<longrightarrow> (\<exists>sch. gvk_of sch = k \<and> F (kind_config c sch) = Inr r)) \<and>
     (\<forall>gv r. cg_crClients c gv = Some r \<longrightarrow> F (cfg\<lparr>rc_GroupVersion := Some gv\<rparr>) = Inr r)"

lemma kind_config_cong:
  "cg_cfg c = cg_cfg c' \<Longrightarrow> cg_clientConfig c = cg_clientConfig c' \<Longrightarrow> kind_config c sch = kind_config c' sch"
  by (simp add: kind_config_def)

lemma registry_step_inv: "registry_inv F cfg cc c \<Longrightarrow> registry_inv F cfg cc (registry_step F call c)"
proof (cases call)
  case (ForKind sch)
  assume inv: "registry_inv F cfg cc c"
  show ?thesis
  proof (cases "cg_clients c (gvk_of sch) = None \<and> (\<exists>r. F (kind_config c sch) = Inr r)")
    case True
    then obtain r where r: "F (kind_config c sch) = Inr r" "cg_clients c (gvk_of sch) = None" by blast
    let ?c = "c\<lparr>cg_clients := (cg_clients c)(gvk_of sch \<mapsto> r)\<rparr>"
    have "kind_config ?c s = kind_config c s" for s by (rule kind_config_cong) simp_all
    moreover have "registry_step F call c = ?c" by (simp add: ForKind getClientFor_def r)
    ultimately show ?thesis using inv r by (auto simp: registry_inv_def)
  next
    case False
    then have "registry_step F call c = c"
      by (auto simp: ForKind getClientFor_def split: option.split sum.split)
    with inv show ?thesis by simp
  qed
next
  case (ForRoutes gv)
  assume inv: "registry_inv F cfg cc c"
  have "kind_config (c\<lparr>cg_crClients := m\<rparr>) s = kind_config c s" for m s by (rule kind_config_cong) simp_all
  with inv show ?thesis by (auto simp: ForRoutes getCustomRouteClient_def registry_inv_def split: option.split sum.split)
qed

lemma registry_runs_inv:
  assumes "c = fold (registry_step F) calls (NewClientRegistry ua kubeConfig cc)"
  shows "registry_inv F (cg_cfg (NewClientRegistry ua kubeConfig cc :: 'u ClientRegistry)) cc c"
proof -
  have "registry_inv F cfg cc c0 \<Longrightarrow> registry_inv F cfg cc (fold (registry_step F) calls c0)" for cfg c0
    by (induction calls arbitrary: c0) (simp_all add: registry_step_inv)
  moreover have "registry_inv F (cg_cfg (NewClientRegistry ua kubeConfig cc :: 'u ClientRegistry)) cc (NewClientRegistry ua kubeConfig cc)"
    by (simp add: registry_inv_def NewClientRegistry_def Let_def)
  ultimately show ?thesis using assms by simp
qed

text \<open>The configuration the default configuration gives for a group version.\<close>

definition default_rest_config :: "string \<Rightarrow> RestConfig \<Rightarrow> string \<times> string \<Rightarrow> RestConfig" where
  "default_rest_config ua kubeConfig gv = kubeConfig\<lparr>rc_Serializer := GenericNegotiatedSerializer, rc_UserAgent := ua,
     rc_Wrap := rc_Wrap kubeConfig @ [StreamErrorHandling], rc_GroupVersion := Some gv,
     rc_APIPath := (if rc_APIPath kubeConfig \<noteq> [] then rc_APIPath kubeConfig else if fst gv = [] then ''/api'' else ''/apis'')\<rparr>"

text \<open>
  Whatever calls came before, the client that a registry with the default configuration returns for a kind
  sends its requests through a REST client that was made for the kind's own group version, with the API path of
  its group and with the handling of stream errors around the given transport, and labels and addresses objects
  by the kind itself; a kind without a JSON codec gets none.
\<close>

lemma registry_client_of_kind:
  assumes "c = fold (registry_step F) calls (NewClientRegistry ua kubeConfig DefaultClientConfig)"
    and "ClientFor F k c = (Inr client, c')"
  shows "F (default_rest_config ua kubeConfig (sch_Group (ki_schema k), sch_Version (ki_schema k))) = Inr (gv_client (kc_client client)) \<and>
    gv_version (kc_client client) = sch_Version (ki_schema k) \<and> kc_schema client = ki_schema k \<and>
    kc_Scope client = ki_Scope k \<and> ki_codec k = Some (kc_codec client)"
proof -
  have inv: "registry_inv F (cg_cfg (NewClientRegistry ua kubeConfig DefaultClientConfig :: 'a ClientRegistry)) DefaultClientConfig c"
    by (rule registry_runs_inv [OF assms(1)])
  then have config: "kind_config c sch = default_rest_config ua kubeConfig (sch_Group sch, sch_Version sch)" for sch
    by (simp add: registry_inv_def kind_config_def default_rest_config_def default_api_path_def NewClientRegistry_def Let_def
        DefaultClientConfig_def WrapWithStreamErrorHandling_def)
  obtain codec r where k: "ki_codec k = Some codec" "fst (getClientFor F (ki_schema k) c) = Inr r"
    "client = \<lparr>kc_client = \<lparr>gv_client = r, gv_version = sch_Version (ki_schema k)\<rparr>, kc_schema = ki_schema k,
               kc_Scope = ki_Scope k, kc_zero = ki_zero k, kc_zeroList = ki_zeroList k, kc_codec = codec\<rparr>"
    using assms(2) by (auto simp: ClientFor_def split: option.splits prod.splits sum.splits)
  have "\<exists>sch. gvk_of sch = gvk_of (ki_schema k) \<and> F (kind_config c sch) = Inr r"
    using inv k(2)
    by (auto simp: getClientFor_def registry_inv_def simp del: split_paired_All split_paired_Ex split: option.splits sum.splits)
  then show ?thesis unfolding config using k by (auto simp: gvk_of_def)
qed

text \<open>
  The clients for custom routes are made without the provider of configurations, so with the default
  configuration their API path stays empty, while that of a kind of the same group is set.
\<close>

lemma custom_route_client_without_api_path:
  assumes "c = fold (registry_step F) calls (NewClientRegistry ua kubeConfig DefaultClientConfig)"
    and "GetCustomRouteClient F gv ns c = (Inr client, c')"
  shows "F ((default_rest_config ua kubeConfig gv)\<lparr>rc_APIPath := rc_APIPath kubeConfig\<rparr>) = Inr (gv_client (crc_client client))"
proof -
  have inv: "registry_inv F (cg_cfg (NewClientRegistry ua kubeConfig DefaultClientConfig :: 'a ClientRegistry)) DefaultClientConfig c"
    by (rule registry_runs_inv [OF assms(1)])
  have "F ((cg_cfg c)\<lparr>rc_GroupVersion := Some gv\<rparr>) = Inr (gv_client (crc_client client))"
    using inv assms(2)
    by (auto simp: GetCustomRouteClient_def getCustomRouteClient_def registry_inv_def
        simp del: split_paired_All split_paired_Ex split: option.splits prod.splits sum.splits)
  moreover have "(cg_cfg c)\<lparr>rc_GroupVersion := Some gv\<rparr> = (default_rest_config ua kubeConfig gv)\<lparr>rc_APIPath := rc_APIPath kubeConfig\<rparr>"
    using inv by (simp add: registry_inv_def NewClientRegistry_def Let_def default_rest_config_def DefaultClientConfig_def
        WrapWithStreamErrorHandling_def)
  ultimately show ?thesis by simp
qed

text \<open>A remote configuration replaces the transport wrappers, the handling of stream errors among them.\<close>

lemma remote_config_drops_stream_handling:
  assumes "remotes (sch_Group sch) = Some remote" "rc_APIPath kubeConfig = []"
  shows "rc_Wrap (kind_config (NewClientRegistry ua kubeConfig (NewClientConfigWithExternalClients remotes)) sch) = rr_Wrap remote"
  using assms
  by (simp add: kind_config_def NewClientRegistry_def NewClientConfigWithExternalClients_def DefaultClientConfig_def
      overlayRemoteRestConfig_def WrapWithStreamErrorHandling_def Let_def)

definition sample_rest_config :: RestConfig where
  "sample_rest_config = \<lparr>rc_Host = ''h'', rc_APIPath = [], rc_GroupVersion = None, rc_Serializer = [], rc_TLS = [], rc_Wrap = [],
     rc_UserAgent = [], rc_BearerToken = [], rc_BearerTokenFile = [], rc_CertData = [], rc_CertFile = [], rc_KeyData = [],
     rc_KeyFile = []\<rparr>"

definition config_rest :: "RestConfig \<Rightarrow> go_error + string list rest" where
  "config_rest cfg = Inr (simple_rest (\<lambda>rq u. (([], 200, None), rc_APIPath cfg # u)))"

definition sample_kind_info :: "object_base resource_Kind" where
  "sample_kind_info = \<lparr>ki_schema = \<lparr>sch_Group = ''app'', sch_Version = ''v1'', sch_Kind = ''Foo'', sch_Plural = ''foos''\<rparr>,
     ki_Scope = NamespacedScope, ki_zero = blank, ki_zeroList = kc_zeroList (sample_k8s sample_api (simple_rest sample_do)),
     ki_codec = Some sample_api\<rparr>"

lemma registry_client_of_kind_witness:
  "\<exists>client c'. ClientFor config_rest sample_kind_info
      (fold (registry_step config_rest) [ForRoutes (''app'', ''v1''), ForKind (ki_schema sample_kind_info)]
        (NewClientRegistry ''ua'' sample_rest_config DefaultClientConfig)) = (Inr client, c') \<and>
    config_rest (default_rest_config ''ua'' sample_rest_config (''app'', ''v1'')) = Inr (gv_client (kc_client client)) \<and>
    gv_version (kc_client client) = ''v1''"
proof -
  let ?c = "fold (registry_step config_rest) [ForRoutes (''app'', ''v1''), ForKind (ki_schema sample_kind_info)]
        (NewClientRegistry ''ua'' sample_rest_config DefaultClientConfig)"
  have "\<exists>client c'. ClientFor config_rest sample_kind_info ?c = (Inr client, c')"
    by (simp add: ClientFor_def getClientFor_def getCustomRouteClient_def sample_kind_info_def config_rest_def
        NewClientRegistry_def Let_def split: option.split)
  then obtain client c' where run: "ClientFor config_rest sample_kind_info ?c = (Inr client, c')" by blast
  show ?thesis
    using registry_client_of_kind [OF refl run] run by (auto simp: sample_kind_info_def)
qed

section \<open>The cache of the schemaless client\<close>

text \<open>Group versions with different strings: a cached client was made for its group version.\<close>

definition clients_inv :: "('o, 'u) schemaless_env \<Rightarrow> 'u clients \<Rightarrow> bool" where
  "clients_inv E clients \<longleftrightarrow> (\<forall>key g. clients key = Some g \<longrightarrow>
     (\<exists>gv. se_Identifier E gv = key \<and> se_RESTClientFor E gv = Inr (gv_client g) \<and> gv_version g = snd gv))"

lemma schemaless_getClient_inv:
  assumes "clients_inv E clients" "schemaless_getClient E ident clients = (r, clients')"
  shows "clients_inv E clients'"
    and "inj (se_Identifier E) \<Longrightarrow> r = Inr g \<Longrightarrow>
      se_RESTClientFor E (fi_Group ident, fi_Version ident) = Inr (gv_client g) \<and> gv_version g = fi_Version ident"
proof -
  let ?gv = "(fi_Group ident, fi_Version ident)"
  consider (cached) c where "clients (se_Identifier E ?gv) = Some c" "r = Inr c" "clients' = clients"
    | (failed) e where "r = Inl e" "clients' = clients"
    | (made) client where "se_RESTClientFor E ?gv = Inr client" "r = Inr \<lparr>gv_client = client, gv_version = fi_Version ident\<rparr>"
        "clients' = clients(se_Identifier E ?gv \<mapsto> \<lparr>gv_client = client, gv_version = fi_Version ident\<rparr>)"
    using assms(2) by (auto simp: schemaless_getClient_def Let_def split: option.splits sum.splits)
  note cases = this
  show "clients_inv E clients'"
  proof (cases rule: cases)
    case made
    then show ?thesis
      using assms(1) unfolding clients_inv_def
      by (auto simp del: split_paired_All split_paired_Ex intro!: exI [of _ ?gv])
  qed (use assms(1) in simp_all)
  assume inj: "inj (se_Identifier E)" and r: "r = Inr g"
  show "se_RESTClientFor E ?gv = Inr (gv_client g) \<and> gv_version g = fi_Version ident"
  proof (cases rule: cases)
    case (cached c)
    then obtain gv where "se_Identifier E gv = se_Identifier E ?gv" "se_RESTClientFor E gv = Inr (gv_client g)" "gv_version g = snd gv"
      using assms(1) r unfolding clients_inv_def by blast
    with inj show ?thesis by (simp add: inj_eq)
  qed (use r in auto)
qed

text \<open>
  A schemaless client does what the client of the kind does: a read by full identifier is the read of the kind's
  client for the same plural, for any REST client it has or makes.
\<close>

lemma Schemaless_Get_eq:
  assumes "schemaless_getClient E ident clients = (Inr (kc_client c), clients')" "se_codec E = kc_codec c"
    "getPlural (se_ToLower E) ident = kc_Plural c"
  shows "run_state (Schemaless_Get E ident into clients) s =
    (let (err, s') = run_state (Client_GetInto c (short_id ident) into) s
     in ((err, if into = None then clients else clients'), s'))"
  using assms by (cases into) (simp_all add: Schemaless_Get_def Client_GetInto_def with_client_def split: prod.split)

lemma Schemaless_Update_eq:
  assumes "schemaless_getClient E ident clients = (Inr (kc_client c), clients')" "se_codec E = kc_codec c"
    "getPlural (se_ToLower E) ident = kc_Plural c" "full_static ident = static_of c (short_id ident)"
    "obj \<noteq> None" "into \<noteq> None"
  shows "run_state (Schemaless_Update E ident obj options into clients) s =
    (let (err, s') = run_state (Client_UpdateInto c (short_id ident) obj options into) s in ((err, clients'), s'))"
  using assms
  by (auto simp: Schemaless_Update_def Client_UpdateInto_def with_client_def split: prod.split option.split)

end
