(* ===== verification/K8s_Watch.thy ===== *)
theory K8s_Watch
  imports Resource_Model
begin

text \<open>
  The watch of the REST client, \<open>WatchResponse\<close> and \<open>metricsWatchWrapper\<close> of \<^verbatim>\<open>k8s/gvclient.go\<close>: a goroutine
  reads the events of the underlying watch, translates them into SDK objects and sends them to a channel with a
  buffer. The methods hold a mutex, so each is a step; a send on the unbuffered stop channel is one step
  with the receive that ends the goroutine. Ghost components record what arrived, what was taken from the
  underlying watch and what the reader of the channel has received.
\<close>

section \<open>Translation of an event\<close>

text \<open>
  An object of an event by what it implements: \<^verbatim>\<open>resource.Object\<close>, \<open>Into\<close>, which reads it into a copy of the
  example object, \<open>ResourceObject\<close>, or nothing of these. A nil object is \<open>None\<close>.
\<close>

datatype 'o kube_object = IsResource 'o | HasInto "'o \<Rightarrow> 'o \<times> go_error option" | HasResourceObject 'o | OtherObject

record 'o kube_event =
  ke_Type :: string
  ke_Object :: "'o kube_object option"

record 'o WatchEvent =
  we_EventType :: string
  we_Object :: 'o

definition translate :: "'o \<Rightarrow> 'o kube_event \<Rightarrow> 'o WatchEvent option" where
  "translate ex evt = (case ke_Object evt of
     None \<Rightarrow> None
   | Some ob \<Rightarrow> map_option (WatchEvent.make (ke_Type evt)) (case ob of
       IsResource r \<Rightarrow> Some r
     | HasInto into \<Rightarrow> (case into ex of (r, None) \<Rightarrow> Some r | (r, Some e) \<Rightarrow> None)
     | HasResourceObject r \<Rightarrow> Some r
     | OtherObject \<Rightarrow> None))"

section \<open>WatchResponse\<close>

text \<open>The goroutine: not running, in the select, or about to send an event.\<close>

datatype 'e pump = NotRunning | Selecting | Sending 'e

record 'o WatchResponse =
  wr_ex :: 'o
  wr_incoming :: "'o kube_event list"
  wr_upClosed :: bool
  wr_upStopped :: bool
  wr_ch :: "'o WatchEvent list"
  wr_cap :: nat
  wr_chClosed :: bool
  wr_stopClosed :: bool
  wr_started :: bool
  wr_pump :: "'o WatchEvent pump"
  wr_panic :: bool
  wr_arrived :: "'o kube_event list"
  wr_received :: "'o WatchEvent list"

definition new_watch :: "'o \<Rightarrow> nat \<Rightarrow> 'o WatchResponse" where
  "new_watch ex cap = \<lparr>wr_ex = ex, wr_incoming = [], wr_upClosed = False, wr_upStopped = False, wr_ch = [], wr_cap = cap,
     wr_chClosed = False, wr_stopClosed = False, wr_started = False, wr_pump = NotRunning, wr_panic = False,
     wr_arrived = [], wr_received = []\<rparr>"

datatype 'o watch_label = Arrive "'o kube_event" | UpClose | CallWatchEvents | CallStop | CallKubernetesWatch
  | Take | Spin | Forward | Receive | Panic

text \<open>
  \<open>Arrive\<close> and \<open>UpClose\<close> are the underlying watch. A receive from its closed channel gives an event without an object,
  for which the loop starts over: \<open>Spin\<close>. A second goroutine is only started when the first has ended.
  A panic is a send on a closed channel or the second close of the stop channel; it ends the program.
\<close>

inductive watch_step :: "'o watch_label \<Rightarrow> 'o WatchResponse \<Rightarrow> 'o WatchResponse \<Rightarrow> bool" where
  arrive: "\<lbrakk>\<not> wr_panic w; \<not> wr_upClosed w\<rbrakk> \<Longrightarrow>
    watch_step (Arrive e) w (w\<lparr>wr_incoming := wr_incoming w @ [e], wr_arrived := wr_arrived w @ [e]\<rparr>)"
| up_close: "\<lbrakk>\<not> wr_panic w\<rbrakk> \<Longrightarrow> watch_step UpClose w (w\<lparr>wr_upClosed := True\<rparr>)"
| watch_events: "\<lbrakk>\<not> wr_panic w\<rbrakk> \<Longrightarrow>
    watch_step CallWatchEvents w (if wr_started w then w else w\<lparr>wr_pump := Selecting, wr_started := True\<rparr>)"
| stop: "\<lbrakk>\<not> wr_panic w; \<not> wr_stopClosed w; wr_pump w = Selecting\<rbrakk> \<Longrightarrow>
    watch_step CallStop w (w\<lparr>wr_stopClosed := True, wr_pump := NotRunning, wr_chClosed := True, wr_upStopped := True,
      wr_started := False\<rparr>)"
| stop_panics: "\<lbrakk>\<not> wr_panic w; wr_stopClosed w\<rbrakk> \<Longrightarrow> watch_step CallStop w (w\<lparr>wr_panic := True\<rparr>)"
| kubernetes_watch: "\<lbrakk>\<not> wr_panic w; wr_started w; \<not> wr_stopClosed w; wr_pump w = Selecting\<rbrakk> \<Longrightarrow>
    watch_step CallKubernetesWatch w (w\<lparr>wr_stopClosed := True, wr_pump := NotRunning, wr_started := False\<rparr>)"
| kubernetes_watch_panics: "\<lbrakk>\<not> wr_panic w; wr_started w; wr_stopClosed w\<rbrakk> \<Longrightarrow>
    watch_step CallKubernetesWatch w (w\<lparr>wr_panic := True\<rparr>)"
| kubernetes_watch_idle: "\<lbrakk>\<not> wr_panic w; \<not> wr_started w\<rbrakk> \<Longrightarrow> watch_step CallKubernetesWatch w w"
| take_: "\<lbrakk>\<not> wr_panic w; wr_pump w = Selecting; wr_incoming w = e # es\<rbrakk> \<Longrightarrow>
    watch_step Take w (w\<lparr>wr_incoming := es,
      wr_pump := (case translate (wr_ex w) e of None \<Rightarrow> Selecting | Some evt \<Rightarrow> Sending evt)\<rparr>)"
| spin: "\<lbrakk>\<not> wr_panic w; wr_pump w = Selecting; wr_incoming w = []; wr_upClosed w\<rbrakk> \<Longrightarrow> watch_step Spin w w"
| forward: "\<lbrakk>\<not> wr_panic w; wr_pump w = Sending evt; \<not> wr_chClosed w; length (wr_ch w) < wr_cap w\<rbrakk> \<Longrightarrow>
    watch_step Forward w (w\<lparr>wr_ch := wr_ch w @ [evt], wr_pump := Selecting\<rparr>)"
| receive: "\<lbrakk>\<not> wr_panic w; wr_ch w = evt # evts\<rbrakk> \<Longrightarrow>
    watch_step Receive w (w\<lparr>wr_ch := evts, wr_received := wr_received w @ [evt]\<rparr>)"
| panic_select: "\<lbrakk>\<not> wr_panic w; wr_pump w = Selecting; wr_stopClosed w\<rbrakk> \<Longrightarrow> watch_step Panic w (w\<lparr>wr_panic := True\<rparr>)"
| panic_send: "\<lbrakk>\<not> wr_panic w; wr_pump w = Sending evt; wr_chClosed w\<rbrakk> \<Longrightarrow> watch_step Panic w (w\<lparr>wr_panic := True\<rparr>)"

inductive watch_run :: "'o watch_label list \<Rightarrow> 'o WatchResponse \<Rightarrow> 'o WatchResponse \<Rightarrow> bool" where
  none: "watch_run [] w w"
| more: "\<lbrakk>watch_run ls w w'; watch_step l w' w''\<rbrakk> \<Longrightarrow> watch_run (ls @ [l]) w w''"

inductive_cases watch_stepE: "watch_step l w w'"

section \<open>What is delivered\<close>

definition in_flight :: "'o WatchResponse \<Rightarrow> 'o WatchEvent list" where
  "in_flight w = (case wr_pump w of Sending evt \<Rightarrow> [evt] | _ \<Rightarrow> [])"

definition translated :: "'o \<Rightarrow> 'o kube_event list \<Rightarrow> 'o WatchEvent list" where
  "translated ex es = List.map_filter (translate ex) es"

lemma translated_simps [simp]: "translated ex [] = []"
  "translated ex (e # es) = (case translate ex e of None \<Rightarrow> translated ex es | Some x \<Rightarrow> x # translated ex es)"
  "translated ex (xs @ ys) = translated ex xs @ translated ex ys"
  by (simp_all add: translated_def map_filter_simps split: option.split)
    (induction xs; simp add: map_filter_simps split: option.split)

definition watch_inv :: "'o WatchResponse \<Rightarrow> bool" where
  "watch_inv w \<longleftrightarrow> (wr_started w \<longleftrightarrow> wr_pump w \<noteq> NotRunning) \<and>
     wr_received w @ wr_ch w @ in_flight w @ translated (wr_ex w) (wr_incoming w) = translated (wr_ex w) (wr_arrived w)"

lemma watch_step_ex: "watch_step l w w' \<Longrightarrow> wr_ex w' = wr_ex w \<and> wr_cap w' = wr_cap w"
  by (cases rule: watch_step.cases) auto

lemma watch_step_inv: "watch_step l w w' \<Longrightarrow> watch_inv w \<Longrightarrow> watch_inv w'"
  by (cases rule: watch_step.cases) (auto simp: watch_inv_def in_flight_def split: option.splits pump.splits if_splits)

lemma watch_run_ex: "watch_run ls w w' \<Longrightarrow> wr_ex w' = wr_ex w \<and> wr_cap w' = wr_cap w"
  by (induction rule: watch_run.induct) (auto dest: watch_step_ex)

lemma watch_run_inv: "watch_run ls w w' \<Longrightarrow> watch_inv w \<Longrightarrow> watch_inv w'"
  by (induction rule: watch_run.induct) (auto dest: watch_step_inv)

lemma watch_run_append: "watch_run ls w w' \<Longrightarrow> watch_run ks v w \<Longrightarrow> watch_run (ks @ ls) v w'"
  by (induction rule: watch_run.induct) (auto simp flip: append_assoc intro: watch_run.intros)

lemma watch_run_step: "watch_step l w w' \<Longrightarrow> watch_run ls w' w'' \<Longrightarrow> watch_run (l # ls) w w''"
  using watch_run_append [of ls w' w'' "[l]" w] watch_run.more [OF watch_run.none, of l w w'] by simp

lemma new_watch_inv: "watch_inv (new_watch ex cap)"
  by (simp add: watch_inv_def new_watch_def in_flight_def)

text \<open>A goroutine that is running can hand everything on: first what it holds and the buffer has, then the rest.\<close>

definition deliver_labels :: "'o watch_label set" where
  "deliver_labels = {Take, Forward, Receive}"

lemma drain_buffer:
  assumes "\<not> wr_panic w"
  obtains ls where "set ls \<subseteq> deliver_labels" "watch_run ls w (w\<lparr>wr_ch := [], wr_received := wr_received w @ wr_ch w\<rparr>)"
proof -
  have "\<exists>ls. set ls \<subseteq> deliver_labels \<and> watch_run ls w (w\<lparr>wr_ch := [], wr_received := wr_received w @ wr_ch w\<rparr>)"
    if "\<not> wr_panic w" for w :: "'a WatchResponse"
    using that
  proof (induction "wr_ch w" arbitrary: w)
    case Nil
    then have "w\<lparr>wr_ch := [], wr_received := wr_received w @ wr_ch w\<rparr> = w" by simp
    then show ?case using watch_run.none [of w] by (intro exI [of _ "[]"]) simp
  next
    case (Cons evt evts)
    let ?w = "w\<lparr>wr_ch := evts, wr_received := wr_received w @ [evt]\<rparr>"
    have "watch_step Receive w ?w" using Cons.prems Cons.hyps(2) by (intro watch_step.receive) simp_all
    moreover obtain ls where "set ls \<subseteq> deliver_labels"
      "watch_run ls ?w (?w\<lparr>wr_ch := [], wr_received := wr_received ?w @ wr_ch ?w\<rparr>)"
      using Cons.hyps(1) [of ?w] Cons.prems by auto
    ultimately show ?case
      using Cons.hyps(2) [symmetric] watch_run_step [of Receive w ?w]
      by (intro exI [of _ "Receive # ls"]) (auto simp: deliver_labels_def)
  qed
  then show thesis using assms that by blast
qed

lemma can_deliver:
  assumes "\<not> wr_panic w" "\<not> wr_chClosed w" "0 < wr_cap w" "wr_pump w \<noteq> NotRunning"
  shows "\<exists>ls w'. set ls \<subseteq> deliver_labels \<and> watch_run ls w w' \<and> wr_incoming w' = [] \<and> wr_ch w' = [] \<and> in_flight w' = [] \<and>
    wr_arrived w' = wr_arrived w"
  using assms
proof (induction "length (wr_incoming w)" arbitrary: w)
  case (0 w)
  obtain ls where ls: "set ls \<subseteq> deliver_labels" "watch_run ls w (w\<lparr>wr_ch := [], wr_received := wr_received w @ wr_ch w\<rparr>)"
    using drain_buffer 0(2) by blast
  let ?w1 = "w\<lparr>wr_ch := [], wr_received := wr_received w @ wr_ch w\<rparr>"
  show ?case
  proof (cases "wr_pump w")
    case (Sending evt)
    let ?w2 = "?w1\<lparr>wr_ch := [evt], wr_pump := Selecting\<rparr>"
    let ?w3 = "?w2\<lparr>wr_ch := [], wr_received := wr_received ?w2 @ [evt]\<rparr>"
    have "watch_step Forward ?w1 ?w2"
      using watch_step.forward [of ?w1 evt] 0 Sending by simp
    moreover have "watch_step Receive ?w2 ?w3"
      using watch_step.receive [of ?w2 evt "[]"] 0 by simp
    ultimately have "watch_run (ls @ [Forward, Receive]) w ?w3"
      using ls(2) watch_run.more [OF watch_run.more [OF ls(2)]] by fastforce
    then show ?thesis
      using ls(1) 0 by (intro exI [of _ "ls @ [Forward, Receive]"] exI [of _ ?w3]) (simp add: deliver_labels_def in_flight_def)
  qed (use ls 0 in \<open>auto simp: in_flight_def intro!: exI\<close>)
next
  case (Suc n w)
  then obtain e es where es: "wr_incoming w = e # es" "length es = n" by (cases "wr_incoming w") auto
  have next_event: ?case if "wr_pump v = Selecting" "wr_incoming v = e # es" "\<not> wr_panic v" "\<not> wr_chClosed v" "0 < wr_cap v"
      "watch_run ks w v" "set ks \<subseteq> deliver_labels" "wr_arrived v = wr_arrived w" for v ks
  proof -
    let ?v = "v\<lparr>wr_incoming := es, wr_pump := (case translate (wr_ex v) e of None \<Rightarrow> Selecting | Some evt \<Rightarrow> Sending evt)\<rparr>"
    have step: "watch_step Take v ?v" using that by (intro watch_step.take_) simp_all
    obtain ls w' where ls: "set ls \<subseteq> deliver_labels" "watch_run ls ?v w'" "wr_incoming w' = []" "wr_ch w' = []"
      "in_flight w' = []" "wr_arrived w' = wr_arrived ?v"
    proof -
      have "wr_pump ?v \<noteq> NotRunning" by (simp split: option.split)
      then show thesis using Suc.hyps(1) [of ?v] es \<open>\<not> wr_panic v\<close> \<open>\<not> wr_chClosed v\<close> \<open>0 < wr_cap v\<close> that by auto
    qed
    have "watch_run (ks @ Take # ls) w w'"
      using watch_run_append [OF watch_run_step [OF step ls(2)] that(6)] .
    then show ?thesis
      using ls that by (intro exI [of _ "ks @ Take # ls"] exI [of _ w']) (auto simp: deliver_labels_def)
  qed
  show ?case
  proof (cases "wr_pump w")
    case Selecting
    then show ?thesis using next_event [of w "[]"] es Suc.prems by (simp add: watch_run.none)
  next
    case (Sending evt)
    obtain ls where ls: "set ls \<subseteq> deliver_labels" "watch_run ls w (w\<lparr>wr_ch := [], wr_received := wr_received w @ wr_ch w\<rparr>)"
      using drain_buffer Suc.prems by blast
    let ?w1 = "w\<lparr>wr_ch := [], wr_received := wr_received w @ wr_ch w\<rparr>"
    let ?w2 = "?w1\<lparr>wr_ch := [evt], wr_pump := Selecting\<rparr>"
    have "watch_step Forward ?w1 ?w2"
      using watch_step.forward [of ?w1 evt] Suc.prems Sending by simp
    then have "watch_run (ls @ [Forward]) w ?w2" using ls(2) by (rule watch_run.more [rotated])
    then show ?thesis
      using next_event [of ?w2 "ls @ [Forward]"] ls es Suc.prems by (simp add: deliver_labels_def)
  qed (use Suc.prems in simp)
qed

section \<open>Properties\<close>

text \<open>
  C29. What the reader of a watch has received is always an initial part of the translations of the events that
  arrived, in their order; and as long as the goroutine runs and the channel is open, goroutine and reader
  alone can bring it to all of them. Only events without an object or with one that cannot be
  translated are left out.
\<close>

theorem watch_delivers_in_order:
  assumes run: "watch_run ls (new_watch ex cap) w" and running: "wr_started w" "\<not> wr_chClosed w" "\<not> wr_panic w" "0 < cap"
  shows "(\<exists>rest. translated ex (wr_arrived w) = wr_received w @ rest) \<and>
    (\<exists>ks w'. set ks \<subseteq> deliver_labels \<and> watch_run ks w w' \<and> wr_received w' = translated ex (wr_arrived w))"
proof
  have ex: "wr_ex w = ex" "wr_cap w = cap" using watch_run_ex [OF run] by (simp_all add: new_watch_def)
  have inv: "watch_inv w" using watch_run_inv [OF run new_watch_inv] .
  then show "\<exists>rest. translated ex (wr_arrived w) = wr_received w @ rest" unfolding watch_inv_def ex by metis
  have "wr_pump w \<noteq> NotRunning" using inv running(1) by (simp add: watch_inv_def)
  then obtain ks w' where ks: "set ks \<subseteq> deliver_labels" "watch_run ks w w'" "wr_incoming w' = []" "wr_ch w' = []"
    "in_flight w' = []" "wr_arrived w' = wr_arrived w"
    using can_deliver [OF running(3,2)] running(4) ex(2) by auto
  have "watch_inv w'" "wr_ex w' = ex" using watch_run_inv [OF ks(2) inv] watch_run_ex [OF ks(2)] ex(1) by simp_all
  then have "wr_received w' = translated ex (wr_arrived w)" using ks by (simp add: watch_inv_def)
  with ks show "\<exists>ks w'. set ks \<subseteq> deliver_labels \<and> watch_run ks w w' \<and> wr_received w' = translated ex (wr_arrived w)" by blast
qed

text \<open>A call that closes the stop channel, and one that must not come after it.\<close>

definition stops :: "'o watch_label \<Rightarrow> bool" where
  "stops l \<longleftrightarrow> l = CallStop \<or> l = CallKubernetesWatch"

definition late :: "'o watch_label \<Rightarrow> bool" where
  "late l \<longleftrightarrow> l = CallStop \<or> l = CallWatchEvents"

definition misused :: "'o watch_label list \<Rightarrow> bool" where
  "misused ls \<longleftrightarrow> (\<exists>as s bs c cs. ls = as @ s # bs @ c # cs \<and> stops s \<and> late c)"

lemma misused_append: "misused ls \<Longrightarrow> misused (ls @ [l])"
  unfolding misused_def by (metis append.assoc append_Cons)

lemma misused_late: "\<exists>s \<in> set ls. stops s \<Longrightarrow> late l \<Longrightarrow> misused (ls @ [l])"
  unfolding misused_def by (metis append.assoc append_Cons split_list)

definition use_inv :: "'o watch_label list \<Rightarrow> 'o WatchResponse \<Rightarrow> bool" where
  "use_inv ls w \<longleftrightarrow> (wr_started w \<longleftrightarrow> wr_pump w \<noteq> NotRunning) \<and>
     (wr_chClosed w \<longrightarrow> wr_stopClosed w) \<and> (wr_stopClosed w \<longrightarrow> (\<exists>s \<in> set ls. stops s)) \<and>
     (wr_stopClosed w \<and> wr_started w \<longrightarrow> misused ls) \<and> (wr_panic w \<longrightarrow> misused ls)"

lemma use_inv_step:
  assumes "watch_step l w w'" "use_inv ls w"
  shows "use_inv (ls @ [l]) w'"
  using assms
proof (cases rule: watch_step.cases)
  case watch_events
  then show ?thesis
    using assms(2) misused_late [of ls l] by (auto simp: use_inv_def late_def misused_append split: if_splits)
next
  case stop_panics
  then show ?thesis using assms(2) misused_late [of ls l] by (auto simp: use_inv_def late_def misused_append)
next
  case (take_ e es)
  then show ?thesis using assms(2) by (auto simp: use_inv_def misused_append split: option.split)
qed (use assms(2) in \<open>auto simp: use_inv_def misused_append stops_def\<close>)

text \<open>
  The methods of a watch are safe when used as documented: the program panics only when \<open>Stop\<close> or
  \<open>WatchEvents\<close> is called after an earlier \<open>Stop\<close> or \<open>KubernetesWatch\<close>.
\<close>

lemma watch_panics_only_when_misused:
  assumes "watch_run ls (new_watch ex cap) w" "wr_panic w"
  shows "misused ls"
proof -
  have "watch_run ls v w \<Longrightarrow> use_inv [] v \<Longrightarrow> use_inv ls w" for v
    by (induction rule: watch_run.induct) (auto intro: use_inv_step)
  moreover have "use_inv [] (new_watch ex cap)" by (simp add: use_inv_def new_watch_def)
  ultimately show ?thesis using assms by (auto simp: use_inv_def)
qed

text \<open>
  The channel is closed by \<open>Stop\<close> only. When the underlying watch ends on its own, the goroutine spins on its
  closed channel and the reader is never told.
\<close>

lemma end_of_watch_not_seen:
  assumes "watch_run ls w w'" "CallStop \<notin> set ls" "\<not> wr_chClosed w"
  shows "\<not> wr_chClosed w'"
  using assms by (induction rule: watch_run.induct) (auto elim: watch_stepE split: if_splits)

lemma ended_watch_spins:
  assumes "\<not> wr_panic w" "wr_pump w = Selecting" "wr_incoming w = []" "wr_upClosed w"
  shows "watch_step Spin w w"
  using assms by (rule watch_step.spin)

text \<open>\<open>Stop\<close> before \<open>WatchEvents\<close> never returns: nobody receives from the stop channel.\<close>

lemma stop_before_start_blocks: "\<not> watch_step CallStop (new_watch ex cap) w"
  by (auto elim: watch_stepE simp: new_watch_def)

text \<open>An event with the API server's \<^verbatim>\<open>Status\<close>, which says that a watch has failed, is dropped.\<close>

lemma error_event_dropped: "translate ex \<lparr>ke_Type = ''ERROR'', ke_Object = Some OtherObject\<rparr> = None"
  by (simp add: translate_def)

definition sample_event :: "nat \<Rightarrow> nat kube_event" where
  "sample_event n = \<lparr>ke_Type = ''ADDED'', ke_Object = Some (if n = 0 then OtherObject else IsResource n)\<rparr>"

lemma sample_watch_run:
  "\<exists>w. watch_run [CallWatchEvents, Arrive (sample_event 0), Arrive (sample_event 7), Take, Take] (new_watch 0 1) w \<and>
     wr_started w \<and> \<not> wr_chClosed w \<and> \<not> wr_panic w \<and> wr_arrived w = [sample_event 0, sample_event 7] \<and> wr_received w = []"
proof -
  let ?w1 = "(new_watch 0 1)\<lparr>wr_pump := Selecting, wr_started := True\<rparr>"
  let ?w2 = "?w1\<lparr>wr_incoming := [sample_event 0], wr_arrived := [sample_event 0]\<rparr>"
  let ?w3 = "?w2\<lparr>wr_incoming := [sample_event 0, sample_event 7], wr_arrived := [sample_event 0, sample_event 7]\<rparr>"
  let ?w4 = "?w3\<lparr>wr_incoming := [sample_event 7]\<rparr>"
  let ?w5 = "?w4\<lparr>wr_incoming := [], wr_pump := Sending \<lparr>we_EventType = ''ADDED'', we_Object = 7\<rparr>\<rparr>"
  have steps: "watch_step CallWatchEvents (new_watch 0 1) ?w1" "watch_step (Arrive (sample_event 0)) ?w1 ?w2"
    "watch_step (Arrive (sample_event 7)) ?w2 ?w3"
    using watch_step.watch_events [of "new_watch 0 1"] watch_step.arrive [of ?w1 "sample_event 0"]
      watch_step.arrive [of ?w2 "sample_event 7"]
    by (simp_all add: new_watch_def)
  have takes: "watch_step Take ?w3 ?w4" "watch_step Take ?w4 ?w5"
    using watch_step.take_ [of ?w3 "sample_event 0" "[sample_event 7]"] watch_step.take_ [of ?w4 "sample_event 7" "[]"]
    by (simp_all add: new_watch_def translate_def sample_event_def WatchEvent.make_def)
  have "watch_run [CallWatchEvents, Arrive (sample_event 0), Arrive (sample_event 7), Take, Take] (new_watch 0 1) ?w5"
    by (rule watch_run_step [OF steps(1)] watch_run_step [OF steps(2)] watch_run_step [OF steps(3)]
        watch_run_step [OF takes(1)] watch_run_step [OF takes(2)] watch_run.none)+
  then show ?thesis by (intro exI [of _ ?w5]) (simp add: new_watch_def)
qed

theorem watch_delivers_in_order_witness:
  "\<exists>w ks w'. watch_run [CallWatchEvents, Arrive (sample_event 0), Arrive (sample_event 7), Take, Take] (new_watch 0 1) w \<and>
     watch_run ks w w' \<and> wr_received w = [] \<and> wr_received w' = [\<lparr>we_EventType = ''ADDED'', we_Object = 7\<rparr>]"
proof -
  obtain w where w: "watch_run [CallWatchEvents, Arrive (sample_event 0), Arrive (sample_event 7), Take, Take] (new_watch 0 1) w"
    "wr_started w" "\<not> wr_chClosed w" "\<not> wr_panic w" "wr_arrived w = [sample_event 0, sample_event 7]" "wr_received w = []"
    using sample_watch_run by blast
  then obtain ks w' where "watch_run ks w w'" "wr_received w' = translated 0 (wr_arrived w)"
    using watch_delivers_in_order [OF w(1-4)] by auto
  then show ?thesis
    using w by (intro exI [of _ w] exI [of _ ks] exI [of _ w'])
      (simp add: translate_def sample_event_def WatchEvent.make_def)
qed

lemma watch_panics_only_when_misused_witness:
  "\<exists>w. watch_run [CallWatchEvents, CallStop, CallStop] (new_watch (0 :: nat) 1) w \<and> wr_panic w \<and>
     misused [CallWatchEvents, CallStop, CallStop :: nat watch_label]"
proof -
  let ?w1 = "(new_watch (0 :: nat) 1)\<lparr>wr_pump := Selecting, wr_started := True\<rparr>"
  let ?w2 = "?w1\<lparr>wr_stopClosed := True, wr_pump := NotRunning, wr_chClosed := True, wr_upStopped := True, wr_started := False\<rparr>"
  let ?w3 = "?w2\<lparr>wr_panic := True\<rparr>"
  have steps: "watch_step CallWatchEvents (new_watch 0 1) ?w1" "watch_step CallStop ?w1 ?w2" "watch_step CallStop ?w2 ?w3"
    using watch_step.watch_events [of "new_watch (0 :: nat) 1"] watch_step.stop [of ?w1] watch_step.stop_panics [of ?w2]
    by (simp_all add: new_watch_def)
  have run: "watch_run [CallWatchEvents, CallStop, CallStop] (new_watch (0 :: nat) 1) ?w3"
    by (rule watch_run_step [OF steps(1)] watch_run_step [OF steps(2)] watch_run_step [OF steps(3)] watch_run.none)+
  have "wr_panic ?w3" by simp
  with run watch_panics_only_when_misused [OF run] show ?thesis by blast
qed

section \<open>The wrapper that counts events\<close>

text \<open>
  \<open>KubernetesWatch\<close> returns the underlying watch, with metrics inside a wrapper: its goroutine, which \<open>ResultChan\<close>
  starts once, counts each event and passes it on as it is. Its \<open>Stop\<close> signals the goroutine only when that
  is waiting in the select.
\<close>

record 'e metricsWatchWrapper =
  mw_incoming :: "'e list"
  mw_upClosed :: bool
  mw_upStopped :: bool
  mw_ch :: "'e list"
  mw_cap :: nat
  mw_chClosed :: bool
  mw_once :: bool
  mw_pump :: "'e pump"
  mw_counted :: "'e list"
  mw_arrived :: "'e list"
  mw_received :: "'e list"

inductive wrapper_step :: "'e metricsWatchWrapper \<Rightarrow> 'e metricsWatchWrapper \<Rightarrow> bool" where
  arrive: "\<lbrakk>\<not> mw_upClosed w\<rbrakk> \<Longrightarrow>
    wrapper_step w (w\<lparr>mw_incoming := mw_incoming w @ [e], mw_arrived := mw_arrived w @ [e]\<rparr>)"
| up_close: "wrapper_step w (w\<lparr>mw_upClosed := True\<rparr>)"
| result_chan: "wrapper_step w (if mw_once w then w else w\<lparr>mw_once := True, mw_pump := Selecting\<rparr>)"
| take_: "\<lbrakk>mw_pump w = Selecting; mw_incoming w = e # es\<rbrakk> \<Longrightarrow>
    wrapper_step w (w\<lparr>mw_incoming := es, mw_counted := mw_counted w @ [e], mw_pump := Sending e\<rparr>)"
| ended: "\<lbrakk>mw_pump w = Selecting; mw_incoming w = []; mw_upClosed w\<rbrakk> \<Longrightarrow>
    wrapper_step w (w\<lparr>mw_pump := NotRunning, mw_chClosed := True\<rparr>)"
| forward: "\<lbrakk>mw_pump w = Sending e; length (mw_ch w) < mw_cap w\<rbrakk> \<Longrightarrow>
    wrapper_step w (w\<lparr>mw_ch := mw_ch w @ [e], mw_pump := Selecting\<rparr>)"
| receive: "\<lbrakk>mw_ch w = e # es\<rbrakk> \<Longrightarrow> wrapper_step w (w\<lparr>mw_ch := es, mw_received := mw_received w @ [e]\<rparr>)"
| stop: "wrapper_step w (let w' = w\<lparr>mw_upStopped := True\<rparr>
    in if mw_pump w = Selecting then w'\<lparr>mw_pump := NotRunning, mw_chClosed := True\<rparr> else w')"

definition wrapper_inv :: "'e metricsWatchWrapper \<Rightarrow> bool" where
  "wrapper_inv w \<longleftrightarrow>
     mw_received w @ mw_ch w @ (case mw_pump w of Sending e \<Rightarrow> [e] | _ \<Rightarrow> []) @ mw_incoming w = mw_arrived w \<and>
     mw_counted w @ mw_incoming w = mw_arrived w \<and>
     (mw_chClosed w \<longrightarrow> mw_once w \<and> mw_pump w = NotRunning) \<and> (\<not> mw_once w \<longrightarrow> mw_pump w = NotRunning)"

definition new_wrapper :: "nat \<Rightarrow> 'e metricsWatchWrapper" where
  "new_wrapper cap = \<lparr>mw_incoming = [], mw_upClosed = False, mw_upStopped = False, mw_ch = [], mw_cap = cap, mw_chClosed = False,
     mw_once = False, mw_pump = NotRunning, mw_counted = [], mw_arrived = [], mw_received = []\<rparr>"

lemma wrapper_step_inv: "wrapper_step w w' \<Longrightarrow> wrapper_inv w \<Longrightarrow> wrapper_inv w'"
  by (cases rule: wrapper_step.cases) (auto simp: wrapper_inv_def Let_def split: if_splits)

text \<open>The wrapper is transparent, counts what passes, and never sends on or closes its channel after closing it.\<close>

lemma wrapper_transparent:
  assumes "wrapper_step\<^sup>*\<^sup>* (new_wrapper cap) w"
  shows "wrapper_inv w"
  using assms
proof (induction rule: rtranclp_induct)
  case base
  then show ?case by (simp add: wrapper_inv_def new_wrapper_def)
next
  case (step v w)
  then show ?case by (auto intro: wrapper_step_inv)
qed

end
