(* ===== verification/Plugin_Router.thy ===== *)
theory Plugin_Router
  imports Stores
begin

text \<open>
  The router of backend plugins, \<^verbatim>\<open>plugin/router\<close>: paths with variables and their matching, routers with
  subrouters and middlewares (\<^verbatim>\<open>router.go\<close>, \<^verbatim>\<open>vars.go\<close>, \<^verbatim>\<open>middleware.go\<close>), JSON handlers and errors
  (\<^verbatim>\<open>json_router.go\<close>, \<^verbatim>\<open>plugin/errors.go\<close>), and the CRUD routes over a store (\<^verbatim>\<open>resourcegroup_router.go\<close>).

  A handler gives the responses it sends, a nil one as \<open>None\<close>, and acts on a state. Logging, tracing and metrics
  are left out. Routers are changed through pointers when they are built; here the operations return the router
  changed, and \<open>in_subrouter\<close> acts on one that is inside another.
\<close>

section \<open>Paths\<close>

text \<open>
  A path is a regular expression with placeholders. Of an expression without operators other than the
  dot, the elements are known: characters, any character, and the segment that stands for a placeholder
  without an expression. An expression inside a placeholder is given by what it matches at the start of a
  text, as captures and rest, in the order of preference.
\<close>

datatype path_elem = Exact char | AnyChar | Segment | Expression "string \<Rightarrow> (string list \<times> string) list"

fun match_elems :: "path_elem list \<Rightarrow> string \<Rightarrow> (string list \<times> string) list" where
  "match_elems [] s = [([], s)]"
| "match_elems (Exact c # es) s = (case s of x # xs \<Rightarrow> if x = c then match_elems es xs else [] | [] \<Rightarrow> [])"
| "match_elems (AnyChar # es) s = (case s of x # xs \<Rightarrow> if x = CHR 0x0A then [] else match_elems es xs | [] \<Rightarrow> [])"
| "match_elems (Segment # es) s =
     concat (map (\<lambda>n. map (\<lambda>(cs, r). (take n s # cs, r)) (match_elems es (drop n s)))
       (rev [1..<Suc (length (takeWhile (\<lambda>c. c \<noteq> CHR ''/'') s))]))"
| "match_elems (Expression f # es) s =
     concat (map (\<lambda>(cs, r). map (\<lambda>(cs', r'). (cs @ cs', r')) (match_elems es r)) (f s))"

text \<open>
  The pattern of a path, by the parts that \<open>replArgRegex\<close> finds: a placeholder's name is not empty and has no
  closing brace, caret or colon, and neither has its expression.
\<close>

definition name_char :: "char \<Rightarrow> bool" where
  "name_char c \<longleftrightarrow> c \<noteq> CHR ''}'' \<and> c \<noteq> CHR ''^'' \<and> c \<noteq> CHR '':''"

definition placeholder :: "string \<Rightarrow> ((string \<times> string) \<times> string) option" where
  "placeholder s =
     (let name = takeWhile name_char s; rest = dropWhile name_char s
      in if name = [] then None
         else (case rest of
           [] \<Rightarrow> None
         | c # rest' \<Rightarrow>
             if c = CHR ''}'' then Some ((name, []), rest')
             else if c = CHR '':'' then
               (case dropWhile name_char rest' of
                  d # rest'' \<Rightarrow> if d = CHR ''}'' then Some ((name, takeWhile name_char rest'), rest'') else None
                | [] \<Rightarrow> None)
             else None))"

lemma length_dropWhile: "length (dropWhile P xs) \<le> length xs"
  by (induction xs) auto

lemma placeholder_shorter: "placeholder s = Some (p, rest) \<Longrightarrow> length rest < length s"
  using length_dropWhile [of name_char s]
  by (auto simp: placeholder_def Let_def split: if_splits list.splits)
    (metis Suc_leD Suc_le_lessD length_Cons length_dropWhile less_le_trans order.trans)

text \<open>The text of a path, in pieces: a literal character or a placeholder.\<close>

function path_parts :: "string \<Rightarrow> (char + string \<times> string) list" where
  "path_parts [] = []"
| "path_parts (c # s) =
     (if c = CHR 0x7B
      then (case placeholder s of None \<Rightarrow> Inl c # path_parts s | Some (p, rest) \<Rightarrow> Inr p # path_parts rest)
      else Inl c # path_parts s)"
  by pat_completeness auto
termination by (relation "measure length") (auto dest: placeholder_shorter)

definition operator_char :: "char \<Rightarrow> bool" where
  "operator_char c \<longleftrightarrow> c \<in> set [CHR 0x5C, CHR ''+'', CHR ''*'', CHR ''?'', CHR ''('', CHR '')'', CHR ''|'',
     CHR ''['', CHR '']'', CHR 0x7B, CHR ''}'', CHR ''^'', CHR ''$'']"

text \<open>
  The engine for what is not modelled: the expressions in placeholders, where one that does not compile is
  \<open>None\<close>, and whole paths with operators in their text, to match a prefix or everything.
\<close>

record regexp_engine =
  re_expression :: "string \<Rightarrow> (string \<Rightarrow> (string list \<times> string) list) option"
  re_path :: "string \<Rightarrow> bool \<Rightarrow> (string \<Rightarrow> (string list \<times> string) option) option"

definition part_elem :: "regexp_engine \<Rightarrow> char + string \<times> string \<Rightarrow> path_elem option" where
  "part_elem R p = (case p of
     Inl c \<Rightarrow> Some (if c = CHR ''.'' then AnyChar else Exact c)
   | Inr (name, expr) \<Rightarrow> if expr = [] then Some Segment else map_option Expression (re_expression R expr))"

fun all_some :: "'a option list \<Rightarrow> 'a list option" where
  "all_some [] = Some []"
| "all_some (x # xs) = (case x of None \<Rightarrow> None | Some y \<Rightarrow> map_option (Cons y) (all_some xs))"

text \<open>The first match: of a prefix, or of the whole text. It gives the captures and the rest.\<close>

definition find_match :: "bool \<Rightarrow> path_elem list \<Rightarrow> string \<Rightarrow> (string list \<times> string) option" where
  "find_match whole es s = List.find (\<lambda>(cs, r). \<not> whole \<or> r = []) (match_elems es s)"

definition compile_path ::
  "regexp_engine \<Rightarrow> bool \<Rightarrow> string \<Rightarrow> (string \<Rightarrow> (string list \<times> string) option) option" where
  "compile_path R whole path =
     (let parts = path_parts path
      in if \<exists>c. Inl c \<in> set parts \<and> operator_char c then re_path R path whole
         else map_option (find_match whole) (all_some (map (part_elem R) parts)))"

definition path_args :: "string \<Rightarrow> string list" where
  "path_args path = List.map_filter (\<lambda>p. case p of Inl c \<Rightarrow> None | Inr (name, expr) \<Rightarrow> Some name) (path_parts path)"

text \<open>The text of the expression, as the placeholders are replaced one after the other.\<close>

definition expression_text :: "string \<Rightarrow> string" where
  "expression_text path = concat (map (\<lambda>p. case p of
     Inl c \<Rightarrow> [c]
   | Inr (name, expr) \<Rightarrow> if expr = [] then ''([^'' @ [CHR 0x5C] @ ''/]+)'' else ''('' @ expr @ '')'') (path_parts path))"

definition double_quote :: "string \<Rightarrow> string" where
  "double_quote s = [CHR 0x22] @ s @ [CHR 0x22]"

section \<open>Routers\<close>

record CallResourceRequest =
  cq_Path :: string
  cq_Method :: string
  cq_URL :: string
  cq_Body :: string

record CallResourceResponse =
  cs_Status :: int
  cs_Headers :: "(string \<times> string list) list"
  cs_Body :: string

record RouteInfo =
  ri_Name :: string
  ri_Path :: string
  ri_Method :: string

text \<open>What the router keeps in a context.\<close>

record route_ctx =
  cx_Vars :: "(string \<rightharpoonup> string) option"
  cx_Route :: "RouteInfo option"

type_synonym 's HandlerFunc =
  "route_ctx \<Rightarrow> CallResourceRequest \<Rightarrow> 's \<Rightarrow> CallResourceResponse option list \<times> 's"

type_synonym 's middleware = "'s HandlerFunc \<Rightarrow> 's HandlerFunc"

definition Vars_Get :: "(string \<rightharpoonup> string) option \<Rightarrow> string \<Rightarrow> string \<times> bool" where
  "Vars_Get v k = (case v of
     None \<Rightarrow> ([], False)
   | Some m \<Rightarrow> (case m k of None \<Rightarrow> ([], False) | Some s \<Rightarrow> if s = [] then (s, False) else (s, True)))"

definition Vars_Add :: "string \<Rightarrow> string \<Rightarrow> (string \<rightharpoonup> string) option \<Rightarrow> (string \<rightharpoonup> string) option" where
  "Vars_Add k s v = Some ((case v of None \<Rightarrow> Map.empty | Some m \<Rightarrow> m)(k \<mapsto> s))"

definition VarsFromCtx :: "route_ctx \<Rightarrow> (string \<rightharpoonup> string) option" where
  "VarsFromCtx ctx = (case cx_Vars ctx of Some v \<Rightarrow> Some v | None \<Rightarrow> Some Map.empty)"

definition CtxWithVar :: "string \<Rightarrow> string \<Rightarrow> route_ctx \<Rightarrow> route_ctx" where
  "CtxWithVar name val ctx = ctx\<lparr>cx_Vars := Vars_Add name val (VarsFromCtx ctx)\<rparr>"

text \<open>The loop over the matches: a capture beyond the names ends it.\<close>

definition with_captures :: "string list \<Rightarrow> string list \<Rightarrow> route_ctx \<Rightarrow> route_ctx" where
  "with_captures names captures ctx = fold (\<lambda>(n, v). CtxWithVar n v) (zip names captures) ctx"

record 's RouteHandler =
  rh_matcher :: "string \<Rightarrow> (string list \<times> string) option"
  rh_name :: string
  rh_path :: string
  rh_handleFunc :: "'s HandlerFunc"
  rh_pathArgNames :: "string list"
  rh_methods :: "string set"

record subrouter_key =
  sk_matcher :: "string \<Rightarrow> (string list \<times> string) option"
  sk_pathArgNames :: "string list"
  sk_path :: string

datatype 's router = Router
  (rt_NotFoundHandler: "'s HandlerFunc option")
  (rt_subrouters: "(subrouter_key \<times> 's router) list")
  (rt_routes: "'s RouteHandler list")
  (rt_middlewares: "'s middleware list")

definition DefaultNotFoundHandler :: "'s HandlerFunc" where
  "DefaultNotFoundHandler ctx req s =
     ([Some \<lparr>cs_Status = 404, cs_Headers = [], cs_Body = ''no route match for path '' @ cq_Path req\<rparr>], s)"

definition NewRouter :: "'s router" where
  "NewRouter = Router (Some DefaultNotFoundHandler) [] [] []"

fun Use :: "'s middleware list \<Rightarrow> 's router \<Rightarrow> 's router" where
  "Use ms (Router nf subs routes mws) = Router nf subs routes (mws @ ms)"

text \<open>A path whose expression does not compile gives a nil subrouter or route, and no change.\<close>

fun add_Subrouter :: "regexp_engine \<Rightarrow> string \<Rightarrow> 's router \<Rightarrow> 's router \<times> nat option" where
  "add_Subrouter R path (Router nf subs routes mws) = (case compile_path R False path of
     None \<Rightarrow> (Router nf subs routes mws, None)
   | Some regex \<Rightarrow>
       (Router nf (subs @ [(\<lparr>sk_matcher = regex, sk_pathArgNames = path_args path, sk_path = expression_text path\<rparr>, Router nf [] [] [])])
          routes mws, Some (length subs)))"

fun in_subrouter :: "nat \<Rightarrow> ('s router \<Rightarrow> 's router) \<Rightarrow> 's router \<Rightarrow> 's router" where
  "in_subrouter i f (Router nf subs routes mws) =
     Router nf (if i < length subs then subs[i := (fst (subs ! i), f (snd (subs ! i)))] else subs) routes mws"

definition route_methods :: "string list \<Rightarrow> string set" where
  "route_methods methods = (if methods = [] then {''GET''} else set (map to_upper methods))"

fun Handle :: "regexp_engine \<Rightarrow> string \<Rightarrow> 's HandlerFunc \<Rightarrow> string list \<Rightarrow> 's router \<Rightarrow> 's router" where
  "Handle R providedPath handler methods (Router nf subs routes mws) =
     (let path = (if providedPath = [] then ''/'' else providedPath)
      in case compile_path R True path of
           None \<Rightarrow> Router nf subs routes mws
         | Some regex \<Rightarrow> Router nf subs (routes @ [\<lparr>rh_matcher = regex, rh_name = [], rh_path = providedPath,
             rh_handleFunc = handler, rh_pathArgNames = path_args path, rh_methods = route_methods methods\<rparr>]) mws)"

definition RouteByName :: "string \<Rightarrow> 's router \<Rightarrow> 's RouteHandler option" where
  "RouteByName name r = List.find (\<lambda>h. rh_name h = name) (rt_routes r)"

text \<open>The methods and the name of a route, set through the pointer that \<open>Handle\<close> returns.\<close>

definition Methods :: "string list \<Rightarrow> 's RouteHandler \<Rightarrow> 's RouteHandler" where
  "Methods ms h = h\<lparr>rh_methods := set (map to_upper ms)\<rparr>"

definition route_Name :: "string \<Rightarrow> 's RouteHandler \<Rightarrow> 's RouteHandler" where
  "route_Name n h = h\<lparr>rh_name := n\<rparr>"

definition joined_path :: "string \<Rightarrow> string \<Rightarrow> string" where
  "joined_path matchedPath p = (if matchedPath \<noteq> [] then path_Join matchedPath p else p)"

definition apply_middlewares :: "'s middleware list \<Rightarrow> 's HandlerFunc \<Rightarrow> 's HandlerFunc" where
  "apply_middlewares ms h = foldr (\<lambda>m h. m h) ms h"

fun find_subrouter :: "string \<Rightarrow> (subrouter_key \<times> 'r) list \<Rightarrow> ((string list \<times> string) \<times> subrouter_key \<times> 'r) option" where
  "find_subrouter path [] = None"
| "find_subrouter path ((k, r) # subs) = (case sk_matcher k path of
     Some m \<Rightarrow> Some (m, k, r)
   | None \<Rightarrow> find_subrouter path subs)"

lemma find_subrouter_in: "find_subrouter path subs = Some (m, k, r) \<Longrightarrow> (k, r) \<in> set subs \<and> sk_matcher k path = Some m"
  by (induction subs) (auto split: option.splits)

fun find_route :: "string \<Rightarrow> string \<Rightarrow> 's RouteHandler list \<Rightarrow> ('s RouteHandler \<times> string list) option" where
  "find_route path httpMethod [] = None"
| "find_route path httpMethod (h # hs) =
     (if httpMethod \<notin> rh_methods h then find_route path httpMethod hs
      else (case rh_matcher h path of
              Some (captures, rest) \<Rightarrow> Some (h, captures)
            | None \<Rightarrow> find_route path httpMethod hs))"

text \<open>The first subrouter that matches is the only one that is asked.\<close>

function getHandler ::
  "'s router \<Rightarrow> route_ctx \<Rightarrow> string \<Rightarrow> string \<Rightarrow> string \<Rightarrow> 's middleware list \<Rightarrow> route_ctx \<times> 's HandlerFunc option" where
  "getHandler (Router nf subs routes mws) ctx path httpMethod matchedPath applied =
     (case find_subrouter path subs of
        Some ((captures, rest), k, h) \<Rightarrow>
          getHandler h (with_captures (sk_pathArgNames k) captures ctx) rest httpMethod
            (joined_path matchedPath (sk_path k)) (applied @ mws)
      | None \<Rightarrow> (case find_route path httpMethod routes of
          None \<Rightarrow> (ctx, None)
        | Some (h, captures) \<Rightarrow>
            ((with_captures (rh_pathArgNames h) captures ctx)\<lparr>cx_Route :=
               Some \<lparr>ri_Name = rh_name h, ri_Path = joined_path matchedPath (rh_path h), ri_Method = httpMethod\<rparr>\<rparr>,
             Some (apply_middlewares applied (apply_middlewares mws (rh_handleFunc h))))))"
  by pat_completeness auto
termination
proof (relation "measure (\<lambda>(r, _). size r)", simp, goal_cases)
  case (1 nf subs routes mws ctx path httpMethod matchedPath applied x y captures rest yy k h)
  then have "(k, h) \<in> set subs" using find_subrouter_in by fastforce
  then have "size h < Suc (size_list (size_prod (\<lambda>x. 0) size) subs)"
    by (induction subs) auto
  then show ?case by simp
qed

definition CallResource ::
  "'s router \<Rightarrow> route_ctx \<Rightarrow> CallResourceRequest \<Rightarrow> 's \<Rightarrow> (CallResourceResponse option list \<times> go_error option) \<times> 's" where
  "CallResource r ctx0 req s =
     (case getHandler r ctx0 (cq_Path req) (to_upper (cq_Method req)) [] [] of
        (ctx, Some handler) \<Rightarrow> (let (sent, s') = handler ctx req s in ((sent, None), s'))
      | (ctx, None) \<Rightarrow> (case rt_NotFoundHandler r of
          None \<Rightarrow> (([], Some (GoErr ''no handler found for the request'')), s)
        | Some nf \<Rightarrow>
            (let (sent, s') = apply_middlewares (rt_middlewares r) nf
               (ctx\<lparr>cx_Route := Some \<lparr>ri_Name = ''NotFoundHandler'', ri_Path = cq_Path req, ri_Method = cq_Method req\<rparr>\<rparr>) req s
             in ((sent, None), s'))))"

text \<open>
  A capturing middleware: the function gets what runs the handler and gives its last response, and answers with
  what it has made of it; without a call of the handler that is nil.
\<close>

definition last_sent :: "'r option list \<Rightarrow> 'r option" where
  "last_sent rs = (if rs = [] then None else last rs)"

definition NewCapturingMiddleware ::
  "(route_ctx \<Rightarrow> CallResourceRequest \<Rightarrow> (route_ctx \<Rightarrow> 's \<Rightarrow> CallResourceResponse option \<times> 's) \<Rightarrow> 's \<Rightarrow>
     CallResourceResponse option \<times> 's) \<Rightarrow> 's middleware" where
  "NewCapturingMiddleware f handler ctx req s =
     (let (res, s') = f ctx req (\<lambda>ctx' t. let (sent, t') = handler ctx' req t in (last_sent sent, t')) s
      in ([res], s'))"

section \<open>JSON handlers\<close>

text \<open>An error of a handler is or wraps a \<open>plugin.Error\<close> with its code, or is another one.\<close>

datatype handler_error = CodeError int go_error | OtherError go_error

definition FromError :: "handler_error \<Rightarrow> int \<times> go_error" where
  "FromError e = (case e of CodeError code err \<Rightarrow> (code, err) | OtherError err \<Rightarrow> (500, err))"

definition CleanMessage :: "(go_error \<Rightarrow> string) \<Rightarrow> int \<times> go_error \<Rightarrow> string" where
  "CleanMessage message e = (if fst e = 500 then ''internal server error'' else message (snd e))"

datatype 'v json_response = JSONErrorResponse int string | JSONValue 'v

record JSONRequest =
  jr_Method :: string
  jr_Vars :: "(string \<rightharpoonup> string) option"
  jr_Body :: string

type_synonym ('s, 'v) JSONHandlerFunc = "JSONRequest \<Rightarrow> 's \<Rightarrow> (handler_error + 'v json_response option) \<times> 's"

text \<open>URL parsing, the JSON encoder, the texts of errors, and the custom error handler.\<close>

record 'v json_env =
  je_parse_url :: "string \<Rightarrow> go_error option"
  je_encode :: "'v json_response \<Rightarrow> string option"
  je_message :: "go_error \<Rightarrow> string"
  je_errHandler :: "(int \<times> go_error \<Rightarrow> int \<times> 'v json_response option) option"

definition json_headers :: "(string \<times> string list) list" where
  "json_headers = [(''Content-Type'', [''application/json''])]"

definition sendRes :: "'v json_env \<Rightarrow> int \<Rightarrow> 'v json_response option \<Rightarrow> CallResourceResponse" where
  "sendRes E code res = (case res of
     Some v \<Rightarrow> (case je_encode E v of
         Some body \<Rightarrow> \<lparr>cs_Status = code, cs_Headers = json_headers, cs_Body = body\<rparr>
       | None \<Rightarrow> \<lparr>cs_Status = 500, cs_Headers = json_headers,
           cs_Body = [CHR 0x7B] @ double_quote ''code'' @ '':500,'' @ double_quote ''error'' @ '':'' @
             double_quote ''internal server error'' @ ''}''\<rparr>)
   | None \<Rightarrow> \<lparr>cs_Status = (if 200 \<le> code \<and> code \<le> 299 then 204 else code), cs_Headers = [], cs_Body = []\<rparr>)"

definition sendErr :: "'v json_env \<Rightarrow> handler_error \<Rightarrow> CallResourceResponse" where
  "sendErr E err =
     (let uerr = FromError err;
          (code, res) = (case je_errHandler E of
             Some h \<Rightarrow> h uerr
           | None \<Rightarrow> (fst uerr, Some (JSONErrorResponse (fst uerr) (CleanMessage (je_message E) uerr))))
      in sendRes E code res)"

definition WrapHandlerFunc :: "'v json_env \<Rightarrow> ('s, 'v) JSONHandlerFunc \<Rightarrow> int \<Rightarrow> 's HandlerFunc" where
  "WrapHandlerFunc E handler okCode ctx r s = (case je_parse_url E (cq_URL r) of
     Some e \<Rightarrow> ([Some (sendErr E (OtherError e))], s)
   | None \<Rightarrow> (case handler \<lparr>jr_Method = cq_Method r, jr_Vars = VarsFromCtx ctx, jr_Body = cq_Body r\<rparr> s of
       (Inl e, s') \<Rightarrow> ([Some (sendErr E e)], s')
     | (Inr res, s') \<Rightarrow> ([Some (sendRes E okCode res)], s')))"

text \<open>A JSON router is the subrouter of an otherwise unused router.\<close>

definition NewJSONRouter :: "regexp_engine \<Rightarrow> 's router" where
  "NewJSONRouter R = (case add_Subrouter R [] NewRouter of (r, i) \<Rightarrow> snd (rt_subrouters r ! the i))"

definition HandleWithCode ::
  "regexp_engine \<Rightarrow> 'v json_env \<Rightarrow> string \<Rightarrow> ('s, 'v) JSONHandlerFunc \<Rightarrow> int \<Rightarrow> string list \<Rightarrow> 's router \<Rightarrow> 's router" where
  "HandleWithCode R E path handler okCode methods r = Handle R path (WrapHandlerFunc E handler okCode) methods r"

definition json_Handle ::
  "regexp_engine \<Rightarrow> 'v json_env \<Rightarrow> string \<Rightarrow> ('s, 'v) JSONHandlerFunc \<Rightarrow> string list \<Rightarrow> 's router \<Rightarrow> 's router" where
  "json_Handle R E path handler methods r = HandleWithCode R E path handler 200 methods r"

record ('s, 'v) JSONResourceHandler =
  jh_Create :: "('s, 'v) JSONHandlerFunc"
  jh_Read :: "('s, 'v) JSONHandlerFunc"
  jh_Update :: "('s, 'v) JSONHandlerFunc"
  jh_Delete :: "('s, 'v) JSONHandlerFunc"
  jh_List :: "('s, 'v) JSONHandlerFunc"

definition discard :: "('s, 'v) JSONHandlerFunc \<Rightarrow> ('s, 'v) JSONHandlerFunc" where
  "discard h req s = (case h req s of (Inl e, s') \<Rightarrow> (Inl e, s') | (Inr res, s') \<Rightarrow> (Inr None, s'))"

definition HandleResource ::
  "regexp_engine \<Rightarrow> 'v json_env \<Rightarrow> string \<Rightarrow> ('s, 'v) JSONResourceHandler \<Rightarrow> 's router \<Rightarrow> 's router" where
  "HandleResource R E name handler r =
     (let path = CHR ''/'' # name; idPath = path @ ''/{id}''
      in HandleWithCode R E idPath (discard (jh_Delete handler)) 204 [''DELETE'']
         (json_Handle R E idPath (jh_Update handler) [''PUT'']
         (json_Handle R E idPath (jh_Read handler) [''GET'']
         (HandleWithCode R E path (jh_Create handler) 201 [''POST'']
         (json_Handle R E path (jh_List handler) [''GET''] r)))))"

section \<open>CRUD routes over a store\<close>

record ('o, 's) group_store =
  gs_Add :: "'o \<Rightarrow> 's \<Rightarrow> (go_error + 'o) \<times> 's"
  gs_Get :: "string \<Rightarrow> resource_id \<Rightarrow> 's \<Rightarrow> ('o option \<times> go_error option) \<times> 's"
  gs_List :: "string \<Rightarrow> StoreListOptions \<Rightarrow> 's \<Rightarrow> (go_error + 'o list_object) \<times> 's"
  gs_Update :: "'o \<Rightarrow> 's \<Rightarrow> (go_error + 'o) \<times> 's"
  gs_Delete :: "string \<Rightarrow> resource_id \<Rightarrow> 's \<Rightarrow> go_error option \<times> 's"

datatype 'o group_value = ObjectValue 'o | ListValue "'o list_object"

text \<open>The store, the namespace, and what objects need: decoding into a zero value and the static metadata.\<close>

record ('o, 's) group_env =
  ge_store :: "('o, 's) group_store"
  ge_namespace :: string
  ge_decode :: "schema \<Rightarrow> string \<Rightarrow> go_error + 'o"
  ge_name :: "'o \<Rightarrow> string"
  ge_SetStaticMetadata :: "static_metadata \<Rightarrow> 'o \<Rightarrow> 'o"

definition place :: "('o, 's) group_env \<Rightarrow> schema \<Rightarrow> 'o \<Rightarrow> 'o" where
  "place G cr ob = ge_SetStaticMetadata G \<lparr>sm_Group = sch_Group cr, sm_Version = sch_Version cr, sm_Kind = sch_Kind cr,
     sm_Namespace = ge_namespace G, sm_Name = ge_name G ob\<rparr> ob"

definition missing_name :: handler_error where
  "missing_name = CodeError 400 (GoErr ''must provide resource name'')"

definition createResource :: "('o, 's) group_env \<Rightarrow> schema \<Rightarrow> ('s, 'o group_value) JSONHandlerFunc" where
  "createResource G cr request s = (case ge_decode G cr (jr_Body request) of
     Inl e \<Rightarrow> (Inl (CodeError 400 e), s)
   | Inr ob \<Rightarrow> (case gs_Add (ge_store G) (place G cr ob) s of
       (Inl e, s') \<Rightarrow> (Inl (CodeError 500 e), s')
     | (Inr added, s') \<Rightarrow> (Inr (Some (JSONValue (ObjectValue added))), s')))"

definition listResources :: "('o, 's) group_env \<Rightarrow> schema \<Rightarrow> ('s, 'o group_value) JSONHandlerFunc" where
  "listResources G cr request s =
     (case gs_List (ge_store G) (sch_Kind cr) \<lparr>slo_Namespace = ge_namespace G, slo_PerPage = 0, slo_Filters = [],
         slo_FieldSelectors = []\<rparr> s of
        (Inl e, s') \<Rightarrow> (Inl (CodeError 500 e), s')
      | (Inr resources, s') \<Rightarrow> (Inr (Some (JSONValue (ListValue resources))), s'))"

definition getResource :: "('o, 's) group_env \<Rightarrow> schema \<Rightarrow> ('s, 'o group_value) JSONHandlerFunc" where
  "getResource G cr request s = (case Vars_Get (jr_Vars request) ''name'' of
     (name, False) \<Rightarrow> (Inl missing_name, s)
   | (name, True) \<Rightarrow> (case gs_Get (ge_store G) (sch_Kind cr) \<lparr>id_Namespace = ge_namespace G, id_Name = name\<rparr> s of
       ((obj, Some e), s') \<Rightarrow> (Inl (CodeError 500 e), s')
     | ((obj, None), s') \<Rightarrow> (Inr (map_option (\<lambda>ob. JSONValue (ObjectValue ob)) obj), s')))"

definition updateResource :: "('o, 's) group_env \<Rightarrow> schema \<Rightarrow> ('s, 'o group_value) JSONHandlerFunc" where
  "updateResource G cr request s =
     (if \<not> snd (Vars_Get (jr_Vars request) ''name'') then (Inl missing_name, s)
      else (case ge_decode G cr (jr_Body request) of
        Inl e \<Rightarrow> (Inl (CodeError 400 e), s)
      | Inr ob \<Rightarrow> (case gs_Update (ge_store G) (place G cr ob) s of
          (Inl e, s') \<Rightarrow> (Inl (CodeError 500 e), s')
        | (Inr updated, s') \<Rightarrow> (Inr (Some (JSONValue (ObjectValue updated))), s'))))"

definition deleteResource :: "('o, 's) group_env \<Rightarrow> schema \<Rightarrow> ('s, 'o group_value) JSONHandlerFunc" where
  "deleteResource G cr request s = (case Vars_Get (jr_Vars request) ''name'' of
     (name, False) \<Rightarrow> (Inl missing_name, s)
   | (name, True) \<Rightarrow> (case gs_Delete (ge_store G) (sch_Kind cr) \<lparr>id_Namespace = ge_namespace G, id_Name = name\<rparr> s of
       (Some e, s') \<Rightarrow> (Inl (CodeError 500 e), s')
     | (None, s') \<Rightarrow> (Inr None, s')))"

definition base_route :: "schema \<Rightarrow> string" where
  "base_route sch = sch_Group sch @ ''/'' @ sch_Version sch @ ''/'' @ sch_Plural sch"

definition name_route :: "schema \<Rightarrow> string" where
  "name_route sch = base_route sch @ ''/{name}''"

definition add_kind ::
  "regexp_engine \<Rightarrow> 'o group_value json_env \<Rightarrow> ('o, 's) group_env \<Rightarrow> schema \<Rightarrow> 's router \<Rightarrow> 's router" where
  "add_kind R E G sch r =
     json_Handle R E (name_route sch) (deleteResource G sch) [''DELETE'']
     (HandleWithCode R E (name_route sch) (updateResource G sch) 202 [''PUT'']
     (json_Handle R E (name_route sch) (getResource G sch) [''GET'']
     (json_Handle R E (base_route sch) (listResources G sch) [''GET'']
     (HandleWithCode R E (base_route sch) (createResource G sch) 202 [''POST''] r))))"

definition NewResourceGroupRouterWithStore ::
  "regexp_engine \<Rightarrow> 'o group_value json_env \<Rightarrow> ('o, 's) group_env \<Rightarrow> schema list \<Rightarrow> 's router" where
  "NewResourceGroupRouterWithStore R E G kinds = fold (add_kind R E G) kinds (NewJSONRouter R)"

text \<open>
  The store of a client generator. Its list is the value of \<open>Store_List\<close> where that returns, as on every server
  that pages; elsewhere the request is never answered, and what is written here is of no account.
\<close>

definition store_of ::
  "'o object_iface \<Rightarrow> 's api \<Rightarrow> (schema \<Rightarrow> go_error + ('o, 's) client) \<Rightarrow> schema list \<Rightarrow> ('o, 's) group_store" where
  "store_of I A gen kinds = (let st = NewStore gen [kinds] in
     \<lparr>gs_Add = Store_Add I st, gs_Get = Store_Get st, gs_List = (\<lambda>kind opts s. the (Store_List st kind opts s)),
      gs_Update = Store_Update I A st, gs_Delete = Store_Delete st\<rparr>)"

definition NewResourceGroupRouter ::
  "regexp_engine \<Rightarrow> 'o group_value json_env \<Rightarrow> 'o object_iface \<Rightarrow> 's api \<Rightarrow> (schema \<Rightarrow> go_error + ('o, 's) client) \<Rightarrow>
   ('o, 's) group_env \<Rightarrow> schema list \<Rightarrow> 's router" where
  "NewResourceGroupRouter R E I A gen G kinds =
     NewResourceGroupRouterWithStore R E (G\<lparr>ge_store := store_of I A gen kinds\<rparr>) kinds"

section \<open>Which requests reach which handler\<close>

text \<open>A text that stands for itself in a path, up to its dots.\<close>

definition plain_text :: "string \<Rightarrow> bool" where
  "plain_text s \<longleftrightarrow> (\<forall>c \<in> set s. \<not> operator_char c \<and> c \<noteq> CHR 0x0A)"

definition lit_elems :: "string \<Rightarrow> path_elem list" where
  "lit_elems s = map (\<lambda>c. if c = CHR ''.'' then AnyChar else Exact c) s"

definition lit_match :: "string \<Rightarrow> string \<Rightarrow> bool" where
  "lit_match s t \<longleftrightarrow> list_all2 (\<lambda>c x. if c = CHR ''.'' then x \<noteq> CHR 0x0A else x = c) s t"

lemma path_parts_plain: "plain_text s \<Longrightarrow> path_parts (s @ t) = map Inl s @ path_parts t"
  by (induction s) (auto simp: plain_text_def operator_char_def)

lemma path_parts_name: "path_parts ''/{name}'' = [Inl CHR ''/'', Inr (''name'', [])]"
  by (simp add: placeholder_def name_char_def)

lemma all_some_map: "all_some (map Some xs @ ys) = map_option (append xs) (all_some ys)"
  by (induction xs) (auto simp: option.map_comp comp_def option.map_ident)

lemma part_elem_lit: "map (part_elem R) (map Inl s) = map Some (lit_elems s)"
  by (simp add: part_elem_def lit_elems_def)

lemma compile_base: "plain_text s \<Longrightarrow> compile_path R True s = Some (find_match True (lit_elems s))"
  using path_parts_plain [of s "[]"] all_some_map [of "lit_elems s" "[]"]
  by (auto simp: compile_path_def plain_text_def part_elem_lit simp del: map_map)

lemma compile_name:
  assumes "plain_text s"
  shows "compile_path R True (s @ ''/{name}'') = Some (find_match True (lit_elems s @ [Exact CHR ''/'', Segment]))"
proof -
  have parts: "path_parts (s @ ''/{name}'') = map Inl s @ [Inl CHR ''/'', Inr (''name'', [])]"
    by (simp only: path_parts_plain [OF assms] path_parts_name)
  have "\<not> (\<exists>c. Inl c \<in> set (path_parts (s @ ''/{name}'')) \<and> operator_char c)"
    unfolding parts using assms by (auto simp: plain_text_def operator_char_def)
  moreover have "map (part_elem R) (path_parts (s @ ''/{name}'')) = map Some (lit_elems s) @ [Some (Exact CHR ''/''), Some Segment]"
    unfolding parts map_append part_elem_lit by (simp add: part_elem_def)
  ultimately show ?thesis unfolding compile_path_def Let_def by (simp only: if_False all_some_map) simp
qed

lemma args_literal:
  "List.map_filter (\<lambda>p. case p of Inl c \<Rightarrow> None | Inr (name, expr) \<Rightarrow> Some name) (map Inl s @ xs) =
     List.map_filter (\<lambda>p. case p of Inl c \<Rightarrow> None | Inr (name, expr) \<Rightarrow> Some name) (xs :: (char + string \<times> string) list)"
  by (induction s) (simp_all add: map_filter_simps)

lemma args_base: "plain_text s \<Longrightarrow> path_args s = []"
  using path_parts_plain [of s "[]"] args_literal [of s "[]"] by (simp add: path_args_def map_filter_simps)

lemma args_name: "plain_text s \<Longrightarrow> path_args (s @ ''/{name}'') = [''name'']"
  by (simp only: path_args_def path_parts_plain path_parts_name args_literal) (simp add: map_filter_simps)

lemma match_lit: "match_elems (lit_elems s @ es) t =
    (if length s \<le> length t \<and> lit_match s (take (length s) t) then match_elems es (drop (length s) t) else [])"
proof (induction s arbitrary: t)
  case (Cons c s)
  then show ?case by (cases t) (auto simp: lit_elems_def lit_match_def)
qed (simp add: lit_elems_def lit_match_def)

lemma match_base: "find_match True (lit_elems s) t = (if lit_match s t then Some ([], []) else None)"
  using match_lit [of s "[]" t] by (auto simp: find_match_def lit_match_def list_all2_lengthD)

lemma lit_match_refl: "plain_text s \<Longrightarrow> lit_match s s"
  by (induction s) (auto simp: lit_match_def plain_text_def)

lemma match_segment:
  assumes "x \<noteq> []" "CHR ''/'' \<notin> set x"
  shows "List.find (\<lambda>(cs, r). r = []) (match_elems [Segment] x) = Some ([x], [])"
proof -
  have "takeWhile (\<lambda>c. c \<noteq> CHR ''/'') x = x" using assms(2) by (simp add: takeWhile_eq_all_conv) metis
  then have "match_elems [Segment] x = map (\<lambda>n. ([take n x], drop n x)) (rev [1..<Suc (length x)])"
    by (simp only: match_elems.simps) (simp add: comp_def)
  moreover have "rev [1..<Suc (length x)] = length x # rev [1..<length x]" using assms(1) by (cases x) auto
  ultimately show ?thesis by simp
qed

lemma match_name:
  assumes "plain_text s" "x \<noteq> []" "CHR ''/'' \<notin> set x"
  shows "find_match True (lit_elems s @ [Exact CHR ''/'', Segment]) (s @ CHR ''/'' # x) = Some ([x], [])"
  using match_segment [OF assms(2,3)] lit_match_refl [OF assms(1)]
  by (simp add: find_match_def match_lit)

lemma match_name_short: "length t \<le> Suc (length s) \<Longrightarrow> find_match True (lit_elems s @ [Exact CHR ''/'', Segment]) t = None"
proof -
  assume short: "length t \<le> Suc (length s)"
  have "match_elems [Exact CHR ''/'', Segment] (drop (length s) t) = []"
  proof (cases "drop (length s) t")
    case (Cons c r)
    then have "length (c # r) = length t - length s" by (metis length_drop)
    then have "Suc (length r) = length t - length s" by simp
    with short have "length r = 0" by arith
    then have "r = []" by simp
    with Cons show ?thesis by simp
  qed simp
  then show ?thesis by (simp add: find_match_def match_lit)
qed

lemma find_route_append: "find_route p m (xs @ ys) = (case find_route p m xs of None \<Rightarrow> find_route p m ys | Some r \<Rightarrow> Some r)"
  by (induction xs) (auto split: option.split)

text \<open>The routes of a kind whose path is plain text.\<close>

definition new_route ::
  "'o group_value json_env \<Rightarrow> path_elem list \<Rightarrow> string list \<Rightarrow> string \<Rightarrow> ('s, 'o group_value) JSONHandlerFunc \<Rightarrow> int \<Rightarrow> string \<Rightarrow> 's RouteHandler" where
  "new_route E es args path handler code httpMethod =
     \<lparr>rh_matcher = find_match True es, rh_name = [], rh_path = path, rh_handleFunc = WrapHandlerFunc E handler code,
      rh_pathArgNames = args, rh_methods = {httpMethod}\<rparr>"

definition routes_of_kind :: "'o group_value json_env \<Rightarrow> ('o, 's) group_env \<Rightarrow> schema \<Rightarrow> 's RouteHandler list" where
  "routes_of_kind E G sch =
     (let b = lit_elems (base_route sch); n = b @ [Exact CHR ''/'', Segment]
      in [new_route E b [] (base_route sch) (createResource G sch) 202 ''POST'',
          new_route E b [] (base_route sch) (listResources G sch) 200 ''GET'',
          new_route E n [''name''] (name_route sch) (getResource G sch) 200 ''GET'',
          new_route E n [''name''] (name_route sch) (updateResource G sch) 202 ''PUT'',
          new_route E n [''name''] (name_route sch) (deleteResource G sch) 200 ''DELETE''])"

lemma upper_methods: "route_methods [''GET''] = {''GET''}" "route_methods [''POST''] = {''POST''}"
  "route_methods [''PUT''] = {''PUT''}" "route_methods [''DELETE''] = {''DELETE''}"
  by (simp_all add: route_methods_def upper_char_def)

lemma add_kind_routes:
  assumes "plain_text (base_route sch)"
  shows "add_kind R E G sch (Router nf subs routes mws) = Router nf subs (routes @ routes_of_kind E G sch) mws"
proof -
  have "base_route sch \<noteq> []" "name_route sch \<noteq> []" by (simp_all add: base_route_def name_route_def)
  then show ?thesis
    using compile_base [OF assms] compile_name [OF assms, folded name_route_def] args_base [OF assms]
      args_name [OF assms, folded name_route_def]
    by (simp add: add_kind_def json_Handle_def HandleWithCode_def upper_methods routes_of_kind_def new_route_def Let_def)
qed

lemma group_router_eq:
  assumes "\<forall>k \<in> set kinds. plain_text (base_route k)"
  shows "NewResourceGroupRouterWithStore R E G kinds =
    Router (Some DefaultNotFoundHandler) [] (concat (map (routes_of_kind E G) kinds)) []"
proof -
  have "compile_path R False [] \<noteq> None" by (simp add: compile_path_def)
  then have new: "NewJSONRouter R = Router (Some DefaultNotFoundHandler) [] [] []"
    by (auto simp: NewJSONRouter_def NewRouter_def)
  have "fold (add_kind R E G) kinds (Router nf subs routes mws) =
      Router nf subs (routes @ concat (map (routes_of_kind E G) kinds)) mws" for nf subs routes mws
    using assms by (induction kinds arbitrary: routes) (simp_all add: add_kind_routes)
  then show ?thesis by (simp add: NewResourceGroupRouterWithStore_def new)
qed

text \<open>No route of the kind matches the path.\<close>

definition not_of :: "string \<Rightarrow> schema \<Rightarrow> bool" where
  "not_of path sch \<longleftrightarrow> \<not> lit_match (base_route sch) path \<and>
     find_match True (lit_elems (base_route sch) @ [Exact CHR ''/'', Segment]) path = None"

lemma not_of_route: "not_of path sch \<Longrightarrow> find_route path m (routes_of_kind E G sch) = None"
  by (simp add: not_of_def routes_of_kind_def new_route_def Let_def match_base)

lemma no_route:
  "\<forall>k \<in> set kinds. not_of path k \<Longrightarrow> find_route path m (concat (map (routes_of_kind E G) kinds)) = None"
  by (induction kinds) (simp_all add: find_route_append not_of_route)

lemma route_of_kind:
  assumes "k \<in> set kinds" "\<forall>k' \<in> set kinds. k' \<noteq> k \<longrightarrow> not_of path k'" "find_route path m (routes_of_kind E G k) = r"
  shows "find_route path m (concat (map (routes_of_kind E G) kinds)) = r"
  using assms(1,2)
proof (induction kinds)
  case (Cons k' kinds)
  show ?case
  proof (cases "k' = k")
    case True
    then have "find_route path m (concat (map (routes_of_kind E G) kinds)) = None \<or>
        find_route path m (concat (map (routes_of_kind E G) kinds)) = r"
      using Cons by (cases "k \<in> set kinds") (auto intro!: disjI1 no_route)
    with True assms(3) show ?thesis by (auto simp: find_route_append split: option.split)
  next
    case False
    then show ?thesis using Cons not_of_route [of path k' m E G] by (simp add: find_route_append)
  qed
qed simp

text \<open>What a request for a kind is answered with, and what it does to the store.\<close>

definition json_answer ::
  "'v json_env \<Rightarrow> int \<Rightarrow> (handler_error + 'v json_response option) \<times> 's \<Rightarrow> (CallResourceResponse option list \<times> go_error option) \<times> 's" where
  "json_answer E okCode r = (([Some (case fst r of Inl e \<Rightarrow> sendErr E e | Inr res \<Rightarrow> sendRes E okCode res)], None), snd r)"

lemma answer_wrapped:
  assumes "je_parse_url E (cq_URL req) = None"
  shows "(let (sent, s') = WrapHandlerFunc E handler okCode ctx req s in ((sent, None), s')) =
    json_answer E okCode (handler \<lparr>jr_Method = cq_Method req, jr_Vars = VarsFromCtx ctx, jr_Body = cq_Body req\<rparr> s)"
  using assms by (simp add: WrapHandlerFunc_def json_answer_def split: sum.split prod.split)

lemma call_route:
  assumes "je_parse_url E (cq_URL req) = None"
    and "find_route (cq_Path req) (to_upper (cq_Method req)) routes = Some (new_route E es args path handler code m, captures)"
  shows "CallResource (Router nf [] routes []) ctx req s =
    json_answer E code (handler \<lparr>jr_Method = cq_Method req, jr_Vars = VarsFromCtx (with_captures args captures ctx),
      jr_Body = cq_Body req\<rparr> s)"
proof -
  let ?ctx = "(with_captures args captures ctx)\<lparr>cx_Route :=
    Some \<lparr>ri_Name = [], ri_Path = joined_path [] path, ri_Method = to_upper (cq_Method req)\<rparr>\<rparr>"
  have "CallResource (Router nf [] routes []) ctx req s =
      (let (sent, s') = WrapHandlerFunc E handler code ?ctx req s in ((sent, None), s'))"
    using assms(2) by (simp add: CallResource_def apply_middlewares_def new_route_def)
  also have "\<dots> = json_answer E code (handler \<lparr>jr_Method = cq_Method req, jr_Vars = VarsFromCtx ?ctx, jr_Body = cq_Body req\<rparr> s)"
    by (rule answer_wrapped [OF assms(1)])
  finally show ?thesis by (simp add: VarsFromCtx_def)
qed

text \<open>
  C30. A request to the routes of a kind does exactly the kind's operation on the store, in the router's namespace,
  and is answered with its result: a GET of the name is the store's \<open>Get\<close> of that name, a PUT its \<open>Update\<close> and a
  DELETE its \<open>Delete\<close>, a GET of the kind's path is \<open>List\<close>, a POST is \<open>Add\<close>; every error of the store is answered
  as an internal error, success by 200 or 202 with the object as JSON, and by 204 when there is none.
  Nothing else is sent. This is so for every set of kinds whose paths do not match the request's path.
\<close>

theorem group_router_serves_store:
  assumes kinds: "\<forall>k' \<in> set kinds. plain_text (base_route k')" "k \<in> set kinds"
    and others: "\<forall>k' \<in> set kinds. k' \<noteq> k \<longrightarrow> not_of (base_route k) k' \<and> not_of (base_route k @ CHR ''/'' # name) k'"
    and name: "name \<noteq> []" "CHR ''/'' \<notin> set name" and url: "je_parse_url E (cq_URL req) = None"
    and router: "r = NewResourceGroupRouterWithStore R E G kinds"
  shows "(cq_Path req = base_route k @ CHR ''/'' # name \<longrightarrow>
      (to_upper (cq_Method req) = ''GET'' \<longrightarrow> CallResource r ctx req s = json_answer E 200
        (case gs_Get (ge_store G) (sch_Kind k) \<lparr>id_Namespace = ge_namespace G, id_Name = name\<rparr> s of
           ((obj, Some e), s') \<Rightarrow> (Inl (CodeError 500 e), s')
         | ((obj, None), s') \<Rightarrow> (Inr (map_option (\<lambda>ob. JSONValue (ObjectValue ob)) obj), s'))) \<and>
      (to_upper (cq_Method req) = ''PUT'' \<longrightarrow> CallResource r ctx req s = json_answer E 202
        (case ge_decode G k (cq_Body req) of
           Inl e \<Rightarrow> (Inl (CodeError 400 e), s)
         | Inr ob \<Rightarrow> (case gs_Update (ge_store G) (place G k ob) s of
             (Inl e, s') \<Rightarrow> (Inl (CodeError 500 e), s')
           | (Inr updated, s') \<Rightarrow> (Inr (Some (JSONValue (ObjectValue updated))), s')))) \<and>
      (to_upper (cq_Method req) = ''DELETE'' \<longrightarrow> CallResource r ctx req s = json_answer E 200
        (case gs_Delete (ge_store G) (sch_Kind k) \<lparr>id_Namespace = ge_namespace G, id_Name = name\<rparr> s of
           (Some e, s') \<Rightarrow> (Inl (CodeError 500 e), s') | (None, s') \<Rightarrow> (Inr None, s')))) \<and>
    (cq_Path req = base_route k \<longrightarrow>
      (to_upper (cq_Method req) = ''GET'' \<longrightarrow> CallResource r ctx req s = json_answer E 200
        (case gs_List (ge_store G) (sch_Kind k) \<lparr>slo_Namespace = ge_namespace G, slo_PerPage = 0, slo_Filters = [],
             slo_FieldSelectors = []\<rparr> s of
           (Inl e, s') \<Rightarrow> (Inl (CodeError 500 e), s')
         | (Inr resources, s') \<Rightarrow> (Inr (Some (JSONValue (ListValue resources))), s'))) \<and>
      (to_upper (cq_Method req) = ''POST'' \<longrightarrow> CallResource r ctx req s = json_answer E 202
        (case ge_decode G k (cq_Body req) of
           Inl e \<Rightarrow> (Inl (CodeError 400 e), s)
         | Inr ob \<Rightarrow> (case gs_Add (ge_store G) (place G k ob) s of
             (Inl e, s') \<Rightarrow> (Inl (CodeError 500 e), s')
           | (Inr added, s') \<Rightarrow> (Inr (Some (JSONValue (ObjectValue added))), s')))))"
proof -
  let ?b = "lit_elems (base_route k)" and ?item = "base_route k @ CHR ''/'' # name"
  let ?n = "?b @ [Exact CHR ''/'', Segment]"
  have plain: "plain_text (base_route k)" using kinds by blast
  have r: "r = Router (Some DefaultNotFoundHandler) [] (concat (map (routes_of_kind E G) kinds)) []"
    unfolding router by (rule group_router_eq) (use kinds in blast)
  have long: "\<not> lit_match (base_route k) ?item" by (auto simp: lit_match_def dest: list_all2_lengthD)
  have short: "find_match True ?n (base_route k) = None" by (rule match_name_short) simp
  have found: "find_route ?item m (routes_of_kind E G k) =
      (if m = ''GET'' then Some (new_route E ?n [''name''] (name_route k) (getResource G k) 200 ''GET'', [name])
       else if m = ''PUT'' then Some (new_route E ?n [''name''] (name_route k) (updateResource G k) 202 ''PUT'', [name])
       else if m = ''DELETE'' then Some (new_route E ?n [''name''] (name_route k) (deleteResource G k) 200 ''DELETE'', [name])
       else None)"
    "find_route (base_route k) m (routes_of_kind E G k) =
      (if m = ''GET'' then Some (new_route E ?b [] (base_route k) (listResources G k) 200 ''GET'', [])
       else if m = ''POST'' then Some (new_route E ?b [] (base_route k) (createResource G k) 202 ''POST'', [])
       else None)" for m
    using match_name [OF plain name] long short lit_match_refl [OF plain]
    by (simp_all add: routes_of_kind_def new_route_def Let_def match_base)
  have all: "find_route p m (concat (map (routes_of_kind E G) kinds)) = find_route p m (routes_of_kind E G k)"
    if "p = ?item \<or> p = base_route k" for p m
    by (rule route_of_kind [OF kinds(2) _ refl]) (use others that in blast)
  have var: "Vars_Get (VarsFromCtx (with_captures [''name''] [name] ctx)) ''name'' = (name, True)"
    using name(1) by (simp add: with_captures_def CtxWithVar_def VarsFromCtx_def Vars_Add_def Vars_Get_def split: option.split)
  note call = call_route [OF url, where nf = "Some DefaultNotFoundHandler" and routes = "concat (map (routes_of_kind E G) kinds)", folded r]
  have "CallResource r ctx req s = json_answer E 200 (getResource G k \<lparr>jr_Method = cq_Method req,
      jr_Vars = VarsFromCtx (with_captures [''name''] [name] ctx), jr_Body = cq_Body req\<rparr> s)"
    if "cq_Path req = ?item" "to_upper (cq_Method req) = ''GET''"
    by (rule call [where path = "name_route k" and es = ?n and m = "''GET''"]) (simp add: that all found)
  moreover have "CallResource r ctx req s = json_answer E 202 (updateResource G k \<lparr>jr_Method = cq_Method req,
      jr_Vars = VarsFromCtx (with_captures [''name''] [name] ctx), jr_Body = cq_Body req\<rparr> s)"
    if "cq_Path req = ?item" "to_upper (cq_Method req) = ''PUT''"
    by (rule call [where path = "name_route k" and es = ?n and m = "''PUT''"]) (simp add: that all found)
  moreover have "CallResource r ctx req s = json_answer E 200 (deleteResource G k \<lparr>jr_Method = cq_Method req,
      jr_Vars = VarsFromCtx (with_captures [''name''] [name] ctx), jr_Body = cq_Body req\<rparr> s)"
    if "cq_Path req = ?item" "to_upper (cq_Method req) = ''DELETE''"
    by (rule call [where path = "name_route k" and es = ?n and m = "''DELETE''"]) (simp add: that all found)
  moreover have "CallResource r ctx req s = json_answer E 200 (listResources G k \<lparr>jr_Method = cq_Method req,
      jr_Vars = VarsFromCtx (with_captures [] [] ctx), jr_Body = cq_Body req\<rparr> s)"
    if "cq_Path req = base_route k" "to_upper (cq_Method req) = ''GET''"
    by (rule call [where path = "base_route k" and es = ?b and m = "''GET''"]) (simp add: that all found)
  moreover have "CallResource r ctx req s = json_answer E 202 (createResource G k \<lparr>jr_Method = cq_Method req,
      jr_Vars = VarsFromCtx (with_captures [] [] ctx), jr_Body = cq_Body req\<rparr> s)"
    if "cq_Path req = base_route k" "to_upper (cq_Method req) = ''POST''"
    by (rule call [where path = "base_route k" and es = ?b and m = "''POST''"]) (simp add: that all found)
  ultimately show ?thesis
    by (simp add: var getResource_def updateResource_def deleteResource_def listResources_def createResource_def)
qed

definition router_kind :: "string \<Rightarrow> string \<Rightarrow> schema" where
  "router_kind kind plural = \<lparr>sch_Group = ''a.b'', sch_Version = ''v1'', sch_Kind = kind, sch_Plural = plural\<rparr>"

definition sample_group_store :: "(string, string list) group_store" where
  "sample_group_store = \<lparr>gs_Add = (\<lambda>ob s. (Inr ob, ob # s)),
     gs_Get = (\<lambda>kind i s. (if id_Name i \<in> set s then (Some (id_Name i), None) else (None, Some (GoErr ''not found'')), s)),
     gs_List = (\<lambda>kind opts s. (Inl (GoErr ''unused''), s)), gs_Update = (\<lambda>ob s. (Inr ob, s)),
     gs_Delete = (\<lambda>kind i s. (None, filter (\<lambda>x. x \<noteq> id_Name i) s))\<rparr>"

definition sample_group_env :: "(string, string list) group_env" where
  "sample_group_env = \<lparr>ge_store = sample_group_store, ge_namespace = ''ns'', ge_decode = (\<lambda>sch b. Inr b), ge_name = id,
     ge_SetStaticMetadata = (\<lambda>sm ob. ob)\<rparr>"

definition sample_json_env :: "string group_value json_env" where
  "sample_json_env = \<lparr>je_parse_url = (\<lambda>u. None),
     je_encode = (\<lambda>v. case v of JSONValue (ObjectValue ob) \<Rightarrow> Some ob | JSONValue (ListValue l) \<Rightarrow> None | JSONErrorResponse code m \<Rightarrow> Some m),
     je_message = (\<lambda>e. ''error''), je_errHandler = None\<rparr>"

definition delete_request :: CallResourceRequest where
  "delete_request = \<lparr>cq_Path = ''a.b/v1/foos/x'', cq_Method = ''delete'', cq_URL = [], cq_Body = []\<rparr>"

definition no_engine :: regexp_engine where
  "no_engine = \<lparr>re_expression = (\<lambda>e. None), re_path = (\<lambda>p whole. None)\<rparr>"

theorem group_router_serves_store_witness:
  "CallResource (NewResourceGroupRouterWithStore no_engine sample_json_env sample_group_env [router_kind ''Bar'' ''bars'', router_kind ''Foo'' ''foos''])
     \<lparr>cx_Vars = None, cx_Route = None\<rparr> delete_request [''x'', ''y''] =
   (([Some \<lparr>cs_Status = 204, cs_Headers = [], cs_Body = []\<rparr>], None), [''y''])"
proof -
  let ?kinds = "[router_kind ''Bar'' ''bars'', router_kind ''Foo'' ''foos'']"
  have plain: "\<forall>k' \<in> set ?kinds. plain_text (base_route k')"
    by (simp add: router_kind_def base_route_def plain_text_def operator_char_def)
  have bar: "not_of ''a.b/v1/foos'' (router_kind ''Bar'' ''bars'')" "not_of ''a.b/v1/foos/x'' (router_kind ''Bar'' ''bars'')"
    by (simp_all add: not_of_def router_kind_def base_route_def lit_match_def lit_elems_def find_match_def)
  have others: "\<forall>k' \<in> set ?kinds. k' \<noteq> router_kind ''Foo'' ''foos'' \<longrightarrow>
      not_of (base_route (router_kind ''Foo'' ''foos'')) k' \<and> not_of (base_route (router_kind ''Foo'' ''foos'') @ CHR ''/'' # ''x'') k'"
    using bar by (simp add: router_kind_def base_route_def)
  have url: "je_parse_url sample_json_env (cq_URL delete_request) = None" by (simp add: sample_json_env_def)
  have path: "cq_Path delete_request = base_route (router_kind ''Foo'' ''foos'') @ CHR ''/'' # ''x''"
    "to_upper (cq_Method delete_request) = ''DELETE''"
    by (simp add: delete_request_def router_kind_def base_route_def, simp add: delete_request_def upper_char_def char_of_def bit_iff_odd)
  have name: "''x'' \<noteq> []" "CHR ''/'' \<notin> set ''x''" by simp_all
  have kind: "router_kind ''Foo'' ''foos'' \<in> set ?kinds" by simp
  show ?thesis
    using group_router_serves_store [OF plain kind others name url refl, where G = sample_group_env and R = no_engine
        and ctx = "\<lparr>cx_Vars = None, cx_Route = None\<rparr>" and s = "[''x'', ''y'']"] path
    by (simp add: json_answer_def sample_group_env_def sample_group_store_def sendRes_def)
qed

section \<open>More on routers\<close>

text \<open>The middlewares of the routers above are applied outside those of the router itself.\<close>

lemma parents_middlewares_outermost:
  "getHandler r ctx path httpMethod matched (as @ bs) =
     (fst (getHandler r ctx path httpMethod matched bs),
      map_option (apply_middlewares as) (snd (getHandler r ctx path httpMethod matched bs)))"
proof (induction r arbitrary: ctx path httpMethod matched bs rule: measure_induct_rule [where f = size])
  case (less r)
  obtain nf subs routes mws where r: "r = Router nf subs routes mws" by (cases r)
  show ?case
  proof (cases "find_subrouter path subs")
    case None
    then show ?thesis by (auto simp: r apply_middlewares_def split: option.split)
  next
    case (Some f)
    obtain captures rest k h where f: "f = ((captures, rest), k, h)" by (cases f) auto
    have "(k, h) \<in> set subs" using find_subrouter_in Some f by fastforce
    then have "size h < size r" unfolding r by (induction subs) auto
    then show ?thesis using less.IH [of h] by (simp add: r Some f)
  qed
qed

text \<open>A subrouter that matches hides the routes and subrouters after it, also when it has no handler itself.\<close>

lemma matching_subrouter_hides_routes:
  assumes "find_subrouter path subs = Some m"
  shows "getHandler (Router nf (subs @ subs') routes mws) ctx path httpMethod matched as =
    getHandler (Router nf subs [] mws) ctx path httpMethod matched as"
proof -
  have "find_subrouter path (subs @ subs') = Some m" using assms by (induction subs) (auto split: option.splits)
  with assms show ?thesis by (auto split: prod.split)
qed

text \<open>The name in the path of a PUT is not used: the object that is updated is the one the body names.\<close>

lemma update_ignores_path_name:
  assumes "snd (Vars_Get (jr_Vars req) ''name'')" "snd (Vars_Get (jr_Vars req') ''name'')" "jr_Body req = jr_Body req'"
  shows "updateResource G cr req s = updateResource G cr req' s"
  using assms by (simp add: updateResource_def)

text \<open>Every error of the store, a missing object among them, is answered as an internal error.\<close>

lemma store_errors_are_internal:
  assumes "je_errHandler E = None" "je_encode E (JSONErrorResponse 500 ''internal server error'') = Some body"
  shows "sendErr E (CodeError 500 e) = \<lparr>cs_Status = 500, cs_Headers = json_headers, cs_Body = body\<rparr>"
  using assms by (simp add: sendErr_def FromError_def CleanMessage_def sendRes_def)

text \<open>The dots of a group match any character, so that kinds of another group can be reached.\<close>

lemma group_dot_matches_any: "lit_match (''a.b'' @ s) (''axb'' @ s) \<longleftrightarrow> lit_match s s"
  by (simp add: lit_match_def)

text \<open>
  The path of a subrouter with a variable, and with it the path that is reported for its routes, is the text of
  the regular expression, not what the user provided.
\<close>

lemma subrouter_path_is_expression:
  assumes "add_Subrouter R ''/a/{id}'' r = (r', Some i)"
  shows "sk_path (fst (rt_subrouters r' ! i)) = ''/a/([^'' @ [CHR 0x5C] @ ''/]+)''"
proof -
  have "path_parts ''/a/{id}'' = [Inl CHR ''/'', Inl CHR ''a'', Inl CHR ''/'', Inr (''id'', [])]"
    by (simp add: placeholder_def name_char_def)
  then have written: "expression_text ''/a/{id}'' = ''/a/([^'' @ [CHR 0x5C] @ ''/]+)''"
    by (simp add: expression_text_def)
  show ?thesis using assms by (cases r) (auto simp: written split: option.splits)
qed

end
