(* ===== verification/API_Storage.thy ===== *)
theory API_Storage
  imports Typed_Objects Simple_App
begin

text \<open>
  What an API server stores and serves for a kind, from \<^verbatim>\<open>k8s/apiserver\<close>: how an update of an object or of one of its
  subresources is prepared (\<^verbatim>\<open>strategy.go\<close>, \<^verbatim>\<open>storage.go\<close>), which fields a list can be selected by (\<^verbatim>\<open>storage.go\<close>,
  \<^verbatim>\<open>installer.go\<close>), and how a request for a custom route of an object finds its path (\<^verbatim>\<open>connector.go\<close>).
  The registry that stores the objects is third-party.
\<close>

section \<open>Objects as the strategies see them\<close>

text \<open>
  The methods of \<^verbatim>\<open>resource.Object\<close> that the strategies call. A setter that fails leaves the object as it is; owner
  references are of a type of their own.
\<close>

record ('o, 'w, 'p, 'v) object_access =
  ra_Labels :: "'o \<Rightarrow> (string \<rightharpoonup> string) option"
  ra_SetLabels :: "(string \<rightharpoonup> string) option \<Rightarrow> 'o \<Rightarrow> 'o"
  ra_Annotations :: "'o \<Rightarrow> (string \<rightharpoonup> string) option"
  ra_SetAnnotations :: "(string \<rightharpoonup> string) option \<Rightarrow> 'o \<Rightarrow> 'o"
  ra_Finalizers :: "'o \<Rightarrow> string list option"
  ra_SetFinalizers :: "string list option \<Rightarrow> 'o \<Rightarrow> 'o"
  ra_Owners :: "'o \<Rightarrow> 'w"
  ra_SetOwners :: "'w \<Rightarrow> 'o \<Rightarrow> 'o"
  ra_Spec :: "'o \<Rightarrow> 'p"
  ra_SetSpec :: "'p \<Rightarrow> 'o \<Rightarrow> 'o outcome"
  ra_Subresource :: "'o \<Rightarrow> string \<Rightarrow> 'v option"
  ra_SetSubresource :: "string \<Rightarrow> 'v \<Rightarrow> 'o \<Rightarrow> 'o outcome"

text \<open>An object of the server is or is not a \<^verbatim>\<open>resource.Object\<close>; a nil one is \<open>None\<close>.\<close>

datatype 'o server_object = ResourceObject 'o | NotResource

definition on_resources ::
  "('o \<Rightarrow> 'o \<Rightarrow> 'o outcome) \<Rightarrow> 'o server_object option \<Rightarrow> 'o server_object option \<Rightarrow> 'o server_object option outcome" where
  "on_resources f obj old = (case (obj, old) of
     (Some (ResourceObject newObj), Some (ResourceObject oldObj)) \<Rightarrow>
       (case f newObj oldObj of Returned r \<Rightarrow> Returned (Some (ResourceObject r)) | Failed e \<Rightarrow> Failed e | Panicked m \<Rightarrow> Panicked m)
   | _ \<Rightarrow> Returned obj)"

text \<open>The error of a setter is logged.\<close>

definition logged :: "'o \<Rightarrow> 'o outcome \<Rightarrow> 'o outcome" where
  "logged ob r = (case r of Returned ob' \<Rightarrow> Returned ob' | Failed e \<Rightarrow> Returned ob | Panicked m \<Rightarrow> Panicked m)"

definition and_then :: "'o outcome \<Rightarrow> ('o \<Rightarrow> 'o outcome) \<Rightarrow> 'o outcome" where
  "and_then r f = (case r of Returned ob \<Rightarrow> f ob | Failed e \<Rightarrow> Failed e | Panicked m \<Rightarrow> Panicked m)"

definition keep_subresource ::
  "('o, 'w, 'p, 'v) object_access \<Rightarrow> 'o \<Rightarrow> string \<Rightarrow> 'o \<Rightarrow> 'o outcome" where
  "keep_subresource A oldObj sr newObj = (case ra_Subresource A oldObj sr of
     None \<Rightarrow> Returned newObj
   | Some v \<Rightarrow> logged newObj (ra_SetSubresource A sr v newObj))"

section \<open>Strategies\<close>

definition strategy_PrepareForUpdate :: "('o, 'w, 'p, 'v) object_access \<Rightarrow> 'o \<Rightarrow> 'o \<Rightarrow> 'o outcome" where
  "strategy_PrepareForUpdate A newObj oldObj = keep_subresource A oldObj SubresourceStatus newObj"

definition status_PrepareForUpdate :: "('o, 'w, 'p, 'v) object_access \<Rightarrow> 'o \<Rightarrow> 'o \<Rightarrow> 'o outcome" where
  "status_PrepareForUpdate A newObj oldObj =
     (let n = ra_SetOwners A (ra_Owners A oldObj) (ra_SetFinalizers A (ra_Finalizers A oldObj)
            (ra_SetLabels A (ra_Labels A oldObj) (ra_SetAnnotations A (ra_Annotations A oldObj) newObj)))
      in logged n (ra_SetSpec A (ra_Spec A oldObj) n))"

definition reset_field :: "('o, 'w, 'p, 'v) object_access \<Rightarrow> 'o \<Rightarrow> string \<Rightarrow> 'o outcome \<Rightarrow> 'o outcome" where
  "reset_field A oldObj sr r = and_then r (\<lambda>n.
     if sr = ''metadata'' \<or> sr = ''spec'' then Returned n else keep_subresource A oldObj sr n)"

definition subresource_PrepareForUpdate ::
  "('o, 'w, 'p, 'v) object_access \<Rightarrow> string list \<Rightarrow> 'o \<Rightarrow> 'o \<Rightarrow> 'o outcome" where
  "subresource_PrepareForUpdate A resetFields newObj oldObj =
     fold (reset_field A oldObj) resetFields (status_PrepareForUpdate A newObj oldObj)"

definition NamespaceScoped :: "string \<Rightarrow> bool" where
  "NamespaceScoped scope \<longleftrightarrow> scope = NamespacedScope"

definition Recognizes :: "gvk \<Rightarrow> gvk \<Rightarrow> bool" where
  "Recognizes kind g \<longleftrightarrow> g = kind"

text \<open>
  What is stored for a kind under its plural, and under its plural and a subresource: each with the strategy of
  its updates. The names that zero values have for their subresources come in the order of the range.
\<close>

datatype kind_storage = KindStore | StatusREST | SubresourceREST string "string list"

definition newSubresourceREST :: "string list \<Rightarrow> string \<Rightarrow> kind_storage" where
  "newSubresourceREST subresources sr = SubresourceREST sr (''spec'' # filter (\<lambda>k. k \<noteq> sr) subresources)"

definition subresource_storage :: "string list \<Rightarrow> string \<Rightarrow> kind_storage" where
  "subresource_storage subresources sr =
     (if sr = SubresourceStatus then StatusREST else newSubresourceREST subresources sr)"

fun PrepareForUpdate :: "('o, 'w, 'p, 'v) object_access \<Rightarrow> kind_storage \<Rightarrow> 'o \<Rightarrow> 'o \<Rightarrow> 'o outcome" where
  "PrepareForUpdate A KindStore newObj oldObj = strategy_PrepareForUpdate A newObj oldObj"
| "PrepareForUpdate A StatusREST newObj oldObj = status_PrepareForUpdate A newObj oldObj"
| "PrepareForUpdate A (SubresourceREST sr resetFields) newObj oldObj = subresource_PrepareForUpdate A resetFields newObj oldObj"

text \<open>The fields that server-side apply ignores, by the version they are for.\<close>

fun GetResetFields :: "string \<Rightarrow> kind_storage \<Rightarrow> (string \<times> string list) list" where
  "GetResetFields gv KindStore = [(gv, [''status''])]"
| "GetResetFields gv StatusREST = [(gv, [''spec'', ''metadata''])]"
| "GetResetFields gv (SubresourceREST sr resetFields) = [(gv, resetFields)]"

section \<open>The contract of the setters\<close>

text \<open>What the accessors see of an object.\<close>

record ('w, 'p, 'v) object_view =
  vw_Labels :: "(string \<rightharpoonup> string) option"
  vw_Annotations :: "(string \<rightharpoonup> string) option"
  vw_Finalizers :: "string list option"
  vw_Owners :: 'w
  vw_Spec :: 'p
  vw_Subresources :: "string \<rightharpoonup> 'v"

definition view :: "('o, 'w, 'p, 'v) object_access \<Rightarrow> 'o \<Rightarrow> ('w, 'p, 'v) object_view" where
  "view A ob = \<lparr>vw_Labels = ra_Labels A ob, vw_Annotations = ra_Annotations A ob, vw_Finalizers = ra_Finalizers A ob,
     vw_Owners = ra_Owners A ob, vw_Spec = ra_Spec A ob, vw_Subresources = ra_Subresource A ob\<rparr>"

text \<open>The subresources of an object in which some are reset to those of another one, as far as that has them.\<close>

definition reset_by :: "string list \<Rightarrow> (string \<rightharpoonup> 'v) \<Rightarrow> (string \<rightharpoonup> 'v) \<Rightarrow> (string \<rightharpoonup> 'v)" where
  "reset_by resets old new = (\<lambda>sr. if sr \<in> set resets \<and> sr \<noteq> ''metadata'' \<and> sr \<noteq> ''spec'' \<and> old sr \<noteq> None
     then old sr else new sr)"

lemma reset_by_Nil [simp]: "reset_by [] old new = new"
  by (simp add: reset_by_def)

lemma reset_by_Cons: "reset_by (f # resets) old new = reset_by resets old (reset_by [f] old new)"
  by (auto simp: reset_by_def fun_eq_iff)

text \<open>
  An implementation of objects: each setter changes what its getter reads and nothing else, and what one object of
  the type has can be set in another.
\<close>

locale resource_objects =
  fixes A :: "('o, 'w, 'p, 'v) object_access"
  assumes view_labels: "view A (ra_SetLabels A l ob) = (view A ob)\<lparr>vw_Labels := l\<rparr>"
    and view_annotations: "view A (ra_SetAnnotations A l ob) = (view A ob)\<lparr>vw_Annotations := l\<rparr>"
    and view_finalizers: "view A (ra_SetFinalizers A fs ob) = (view A ob)\<lparr>vw_Finalizers := fs\<rparr>"
    and view_owners: "view A (ra_SetOwners A ws ob) = (view A ob)\<lparr>vw_Owners := ws\<rparr>"
    and set_spec: "\<exists>ob'. ra_SetSpec A (ra_Spec A other) ob = Returned ob' \<and> view A ob' = (view A ob)\<lparr>vw_Spec := ra_Spec A other\<rparr>"
    and set_subresource: "ra_Subresource A other sr = Some v \<Longrightarrow>
      \<exists>ob'. ra_SetSubresource A sr v ob = Returned ob' \<and>
        view A ob' = (view A ob)\<lparr>vw_Subresources := (vw_Subresources (view A ob))(sr \<mapsto> v)\<rparr>"
begin

lemma keep_subresource_view:
  "\<exists>r. keep_subresource A old sr n = Returned r \<and>
     view A r = (case ra_Subresource A old sr of None \<Rightarrow> view A n
       | Some v \<Rightarrow> (view A n)\<lparr>vw_Subresources := (vw_Subresources (view A n))(sr \<mapsto> v)\<rparr>)"
proof (cases "ra_Subresource A old sr")
  case (Some v)
  from set_subresource [OF this, of n] show ?thesis by (auto simp: keep_subresource_def logged_def Some)
qed (simp add: keep_subresource_def)

lemma status_view:
  "\<exists>r. status_PrepareForUpdate A new old = Returned r \<and> view A r = (view A old)\<lparr>vw_Subresources := vw_Subresources (view A new)\<rparr>"
proof -
  let ?n = "ra_SetOwners A (ra_Owners A old) (ra_SetFinalizers A (ra_Finalizers A old)
    (ra_SetLabels A (ra_Labels A old) (ra_SetAnnotations A (ra_Annotations A old) new)))"
  obtain r where r: "ra_SetSpec A (ra_Spec A old) ?n = Returned r" "view A r = (view A ?n)\<lparr>vw_Spec := ra_Spec A old\<rparr>"
    using set_spec by blast
  have "view A r = (view A old)\<lparr>vw_Subresources := vw_Subresources (view A new)\<rparr>"
    unfolding r(2) view_owners view_finalizers view_labels view_annotations by (simp add: view_def)
  then show ?thesis using r(1) by (auto simp: status_PrepareForUpdate_def logged_def Let_def)
qed

lemma strategy_view:
  "\<exists>r. strategy_PrepareForUpdate A new old = Returned r \<and>
     view A r = (case ra_Subresource A old SubresourceStatus of None \<Rightarrow> view A new
       | Some v \<Rightarrow> (view A new)\<lparr>vw_Subresources := (vw_Subresources (view A new))(SubresourceStatus \<mapsto> v)\<rparr>)"
  unfolding strategy_PrepareForUpdate_def by (rule keep_subresource_view)

text \<open>The other subresources are the old ones wherever the old object has them.\<close>

lemma resets_view:
  assumes "r = Returned n"
  shows "\<exists>r'. fold (reset_field A old) resets r = Returned r' \<and>
     view A r' = (view A n)\<lparr>vw_Subresources := reset_by resets (ra_Subresource A old) (vw_Subresources (view A n))\<rparr>"
  using assms
proof (induction resets arbitrary: n r)
  case Nil
  then show ?case by (simp add: view_def)
next
  case (Cons f resets)
  obtain m where m: "reset_field A old f r = Returned m"
    "view A m = (view A n)\<lparr>vw_Subresources := reset_by [f] (ra_Subresource A old) (vw_Subresources (view A n))\<rparr>"
  proof (cases "f = ''metadata'' \<or> f = ''spec''")
    case True
    then have "reset_field A old f r = Returned n" using Cons.prems by (auto simp: reset_field_def and_then_def)
    moreover have "reset_by [f] (ra_Subresource A old) g = g" for g using True by (auto simp: reset_by_def fun_eq_iff)
    ultimately show ?thesis using that by (simp add: view_def)
  next
    case False
    obtain m where k: "keep_subresource A old f n = Returned m"
      "view A m = (case ra_Subresource A old f of None \<Rightarrow> view A n
         | Some v \<Rightarrow> (view A n)\<lparr>vw_Subresources := (vw_Subresources (view A n))(f \<mapsto> v)\<rparr>)"
      using keep_subresource_view by blast
    have "reset_by [f] (ra_Subresource A old) g = (case ra_Subresource A old f of None \<Rightarrow> g | Some v \<Rightarrow> g(f \<mapsto> v))" for g
      using False by (auto simp: reset_by_def fun_eq_iff split: option.split)
    then show ?thesis using that k False Cons.prems
      by (simp add: reset_field_def and_then_def view_def split: option.splits)
  qed
  from Cons.IH [OF m(1)] m(2) show ?case
    by (simp add: reset_by_Cons [of f resets])
qed

lemma subresource_view:
  "\<exists>r. subresource_PrepareForUpdate A resets new old = Returned r \<and>
     view A r = (view A old)\<lparr>vw_Subresources := reset_by resets (ra_Subresource A old) (ra_Subresource A new)\<rparr>"
proof -
  obtain n where n: "status_PrepareForUpdate A new old = Returned n"
    "view A n = (view A old)\<lparr>vw_Subresources := vw_Subresources (view A new)\<rparr>" using status_view by blast
  from resets_view [OF n(1), where old = old and resets = resets] show ?thesis
    unfolding subresource_PrepareForUpdate_def n(2) by (simp add: view_def)
qed

text \<open>What an update through each storage can change: the view of the object that is stored.\<close>

lemma update_scope:
  "\<exists>r. PrepareForUpdate A KindStore new old = Returned r \<and>
     view A r = (view A new)\<lparr>vw_Subresources := reset_by [SubresourceStatus] (ra_Subresource A old) (ra_Subresource A new)\<rparr>"
  "\<exists>r. PrepareForUpdate A (subresource_storage srs sr) new old = Returned r \<and>
     view A r = (view A old)\<lparr>vw_Subresources :=
       (if sr = SubresourceStatus then ra_Subresource A new
        else reset_by (filter (\<lambda>k. k \<noteq> sr) srs) (ra_Subresource A old) (ra_Subresource A new))\<rparr>"
proof -
  have "reset_by [SubresourceStatus] f g = (case f SubresourceStatus of None \<Rightarrow> g | Some v \<Rightarrow> g(SubresourceStatus \<mapsto> v))"
    for f g :: "string \<rightharpoonup> 'v" by (auto simp: reset_by_def fun_eq_iff SubresourceStatus_def split: option.split)
  then show "\<exists>r. PrepareForUpdate A KindStore new old = Returned r \<and>
     view A r = (view A new)\<lparr>vw_Subresources := reset_by [SubresourceStatus] (ra_Subresource A old) (ra_Subresource A new)\<rparr>"
    using strategy_view [of new old] by (simp add: view_def split: option.splits)
  have "reset_by (''spec'' # l) f g = reset_by l f g" for l and f g :: "string \<rightharpoonup> 'v"
    by (auto simp: reset_by_def fun_eq_iff)
  then show "\<exists>r. PrepareForUpdate A (subresource_storage srs sr) new old = Returned r \<and>
     view A r = (view A old)\<lparr>vw_Subresources :=
       (if sr = SubresourceStatus then ra_Subresource A new
        else reset_by (filter (\<lambda>k. k \<noteq> sr) srs) (ra_Subresource A old) (ra_Subresource A new))\<rparr>"
    using subresource_view [of "''spec'' # filter (\<lambda>k. k \<noteq> sr) srs" new old] status_view [of new old]
    by (simp add: subresource_storage_def newSubresourceREST_def view_def)
qed

end

section \<open>The SDK's objects\<close>

text \<open>An object with its owner references, which \<open>object_base\<close> does not have apart.\<close>

definition untyped_access ::
  "('x \<Rightarrow> go_error + 'j) \<Rightarrow> ('w \<times> 'j UntypedObject, 'w, 'j members option, ('j, 'x) any_value) object_access" where
  "untyped_access marshal =
     \<lparr>ra_Labels = (\<lambda>(w, u). ob_Labels u), ra_SetLabels = (\<lambda>l (w, u). (w, u\<lparr>ob_Labels := l\<rparr>)),
      ra_Annotations = (\<lambda>(w, u). ob_Annotations u), ra_SetAnnotations = (\<lambda>l (w, u). (w, u\<lparr>ob_Annotations := l\<rparr>)),
      ra_Finalizers = (\<lambda>(w, u). ob_Finalizers u), ra_SetFinalizers = (\<lambda>fs (w, u). (w, u\<lparr>ob_Finalizers := fs\<rparr>)),
      ra_Owners = fst, ra_SetOwners = (\<lambda>w' (w, u). (w', u)),
      ra_Spec = (\<lambda>(w, u). un_Spec u), ra_SetSpec = (\<lambda>p (w, u). map_outcome (Pair w) (untyped_SetSpec (Some p) u)),
      ra_Subresource = (\<lambda>(w, u) sr. map_option RawMessage (untyped_GetSubresource u sr)),
      ra_SetSubresource = (\<lambda>sr v (w, u). map_outcome (Pair w) (untyped_SetSubresource marshal sr v u))\<rparr>"

definition status_access :: "('w \<times> ('p, 's) TypedSpecStatusObject, 'w, 'p, 's) object_access" where
  "status_access =
     \<lparr>ra_Labels = (\<lambda>(w, t). ob_Labels t), ra_SetLabels = (\<lambda>l (w, t). (w, t\<lparr>ob_Labels := l\<rparr>)),
      ra_Annotations = (\<lambda>(w, t). ob_Annotations t), ra_SetAnnotations = (\<lambda>l (w, t). (w, t\<lparr>ob_Annotations := l\<rparr>)),
      ra_Finalizers = (\<lambda>(w, t). ob_Finalizers t), ra_SetFinalizers = (\<lambda>fs (w, t). (w, t\<lparr>ob_Finalizers := fs\<rparr>)),
      ra_Owners = fst, ra_SetOwners = (\<lambda>w' (w, t). (w', t)),
      ra_Spec = (\<lambda>(w, t). tss_Spec t), ra_SetSpec = (\<lambda>p (w, t). Returned (w, t\<lparr>tss_Spec := p\<rparr>)),
      ra_Subresource = (\<lambda>(w, t). status_GetSubresource t),
      ra_SetSubresource = (\<lambda>sr v (w, t). map_outcome (Pair w) (status_SetSubresource sr (Some v) t))\<rparr>"

interpretation untyped: resource_objects "untyped_access marshal" for marshal
  by unfold_locales
    (auto simp: untyped_access_def view_def untyped_GetSubresource_def untyped_SetSpec_def untyped_SetSubresource_def
      slice_def update_conv' fun_eq_iff split: prod.splits)

interpretation typed_status: resource_objects status_access
  by unfold_locales
    (auto simp: status_access_def view_def status_GetSubresource_def status_SetSubresource_def fun_eq_iff split: prod.splits if_splits)

text \<open>An object with a spec and a status only: its kind's endpoint keeps the status, the status's changes nothing else.\<close>

lemma typed_status_endpoints:
  "\<exists>r. PrepareForUpdate status_access KindStore new old = Returned r \<and>
     view status_access r = view status_access (fst new, (snd new)\<lparr>tss_Status := tss_Status (snd old)\<rparr>)"
  "\<exists>r. PrepareForUpdate status_access (subresource_storage srs SubresourceStatus) new old = Returned r \<and>
     view status_access r = view status_access (fst old, (snd old)\<lparr>tss_Status := tss_Status (snd new)\<rparr>)"
proof -
  have same: "view status_access (w, t) = \<lparr>vw_Labels = ob_Labels t, vw_Annotations = ob_Annotations t, vw_Finalizers = ob_Finalizers t,
      vw_Owners = w, vw_Spec = tss_Spec t, vw_Subresources = [SubresourceStatus \<mapsto> tss_Status t]\<rparr>" for w :: 'w and t :: "('p, 's) TypedSpecStatusObject"
    by (auto simp: view_def status_access_def status_GetSubresource_def fun_eq_iff)
  have old: "ra_Subresource status_access (w, t) = [SubresourceStatus \<mapsto> tss_Status t]" for w :: 'w and t :: "('p, 's) TypedSpecStatusObject"
    by (auto simp: status_access_def status_GetSubresource_def fun_eq_iff)
  have reset: "reset_by [SubresourceStatus] [SubresourceStatus \<mapsto> a] [SubresourceStatus \<mapsto> b] = [SubresourceStatus \<mapsto> a]" for a b :: 's
    by (simp add: reset_by_def SubresourceStatus_def fun_eq_iff)
  show "\<exists>r. PrepareForUpdate status_access KindStore new old = Returned r \<and>
     view status_access r = view status_access (fst new, (snd new)\<lparr>tss_Status := tss_Status (snd old)\<rparr>)"
    using typed_status.update_scope(1) [of new old]
    by (cases new; cases old) (simp add: old reset same split_paired_Ex; force simp: same)
  show "\<exists>r. PrepareForUpdate status_access (subresource_storage srs SubresourceStatus) new old = Returned r \<and>
     view status_access r = view status_access (fst old, (snd old)\<lparr>tss_Status := tss_Status (snd new)\<rparr>)"
    using typed_status.update_scope(2) [of srs SubresourceStatus new old]
    by (cases new; cases old) (simp add: old same split_paired_Ex; force simp: same)
qed


text \<open>
  The endpoint of the status stores all subresources of the request, not only the status: those that the kind
  keeps apart, such as a scale, can be changed through it.
\<close>

lemma status_endpoint_changes_others:
  assumes "PrepareForUpdate (untyped_access marshal) (subresource_storage srs SubresourceStatus) new old = Returned r"
  shows "ra_Subresource (untyped_access marshal) r ''scale'' = ra_Subresource (untyped_access marshal) new ''scale''"
proof -
  have "view (untyped_access marshal) r =
      (view (untyped_access marshal) old)\<lparr>vw_Subresources := ra_Subresource (untyped_access marshal) new\<rparr>"
    using untyped.update_scope(2) [where srs = srs and sr = SubresourceStatus and marshal = marshal and new = new and old = old] assms by auto
  then have "vw_Subresources (view (untyped_access marshal) r) = ra_Subresource (untyped_access marshal) new" by simp
  then show ?thesis by (simp add: view_def)
qed

section \<open>Selecting by fields\<close>

record 'o SelectableField =
  sf_FieldSelector :: string
  sf_FieldValueFunc :: "'o \<Rightarrow> go_error + string"

text \<open>Field selectors are written with or without a leading dot.\<close>

definition trim_dot :: "string \<Rightarrow> string" where
  "trim_dot s = (case s of c # s' \<Rightarrow> if c = CHR ''.'' then s' else s | [] \<Rightarrow> [])"

definition field_value :: "'o SelectableField \<Rightarrow> 'o \<Rightarrow> string" where
  "field_value f ob = (case sf_FieldValueFunc f ob of Inl e \<Rightarrow> [] | Inr v \<Rightarrow> v)"

text \<open>
  The labels and fields of an object. \<open>meta\<close> is \<^verbatim>\<open>generic.ObjectMetaFieldsSet\<close>, whose flag says whether there is a
  namespace.
\<close>

definition getAttrs ::
  "(bool \<Rightarrow> 'o \<Rightarrow> (string \<rightharpoonup> string)) \<Rightarrow> ('o \<Rightarrow> (string \<rightharpoonup> string) option) \<Rightarrow> string \<Rightarrow> 'o SelectableField list \<Rightarrow>
   'o server_object \<Rightarrow> go_error + (string \<rightharpoonup> string) option \<times> (string \<rightharpoonup> string)" where
  "getAttrs meta labels scope selectable obj = (case obj of
     NotResource \<Rightarrow> Inl (GoErr ''object is not a resource.Object'')
   | ResourceObject ob \<Rightarrow> Inr (labels ob,
       fold (\<lambda>f flds. flds(trim_dot (sf_FieldSelector f) \<mapsto> field_value f ob)) selectable (meta (scope \<noteq> ClusterScope) ob)))"

definition metadata_name :: string where
  "metadata_name = ''metadata.name''"

definition metadata_namespace :: string where
  "metadata_namespace = ''metadata.namespace''"

definition selected_by :: "string \<Rightarrow> 'o SelectableField \<Rightarrow> bool" where
  "selected_by label f \<longleftrightarrow> sf_FieldSelector f = label \<or> trim_dot (sf_FieldSelector f) = label"

definition fieldLabelConversion ::
  "string \<Rightarrow> 'o SelectableField list \<Rightarrow> string \<Rightarrow> string \<Rightarrow> go_error + string \<times> string" where
  "fieldLabelConversion scope selectable label val =
     (if label = metadata_name \<or> scope \<noteq> ClusterScope \<and> label = metadata_namespace then Inr (label, val)
      else (case List.find (selected_by label) selectable of
        Some f \<Rightarrow> Inr (trim_dot (sf_FieldSelector f), val)
      | None \<Rightarrow> Inl (GoErr (''field label not supported: '' @ label))))"

lemma fold_fields:
  "fold (\<lambda>f flds. flds(trim_dot (sf_FieldSelector f) \<mapsto> field_value f ob)) selectable m l =
     (case List.find (\<lambda>f. trim_dot (sf_FieldSelector f) = l) (rev selectable) of Some f \<Rightarrow> Some (field_value f ob) | None \<Rightarrow> m l)"
  by (induction selectable arbitrary: m rule: rev_induct) auto

lemma find_distinct:
  assumes "distinct (map g xs)" "f \<in> set xs"
  shows "List.find (\<lambda>x. g x = g f) (rev xs) = Some f"
proof -
  have "List.find (\<lambda>x. g x = g f) ys = Some f" if "distinct (map g ys)" "f \<in> set ys" for ys
    using that by (induction ys) (auto simp: image_iff)
  then show ?thesis using assms by (simp add: rev_map [symmetric])
qed

text \<open>
  A list can only be selected by fields that its objects have: a field label that the API server accepts for a
  kind is turned into the name of a field that every object of the kind has, with the requested value unchanged;
  and it is the object's own name or namespace, or the value of the selectable field that the label names.
\<close>

lemma accepted_labels_are_fields:
  assumes meta: "\<And>flag ob. meta flag ob metadata_name = Some (name ob)"
      "\<And>ob. meta True ob metadata_namespace = Some (namespace ob)"
    and names: "distinct (map (\<lambda>f. trim_dot (sf_FieldSelector f)) selectable)"
      "\<forall>f \<in> set selectable. trim_dot (sf_FieldSelector f) \<notin> {metadata_name, metadata_namespace}"
    and label: "fieldLabelConversion scope selectable label val = Inr (l, v)"
    and attrs: "getAttrs meta labels scope selectable (ResourceObject ob) = Inr (ls, flds)"
  shows "v = val \<and> ls = labels ob \<and>
    (l = metadata_name \<and> label = metadata_name \<and> flds l = Some (name ob) \<or>
     l = metadata_namespace \<and> label = metadata_namespace \<and> scope \<noteq> ClusterScope \<and> flds l = Some (namespace ob) \<or>
     (\<exists>f \<in> set selectable. selected_by label f \<and> flds l = Some (field_value f ob)))"
proof -
  have flds: "flds l = (case List.find (\<lambda>f. trim_dot (sf_FieldSelector f) = l) (rev selectable) of
      Some f \<Rightarrow> Some (field_value f ob) | None \<Rightarrow> meta (scope \<noteq> ClusterScope) ob l)" and "ls = labels ob" for l
    using attrs by (auto simp: getAttrs_def fold_fields)
  moreover have "v = val" using label by (auto simp: fieldLabelConversion_def split: if_splits option.splits)
  moreover have own: "List.find (\<lambda>f. trim_dot (sf_FieldSelector f) = l) (rev selectable) = None"
    if "l \<in> {metadata_name, metadata_namespace}" for l
    unfolding find_None_iff using names(2) that by auto
  ultimately show ?thesis
  proof (cases "label = metadata_name \<or> scope \<noteq> ClusterScope \<and> label = metadata_namespace")
    case True
    then have "l = label" using label by (simp add: fieldLabelConversion_def)
    then show ?thesis using True flds [of l] own [of l] meta(1) meta(2) [of ob] \<open>v = val\<close> \<open>\<And>l. ls = labels ob\<close> by auto
  next
    case False
    then obtain f where f: "List.find (selected_by label) selectable = Some f" "l = trim_dot (sf_FieldSelector f)"
      using label by (auto simp: fieldLabelConversion_def split: option.splits)
    then have "f \<in> set selectable" "selected_by label f" by (auto simp: find_Some_iff)
    moreover have "List.find (\<lambda>g. trim_dot (sf_FieldSelector g) = trim_dot (sf_FieldSelector f)) (rev selectable) = Some f"
      using find_distinct [OF names(1)] calculation(1) by blast
    ultimately show ?thesis using flds [of l] f(2) \<open>v = val\<close> \<open>\<And>l. ls = labels ob\<close> by auto
  qed
qed

text \<open>A kind selected by its title.\<close>

lemma accepted_labels_are_fields_witness:
  "let selectable = [\<lparr>sf_FieldSelector = ''.spec.title'', sf_FieldValueFunc = (\<lambda>ob :: string \<times> string. Inr (snd ob))\<rparr>];
       meta = (\<lambda>flag ob. [metadata_name \<mapsto> fst ob, metadata_namespace \<mapsto> ''ns''])
   in fieldLabelConversion NamespacedScope selectable ''spec.title'' ''t'' = Inr (''spec.title'', ''t'') \<and>
      (case getAttrs meta (\<lambda>_. None) NamespacedScope selectable (ResourceObject (''a'', ''Title'')) of
         Inl e \<Rightarrow> False | Inr (ls, flds) \<Rightarrow> flds ''spec.title'' = Some ''Title'')"
proof -
  let ?f = "\<lparr>sf_FieldSelector = ''.spec.title'', sf_FieldValueFunc = (\<lambda>ob :: string \<times> string. Inr (snd ob))\<rparr>"
  let ?meta = "\<lambda>flag (ob :: string \<times> string). [metadata_name \<mapsto> fst ob, metadata_namespace \<mapsto> ''ns'']"
  have trim: "trim_dot (sf_FieldSelector ?f) = ''spec.title''" by (simp add: trim_dot_def)
  have conv: "fieldLabelConversion NamespacedScope [?f] ''spec.title'' ''t'' = Inr (''spec.title'', ''t'')"
    by (simp add: fieldLabelConversion_def metadata_name_def metadata_namespace_def selected_by_def trim_dot_def)
  obtain ls flds where attrs: "getAttrs ?meta (\<lambda>_. None) NamespacedScope [?f] (ResourceObject (''a'', ''Title'')) = Inr (ls, flds)"
    by (simp add: getAttrs_def)
  have "\<exists>f \<in> set [?f]. selected_by ''spec.title'' f \<and> flds ''spec.title'' = Some (field_value f (''a'', ''Title''))"
    using accepted_labels_are_fields [OF _ _ _ _ conv attrs, of fst "\<lambda>_. ''ns''"] trim
    by (auto simp: metadata_name_def metadata_namespace_def)
  with conv attrs show ?thesis by (simp add: Let_def field_value_def)
qed

section \<open>Routes of an object\<close>

text \<open>The first place of a text in another one, \<^verbatim>\<open>strings.Index\<close>.\<close>

fun str_index :: "string \<Rightarrow> string \<Rightarrow> nat option" where
  "str_index sub s = (if take (length sub) s = sub then Some 0
     else (case s of [] \<Rightarrow> None | c # s' \<Rightarrow> map_option Suc (str_index sub s')))"

declare str_index.simps [simp del]

text \<open>The path of the route, from the one of the URL; slicing beyond the end panics.\<close>

definition urlToPath :: "string \<Rightarrow> string \<Rightarrow> string \<Rightarrow> string outcome" where
  "urlToPath gv scope path = (case str_index gv path of
     None \<Rightarrow> Returned path
   | Some idx \<Rightarrow>
       if length path < idx + length gv + 1 then Panicked ''slice bounds out of range''
       else (let parts = split_on CHR ''/'' (drop (idx + length gv + 1) path); skip = (if scope = ClusterScope then 2 else 4)
             in Returned (if length parts \<le> skip then [] else join ''/'' (drop skip parts))))"

record RequestInfo =
  ri_Name :: string
  ri_Namespace :: string
  ri_APIGroup :: string
  ri_APIVersion :: string

record http_call =
  hc_Path :: string
  hc_Method :: string
  hc_Body :: string

text \<open>The request a connected handler passes on; without request information in the context there is none.\<close>

definition connect_identifier :: "string \<Rightarrow> RequestInfo \<Rightarrow> FullIdentifier" where
  "connect_identifier kind info = \<lparr>fi_Namespace = ri_Namespace info, fi_Name = ri_Name info, fi_Group = ri_APIGroup info,
     fi_Version = ri_APIVersion info, fi_Kind = kind, fi_Plural = []\<rparr>"

definition Connect :: "string \<Rightarrow> string \<Rightarrow> string \<Rightarrow> RequestInfo option \<Rightarrow> http_call \<Rightarrow> CustomRouteRequest outcome" where
  "Connect gv kind scope info req = (case info of
     None \<Rightarrow> Failed (GoErr ''unable to retrieve request info from context'')
   | Some i \<Rightarrow> (case urlToPath gv scope (hc_Path req) of
       Returned path \<Rightarrow> Returned \<lparr>rr_Identifier = connect_identifier kind i, rr_Path = path, rr_Method = hc_Method req,
         rr_Body = hc_Body req\<rparr>
     | Failed e \<Rightarrow> Failed e
     | Panicked m \<Rightarrow> Panicked m))"

text \<open>What a handler writes to the response.\<close>

datatype http_write = WriteHeader int | WriteBody string

text \<open>
  The answer to an error, after what the handler has written: \<open>marshal\<close> encodes the error, \<open>code\<close> is its status code
  when it has one.
\<close>

definition ServeHTTP_error :: "(go_error \<Rightarrow> string option) \<Rightarrow> (go_error \<Rightarrow> int option) \<Rightarrow> go_error option \<Rightarrow> http_write list" where
  "ServeHTTP_error marshal code err = (case err of
     None \<Rightarrow> []
   | Some e \<Rightarrow> (if marshal e = None then [WriteHeader 500] else []) @
       [WriteHeader (case code e of Some c \<Rightarrow> c | None \<Rightarrow> 500), WriteBody (case marshal e of Some j \<Rightarrow> j | None \<Rightarrow> [])])"

lemma str_index_at:
  assumes "\<forall>i < length pre. take (length sub) (drop i (pre @ sub @ s)) \<noteq> sub"
  shows "str_index sub (pre @ sub @ s) = Some (length pre)"
  using assms
proof (induction pre)
  case Nil
  then show ?case by (simp add: str_index.simps)
next
  case (Cons c pre)
  have "\<forall>i < length pre. take (length sub) (drop i (pre @ sub @ s)) \<noteq> sub"
    using Cons.prems by (auto dest: spec [of _ "Suc i" for i])
  moreover have "take (length sub) ((c # pre) @ sub @ s) \<noteq> sub" using Cons.prems by (auto dest: spec [of _ 0])
  ultimately show ?case using Cons.IH by (subst str_index.simps) simp
qed

lemma split_on_join: "\<forall>p \<in> set ps. c \<notin> set p \<Longrightarrow> split_on c (join [c] (ps @ [s])) = ps @ split_on c s"
  by (induction ps) (simp_all add: join_Cons split_on_append)

lemma urlToPath_route:
  assumes "str_index gv path = Some i" "drop (i + length gv) path = CHR ''/'' # join ''/'' (segs @ [route])"
    "\<forall>p \<in> set segs. CHR ''/'' \<notin> set p" "length segs = (if scope = ClusterScope then 2 else 4)"
  shows "urlToPath gv scope path = Returned route"
proof -
  have long: "\<not> length path < i + length gv + 1"
    using assms(2) by (metis (no_types, lifting) add.commute drop_all linorder_not_less list.distinct(1) not_less_eq plus_1_eq_Suc)
  have "drop (i + length gv + 1) path = join ''/'' (segs @ [route])"
    using assms(2) by (metis add.commute drop_drop drop0 drop_Suc_Cons plus_1_eq_Suc)
  then have parts: "split_on CHR ''/'' (drop (i + length gv + 1) path) = segs @ split_on CHR ''/'' route"
    using split_on_join [OF assms(3)] by simp
  have some: "\<not> length (segs @ split_on CHR ''/'' route) \<le> length segs" by (simp add: not_le)
  have "urlToPath gv scope path = Returned (if length (segs @ split_on CHR ''/'' route) \<le> length segs then []
      else join ''/'' (drop (length segs) (segs @ split_on CHR ''/'' route)))"
    by (simp only: urlToPath_def assms(1) assms(4) [symmetric] option.case if_not_P [OF long] parts Let_def)
  then show ?thesis using some by (simp add: join_split)
qed

end
