(* ===== verification/API_Admission.thy ===== *)
theory API_Admission
  imports API_Storage
begin

text \<open>
  The admission plugin that an app gives a Kubernetes API server, \<^verbatim>\<open>k8s/apiserver/admission.go\<close>, over the app
  of \<open>Simple_App\<close>: which requests of the server reach the app, and what the app's answer does to them.

  The server's attributes are a record. The extra information on a user is copied along and left out. Objects
  are changed through a pointer; a call returns the attributes as it leaves them.
\<close>

section \<open>The plugin\<close>

text \<open>What the plugin asks of an app. An error of the app itself is \<open>Inl\<close>, one of a controller \<open>Inr\<close>.\<close>

record ('o, 's) app_iface =
  ai_Validate :: "'o AdmissionRequest \<Rightarrow> 's \<Rightarrow> (go_error + adm_error option) ran \<times> 's"
  ai_Mutate :: "'o AdmissionRequest \<Rightarrow> 's \<Rightarrow> (go_error + 'o option option \<times> adm_error option) ran \<times> 's"

definition simple_app :: "('x, 'o, 's) app \<Rightarrow> ('o, 's) app_iface" where
  "simple_app a = \<lparr>ai_Validate = App_Validate a, ai_Mutate = App_Mutate a\<rparr>"

record 'o attributes =
  at_Kind :: gvk
  at_Operation :: string
  at_Object :: "'o server_object option"
  at_OldObject :: "'o server_object option"
  at_UserInfo :: "AdmissionUserInfo option"

datatype ('e) plugin_answer = Allowed | Forbidden 'e

datatype plugin_error = AppNotInitialized | UnknownOperation string | ObjectNotResource | OldObjectNotResource
  | AppError go_error | ControllerError adm_error

record appAdmission =
  aa_perKind :: "string \<rightharpoonup> AdmissionCapabilities"
  aa_keys :: "string list"

definition capability_key :: "string \<Rightarrow> string \<Rightarrow> string" where
  "capability_key version kind = version @ CHR ''/'' # kind"

text \<open>The entries of the map of capabilities, in the order they are written.\<close>

definition capability_entries :: "ManifestData \<Rightarrow> (string \<times> AdmissionCapabilities) list" where
  "capability_entries md = concat (map (\<lambda>v. List.map_filter (\<lambda>k. case vk_Admission k of
       None \<Rightarrow> None
     | Some c \<Rightarrow> if \<not> SupportsAnyValidation c \<and> \<not> SupportsAnyMutation c then None
                 else Some (capability_key (mv_Name v) (vk_Kind k), c)) (mv_Kinds v)) (md_Versions md))"

definition newAppAdmission :: "ManifestData \<Rightarrow> appAdmission" where
  "newAppAdmission md = fold (\<lambda>(key, c) ad. \<lparr>aa_perKind = (aa_perKind ad)(key \<mapsto> c), aa_keys = List.insert key (aa_keys ad)\<rparr>)
     (capability_entries md) \<lparr>aa_perKind = Map.empty, aa_keys = []\<rparr>"

definition getAdmissionInfo :: "appAdmission \<Rightarrow> gvk \<Rightarrow> AdmissionCapabilities option" where
  "getAdmissionInfo ad g = aa_perKind ad (capability_key (gvk_Version g) (gvk_Kind g))"

fun action_name :: "AdmissionAction \<Rightarrow> string" where
  "action_name AdmissionActionNone = []"
| "action_name AdmissionActionCreate = ''CREATE''"
| "action_name AdmissionActionUpdate = ''UPDATE''"
| "action_name AdmissionActionDelete = ''DELETE''"
| "action_name AdmissionActionConnect = ''CONNECT''"

fun as_resource :: "plugin_error \<Rightarrow> 'o server_object option \<Rightarrow> plugin_error + 'o option" where
  "as_resource e None = Inr None"
| "as_resource e (Some (ResourceObject ob)) = Inr (Some ob)"
| "as_resource e (Some NotResource) = Inl e"

definition no_user :: AdmissionUserInfo where
  "no_user = \<lparr>ui_Username = [], ui_UID = [], ui_Groups = []\<rparr>"

definition translateAdmissionAttributes :: "'o attributes \<Rightarrow> plugin_error + 'o AdmissionRequest" where
  "translateAdmissionAttributes a =
     (let action = admission_action (at_Operation a)
      in if action = AdmissionActionNone then Inl (UnknownOperation (at_Operation a))
         else (case as_resource ObjectNotResource (at_Object a) of
           Inl e \<Rightarrow> Inl e
         | Inr obj \<Rightarrow> (case as_resource OldObjectNotResource (at_OldObject a) of
             Inl e \<Rightarrow> Inl e
           | Inr oldObj \<Rightarrow> Inr \<lparr>ar_Action = action, ar_Kind = gvk_Kind (at_Kind a), ar_Group = gvk_Group (at_Kind a),
               ar_Version = gvk_Version (at_Kind a),
               ar_UserInfo = (case at_UserInfo a of None \<Rightarrow> no_user | Some u \<Rightarrow> u),
               ar_Object = obj, ar_OldObject = oldObj\<rparr>)))"

definition operation_supported :: "string list option \<Rightarrow> AdmissionAction \<Rightarrow> bool" where
  "operation_supported ops action = (\<exists>val \<in> set (case ops of None \<Rightarrow> [] | Some l \<Rightarrow> l). val = action_name action \<or> val = ''*'')"

text \<open>
  \<open>ni\<close> tells the errors that are or wrap \<^verbatim>\<open>ErrNotImplemented\<close>. Answers of the app that panic, or a nil response,
  panic here as well. \<open>assignable\<close> tells whether one object can be put into another one's place: the same Go type.
\<close>

definition plugin_Validate ::
  "(go_error + adm_error \<Rightarrow> bool) \<Rightarrow> appAdmission \<Rightarrow> ('o, 's) app_iface option \<Rightarrow> 'o attributes \<Rightarrow> 's \<Rightarrow>
   plugin_error plugin_answer ran \<times> 's" where
  "plugin_Validate ni ad getter a s = (case getter of
     None \<Rightarrow> (Ran (Forbidden AppNotInitialized), s)
   | Some app \<Rightarrow> (case getAdmissionInfo ad (at_Kind a) of
       None \<Rightarrow> (Ran Allowed, s)
     | Some info \<Rightarrow>
         if \<not> SupportsAnyValidation info then (Ran Allowed, s)
         else (case translateAdmissionAttributes a of
           Inl e \<Rightarrow> (Ran (Forbidden e), s)
         | Inr req \<Rightarrow>
             if \<not> operation_supported (ad_Validation info) (ar_Action req) then (Ran Allowed, s)
             else (case ai_Validate app req s of
               (Panic, s') \<Rightarrow> (Panic, s')
             | (Ran (Inl e), s') \<Rightarrow> (Ran (if ni (Inl e) then Allowed else Forbidden (AppError e)), s')
             | (Ran (Inr (Some e)), s') \<Rightarrow> (Ran (if ni (Inr e) then Allowed else Forbidden (ControllerError e)), s')
             | (Ran (Inr None), s') \<Rightarrow> (Ran Allowed, s')))))"

definition put_updated ::
  "('o \<Rightarrow> 'o \<Rightarrow> bool) \<Rightarrow> 'o option option \<Rightarrow> 'o attributes \<Rightarrow> (plugin_error plugin_answer \<times> 'o attributes) ran" where
  "put_updated assignable res a = (case at_Object a of
     Some (ResourceObject ob) \<Rightarrow> (case res of
         None \<Rightarrow> Panic
       | Some None \<Rightarrow> Ran (Allowed, a)
       | Some (Some upd) \<Rightarrow> if assignable ob upd then Ran (Allowed, a\<lparr>at_Object := Some (ResourceObject upd)\<rparr>) else Panic)
   | _ \<Rightarrow> Ran (Allowed, a))"

definition plugin_Admit ::
  "(go_error + adm_error \<Rightarrow> bool) \<Rightarrow> ('o \<Rightarrow> 'o \<Rightarrow> bool) \<Rightarrow> appAdmission \<Rightarrow> ('o, 's) app_iface option \<Rightarrow> 'o attributes \<Rightarrow> 's \<Rightarrow>
   (plugin_error plugin_answer \<times> 'o attributes) ran \<times> 's" where
  "plugin_Admit ni assignable ad getter a s = (case getter of
     None \<Rightarrow> (Ran (Forbidden AppNotInitialized, a), s)
   | Some app \<Rightarrow> (case getAdmissionInfo ad (at_Kind a) of
       None \<Rightarrow> (Ran (Allowed, a), s)
     | Some info \<Rightarrow>
         if \<not> SupportsAnyMutation info then (Ran (Allowed, a), s)
         else (case translateAdmissionAttributes a of
           Inl e \<Rightarrow> (Ran (Forbidden e, a), s)
         | Inr req \<Rightarrow>
             if \<not> operation_supported (ad_Mutation info) (ar_Action req) then (Ran (Allowed, a), s)
             else (case ai_Mutate app req s of
               (Panic, s') \<Rightarrow> (Panic, s')
             | (Ran (Inl e), s') \<Rightarrow> (Ran (if ni (Inl e) then Allowed else Forbidden (AppError e), a), s')
             | (Ran (Inr (res, Some e)), s') \<Rightarrow> (Ran (if ni (Inr e) then Allowed else Forbidden (ControllerError e), a), s')
             | (Ran (Inr (res, None)), s') \<Rightarrow> (put_updated assignable res a, s')))))"

text \<open>The range over the map looks for one capability; an unknown operation ends it.\<close>

definition capability_handles :: "AdmissionAction \<Rightarrow> AdmissionCapabilities \<Rightarrow> bool" where
  "capability_handles action c \<longleftrightarrow>
     (SupportsAnyValidation c \<and> operation_supported (ad_Validation c) action) \<or>
     (SupportsAnyMutation c \<and> operation_supported (ad_Mutation c) action)"

definition Handles :: "appAdmission \<Rightarrow> string \<Rightarrow> bool" where
  "Handles ad op = (let action = admission_action op
     in action \<noteq> AdmissionActionNone \<and> (\<exists>key \<in> set (aa_keys ad). \<exists>c. aa_perKind ad key = Some c \<and> capability_handles action c))"

section \<open>Which capabilities the plugin finds\<close>

text \<open>A manifest that names each version once, and each kind once in a version.\<close>

definition well_versioned :: "ManifestData \<Rightarrow> bool" where
  "well_versioned md \<longleftrightarrow> distinct (map mv_Name (md_Versions md)) \<and>
     (\<forall>v \<in> set (md_Versions md). CHR ''/'' \<notin> set (mv_Name v) \<and> distinct (map vk_Kind (mv_Kinds v)))"

definition declared :: "ManifestData \<Rightarrow> gvk \<Rightarrow> AdmissionCapabilities \<Rightarrow> bool" where
  "declared md g c \<longleftrightarrow> (\<exists>v \<in> set (md_Versions md). \<exists>k \<in> set (mv_Kinds v).
     mv_Name v = gvk_Version g \<and> vk_Kind k = gvk_Kind g \<and> vk_Admission k = Some c)"

lemma operation_supported_any:
  "operation_supported (ad_Validation c) act \<Longrightarrow> SupportsAnyValidation c"
  "operation_supported (ad_Mutation c) act \<Longrightarrow> SupportsAnyMutation c"
  by (cases "ad_Validation c"; auto simp: operation_supported_def SupportsAnyValidation_def)
    (cases "ad_Mutation c"; auto simp: operation_supported_def SupportsAnyMutation_def)

lemma fold_capabilities:
  "aa_perKind (fold (\<lambda>(key, c) ad. \<lparr>aa_perKind = (aa_perKind ad)(key \<mapsto> c), aa_keys = List.insert key (aa_keys ad)\<rparr>) es ad) =
     aa_perKind ad ++ map_of (rev es)"
  "set (aa_keys (fold (\<lambda>(key, c) ad. \<lparr>aa_perKind = (aa_perKind ad)(key \<mapsto> c), aa_keys = List.insert key (aa_keys ad)\<rparr>) es ad)) =
     set (aa_keys ad) \<union> fst ` set es"
  by (induction es arbitrary: ad) (auto simp: map_add_def fun_eq_iff split: option.split)

lemma newAppAdmission_maps:
  "aa_perKind (newAppAdmission md) = map_of (rev (capability_entries md))"
  "set (aa_keys (newAppAdmission md)) = fst ` set (capability_entries md)"
  unfolding newAppAdmission_def fold_capabilities by (simp_all add: map_add_def fun_eq_iff split: option.split)

lemma entry_iff:
  "(key, c) \<in> set (capability_entries md) \<longleftrightarrow> (SupportsAnyValidation c \<or> SupportsAnyMutation c) \<and>
     (\<exists>v \<in> set (md_Versions md). \<exists>k \<in> set (mv_Kinds v). key = capability_key (mv_Name v) (vk_Kind k) \<and> vk_Admission k = Some c)"
  by (force simp: capability_entries_def map_filter_def split: option.splits if_splits)

lemma key_inject:
  "CHR ''/'' \<notin> set v \<Longrightarrow> CHR ''/'' \<notin> set v' \<Longrightarrow> capability_key v k = capability_key v' k' \<longleftrightarrow> v = v' \<and> k = k'"
  unfolding capability_key_def by (rule separated_inject)

lemma entries_unique:
  assumes "well_versioned md" "(key, c) \<in> set (capability_entries md)" "(key, c') \<in> set (capability_entries md)"
  shows "c = c'"
proof -
  obtain v k v' k' where a: "v \<in> set (md_Versions md)" "k \<in> set (mv_Kinds v)" "key = capability_key (mv_Name v) (vk_Kind k)"
    "vk_Admission k = Some c" "v' \<in> set (md_Versions md)" "k' \<in> set (mv_Kinds v')"
    "key = capability_key (mv_Name v') (vk_Kind k')" "vk_Admission k' = Some c'"
    using assms(2,3) unfolding entry_iff by blast
  have plain: "CHR ''/'' \<notin> set (mv_Name v)" "CHR ''/'' \<notin> set (mv_Name v')" using a(1,5) assms(1) by (auto simp: well_versioned_def)
  have "mv_Name v = mv_Name v'" "vk_Kind k = vk_Kind k'"
    using key_inject [OF plain, of "vk_Kind k" "vk_Kind k'"] a(3,7) by simp_all
  moreover have "v = v'" using calculation(1) a(1,5) assms(1) by (auto simp: well_versioned_def distinct_map inj_on_def)
  moreover have "k = k'" using calculation a(1,2,6) assms(1) by (auto simp: well_versioned_def distinct_map inj_on_def)
  ultimately show ?thesis using a by simp
qed

lemma found_entry:
  assumes "well_versioned md" "(key, c) \<in> set (capability_entries md)"
  shows "aa_perKind (newAppAdmission md) key = Some c"
  unfolding newAppAdmission_maps
  by (metis assms entries_unique map_of_SomeD set_rev weak_map_of_SomeI)

lemma info_of_declared:
  assumes md: "well_versioned md" and c: "declared md g c" "operation_supported (ad_Validation c) act \<or> operation_supported (ad_Mutation c) act"
  shows "getAdmissionInfo (newAppAdmission md) g = Some c"
    "admission_action op = act \<Longrightarrow> act \<noteq> AdmissionActionNone \<Longrightarrow> Handles (newAppAdmission md) op"
proof -
  have any: "SupportsAnyValidation c \<or> SupportsAnyMutation c" using c(2) operation_supported_any by blast
  then have entry: "(capability_key (gvk_Version g) (gvk_Kind g), c) \<in> set (capability_entries md)"
    using c(1) unfolding entry_iff declared_def by metis
  show info: "getAdmissionInfo (newAppAdmission md) g = Some c"
    unfolding getAdmissionInfo_def by (rule found_entry [OF md entry])
  assume op: "admission_action op = act" "act \<noteq> AdmissionActionNone"
  have "capability_key (gvk_Version g) (gvk_Kind g) \<in> set (aa_keys (newAppAdmission md))"
    unfolding newAppAdmission_maps using entry by force
  moreover have "capability_handles act c"
    using c(2) operation_supported_any by (auto simp: capability_handles_def)
  ultimately show "Handles (newAppAdmission md) op"
    using info op by (auto simp: Handles_def getAdmissionInfo_def)
qed

section \<open>The app's controllers decide\<close>

text \<open>What is to happen, read off the configuration of the app.\<close>

definition validator_verdict ::
  "(go_error + adm_error \<Rightarrow> bool) \<Rightarrow> ('o, 's) ValidatingAdmissionController option \<Rightarrow> 'o AdmissionRequest \<Rightarrow> 's \<Rightarrow>
   plugin_error plugin_answer ran \<times> 's" where
  "validator_verdict ni validator req s = (case validator of
     None \<Rightarrow> (Ran Allowed, s)
   | Some v \<Rightarrow> map_prod (map_ran (\<lambda>r. case r of None \<Rightarrow> Allowed | Some e \<Rightarrow> if ni (Inr e) then Allowed else Forbidden (ControllerError e)))
       id (v req s))"

text \<open>
  Of the mutator the answer and the attributes afterwards. What comes of its response depends on the object of the
  request and the object it returned, which are \<open>obj\<close> and the response's: with both, the object that goes on is the one
  returned; there is a panic when that is of another type, or when there is an object and no response at all.
\<close>

fun object_after :: "('o \<Rightarrow> 'o \<Rightarrow> bool) \<Rightarrow> 'o option \<Rightarrow> 'o option option \<Rightarrow> 'o option ran" where
  "object_after assignable None resp = Ran None"
| "object_after assignable (Some old) None = Panic"
| "object_after assignable (Some old) (Some None) = Ran (Some old)"
| "object_after assignable (Some old) (Some (Some new')) = (if assignable old new' then Ran (Some new') else Panic)"

definition mutator_verdict ::
  "(go_error + adm_error \<Rightarrow> bool) \<Rightarrow> ('o \<Rightarrow> 'o \<Rightarrow> bool) \<Rightarrow> ('o, 's) MutatingAdmissionController option \<Rightarrow> 'o AdmissionRequest \<Rightarrow>
   's \<Rightarrow> (plugin_error plugin_answer \<times> 'o option) ran \<times> 's" where
  "mutator_verdict ni assignable mutator req s = (case mutator of
     None \<Rightarrow> (Ran (Allowed, ar_Object req), s)
   | Some m \<Rightarrow> (case m req s of
       (Panic, s') \<Rightarrow> (Panic, s')
     | (Ran (resp, Some e), s') \<Rightarrow> (Ran (if ni (Inr e) then Allowed else Forbidden (ControllerError e), ar_Object req), s')
     | (Ran (resp, None), s') \<Rightarrow> (map_ran (Pair Allowed) (object_after assignable (ar_Object req) resp), s')))"

text \<open>The attributes of a request of the server, and the request that the app's controllers are to see.\<close>

definition server_request ::
  "schema \<Rightarrow> AdmissionAction \<Rightarrow> 'o option \<Rightarrow> 'o option \<Rightarrow> AdmissionUserInfo option \<Rightarrow> 'o attributes" where
  "server_request sch act obj old user = \<lparr>at_Kind = kind_gvk sch, at_Operation = action_name act,
     at_Object = map_option ResourceObject obj, at_OldObject = map_option ResourceObject old, at_UserInfo = user\<rparr>"

definition app_request ::
  "schema \<Rightarrow> AdmissionAction \<Rightarrow> 'o option \<Rightarrow> 'o option \<Rightarrow> AdmissionUserInfo option \<Rightarrow> 'o AdmissionRequest" where
  "app_request sch act obj old user = \<lparr>ar_Action = act, ar_Kind = sch_Kind sch, ar_Group = sch_Group sch,
     ar_Version = sch_Version sch,
     ar_UserInfo = (case user of None \<Rightarrow> \<lparr>ui_Username = [], ui_UID = [], ui_Groups = []\<rparr> | Some u \<Rightarrow> u), ar_Object = obj, ar_OldObject = old\<rparr>"

lemma translate_server_request:
  "act \<noteq> AdmissionActionNone \<Longrightarrow>
     translateAdmissionAttributes (server_request sch act obj old user) = Inr (app_request sch act obj old user)"
  by (cases act; cases obj; cases old; cases user)
    (simp_all add: translateAdmissionAttributes_def server_request_def app_request_def admission_action_def kind_gvk_def Let_def no_user_def)

lemma put_updated_after:
  "put_updated assignable resp (server_request sch act obj old user) =
     map_ran (\<lambda>new'. (Allowed, server_request sch act new' old user)) (object_after assignable obj resp)"
  by (cases "(assignable, obj, resp)" rule: object_after.cases) (simp_all add: put_updated_def server_request_def)

lemma managed_kind_found:
  assumes "NewApp E cfg = Inr (app, p)" "well_named cfg" "k \<in> set (ac_ManagedKinds cfg)" "k_Schema (mk_Kind k) = Some sch"
  shows "ap_kinds app (gvk_key (sch_Group sch) (sch_Version sch) (sch_Kind sch)) = Some k"
proof -
  have d: "distinct (map kind_key (ac_ManagedKinds cfg))" "distinct (map kind_plural_key (ac_ManagedKinds cfg))"
    using assms(2) by (auto simp: well_named_def)
  have "kind_key k = gvk_key (sch_Group sch) (sch_Version sch) (sch_Kind sch)" using assms(4) by (simp add: kind_key_def)
  then show ?thesis unfolding NewApp_tables(1) [OF assms(1) d] using assms(3) d(1)
    by (metis (no_types, lifting) image_eqI list.set_map map_of_is_SomeI map_map o_def fst_conv map_cong)
qed

text \<open>
  C35. In an API server, what an app's manifest declares is enforced by the app's own controllers: for a managed kind
  whose version and name the manifest lists once, the plugin handles every operation the kind declares; a request with
  such an operation goes, with its objects, operation, user and full kind, to the validator that the app was configured
  with, and is let through exactly when that accepts it or says it is not implemented; and to the configured mutator, and
  what goes on then is the same request with the object that the mutator returned in the place of its own.
\<close>

theorem manifest_admission_enforced:
  assumes app: "NewApp E cfg = Inr (app, p)" "well_named cfg" "k \<in> set (ac_ManagedKinds cfg)" "k_Schema (mk_Kind k) = Some sch"
    and manifest: "well_versioned md" "declared md (kind_gvk sch) c"
    and act: "act \<noteq> AdmissionActionNone"
    and ni: "ni (Inl ErrNotImplemented)"
  shows "(operation_supported (ad_Validation c) act \<longrightarrow>
      Handles (newAppAdmission md) (action_name act) \<and>
      plugin_Validate ni (newAppAdmission md) (Some (simple_app app)) (server_request sch act obj old user) s =
        validator_verdict ni (mk_Validator k) (app_request sch act obj old user) s) \<and>
    (operation_supported (ad_Mutation c) act \<longrightarrow>
      Handles (newAppAdmission md) (action_name act) \<and>
      plugin_Admit ni assignable (newAppAdmission md) (Some (simple_app app)) (server_request sch act obj old user) s =
        map_prod (map_ran (\<lambda>(r, obj'). (r, server_request sch act obj' old user))) id
          (mutator_verdict ni assignable (mk_Mutator k) (app_request sch act obj old user) s))"
proof -
  let ?a = "server_request sch act obj old user" and ?req = "app_request sch act obj old user"
  note t = translate_server_request [OF act, of sch obj old user]
  have a: "at_Kind ?a = kind_gvk sch" "ar_Action ?req = act" by (simp_all add: server_request_def app_request_def)
  have found: "ap_kinds app (gvk_key (ar_Group ?req) (ar_Version ?req) (ar_Kind ?req)) = Some k"
    using managed_kind_found [OF app] by (simp add: app_request_def)
  have name: "admission_action (action_name act) = act" using act by (cases act) (simp_all add: admission_action_def)
  have info: "getAdmissionInfo (newAppAdmission md) (kind_gvk sch) = Some c" "Handles (newAppAdmission md) (action_name act)"
    if "operation_supported (ad_Validation c) act \<or> operation_supported (ad_Mutation c) act"
    using info_of_declared [OF manifest that] name act by simp_all
  have validate: "plugin_Validate ni (newAppAdmission md) (Some (simple_app app)) ?a s = validator_verdict ni (mk_Validator k) ?req s"
    if v: "operation_supported (ad_Validation c) act"
  proof (cases "mk_Validator k")
    case None
    then show ?thesis using info v operation_supported_any(1) [OF v] t a ni
      by (simp add: plugin_Validate_def simple_app_def App_Validate_def found validator_verdict_def)
  next
    case (Some val)
    obtain r s' where r: "val ?req s = (r, s')" by fastforce
    show ?thesis using info v operation_supported_any(1) [OF v] t a Some r
      by (cases r) (simp_all add: plugin_Validate_def simple_app_def App_Validate_def found validator_verdict_def split: option.split)
  qed
  have obj: "ar_Object ?req = obj" by (simp add: app_request_def)
  have admit: "plugin_Admit ni assignable (newAppAdmission md) (Some (simple_app app)) ?a s =
      map_prod (map_ran (\<lambda>(r, obj'). (r, server_request sch act obj' old user))) id
        (mutator_verdict ni assignable (mk_Mutator k) ?req s)" if m: "operation_supported (ad_Mutation c) act"
  proof (cases "mk_Mutator k")
    case None
    then show ?thesis using info m operation_supported_any(2) [OF m] t a ni
      by (simp add: plugin_Admit_def simple_app_def App_Mutate_def found mutator_verdict_def obj)
  next
    case (Some mut)
    obtain r s' where r: "mut ?req s = (r, s')" by fastforce
    show ?thesis using info m operation_supported_any(2) [OF m] t a ni Some r
      by (cases r) (auto simp: plugin_Admit_def simple_app_def App_Mutate_def found mutator_verdict_def put_updated_after obj
          ran.map_comp comp_def split: option.split)
  qed
  show ?thesis using info validate admit by blast
qed

text \<open>A kind that declares nothing for an operation is let through without a call of the app.\<close>

lemma undeclared_not_called:
  assumes "getAdmissionInfo ad (at_Kind a) = None"
  shows "plugin_Validate ni ad (Some app) a s = (Ran Allowed, s)" "plugin_Admit ni as ad (Some app) a s = (Ran (Allowed, a), s)"
  using assms by (simp_all add: plugin_Validate_def plugin_Admit_def)

text \<open>
  Before the app is initialized every request that reaches the plugin is denied, whatever its kind: also the
  kinds of other groups and those without any declared capability.
\<close>

lemma uninitialized_denies_everything:
  "plugin_Validate ni ad None a s = (Ran (Forbidden AppNotInitialized), s)"
  "plugin_Admit ni as ad None a s = (Ran (Forbidden AppNotInitialized, a), s)"
  by (simp_all add: plugin_Validate_def plugin_Admit_def)

text \<open>The group of a kind is not looked at: a kind of another group with the same version and name goes to the app.\<close>

lemma admission_ignores_group: "getAdmissionInfo ad (g\<lparr>gvk_Group := h\<rparr>) = getAdmissionInfo ad g"
  by (simp add: getAdmissionInfo_def)

text \<open>A mutator that returns neither a response nor an error makes the plugin panic, except for deletes.\<close>

lemma nil_response_panics:
  assumes "mutator req s = (Ran (None, None), s')" "ar_Object req = Some ob"
  shows "mutator_verdict ni as (Some mutator) req s = (Panic, s')"
  using assms by (simp add: mutator_verdict_def)

section \<open>An app with a validator\<close>

definition only_creates :: "(unit, nat) ValidatingAdmissionController" where
  "only_creates req s = (Ran (if ar_Action req = AdmissionActionCreate then None else Some (PlainError ''no'')), Suc s)"

definition validated_config :: "(DynamicPatcher \<times> time, unit, nat) AppConfig" where
  "validated_config = sample_app_config\<lparr>ac_ManagedKinds := [sample_managed\<lparr>mk_Validator := Some only_creates\<rparr>]\<rparr>"

definition any_operation :: AdmissionCapabilities where
  "any_operation = \<lparr>ad_Validation = Some [''*''], ad_Mutation = None\<rparr>"

definition validated_manifest :: ManifestData where
  "validated_manifest = \<lparr>md_AppName = ''app'', md_AppDisplayName = [], md_Group = ''g'', md_Versions = [
     \<lparr>mv_Name = ''v1'', mv_Served = True, mv_Kinds = [
        \<lparr>vk_Kind = ''Foo'', vk_Plural = ''foos'', vk_Scope = ''Namespaced'', vk_Admission = Some any_operation, vk_Schema = None,
         vk_SelectableFields = [], vk_Routes = None, vk_Conversion = False, vk_AdditionalPrinterColumns = None\<rparr>],
      mv_Namespaced = [], mv_Cluster = [], mv_Schemas = []\<rparr>],
     md_PreferredVersion = ''v1'', md_ExtraPermissions = None, md_Operator = None, md_Roles = None, md_RoleBindings = None\<rparr>"

lemma validated_app: "\<exists>a p. NewApp sample_app_env validated_config = Inr (a, p)"
  by (simp add: NewApp_def Let_def validated_config_def sample_app_config_def sample_app_env_def sample_managed_def sample_kind_def
      manageKind_def empty_app_def NewDynamicPatcher_def kind_gvk_def customRouteHandlerKey_def route_path_def NamespacedScope_def)

text \<open>An app that refuses changes by others than the admin, and writes the name of the user into every object.\<close>

definition admin_only :: "(string, nat) ValidatingAdmissionController" where
  "admin_only req s = (Ran (if ui_Username (ar_UserInfo req) = ''admin'' then None
     else Some (PlainError (''not '' @ the (ar_Object req)))), Suc s)"

definition signing :: "(string, nat) MutatingAdmissionController" where
  "signing req s = (Ran (Some (map_option (\<lambda>ob. ob @ '' by '' @ ui_Username (ar_UserInfo req)) (ar_Object req)), None), Suc s)"

definition signed_kind :: "(DynamicPatcher \<times> time, string, nat) AppManagedKind" where
  "signed_kind = \<lparr>mk_Kind = sample_kind, mk_Reconciler = None, mk_Watcher = None, mk_Validator = Some admin_only,
     mk_Mutator = Some signing, mk_CustomRoutes = [],
     mk_ReconcileOptions = \<lparr>ko_Namespace = [], ko_LabelFilters = [], ko_FieldSelectors = []\<rparr>, mk_UsePlain = False\<rparr>"

definition signed_config :: "(DynamicPatcher \<times> time, string, nat) AppConfig" where
  "signed_config = \<lparr>ac_Name = ''app'', ac_ErrorHandler = None, ac_InformerOptions = no_options, ac_RetryPolicy = None,
     ac_RetryDequeuePolicy = None, ac_FinalizerSupplier = None, ac_InProgressFinalizerSupplier = None, ac_InformerSupplier = None,
     ac_ManagedKinds = [signed_kind], ac_UnmanagedKinds = [], ac_Converters = [], ac_VersionedCustomRoutes = [],
     ac_DiscoveryRefreshInterval = 0\<rparr>"

lemma signed_app: "\<exists>a p. NewApp sample_app_env signed_config = Inr (a, p)"
  by (simp add: NewApp_def Let_def signed_config_def sample_app_env_def signed_kind_def sample_kind_def
      manageKind_def empty_app_def NewDynamicPatcher_def kind_gvk_def customRouteHandlerKey_def route_path_def NamespacedScope_def)

definition updates_only :: AdmissionCapabilities where
  "updates_only = \<lparr>ad_Validation = Some [''UPDATE''], ad_Mutation = Some [''CREATE'', ''UPDATE'']\<rparr>"

definition signed_manifest :: ManifestData where
  "signed_manifest = validated_manifest\<lparr>md_Versions := map (\<lambda>v. v\<lparr>mv_Kinds := map (\<lambda>k. k\<lparr>vk_Admission := Some updates_only\<rparr>)
     (mv_Kinds v)\<rparr>) (md_Versions validated_manifest)\<rparr>"

definition foo_schema :: schema where
  "foo_schema = \<lparr>sch_Group = ''g'', sch_Version = ''v1'', sch_Kind = ''Foo'', sch_Plural = ''foos''\<rparr>"

definition bob :: AdmissionUserInfo where
  "bob = \<lparr>ui_Username = ''bob'', ui_UID = [], ui_Groups = []\<rparr>"

theorem manifest_admission_enforced_witness:
  "\<exists>a p. NewApp sample_app_env signed_config = Inr (a, p) \<and>
     Handles (newAppAdmission signed_manifest) ''UPDATE'' \<and>
     plugin_Validate (\<lambda>e. e = Inl ErrNotImplemented) (newAppAdmission signed_manifest) (Some (simple_app a))
         (server_request foo_schema AdmissionActionUpdate (Some ''new'') (Some ''old'') (Some bob)) 0 =
       (Ran (Forbidden (ControllerError (PlainError ''not new''))), 1) \<and>
     plugin_Admit (\<lambda>e. e = Inl ErrNotImplemented) (\<lambda>x y. True) (newAppAdmission signed_manifest) (Some (simple_app a))
         (server_request foo_schema AdmissionActionUpdate (Some ''new'') (Some ''old'') (Some bob)) 0 =
       (Ran (Allowed, server_request foo_schema AdmissionActionUpdate (Some ''new by bob'') (Some ''old'') (Some bob)), 1)"
proof -
  obtain a p where a: "NewApp sample_app_env signed_config = Inr (a, p)" using signed_app by blast
  have cfg: "well_named signed_config"
    by (simp add: well_named_def signed_config_def signed_kind_def sample_kind_def kind_well_named_def plain_def no_bar_def)
  have k: "signed_kind \<in> set (ac_ManagedKinds signed_config)" "k_Schema (mk_Kind signed_kind) = Some foo_schema"
    by (simp_all add: signed_config_def signed_kind_def sample_kind_def foo_schema_def)
  have md: "well_versioned signed_manifest" "declared signed_manifest (kind_gvk foo_schema) updates_only"
    by (simp_all add: well_versioned_def declared_def signed_manifest_def validated_manifest_def kind_gvk_def foo_schema_def)
  have ops: "operation_supported (ad_Validation updates_only) AdmissionActionUpdate"
    "operation_supported (ad_Mutation updates_only) AdmissionActionUpdate"
    by (simp_all add: operation_supported_def updates_only_def)
  have verdicts: "validator_verdict (\<lambda>e. e = Inl ErrNotImplemented) (mk_Validator signed_kind)
      (app_request foo_schema AdmissionActionUpdate (Some ''new'') (Some ''old'') (Some bob)) 0 =
        (Ran (Forbidden (ControllerError (PlainError ''not new''))), 1)"
    "mutator_verdict (\<lambda>e. e = Inl ErrNotImplemented) (\<lambda>x y. True) (mk_Mutator signed_kind)
      (app_request foo_schema AdmissionActionUpdate (Some ''new'') (Some ''old'') (Some bob)) 0 = (Ran (Allowed, Some ''new by bob''), 1)"
    by (simp_all add: validator_verdict_def mutator_verdict_def signed_kind_def admin_only_def signing_def app_request_def bob_def)
  show ?thesis
    using a ops verdicts manifest_admission_enforced [OF a cfg k md, of AdmissionActionUpdate "\<lambda>e. e = Inl ErrNotImplemented"
        "Some ''new''" "Some ''old''" "Some bob" 0 "\<lambda>x y. True"]
    by (intro exI [of _ a] exI [of _ p]) simp
qed

end
