(* ===== verification/API_Installer.thy ===== *)
theory API_Installer
  imports API_Admission "HOL-Library.Multiset" "HOL-Library.List_Lexorder" "HOL-Library.Char_ord"
begin

text \<open>
  Installing an app on a Kubernetes API server, \<^verbatim>\<open>k8s/apiserver/installer.go\<close>: what is registered with the scheme,
  what is stored and served for each kind and version, the custom routes, and when the app can be used.

  Scheme, registry and web services are third-party. The scheme is the list of what was registered with it, in
  order, and a parameter tells which registration it refuses; the other parameters are named where they appear.
  Ranges over Go maps visit the entries in an order of their own: \<open>ord\<close> arguments permute the entries.
\<close>

section \<open>The installer\<close>

text \<open>A Go type is known by its name, a kind by what the resolver gives for it.\<close>

record 't go_kind =
  gk_Schema :: schema
  gk_Scope :: string
  gk_Zero :: 't
  gk_ZeroList :: 't
  gk_Subresources :: "string list"

text \<open>\<^verbatim>\<open>GoTypeResolver\<close>: by kind and version, and for routes also by path and method.\<close>

record 't GoTypeResolver =
  gt_KindToGoType :: "string \<Rightarrow> string \<Rightarrow> 't go_kind option"
  gt_ReturnGoType :: "string \<Rightarrow> string \<Rightarrow> string \<Rightarrow> string \<Rightarrow> 't option"
  gt_QueryGoType :: "string \<Rightarrow> string \<Rightarrow> string \<Rightarrow> string \<Rightarrow> 't option"
  gt_RequestBodyGoType :: "string \<Rightarrow> string \<Rightarrow> string \<Rightarrow> string \<Rightarrow> 't option"

text \<open>\<open>pv_NewApp\<close> makes the app of a Kubernetes configuration, the specific configuration and the manifest.\<close>

record ('a, 'c, 'k) Provider =
  pv_ManifestData :: "ManifestData option"
  pv_SpecificConfig :: "'c option"
  pv_NewApp :: "'k \<Rightarrow> 'c option \<Rightarrow> ManifestData \<Rightarrow> go_error + 'a"

datatype 't registration =
    KnownType gvk 't
  | KnownTypes string string 't
  | MetaTypes string string
  | FieldLabels gvk
  | UnversionedCallOptions string string
  | CallOptionsConversion
  | Conversion 't gvk 't gvk
  | VersionPriority string "string list"

record ('t, 'a, 'c, 'k) installer =
  in_provider :: "('a, 'c, 'k) Provider"
  in_manifest :: ManifestData
  in_specific :: "'c option"
  in_resolver :: "'t GoTypeResolver"
  in_resourceConfig :: "(string \<Rightarrow> string \<Rightarrow> string \<Rightarrow> bool) option"
  in_app :: "'a option"
  in_scheme :: "'t registration list option"

definition NewDefaultAppInstaller ::
  "('a, 'c, 'k) Provider \<Rightarrow> ManifestData \<Rightarrow> 'c option \<Rightarrow> 't GoTypeResolver \<Rightarrow> ('t, 'a, 'c, 'k) installer" where
  "NewDefaultAppInstaller provider manifest specific resolver =
     \<lparr>in_provider = provider,
      in_manifest = (if IsEmpty manifest then (case pv_ManifestData provider of Some m \<Rightarrow> m | None \<Rightarrow> manifest) else manifest),
      in_specific = (case specific of None \<Rightarrow> pv_SpecificConfig provider | Some c \<Rightarrow> Some c),
      in_resolver = resolver, in_resourceConfig = None, in_app = None, in_scheme = None\<rparr>"

definition SetResourceConfig ::
  "(string \<Rightarrow> string \<Rightarrow> string \<Rightarrow> bool) option \<Rightarrow> ('t, 'a, 'c, 'k) installer \<Rightarrow> ('t, 'a, 'c, 'k) installer" where
  "SetResourceConfig rc I = I\<lparr>in_resourceConfig := rc\<rparr>"

definition ErrAppNotInitialized :: go_error where
  "ErrAppNotInitialized = GoErr ''app not initialized''"

definition ErrAppAlreadyInitialized :: go_error where
  "ErrAppAlreadyInitialized = GoErr ''app already initialized''"

definition InitializeApp ::
  "'k \<Rightarrow> ('t, 'a, 'c, 'k) installer \<Rightarrow> go_error option \<times> ('t, 'a, 'c, 'k) installer" where
  "InitializeApp cfg I = (case in_app I of
     Some a \<Rightarrow> (Some ErrAppAlreadyInitialized, I)
   | None \<Rightarrow> (case pv_NewApp (in_provider I) cfg (in_specific I) (in_manifest I) of
       Inl e \<Rightarrow> (Some e, I)
     | Inr a \<Rightarrow> (None, I\<lparr>in_app := Some a\<rparr>)))"

definition installer_App :: "('t, 'a, 'c, 'k) installer \<Rightarrow> go_error + 'a" where
  "installer_App I = (case in_app I of None \<Rightarrow> Inl ErrAppNotInitialized | Some a \<Rightarrow> Inr a)"

definition GroupVersions :: "('t, 'a, 'c, 'k) installer \<Rightarrow> (string \<times> string) list" where
  "GroupVersions I = map (\<lambda>v. (md_Group (in_manifest I), mv_Name v)) (md_Versions (in_manifest I))"

text \<open>The admission plugin, if any kind declares something. Its app is looked up at each call.\<close>

definition AdmissionPlugin :: "('t, 'a, 'c, 'k) installer \<Rightarrow> appAdmission option" where
  "AdmissionPlugin I =
     (let ks = concat (map mv_Kinds (md_Versions (in_manifest I)));
          supportsMutation = (\<exists>k \<in> set ks. \<exists>c. vk_Admission k = Some c \<and> SupportsAnyMutation c);
          supportsValidation = (\<exists>k \<in> set ks. \<exists>c. vk_Admission k = Some c \<and> SupportsAnyValidation c)
      in if supportsMutation \<or> supportsValidation then Some (newAppAdmission (in_manifest I)) else None)"

section \<open>Kinds by version\<close>

text \<open>A map by group version: the group is the manifest's, so that the version is the key.\<close>

type_synonym 't kinds_by_version = "(string \<times> ('t go_kind \<times> ManifestVersionKind) list) list"

fun append_kind :: "string \<Rightarrow> 't go_kind \<times> ManifestVersionKind \<Rightarrow> 't kinds_by_version \<Rightarrow> 't kinds_by_version" where
  "append_kind v k [] = [(v, [k])]"
| "append_kind v k ((v', ks) # out) = (if v' = v then (v', ks @ [k]) # out else (v', ks) # append_kind v k out)"

fun resolve_kinds ::
  "'t GoTypeResolver \<Rightarrow> (string \<times> ManifestVersionKind) list \<Rightarrow> 't kinds_by_version \<Rightarrow> go_error + 't kinds_by_version" where
  "resolve_kinds R [] out = Inr out"
| "resolve_kinds R ((v, k) # ks) out = (case gt_KindToGoType R (vk_Kind k) v of
     None \<Rightarrow> Inl (GoErr (''failed to resolve kind '' @ vk_Kind k))
   | Some g \<Rightarrow> resolve_kinds R ks (append_kind v (g, k) out))"

definition manifest_kinds :: "ManifestData \<Rightarrow> (string \<times> ManifestVersionKind) list" where
  "manifest_kinds m = concat (map (\<lambda>v. map (Pair (mv_Name v)) (mv_Kinds v)) (md_Versions m))"

definition getKindsByGroupVersion :: "('t, 'a, 'c, 'k) installer \<Rightarrow> go_error + 't kinds_by_version" where
  "getKindsByGroupVersion I = resolve_kinds (in_resolver I) (manifest_kinds (in_manifest I)) []"

section \<open>The scheme\<close>

text \<open>
  The error of a registration that the scheme refuses. Only these four kinds return errors; a type that clashes with
  a registered one panics in the scheme, which the model leaves out.
\<close>

fun registration_error :: "'t registration \<Rightarrow> go_error \<Rightarrow> go_error option" where
  "registration_error (FieldLabels g) e = Some e"
| "registration_error CallOptionsConversion e = Some (Wrapped ''could not add conversion func for ResourceCallOptions'' e)"
| "registration_error (Conversion t g t' g') e = Some (Wrapped (''could not add conversion func for kind '' @ gvk_Kind g) e)"
| "registration_error (VersionPriority gr vs) e = Some (Wrapped ''failed to set version priority'' e)"
| "registration_error r e = None"

text \<open>Registrations are made one after the other until one is refused; the ones made before it stay.\<close>

fun registered ::
  "('t registration \<Rightarrow> go_error option) \<Rightarrow> 't registration list \<Rightarrow> 't registration list \<Rightarrow> go_error option \<times> 't registration list" where
  "registered refused [] scheme = (None, scheme)"
| "registered refused (r # rs) scheme = (case Option.bind (refused r) (registration_error r) of
     Some e \<Rightarrow> (Some e, scheme)
   | None \<Rightarrow> registered refused rs (scheme @ [r]))"

definition kind_gvk_of :: "'t go_kind \<Rightarrow> gvk" where
  "kind_gvk_of g = kind_gvk (gk_Schema g)"

definition list_gvk :: "string \<Rightarrow> string \<Rightarrow> 't go_kind \<Rightarrow> gvk" where
  "list_gvk group' version g = \<lparr>gvk_Group = group', gvk_Version = version, gvk_Kind = sch_Kind (gk_Schema g) @ ''List''\<rparr>"

text \<open>The types of query parameters are registered for routes that have a GET operation: \<open>has_get\<close>.\<close>

definition kind_registrations ::
  "(json \<Rightarrow> bool) \<Rightarrow> 't GoTypeResolver \<Rightarrow> string \<Rightarrow> string \<Rightarrow> 't go_kind \<times> ManifestVersionKind \<Rightarrow> 't registration list" where
  "kind_registrations has_get R group' version = (\<lambda>(g, k).
     [KnownType (kind_gvk_of g) (gk_Zero g), KnownType (list_gvk group' version g) (gk_ZeroList g),
      MetaTypes (sch_Group (gk_Schema g)) (sch_Version (gk_Schema g))] @
     List.map_filter (\<lambda>(cpath, props). if has_get props
        then map_option (KnownTypes group' version) (gt_QueryGoType R (sch_Kind (gk_Schema g)) version cpath ''GET'') else None)
       (Prelude.slice (vk_Routes k)) @
     [FieldLabels (kind_gvk_of g)])"

definition version_registrations ::
  "(json \<Rightarrow> bool) \<Rightarrow> 't GoTypeResolver \<Rightarrow> string \<Rightarrow> string \<times> ('t go_kind \<times> ManifestVersionKind) list \<Rightarrow> 't registration list" where
  "version_registrations has_get R group' = (\<lambda>(version, ks).
     concat (map (kind_registrations has_get R group' version) ks) @ [UnversionedCallOptions group' version, CallOptionsConversion])"

text \<open>The type that stands for a kind inside the server: the preferred version's, if the kind is in it.\<close>

definition internal_kinds ::
  "string \<Rightarrow> (string \<times> 't go_kind) list \<Rightarrow> (string \<rightharpoonup> 't go_kind)" where
  "internal_kinds preferred gs = fold (\<lambda>(version, g) m.
     if m (sch_Kind (gk_Schema g)) = None \<or> preferred = version then m(sch_Kind (gk_Schema g) \<mapsto> g) else m) gs Map.empty"

definition visited_kinds :: "'t kinds_by_version \<Rightarrow> (string \<times> 't go_kind) list" where
  "visited_kinds kbv = concat (map (\<lambda>(version, ks). map (\<lambda>(g, k). (version, g)) ks) kbv)"

definition internal_registrations :: "string \<Rightarrow> (string \<times> 't go_kind) list \<Rightarrow> 't go_kind \<Rightarrow> 't registration list" where
  "internal_registrations group' gs i =
     [KnownType \<lparr>gvk_Group = group', gvk_Version = ''__internal'', gvk_Kind = sch_Kind (gk_Schema i)\<rparr> (gk_Zero i),
      KnownType \<lparr>gvk_Group = group', gvk_Version = ''__internal'', gvk_Kind = sch_Kind (gk_Schema i) @ ''List''\<rparr> (gk_ZeroList i)] @
     concat (map (\<lambda>(version, g). [Conversion (gk_Zero g) (kind_gvk_of g) (gk_Zero i) (kind_gvk_of i),
          Conversion (gk_Zero i) (kind_gvk_of i) (gk_Zero g) (kind_gvk_of g)])
       (filter (\<lambda>(version, g). sch_Group (gk_Schema g) = sch_Group (gk_Schema i) \<and> sch_Kind (gk_Schema g) = sch_Kind (gk_Schema i)) gs))"

text \<open>
  The order of the versions: the preferred one first, then by \<open>cmp\<close>, Kubernetes' comparison of version names, in
  descending order. Sorting with \<^verbatim>\<open>sort.Slice\<close> is by insertion here; the order of distinct versions does not depend on it.
\<close>

definition version_less :: "(string \<Rightarrow> string \<Rightarrow> int) \<Rightarrow> string \<Rightarrow> string \<Rightarrow> string \<Rightarrow> bool" where
  "version_less cmp preferred v w =
     (if v = preferred then True else if w = preferred then False else 0 < cmp v w)"

fun insert_version :: "(string \<Rightarrow> string \<Rightarrow> bool) \<Rightarrow> string \<Rightarrow> string list \<Rightarrow> string list" where
  "insert_version lt v [] = [v]"
| "insert_version lt v (w # ws) = (if lt v w then v # w # ws else w # insert_version lt v ws)"

definition sort_versions :: "(string \<Rightarrow> string \<Rightarrow> bool) \<Rightarrow> string list \<Rightarrow> string list" where
  "sort_versions lt vs = foldr (insert_version lt) vs []"

text \<open>The versions without kinds, in the manifest's order.\<close>

definition empty_versions :: "ManifestData \<Rightarrow> 't kinds_by_version \<Rightarrow> string list" where
  "empty_versions m kbv = filter (\<lambda>v. v \<notin> fst ` set kbv) (map mv_Name (md_Versions m))"

definition none_type :: "string \<Rightarrow> string \<Rightarrow> gvk" where
  "none_type group' version = \<lparr>gvk_Group = group', gvk_Version = version, gvk_Kind = ''none''\<rparr>"

definition scheme_registrations ::
  "(json \<Rightarrow> bool) \<Rightarrow> (string \<Rightarrow> string \<Rightarrow> int) \<Rightarrow> 't \<Rightarrow> ManifestData \<Rightarrow> 't GoTypeResolver \<Rightarrow> 't kinds_by_version \<Rightarrow> string list \<Rightarrow>
   't registration list" where
  "scheme_registrations has_get cmp untyped m R kbv internal_order =
     (let group' = md_Group m; gs = visited_kinds kbv; internal = internal_kinds (md_PreferredVersion m) gs;
          versions = map fst kbv @ empty_versions m kbv
      in concat (map (version_registrations has_get R group') kbv) @
         map (\<lambda>v. KnownType (none_type group' v) untyped) (empty_versions m kbv) @
         concat (map (\<lambda>kind. case internal kind of None \<Rightarrow> [] | Some i \<Rightarrow> internal_registrations group' gs i) internal_order) @
         (if versions = [] then [] else [VersionPriority group' (sort_versions (version_less cmp (md_PreferredVersion m)) versions)]))"

text \<open>
  The internal kinds are visited in the order \<open>internal_order\<close>, a list of their names without repetitions. A nil
  scheme is \<open>None\<close>. The first scheme is kept. Returned are the error, the scheme as it is left, and the installer.
\<close>

definition AddToScheme ::
  "('t registration \<Rightarrow> go_error option) \<Rightarrow> (json \<Rightarrow> bool) \<Rightarrow> (string \<Rightarrow> string \<Rightarrow> int) \<Rightarrow> 't \<Rightarrow>
   ('t kinds_by_version \<Rightarrow> 't kinds_by_version) \<Rightarrow> (string list \<Rightarrow> string list) \<Rightarrow> 't registration list option \<Rightarrow>
   ('t, 'a, 'c, 'k) installer \<Rightarrow> go_error option \<times> 't registration list option \<times> ('t, 'a, 'c, 'k) installer" where
  "AddToScheme refused has_get cmp untyped ord kind_ord scheme I = (case scheme of
     None \<Rightarrow> (Some (GoErr ''scheme cannot be nil''), None, I)
   | Some sch \<Rightarrow> (case getKindsByGroupVersion I of
       Inl e \<Rightarrow> (Some (Wrapped ''failed to get kinds by group version'' e), Some sch, I)
     | Inr kbv \<Rightarrow>
         (let names = kind_ord (remdups (map (\<lambda>(v, g). sch_Kind (gk_Schema g)) (visited_kinds (ord kbv))))
          in case registered refused (scheme_registrations has_get cmp untyped (in_manifest I) (in_resolver I) (ord kbv) names) sch of
               (Some e, sch') \<Rightarrow> (Some e, Some sch', I)
             | (None, sch') \<Rightarrow> (None, Some sch', if in_scheme I = None then I\<lparr>in_scheme := Some sch'\<rparr> else I))))"

section \<open>What the scheme holds\<close>

definition flat_kinds :: "'t kinds_by_version \<Rightarrow> (string \<times> 't go_kind \<times> ManifestVersionKind) list" where
  "flat_kinds kbv = concat (map (\<lambda>(v, ks). map (Pair v) ks) kbv)"

lemma append_kind_set:
  "set (flat_kinds (append_kind v k kbv)) = insert (v, k) (set (flat_kinds kbv))"
  "fst ` set (append_kind v k kbv) = insert v (fst ` set kbv)"
  "distinct (map fst kbv) \<Longrightarrow> distinct (map fst (append_kind v k kbv))"
  by (induction v k kbv rule: append_kind.induct) (auto simp: flat_kinds_def image_iff)

lemma resolve_kinds_set:
  assumes "resolve_kinds R ks out = Inr kbv"
  shows "set (flat_kinds kbv) = set (flat_kinds out) \<union> {(v, g, k) | v g k. (v, k) \<in> set ks \<and> gt_KindToGoType R (vk_Kind k) v = Some g}"
    "fst ` set kbv = fst ` set out \<union> fst ` set ks"
    "\<forall>(v, k) \<in> set ks. gt_KindToGoType R (vk_Kind k) v \<noteq> None"
    "distinct (map fst out) \<Longrightarrow> distinct (map fst kbv)"
  using assms
proof (induction R ks out rule: resolve_kinds.induct)
  case (2 R v k ks out)
  {
    case 1
    with 2 show ?case by (auto simp: append_kind_set split: option.splits)
  next
    case 2
    with "2.IH" show ?case by (auto simp: append_kind_set split: option.splits)
  next
    case 3
    with "2.IH" show ?case by (auto split: option.splits)
  next
    case 4
    with "2.IH" show ?case by (auto simp: append_kind_set split: option.splits)
  }
qed simp_all

lemma registered_set: "registered refused rs scheme = (None, scheme') \<Longrightarrow> scheme' = scheme @ rs"
  by (induction refused rs scheme rule: registered.induct) (auto split: option.splits)

lemma internal_kinds_snoc:
  "internal_kinds preferred (gs @ [(w, h)]) = (if internal_kinds preferred gs (sch_Kind (gk_Schema h)) = None \<or> preferred = w
     then (internal_kinds preferred gs)(sch_Kind (gk_Schema h) \<mapsto> h) else internal_kinds preferred gs)"
  by (simp add: internal_kinds_def)

lemma internal_kinds_None: "internal_kinds preferred gs kind = None \<longleftrightarrow> (\<forall>(v, g) \<in> set gs. sch_Kind (gk_Schema g) \<noteq> kind)"
proof (induction gs rule: rev_induct)
  case (snoc x gs)
  then show ?case by (cases x) (auto simp: internal_kinds_snoc split: if_splits)
qed (simp add: internal_kinds_def)

lemma internal_kinds_Some:
  "internal_kinds preferred gs kind = Some i \<Longrightarrow> \<exists>v. (v, i) \<in> set gs \<and> sch_Kind (gk_Schema i) = kind \<and>
     ((\<exists>g. (preferred, g) \<in> set gs \<and> sch_Kind (gk_Schema g) = kind) \<longrightarrow> v = preferred)"
proof (induction gs rule: rev_induct)
  case Nil
  then show ?case by (simp add: internal_kinds_def)
next
  case (snoc x gs)
  obtain w h where x: "x = (w, h)" by fastforce
  show ?case
  proof (cases "kind = sch_Kind (gk_Schema h) \<and> (internal_kinds preferred gs kind = None \<or> preferred = w)")
    case True
    then have "i = h" using snoc.prems(1) by (auto simp: x internal_kinds_snoc)
    moreover have "preferred = w \<or> \<not> (\<exists>g. (preferred, g) \<in> set gs \<and> sch_Kind (gk_Schema g) = kind)"
      using True unfolding internal_kinds_None by blast
    ultimately show ?thesis using True x by auto
  next
    case False
    then have old: "internal_kinds preferred gs kind = Some i"
      using snoc.prems(1) by (auto simp: x internal_kinds_snoc split: if_splits)
    from snoc.IH [OF old] obtain v where v: "(v, i) \<in> set gs" "sch_Kind (gk_Schema i) = kind"
      "(\<exists>g. (preferred, g) \<in> set gs \<and> sch_Kind (gk_Schema g) = kind) \<longrightarrow> v = preferred" by blast
    then show ?thesis using False old x by auto
  qed
qed

text \<open>
  Kubernetes' comparison of version names is a linear order of the names \<open>V\<close>: no two of them are names of one version, as
  \<^verbatim>\<open>v1\<close> and \<^verbatim>\<open>v01\<close> would be.
\<close>

definition version_order :: "(string \<Rightarrow> string \<Rightarrow> int) \<Rightarrow> string set \<Rightarrow> bool" where
  "version_order cmp V \<longleftrightarrow> (\<forall>v \<in> V. \<forall>w \<in> V. 0 < cmp v w \<or> v = w \<or> 0 < cmp w v) \<and>
     (\<forall>v \<in> V. \<forall>w \<in> V. 0 < cmp v w \<longrightarrow> \<not> 0 < cmp w v) \<and>
     (\<forall>u \<in> V. \<forall>v \<in> V. \<forall>w \<in> V. 0 < cmp u v \<longrightarrow> 0 < cmp v w \<longrightarrow> 0 < cmp u w)"

lemma insert_version_mset: "mset (insert_version lt v ws) = add_mset v (mset ws)"
  by (induction lt v ws rule: insert_version.induct) auto

lemma sort_versions_mset: "mset (sort_versions lt vs) = mset vs"
  unfolding sort_versions_def by (induction vs) (auto simp: insert_version_mset)

lemma sort_versions_set: "set (sort_versions lt vs) = set vs"
  by (metis sort_versions_mset set_mset_mset)

lemma version_less_trans:
  assumes "version_order cmp V" "u \<noteq> w" "version_less cmp p u v" "version_less cmp p v w" "{u, v, w} \<subseteq> V"
  shows "version_less cmp p u w"
proof -
  have "u = p \<or> w \<noteq> p \<and> 0 < cmp u w"
  proof (cases "u = p \<or> v = p \<or> w = p")
    case False
    then have "0 < cmp u v" "0 < cmp v w" using assms(3,4) by (simp_all add: version_less_def)
    then have "0 < cmp u w" using assms(1,5) unfolding version_order_def by blast
    then show ?thesis using False by blast
  qed (use assms(2-4) in \<open>auto simp: version_less_def split: if_splits\<close>)
  then show ?thesis by (auto simp: version_less_def)
qed

lemma version_less_total:
  assumes "version_order cmp V" "v \<in> V" "w \<in> V" "v \<noteq> w"
  shows "version_less cmp p v w \<longleftrightarrow> \<not> version_less cmp p w v"
proof -
  have "0 < cmp v w \<longleftrightarrow> \<not> 0 < cmp w v" using assms unfolding version_order_def by blast
  then show ?thesis using assms(4) by (auto simp: version_less_def)
qed

lemma insert_version_sorted:
  assumes "version_order cmp V" "sorted_wrt (version_less cmp p) ws" "v \<notin> set ws" "distinct ws" "insert v (set ws) \<subseteq> V"
  shows "sorted_wrt (version_less cmp p) (insert_version (version_less cmp p) v ws)"
  using assms(2-5)
proof (induction ws)
  case (Cons w ws)
  have set: "set (insert_version (version_less cmp p) v ws) = insert v (set ws)"
    using insert_version_mset [of "version_less cmp p" v ws] by (metis set_mset_add_mset_insert set_mset_mset)
  show ?case
  proof (cases "version_less cmp p v w")
    case True
    then have "version_less cmp p v x" if "x \<in> set ws" for x
      using version_less_trans [OF assms(1), of v x p w] Cons.prems that by auto
    then show ?thesis using True Cons.prems by auto
  next
    case False
    have "v \<noteq> w" using Cons.prems by auto
    then have "version_less cmp p w v" using False version_less_total [OF assms(1), of v w p] Cons.prems(4) by simp
    then show ?thesis using False Cons set by auto
  qed
qed simp

lemma sort_versions_sorted:
  assumes "version_order cmp V" "distinct vs" "set vs \<subseteq> V"
  shows "sorted_wrt (version_less cmp p) (sort_versions (version_less cmp p) vs)"
  using assms(2,3)
proof (induction vs)
  case (Cons v vs)
  then have "distinct (sort_versions (version_less cmp p) vs)" by (metis distinct.simps(2) mset_eq_imp_distinct_iff sort_versions_mset)
  with Cons insert_version_sorted [OF assms(1), of p "sort_versions (version_less cmp p) vs" v]
  show ?case by (simp add: sort_versions_def sort_versions_set [unfolded sort_versions_def])
qed (simp add: sort_versions_def)

text \<open>Whichever way the versions are sorted: there is only one order.\<close>

lemma version_order_unique:
  assumes "version_order cmp V" "distinct vs" "mset ws = mset vs" "set vs \<subseteq> V" "sorted_wrt (version_less cmp p) ws"
  shows "ws = sort_versions (version_less cmp p) vs"
proof -
  have "xs = ys" if "sorted_wrt (version_less cmp p) xs" "sorted_wrt (version_less cmp p) ys" "mset xs = mset ys" "distinct xs" "set xs \<subseteq> V" for xs ys
    using that
  proof (induction xs arbitrary: ys)
    case (Cons x xs)
    then obtain y ys' where ys: "ys = y # ys'" by (cases ys) auto
    have "x = y"
    proof (rule ccontr)
      assume "x \<noteq> y"
      then have "y \<in> set xs" "x \<in> set ys'" using Cons.prems(3) ys by (metis insert_iff list.set(2) mset_eq_setD)+
      then have "version_less cmp p x y" "version_less cmp p y x" using Cons.prems ys by auto
      moreover have "y \<in> V" using \<open>y \<in> set xs\<close> Cons.prems(5) by auto
      ultimately show False using \<open>x \<noteq> y\<close> version_less_total [OF assms(1), of x y p] Cons.prems(5) by simp
    qed
    with Cons ys show ?case by simp
  qed simp
  moreover have "distinct ws" "set ws \<subseteq> V" "mset ws = mset (sort_versions (version_less cmp p) vs)"
    using assms(2-4) mset_eq_imp_distinct_iff [OF assms(3)] mset_eq_setD [OF assms(3)] sort_versions_mset by auto
  ultimately show ?thesis using sort_versions_sorted [OF assms(1,2,4)] assms(5) by blast
qed

text \<open>The resolver knows each kind of the manifest under its own group, version and name.\<close>

definition resolves :: "'t GoTypeResolver \<Rightarrow> ManifestData \<Rightarrow> bool" where
  "resolves R m \<longleftrightarrow> (\<forall>(v, k) \<in> set (manifest_kinds m). \<forall>g. gt_KindToGoType R (vk_Kind k) v = Some g \<longrightarrow>
     kind_gvk_of g = \<lparr>gvk_Group = md_Group m, gvk_Version = v, gvk_Kind = vk_Kind k\<rparr>)"

definition internal_gvk :: "ManifestData \<Rightarrow> string \<Rightarrow> gvk" where
  "internal_gvk m kind = \<lparr>gvk_Group = md_Group m, gvk_Version = ''__internal'', gvk_Kind = kind\<rparr>"

lemma kind_gvk_of_fields:
  "kind_gvk_of g = \<lparr>gvk_Group = a, gvk_Version = b, gvk_Kind = c\<rparr> \<longleftrightarrow>
     sch_Group (gk_Schema g) = a \<and> sch_Version (gk_Schema g) = b \<and> sch_Kind (gk_Schema g) = c"
  by (simp add: kind_gvk_of_def kind_gvk_def)

lemma visited_flat: "(v, g) \<in> set (visited_kinds kbv) \<longleftrightarrow> (\<exists>k. (v, g, k) \<in> set (flat_kinds kbv))"
  by (force simp: visited_kinds_def flat_kinds_def)

lemma kind_registered:
  assumes "(v, g, k) \<in> set (flat_kinds kbv)"
  shows "KnownType (kind_gvk_of g) (gk_Zero g) \<in> set (concat (map (version_registrations has_get R group') kbv))"
    "KnownType (list_gvk group' v g) (gk_ZeroList g) \<in> set (concat (map (version_registrations has_get R group') kbv))"
    "FieldLabels (kind_gvk_of g) \<in> set (concat (map (version_registrations has_get R group') kbv))"
proof -
  obtain ks where ks: "(v, ks) \<in> set kbv" "(g, k) \<in> set ks" using assms by (auto simp: flat_kinds_def)
  then have "set (kind_registrations has_get R group' v (g, k)) \<subseteq> set (concat (map (version_registrations has_get R group') kbv))"
    by (force simp: version_registrations_def)
  then show "KnownType (kind_gvk_of g) (gk_Zero g) \<in> set (concat (map (version_registrations has_get R group') kbv))"
    "KnownType (list_gvk group' v g) (gk_ZeroList g) \<in> set (concat (map (version_registrations has_get R group') kbv))"
    "FieldLabels (kind_gvk_of g) \<in> set (concat (map (version_registrations has_get R group') kbv))"
    by (auto simp: kind_registrations_def)
qed

lemma internal_registered:
  assumes "(v, g) \<in> set gs" "sch_Group (gk_Schema g) = sch_Group (gk_Schema i)" "sch_Kind (gk_Schema g) = sch_Kind (gk_Schema i)"
  shows "{KnownType \<lparr>gvk_Group = group', gvk_Version = ''__internal'', gvk_Kind = sch_Kind (gk_Schema i)\<rparr> (gk_Zero i),
      Conversion (gk_Zero g) (kind_gvk_of g) (gk_Zero i) (kind_gvk_of i),
      Conversion (gk_Zero i) (kind_gvk_of i) (gk_Zero g) (kind_gvk_of g)} \<subseteq> set (internal_registrations group' gs i)"
  using assms by (force simp: internal_registrations_def)

text \<open>
  C34. Once an app's kinds are in the scheme of an API server, every kind of every version of the manifest is known
  there with its list, has its own field labels, and converts to and from one internal version of its name, which
  is the preferred version whenever the kind is in it; and the server is told all versions of the manifest, each
  once, with the preferred one first and the others from the newest to the oldest. This holds for every order in
  which the maps are visited.
\<close>

theorem scheme_holds_every_version:
  assumes add: "AddToScheme refused has_get cmp untyped ord kind_ord (Some sch) I = (None, Some sch', I')"
    and orders: "\<And>xs. mset (ord xs) = mset xs" "\<And>xs. set (kind_ord xs) = set xs" "version_order cmp (mv_Name ` set (md_Versions m))"
    and m: "m = in_manifest I" "resolves (in_resolver I) m" "distinct (map mv_Name (md_Versions m))"
  shows "(\<forall>(v, k) \<in> set (manifest_kinds m). \<exists>g i w.
      gt_KindToGoType (in_resolver I) (vk_Kind k) v = Some g \<and> gt_KindToGoType (in_resolver I) (vk_Kind k) w = Some i \<and>
      ((\<exists>k'. (md_PreferredVersion m, k') \<in> set (manifest_kinds m) \<and> vk_Kind k' = vk_Kind k) \<longrightarrow> w = md_PreferredVersion m) \<and>
      {KnownType (kind_gvk_of g) (gk_Zero g), KnownType (list_gvk (md_Group m) v g) (gk_ZeroList g), FieldLabels (kind_gvk_of g),
       KnownType (internal_gvk m (vk_Kind k)) (gk_Zero i),
       Conversion (gk_Zero g) (kind_gvk_of g) (gk_Zero i) (kind_gvk_of i),
       Conversion (gk_Zero i) (kind_gvk_of i) (gk_Zero g) (kind_gvk_of g)} \<subseteq> set sch') \<and>
    (md_Versions m \<noteq> [] \<longrightarrow> (\<exists>vs. last sch' = VersionPriority (md_Group m) vs \<and> mset vs = mset (map mv_Name (md_Versions m)) \<and>
      sorted_wrt (version_less cmp (md_PreferredVersion m)) vs))"
proof -
  obtain kbv names where kbv: "getKindsByGroupVersion I = Inr kbv"
    and names: "names = kind_ord (remdups (map (\<lambda>(v, g). sch_Kind (gk_Schema g)) (visited_kinds (ord kbv))))"
    and reg: "registered refused (scheme_registrations has_get cmp untyped m (in_resolver I) (ord kbv) names) sch = (None, sch')"
    using add by (auto simp: AddToScheme_def Let_def m(1) split: sum.splits prod.splits option.splits)
  let ?k = "ord kbv" and ?R = "in_resolver I"
  let ?regs = "scheme_registrations has_get cmp untyped m ?R ?k names"
  let ?internal = "internal_kinds (md_PreferredVersion m) (visited_kinds ?k)"
  have sch': "sch' = sch @ ?regs" by (rule registered_set [OF reg])
  note res = resolve_kinds_set [OF kbv [unfolded getKindsByGroupVersion_def], folded m(1)]
  have same: "set ?k = set kbv" using orders(1) [of kbv] by (rule mset_eq_setD)
  have flat: "(v, g, k) \<in> set (flat_kinds ?k) \<longleftrightarrow> (v, k) \<in> set (manifest_kinds m) \<and> gt_KindToGoType ?R (vk_Kind k) v = Some g"
    for v g k
  proof -
    have "set (flat_kinds ?k) = set (flat_kinds kbv)" using same by (simp add: flat_kinds_def)
    then show ?thesis using res(1) by (auto simp: flat_kinds_def)
  qed
  have gvk: "sch_Group (gk_Schema g) = md_Group m \<and> sch_Version (gk_Schema g) = v \<and> sch_Kind (gk_Schema g) = vk_Kind k"
    if "(v, k) \<in> set (manifest_kinds m)" "gt_KindToGoType ?R (vk_Kind k) v = Some g" for v k g
    using m(2) that unfolding resolves_def kind_gvk_of_fields by blast
  have resolved: "\<exists>g. gt_KindToGoType ?R (vk_Kind k) v = Some g" if "(v, k) \<in> set (manifest_kinds m)" for v k
    using res(3) that by fastforce
  have known: "\<exists>g i w. gt_KindToGoType ?R (vk_Kind k) v = Some g \<and> gt_KindToGoType ?R (vk_Kind k) w = Some i \<and>
      ((\<exists>k'. (md_PreferredVersion m, k') \<in> set (manifest_kinds m) \<and> vk_Kind k' = vk_Kind k) \<longrightarrow> w = md_PreferredVersion m) \<and>
      {KnownType (kind_gvk_of g) (gk_Zero g), KnownType (list_gvk (md_Group m) v g) (gk_ZeroList g), FieldLabels (kind_gvk_of g),
       KnownType (internal_gvk m (vk_Kind k)) (gk_Zero i),
       Conversion (gk_Zero g) (kind_gvk_of g) (gk_Zero i) (kind_gvk_of i),
       Conversion (gk_Zero i) (kind_gvk_of i) (gk_Zero g) (kind_gvk_of g)} \<subseteq> set sch'"
    if vk: "(v, k) \<in> set (manifest_kinds m)" for v k
  proof -
    obtain g where g: "gt_KindToGoType ?R (vk_Kind k) v = Some g" using resolved [OF vk] by blast
    note gg = gvk [OF vk g]
    have f: "(v, g, k) \<in> set (flat_kinds ?k)" using vk g flat by blast
    then have vis: "(v, g) \<in> set (visited_kinds ?k)" unfolding visited_flat by blast
    have "?internal (vk_Kind k) \<noteq> None" using vis gg unfolding internal_kinds_None by auto
    then obtain i where i: "?internal (vk_Kind k) = Some i" by blast
    from internal_kinds_Some [OF i] obtain w where w: "(w, i) \<in> set (visited_kinds ?k)" "sch_Kind (gk_Schema i) = vk_Kind k"
      "(\<exists>g. (md_PreferredVersion m, g) \<in> set (visited_kinds ?k) \<and> sch_Kind (gk_Schema g) = vk_Kind k) \<longrightarrow> w = md_PreferredVersion m"
      by blast
    then obtain k' where k': "(w, k') \<in> set (manifest_kinds m)" "gt_KindToGoType ?R (vk_Kind k') w = Some i"
      using flat unfolding visited_flat by blast
    then have kk: "vk_Kind k' = vk_Kind k" "sch_Group (gk_Schema i) = md_Group m" using gvk w(2) by auto
    have pref: "w = md_PreferredVersion m"
      if p: "(md_PreferredVersion m, k'') \<in> set (manifest_kinds m)" "vk_Kind k'' = vk_Kind k" for k''
    proof -
      obtain h where h: "gt_KindToGoType ?R (vk_Kind k'') (md_PreferredVersion m) = Some h" using resolved [OF p(1)] by blast
      then have "(md_PreferredVersion m, h) \<in> set (visited_kinds ?k)" using flat p(1) unfolding visited_flat by blast
      moreover have "sch_Kind (gk_Schema h) = vk_Kind k" using gvk [OF p(1) h] p(2) by simp
      ultimately show ?thesis using w(3) by blast
    qed
    have "vk_Kind k \<in> set names" using vis gg orders(2) unfolding names by force
    then have "set (internal_registrations (md_Group m) (visited_kinds ?k) i) \<subseteq> set ?regs"
      using i by (force simp: scheme_registrations_def Let_def)
    moreover have "set (concat (map (version_registrations has_get ?R (md_Group m)) ?k)) \<subseteq> set ?regs"
      by (auto simp: scheme_registrations_def Let_def)
    ultimately have "{KnownType (kind_gvk_of g) (gk_Zero g), KnownType (list_gvk (md_Group m) v g) (gk_ZeroList g), FieldLabels (kind_gvk_of g),
       KnownType (internal_gvk m (vk_Kind k)) (gk_Zero i), Conversion (gk_Zero g) (kind_gvk_of g) (gk_Zero i) (kind_gvk_of i),
       Conversion (gk_Zero i) (kind_gvk_of i) (gk_Zero g) (kind_gvk_of g)} \<subseteq> set sch'"
      using internal_registered [OF vis, of i "md_Group m"] kind_registered [OF f, where R = ?R and group' = "md_Group m" and has_get = has_get]
        gg w(2) kk(2) unfolding sch' internal_gvk_def by auto
    then show ?thesis using g k' kk(1) pref by metis
  qed
  let ?versions = "map fst ?k @ empty_versions m ?k"
  have priority: "\<exists>vs. last sch' = VersionPriority (md_Group m) vs \<and> mset vs = mset (map mv_Name (md_Versions m)) \<and>
      sorted_wrt (version_less cmp (md_PreferredVersion m)) vs" if "md_Versions m \<noteq> []"
  proof -
    have keys: "fst ` set ?k \<subseteq> mv_Name ` set (md_Versions m)" using res(2) same by (auto simp: manifest_kinds_def)
    have "distinct (map fst kbv)" using res(4) by simp
    then have "distinct (map fst ?k)" using orders(1) [of kbv] by (metis mset_eq_imp_distinct_iff mset_map)
    then have d: "distinct ?versions" using m(3) by (auto simp: empty_versions_def)
    have "set ?versions = mv_Name ` set (md_Versions m)" using keys by (auto simp: empty_versions_def)
    then have ms: "mset ?versions = mset (map mv_Name (md_Versions m))" using d m(3) by (subst set_eq_iff_mset_eq_distinct [symmetric]) auto
    then have ne: "?versions \<noteq> []" using that by (metis map_is_Nil_conv mset_zero_iff)
    have "last sch' = VersionPriority (md_Group m) (sort_versions (version_less cmp (md_PreferredVersion m)) ?versions)"
      unfolding sch' scheme_registrations_def Let_def if_not_P [OF ne] by (simp only: append_assoc [symmetric] last_snoc)
    moreover have "set ?versions \<subseteq> mv_Name ` set (md_Versions m)" using mset_eq_setD [OF ms] by simp
    ultimately show ?thesis using ms sort_versions_sorted [OF orders(3) d] by (metis sort_versions_mset)
  qed
  show ?thesis using known priority by blast
qed

text \<open>A kind in both versions of an app; the preferred one comes first, although it is not the newest.\<close>

definition two_version_kind :: ManifestVersionKind where
  "two_version_kind = \<lparr>vk_Kind = ''Foo'', vk_Plural = ''foos'', vk_Scope = NamespacedScope, vk_Admission = None, vk_Schema = None,
     vk_SelectableFields = [], vk_Routes = Some [(''/log'', JNull)], vk_Conversion = True, vk_AdditionalPrinterColumns = None\<rparr>"

definition two_version :: "string \<Rightarrow> ManifestVersion" where
  "two_version v = \<lparr>mv_Name = v, mv_Served = True, mv_Kinds = [two_version_kind],
     mv_Namespaced = [(''/bar'', JNull)], mv_Cluster = [], mv_Schemas = []\<rparr>"

definition two_versions :: ManifestData where
  "two_versions = \<lparr>md_AppName = ''app'', md_AppDisplayName = ''App'', md_Group = ''app.ext'',
     md_Versions = [two_version ''v1'', two_version ''v2''], md_PreferredVersion = ''v1'', md_ExtraPermissions = None,
     md_Operator = None, md_Roles = None, md_RoleBindings = None\<rparr>"

definition two_version_type :: "string \<Rightarrow> nat go_kind" where
  "two_version_type v = \<lparr>gk_Schema = \<lparr>sch_Group = ''app.ext'', sch_Version = v, sch_Kind = ''Foo'', sch_Plural = ''foos''\<rparr>, gk_Scope = NamespacedScope, gk_Zero = length v, gk_ZeroList = 0, gk_Subresources = [''status'']\<rparr>"

definition two_version_resolver :: "nat GoTypeResolver" where
  "two_version_resolver = \<lparr>gt_KindToGoType = (\<lambda>k v. if k = ''Foo'' then Some (two_version_type v) else None),
     gt_ReturnGoType = (\<lambda>_ _ _ _. None), gt_QueryGoType = (\<lambda>_ _ _ _. None), gt_RequestBodyGoType = (\<lambda>_ _ _ _. None)\<rparr>"

definition two_version_provider :: "('a, unit, unit) Provider" where
  "two_version_provider = \<lparr>pv_ManifestData = Some two_versions, pv_SpecificConfig = None, pv_NewApp = (\<lambda>_ _ _. Inl (GoErr ''no app''))\<rparr>"

definition two_version_installer :: "(nat, 'a, unit, unit) installer" where
  "two_version_installer = NewDefaultAppInstaller two_version_provider two_versions None two_version_resolver"

definition string_cmp :: "string \<Rightarrow> string \<Rightarrow> int" where
  "string_cmp v w = (if w < v then 1 else if v < w then -1 else 0)"

lemma string_cmp_order: "version_order string_cmp V"
  by (auto simp: version_order_def string_cmp_def split: if_splits)

lemmas two_versions_defs = two_versions_def two_version_def two_version_kind_def two_version_type_def
  two_version_resolver_def two_version_provider_def two_version_installer_def NewDefaultAppInstaller_def IsEmpty_def

lemma two_versions_kinds:
  "manifest_kinds two_versions = [(''v1'', two_version_kind), (''v2'', two_version_kind)]"
  "getKindsByGroupVersion two_version_installer =
     Inr [(''v1'', [(two_version_type ''v1'', two_version_kind)]), (''v2'', [(two_version_type ''v2'', two_version_kind)])]"
  by (simp_all add: manifest_kinds_def getKindsByGroupVersion_def two_versions_defs)

lemma registered_all: "registered (\<lambda>_. None) rs scheme = (None, scheme @ rs)"
  by (induction rs arbitrary: scheme) auto

theorem scheme_holds_every_version_witness:
  "\<exists>sch' I'. AddToScheme (\<lambda>_. None) (\<lambda>_. True) string_cmp 0 rev rev (Some []) (two_version_installer :: (nat, nat, unit, unit) installer) = (None, Some sch', I') \<and>
     last sch' = VersionPriority ''app.ext'' [''v1'', ''v2''] \<and>
     {KnownType (internal_gvk two_versions ''Foo'') 2, FieldLabels (kind_gvk_of (two_version_type ''v2''))} \<subseteq> set sch'"
proof -
  let ?I = "two_version_installer :: (nat, nat, unit, unit) installer"
  obtain sch' I' where add: "AddToScheme (\<lambda>_. None) (\<lambda>_. True) string_cmp 0 rev rev (Some []) ?I = (None, Some sch', I')"
    by (auto simp: AddToScheme_def two_versions_kinds registered_all Let_def)
  have m: "two_versions = in_manifest ?I" by (simp add: two_versions_defs)
  have r: "resolves (in_resolver ?I) two_versions"
    unfolding resolves_def two_versions_kinds by (simp add: two_versions_defs kind_gvk_of_def kind_gvk_def)
  have d: "distinct (map mv_Name (md_Versions two_versions))" by (simp add: two_versions_defs)
  note holds = scheme_holds_every_version [OF add _ _ string_cmp_order m r d, simplified]
  have v2: "(''v2'', two_version_kind) \<in> set (manifest_kinds two_versions)" "(''v1'', two_version_kind) \<in> set (manifest_kinds two_versions)"
    unfolding two_versions_kinds by simp_all
  obtain vs where vs: "last sch' = VersionPriority ''app.ext'' vs" "mset vs = {#''v1'', ''v2''#}"
    "sorted_wrt (version_less string_cmp ''v1'') vs"
    using holds by (auto simp: two_versions_defs)
  then have "vs = sort_versions (version_less string_cmp ''v1'') [''v1'', ''v2'']"
    by (intro version_order_unique [OF string_cmp_order, of _ _ UNIV]) simp_all
  then have "last sch' = VersionPriority ''app.ext'' [''v1'', ''v2'']"
    using vs(1) by (simp add: sort_versions_def version_less_def)
  moreover have "{KnownType (internal_gvk two_versions ''Foo'') 2, FieldLabels (kind_gvk_of (two_version_type ''v2''))} \<subseteq> set sch'"
  proof -
    have resolve: "gt_KindToGoType (in_resolver ?I) (vk_Kind two_version_kind) v = Some g \<longleftrightarrow> g = two_version_type v"
        "gt_KindToGoType (in_resolver ?I) ''Foo'' v = Some g \<longleftrightarrow> g = two_version_type v" for v g
      by (auto simp: two_version_kind_def two_version_resolver_def two_version_installer_def NewDefaultAppInstaller_def)
    have zero: "gk_Zero (two_version_type ''v1'') = 2" "md_PreferredVersion two_versions = ''v1''" "vk_Kind two_version_kind = ''Foo''"
      by (simp_all add: two_version_type_def two_versions_def two_version_kind_def)
    obtain g i w where "g = two_version_type ''v2''" "i = two_version_type w" "w = ''v1''"
      "{FieldLabels (kind_gvk_of g), KnownType (internal_gvk two_versions ''Foo'') (gk_Zero i)} \<subseteq> set sch'"
      using bspec [OF conjunct1 [OF holds] v2(1)] v2(2) by (auto simp: resolve zero)
    then show ?thesis by (simp only: zero insert_subset simp_thms)
  qed
  ultimately show ?thesis using add by blast
qed

end
