(* ===== verification/API_Routes.thy ===== *)
theory API_Routes
  imports API_Installer
begin

text \<open>
  What an app serves on a Kubernetes API server, \<^verbatim>\<open>InstallAPIs\<close> of \<^verbatim>\<open>k8s/apiserver/installer.go\<close>: the storage of
  each kind and its subresources, the custom routes of objects and of versions, and how a request at a route
  reaches the app.
\<close>

section \<open>Stored and served resources\<close>

text \<open>
  What the installer uses from outside: registrations that fail, the operation id of a path's operation by method
  and the content types it answers with, Kubernetes' comparison of version names, the type of untyped objects,
  the orders of the map ranges, errors of completing a kind's store, the versions of a group that a scheme lists
  by priority, and the installation of a group on the underlying server.
\<close>

record 't route_connector =
  rc_Path :: string
  rc_Version :: string
  rc_Kind :: "'t go_kind"
  rc_ManifestKind :: ManifestVersionKind
  rc_Methods :: "(string \<times> 't option \<times> string list) list"

datatype 't api_storage = Stored kind_storage | RouteConnector "'t route_connector"

record 't api_group =
  ag_Group :: string
  ag_Prioritized :: "string list"
  ag_Storage :: "string \<rightharpoonup> (string \<rightharpoonup> 't api_storage)"

record ws_route =
  wr_Method :: string
  wr_Path :: string
  wr_OperationId :: string
  wr_Version :: string
  wr_RoutePath :: string
  wr_Scope :: string

record web_service =
  ws_RootPath :: string
  ws_Routes :: "ws_route list"

record 't install_env =
  ie_refused :: "'t registration \<Rightarrow> go_error option"
  ie_operation :: "json \<Rightarrow> string \<Rightarrow> string option"
  ie_mimeTypes :: "json \<Rightarrow> string \<Rightarrow> string list"
  ie_cmp :: "string \<Rightarrow> string \<Rightarrow> int"
  ie_untyped :: 't
  ie_ord :: "'t kinds_by_version \<Rightarrow> 't kinds_by_version"
  ie_kind_ord :: "string list \<Rightarrow> string list"
  ie_storeError :: "'t go_kind \<Rightarrow> go_error option"
  ie_prioritized :: "'t registration list \<Rightarrow> string \<Rightarrow> string list"
  ie_install :: "'t api_group \<Rightarrow> web_service list option \<Rightarrow> go_error + web_service list option"

definition http_methods :: "string list" where
  "http_methods = [''GET'', ''POST'', ''PUT'', ''PATCH'', ''DELETE'', ''HEAD'', ''OPTIONS'']"

definition spec3PropsToConnectorMethods ::
  "'t install_env \<Rightarrow> 't GoTypeResolver \<Rightarrow> json \<Rightarrow> string \<Rightarrow> string \<Rightarrow> string \<Rightarrow> (string \<times> 't option \<times> string list) list" where
  "spec3PropsToConnectorMethods E R props kind ver routePath =
     map (\<lambda>m. (m, gt_ReturnGoType R kind ver routePath m, ie_mimeTypes E props m))
       (filter (\<lambda>m. ie_operation E props m \<noteq> None) http_methods)"

definition resource_path :: "string \<Rightarrow> string \<Rightarrow> string" where
  "resource_path plural sub = plural @ CHR ''/'' # sub"

definition resource_enabled :: "('t, 'a, 'c, 'k) installer \<Rightarrow> string \<Rightarrow> string \<Rightarrow> bool" where
  "resource_enabled I version resource = (case in_resourceConfig I of
     None \<Rightarrow> True | Some enabled \<Rightarrow> enabled (md_Group (in_manifest I)) version resource)"

definition isCustomRouteEnabled :: "('t, 'a, 'c, 'k) installer \<Rightarrow> string \<Rightarrow> string \<Rightarrow> bool" where
  "isCustomRouteEnabled I version routePath = resource_enabled I version (hd (split_on CHR ''/'' (trim_char CHR ''/'' routePath)))"

text \<open>The entries that a kind writes into the storage of its version, in order; later ones replace earlier ones.\<close>

definition kind_entries ::
  "'t install_env \<Rightarrow> 't GoTypeResolver \<Rightarrow> string \<Rightarrow> 't go_kind \<times> ManifestVersionKind \<Rightarrow> (string \<times> 't api_storage) list" where
  "kind_entries E R version = (\<lambda>(g, k).
     let plural = sch_Plural (gk_Schema g)
     in (plural, Stored KindStore) #
        map (\<lambda>sr. (resource_path plural sr, Stored (subresource_storage (gk_Subresources g) sr))) (gk_Subresources g) @
        List.map_filter (\<lambda>(route, props). if route = [] then None
          else (let r = route_path route
                in Some (resource_path plural r, RouteConnector \<lparr>rc_Path = r, rc_Version = version, rc_Kind = g, rc_ManifestKind = k,
                     rc_Methods = spec3PropsToConnectorMethods E R props (sch_Kind (gk_Schema g)) version r\<rparr>)))
          (Prelude.slice (vk_Routes k)))"

fun kind_storages ::
  "'t install_env \<Rightarrow> ('t, 'a, 'c, 'k) installer \<Rightarrow> string \<Rightarrow> ('t go_kind \<times> ManifestVersionKind) list \<Rightarrow>
   (string \<rightharpoonup> 't api_storage) \<Rightarrow> (string \<rightharpoonup> 't api_storage) option \<Rightarrow> go_error + (string \<rightharpoonup> 't api_storage) option" where
  "kind_storages E I version [] storage out = Inr out"
| "kind_storages E I version (entry # ks) storage out =
     (if \<not> resource_enabled I version (sch_Plural (gk_Schema (fst entry))) then kind_storages E I version ks storage out
      else (case ie_storeError E (fst entry) of
        Some e \<Rightarrow> Inl (Wrapped (''failed to create store for kind '' @ sch_Kind (gk_Schema (fst entry))) e)
      | None \<Rightarrow>
          (let storage' = storage ++ map_of (rev (kind_entries E (in_resolver I) version entry))
           in kind_storages E I version ks storage' (Some storage'))))"

fun version_storages ::
  "'t install_env \<Rightarrow> ('t, 'a, 'c, 'k) installer \<Rightarrow> 't kinds_by_version \<Rightarrow> (string \<rightharpoonup> (string \<rightharpoonup> 't api_storage)) \<Rightarrow>
   go_error + (string \<rightharpoonup> (string \<rightharpoonup> 't api_storage))" where
  "version_storages E I [] out = Inr out"
| "version_storages E I ((version, ks) # vs) out = (case kind_storages E I version ks Map.empty None of
     Inl e \<Rightarrow> Inl e
   | Inr None \<Rightarrow> version_storages E I vs out
   | Inr (Some storage) \<Rightarrow> version_storages E I vs (out(version \<mapsto> storage)))"

definition hasEnabledRoutes :: "('t, 'a, 'c, 'k) installer \<Rightarrow> string \<Rightarrow> bool" where
  "hasEnabledRoutes I version \<longleftrightarrow> (\<exists>v \<in> set (md_Versions (in_manifest I)). mv_Name v = version \<and>
     (\<exists>p \<in> set (mv_Namespaced v) \<union> set (mv_Cluster v). isCustomRouteEnabled I version (fst p)))"

text \<open>The versions without kinds are added when one of their routes is enabled.\<close>

definition prioritized_versions :: "('t, 'a, 'c, 'k) installer \<Rightarrow> 't kinds_by_version \<Rightarrow> string list \<Rightarrow> string list" where
  "prioritized_versions I kbv vs = fold (\<lambda>v out.
     if v \<in> fst ` set kbv \<or> v \<in> set out \<or> \<not> hasEnabledRoutes I v then out else out @ [v]) (map mv_Name (md_Versions (in_manifest I))) vs"

definition root_path :: "string \<Rightarrow> string \<Rightarrow> string" where
  "root_path group' version = ''/apis/'' @ group' @ CHR ''/'' # version"

text \<open>
  \<^verbatim>\<open>KubernetesGenericAPIServer.InstallAPIGroup\<close>; the web services are \<open>None\<close> without a container. The storage is looked
  up by the name of the group, although its keys are versions.
\<close>

fun ensure_services :: "'t api_group \<Rightarrow> string list \<Rightarrow> web_service list option \<Rightarrow> go_error + web_service list option" where
  "ensure_services ag [] services = Inr services"
| "ensure_services ag (v # vs) services =
     (if \<exists>m. ag_Storage ag (ag_Group ag) = Some m \<and> m \<noteq> Map.empty then ensure_services ag vs services
      else (case services of
        None \<Rightarrow> Inl (GoErr ''cannot install custom route: underlying Handler.GoRestfulContainer is nil'')
      | Some ws \<Rightarrow> ensure_services ag vs
          (if root_path (ag_Group ag) v \<in> ws_RootPath ` set ws then Some ws
           else Some (ws @ [\<lparr>ws_RootPath = root_path (ag_Group ag) v, ws_Routes = []\<rparr>]))))"

definition InstallAPIGroup ::
  "'t install_env \<Rightarrow> 't api_group \<Rightarrow> web_service list option \<Rightarrow> go_error + web_service list option" where
  "InstallAPIGroup E ag services = (case ie_install E ag services of
     Inl e \<Rightarrow> Inl e
   | Inr services' \<Rightarrow> ensure_services ag (ag_Prioritized ag) services')"

section \<open>Custom routes of a version\<close>

definition allowedK8sVerbs :: "string list" where
  "allowedK8sVerbs = [''get'', ''log'', ''read'', ''replace'', ''patch'', ''delete'', ''deletecollection'', ''watch'', ''connect'',
     ''proxy'', ''list'', ''create'', ''patch'']"

definition httpMethodToK8sVerb :: "string \<Rightarrow> string" where
  "httpMethodToK8sVerb m = (if m = ''GET'' then ''get'' else if m = ''POST'' then ''create'' else if m = ''PUT'' then ''replace''
     else if m = ''PATCH'' then ''patch'' else if m = ''DELETE'' then ''delete''
     else if m \<in> {''CONNECT'', ''OPTIONS'', ''HEAD''} then ''connect'' else [])"

definition prefixRouteID :: "string \<Rightarrow> string \<Rightarrow> string" where
  "prefixRouteID operationID httpMethod =
     (if \<exists>verb \<in> set allowedK8sVerbs. length verb < length operationID \<and> take (length verb) operationID = verb then operationID
      else httpMethodToK8sVerb (to_upper httpMethod) @ operationID)"

definition full_route_path :: "string \<Rightarrow> string \<Rightarrow> string" where
  "full_route_path scope rpath =
     (if scope = NamespacedScope then path_Join (path_Join ''namespaces'' ''{namespace}'') rpath else rpath)"

definition registerResourceRoute :: "'t install_env \<Rightarrow> string \<Rightarrow> string \<Rightarrow> string \<times> json \<Rightarrow> ws_route list" where
  "registerResourceRoute E version scope = (\<lambda>(rpath, props).
     List.map_filter (\<lambda>m. map_option (\<lambda>opId. \<lparr>wr_Method = m, wr_Path = full_route_path scope rpath,
         wr_OperationId = prefixRouteID opId m, wr_Version = version, wr_RoutePath = rpath, wr_Scope = scope\<rparr>)
       (ie_operation E props m)) http_methods)"

definition version_ws_routes :: "'t install_env \<Rightarrow> ('t, 'a, 'c, 'k) installer \<Rightarrow> ManifestVersion \<Rightarrow> ws_route list" where
  "version_ws_routes E I v =
     concat (map (registerResourceRoute E (mv_Name v) NamespacedScope) (filter (\<lambda>p. isCustomRouteEnabled I (mv_Name v) (fst p)) (mv_Namespaced v))) @
     concat (map (registerResourceRoute E (mv_Name v) ClusterScope) (filter (\<lambda>p. isCustomRouteEnabled I (mv_Name v) (fst p)) (mv_Cluster v)))"

text \<open>The routes go to the first web service with the version's root path.\<close>

fun add_routes_to :: "string \<Rightarrow> ws_route list \<Rightarrow> web_service list \<Rightarrow> web_service list option" where
  "add_routes_to root rs [] = None"
| "add_routes_to root rs (w # ws) =
     (if ws_RootPath w = root then Some (w\<lparr>ws_Routes := ws_Routes w @ rs\<rparr> # ws) else map_option (Cons w) (add_routes_to root rs ws))"

fun install_routes ::
  "'t install_env \<Rightarrow> ('t, 'a, 'c, 'k) installer \<Rightarrow> ManifestVersion list \<Rightarrow> web_service list \<Rightarrow> go_error + web_service list" where
  "install_routes E I [] ws = Inr ws"
| "install_routes E I (v # vs) ws =
     (if \<not> hasEnabledRoutes I (mv_Name v) then install_routes E I vs ws
      else (case add_routes_to (root_path (md_Group (in_manifest I)) (mv_Name v)) (version_ws_routes E I v) ws of
        None \<Rightarrow> Inl (GoErr (''failed to find WebService for version '' @ mv_Name v))
      | Some ws' \<Rightarrow> install_routes E I vs ws'))"

text \<open>
  The scheme, made when there is none yet: \<open>fresh\<close> is what a new one holds. It is the installer's before anything is
  added to it, and stays so when adding fails.
\<close>

definition installed_scheme ::
  "'t install_env \<Rightarrow> 't registration list \<Rightarrow> ('t, 'a, 'c, 'k) installer \<Rightarrow>
   (go_error + 't registration list) \<times> ('t, 'a, 'c, 'k) installer" where
  "installed_scheme E fresh I = (case in_scheme I of
     Some sch \<Rightarrow> (Inr sch, I)
   | None \<Rightarrow> (case AddToScheme (ie_refused E) (\<lambda>props. ie_operation E props ''GET'' \<noteq> None) (ie_cmp E) (ie_untyped E) (ie_ord E)
         (ie_kind_ord E) (Some fresh) (I\<lparr>in_scheme := Some fresh\<rparr>) of
       (Some e, sch, I') \<Rightarrow> (Inl (Wrapped ''failed to add to scheme'' e), I'\<lparr>in_scheme := sch\<rparr>)
     | (None, sch, I') \<Rightarrow> (Inr (case sch of Some rs \<Rightarrow> rs | None \<Rightarrow> []), I'\<lparr>in_scheme := sch\<rparr>)))"

definition install_group :: "'t install_env \<Rightarrow> ('t, 'a, 'c, 'k) installer \<Rightarrow> 't registration list \<Rightarrow> go_error + 't api_group" where
  "install_group E I sch = (case getKindsByGroupVersion I of
     Inl e \<Rightarrow> Inl (Wrapped ''failed to get kinds by group version'' e)
   | Inr kbv \<Rightarrow> (case version_storages E I (ie_ord E kbv) Map.empty of
       Inl e \<Rightarrow> Inl e
     | Inr storage \<Rightarrow> Inr \<lparr>ag_Group = md_Group (in_manifest I),
         ag_Prioritized = prioritized_versions I kbv (ie_prioritized E sch (md_Group (in_manifest I))), ag_Storage = storage\<rparr>))"

text \<open>The routes are those of the provider's manifest, not of the configured one; a nil one panics.\<close>

definition install_version_routes ::
  "'t install_env \<Rightarrow> ('t, 'a, 'c, 'k) installer \<Rightarrow> web_service list option \<Rightarrow> web_service list option outcome" where
  "install_version_routes E I services = (case pv_ManifestData (in_provider I) of
     None \<Rightarrow> Panicked ''nil manifest data''
   | Some m \<Rightarrow>
       if \<not> (\<exists>v \<in> set (md_Versions m). mv_Namespaced v \<noteq> [] \<or> mv_Cluster v \<noteq> []) then Returned services
       else (case services of
         None \<Rightarrow> Failed (GoErr ''could not register custom routes: server.RegisteredWebServices() is nil'')
       | Some ws \<Rightarrow> (case install_routes E I (md_Versions m) ws of
           Inl e \<Rightarrow> Failed e
         | Inr ws' \<Rightarrow> Returned (Some ws'))))"

definition InstallAPIs ::
  "'t install_env \<Rightarrow> 't registration list \<Rightarrow> web_service list option \<Rightarrow> ('t, 'a, 'c, 'k) installer \<Rightarrow>
   ('t api_group \<times> web_service list option) outcome \<times> ('t, 'a, 'c, 'k) installer" where
  "InstallAPIs E fresh services I = (case installed_scheme E fresh I of
     (Inl e, I') \<Rightarrow> (Failed e, I')
   | (Inr sch, I') \<Rightarrow> (case install_group E I' sch of
       Inl e \<Rightarrow> (Failed e, I')
     | Inr ag \<Rightarrow> (case InstallAPIGroup E ag services of
         Inl e \<Rightarrow> (Failed e, I')
       | Inr services' \<Rightarrow> (case install_version_routes E I' services' of
           Returned ws \<Rightarrow> (Returned (ag, ws), I')
         | Failed e \<Rightarrow> (Failed e, I')
         | Panicked msg \<Rightarrow> (Panicked msg, I')))))"

section \<open>Calling the routes\<close>

text \<open>
  The app takes a request of a route on its own state. \<open>nf\<close> tells the errors that are or wrap
  \<^verbatim>\<open>ErrCustomRouteNotFound\<close>; \<open>encode\<close> writes a status as JSON.
\<close>

type_synonym ('a, 's) route_calls = "'a \<Rightarrow> CustomRouteRequest \<Rightarrow> 's \<Rightarrow> go_error option ran \<times> 's"

datatype route_status = NotFoundStatus string string string string | FailureStatus go_error

definition not_found_status :: "string \<Rightarrow> 't route_connector \<Rightarrow> CustomRouteRequest \<Rightarrow> route_status" where
  "not_found_status group' rc req = NotFoundStatus group' (vk_Kind (rc_ManifestKind rc)) (fi_Name (rr_Identifier req))
     (vk_Plural (rc_ManifestKind rc) @ ''.'' @ group' @ ''/'' @ rc_Version rc @ '' subresource '' @ quoted (rc_Path rc) @ '' not found'')"

text \<open>The handler of an object's route: what it writes itself, and its error.\<close>

definition route_handler ::
  "('a, 's) route_calls \<Rightarrow> (go_error \<Rightarrow> bool) \<Rightarrow> (route_status \<Rightarrow> string) \<Rightarrow> ('t, 'a, 'c, 'k) installer \<Rightarrow> 't route_connector \<Rightarrow>
   CustomRouteRequest \<Rightarrow> 's \<Rightarrow> (http_write list \<times> go_error option) ran \<times> 's" where
  "route_handler call nf encode I rc req s = (case installer_App I of
     Inl e \<Rightarrow> (Ran ([], Some e), s)
   | Inr a \<Rightarrow> (case call a req s of
       (Panic, s') \<Rightarrow> (Panic, s')
     | (Ran None, s') \<Rightarrow> (Ran ([], None), s')
     | (Ran (Some e), s') \<Rightarrow>
         if nf e then (Ran ([WriteHeader 404, WriteBody (encode (not_found_status (md_Group (in_manifest I)) rc req))], None), s')
         else (Ran ([], Some e), s')))"

definition gv_String :: "string \<Rightarrow> string \<Rightarrow> string" where
  "gv_String group' version = (if group' = [] then version else group' @ CHR ''/'' # version)"

text \<open>Serving a request at an object's route. Errors of connecting are the server's to answer.\<close>

definition serve_object_route ::
  "('a, 's) route_calls \<Rightarrow> (go_error \<Rightarrow> bool) \<Rightarrow> (route_status \<Rightarrow> string) \<Rightarrow> (go_error \<Rightarrow> string option) \<Rightarrow> (go_error \<Rightarrow> int option) \<Rightarrow>
   ('t, 'a, 'c, 'k) installer \<Rightarrow> 't route_connector \<Rightarrow> RequestInfo option \<Rightarrow> http_call \<Rightarrow> 's \<Rightarrow> (go_error + http_write list) ran \<times> 's" where
  "serve_object_route call nf encode marshal code I rc info req s =
     (case Connect (gv_String (sch_Group (gk_Schema (rc_Kind rc))) (sch_Version (gk_Schema (rc_Kind rc))))
         (sch_Kind (gk_Schema (rc_Kind rc))) (gk_Scope (rc_Kind rc)) info req of
       Failed e \<Rightarrow> (Ran (Inl e), s)
     | Panicked m \<Rightarrow> (Panic, s)
     | Returned r \<Rightarrow> (case route_handler call nf encode I rc r s of
         (Panic, s') \<Rightarrow> (Panic, s')
       | (Ran (ws, err), s') \<Rightarrow> (Ran (Inr (ws @ ServeHTTP_error marshal code err)), s')))"

text \<open>
  Serving a request at a version's route, with the namespace of the path: what is written, and whether the call
  returns. Without an app, the error is written, and the nil app is called all the same.
\<close>

definition version_route_request :: "('t, 'a, 'c, 'k) installer \<Rightarrow> ws_route \<Rightarrow> string \<Rightarrow> http_call \<Rightarrow> CustomRouteRequest" where
  "version_route_request I wr namespace req =
     \<lparr>rr_Identifier = \<lparr>fi_Namespace = (if wr_Scope wr = NamespacedScope then namespace else []), fi_Name = [],
        fi_Group = md_Group (in_manifest I), fi_Version = wr_Version wr, fi_Kind = [], fi_Plural = []\<rparr>,
      rr_Path = wr_RoutePath wr, rr_Method = hc_Method req, rr_Body = hc_Body req\<rparr>"

definition serve_version_route ::
  "('a, 's) route_calls \<Rightarrow> (route_status \<Rightarrow> string) \<Rightarrow> ('t, 'a, 'c, 'k) installer \<Rightarrow> ws_route \<Rightarrow> string \<Rightarrow> http_call \<Rightarrow> 's \<Rightarrow>
   (http_write list \<times> unit ran) \<times> 's" where
  "serve_version_route call encode I wr namespace req s = (case installer_App I of
     Inl e \<Rightarrow> (([WriteHeader 500, WriteBody (encode (FailureStatus e))], Panic), s)
   | Inr a \<Rightarrow> (case call a (version_route_request I wr namespace req) s of
       (Panic, s') \<Rightarrow> (([], Panic), s')
     | (Ran None, s') \<Rightarrow> (([], Ran ()), s')
     | (Ran (Some e), s') \<Rightarrow> (([WriteHeader 500, WriteBody (encode (FailureStatus e))], Ran ()), s')))"

section \<open>The routes of objects\<close>

lemma map_of_rev_concat: "map_of (rev (xs @ ys)) = map_of (rev xs) ++ map_of (rev ys)"
  by simp

text \<open>A version's storage holds the entries of its enabled kinds.\<close>

definition enabled_kinds ::
  "('t, 'a, 'c, 'k) installer \<Rightarrow> string \<Rightarrow> ('t go_kind \<times> ManifestVersionKind) list \<Rightarrow> ('t go_kind \<times> ManifestVersionKind) list" where
  "enabled_kinds I version ks = filter (\<lambda>entry. resource_enabled I version (sch_Plural (gk_Schema (fst entry)))) ks"

lemma kind_storages_entries:
  "kind_storages E I version ks storage out = Inr r \<Longrightarrow>
   r = (if enabled_kinds I version ks = [] then out
        else Some (storage ++ map_of (rev (concat (map (kind_entries E (in_resolver I) version) (enabled_kinds I version ks))))))"
proof (induction E I version ks storage out rule: kind_storages.induct)
  case (2 E I version entry ks storage out)
  then show ?case
    by (auto simp: enabled_kinds_def Let_def map_add_assoc simp del: rev_append map_of_append split: if_splits option.splits)
       (auto simp: map_of_rev_concat map_add_assoc)
qed (simp add: enabled_kinds_def)

lemma version_storages_other:
  "version_storages E I vs out = Inr r \<Longrightarrow> v \<notin> fst ` set vs \<Longrightarrow> r v = out v"
  by (induction E I vs out rule: version_storages.induct) (auto split: sum.splits option.splits)

lemma version_storages_at:
  "version_storages E I vs out = Inr r \<Longrightarrow> distinct (map fst vs) \<Longrightarrow> (v, ks) \<in> set vs \<Longrightarrow> enabled_kinds I v ks \<noteq> [] \<Longrightarrow>
   r v = Some (map_of (rev (concat (map (kind_entries E (in_resolver I) v) (enabled_kinds I v ks)))))"
proof (induction E I vs out rule: version_storages.induct)
  case (2 E I version ks' vs out)
  show ?case
  proof (cases "(v, ks) = (version, ks')")
    case True
    obtain kr where kr: "kind_storages E I version ks' Map.empty None = Inr kr" using "2.prems"(1) by (auto split: sum.splits)
    have entries: "kr = Some (map_of (rev (concat (map (kind_entries E (in_resolver I) v) (enabled_kinds I v ks)))))"
      using kind_storages_entries [OF kr] True "2.prems"(4) by (simp del: rev_concat)
    then have "version_storages E I vs (out(v := kr)) = Inr r" using "2.prems"(1) kr True by (simp del: rev_concat)
    then show ?thesis using version_storages_other [of E I vs "out(v := kr)" r v] "2.prems"(2) True entries
      by (simp del: rev_concat)
  next
    case False
    then show ?thesis using 2 by (auto split: sum.splits option.splits simp del: rev_concat fun_upd_apply)
  qed
qed simp

text \<open>The kinds of a version whose resources do not replace each other.\<close>

definition route_names :: "ManifestVersionKind \<Rightarrow> string list" where
  "route_names k = map route_path (filter (\<lambda>r. r \<noteq> []) (map fst (Prelude.slice (vk_Routes k))))"

definition separate_kinds :: "('t go_kind \<times> ManifestVersionKind) list \<Rightarrow> bool" where
  "separate_kinds ks \<longleftrightarrow> distinct (map (\<lambda>(g, k). sch_Plural (gk_Schema g)) ks) \<and>
     (\<forall>(g, k) \<in> set ks. CHR ''/'' \<notin> set (sch_Plural (gk_Schema g)) \<and> distinct (gk_Subresources g @ route_names k))"

lemma map_filter_keys:
  "map fst (List.map_filter (\<lambda>(route, props). if route = [] then None else (let r = route_path route in Some (f r, h r props))) rs) =
   map f (map route_path (filter (\<lambda>r. r \<noteq> []) (map fst rs)))"
  by (induction rs) (auto simp: Let_def)

lemma entry_keys:
  "map fst (kind_entries E R version (g, k)) =
   sch_Plural (gk_Schema g) # map (resource_path (sch_Plural (gk_Schema g))) (gk_Subresources g @ route_names k)"
proof -
  have "map fst (kind_entries E R version (g, k)) = sch_Plural (gk_Schema g) # map (resource_path (sch_Plural (gk_Schema g))) (gk_Subresources g) @
      map (resource_path (sch_Plural (gk_Schema g))) (map route_path (filter (\<lambda>r. r \<noteq> []) (map fst (Prelude.slice (vk_Routes k)))))"
    unfolding kind_entries_def map_filter_keys [symmetric, where h = "\<lambda>r props. RouteConnector \<lparr>rc_Path = r, rc_Version = version,
      rc_Kind = g, rc_ManifestKind = k, rc_Methods = spec3PropsToConnectorMethods E R props (sch_Kind (gk_Schema g)) version r\<rparr>"]
    by (simp add: Let_def comp_def)
  then show ?thesis by (simp add: route_names_def)
qed

lemma resource_path_inject: "resource_path p a = resource_path p b \<longleftrightarrow> a = b" "resource_path p a \<noteq> p" "p \<noteq> resource_path p a"
  by (auto simp: resource_path_def)

lemma entry_key_plural:
  assumes "CHR ''/'' \<notin> set p" "key = p \<or> key = resource_path p sub"
  shows "hd (split_on CHR ''/'' key) = p"
  using assms by (auto simp: resource_path_def split_on_append split_on_plain)

lemma entries_distinct:
  "separate_kinds ks \<Longrightarrow> distinct (map fst (concat (map (kind_entries E R version) ks)))"
proof (induction ks)
  case (Cons entry ks)
  obtain g k where entry: "entry = (g, k)" by fastforce
  have plural: "hd (split_on CHR ''/'' key) = sch_Plural (gk_Schema g')"
    if "(g', k') \<in> set (entry # ks)" "key \<in> fst ` set (kind_entries E R version (g', k'))" for g' k' key
  proof -
    have "key \<in> set (map fst (kind_entries E R version (g', k')))" using that(2) by simp
    then obtain sub where "key = sch_Plural (gk_Schema g') \<or> key = resource_path (sch_Plural (gk_Schema g')) sub"
      unfolding entry_keys by auto
    moreover have "CHR ''/'' \<notin> set (sch_Plural (gk_Schema g'))" using Cons.prems that(1) unfolding separate_kinds_def by blast
    ultimately show ?thesis by (intro entry_key_plural)
  qed
  have "distinct (map fst (kind_entries E R version (g, k)))"
    using Cons.prems unfolding entry entry_keys separate_kinds_def
    by (auto simp: distinct_map inj_on_def resource_path_inject image_iff)
  moreover have "distinct (map fst (concat (map (kind_entries E R version) ks)))"
    using Cons by (simp add: separate_kinds_def)
  moreover have other: "key \<notin> fst ` set (kind_entries E R version (g', k'))"
    if "(g', k') \<in> set ks" "key \<in> fst ` set (kind_entries E R version (g, k))" for key g' k'
  proof
    assume "key \<in> fst ` set (kind_entries E R version (g', k'))"
    then have "sch_Plural (gk_Schema g') = sch_Plural (gk_Schema g)"
      using plural [of g' k' key] plural [of g k key] that entry by simp
    moreover have "sch_Plural (gk_Schema g) \<notin> (\<lambda>(g, k). sch_Plural (gk_Schema g)) ` set ks"
      using Cons.prems by (simp add: separate_kinds_def entry)
    ultimately show False using that(1) by force
  qed
  moreover have "fst ` set (kind_entries E R version (g, k)) \<inter> fst ` set (concat (map (kind_entries E R version) ks)) = {}"
    using other by (auto simp: disjoint_iff)
  ultimately show ?case unfolding entry by simp
qed simp

text \<open>The URL of a route of an object, as the Kubernetes API server lays them out.\<close>

definition object_segments :: "string \<Rightarrow> string \<Rightarrow> string \<Rightarrow> string \<Rightarrow> string list" where
  "object_segments scope namespace plural name =
     (if scope = ClusterScope then [plural, name] else [''namespaces'', namespace, plural, name])"

definition object_route_url :: "string \<Rightarrow> string \<Rightarrow> string \<Rightarrow> string \<Rightarrow> string \<Rightarrow> string \<Rightarrow> string \<Rightarrow> string" where
  "object_route_url scope group' version namespace plural name rpath =
     ''/apis/'' @ gv_String group' version @ CHR ''/'' # join ''/'' (object_segments scope namespace plural name @ [rpath])"

lemma no_prefix_match:
  assumes "CHR ''/'' \<notin> set group'" "CHR ''.'' \<in> set group'" "CHR ''.'' \<notin> set xs"
  shows "group' @ CHR ''/'' # ys \<noteq> xs @ CHR ''/'' # zs"
proof
  assume "group' @ CHR ''/'' # ys = xs @ CHR ''/'' # zs"
  then obtain us where "group' = xs @ us \<and> us @ CHR ''/'' # ys = CHR ''/'' # zs \<or> group' @ us = xs \<and> CHR ''/'' # ys = us @ CHR ''/'' # zs"
    unfolding append_eq_append_conv2 by blast
  then show False using assms by (cases us) auto
qed

lemma group_version_index:
  assumes "CHR ''/'' \<notin> set group'" "CHR ''.'' \<in> set group'"
  shows "str_index (gv_String group' version) (''/apis/'' @ gv_String group' version @ s) = Some 6"
proof -
  have gv: "gv_String group' version = group' @ CHR ''/'' # version" using assms(2) by (auto simp: gv_String_def)
  have "take (length (gv_String group' version)) (drop i (''/apis/'' @ gv_String group' version @ s)) \<noteq> gv_String group' version"
    if "i < 6" for i
  proof
    let ?rest = "gv_String group' version @ s"
    assume eq: "take (length (gv_String group' version)) (drop i (''/apis/'' @ ?rest)) = gv_String group' version"
    have "i \<in> {0, 1, 2, 3, 4, 5}" using that by auto
    then obtain xs where xs: "drop i (''/apis/'' @ ?rest) = xs @ CHR ''/'' # ?rest" "CHR ''.'' \<notin> set xs"
    proof -
      have "drop i (''/apis/'' @ ?rest) = take (5 - i) (drop i ''/apis'') @ CHR ''/'' # ?rest \<and>
          CHR ''.'' \<notin> set (take (5 - i) (drop i ''/apis''))" using \<open>i \<in> {0, 1, 2, 3, 4, 5}\<close> by auto
      then show ?thesis by (metis that)
    qed
    have "group' @ CHR ''/'' # (version @ drop (length (gv_String group' version)) (drop i (''/apis/'' @ ?rest))) = xs @ CHR ''/'' # ?rest"
      using eq by (metis append_Cons append_assoc append_take_drop_id gv xs(1))
    then show False using no_prefix_match [OF assms xs(2)] by blast
  qed
  then have "\<forall>i < length ''/apis/''. take (length (gv_String group' version)) (drop i (''/apis/'' @ gv_String group' version @ s)) \<noteq> gv_String group' version"
    by simp
  from str_index_at [OF this] show ?thesis by simp
qed

lemma object_route_path:
  assumes "CHR ''/'' \<notin> set group'" "CHR ''.'' \<in> set group'" "\<forall>p \<in> {namespace, plural, name}. CHR ''/'' \<notin> set p"
  shows "urlToPath (gv_String group' version) scope (object_route_url scope group' version namespace plural name rpath) = Returned rpath"
proof (rule urlToPath_route [where segs = "object_segments scope namespace plural name" and i = 6])
  show "str_index (gv_String group' version) (object_route_url scope group' version namespace plural name rpath) = Some 6"
    unfolding object_route_url_def by (rule group_version_index [OF assms(1,2)])
  show "drop (6 + length (gv_String group' version)) (object_route_url scope group' version namespace plural name rpath) =
      CHR ''/'' # join ''/'' (object_segments scope namespace plural name @ [rpath])"
    unfolding object_route_url_def add.commute [of 6] drop_drop [symmetric] by simp
qed (use assms(3) in \<open>auto simp: object_segments_def\<close>)

lemma resource_enabled_cong:
  "in_manifest I = in_manifest I' \<Longrightarrow> in_resourceConfig I = in_resourceConfig I' \<Longrightarrow> resource_enabled I = resource_enabled I'"
  by (intro ext) (simp add: resource_enabled_def split: option.split)

lemma install_group_scheme:
  assumes "InstallAPIs E fresh services I = (Returned (ag, ws), I')"
  shows "in_manifest I' = in_manifest I \<and> in_resolver I' = in_resolver I \<and> in_resourceConfig I' = in_resourceConfig I \<and>
    in_provider I' = in_provider I \<and> in_app I' = in_app I \<and>
    (\<exists>sch services'. install_group E I' sch = Inr ag \<and> InstallAPIGroup E ag services = Inr services' \<and>
      install_version_routes E I' services' = Returned ws)"
proof -
  have add: "in_manifest I'' = in_manifest J \<and> in_resolver I'' = in_resolver J \<and> in_resourceConfig I'' = in_resourceConfig J \<and>
      in_provider I'' = in_provider J \<and> in_app I'' = in_app J"
    if "AddToScheme refused has_get cmp untyped ord kind_ord scheme J = (err, sch, I'')" for refused has_get cmp untyped ord kind_ord scheme J err sch I''
    using that by (auto simp: AddToScheme_def Let_def split: option.splits sum.splits prod.splits if_splits)
  obtain sch where sch: "installed_scheme E fresh I = (Inr sch, I')"
    using assms by (auto simp: InstallAPIs_def split: prod.splits sum.splits outcome.splits)
  then have "in_manifest I' = in_manifest I \<and> in_resolver I' = in_resolver I \<and> in_resourceConfig I' = in_resourceConfig I \<and>
      in_provider I' = in_provider I \<and> in_app I' = in_app I"
    by (auto simp: installed_scheme_def split: option.splits prod.splits dest!: add)
  then show ?thesis using assms sch by (auto simp: InstallAPIs_def split: sum.splits outcome.splits)
qed

lemma installed_entry:
  assumes install: "InstallAPIs E fresh services I = (Returned (ag, ws), I')"
    and ord: "\<And>xs. mset (ie_ord E xs) = mset xs"
    and kinds: "getKindsByGroupVersion I = Inr kbv" "(v, ks) \<in> set kbv" "(g, k) \<in> set ks" "separate_kinds ks"
    and enabled: "resource_enabled I v (sch_Plural (gk_Schema g))"
    and entry: "(key, st) \<in> set (kind_entries E (in_resolver I) v (g, k))"
  shows "\<exists>storage. ag_Storage ag v = Some storage \<and> storage key = Some st"
proof -
  note same = install_group_scheme [OF install]
  have "resource_enabled I' = resource_enabled I" using same by (intro resource_enabled_cong) simp_all
  then have kbv': "getKindsByGroupVersion I' = Inr kbv" and en: "enabled_kinds I' v ks = enabled_kinds I v ks"
    using kinds(1) by (simp_all add: same getKindsByGroupVersion_def enabled_kinds_def)
  obtain sch where "install_group E I' sch = Inr ag" using same by blast
  then have store: "version_storages E I' (ie_ord E kbv) Map.empty = Inr (ag_Storage ag)"
    using kbv' by (auto simp: install_group_def split: sum.splits)
  have "distinct (map fst kbv)" using resolve_kinds_set(4) [OF kinds(1) [unfolded getKindsByGroupVersion_def]] by simp
  then have d: "distinct (map fst (ie_ord E kbv))" using ord [of kbv] by (metis mset_eq_imp_distinct_iff mset_map)
  have in_ord: "(v, ks) \<in> set (ie_ord E kbv)" using kinds(2) mset_eq_setD [OF ord [of kbv]] by simp
  have gk: "(g, k) \<in> set (enabled_kinds I v ks)" using kinds(3) enabled by (simp add: enabled_kinds_def)
  then have ne: "enabled_kinds I' v ks \<noteq> []" using en by auto
  let ?entries = "concat (map (kind_entries E (in_resolver I) v) (enabled_kinds I v ks))"
  have at: "ag_Storage ag v = Some (map_of (rev ?entries))"
    using version_storages_at [OF store d in_ord ne] en same by simp
  have "separate_kinds (enabled_kinds I v ks)"
    using kinds(4) by (auto simp: separate_kinds_def enabled_kinds_def distinct_map_filter)
  then have "distinct (map fst (rev ?entries))" using entries_distinct by (simp only: rev_map [symmetric] distinct_rev)
  moreover have "(key, st) \<in> set (rev ?entries)" unfolding set_rev set_concat set_map using gk entry by blast
  ultimately have "map_of (rev ?entries) key = Some st" by (rule map_of_is_SomeI)
  with at show ?thesis by (intro exI conjI)
qed

text \<open>What a route's caller gets back for each answer of the app.\<close>

definition object_route_answer ::
  "(go_error \<Rightarrow> bool) \<Rightarrow> (route_status \<Rightarrow> string) \<Rightarrow> (go_error \<Rightarrow> string option) \<Rightarrow> (go_error \<Rightarrow> int option) \<Rightarrow> route_status \<Rightarrow>
   go_error option ran \<times> 's \<Rightarrow> (go_error + http_write list) ran \<times> 's" where
  "object_route_answer nf encode marshal code status result = (case result of
     (Panic, s) \<Rightarrow> (Panic, s)
   | (Ran None, s) \<Rightarrow> (Ran (Inr []), s)
   | (Ran (Some e), s) \<Rightarrow>
       (Ran (Inr (if nf e then [WriteHeader 404, WriteBody (encode status)] else ServeHTTP_error marshal code (Some e))), s))"

text \<open>
  C31. Every custom route of a kind is served, and a call of it reaches the app exactly: after an app is installed on
  an API server, each route that the manifest gives an enabled kind has its own connector, for just the methods that
  have an operation; and a request to the route below an object's URL calls the app once, with the namespace, name,
  group, version and kind of the object, the route's path, and the request's method and body. The caller gets what
  the app answers, or 404 when the app does not know the route.
\<close>

theorem object_routes_reach_app:
  assumes install: "InstallAPIs E fresh services I = (Returned (ag, ws), I')"
    and ord: "\<And>xs. mset (ie_ord E xs) = mset xs"
    and kinds: "getKindsByGroupVersion I = Inr kbv" "(v, ks) \<in> set kbv" "(g, k) \<in> set ks" "separate_kinds ks"
    and enabled: "resource_enabled I v (sch_Plural (gk_Schema g))"
    and route: "(route, props) \<in> set (Prelude.slice (vk_Routes k))" "route \<noteq> []"
    and group: "sch_Group (gk_Schema g) = md_Group (in_manifest I)" "sch_Version (gk_Schema g) = v"
      "CHR ''/'' \<notin> set (md_Group (in_manifest I))" "CHR ''.'' \<in> set (md_Group (in_manifest I))"
    and call: "CHR ''/'' \<notin> set namespace" "CHR ''/'' \<notin> set name" "in_app J = Some a" "in_manifest J = in_manifest I"
      "hc_Path hc = object_route_url (gk_Scope g) (md_Group (in_manifest I)) v namespace (sch_Plural (gk_Schema g)) name (route_path route)"
      "info = \<lparr>ri_Name = name, ri_Namespace = namespace, ri_APIGroup = md_Group (in_manifest I), ri_APIVersion = v\<rparr>"
      "req = \<lparr>rr_Identifier = \<lparr>fi_Namespace = namespace, fi_Name = name, fi_Group = md_Group (in_manifest I), fi_Version = v,
         fi_Kind = sch_Kind (gk_Schema g), fi_Plural = []\<rparr>, rr_Path = route_path route, rr_Method = hc_Method hc, rr_Body = hc_Body hc\<rparr>"
  shows "\<exists>storage rc. ag_Storage ag v = Some storage \<and>
    storage (resource_path (sch_Plural (gk_Schema g)) (route_path route)) = Some (RouteConnector rc) \<and>
    map fst (rc_Methods rc) = filter (\<lambda>m. ie_operation E props m \<noteq> None) http_methods \<and>
    serve_object_route app_call nf encode marshal code J rc (Some info) hc s =
      object_route_answer nf encode marshal code (not_found_status (md_Group (in_manifest I)) rc req) (app_call a req s)"
proof -
  let ?r = "route_path route" and ?p = "sch_Plural (gk_Schema g)"
  let ?rc = "\<lparr>rc_Path = ?r, rc_Version = v, rc_Kind = g, rc_ManifestKind = k,
    rc_Methods = spec3PropsToConnectorMethods E (in_resolver I) props (sch_Kind (gk_Schema g)) v ?r\<rparr>"
  have "(resource_path ?p ?r, RouteConnector ?rc) \<in> set (kind_entries E (in_resolver I) v (g, k))"
    using route by (force simp: kind_entries_def Let_def List.map_filter_def)
  from installed_entry [OF install ord kinds enabled this] obtain storage where
    storage: "ag_Storage ag v = Some storage" "storage (resource_path ?p ?r) = Some (RouteConnector ?rc)" by blast
  have "CHR ''/'' \<notin> set ?p" using kinds(3,4) unfolding separate_kinds_def by blast
  then have path: "urlToPath (gv_String (sch_Group (gk_Schema g)) (sch_Version (gk_Schema g))) (gk_Scope g) (hc_Path hc) = Returned ?r"
    unfolding group(1,2) call(5) by (intro object_route_path [OF group(3,4)]) (use call(1,2) in auto)
  have serve: "serve_object_route app_call nf encode marshal code J ?rc (Some info) hc s =
      object_route_answer nf encode marshal code (not_found_status (md_Group (in_manifest I)) ?rc req) (app_call a req s)"
    unfolding serve_object_route_def Connect_def route_handler_def installer_App_def object_route_answer_def call(3,4,6,7)
    by (simp add: path connect_identifier_def ServeHTTP_error_def split: ran.split prod.split option.split)
  show ?thesis
    by (intro exI [of _ storage] exI [of _ ?rc] conjI storage serve) (simp add: spec3PropsToConnectorMethods_def comp_def)
qed

text \<open>The two-version app installed on a server, with a route for each version and a log route for its kind.\<close>

definition two_version_env :: "nat install_env" where
  "two_version_env = \<lparr>ie_refused = (\<lambda>_. None), ie_operation = (\<lambda>props m. if m = ''GET'' then Some ''getIt'' else None),
     ie_mimeTypes = (\<lambda>_ _. []), ie_cmp = string_cmp, ie_untyped = 0, ie_ord = rev, ie_kind_ord = rev,
     ie_storeError = (\<lambda>_. None), ie_prioritized = (\<lambda>_ _. [''v1'', ''v2'']), ie_install = (\<lambda>_ services. Inr services)\<rparr>"

lemma kinds_scheme [simp]: "getKindsByGroupVersion (I\<lparr>in_scheme := x\<rparr>) = getKindsByGroupVersion I"
  by (simp add: getKindsByGroupVersion_def)

lemma two_version_installed_with:
  fixes V :: "(nat, 'a, unit, unit) installer"
  assumes V: "in_scheme V = None" "in_manifest V = two_versions" "in_resolver V = two_version_resolver"
    "in_resourceConfig V = None" "pv_ManifestData (in_provider V) = Some two_versions"
  shows "\<exists>ag ws I'. InstallAPIs two_version_env [] (Some []) V = (Returned (ag, Some ws), I')"
proof -
  let ?J = "V\<lparr>in_scheme := Some []\<rparr>"
  have kinds: "getKindsByGroupVersion V =
      Inr [(''v1'', [(two_version_type ''v1'', two_version_kind)]), (''v2'', [(two_version_type ''v2'', two_version_kind)])]"
    using two_versions_kinds(1) by (simp add: getKindsByGroupVersion_def V) (simp add: two_version_resolver_def two_version_kind_def)
  obtain sch where add: "AddToScheme (ie_refused two_version_env) (\<lambda>props. ie_operation two_version_env props ''GET'' \<noteq> None)
      (ie_cmp two_version_env) (ie_untyped two_version_env) (ie_ord two_version_env) (ie_kind_ord two_version_env) (Some []) ?J =
      (None, Some sch, ?J)"
    by (simp add: AddToScheme_def kinds registered_all V Let_def two_version_env_def)
  let ?I = "V\<lparr>in_scheme := Some sch\<rparr>"
  have scheme: "installed_scheme two_version_env [] V = (Inr sch, ?I)"
    using add by (simp add: installed_scheme_def V)
  have enabled: "resource_enabled ?I v r" for v r by (simp add: resource_enabled_def V)
  have store: "\<exists>st. version_storages two_version_env ?I (ie_ord two_version_env
      [(''v1'', [(two_version_type ''v1'', two_version_kind)]), (''v2'', [(two_version_type ''v2'', two_version_kind)])]) Map.empty = Inr st \<and>
      st ''app.ext'' = None"
    unfolding version_storages.simps kind_storages.simps two_version_env_def install_env.simps rev.simps append.simps
    by (simp add: enabled Let_def)
  have group: "\<exists>ag. install_group two_version_env ?I sch = Inr ag \<and> ag_Group ag = ''app.ext'' \<and> ag_Prioritized ag = [''v1'', ''v2''] \<and>
      ag_Storage ag ''app.ext'' = None"
  proof -
    obtain st where st: "version_storages two_version_env ?I (ie_ord two_version_env
      [(''v1'', [(two_version_type ''v1'', two_version_kind)]), (''v2'', [(two_version_type ''v2'', two_version_kind)])]) Map.empty = Inr st"
      "st ''app.ext'' = None" using store by blast
    have "prioritized_versions ?I kbv [''v1'', ''v2''] = [''v1'', ''v2'']" for kbv
      by (simp add: prioritized_versions_def V two_versions_defs)
    moreover have "md_Group (in_manifest ?I) = ''app.ext''" "ie_prioritized two_version_env = (\<lambda>_ _. [''v1'', ''v2''])"
      by (simp_all add: V two_versions_defs two_version_env_def)
    ultimately show ?thesis using st by (simp add: install_group_def kinds)
  qed
  then obtain ag where ag: "install_group two_version_env ?I sch = Inr ag" "ag_Group ag = ''app.ext''"
    "ag_Prioritized ag = [''v1'', ''v2'']" "ag_Storage ag ''app.ext'' = None" by blast
  obtain ws where ws: "InstallAPIGroup two_version_env ag (Some []) = Inr (Some ws)"
    "map ws_RootPath ws = [''/apis/app.ext/v1'', ''/apis/app.ext/v2'']"
    by (simp add: InstallAPIGroup_def ag(2-4) root_path_def two_version_env_def)
  then obtain ws' where "install_version_routes two_version_env ?I (Some ws) = Returned (Some ws')"
    by (auto simp: install_version_routes_def V two_versions_defs hasEnabledRoutes_def isCustomRouteEnabled_def resource_enabled_def
        root_path_def map_eq_Cons_conv)
  then have "InstallAPIs two_version_env [] (Some []) V = (Returned (ag, Some ws'), ?I)"
    by (simp add: InstallAPIs_def scheme ag(1) ws(1))
  then show ?thesis by blast
qed

lemma two_version_installed:
  "\<exists>ag ws I'. InstallAPIs two_version_env [] (Some []) (two_version_installer :: (nat, 'a, unit, unit) installer) = (Returned (ag, Some ws), I')"
  by (rule two_version_installed_with) (simp_all add: two_versions_defs)

text \<open>A log of the object \<open>x\<close> in \<open>ns\<close>; this app counts its calls and knows just the log route.\<close>

definition log_app :: "nat \<Rightarrow> CustomRouteRequest \<Rightarrow> nat \<Rightarrow> go_error option ran \<times> nat" where
  "log_app a req n = (if rr_Path req = ''log'' \<and> fi_Name (rr_Identifier req) = ''x'' then (Ran None, Suc n) else (Ran (Some (GoErr ''none'')), n))"

theorem object_routes_reach_app_witness:
  "\<exists>ag ws I'. InstallAPIs two_version_env [] (Some []) (two_version_installer :: (nat, nat, unit, unit) installer) = (Returned (ag, Some ws), I') \<and>
     (\<exists>storage rc. ag_Storage ag ''v2'' = Some storage \<and> storage ''foos/log'' = Some (RouteConnector rc) \<and>
       map fst (rc_Methods rc) = [''GET''] \<and>
       serve_object_route log_app (\<lambda>_. True) (\<lambda>_. []) (\<lambda>_. None) (\<lambda>_. None) ((two_version_installer :: (nat, nat, unit, unit) installer)\<lparr>in_app := Some 0\<rparr>) rc
         (Some \<lparr>ri_Name = ''x'', ri_Namespace = ''ns'', ri_APIGroup = ''app.ext'', ri_APIVersion = ''v2''\<rparr>)
         \<lparr>hc_Path = ''/apis/app.ext/v2/namespaces/ns/foos/x/log'', hc_Method = ''GET'', hc_Body = []\<rparr> 4 = (Ran (Inr []), 5))"
proof -
  let ?V = "two_version_installer :: (nat, nat, unit, unit) installer"
  obtain ag ws I' where install: "InstallAPIs two_version_env [] (Some []) ?V = (Returned (ag, Some ws), I')"
    using two_version_installed by blast
  let ?J = "?V\<lparr>in_app := Some 0\<rparr>"
  let ?info = "\<lparr>ri_Name = ''x'', ri_Namespace = ''ns'', ri_APIGroup = ''app.ext'', ri_APIVersion = ''v2''\<rparr>"
  let ?hc = "\<lparr>hc_Path = ''/apis/app.ext/v2/namespaces/ns/foos/x/log'', hc_Method = ''GET'', hc_Body = []\<rparr>"
  let ?g = "two_version_type ''v2''"
  have ord: "mset (ie_ord two_version_env xs) = mset xs" for xs by (simp add: two_version_env_def)
  have separate: "separate_kinds [(?g, two_version_kind)]"
  proof -
    have "route_names two_version_kind = [''log'']" by (simp add: two_version_kind_def route_names_def route_path_def)
    then show ?thesis by (simp add: separate_kinds_def two_version_type_def)
  qed
  have parts: "sch_Plural (gk_Schema ?g) = ''foos''" "sch_Group (gk_Schema ?g) = ''app.ext''" "sch_Version (gk_Schema ?g) = ''v2''"
    "md_Group (in_manifest ?V) = ''app.ext''" "gk_Scope ?g = NamespacedScope" "route_path ''/log'' = ''log''"
    "sch_Kind (gk_Schema ?g) = ''Foo''"
    by (simp_all add: two_versions_defs route_path_def)
  have route: "(''/log'', JNull) \<in> set (Prelude.slice (vk_Routes two_version_kind))" "''/log'' \<noteq> []"
    by (simp_all add: two_version_kind_def)
  have enabled: "resource_enabled ?V ''v2'' (sch_Plural (gk_Schema ?g))"
    by (simp add: resource_enabled_def two_version_installer_def NewDefaultAppInstaller_def)
  have url: "hc_Path ?hc = object_route_url (gk_Scope ?g) (md_Group (in_manifest ?V)) ''v2'' ''ns''
      (sch_Plural (gk_Schema ?g)) ''x'' (route_path ''/log'')"
    unfolding parts by (simp add: object_route_url_def gv_String_def object_segments_def NamespacedScope_def ClusterScope_def)
  have info: "?info = \<lparr>ri_Name = ''x'', ri_Namespace = ''ns'', ri_APIGroup = md_Group (in_manifest ?V), ri_APIVersion = ''v2''\<rparr>"
    unfolding parts by simp
  obtain storage rc where "ag_Storage ag ''v2'' = Some storage"
    "storage (resource_path ''foos'' ''log'') = Some (RouteConnector rc)"
    "map fst (rc_Methods rc) = filter (\<lambda>m. ie_operation two_version_env JNull m \<noteq> None) http_methods"
    "serve_object_route log_app (\<lambda>_. True) (\<lambda>_. []) (\<lambda>_. None) (\<lambda>_. None) ?J rc (Some ?info) ?hc 4 =
      object_route_answer (\<lambda>_. True) (\<lambda>_. []) (\<lambda>_. None) (\<lambda>_. None) (not_found_status ''app.ext'' rc
        \<lparr>rr_Identifier = \<lparr>fi_Namespace = ''ns'', fi_Name = ''x'', fi_Group = ''app.ext'', fi_Version = ''v2'', fi_Kind = ''Foo'',
          fi_Plural = []\<rparr>, rr_Path = ''log'', rr_Method = ''GET'', rr_Body = []\<rparr>)
        (log_app 0 \<lparr>rr_Identifier = \<lparr>fi_Namespace = ''ns'', fi_Name = ''x'', fi_Group = ''app.ext'', fi_Version = ''v2'', fi_Kind = ''Foo'',
          fi_Plural = []\<rparr>, rr_Path = ''log'', rr_Method = ''GET'', rr_Body = []\<rparr> 4)"
    using object_routes_reach_app [OF install ord two_versions_kinds(2) _ _ separate enabled route _ _ _ _ _ _ _ _ url info refl,
        where J = ?J and a = 0 and app_call = log_app and nf = "\<lambda>_. True" and encode = "\<lambda>_. []" and marshal = "\<lambda>_. None"
        and code = "\<lambda>_. None" and s = 4]
    by (auto simp: parts)
  moreover have "filter (\<lambda>m. ie_operation two_version_env JNull m \<noteq> None) http_methods = [''GET'']"
    by (simp add: two_version_env_def http_methods_def)
  ultimately show ?thesis using install
    by (intro exI [of _ ag] exI [of _ ws] exI [of _ I'] exI [of _ storage] exI [of _ rc] conjI)
       (simp_all add: resource_path_def object_route_answer_def log_app_def)
qed

section \<open>The routes of versions\<close>

text \<open>What web services serve: routes below root paths.\<close>

definition served :: "web_service list option \<Rightarrow> (string \<times> ws_route) set" where
  "served services = (case services of None \<Rightarrow> {} | Some ws \<Rightarrow> {(ws_RootPath w, r) | w r. w \<in> set ws \<and> r \<in> set (ws_Routes w)})"

lemma served_simps [simp]:
  "served None = {}" "served (Some []) = {}"
  "served (Some (w # ws)) = Pair (ws_RootPath w) ` set (ws_Routes w) \<union> served (Some ws)"
  "served (Some (ws @ ws')) = served (Some ws) \<union> served (Some ws')"
  by (auto simp: served_def)

lemma ensure_services_served: "ensure_services ag vs services = Inr services' \<Longrightarrow> served services' = served services"
  by (induction ag vs services rule: ensure_services.induct) (auto split: if_splits option.splits)

lemma add_routes_to_served: "add_routes_to root rs ws = Some ws' \<Longrightarrow> served (Some ws') = served (Some ws) \<union> Pair root ` set rs"
  by (induction root rs ws arbitrary: ws' rule: add_routes_to.induct) (auto split: if_splits)

lemma no_enabled_routes:
  assumes "v \<in> set (md_Versions (in_manifest I))" "\<not> hasEnabledRoutes I (mv_Name v)"
  shows "version_ws_routes E I v = []"
proof -
  have "filter (\<lambda>p. isCustomRouteEnabled I (mv_Name v) (fst p)) ps = []" if "set ps \<subseteq> set (mv_Namespaced v) \<union> set (mv_Cluster v)" for ps
    using assms that by (auto simp: hasEnabledRoutes_def filter_empty_conv)
  then show ?thesis by (simp add: version_ws_routes_def)
qed

lemma install_routes_served:
  "install_routes E I vs ws = Inr ws' \<Longrightarrow> set vs \<subseteq> set (md_Versions (in_manifest I)) \<Longrightarrow>
   served (Some ws') = served (Some ws) \<union>
     (\<Union>v \<in> set vs. Pair (root_path (md_Group (in_manifest I)) (mv_Name v)) ` set (version_ws_routes E I v))"
proof (induction E I vs ws arbitrary: ws' rule: install_routes.induct)
  case (2 E I v vs ws)
  then show ?case
    by (auto simp: no_enabled_routes dest!: add_routes_to_served split: if_splits option.splits)
qed simp

text \<open>A route that a version of the manifest declares, with an operation, and that is enabled.\<close>

definition declared_route :: "'t install_env \<Rightarrow> ('t, 'a, 'c, 'k) installer \<Rightarrow> ManifestVersion \<Rightarrow> ws_route \<Rightarrow> bool" where
  "declared_route E I v r \<longleftrightarrow>
     (\<exists>rpath props opId. (wr_Scope r = NamespacedScope \<and> (rpath, props) \<in> set (mv_Namespaced v) \<or>
         wr_Scope r = ClusterScope \<and> (rpath, props) \<in> set (mv_Cluster v)) \<and>
       isCustomRouteEnabled I (mv_Name v) rpath \<and> wr_Method r \<in> set http_methods \<and> ie_operation E props (wr_Method r) = Some opId \<and>
       r = \<lparr>wr_Method = wr_Method r, wr_Path = full_route_path (wr_Scope r) rpath, wr_OperationId = prefixRouteID opId (wr_Method r),
            wr_Version = mv_Name v, wr_RoutePath = rpath, wr_Scope = wr_Scope r\<rparr>)"

lemma map_filter_set: "set (List.map_filter f xs) = {y. \<exists>x \<in> set xs. f x = Some y}"
  by (force simp: List.map_filter_def)

lemma registered_route:
  "r \<in> set (registerResourceRoute E version scope (rpath, props)) \<longleftrightarrow>
   (\<exists>opId. wr_Method r \<in> set http_methods \<and> ie_operation E props (wr_Method r) = Some opId \<and>
     r = \<lparr>wr_Method = wr_Method r, wr_Path = full_route_path scope rpath, wr_OperationId = prefixRouteID opId (wr_Method r),
          wr_Version = version, wr_RoutePath = rpath, wr_Scope = scope\<rparr>)"
  unfolding registerResourceRoute_def map_filter_set prod.case
  by (auto simp: map_option_eq_Some) (metis ws_route.select_convs(1))+

lemma version_ws_routes_declared: "r \<in> set (version_ws_routes E I v) \<longleftrightarrow> declared_route E I v r"
proof -
  have scope: "r \<in> set (registerResourceRoute E version scope p) \<Longrightarrow> wr_Scope r = scope" for r E version scope p
    by (cases p) (metis registered_route ws_route.select_convs(6))
  show ?thesis
  proof
    assume "r \<in> set (version_ws_routes E I v)"
    then obtain rpath props where "isCustomRouteEnabled I (mv_Name v) rpath"
      "r \<in> set (registerResourceRoute E (mv_Name v) (wr_Scope r) (rpath, props))"
      "wr_Scope r = NamespacedScope \<and> (rpath, props) \<in> set (mv_Namespaced v) \<or> wr_Scope r = ClusterScope \<and> (rpath, props) \<in> set (mv_Cluster v)"
      unfolding version_ws_routes_def by auto (metis scope)+
    then show "declared_route E I v r" unfolding declared_route_def registered_route by blast
  next
    assume "declared_route E I v r"
    then obtain rpath props where "isCustomRouteEnabled I (mv_Name v) rpath"
      "r \<in> set (registerResourceRoute E (mv_Name v) (wr_Scope r) (rpath, props))"
      "wr_Scope r = NamespacedScope \<and> (rpath, props) \<in> set (mv_Namespaced v) \<or> wr_Scope r = ClusterScope \<and> (rpath, props) \<in> set (mv_Cluster v)"
      unfolding declared_route_def registered_route by blast
    then show "r \<in> set (version_ws_routes E I v)" unfolding version_ws_routes_def by force
  qed
qed

lemma InstallAPIGroup_served:
  "InstallAPIGroup E ag services = Inr services' \<Longrightarrow> \<exists>ws0. ie_install E ag services = Inr ws0 \<and> served services' = served ws0"
  by (auto simp: InstallAPIGroup_def ensure_services_served split: sum.splits)

lemma declared_route_installer:
  "in_manifest I = in_manifest I' \<Longrightarrow> in_resourceConfig I = in_resourceConfig I' \<Longrightarrow> declared_route E I v r = declared_route E I' v r"
  by (drule (1) resource_enabled_cong) (simp add: declared_route_def isCustomRouteEnabled_def)

text \<open>A request that names no resource runs the version's route, or none.\<close>

lemma version_route_call:
  assumes "NewApp AE cfg = Inr (a, p)" "well_named cfg" "request_well_named req"
    and "fi_Kind (rr_Identifier req) = []" "fi_Plural (rr_Identifier req) = []"
  shows "CallCustomRoute a req s = (case configured_version_route cfg req of
     Some h \<Rightarrow> call_route h req s
   | None \<Rightarrow> (Ran (Some ErrCustomRouteNotFound), s))"
proof -
  have d: "distinct (map kind_key (ac_ManagedKinds cfg))" "distinct (map kind_plural_key (ac_ManagedKinds cfg))"
    using assms(2) by (auto simp: well_named_def)
  have "\<not> names_kind (rr_Identifier req) (mk_Kind k)" if "k \<in> set (ac_ManagedKinds cfg)" for k
    using assms(2,4,5) that by (auto simp: well_named_def kind_well_named_def names_kind_def split: option.splits)
  then have "kind_of_request a (rr_Identifier req) = None"
    unfolding kind_of_request_eq [OF assms(1-3)] by (simp add: find_None_iff)
  then show ?thesis
    using NewApp_tables(3) [OF assms(1) d] version_route_lookup [OF assms(2,3)] assms(4,5)
    by (simp add: CallCustomRoute_def split: option.split)
qed

lemma installed_routes_served:
  assumes install: "InstallAPIs E fresh services I = (Returned (ag, ws), I')"
    and manifest: "pv_ManifestData (in_provider I) = Some (in_manifest I)"
  shows "\<exists>ws0. ie_install E ag services = Inr ws0 \<and> served ws = served ws0 \<union>
    {(root_path (md_Group (in_manifest I)) (mv_Name v), r) | v r. v \<in> set (md_Versions (in_manifest I)) \<and> declared_route E I v r}"
proof -
  note same = install_group_scheme [OF install]
  let ?decl = "{(root_path (md_Group (in_manifest I)) (mv_Name v), r) | v r. v \<in> set (md_Versions (in_manifest I)) \<and> declared_route E I v r}"
  obtain services' ws0 where s': "InstallAPIGroup E ag services = Inr services'" "install_version_routes E I' services' = Returned ws"
    "ie_install E ag services = Inr ws0" "served services' = served ws0"
    using same InstallAPIGroup_served by metis
  have m: "pv_ManifestData (in_provider I') = Some (in_manifest I)" "in_manifest I' = in_manifest I" using same manifest by simp_all
  have decl: "declared_route E I' v r \<longleftrightarrow> declared_route E I v r" for v r using same by (intro declared_route_installer) simp_all
  have "served ws = served services' \<union> ?decl"
  proof (cases "\<exists>v \<in> set (md_Versions (in_manifest I)). mv_Namespaced v \<noteq> [] \<or> mv_Cluster v \<noteq> []")
    case True
    then obtain w w' where w: "services' = Some w" "ws = Some w'" "install_routes E I' (md_Versions (in_manifest I)) w = Inr w'"
      using s'(2) m by (auto simp: install_version_routes_def split: option.splits sum.splits if_splits)
    have "?decl = (\<Union>v \<in> set (md_Versions (in_manifest I)).
        Pair (root_path (md_Group (in_manifest I)) (mv_Name v)) ` set (version_ws_routes E I' v))"
      by (auto simp: version_ws_routes_declared decl)
    with install_routes_served [OF w(3)] show ?thesis unfolding w(1,2) m(2) by simp
  next
    case False
    then have "\<not> declared_route E I v r" if "v \<in> set (md_Versions (in_manifest I))" for v r using that by (auto simp: declared_route_def)
    moreover have "ws = services'" using False s'(2) m by (simp add: install_version_routes_def split: if_splits)
    ultimately show ?thesis by auto
  qed
  then show ?thesis using s'(3,4) by auto
qed

text \<open>
  C32. The routes of versions that an installed app serves are, besides what the server had, exactly the enabled ones
  that its manifest declares with an operation, each below the root path of its version; and a request at one of them
  runs the handler that the app's configuration has for just that version, scope, path and method, with the
  namespace of the request and no other resource. An error of the handler, or its absence, is answered by a 500.
\<close>

theorem version_routes_reach_handler:
  assumes install: "InstallAPIs E fresh services I = (Returned (ag, ws), I')"
    and manifest: "pv_ManifestData (in_provider I) = Some (in_manifest I)"
    and app: "NewApp AE cfg = Inr (a, p)" "well_named cfg" "in_app J = Some a"
    and req: "req = version_route_request J r namespace hc" "request_well_named req"
  shows "(\<exists>ws0. ie_install E ag services = Inr ws0 \<and> served ws = served ws0 \<union>
      {(root_path (md_Group (in_manifest I)) (mv_Name v), r) | v r. v \<in> set (md_Versions (in_manifest I)) \<and> declared_route E I v r}) \<and>
    serve_version_route CallCustomRoute encode J r namespace hc s = (case configured_version_route cfg req of
      None \<Rightarrow> (([WriteHeader 500, WriteBody (encode (FailureStatus ErrCustomRouteNotFound))], Ran ()), s)
    | Some None \<Rightarrow> (([], Panic), s)
    | Some (Some h) \<Rightarrow> (case h req s of
        (None, s') \<Rightarrow> (([], Ran ()), s')
      | (Some e, s') \<Rightarrow> (([WriteHeader 500, WriteBody (encode (FailureStatus e))], Ran ()), s')))"
proof
  show "\<exists>ws0. ie_install E ag services = Inr ws0 \<and> served ws = served ws0 \<union>
      {(root_path (md_Group (in_manifest I)) (mv_Name v), r) | v r. v \<in> set (md_Versions (in_manifest I)) \<and> declared_route E I v r}"
    by (rule installed_routes_served [OF install manifest])
  have "CallCustomRoute a req s = (case configured_version_route cfg req of
     Some h \<Rightarrow> call_route h req s | None \<Rightarrow> (Ran (Some ErrCustomRouteNotFound), s))"
    by (rule version_route_call [OF app(1,2) req(2)]) (simp_all add: req(1) version_route_request_def)
  then show "serve_version_route CallCustomRoute encode J r namespace hc s = (case configured_version_route cfg req of
      None \<Rightarrow> (([WriteHeader 500, WriteBody (encode (FailureStatus ErrCustomRouteNotFound))], Ran ()), s)
    | Some None \<Rightarrow> (([], Panic), s)
    | Some (Some h) \<Rightarrow> (case h req s of
        (None, s') \<Rightarrow> (([], Ran ()), s')
      | (Some e, s') \<Rightarrow> (([WriteHeader 500, WriteBody (encode (FailureStatus e))], Ran ()), s')))"
    unfolding serve_version_route_def installer_App_def app(3) req(1) [symmetric]
    by (simp add: call_route_def split: option.split prod.split)
qed

text \<open>The sample app of \<open>Simple_App\<close>, whose configuration has a route \<open>bar\<close> in version \<open>v1\<close>.\<close>

theorem version_routes_reach_handler_witness:
  "\<exists>ag ws I' a p r. InstallAPIs two_version_env [] (Some []) (two_version_installer :: (nat, (time, unit, nat) app, unit, unit) installer) = (Returned (ag, Some ws), I') \<and>
     NewApp sample_app_env sample_app_config = Inr (a, p) \<and>
     (''/apis/app.ext/v1'', r) \<in> served (Some ws) \<and> wr_RoutePath r = ''/bar'' \<and>
     serve_version_route CallCustomRoute (\<lambda>_. []) (two_version_installer\<lparr>in_app := Some a\<rparr>) r ''ns''
       \<lparr>hc_Path = [], hc_Method = ''GET'', hc_Body = []\<rparr> 5 = (([], Ran ()), 7)"
proof -
  obtain ag ws I' where install: "InstallAPIs two_version_env [] (Some [])
      (two_version_installer :: (nat, (time, unit, nat) app, unit, unit) installer) = (Returned (ag, Some ws), I')"
    using two_version_installed by blast
  obtain a p where a: "NewApp sample_app_env sample_app_config = Inr (a, p)"
    using sample_app_ok by (cases "NewApp sample_app_env sample_app_config") auto
  let ?I = "two_version_installer :: (nat, (time, unit, nat) app, unit, unit) installer"
  let ?J = "?I\<lparr>in_app := Some a\<rparr>" and ?hc = "\<lparr>hc_Path = [], hc_Method = ''GET'', hc_Body = []\<rparr>"
  let ?r = "\<lparr>wr_Method = ''GET'', wr_Path = full_route_path NamespacedScope ''/bar'', wr_OperationId = prefixRouteID ''getIt'' ''GET'',
    wr_Version = ''v1'', wr_RoutePath = ''/bar'', wr_Scope = NamespacedScope\<rparr>"
  have cfg: "well_named sample_app_config"
    by (simp add: well_named_def sample_app_config_def sample_managed_def Simple_App.sample_kind_def kind_well_named_def plain_def no_bar_def)
  have request: "version_route_request ?J ?r ''ns'' ?hc =
      \<lparr>rr_Identifier = \<lparr>fi_Namespace = ''ns'', fi_Name = [], fi_Group = ''app.ext'', fi_Version = ''v1'', fi_Kind = [], fi_Plural = []\<rparr>,
       rr_Path = ''/bar'', rr_Method = ''GET'', rr_Body = []\<rparr>"
    by (simp add: version_route_request_def two_versions_defs)
  have plain: "request_well_named (version_route_request ?J ?r ''ns'' ?hc)"
    unfolding request by (simp add: request_well_named_def plain_def no_bar_def)
  have manifest: "pv_ManifestData (in_provider ?I) = Some (in_manifest ?I)" by (simp add: two_versions_defs)
  have "configured_version_route sample_app_config (version_route_request ?J ?r ''ns'' ?hc) = Some (Some (count_route 2))"
    unfolding request by (simp add: configured_version_route_def same_route_def sample_app_config_def route_path_def)
  then have serve: "serve_version_route CallCustomRoute (\<lambda>_. []) ?J ?r ''ns'' ?hc 5 = (([], Ran ()), 7)"
    using conjunct2 [OF version_routes_reach_handler [OF install manifest a cfg, of ?J _ ?r "''ns''" ?hc "\<lambda>_. []" 5, OF _ refl plain]]
    by (simp add: count_route_def)
  obtain ws0 where all: "served (Some ws) = ws0 \<union>
      {(root_path (md_Group (in_manifest ?I)) (mv_Name v), r) | v r. v \<in> set (md_Versions (in_manifest ?I)) \<and> declared_route two_version_env ?I v r}"
    using conjunct1 [OF version_routes_reach_handler [OF install manifest a cfg, of ?J _ ?r "''ns''" ?hc "\<lambda>_. []" 5, OF _ refl plain]]
    by auto
  have decl: "declared_route two_version_env ?I (two_version ''v1'') ?r"
    by (simp add: declared_route_def isCustomRouteEnabled_def resource_enabled_def two_versions_defs two_version_env_def http_methods_def)
  have v1: "two_version ''v1'' \<in> set (md_Versions (in_manifest ?I))" "root_path (md_Group (in_manifest ?I)) (mv_Name (two_version ''v1'')) = ''/apis/app.ext/v1''"
    by (simp_all add: two_versions_defs root_path_def)
  have "(''/apis/app.ext/v1'', ?r) \<in> served (Some ws)"
    unfolding all v1(2) [symmetric] by (rule UnI2, rule CollectI) (use v1(1) decl in blast)
  with install a serve show ?thesis
    by (intro exI [of _ ag] exI [of _ ws] exI [of _ I'] exI [of _ a] exI [of _ p] exI [of _ ?r] conjI) simp_all
qed

section \<open>Findings\<close>

text \<open>
  Installing panics when the provider has no manifest data, although the installer has some: only the
  configured manifest is filled in, the routes are read from the provider's.
\<close>

lemma provider_without_manifest_panics:
  assumes "pv_ManifestData (in_provider I) = None"
  shows "fst (InstallAPIs E fresh services I) \<noteq> Returned (ag, ws)"
proof
  assume "fst (InstallAPIs E fresh services I) = Returned (ag, ws)"
  then obtain I' where "InstallAPIs E fresh services I = (Returned (ag, ws), I')" by (metis prod.collapse)
  from install_group_scheme [OF this] assms show False by (auto simp: install_version_routes_def)
qed

text \<open>Before there is an app, a version's route writes its error and then panics.\<close>

lemma uninitialized_version_route_panics:
  "in_app I = None \<Longrightarrow> serve_version_route call encode I wr namespace req s =
     (([WriteHeader 500, WriteBody (encode (FailureStatus ErrAppNotInitialized))], Panic), s)"
  by (simp add: serve_version_route_def installer_App_def)

text \<open>A scheme that could not be filled is kept: the next installation takes it as it is, whatever it lacks.\<close>

lemma failed_scheme_is_kept:
  assumes "in_scheme I = None" "installed_scheme E fresh I = (Inl e, I')"
  shows "\<exists>sch. in_scheme I' = Some sch \<and> installed_scheme E fresh' I' = (Inr sch, I')"
  using assms by (auto simp: installed_scheme_def AddToScheme_def Let_def split: prod.splits option.splits sum.splits if_splits)

text \<open>A custom route with the name of a subresource takes its place in the storage.\<close>

lemma route_replaces_subresource:
  assumes "route_names k = [sub]" "gk_Subresources g = [sub]"
  shows "\<exists>rc. map_of (rev (kind_entries E R v (g, k))) (resource_path (sch_Plural (gk_Schema g)) sub) = Some (RouteConnector rc)"
proof -
  have "sub \<in> set (route_names k)" using assms(1) by simp
  then obtain route props where route: "(route, props) \<in> set (Prelude.slice (vk_Routes k))" "route \<noteq> []" "route_path route = sub"
    unfolding route_names_def by auto
  let ?p = "sch_Plural (gk_Schema g)"
  let ?routes = "List.map_filter (\<lambda>(route, props). if route = [] then None
      else (let r = route_path route in Some (resource_path ?p r, RouteConnector \<lparr>rc_Path = r, rc_Version = v, rc_Kind = g,
        rc_ManifestKind = k, rc_Methods = spec3PropsToConnectorMethods E R props (sch_Kind (gk_Schema g)) v r\<rparr>)))
      (Prelude.slice (vk_Routes k))"
  have "kind_entries E R v (g, k) = [(?p, Stored KindStore), (resource_path ?p sub, Stored (subresource_storage (gk_Subresources g) sub))] @ ?routes"
    by (simp add: kind_entries_def Let_def assms(2))
  then have e: "map_of (rev (kind_entries E R v (g, k))) =
      map_of (rev [(?p, Stored KindStore), (resource_path ?p sub, Stored (subresource_storage (gk_Subresources g) sub))]) ++ map_of (rev ?routes)"
    by (simp only: rev_append map_of_append)
  have "resource_path ?p sub \<in> fst ` set ?routes" using route by (force simp: Let_def List.map_filter_def)
  then have "map_of (rev ?routes) (resource_path ?p sub) \<noteq> None" by (simp add: map_of_eq_None_iff del: rev_map)
  then obtain st where st: "map_of (rev ?routes) (resource_path ?p sub) = Some st" by blast
  from map_of_SomeD [OF st] have "(resource_path ?p sub, st) \<in> set ?routes" by (simp only: set_rev)
  then have "\<exists>rc. st = RouteConnector rc" by (auto simp: List.map_filter_def Let_def split: if_splits)
  with st show ?thesis unfolding e by (auto simp only: map_add_Some_iff)
qed

end
