(* ===== verification/API_Server.thy ===== *)
theory API_Server
  imports API_Routes
begin

text \<open>
  An API server of several apps, \<^verbatim>\<open>k8s/apiserver/config.go\<close> and \<^verbatim>\<open>options.go\<close>: the installers' kinds go into one
  scheme, their admission plugins into the options, and a new server initializes every app, installs every API and
  runs the apps in a hook. With it the conversion of objects between versions, which the server asks of the app.
\<close>

section \<open>Conversion\<close>

text \<open>
  \<open>encode\<close> is the codec for the version of an object, \<open>decodeInto\<close> decodes into an object of a version. The app's
  conversion is a parameter. The destination is changed in place; the result is what it becomes.
\<close>

definition conversionHandlerFunc ::
  "('o \<Rightarrow> go_error + string) \<Rightarrow> (string \<Rightarrow> 'o \<Rightarrow> go_error + 'o) \<Rightarrow> ('o \<Rightarrow> string) \<Rightarrow> ('a \<Rightarrow> ConversionRequest \<Rightarrow> go_error + string) \<Rightarrow>
   (gvk \<Rightarrow> string) \<Rightarrow> ('t, 'a, 'c, 'k) installer \<Rightarrow> gvk \<Rightarrow> gvk \<Rightarrow> 'o server_object \<Rightarrow> 'o server_object \<Rightarrow> go_error + 'o" where
  "conversionHandlerFunc encode decodeInto name convert gvkString I src dst a b = (case in_app I of
     None \<Rightarrow> Inl (GoErr ''app is not initialized'')
   | Some app \<Rightarrow> (case in_scheme I of
       None \<Rightarrow> Inl (GoErr ''scheme is not initialized'')
     | Some sch \<Rightarrow> (case (a, b) of
         (ResourceObject a', ResourceObject b') \<Rightarrow> (case encode a' of
           Inl e \<Rightarrow> Inl (Wrapped (''failed to encode object '' @ name a') e)
         | Inr raw \<Rightarrow> (case convert app \<lparr>cq_SourceGVK = src, cq_TargetGVK = dst, cq_Raw = raw\<rparr> of
             Inl e \<Rightarrow> Inl (Wrapped (''failed to convert object '' @ name a' @ '' from '' @ gvkString src @ '' to '' @ gvkString dst) e)
           | Inr res \<Rightarrow> decodeInto res b'))
       | _ \<Rightarrow> Inl (GoErr ''object is not a resource.Object''))))"

section \<open>Configuration\<close>

record ('t, 'a, 'c, 'k) server_config =
  sc_scheme :: "'t registration list"
  sc_installers :: "('t, 'a, 'c, 'k) installer list"

fun add_all_to_scheme ::
  "'t install_env \<Rightarrow> 't registration list \<Rightarrow> ('t, 'a, 'c, 'k) installer list \<Rightarrow>
   go_error option \<times> 't registration list \<times> ('t, 'a, 'c, 'k) installer list" where
  "add_all_to_scheme E sch [] = (None, sch, [])"
| "add_all_to_scheme E sch (I # Is) =
     (case AddToScheme (ie_refused E) (\<lambda>props. ie_operation E props ''GET'' \<noteq> None) (ie_cmp E) (ie_untyped E) (ie_ord E)
         (ie_kind_ord E) (Some sch) I of
       (Some e, sch', I') \<Rightarrow> (Some e, (case sch' of Some rs \<Rightarrow> rs | None \<Rightarrow> sch), I' # Is)
     | (None, sch', I') \<Rightarrow>
         (let (err, sch'', Is') = add_all_to_scheme E (case sch' of Some rs \<Rightarrow> rs | None \<Rightarrow> sch) Is in (err, sch'', I' # Is')))"

definition addToScheme ::
  "'t install_env \<Rightarrow> ('t, 'a, 'c, 'k) server_config \<Rightarrow> go_error option \<times> ('t, 'a, 'c, 'k) server_config" where
  "addToScheme E C = (let (err, sch, Is) = add_all_to_scheme E (sc_scheme C) (sc_installers C)
     in (err, \<lparr>sc_scheme = sch, sc_installers = Is\<rparr>))"

definition NewConfigWithScheme ::
  "'t install_env \<Rightarrow> ('t, 'a, 'c, 'k) installer list \<Rightarrow> 't registration list \<Rightarrow> go_error + ('t, 'a, 'c, 'k) server_config" where
  "NewConfigWithScheme E installers scheme = (case addToScheme E \<lparr>sc_scheme = scheme, sc_installers = installers\<rparr> of
     (Some e, C) \<Rightarrow> Inl e | (None, C) \<Rightarrow> Inr C)"

text \<open>Options: their own scheme, and the admission plugins that are enabled, in order.\<close>

record 't server_options =
  so_scheme :: "'t registration list"
  so_plugins :: "(string \<times> appAdmission) list"

fun admission_plugins :: "('t, 'a, 'c, 'k) installer list \<Rightarrow> go_error + (string \<times> appAdmission) list" where
  "admission_plugins [] = Inr []"
| "admission_plugins (I # Is) = (case pv_ManifestData (in_provider I) of
     None \<Rightarrow> Inl (GoErr ''manifest is not initialized for installer'')
   | Some md \<Rightarrow> (case admission_plugins Is of
       Inl e \<Rightarrow> Inl e
     | Inr ps \<Rightarrow> Inr (case AdmissionPlugin I of None \<Rightarrow> ps | Some p \<Rightarrow> (md_AppName md @ '' admission'', p) # ps)))"

text \<open>\<open>recommended\<close> is the error of the recommended options' own \<open>ApplyTo\<close>.\<close>

definition ApplyTo ::
  "'t install_env \<Rightarrow> go_error option \<Rightarrow> 't server_options \<Rightarrow> ('t, 'a, 'c, 'k) server_config \<Rightarrow>
   (go_error + 't server_options) \<times> ('t, 'a, 'c, 'k) server_config" where
  "ApplyTo E recommended opts C = (case addToScheme E (C\<lparr>sc_scheme := so_scheme opts\<rparr>) of
     (Some e, C') \<Rightarrow> (Inl e, C')
   | (None, C') \<Rightarrow> (case admission_plugins (sc_installers C') of
       Inl e \<Rightarrow> (Inl e, C')
     | Inr ps \<Rightarrow> (case recommended of
         Some e \<Rightarrow> (Inl e, C')
       | None \<Rightarrow> (Inr (opts\<lparr>so_scheme := sc_scheme C', so_plugins := so_plugins opts @ ps\<rparr>), C'))))"

definition Options_Config ::
  "'t install_env \<Rightarrow> go_error option \<Rightarrow> 't server_options \<Rightarrow> ('t, 'a, 'c, 'k) installer list \<Rightarrow>
   go_error + ('t, 'a, 'c, 'k) server_config" where
  "Options_Config E recommended opts installers = (case ApplyTo E recommended opts \<lparr>sc_scheme = so_scheme opts, sc_installers = installers\<rparr> of
     (Inl e, C) \<Rightarrow> Inl e | (Inr opts', C) \<Rightarrow> Inr C)"

section \<open>The server\<close>

fun initialize_all ::
  "'k \<Rightarrow> ('t, 'a, 'c, 'k) installer list \<Rightarrow> go_error option \<times> ('t, 'a, 'c, 'k) installer list" where
  "initialize_all cfg [] = (None, [])"
| "initialize_all cfg (I # Is) = (case pv_ManifestData (in_provider I) of
     None \<Rightarrow> (Some (GoErr ''no manifest data for installer''), I # Is)
   | Some md \<Rightarrow> (case InitializeApp cfg I of
       (Some e, I') \<Rightarrow> (Some e, I' # Is)
     | (None, I') \<Rightarrow> (let (err, Is') = initialize_all cfg Is in (err, I' # Is'))))"

fun install_all ::
  "'t install_env \<Rightarrow> 't registration list \<Rightarrow> web_service list option \<Rightarrow> ('t, 'a, 'c, 'k) installer list \<Rightarrow>
   web_service list option outcome \<times> ('t, 'a, 'c, 'k) installer list" where
  "install_all E fresh services [] = (Returned services, [])"
| "install_all E fresh services (I # Is) = (case InstallAPIs E fresh services I of
     (Failed e, I') \<Rightarrow> (Failed e, I' # Is)
   | (Panicked m, I') \<Rightarrow> (Panicked m, I' # Is)
   | (Returned (ag, services'), I') \<Rightarrow> (let (res, Is') = install_all E fresh services' Is in (res, I' # Is')))"

text \<open>
  \<open>complete\<close> gives the web services of the completed server or its error, \<open>hook\<close> the error of adding the hook.
\<close>

definition NewServer ::
  "'t install_env \<Rightarrow> 't registration list \<Rightarrow> 'k \<Rightarrow> go_error + web_service list option \<Rightarrow> go_error option \<Rightarrow>
   ('t, 'a, 'c, 'k) server_config \<Rightarrow> web_service list option outcome \<times> ('t, 'a, 'c, 'k) server_config" where
  "NewServer E fresh loopback complete hook C = (case initialize_all loopback (sc_installers C) of
     (Some e, Is) \<Rightarrow> (Failed e, C\<lparr>sc_installers := Is\<rparr>)
   | (None, Is) \<Rightarrow> (case complete of
       Inl e \<Rightarrow> (Failed e, C\<lparr>sc_installers := Is\<rparr>)
     | Inr services \<Rightarrow> (case install_all E fresh services Is of
         (Returned services', Is') \<Rightarrow>
           ((case hook of Some e \<Rightarrow> Failed e | None \<Rightarrow> Returned services'), C\<lparr>sc_installers := Is'\<rparr>)
       | (res, Is') \<Rightarrow> (res, C\<lparr>sc_installers := Is'\<rparr>))))"

text \<open>The hook runs the runners of all apps in one \<open>MultiRunner\<close>; here, the apps it takes them from.\<close>

fun hook_apps :: "('t, 'a, 'c, 'k) installer list \<Rightarrow> go_error + 'a list" where
  "hook_apps [] = Inr []"
| "hook_apps (I # Is) = (case installer_App I of
     Inl e \<Rightarrow> Inl (Wrapped ''error getting app on startup'' e)
   | Inr a \<Rightarrow> (case hook_apps Is of Inl e \<Rightarrow> Inl e | Inr as \<Rightarrow> Inr (a # as)))"

section \<open>A started server\<close>

lemma InitializeApp_app:
  assumes "InitializeApp cfg I = (None, I')"
  shows "\<exists>a. in_app I' = Some a \<and> pv_NewApp (in_provider I) cfg (in_specific I) (in_manifest I) = Inr a \<and>
    in_provider I' = in_provider I \<and> in_manifest I' = in_manifest I \<and> in_resourceConfig I' = in_resourceConfig I"
  using assms by (auto simp: InitializeApp_def split: option.splits sum.splits)

definition initialized_as ::
  "'k \<Rightarrow> ('t, 'a, 'c, 'k) installer \<Rightarrow> 'a \<Rightarrow> bool" where
  "initialized_as cfg I a \<longleftrightarrow> pv_NewApp (in_provider I) cfg (in_specific I) (in_manifest I) = Inr a"

definition same_installer :: "('t, 'a, 'c, 'k) installer \<Rightarrow> ('t, 'a, 'c, 'k) installer \<Rightarrow> bool" where
  "same_installer I J \<longleftrightarrow> in_provider J = in_provider I \<and> in_manifest J = in_manifest I \<and> in_resourceConfig J = in_resourceConfig I"

lemma initialize_all_apps:
  "initialize_all cfg Is = (None, Js) \<Longrightarrow>
   \<exists>as. list_all2 (initialized_as cfg) Is as \<and> map in_app Js = map Some as \<and> list_all2 same_installer Is Js"
proof (induction cfg Is arbitrary: Js rule: initialize_all.induct)
  case (2 cfg I Is)
  obtain md I' Js' where step: "pv_ManifestData (in_provider I) = Some md" "InitializeApp cfg I = (None, I')"
    "initialize_all cfg Is = (None, Js')" "Js = I' # Js'"
    using "2.prems" by (auto split: option.splits prod.splits)
  from InitializeApp_app [OF step(2)] obtain a where a: "in_app I' = Some a" "initialized_as cfg I a" "same_installer I I'"
    by (auto simp: initialized_as_def same_installer_def)
  from "2.IH" [OF step(1) step(2) [symmetric] refl step(3)] obtain as where
    "list_all2 (initialized_as cfg) Is as" "map in_app Js' = map Some as" "list_all2 same_installer Is Js'" by blast
  with a step(4) show ?case by (intro exI [of _ "a # as"]) simp
qed simp

text \<open>The underlying server adds routes and takes none away.\<close>

definition keeps_routes :: "'t install_env \<Rightarrow> bool" where
  "keeps_routes E \<longleftrightarrow> (\<forall>ag services services'. ie_install E ag services = Inr services' \<longrightarrow> served services \<subseteq> served services')"

lemma install_all_served:
  assumes keeps: "keeps_routes E"
  shows "install_all E fresh services Is = (Returned ws, Js) \<Longrightarrow>
   (\<forall>I \<in> set Is. pv_ManifestData (in_provider I) = Some (in_manifest I)) \<Longrightarrow>
   map in_app Js = map in_app Is \<and> served services \<subseteq> served ws \<and>
   (\<forall>I \<in> set Is. \<forall>v r. v \<in> set (md_Versions (in_manifest I)) \<longrightarrow> declared_route E I v r \<longrightarrow>
      (root_path (md_Group (in_manifest I)) (mv_Name v), r) \<in> served ws)"
proof (induction Is arbitrary: services Js)
  case (Cons I Is)
  obtain ag services' I' Js' where step: "InstallAPIs E fresh services I = (Returned (ag, services'), I')"
    "install_all E fresh services' Is = (Returned ws, Js')" "Js = I' # Js'"
    using Cons.prems(1) by (auto split: prod.splits outcome.splits)
  from installed_routes_served [OF step(1)] Cons.prems(2) obtain ws0 where ws0: "ie_install E ag services = Inr ws0"
    "served services' = served ws0 \<union>
      {(root_path (md_Group (in_manifest I)) (mv_Name v), r) | v r. v \<in> set (md_Versions (in_manifest I)) \<and> declared_route E I v r}"
    by auto
  have rest: "map in_app Js' = map in_app Is" "served services' \<subseteq> served ws"
    "\<forall>I \<in> set Is. \<forall>v r. v \<in> set (md_Versions (in_manifest I)) \<longrightarrow> declared_route E I v r \<longrightarrow>
      (root_path (md_Group (in_manifest I)) (mv_Name v), r) \<in> served ws"
    using Cons.IH [OF step(2)] Cons.prems(2) by simp_all
  have "in_app I' = in_app I" using install_group_scheme [OF step(1)] by simp
  moreover have "served services \<subseteq> served services'" using keeps ws0 unfolding keeps_routes_def by blast
  moreover have "(root_path (md_Group (in_manifest I)) (mv_Name v), r) \<in> served services'"
    if "v \<in> set (md_Versions (in_manifest I))" "declared_route E I v r" for v r using that ws0(2) by blast
  ultimately show ?case using rest step(3) by auto
qed simp

lemma hook_apps_all: "map in_app Is = map Some as \<Longrightarrow> hook_apps Is = Inr as"
  by (induction Is arbitrary: as) (auto simp: installer_App_def map_eq_Cons_conv Cons_eq_map_conv)

text \<open>
  C33. A server that starts is complete: every app has been made once, by its own provider from the server's loopback
  configuration, its specific configuration and its manifest; the start hook runs exactly these apps, in the order
  of the installers; and every enabled custom route that any of the manifests declares for a version is served, no
  installation taking away the routes of an earlier one.
\<close>

theorem started_server_is_complete:
  assumes started: "NewServer E fresh loopback complete hook C = (Returned ws, C')"
    and manifests: "\<forall>I \<in> set (sc_installers C). pv_ManifestData (in_provider I) = Some (in_manifest I)"
    and keeps: "keeps_routes E"
  shows "\<exists>as. hook_apps (sc_installers C') = Inr as \<and>
    list_all2 (\<lambda>I a. pv_NewApp (in_provider I) loopback (in_specific I) (in_manifest I) = Inr a) (sc_installers C) as \<and>
    (\<forall>I \<in> set (sc_installers C). \<forall>v \<in> set (md_Versions (in_manifest I)). \<forall>r. declared_route E I v r \<longrightarrow>
      (root_path (md_Group (in_manifest I)) (mv_Name v), r) \<in> served ws)"
proof -
  obtain Is services Js where init: "initialize_all loopback (sc_installers C) = (None, Is)"
    and install: "install_all E fresh services Is = (Returned ws, Js)" "sc_installers C' = Js"
    using started by (auto simp: NewServer_def split: prod.splits option.splits sum.splits outcome.splits)
  from initialize_all_apps [OF init] obtain as where as: "list_all2 (initialized_as loopback) (sc_installers C) as"
    "map in_app Is = map Some as" "list_all2 same_installer (sc_installers C) Is" by blast
  have man: "\<forall>I \<in> set Is. pv_ManifestData (in_provider I) = Some (in_manifest I)"
    using as(3) manifests by (auto simp: list_all2_conv_all_nth same_installer_def all_set_conv_all_nth)
  note all = install_all_served [OF keeps install(1) man]
  have "hook_apps (sc_installers C') = Inr as" using all as(2) install(2) by (auto intro: hook_apps_all)
  moreover have "list_all2 (\<lambda>I a. pv_NewApp (in_provider I) loopback (in_specific I) (in_manifest I) = Inr a) (sc_installers C) as"
    using as(1) by (simp add: initialized_as_def [abs_def])
  moreover have "(root_path (md_Group (in_manifest I)) (mv_Name v), r) \<in> served ws"
    if I: "I \<in> set (sc_installers C)" "v \<in> set (md_Versions (in_manifest I))" "declared_route E I v r" for I v r
  proof -
    obtain i where i: "i < length (sc_installers C)" "I = sc_installers C ! i" using I(1) by (auto simp: in_set_conv_nth)
    moreover obtain J where "J = Is ! i" by simp
    ultimately have J: "J \<in> set Is" "same_installer I J"
      using list_all2_nthD [OF as(3) i(1)] list_all2_lengthD [OF as(3)] by simp_all
    then have "declared_route E J v r" using I(3) declared_route_installer [of I J] by (simp add: same_installer_def)
    then show ?thesis using all J I(2) by (auto simp: same_installer_def)
  qed
  ultimately show ?thesis by blast
qed

text \<open>A server of one app, whose provider makes the sample app.\<close>

definition sample_provider :: "((time, unit, nat) app, unit, unit) Provider" where
  "sample_provider = \<lparr>pv_ManifestData = Some two_versions, pv_SpecificConfig = None,
     pv_NewApp = (\<lambda>_ _ _. case NewApp sample_app_env sample_app_config of Inl e \<Rightarrow> Inl e | Inr (a, p) \<Rightarrow> Inr a)\<rparr>"

definition sample_server_config :: "(nat, (time, unit, nat) app, unit, unit) server_config" where
  "sample_server_config = \<lparr>sc_scheme = [], sc_installers = [two_version_installer\<lparr>in_provider := sample_provider\<rparr>]\<rparr>"

theorem started_server_is_complete_witness:
  "\<exists>ws C' a. NewServer two_version_env [] () (Inr (Some [])) None sample_server_config = (Returned ws, C') \<and>
     hook_apps (sc_installers C') = Inr [a] \<and>
     (\<forall>r. declared_route two_version_env ((two_version_installer :: (nat, (time, unit, nat) app, unit, unit) installer)\<lparr>in_provider := sample_provider\<rparr>) (two_version ''v2'') r \<longrightarrow>
       (''/apis/app.ext/v2'', r) \<in> served ws)"
proof -
  let ?I = "(two_version_installer :: (nat, (time, unit, nat) app, unit, unit) installer)\<lparr>in_provider := sample_provider\<rparr>"
  obtain a p where a: "NewApp sample_app_env sample_app_config = Inr (a, p)"
    using sample_app_ok by (cases "NewApp sample_app_env sample_app_config") auto
  let ?J = "?I\<lparr>in_app := Some a\<rparr>"
  have init: "initialize_all () (sc_installers sample_server_config) = (None, [?J])"
    by (simp add: sample_server_config_def InitializeApp_def two_versions_defs sample_provider_def a)
  obtain ag ws I' where install: "InstallAPIs two_version_env [] (Some []) ?J = (Returned (ag, Some ws), I')"
    using two_version_installed_with [of ?J] by (auto simp: two_version_installer_def NewDefaultAppInstaller_def IsEmpty_def sample_provider_def two_versions_def)
  have started: "NewServer two_version_env [] () (Inr (Some [])) None sample_server_config =
      (Returned (Some ws), sample_server_config\<lparr>sc_installers := [I']\<rparr>)"
    by (simp add: NewServer_def init install)
  have man: "\<forall>I \<in> set (sc_installers sample_server_config). pv_ManifestData (in_provider I) = Some (in_manifest I)"
    by (simp add: sample_server_config_def two_versions_defs sample_provider_def)
  have keeps: "keeps_routes two_version_env" by (simp add: keeps_routes_def two_version_env_def)
  let ?C' = "sample_server_config\<lparr>sc_installers := [I']\<rparr>"
  have "\<exists>as. hook_apps (sc_installers ?C') = Inr as \<and>
    list_all2 (\<lambda>I a. pv_NewApp (in_provider I) () (in_specific I) (in_manifest I) = Inr a) (sc_installers sample_server_config) as \<and>
    (\<forall>I \<in> set (sc_installers sample_server_config). \<forall>v \<in> set (md_Versions (in_manifest I)). \<forall>r. declared_route two_version_env I v r \<longrightarrow>
      (root_path (md_Group (in_manifest I)) (mv_Name v), r) \<in> served (Some ws))"
    by (rule started_server_is_complete [OF started man keeps])
  then obtain as where
    as: "hook_apps (sc_installers ?C') = Inr as" "list_all2 (\<lambda>I a. pv_NewApp (in_provider I) () (in_specific I) (in_manifest I) = Inr a) (sc_installers sample_server_config) as"
    "\<forall>I \<in> set (sc_installers sample_server_config). \<forall>v \<in> set (md_Versions (in_manifest I)). \<forall>r. declared_route two_version_env I v r \<longrightarrow>
      (root_path (md_Group (in_manifest I)) (mv_Name v), r) \<in> served (Some ws)" by blast
  have "two_version ''v2'' \<in> set (md_Versions (in_manifest ?I))" "?I \<in> set (sc_installers sample_server_config)"
    "root_path (md_Group (in_manifest ?I)) (mv_Name (two_version ''v2'')) = ''/apis/app.ext/v2''"
    by (simp_all add: two_versions_defs root_path_def sample_server_config_def)
  with as(3) have "\<forall>r. declared_route two_version_env ?I (two_version ''v2'') r \<longrightarrow> (''/apis/app.ext/v2'', r) \<in> served (Some ws)"
    by metis
  moreover obtain b where "as = [b]" using as(2) by (auto simp: sample_server_config_def list_all2_Cons1)
  ultimately show ?thesis using started as(1) by blast
qed

section \<open>Panics and schemes\<close>

text \<open>A new server checks the manifests first, so that installing does not panic for lack of one.\<close>

lemma InstallAPIs_panics: "InstallAPIs E fresh services I = (Panicked msg, I') \<Longrightarrow> pv_ManifestData (in_provider I') = None"
  by (auto simp: InstallAPIs_def install_version_routes_def split: prod.splits sum.splits outcome.splits option.splits if_splits)

text \<open>An installer keeps the first scheme it is added to, also when the options have another one.\<close>

lemma first_scheme_kept:
  assumes "in_scheme I = Some sch0" "AddToScheme refused has_get cmp untyped ord kind_ord scheme I = (None, sch, I')"
  shows "in_scheme I' = Some sch0"
  using assms by (auto simp: AddToScheme_def Let_def split: option.splits sum.splits prod.splits if_splits)

end
