(* ===== verification/Operator_Runner.thy ===== *)
theory Operator_Runner
  imports API_Admission
begin

text \<open>
  \<^verbatim>\<open>operator/runner.go\<close>: how a runner gets an app's manifest, which webhooks it registers for it, and what it runs.
  The webhook server is the one of \<open>Admission\<close>, the app the one of \<open>Simple_App\<close>. Metrics are left out; of the metrics
  server there are the health checks it is given and that it is run.
\<close>

section \<open>Configuration\<close>

datatype manifest_location = Embedded | FilePath string | APIServerResource string | OtherLocation string

record Manifest =
  mf_Data :: "ManifestData option"
  mf_Location :: manifest_location

record RunnerConfig =
  rn_Port :: int
  rn_CertPath :: string
  rn_KeyPath :: string
  rn_MetricsPort :: int
  rn_MetricsEnabled :: bool
  rn_HealthCheckInterval :: duration
  rn_HealthCheck :: "string option"

record ('o, 's) op_runner =
  or_config :: RunnerConfig
  or_webhookServer :: "('o, 's) WebhookServer option"
  or_healthCheck :: "string option"
  or_running :: bool
  or_healthChecks :: "string list"

definition empty_manifest :: ManifestData where
  "empty_manifest = \<lparr>md_AppName = [], md_AppDisplayName = [], md_Group = [], md_Versions = [], md_PreferredVersion = [],
     md_ExtraPermissions = None, md_Operator = None, md_Roles = None, md_RoleBindings = None\<rparr>"

definition webhook_config :: "RunnerConfig \<Rightarrow> ('o, 's) WebhookServerConfig" where
  "webhook_config cfg = \<lparr>wc_Port = rn_Port cfg, wc_CertPath = rn_CertPath cfg, wc_KeyPath = rn_KeyPath cfg,
     wc_Validating = [], wc_Mutating = [], wc_Converters = [], wc_DefaultValidating = None, wc_DefaultMutating = None\<rparr>"

definition NewRunner :: "(gvk \<Rightarrow> string) \<Rightarrow> RunnerConfig \<Rightarrow> go_error + ('o, 's) op_runner" where
  "NewRunner str cfg =
     (let cfg1 = (if rn_MetricsPort cfg \<le> 0 then cfg\<lparr>rn_MetricsPort := 9090\<rparr> else cfg);
          cfg2 = (if rn_HealthCheckInterval cfg1 \<le> 0 then cfg1\<lparr>rn_HealthCheckInterval := 60000000000\<rparr> else cfg1);
          op = \<lparr>or_config = cfg2, or_webhookServer = None, or_healthCheck = rn_HealthCheck cfg2, or_running = False, or_healthChecks = []\<rparr>
      in if rn_CertPath cfg2 = [] then Inr op
         else (case NewWebhookServer str (webhook_config cfg2) of
           Inl e \<Rightarrow> Inl e
         | Inr ws \<Rightarrow> Inr (op\<lparr>or_webhookServer := Some ws\<rparr>)))"

text \<open>\<open>readFile\<close> reads from the configured or the operating system's file system, \<open>unmarshal\<close> is the JSON decoder.\<close>

definition getManifestData ::
  "(string \<Rightarrow> go_error + string) \<Rightarrow> (string \<Rightarrow> go_error + ManifestData) \<Rightarrow> Manifest \<Rightarrow> go_error + ManifestData" where
  "getManifestData readFile unmarshal manifest = (case mf_Location manifest of
     Embedded \<Rightarrow> (case mf_Data manifest of None \<Rightarrow> Inl (GoErr ''no ManifestData in Manifest'') | Some d \<Rightarrow> Inr d)
   | FilePath path \<Rightarrow> (case readFile path of
       Inl e \<Rightarrow> Inl (Wrapped (''error reading manifest file from disk (path: '' @ path @ '')'') e)
     | Inr contents \<Rightarrow> (case unmarshal contents of
         Inl e \<Rightarrow> Inl (Wrapped ''unable to unmarshal manifest data'' e)
       | Inr d \<Rightarrow> Inr d))
   | APIServerResource r \<Rightarrow> Inl (GoErr ''apiserver location not supported yet'')
   | OtherLocation l \<Rightarrow> Inr empty_manifest)"

section \<open>Capabilities\<close>

record capabilities =
  cap_conversion :: bool
  cap_mutation :: bool
  cap_validation :: bool

definition vk_key :: "string \<Rightarrow> string \<Rightarrow> string" where
  "vk_key kind version = kind @ CHR ''/'' # version"

definition vk_entry :: "string \<Rightarrow> ManifestVersionKind \<Rightarrow> (string \<times> capabilities) option" where
  "vk_entry version k = (case vk_Admission k of
     None \<Rightarrow> if vk_Conversion k then Some (vk_key (vk_Kind k) version,
         \<lparr>cap_conversion = vk_Conversion k, cap_mutation = False, cap_validation = False\<rparr>) else None
   | Some c \<Rightarrow> Some (vk_key (vk_Kind k) version,
         \<lparr>cap_conversion = vk_Conversion k, cap_mutation = SupportsAnyMutation c, cap_validation = SupportsAnyValidation c\<rparr>))"

definition vk_entries :: "ManifestData \<Rightarrow> (string \<times> capabilities) list" where
  "vk_entries md = concat (map (\<lambda>v. List.map_filter (vk_entry (mv_Name v)) (mv_Kinds v)) (md_Versions md))"

definition vkCapabilities :: "ManifestData \<Rightarrow> (string \<rightharpoonup> capabilities)" where
  "vkCapabilities md = fold (\<lambda>(key, c) m. m(key \<mapsto> c)) (vk_entries md) Map.empty"

definition anyWebhooks :: "ManifestData \<Rightarrow> bool" where
  "anyWebhooks md \<longleftrightarrow> (\<exists>(key, c) \<in> set (vk_entries md). cap_conversion c \<or> cap_mutation c \<or> cap_validation c)"

section \<open>Controllers that call the app\<close>

text \<open>The error of an app that is none of a controller is an error like any other; \<open>txt\<close> is its text.\<close>

definition app_validator :: "(go_error \<Rightarrow> string) \<Rightarrow> ('o, 's) app_iface \<Rightarrow> ('o, 's) ValidatingAdmissionController" where
  "app_validator txt a = SimpleValidate (Some (\<lambda>request s. case ai_Validate a request s of
     (Panic, s') \<Rightarrow> (Panic, s')
   | (Ran (Inl e), s') \<Rightarrow> (Ran (Some (PlainError (txt e))), s')
   | (Ran (Inr err), s') \<Rightarrow> (Ran err, s')))"

definition app_mutator :: "(go_error \<Rightarrow> string) \<Rightarrow> ('o, 's) app_iface \<Rightarrow> ('o, 's) MutatingAdmissionController" where
  "app_mutator txt a = SimpleMutate (Some (\<lambda>request s. case ai_Mutate a request s of
     (Panic, s') \<Rightarrow> (Panic, s')
   | (Ran (Inl e), s') \<Rightarrow> (Ran (None, Some (PlainError (txt e))), s')
   | (Ran (Inr r), s') \<Rightarrow> (Ran r, s')))"

text \<open>\<open>parse\<close> is \<^verbatim>\<open>schema.FromAPIVersionAndKind\<close>, \<open>convert\<close> the app's conversion.\<close>

definition toWebhookConverter :: "(string \<Rightarrow> string \<Rightarrow> gvk) \<Rightarrow> (ConversionRequest \<Rightarrow> go_error + string) \<Rightarrow> Converter" where
  "toWebhookConverter parse convert obj targetAPIVersion =
     convert \<lparr>cq_SourceGVK = parse (rk_APIVersion obj) (rk_Kind obj), cq_TargetGVK = parse targetAPIVersion (rk_Kind obj),
       cq_Raw = rk_Raw obj\<rparr>"

record ('o, 's) run_app =
  ra_iface :: "('o, 's) app_iface"
  ra_Convert :: "ConversionRequest \<Rightarrow> go_error + string"
  ra_ManagedKinds :: "'o kind_info list"
  ra_HasRunner :: bool
  ra_HealthChecks :: "string list"
  ra_RunnerHealthChecks :: "string list"

text \<open>What the runner uses from outside: texts of kinds and errors, and the parsing of API versions.\<close>

record run_env =
  re_str :: "gvk \<Rightarrow> string"
  re_txt :: "go_error \<Rightarrow> string"
  re_parse :: "string \<Rightarrow> string \<Rightarrow> gvk"

definition register_kind ::
  "run_env \<Rightarrow> ManifestData \<Rightarrow> ('o, 's) run_app \<Rightarrow> 'o kind_info \<Rightarrow> ('o, 's) WebhookServer \<Rightarrow> ('o, 's) WebhookServer" where
  "register_kind E md a kind w =
     (case vkCapabilities md (vk_key (sch_Kind (ki_schema kind)) (sch_Version (ki_schema kind))) of
        None \<Rightarrow> w
      | Some c \<Rightarrow>
          (let w1 = (if cap_validation c
                     then AddValidatingAdmissionController (re_str E) (Some (app_validator (re_txt E) (ra_iface a))) kind w else w);
               w2 = (if cap_mutation c
                     then AddMutatingAdmissionController (re_str E) (Some (app_mutator (re_txt E) (ra_iface a))) kind w1 else w1)
           in if cap_conversion c
              then AddConverter (toWebhookConverter (re_parse E) (ra_Convert a)) (sch_Group (ki_schema kind), sch_Kind (ki_schema kind)) w2
              else w2))"

definition HealthCheckName :: string where
  "HealthCheckName = ''operator-runner''"

datatype runnable = WebhookRunnable | AppRunnable | MetricsRunnable

text \<open>
  \<open>Run\<close> up to the start of the runnables: the error, or the runnables that one \<open>MultiRunner\<close> then runs. \<open>newApp\<close> is the
  provider's, \<open>None\<close> a nil provider.
\<close>

definition runner_Run ::
  "run_env \<Rightarrow> (string \<Rightarrow> go_error + string) \<Rightarrow> (string \<Rightarrow> go_error + ManifestData) \<Rightarrow>
   (Manifest \<times> (ManifestData \<Rightarrow> go_error + ('o, 's) run_app)) option \<Rightarrow> ('o, 's) op_runner \<Rightarrow>
   (go_error + runnable list) \<times> ('o, 's) op_runner" where
  "runner_Run E readFile unmarshal provider R = (case provider of
     None \<Rightarrow> (Inl (GoErr ''provider cannot be nil''), R)
   | Some (manifest, newApp) \<Rightarrow> (case getManifestData readFile unmarshal manifest of
       Inl e \<Rightarrow> (Inl (Wrapped ''unable to get app manifest capabilities'' e), R)
     | Inr md \<Rightarrow> (case newApp md of
         Inl e \<Rightarrow> (Inl e, R)
       | Inr a \<Rightarrow>
           (let R1 = R\<lparr>or_running := True\<rparr>;
                rest = (if ra_HasRunner a then [AppRunnable] else []) @ [MetricsRunnable];
                checks = or_healthChecks R @ [HealthCheckName] @ ra_RunnerHealthChecks a @ ra_HealthChecks a
            in if \<not> anyWebhooks md then (Inr rest, R1\<lparr>or_healthChecks := checks\<rparr>)
               else (case or_webhookServer R of
                 None \<Rightarrow> (Inl (GoErr ''app has capabilities that require webhooks, but webhook server was not provided TLS config''), R1)
               | Some w \<Rightarrow> (Inr (WebhookRunnable # rest),
                   R1\<lparr>or_webhookServer := Some (fold (register_kind E md a) (ra_ManagedKinds a) w), or_healthChecks := checks\<rparr>))))))"

text \<open>The runner is a health check itself.\<close>

definition Runner_HealthCheck :: "('o, 's) op_runner \<Rightarrow> go_error option" where
  "Runner_HealthCheck R = (if or_running R then None else Some (GoErr ''app has not started yet''))"

section \<open>What is registered\<close>

text \<open>A manifest that names each version once, and each kind once in a version.\<close>

definition well_kinded :: "ManifestData \<Rightarrow> bool" where
  "well_kinded md \<longleftrightarrow> distinct (map mv_Name (md_Versions md)) \<and>
     (\<forall>v \<in> set (md_Versions md). distinct (map vk_Kind (mv_Kinds v)) \<and> (\<forall>k \<in> set (mv_Kinds v). CHR ''/'' \<notin> set (vk_Kind k)))"

lemma vkCapabilities_map: "vkCapabilities md = map_of (rev (vk_entries md))"
proof -
  have "fold (\<lambda>(key, c) m. m(key \<mapsto> c)) es m = m ++ map_of (rev es)" for es :: "(string \<times> capabilities) list" and m
    by (induction es arbitrary: m) (auto simp: map_add_def fun_eq_iff split: option.split)
  then show ?thesis by (simp add: vkCapabilities_def)
qed

lemma vk_entries_iff:
  "(key, c) \<in> set (vk_entries md) \<longleftrightarrow> (\<exists>v \<in> set (md_Versions md). \<exists>k \<in> set (mv_Kinds v). vk_entry (mv_Name v) k = Some (key, c))"
  by (force simp: vk_entries_def List.map_filter_def)

lemma vk_entry_key: "vk_entry version k = Some (key, c) \<Longrightarrow> key = vk_key (vk_Kind k) version"
  by (auto simp: vk_entry_def split: option.splits if_splits)

lemma vk_found:
  assumes "well_kinded md" "v \<in> set (md_Versions md)" "k \<in> set (mv_Kinds v)" "vk_entry (mv_Name v) k = Some (key, c)"
  shows "vkCapabilities md key = Some c"
proof -
  have in_entries: "(key, c) \<in> set (vk_entries md)" using assms(2-4) vk_entries_iff by blast
  have "c' = c" if other: "(key, c') \<in> set (vk_entries md)" for c'
  proof -
    obtain v' k' where v': "v' \<in> set (md_Versions md)" "k' \<in> set (mv_Kinds v')" "vk_entry (mv_Name v') k' = Some (key, c')"
      using other vk_entries_iff by blast
    have plain: "CHR ''/'' \<notin> set (vk_Kind k)" "CHR ''/'' \<notin> set (vk_Kind k')" using assms(1-3) v'(1,2) by (auto simp: well_kinded_def)
    have "vk_key (vk_Kind k) (mv_Name v) = vk_key (vk_Kind k') (mv_Name v')"
      using vk_entry_key [OF assms(4)] vk_entry_key [OF v'(3)] by simp
    then have names: "vk_Kind k = vk_Kind k'" "mv_Name v = mv_Name v'"
      using separated_inject [OF plain] by (simp_all add: vk_key_def)
    then have "v = v'" using assms(1,2) v'(1) by (auto simp: well_kinded_def distinct_map inj_on_def)
    moreover have "k = k'" using names calculation assms(1-3) v'(2) by (auto simp: well_kinded_def distinct_map inj_on_def)
    ultimately show ?thesis using assms(4) v'(3) by simp
  qed
  then show ?thesis unfolding vkCapabilities_map
    using in_entries by (metis map_of_SomeD set_rev weak_map_of_SomeI)
qed

lemma declared_capabilities:
  assumes "well_kinded md" "declared md (kind_gvk sch) c"
  shows "\<exists>cap. vkCapabilities md (vk_key (sch_Kind sch) (sch_Version sch)) = Some cap \<and>
    cap_validation cap = SupportsAnyValidation c \<and> cap_mutation cap = SupportsAnyMutation c"
proof -
  obtain v k where v: "v \<in> set (md_Versions md)" "k \<in> set (mv_Kinds v)" "mv_Name v = sch_Version sch" "vk_Kind k = sch_Kind sch"
    "vk_Admission k = Some c" using assms(2) by (auto simp: declared_def kind_gvk_def)
  have "vk_entry (mv_Name v) k = Some (vk_key (sch_Kind sch) (sch_Version sch),
      \<lparr>cap_conversion = vk_Conversion k, cap_mutation = SupportsAnyMutation c, cap_validation = SupportsAnyValidation c\<rparr>)"
    using v(3-5) by (simp add: vk_entry_def)
  from vk_found [OF assms(1) v(1,2) this] show ?thesis by simp
qed

text \<open>One kind changes its own entries only.\<close>

lemma register_kind_entries:
  "ws_validating (register_kind E md a ki w) =
     (case vkCapabilities md (vk_key (sch_Kind (ki_schema ki)) (sch_Version (ki_schema ki))) of
        Some c \<Rightarrow> if cap_validation c then (ws_validating w)(re_str E (kind_gvk (ki_schema ki)) \<mapsto>
            (ki, Some (app_validator (re_txt E) (ra_iface a)))) else ws_validating w
      | None \<Rightarrow> ws_validating w)"
  "ws_mutating (register_kind E md a ki w) =
     (case vkCapabilities md (vk_key (sch_Kind (ki_schema ki)) (sch_Version (ki_schema ki))) of
        Some c \<Rightarrow> if cap_mutation c then (ws_mutating w)(re_str E (kind_gvk (ki_schema ki)) \<mapsto>
            (ki, Some (app_mutator (re_txt E) (ra_iface a)))) else ws_mutating w
      | None \<Rightarrow> ws_mutating w)"
  by (auto simp: register_kind_def Let_def AddValidatingAdmissionController_def AddMutatingAdmissionController_def AddConverter_def
      split: option.split)

lemma fold_others:
  assumes "\<And>x m. x \<in> set xs \<Longrightarrow> f (g x m) = f m"
  shows "f (fold g xs m) = f m"
  using assms by (induction xs arbitrary: m) auto

lemma fold_register:
  assumes kinds: "ki \<in> set kis" "distinct (map (re_str E \<circ> kind_gvk \<circ> ki_schema) kis)"
    and cap: "vkCapabilities md (vk_key (sch_Kind (ki_schema ki)) (sch_Version (ki_schema ki))) = Some c"
  shows "cap_validation c \<Longrightarrow> ws_validating (fold (register_kind E md a) kis w) (re_str E (kind_gvk (ki_schema ki))) =
      Some (ki, Some (app_validator (re_txt E) (ra_iface a)))"
    "cap_mutation c \<Longrightarrow> ws_mutating (fold (register_kind E md a) kis w) (re_str E (kind_gvk (ki_schema ki))) =
      Some (ki, Some (app_mutator (re_txt E) (ra_iface a)))"
proof -
  obtain pre post where split: "kis = pre @ ki # post" using kinds(1) by (auto dest: split_list)
  let ?key = "re_str E (kind_gvk (ki_schema ki))"
  have other: "re_str E (kind_gvk (ki_schema x)) \<noteq> ?key" if "x \<in> set post" for x
    using that kinds(2) unfolding split by (auto simp: comp_def image_iff)
  have keep: "ws_validating (register_kind E md a x w') ?key = ws_validating w' ?key"
    "ws_mutating (register_kind E md a x w') ?key = ws_mutating w' ?key" if "x \<in> set post" for x w'
    using other [OF that] by (auto simp: register_kind_entries split: option.split)
  have "ws_validating (fold (register_kind E md a) post w') ?key = ws_validating w' ?key"
    "ws_mutating (fold (register_kind E md a) post w') ?key = ws_mutating w' ?key" for w'
    by (rule fold_others [of post "\<lambda>w. ws_validating w ?key", OF keep(1)], assumption)
       (rule fold_others [of post "\<lambda>w. ws_mutating w ?key", OF keep(2)], assumption)
  then show "cap_validation c \<Longrightarrow> ws_validating (fold (register_kind E md a) kis w) ?key =
      Some (ki, Some (app_validator (re_txt E) (ra_iface a)))"
    "cap_mutation c \<Longrightarrow> ws_mutating (fold (register_kind E md a) kis w) ?key =
      Some (ki, Some (app_mutator (re_txt E) (ra_iface a)))"
    unfolding split by (simp_all add: register_kind_entries cap)
qed

section \<open>The webhooks answer with the app's verdict\<close>

text \<open>A request that carries a review of one kind, decoded and translated.\<close>

definition review_of ::
  "'o admission_env \<Rightarrow> http_request \<Rightarrow> 'o kind_info \<Rightarrow> AdmissionReview \<Rightarrow> k8s_request \<Rightarrow> 'o AdmissionRequest \<Rightarrow> bool" where
  "review_of H req ki rv kreq admReq \<longleftrightarrow> hq_Method req = ''POST'' \<and>
     (case hq_Body req of Inl e \<Rightarrow> False | Inr body \<Rightarrow> ad_unmarshal H body = Inr rv) \<and> rev_Request rv = Some kreq \<and>
     kr_RequestKind kreq = Some (kind_gvk (ki_schema ki)) \<and> kr_Kind kreq = kind_gvk (ki_schema ki) \<and>
     translateKubernetesAdmissionRequest kreq ki = Inr admReq"

text \<open>What the configured controllers say; a kind without one counts as not implemented, which is an error.\<close>

definition app_verdict ::
  "string \<Rightarrow> ('o, 's) ValidatingAdmissionController option \<Rightarrow> 'o AdmissionRequest \<Rightarrow> 's \<Rightarrow> adm_error option ran \<times> 's" where
  "app_verdict notImplemented validator admReq s = (case validator of
     None \<Rightarrow> (Ran (Some (PlainError notImplemented)), s)
   | Some v \<Rightarrow> v admReq s)"

definition app_mutation ::
  "string \<Rightarrow> ('o, 's) MutatingAdmissionController option \<Rightarrow> 'o AdmissionRequest \<Rightarrow> 's \<Rightarrow>
   ('o option option \<times> adm_error option) ran \<times> 's" where
  "app_mutation notImplemented mutator admReq s = (case mutator of
     None \<Rightarrow> (Ran (None, Some (PlainError notImplemented)), s)
   | Some m \<Rightarrow> map_prod (map_ran (\<lambda>(resp, err). (if err = None then resp else None, err))) id (m admReq s))"

definition validation_answer :: "'o admission_env \<Rightarrow> AdmissionReview \<Rightarrow> k8s_request \<Rightarrow> adm_error option \<Rightarrow> http_response" where
  "validation_answer H rv kreq err = write_review H (rev_TypeMeta rv)
     (addAdmissionError \<lparr>resp_UID = kr_UID kreq, resp_Allowed = True, resp_Result = None, resp_Patch = None\<rparr> err)"

definition mutation_answer ::
  "'o admission_env \<Rightarrow> AdmissionReview \<Rightarrow> k8s_request \<Rightarrow> 'o kind_info \<Rightarrow> 'o option option \<times> adm_error option \<Rightarrow> http_response" where
  "mutation_answer H rv kreq ki r = write_review H (rev_TypeMeta rv) (mutate_response H kreq ki r)"

lemma review_prepared:
  assumes "review_of H req ki rv kreq admReq" "registered (ad_str H (kind_gvk (ki_schema ki))) = Some (ki, Some c)"
  shows "admit_prepare H what registered fallback req = Ran (Inr (rv, kreq, ki, c, admReq))"
  using assms by (auto simp: review_of_def admit_prepare_def find_controller_def split: sum.splits)

lemma review_request:
  assumes "review_of H req ki rv kreq admReq"
  shows "gvk_key (ar_Group admReq) (ar_Version admReq) (ar_Kind admReq) =
    gvk_key (sch_Group (ki_schema ki)) (sch_Version (ki_schema ki)) (sch_Kind (ki_schema ki))"
  using assms by (auto simp: review_of_def translateKubernetesAdmissionRequest_def kind_gvk_def split: sum.splits)

lemma app_validator_simple:
  assumes "ap_kinds app (gvk_key (ar_Group admReq) (ar_Version admReq) (ar_Kind admReq)) = Some k"
  shows "app_validator txt (simple_app app) admReq s = app_verdict (txt ErrNotImplemented) (mk_Validator k) admReq s"
proof (cases "mk_Validator k")
  case (Some v)
  obtain r s' where r: "v admReq s = (r, s')" by fastforce
  then show ?thesis using assms Some
    by (cases r) (simp_all add: app_validator_def SimpleValidate_def simple_app_def App_Validate_def app_verdict_def)
qed (use assms in \<open>simp add: app_validator_def SimpleValidate_def simple_app_def App_Validate_def app_verdict_def\<close>)

lemma app_mutator_simple:
  assumes "ap_kinds app (gvk_key (ar_Group admReq) (ar_Version admReq) (ar_Kind admReq)) = Some k"
  shows "app_mutator txt (simple_app app) admReq s = app_mutation (txt ErrNotImplemented) (mk_Mutator k) admReq s"
proof (cases "mk_Mutator k")
  case (Some v)
  obtain r s' where r: "v admReq s = (r, s')" by fastforce
  then show ?thesis using assms Some
    by (cases r) (auto simp: app_mutator_def SimpleMutate_def simple_app_def App_Mutate_def app_mutation_def)
qed (use assms in \<open>simp add: app_mutator_def SimpleMutate_def simple_app_def App_Mutate_def app_mutation_def\<close>)

lemma run_registers:
  assumes "runner_Run E readFile unmarshal (Some (manifest, newApp)) R = (Inr rs, R')"
    "getManifestData readFile unmarshal manifest = Inr md" "newApp md = Inr ra" "anyWebhooks md"
  shows "\<exists>w w'. or_webhookServer R = Some w \<and> or_webhookServer R' = Some w' \<and> WebhookRunnable \<in> set rs \<and>
    w' = fold (register_kind E md ra) (ra_ManagedKinds ra) w"
  using assms by (auto simp: runner_Run_def Let_def split: option.splits)

lemma declared_any_webhooks:
  assumes "declared md g c" "SupportsAnyValidation c \<or> SupportsAnyMutation c"
  shows "anyWebhooks md"
proof -
  obtain v k where v: "v \<in> set (md_Versions md)" "k \<in> set (mv_Kinds v)" "vk_Admission k = Some c"
    using assms(1) by (auto simp: declared_def)
  have "vk_entry (mv_Name v) k = Some (vk_key (vk_Kind k) (mv_Name v),
      \<lparr>cap_conversion = vk_Conversion k, cap_mutation = SupportsAnyMutation c, cap_validation = SupportsAnyValidation c\<rparr>)"
    using v(3) by (simp add: vk_entry_def)
  then have "(vk_key (vk_Kind k) (mv_Name v),
      \<lparr>cap_conversion = vk_Conversion k, cap_mutation = SupportsAnyMutation c, cap_validation = SupportsAnyValidation c\<rparr>)
      \<in> set (vk_entries md)" using v(1,2) vk_entries_iff by blast
  then show ?thesis unfolding anyWebhooks_def using assms(2) by (force intro: bexI)
qed

text \<open>
  C37. An operator runner enforces, through its webhooks, what an app's manifest declares: when \<open>Run\<close> starts an app whose
  manifest gives a managed kind a validating (a mutating) capability, it runs the webhook server, and that server
  answers every well-formed review of the kind with the verdict of the validator (the result of the mutator) the app
  was configured with: denied with its error, or allowed, for a mutator with the patch to its object. A declared
  capability without a controller denies.
\<close>

theorem operator_webhooks_enforce_manifest:
  assumes app: "NewApp A cfg = Inr (app, p)" "well_named cfg" "k \<in> set (ac_ManagedKinds cfg)" "k_Schema (mk_Kind k) = Some (ki_schema ki)"
    and run: "runner_Run E readFile unmarshal (Some (manifest, newApp)) R = (Inr rs, R')"
      "getManifestData readFile unmarshal manifest = Inr md" "newApp md = Inr ra" "ra_iface ra = simple_app app"
    and kinds: "ki \<in> set (ra_ManagedKinds ra)" "distinct (map (re_str E \<circ> kind_gvk \<circ> ki_schema) (ra_ManagedKinds ra))"
    and manifest: "well_kinded md" "declared md (kind_gvk (ki_schema ki)) c"
    and env: "ad_str H = re_str E"
    and req: "review_of H req ki rv kreq admReq"
  shows "(SupportsAnyValidation c \<longrightarrow> WebhookRunnable \<in> set rs \<and>
      map_option (\<lambda>w. HandleValidateHTTP H w req s) (or_webhookServer R') =
        Some (map_prod (map_ran (validation_answer H rv kreq)) id
          (app_verdict (re_txt E ErrNotImplemented) (mk_Validator k) admReq s))) \<and>
    (SupportsAnyMutation c \<longrightarrow> WebhookRunnable \<in> set rs \<and>
      map_option (\<lambda>w. HandleMutateHTTP H w req s) (or_webhookServer R') =
        Some (map_prod (map_ran (mutation_answer H rv kreq ki)) id
          (app_mutation (re_txt E ErrNotImplemented) (mk_Mutator k) admReq s)))"
proof -
  have found: "ap_kinds app (gvk_key (ar_Group admReq) (ar_Version admReq) (ar_Kind admReq)) = Some k"
    unfolding review_request [OF req] by (rule managed_kind_found [OF app])
  obtain cap where cap: "vkCapabilities md (vk_key (sch_Kind (ki_schema ki)) (sch_Version (ki_schema ki))) = Some cap"
    and caps: "cap_validation cap = SupportsAnyValidation c" "cap_mutation cap = SupportsAnyMutation c"
    using declared_capabilities [OF manifest] by blast
  have started: "\<exists>w. or_webhookServer R' = Some (fold (register_kind E md ra) (ra_ManagedKinds ra) w) \<and> WebhookRunnable \<in> set rs"
    if any: "SupportsAnyValidation c \<or> SupportsAnyMutation c"
    using run_registers [OF run(1-3) declared_any_webhooks [OF manifest(2) any]] by auto
  have entry: "SupportsAnyValidation c \<Longrightarrow> ws_validating (fold (register_kind E md ra) (ra_ManagedKinds ra) w)
        (ad_str H (kind_gvk (ki_schema ki))) = Some (ki, Some (app_validator (re_txt E) (simple_app app)))"
    "SupportsAnyMutation c \<Longrightarrow> ws_mutating (fold (register_kind E md ra) (ra_ManagedKinds ra) w)
        (ad_str H (kind_gvk (ki_schema ki))) = Some (ki, Some (app_mutator (re_txt E) (simple_app app)))" for w
    using fold_register [OF kinds cap, where a = ra] unfolding caps run(4) env by blast+
  have validate: "HandleValidateHTTP H (fold (register_kind E md ra) (ra_ManagedKinds ra) w) req s =
      map_prod (map_ran (validation_answer H rv kreq)) id (app_verdict (re_txt E ErrNotImplemented) (mk_Validator k) admReq s)"
    if v: "SupportsAnyValidation c" for w
    using review_prepared [where registered = "ws_validating (fold (register_kind E md ra) (ra_ManagedKinds ra) w)", OF req entry(1) [OF v]]
      app_validator_simple [OF found]
    by (auto simp: HandleValidateHTTP_def validation_answer_def split: prod.split ran.split)
  have mutate: "HandleMutateHTTP H (fold (register_kind E md ra) (ra_ManagedKinds ra) w) req s =
      map_prod (map_ran (mutation_answer H rv kreq ki)) id (app_mutation (re_txt E ErrNotImplemented) (mk_Mutator k) admReq s)"
    if m: "SupportsAnyMutation c" for w
    using review_prepared [where registered = "ws_mutating (fold (register_kind E md ra) (ra_ManagedKinds ra) w)", OF req entry(2) [OF m]]
      app_mutator_simple [OF found]
    by (auto simp: HandleMutateHTTP_def mutation_answer_def split: prod.split ran.split)
  show ?thesis using started validate mutate by auto
qed

text \<open>
  Where the webhooks and the API server differ: a kind that declares validation but has no validator is denied by the
  webhook and let through by the API server's plugin.
\<close>

lemma not_implemented_differs:
  "ni (Inl ErrNotImplemented) \<Longrightarrow> validator_verdict ni None req s = (Ran Allowed, s)"
  "app_verdict txt None req s = (Ran (Some (PlainError txt)), s)"
  by (simp_all add: validator_verdict_def app_verdict_def)

text \<open>A manifest of another location type, and one whose data is read, is not an error: the app then has no capabilities.\<close>

lemma unknown_location_has_no_capabilities:
  "getManifestData readFile unmarshal \<lparr>mf_Data = Some md, mf_Location = OtherLocation l\<rparr> = Inr empty_manifest"
  "\<not> anyWebhooks empty_manifest"
  by (simp_all add: getManifestData_def anyWebhooks_def vk_entries_def empty_manifest_def)

section \<open>A runner with one app\<close>

definition unit_kind :: "unit kind_info" where
  "unit_kind = \<lparr>ki_schema = \<lparr>sch_Group = ''g'', sch_Version = ''v1'', sch_Kind = ''Foo'', sch_Plural = ''foos''\<rparr>,
     ki_read = (\<lambda>raw. Inr ()), ki_write = (\<lambda>ob. Inr ''{}'')\<rparr>"

definition delete_review :: AdmissionReview where
  "delete_review = \<lparr>rev_TypeMeta = (''AdmissionReview'', ''v1''), rev_Request = Some
     \<lparr>kr_UID = ''u1'', kr_RequestKind = Some plain_gvk, kr_Kind = plain_gvk, kr_Operation = ''DELETE'',
      kr_Object = [], kr_OldObject = ''{}'', kr_UserInfo = no_user\<rparr>\<rparr>"

definition gvk_text :: "gvk \<Rightarrow> string" where
  "gvk_text g = gvk_Group g @ ''/'' @ gvk_Version g @ '', Kind='' @ gvk_Kind g"

definition unit_env :: "unit admission_env" where
  "unit_env = \<lparr>ad_str = gvk_text, ad_unmarshal = (\<lambda>body. Inr delete_review),
     ad_default = (\<lambda>g. unit_kind), ad_marshal_error = (\<lambda>r. None), ad_patch = (\<lambda>a b. Inr b)\<rparr>"

definition runner_env :: run_env where
  "runner_env = \<lparr>re_str = gvk_text, re_txt = (\<lambda>e. ''error''),
     re_parse = (\<lambda>v k. \<lparr>gvk_Group = [], gvk_Version = v, gvk_Kind = k\<rparr>)\<rparr>"

definition runner_config :: RunnerConfig where
  "runner_config = \<lparr>rn_Port = 8443, rn_CertPath = ''c'', rn_KeyPath = ''k'', rn_MetricsPort = 0, rn_MetricsEnabled = False,
     rn_HealthCheckInterval = 0, rn_HealthCheck = None\<rparr>"

definition run_of :: "('x, unit, nat) app \<Rightarrow> (unit, nat) run_app" where
  "run_of a = \<lparr>ra_iface = simple_app a, ra_Convert = (\<lambda>r. Inl ErrNotImplemented), ra_ManagedKinds = [unit_kind], ra_HasRunner = True,
     ra_HealthChecks = [], ra_RunnerHealthChecks = []\<rparr>"

theorem operator_webhooks_enforce_manifest_witness:
  "\<exists>a p R rs R' w. NewApp sample_app_env validated_config = Inr (a, p) \<and> NewRunner gvk_text runner_config = Inr R \<and>
     runner_Run runner_env (\<lambda>f. Inr []) (\<lambda>c. Inr validated_manifest)
       (Some (\<lparr>mf_Data = None, mf_Location = FilePath ''m.json''\<rparr>, \<lambda>md. Inr (run_of a))) R = (Inr rs, R') \<and>
     or_webhookServer R' = Some w \<and>
     HandleValidateHTTP unit_env w \<lparr>hq_Method = ''POST'', hq_Body = Inr ''review''\<rparr> (0 :: nat) =
       (Ran \<lparr>hp_Code = 200, hp_Body = ReviewBody (''AdmissionReview'', ''v1'')
          \<lparr>resp_UID = ''u1'', resp_Allowed = False,
           resp_Result = Some \<lparr>stat_Status = ''Failure'', stat_Message = ''no'', stat_Code = 0, stat_Reason = []\<rparr>,
           resp_Patch = None\<rparr>\<rparr>, 1)"
proof -
  let ?k = "sample_managed\<lparr>mk_Validator := Some only_creates\<rparr>"
  let ?mf = "\<lparr>mf_Data = None, mf_Location = FilePath ''m.json''\<rparr>"
  let ?req = "\<lparr>ar_Action = AdmissionActionDelete, ar_Kind = ''Foo'', ar_Group = ''g'', ar_Version = ''v1'', ar_UserInfo = no_user,
     ar_Object = None, ar_OldObject = Some ()\<rparr>"
  let ?http = "\<lparr>hq_Method = ''POST'', hq_Body = Inr ''review''\<rparr>"
  obtain a p where a: "NewApp sample_app_env validated_config = Inr (a, p)" using validated_app by blast
  have cfg: "well_named validated_config"
    by (simp add: well_named_def validated_config_def sample_app_config_def sample_managed_def sample_kind_def kind_well_named_def
        plain_def no_bar_def)
  have k: "?k \<in> set (ac_ManagedKinds validated_config)" "k_Schema (mk_Kind ?k) = Some (ki_schema unit_kind)"
    by (simp_all add: validated_config_def sample_managed_def sample_kind_def unit_kind_def)
  obtain R :: "(unit, nat) op_runner" where R: "NewRunner gvk_text runner_config = Inr R" "or_webhookServer R \<noteq> None"
    by (simp add: NewRunner_def runner_config_def webhook_config_def NewWebhookServer_def Let_def)
  have md: "getManifestData (\<lambda>f. Inr []) (\<lambda>c. Inr validated_manifest) ?mf = Inr validated_manifest"
    by (simp add: getManifestData_def)
  have declares: "well_kinded validated_manifest" "declared validated_manifest (kind_gvk (ki_schema unit_kind)) any_operation"
    by (simp_all add: well_kinded_def declared_def validated_manifest_def kind_gvk_def unit_kind_def)
  have any: "SupportsAnyValidation any_operation" by (simp add: SupportsAnyValidation_def any_operation_def)
  have "anyWebhooks validated_manifest" by (rule declared_any_webhooks [OF declares(2)]) (use any in simp)
  then obtain rs R' where run: "runner_Run runner_env (\<lambda>f. Inr []) (\<lambda>c. Inr validated_manifest)
       (Some (?mf, \<lambda>md. Inr (run_of a))) R = (Inr rs, R')"
    using R(2) md by (auto simp: runner_Run_def Let_def)
  have app: "ra_iface (run_of a) = simple_app a" "unit_kind \<in> set (ra_ManagedKinds (run_of a))"
    "distinct (map (re_str runner_env \<circ> kind_gvk \<circ> ki_schema) (ra_ManagedKinds (run_of a)))"
    by (simp_all add: run_of_def)
  have env: "ad_str unit_env = re_str runner_env" by (simp add: unit_env_def runner_env_def)
  have review: "review_of unit_env ?http unit_kind delete_review (the (rev_Request delete_review)) ?req"
    by (simp add: review_of_def unit_env_def delete_review_def unit_kind_def kind_gvk_def plain_gvk_def
        translateKubernetesAdmissionRequest_def read_raw_def admission_action_def)
  from operator_webhooks_enforce_manifest [OF a cfg k run md _ app declares env review] any
  have "map_option (\<lambda>w. HandleValidateHTTP unit_env w ?http 0) (or_webhookServer R') =
      Some (map_prod (map_ran (validation_answer unit_env delete_review (the (rev_Request delete_review)))) id
        (app_verdict (re_txt runner_env ErrNotImplemented) (mk_Validator ?k) ?req 0))" by blast
  then obtain w where w: "or_webhookServer R' = Some w" "HandleValidateHTTP unit_env w ?http 0 =
      map_prod (map_ran (validation_answer unit_env delete_review (the (rev_Request delete_review)))) id
        (app_verdict (re_txt runner_env ErrNotImplemented) (mk_Validator ?k) ?req 0)" by (auto simp: map_option_eq_Some)
  have "HandleValidateHTTP unit_env w ?http 0 = (Ran \<lparr>hp_Code = 200, hp_Body = ReviewBody (''AdmissionReview'', ''v1'')
          \<lparr>resp_UID = ''u1'', resp_Allowed = False,
           resp_Result = Some \<lparr>stat_Status = ''Failure'', stat_Message = ''no'', stat_Code = 0, stat_Reason = []\<rparr>,
           resp_Patch = None\<rparr>\<rparr>, 1)"
    unfolding w(2) by (simp add: app_verdict_def only_creates_def validation_answer_def write_review_def unit_env_def
        delete_review_def addAdmissionError_def)
  then show ?thesis using a R(1) run w(1) by blast
qed

end
