(* ===== verification/Singleton_Runner.thy ===== *)
theory Singleton_Runner
  imports App_Runner
begin

text \<open>
  \<^verbatim>\<open>SingletonRunner\<close> of \<^verbatim>\<open>app/runner.go\<close>: several calls of \<open>Run\<close> share one run of the wrapped runnable. A step is one move
  of a call or of one of the goroutines it starts. The fields \<open>ctx\<close> and \<open>cancel\<close> are read without the lock, so that
  each read is a step of its own and sees the newest run.
\<close>

section \<open>The runner\<close>

definition Canceled :: go_error where
  "Canceled = GoErr ''context canceled''"

definition ErrOtherRunStopped :: go_error where
  "ErrOtherRunStopped = GoErr ''run stopped by another run call''"

text \<open>
  A run of the wrapped runnable with its context: whether it still runs, what it returned, and the cause its context
  was cancelled with. \<open>Ended\<close> is the moment between the return and the cancellation by it.
\<close>

datatype wrapped = Active | Ended "go_error option" | Reported "go_error option"

record instance_state =
  is_wrapped :: wrapped
  is_cause :: "go_error option"

text \<open>
  A call has not started; has added to the wait group; has left the locked part; waits on the context of run \<open>n\<close>;
  has seen that context end; or has returned.
\<close>

datatype call_phase = NotCalled | Entered | Attached | Selecting nat | ContextEnded | Exited "go_error option"

record call_state =
  cs_phase :: call_phase
  cs_ctxDone :: bool
  cs_stopper :: bool

datatype waiter = OnGroup | Woken | Gone

record singleton =
  sg_calls :: "call_state list"
  sg_running :: bool
  sg_instances :: "instance_state list"
  sg_waiters :: "waiter list"

definition singleton_init :: "nat \<Rightarrow> singleton" where
  "singleton_init n = \<lparr>sg_calls = replicate n \<lparr>cs_phase = NotCalled, cs_ctxDone = False, cs_stopper = False\<rparr>,
     sg_running = False, sg_instances = [], sg_waiters = []\<rparr>"

text \<open>A call that holds the wait group.\<close>

definition in_group :: "call_phase \<Rightarrow> bool" where
  "in_group p \<longleftrightarrow> p \<noteq> NotCalled \<and> (\<forall>r. p \<noteq> Exited r)"

definition set_call :: "nat \<Rightarrow> (call_state \<Rightarrow> call_state) \<Rightarrow> singleton \<Rightarrow> singleton" where
  "set_call i f s = s\<lparr>sg_calls := (sg_calls s)[i := f (sg_calls s ! i)]\<rparr>"

text \<open>\<^verbatim>\<open>cancel(err)\<close> of the newest run: the first cause stays, a nil one is \<^verbatim>\<open>context.Canceled\<close>.\<close>

definition cancel_newest :: "go_error option \<Rightarrow> singleton \<Rightarrow> singleton" where
  "cancel_newest err s = (case sg_instances s of
     [] \<Rightarrow> s
   | _ \<Rightarrow> s\<lparr>sg_instances := (sg_instances s)[length (sg_instances s) - 1 :=
       (let g = last (sg_instances s)
        in if is_cause g = None then g\<lparr>is_cause := Some (case err of None \<Rightarrow> Canceled | Some e \<Rightarrow> e)\<rparr> else g)]\<rparr>)"

definition new_instance :: instance_state where
  "new_instance = \<lparr>is_wrapped = Active, is_cause = None\<rparr>"

definition set_wrapped :: "nat \<Rightarrow> wrapped \<Rightarrow> singleton \<Rightarrow> singleton" where
  "set_wrapped n w s = s\<lparr>sg_instances := (sg_instances s)[n := (sg_instances s ! n)\<lparr>is_wrapped := w\<rparr>]\<rparr>"

text \<open>The locked part of \<open>Run\<close>.\<close>

definition attach :: "singleton \<Rightarrow> singleton" where
  "attach s = (if sg_running s then s
     else s\<lparr>sg_running := True, sg_instances := sg_instances s @ [new_instance], sg_waiters := sg_waiters s @ [OnGroup]\<rparr>)"

text \<open>
  Steps. \<open>Done\<close>: a call's own context ends, at any time. \<open>Stop\<close>: the goroutine that waits for it cancels the newest run,
  when any call's end is to stop all. \<open>Wake\<close> and \<open>Reset\<close>: the goroutine that waits for the group. \<open>End\<close>, \<open>Report\<close>: the
  wrapped runnable returns, and its goroutine cancels.
\<close>

inductive singleton_step :: "bool \<Rightarrow> singleton \<Rightarrow> singleton \<Rightarrow> bool" for stopOnAny where
  Done: "i < length (sg_calls s) \<Longrightarrow> singleton_step stopOnAny s (set_call i (cs_ctxDone_update (\<lambda>_. True)) s)"
| Enter: "i < length (sg_calls s) \<Longrightarrow> cs_phase (sg_calls s ! i) = NotCalled \<Longrightarrow>
    singleton_step stopOnAny s (set_call i (\<lambda>c. c\<lparr>cs_phase := Entered, cs_stopper := True\<rparr>) s)"
| Stop: "i < length (sg_calls s) \<Longrightarrow> cs_stopper (sg_calls s ! i) \<Longrightarrow> cs_ctxDone (sg_calls s ! i) \<Longrightarrow>
    singleton_step stopOnAny s (set_call i (cs_stopper_update (\<lambda>_. False))
      (if stopOnAny then cancel_newest (Some ErrOtherRunStopped) s else s))"
| Attach: "i < length (sg_calls s) \<Longrightarrow> cs_phase (sg_calls s ! i) = Entered \<Longrightarrow>
    singleton_step stopOnAny s (set_call i (cs_phase_update (\<lambda>_. Attached)) (attach s))"
| Select: "i < length (sg_calls s) \<Longrightarrow> cs_phase (sg_calls s ! i) = Attached \<Longrightarrow>
    singleton_step stopOnAny s (set_call i (cs_phase_update (\<lambda>_. Selecting (length (sg_instances s) - 1))) s)"
| OwnDone: "i < length (sg_calls s) \<Longrightarrow> cs_phase (sg_calls s ! i) = Selecting n \<Longrightarrow> cs_ctxDone (sg_calls s ! i) \<Longrightarrow>
    singleton_step stopOnAny s (set_call i (cs_phase_update (\<lambda>_. Exited None)) s)"
| Cancelled: "i < length (sg_calls s) \<Longrightarrow> cs_phase (sg_calls s ! i) = Selecting n \<Longrightarrow> is_cause (sg_instances s ! n) \<noteq> None \<Longrightarrow>
    singleton_step stopOnAny s (set_call i (cs_phase_update (\<lambda>_. ContextEnded)) s)"
| Return: "i < length (sg_calls s) \<Longrightarrow> cs_phase (sg_calls s ! i) = ContextEnded \<Longrightarrow>
    singleton_step stopOnAny s (set_call i (cs_phase_update (\<lambda>_. Exited (is_cause (last (sg_instances s))))) s)"
| Wake: "n < length (sg_waiters s) \<Longrightarrow> sg_waiters s ! n = OnGroup \<Longrightarrow> (\<forall>c \<in> set (sg_calls s). \<not> in_group (cs_phase c)) \<Longrightarrow>
    singleton_step stopOnAny s (s\<lparr>sg_waiters := (sg_waiters s)[n := Woken]\<rparr>)"
| Reset: "n < length (sg_waiters s) \<Longrightarrow> sg_waiters s ! n = Woken \<Longrightarrow>
    singleton_step stopOnAny s (s\<lparr>sg_waiters := (sg_waiters s)[n := Gone], sg_running := False\<rparr>)"
| End: "n < length (sg_instances s) \<Longrightarrow> is_wrapped (sg_instances s ! n) = Active \<Longrightarrow>
    singleton_step stopOnAny s (set_wrapped n (Ended err) s)"
| Report: "n < length (sg_instances s) \<Longrightarrow> is_wrapped (sg_instances s ! n) = Ended err \<Longrightarrow>
    singleton_step stopOnAny s (cancel_newest err (set_wrapped n (Reported err) s))"

section \<open>Where results come from\<close>

text \<open>
  Why the context of a run may be cancelled: a run of the wrapped runnable returned, or the own context of some call that
  was made has ended and any call's end stops all.
\<close>

definition justified :: "bool \<Rightarrow> singleton \<Rightarrow> go_error \<Rightarrow> bool" where
  "justified stopOnAny s e \<longleftrightarrow>
     (\<exists>n < length (sg_instances s). is_wrapped (sg_instances s ! n) = Reported (Some e) \<or>
        is_wrapped (sg_instances s ! n) = Reported None \<and> e = Canceled) \<or>
     stopOnAny \<and> e = ErrOtherRunStopped \<and>
       (\<exists>i < length (sg_calls s). cs_ctxDone (sg_calls s ! i) \<and> cs_phase (sg_calls s ! i) \<noteq> NotCalled)"

definition some_returned :: "singleton \<Rightarrow> bool" where
  "some_returned s \<longleftrightarrow> (\<exists>i < length (sg_calls s). \<exists>r. cs_phase (sg_calls s ! i) = Exited r)"

text \<open>One call, as the runner stands.\<close>

definition call_ok :: "bool \<Rightarrow> singleton \<Rightarrow> call_state \<Rightarrow> bool" where
  "call_ok stopOnAny s c \<longleftrightarrow> (case cs_phase c of
     NotCalled \<Rightarrow> True
   | Entered \<Rightarrow> True
   | Attached \<Rightarrow> sg_instances s \<noteq> []
   | Selecting n \<Rightarrow> n < length (sg_instances s)
   | ContextEnded \<Rightarrow> (\<exists>n < length (sg_instances s). is_cause (sg_instances s ! n) \<noteq> None)
   | Exited (Some e) \<Rightarrow> justified stopOnAny s e
   | Exited None \<Rightarrow> cs_ctxDone c \<or> 1 < length (sg_instances s))"

definition singleton_inv :: "bool \<Rightarrow> singleton \<Rightarrow> bool" where
  "singleton_inv stopOnAny s \<longleftrightarrow>
     (\<forall>n < length (sg_instances s). \<forall>e. is_cause (sg_instances s ! n) = Some e \<longrightarrow> justified stopOnAny s e) \<and>
     (\<forall>i < length (sg_calls s). call_ok stopOnAny s (sg_calls s ! i)) \<and>
     (\<forall>i < length (sg_calls s). cs_stopper (sg_calls s ! i) \<longrightarrow> cs_phase (sg_calls s ! i) \<noteq> NotCalled) \<and>
     (sg_running s \<longrightarrow> sg_instances s \<noteq> []) \<and>
     (sg_waiters s \<noteq> [] \<longrightarrow> (\<exists>i < length (sg_calls s). cs_phase (sg_calls s ! i) \<noteq> NotCalled)) \<and>
     (1 < length (sg_instances s) \<longrightarrow> some_returned s) \<and>
     ((\<exists>w \<in> set (sg_waiters s). w \<noteq> OnGroup) \<longrightarrow> some_returned s) \<and>
     (sg_instances s \<noteq> [] \<and> \<not> sg_running s \<longrightarrow> some_returned s)"

text \<open>What a step never takes back.\<close>

definition carries_on :: "singleton \<Rightarrow> singleton \<Rightarrow> bool" where
  "carries_on s s' \<longleftrightarrow> length (sg_calls s') = length (sg_calls s) \<and> length (sg_instances s) \<le> length (sg_instances s') \<and>
     (\<forall>i < length (sg_calls s). (cs_ctxDone (sg_calls s ! i) \<longrightarrow> cs_ctxDone (sg_calls s' ! i)) \<and>
        (cs_phase (sg_calls s ! i) \<noteq> NotCalled \<longrightarrow> cs_phase (sg_calls s' ! i) \<noteq> NotCalled) \<and>
        (\<forall>r. cs_phase (sg_calls s ! i) = Exited r \<longrightarrow> cs_phase (sg_calls s' ! i) = Exited r)) \<and>
     (\<forall>n < length (sg_instances s). (\<forall>r. is_wrapped (sg_instances s ! n) = Reported r \<longrightarrow> is_wrapped (sg_instances s' ! n) = Reported r) \<and>
        (is_cause (sg_instances s ! n) \<noteq> None \<longrightarrow> is_cause (sg_instances s' ! n) \<noteq> None))"

lemma cancel_newest_empty: "sg_instances s = [] \<Longrightarrow> cancel_newest err s = s"
  by (simp add: cancel_newest_def)

lemma cancel_newest_eq:
  "sg_instances s \<noteq> [] \<Longrightarrow> cancel_newest err s = s\<lparr>sg_instances := (sg_instances s)[length (sg_instances s) - 1 :=
     (let g = last (sg_instances s)
      in if is_cause g = None then g\<lparr>is_cause := Some (case err of None \<Rightarrow> Canceled | Some e \<Rightarrow> e)\<rparr> else g)]\<rparr>"
  unfolding cancel_newest_def by (cases "sg_instances s") (blast, simp only: list.case)

lemma cancel_newest_fields [simp]:
  "sg_calls (cancel_newest err s) = sg_calls s" "sg_running (cancel_newest err s) = sg_running s"
  "sg_waiters (cancel_newest err s) = sg_waiters s"
  "length (sg_instances (cancel_newest err s)) = length (sg_instances s)"
  by (cases "sg_instances s = []"; simp add: cancel_newest_empty cancel_newest_eq)+

lemma cancel_newest_instance:
  assumes "n < length (sg_instances s)"
  shows "is_wrapped (sg_instances (cancel_newest err s) ! n) = is_wrapped (sg_instances s ! n)"
    "is_cause (sg_instances (cancel_newest err s) ! n) =
      (if is_cause (sg_instances s ! n) = None \<and> n = length (sg_instances s) - 1
       then Some (case err of None \<Rightarrow> Canceled | Some e \<Rightarrow> e) else is_cause (sg_instances s ! n))"
proof -
  have ne: "sg_instances s \<noteq> []" using assms by auto
  show "is_wrapped (sg_instances (cancel_newest err s) ! n) = is_wrapped (sg_instances s ! n)"
    "is_cause (sg_instances (cancel_newest err s) ! n) =
      (if is_cause (sg_instances s ! n) = None \<and> n = length (sg_instances s) - 1
       then Some (case err of None \<Rightarrow> Canceled | Some e \<Rightarrow> e) else is_cause (sg_instances s ! n))"
    unfolding cancel_newest_eq [OF ne] using assms by (simp_all add: Let_def nth_list_update last_conv_nth [OF ne])
qed

lemma set_wrapped_fields [simp]:
  "sg_calls (set_wrapped n w s) = sg_calls s" "sg_running (set_wrapped n w s) = sg_running s"
  "sg_waiters (set_wrapped n w s) = sg_waiters s"
  "length (sg_instances (set_wrapped n w s)) = length (sg_instances s)"
  by (simp_all add: set_wrapped_def)

lemma set_wrapped_instance:
  assumes "k < length (sg_instances s)"
  shows "is_wrapped (sg_instances (set_wrapped n w s) ! k) = (if k = n then w else is_wrapped (sg_instances s ! k))"
    "is_cause (sg_instances (set_wrapped n w s) ! k) = is_cause (sg_instances s ! k)"
  using assms by (cases "n = k"; simp add: set_wrapped_def nth_list_update)+

lemma set_call_fields [simp]:
  "sg_instances (set_call i f s) = sg_instances s" "sg_running (set_call i f s) = sg_running s"
  "sg_waiters (set_call i f s) = sg_waiters s" "length (sg_calls (set_call i f s)) = length (sg_calls s)"
  by (simp_all add: set_call_def)

lemma set_call_nth:
  "j < length (sg_calls s) \<Longrightarrow> sg_calls (set_call i f s) ! j = (if j = i then f (sg_calls s ! i) else sg_calls s ! j)"
  by (auto simp: set_call_def nth_list_update)

lemma attach_fields [simp]:
  "sg_calls (attach s) = sg_calls s" "sg_running (attach s)" "sg_instances (attach s) \<noteq> [] \<longleftrightarrow> \<not> sg_running s \<or> sg_instances s \<noteq> []"
  by (auto simp: attach_def)

lemma attach_instance:
  "n < length (sg_instances s) \<Longrightarrow> sg_instances (attach s) ! n = sg_instances s ! n"
  "length (sg_instances s) \<le> length (sg_instances (attach s))"
  by (auto simp: attach_def nth_append)

lemmas step_parts = set_call_nth set_wrapped_instance cancel_newest_instance attach_instance

lemma step_carries_on: "singleton_step stopOnAny s s' \<Longrightarrow> carries_on s s'"
  by (induction rule: singleton_step.induct) (auto simp: carries_on_def step_parts split: if_splits)

lemma justified_carried:
  assumes "carries_on s s'" "justified stopOnAny s e"
  shows "justified stopOnAny s' e"
  using assms(2) [unfolded justified_def]
proof (elim disjE exE conjE)
  fix n
  assume n: "n < length (sg_instances s)" "is_wrapped (sg_instances s ! n) = Reported (Some e)"
  then have "n < length (sg_instances s')" "is_wrapped (sg_instances s' ! n) = Reported (Some e)"
    using assms(1) by (simp_all add: carries_on_def)
  then show ?thesis by (auto simp: justified_def)
next
  fix n
  assume n: "n < length (sg_instances s)" "is_wrapped (sg_instances s ! n) = Reported None" "e = Canceled"
  then have "n < length (sg_instances s')" "is_wrapped (sg_instances s' ! n) = Reported None"
    using assms(1) by (simp_all add: carries_on_def)
  with n(3) show ?thesis by (auto simp: justified_def)
next
  fix i
  assume i: "i < length (sg_calls s)" "cs_ctxDone (sg_calls s ! i)" "cs_phase (sg_calls s ! i) \<noteq> NotCalled"
    "stopOnAny" "e = ErrOtherRunStopped"
  then have "i < length (sg_calls s')" "cs_ctxDone (sg_calls s' ! i)" "cs_phase (sg_calls s' ! i) \<noteq> NotCalled"
    using assms(1) by (simp_all add: carries_on_def)
  with i(4,5) show ?thesis by (auto simp: justified_def)
qed

lemma returned_carried: "carries_on s s' \<Longrightarrow> some_returned s \<Longrightarrow> some_returned s'"
  unfolding some_returned_def carries_on_def by metis

lemma call_ok_carried:
  assumes "carries_on s s'" "call_ok stopOnAny s c"
  shows "call_ok stopOnAny s' c"
proof -
  have len: "length (sg_instances s) \<le> length (sg_instances s')" using assms(1) by (simp add: carries_on_def)
  then have ne: "sg_instances s \<noteq> [] \<Longrightarrow> sg_instances s' \<noteq> []" by auto
  have cause: "\<exists>n < length (sg_instances s'). is_cause (sg_instances s' ! n) \<noteq> None"
    if "n < length (sg_instances s)" "is_cause (sg_instances s ! n) \<noteq> None" for n
    using assms(1) that len unfolding carries_on_def by (metis order_less_le_trans)
  show ?thesis using assms(2) len ne cause justified_carried [OF assms(1)]
    by (auto simp: call_ok_def split: call_phase.splits option.splits)
qed

lemma step_causes:
  assumes "singleton_step stopOnAny s s'" "singleton_inv stopOnAny s" "n < length (sg_instances s')" "is_cause (sg_instances s' ! n) = Some e"
  shows "justified stopOnAny s' e"
proof -
  have grown: "justified stopOnAny s' e" if "n < length (sg_instances s)" "is_cause (sg_instances s ! n) = Some e"
    using that assms(2) justified_carried [OF step_carries_on [OF assms(1)]] by (auto simp: singleton_inv_def)
  from assms(1) show ?thesis
  proof cases
    case (Stop i)
    show ?thesis
    proof (cases "stopOnAny \<and> is_cause (sg_instances s ! n) = None")
      case True
      moreover have "cs_phase (sg_calls s ! i) \<noteq> NotCalled" using Stop(2,3) assms(2) by (simp add: singleton_inv_def)
      ultimately have "e = ErrOtherRunStopped" "cs_ctxDone (sg_calls s' ! i)" "i < length (sg_calls s')"
          "cs_phase (sg_calls s' ! i) \<noteq> NotCalled"
        using Stop assms(3,4) by (auto simp: step_parts split: if_splits)
      then show ?thesis using True by (auto simp: justified_def)
    qed (use grown Stop assms(3,4) in \<open>auto simp: step_parts split: if_splits\<close>)
  next
    case (Attach i)
    then show ?thesis using grown assms(3,4) by (auto simp: attach_def nth_append new_instance_def split: if_splits)
  next
    case (Report k err)
    show ?thesis
    proof (cases "is_cause (sg_instances s ! n) = None")
      case True
      then have "e = (case err of None \<Rightarrow> Canceled | Some e \<Rightarrow> e)" "is_wrapped (sg_instances s' ! k) = Reported err"
        "k < length (sg_instances s')"
        using Report assms(3,4) by (auto simp: step_parts split: if_splits)
      then show ?thesis by (cases err) (auto simp: justified_def)
    qed (use grown Report assms(3,4) in \<open>auto simp: step_parts split: if_splits\<close>)
  qed (use grown assms(3,4) in \<open>auto simp: step_parts split: if_splits\<close>)
qed

lemma last_uncancelled:
  assumes "n < length xs" "is_cause (xs ! n) \<noteq> None" "is_cause (last xs) = None"
  shows "1 < length xs"
proof (rule ccontr)
  assume "\<not> 1 < length xs"
  then have "xs = [xs ! n]" using assms(1) by (cases xs) auto
  then have "last xs = xs ! n" by (metis last.simps)
  then show False using assms(2,3) by simp
qed

lemma step_calls:
  assumes "singleton_step stopOnAny s s'" "singleton_inv stopOnAny s" "i < length (sg_calls s')"
  shows "call_ok stopOnAny s' (sg_calls s' ! i)"
proof -
  have len: "i < length (sg_calls s)" using step_carries_on [OF assms(1)] assms(3) by (simp add: carries_on_def)
  then have before: "call_ok stopOnAny s (sg_calls s ! i)" using assms(2) by (simp add: singleton_inv_def)
  have same: "call_ok stopOnAny s' (sg_calls s' ! i)" if "cs_phase (sg_calls s' ! i) = cs_phase (sg_calls s ! i)"
    "cs_ctxDone (sg_calls s ! i) \<longrightarrow> cs_ctxDone (sg_calls s' ! i)"
    using call_ok_carried [OF step_carries_on [OF assms(1)] before] that by (auto simp: call_ok_def split: call_phase.splits option.splits)
  from assms(1) show ?thesis
  proof cases
    case (Attach j)
    then show ?thesis using same len assms(2) by (cases "j = i") (auto simp: step_parts call_ok_def singleton_inv_def)
  next
    case (Select j)
    then show ?thesis using same len before by (cases "j = i") (auto simp: step_parts call_ok_def)
  next
    case (Cancelled j n)
    then show ?thesis using same len before by (cases "j = i") (auto simp: step_parts call_ok_def)
  next
    case (Return j)
    show ?thesis
    proof (cases "j = i")
      case True
      then obtain n where n: "n < length (sg_instances s)" "is_cause (sg_instances s ! n) \<noteq> None"
        using before Return by (auto simp: call_ok_def)
      then have "sg_instances s \<noteq> []" by auto
      then have lst: "last (sg_instances s) = sg_instances s ! (length (sg_instances s) - 1)" "length (sg_instances s) - 1 < length (sg_instances s)"
        by (simp_all add: last_conv_nth)
      have after: "cs_phase (sg_calls s' ! i) = Exited (is_cause (last (sg_instances s)))" "sg_instances s' = sg_instances s"
        using True Return by (simp_all add: step_parts)
      show ?thesis
      proof (cases "is_cause (last (sg_instances s))")
        case None
        then show ?thesis using after last_uncancelled [OF n] by (simp add: call_ok_def)
      next
        case (Some e)
        then have "justified stopOnAny s e" using assms(2) lst by (auto simp: singleton_inv_def)
        then show ?thesis using after Some justified_carried [OF step_carries_on [OF assms(1)]] by (simp add: call_ok_def)
      qed
    qed (use same Return len in \<open>simp add: step_parts\<close>)
  next
    case (OwnDone j n)
    then show ?thesis using same len by (cases "j = i") (auto simp: step_parts call_ok_def)
  next
    case (Enter j)
    then show ?thesis using same len by (cases "j = i") (auto simp: step_parts call_ok_def)
  qed (use same len in \<open>auto simp: step_parts split: if_splits\<close>)
qed

lemma step_stoppers:
  assumes "singleton_step stopOnAny s s'" "singleton_inv stopOnAny s" "i < length (sg_calls s')" "cs_stopper (sg_calls s' ! i)"
  shows "cs_phase (sg_calls s' ! i) \<noteq> NotCalled"
proof -
  have len: "i < length (sg_calls s)" using step_carries_on [OF assms(1)] assms(3) by (simp add: carries_on_def)
  have kept: "cs_phase (sg_calls s' ! i) \<noteq> NotCalled" if "cs_phase (sg_calls s ! i) \<noteq> NotCalled"
    using that step_carries_on [OF assms(1)] len by (simp add: carries_on_def)
  have old: "cs_phase (sg_calls s ! i) \<noteq> NotCalled" if "cs_stopper (sg_calls s ! i)"
    using that assms(2) len by (simp add: singleton_inv_def)
  from assms(1) show ?thesis
  proof cases
    case (Enter j)
    then show ?thesis using kept old assms(4) len by (cases "j = i") (auto simp: step_parts)
  next
    case (Stop j)
    then show ?thesis using kept old assms(4) len by (cases "j = i"; cases stopOnAny) (auto simp: step_parts)
  next
    case (Done j)
    then show ?thesis using kept old assms(4) len by (cases "j = i") (auto simp: step_parts)
  next
    case (Attach j)
    then show ?thesis using kept old assms(4) len by (cases "j = i") (auto simp: step_parts)
  next
    case (Select j)
    then show ?thesis using kept old assms(4) len by (cases "j = i") (auto simp: step_parts)
  next
    case (OwnDone j)
    then show ?thesis using kept old assms(4) len by (cases "j = i") (auto simp: step_parts)
  next
    case (Cancelled j)
    then show ?thesis using kept old assms(4) len by (cases "j = i") (auto simp: step_parts)
  next
    case (Return j)
    then show ?thesis using kept old assms(4) len by (cases "j = i") (auto simp: step_parts)
  qed (use kept old assms(4) len in \<open>auto simp: step_parts\<close>)
qed

lemma step_group:
  assumes "singleton_step stopOnAny s s'" "singleton_inv stopOnAny s"
  shows "sg_running s' \<longrightarrow> sg_instances s' \<noteq> []"
    "sg_waiters s' \<noteq> [] \<longrightarrow> (\<exists>i < length (sg_calls s'). cs_phase (sg_calls s' ! i) \<noteq> NotCalled)"
proof -
  have len: "length (sg_instances s) \<le> length (sg_instances s')" using step_carries_on [OF assms(1)] by (simp add: carries_on_def)
  have kept: "sg_instances s' \<noteq> []" if "sg_running s"
    using that len assms(2) by (auto simp: singleton_inv_def)
  show "sg_running s' \<longrightarrow> sg_instances s' \<noteq> []"
    using assms(1)
  proof cases
    case (Attach i)
    then show ?thesis using assms(2) by (simp add: singleton_inv_def)
  qed (use kept in \<open>auto split: if_splits\<close>)
  have started: "\<exists>i < length (sg_calls s'). cs_phase (sg_calls s' ! i) \<noteq> NotCalled" if "sg_waiters s \<noteq> []"
    using that assms(2) step_carries_on [OF assms(1)] unfolding carries_on_def singleton_inv_def by metis
  show "sg_waiters s' \<noteq> [] \<longrightarrow> (\<exists>i < length (sg_calls s'). cs_phase (sg_calls s' ! i) \<noteq> NotCalled)"
    using assms(1)
  proof cases
    case (Attach i)
    then have "cs_phase (sg_calls s' ! i) = Attached" "i < length (sg_calls s')" by (simp_all add: step_parts)
    then show ?thesis by (metis call_phase.distinct(3))
  qed (use started in \<open>auto split: if_splits\<close>)
qed

lemma step_returned:
  assumes "singleton_step stopOnAny s s'" "singleton_inv stopOnAny s"
  shows "1 < length (sg_instances s') \<longrightarrow> some_returned s'"
    "(\<exists>w \<in> set (sg_waiters s'). w \<noteq> OnGroup) \<longrightarrow> some_returned s'"
    "sg_instances s' \<noteq> [] \<and> \<not> sg_running s' \<longrightarrow> some_returned s'"
proof -
  have kept: "some_returned s'" if "1 < length (sg_instances s) \<or> (\<exists>w \<in> set (sg_waiters s). w \<noteq> OnGroup) \<or>
      sg_instances s \<noteq> [] \<and> \<not> sg_running s"
    using that assms(2) returned_carried [OF step_carries_on [OF assms(1)]] by (auto simp: singleton_inv_def)
  have woken: "some_returned s'" if w: "sg_waiters s \<noteq> []" "\<forall>c \<in> set (sg_calls s). \<not> in_group (cs_phase c)"
  proof -
    obtain i where "i < length (sg_calls s)" "cs_phase (sg_calls s ! i) \<noteq> NotCalled"
      using w(1) assms(2) unfolding singleton_inv_def by metis
    then have "some_returned s" using w(2) unfolding some_returned_def in_group_def by (metis nth_mem)
    then show ?thesis by (rule returned_carried [OF step_carries_on [OF assms(1)]])
  qed
  show "1 < length (sg_instances s') \<longrightarrow> some_returned s'"
    using assms(1)
  proof cases
    case (Attach i)
    then show ?thesis using kept by (auto simp: attach_def split: if_splits)
  qed (use kept in \<open>auto split: if_splits\<close>)
  show "(\<exists>w \<in> set (sg_waiters s'). w \<noteq> OnGroup) \<longrightarrow> some_returned s'"
    using assms(1)
  proof cases
    case (Attach i)
    then show ?thesis using kept by (auto simp: attach_def split: if_splits)
  next
    case (Wake n)
    then show ?thesis using woken by (cases "sg_waiters s = []") auto
  next
    case (Reset n)
    then have "\<exists>w \<in> set (sg_waiters s). w \<noteq> OnGroup" by (metis nth_mem waiter.distinct(1))
    then show ?thesis using kept by blast
  qed (use kept in \<open>auto split: if_splits\<close>)
  show "sg_instances s' \<noteq> [] \<and> \<not> sg_running s' \<longrightarrow> some_returned s'"
    using assms(1)
  proof cases
    case (Attach i)
    then show ?thesis by simp
  next
    case (Reset n)
    then have "\<exists>w \<in> set (sg_waiters s). w \<noteq> OnGroup" by (metis nth_mem waiter.distinct(1))
    then show ?thesis using kept by blast
  next
    case (Stop i)
    then show ?thesis using kept by (cases "sg_instances s = []") (auto simp: cancel_newest_empty split: if_splits)
  next
    case (Report n err)
    then have "sg_instances s \<noteq> []" by auto
    then show ?thesis using kept Report by auto
  next
    case (End n err)
    then have "sg_instances s \<noteq> []" by auto
    then show ?thesis using kept End by auto
  qed (use kept in \<open>auto split: if_splits\<close>)
qed

lemma step_inv: "singleton_step stopOnAny s s' \<Longrightarrow> singleton_inv stopOnAny s \<Longrightarrow> singleton_inv stopOnAny s'"
  unfolding singleton_inv_def [of stopOnAny s']
  by (intro conjI) (blast intro: step_causes step_calls dest: step_group step_returned step_stoppers)+

lemma init_inv: "singleton_inv stopOnAny (singleton_init n)"
  by (simp add: singleton_inv_def singleton_init_def call_ok_def)

lemma reachable_inv: "(singleton_step stopOnAny)\<^sup>*\<^sup>* (singleton_init n) s \<Longrightarrow> singleton_inv stopOnAny s"
  by (induction rule: rtranclp_induct) (auto intro: init_inv step_inv)

text \<open>
  C38. Several calls of \<open>Run\<close> share one run of the wrapped runnable, under every interleaving of the calls, of the ends
  of their contexts and of the goroutines they start: until some call has returned, the wrapped runnable is started at
  most once. An error that a call returns is one that a run of the wrapped runnable returned (\<open>context.Canceled\<close> where
  that was none), or \<open>ErrOtherRunStopped\<close> when the runner stops all with any call and the own context of some call that
  was made has ended, which may be the very call that returns it. A call returns without an error only when its own
  context ended or after a second run was started. The steps leave out one thing: a call that adds to the wait group
  between the wake-up of a goroutine that waits for the group and its return from the wait makes the wait panic.
\<close>

theorem singleton_run_results:
  assumes "(singleton_step stopOnAny)\<^sup>*\<^sup>* (singleton_init n) s"
  shows "(1 < length (sg_instances s) \<longrightarrow> some_returned s) \<and>
    (\<forall>c \<in> set (sg_calls s).
      (\<forall>e. cs_phase c = Exited (Some e) \<longrightarrow> justified stopOnAny s e) \<and>
      (cs_phase c = Exited None \<longrightarrow> cs_ctxDone c \<or> 1 < length (sg_instances s)))"
proof -
  have inv: "singleton_inv stopOnAny s" by (rule reachable_inv [OF assms])
  then have "\<forall>c \<in> set (sg_calls s). call_ok stopOnAny s c" unfolding singleton_inv_def by (metis in_set_conv_nth)
  then have calls: "(\<forall>e. cs_phase c = Exited (Some e) \<longrightarrow> justified stopOnAny s e) \<and>
      (cs_phase c = Exited None \<longrightarrow> cs_ctxDone c \<or> 1 < length (sg_instances s))" if "c \<in> set (sg_calls s)" for c
    using that by (auto simp: call_ok_def)
  from inv have "1 < length (sg_instances s) \<longrightarrow> some_returned s" unfolding singleton_inv_def by blast
  with calls show ?thesis by blast
qed

section \<open>Runs\<close>

text \<open>States, and one step of a run written with its outcome.\<close>

definition call_at :: "call_phase \<Rightarrow> bool \<Rightarrow> bool \<Rightarrow> call_state" where
  "call_at p d t = \<lparr>cs_phase = p, cs_ctxDone = d, cs_stopper = t\<rparr>"

definition sg_at :: "call_state list \<Rightarrow> bool \<Rightarrow> instance_state list \<Rightarrow> waiter list \<Rightarrow> singleton" where
  "sg_at cs r gs ws = \<lparr>sg_calls = cs, sg_running = r, sg_instances = gs, sg_waiters = ws\<rparr>"

lemma step_to: "singleton_step stopOnAny s t \<Longrightarrow> t = u \<Longrightarrow> (singleton_step stopOnAny)\<^sup>*\<^sup>* r s \<Longrightarrow> (singleton_step stopOnAny)\<^sup>*\<^sup>* r u"
  by (simp add: rtranclp.rtrancl_into_rtrancl)

lemmas run_simps = sg_at_def call_at_def set_call_def attach_def cancel_newest_def set_wrapped_def new_instance_def Let_def in_group_def

text \<open>One call, whose run of the wrapped runnable returns: without an error the call still returns one, \<open>context.Canceled\<close>.\<close>

lemma wrapped_result_returned:
  "(singleton_step stopOnAny)\<^sup>*\<^sup>* (singleton_init 1)
     (sg_at [call_at (Exited (Some (case err of None \<Rightarrow> Canceled | Some e \<Rightarrow> e))) False True] True [\<lparr>is_wrapped = Reported err, is_cause = Some (case err of None \<Rightarrow> Canceled | Some e \<Rightarrow> e)\<rparr>] [OnGroup])"
proof -
  let ?R = "(singleton_step stopOnAny)\<^sup>*\<^sup>* (singleton_init 1)"
  have r0: "?R (sg_at [call_at NotCalled False False] False [] [])" by (simp add: singleton_init_def sg_at_def call_at_def)
  have r1: "?R (sg_at [call_at Entered False True] False [] [])"
    by (rule step_to [OF singleton_step.Enter [where i = 0] _ r0]) (simp_all add: run_simps)
  have r2: "?R (sg_at [call_at Attached False True] True [new_instance] [OnGroup])"
    by (rule step_to [OF singleton_step.Attach [where i = 0] _ r1]) (simp_all add: run_simps)
  have r3: "?R (sg_at [call_at (Selecting 0) False True] True [new_instance] [OnGroup])"
    by (rule step_to [OF singleton_step.Select [where i = 0] _ r2]) (simp_all add: run_simps)
  have r4: "?R (sg_at [call_at (Selecting 0) False True] True [\<lparr>is_wrapped = Ended err, is_cause = None\<rparr>] [OnGroup])"
    by (rule step_to [OF singleton_step.End [where n = 0 and err = err] _ r3]) (simp_all add: run_simps)
  have r5: "?R (sg_at [call_at (Selecting 0) False True] True [\<lparr>is_wrapped = Reported err, is_cause = Some (case err of None \<Rightarrow> Canceled | Some e \<Rightarrow> e)\<rparr>] [OnGroup])"
    by (rule step_to [OF singleton_step.Report [where n = 0 and err = err] _ r4]) (simp_all add: run_simps)
  have r6: "?R (sg_at [call_at ContextEnded False True] True [\<lparr>is_wrapped = Reported err, is_cause = Some (case err of None \<Rightarrow> Canceled | Some e \<Rightarrow> e)\<rparr>] [OnGroup])"
    by (rule step_to [OF singleton_step.Cancelled [where i = 0 and n = 0] _ r5]) (simp_all add: run_simps)
  have r7: "?R (sg_at [call_at (Exited (Some (case err of None \<Rightarrow> Canceled | Some e \<Rightarrow> e))) False True] True [\<lparr>is_wrapped = Reported err, is_cause = Some (case err of None \<Rightarrow> Canceled | Some e \<Rightarrow> e)\<rparr>] [OnGroup])"
    by (rule step_to [OF singleton_step.Return [where i = 0] _ r6]) (simp_all add: run_simps)
  show ?thesis by (rule r7)
qed

theorem singleton_run_results_witness:
  "\<exists>s. (singleton_step False)\<^sup>*\<^sup>* (singleton_init 1) s \<and> cs_phase (sg_calls s ! 0) = Exited (Some (GoErr ''port in use'')) \<and>
     justified False s (GoErr ''port in use'')"
proof -
  note run = wrapped_result_returned [of False "Some (GoErr ''port in use'')"]
  from singleton_run_results [OF run] run show ?thesis by (intro exI conjI) (assumption, simp_all add: sg_at_def call_at_def)
qed

text \<open>
  When the last call ends with its context, nothing stops the wrapped runnable, and the next call starts it a second
  time beside the first run.
\<close>

lemma wrapped_outlives_calls:
  "(singleton_step False)\<^sup>*\<^sup>* (singleton_init 2)
     (sg_at [call_at (Exited None) True True, call_at Attached False True] True [new_instance, new_instance] [Gone, OnGroup])"
proof -
  let ?R = "(singleton_step False)\<^sup>*\<^sup>* (singleton_init 2)"
  have r0: "?R (sg_at [call_at NotCalled False False, call_at NotCalled False False] False [] [])"
    by (simp add: singleton_init_def sg_at_def call_at_def numeral_2_eq_2)
  have r1: "?R (sg_at [call_at Entered False True, call_at NotCalled False False] False [] [])"
    by (rule step_to [OF singleton_step.Enter [where i = 0] _ r0]) (simp_all add: run_simps)
  have r2: "?R (sg_at [call_at Attached False True, call_at NotCalled False False] True [new_instance] [OnGroup])"
    by (rule step_to [OF singleton_step.Attach [where i = 0] _ r1]) (simp_all add: run_simps)
  have r3: "?R (sg_at [call_at (Selecting 0) False True, call_at NotCalled False False] True [new_instance] [OnGroup])"
    by (rule step_to [OF singleton_step.Select [where i = 0] _ r2]) (simp_all add: run_simps)
  have r4: "?R (sg_at [call_at (Selecting 0) True True, call_at NotCalled False False] True [new_instance] [OnGroup])"
    by (rule step_to [OF singleton_step.Done [where i = 0] _ r3]) (simp_all add: run_simps)
  have r5: "?R (sg_at [call_at (Exited None) True True, call_at NotCalled False False] True [new_instance] [OnGroup])"
    by (rule step_to [OF singleton_step.OwnDone [where i = 0 and n = 0] _ r4]) (simp_all add: run_simps)
  have r6: "?R (sg_at [call_at (Exited None) True True, call_at NotCalled False False] True [new_instance] [Woken])"
    by (rule step_to [OF singleton_step.Wake [where n = 0] _ r5]) (simp_all add: run_simps)
  have r7: "?R (sg_at [call_at (Exited None) True True, call_at NotCalled False False] False [new_instance] [Gone])"
    by (rule step_to [OF singleton_step.Reset [where n = 0] _ r6]) (simp_all add: run_simps)
  have r8: "?R (sg_at [call_at (Exited None) True True, call_at Entered False True] False [new_instance] [Gone])"
    by (rule step_to [OF singleton_step.Enter [where i = 1] _ r7]) (simp_all add: run_simps)
  have r9: "?R (sg_at [call_at (Exited None) True True, call_at Attached False True] True [new_instance, new_instance] [Gone, OnGroup])"
    by (rule step_to [OF singleton_step.Attach [where i = 1] _ r8]) (simp_all add: run_simps)
  show ?thesis by (rule r9)
qed

text \<open>The error of the older run then ends the call of the newer one, whose own run goes on.\<close>

lemma old_run_ends_new_call:
  "(singleton_step False)\<^sup>*\<^sup>* (singleton_init 2)
     (sg_at [call_at (Exited None) True True, call_at (Exited (Some e)) False True] True [\<lparr>is_wrapped = Reported (Some e), is_cause = None\<rparr>, \<lparr>is_wrapped = Active, is_cause = Some e\<rparr>] [Gone, OnGroup])"
proof -
  let ?R = "(singleton_step False)\<^sup>*\<^sup>* (singleton_init 2)"
  have q1: "?R (sg_at [call_at (Exited None) True True, call_at (Selecting 1) False True] True [new_instance, new_instance] [Gone, OnGroup])"
    by (rule step_to [OF singleton_step.Select [where i = 1] _ wrapped_outlives_calls]) (simp_all add: run_simps)
  have q2: "?R (sg_at [call_at (Exited None) True True, call_at (Selecting 1) False True] True [\<lparr>is_wrapped = Ended (Some e), is_cause = None\<rparr>, new_instance] [Gone, OnGroup])"
    by (rule step_to [OF singleton_step.End [where n = 0 and err = "Some e"] _ q1]) (simp_all add: run_simps)
  have q3: "?R (sg_at [call_at (Exited None) True True, call_at (Selecting 1) False True] True [\<lparr>is_wrapped = Reported (Some e), is_cause = None\<rparr>, \<lparr>is_wrapped = Active, is_cause = Some e\<rparr>] [Gone, OnGroup])"
    by (rule step_to [OF singleton_step.Report [where n = 0 and err = "Some e"] _ q2]) (simp_all add: run_simps)
  have q4: "?R (sg_at [call_at (Exited None) True True, call_at ContextEnded False True] True [\<lparr>is_wrapped = Reported (Some e), is_cause = None\<rparr>, \<lparr>is_wrapped = Active, is_cause = Some e\<rparr>] [Gone, OnGroup])"
    by (rule step_to [OF singleton_step.Cancelled [where i = 1 and n = 1] _ q3]) (simp_all add: run_simps)
  have q5: "?R (sg_at [call_at (Exited None) True True, call_at (Exited (Some e)) False True] True [\<lparr>is_wrapped = Reported (Some e), is_cause = None\<rparr>, \<lparr>is_wrapped = Active, is_cause = Some e\<rparr>] [Gone, OnGroup])"
    by (rule step_to [OF singleton_step.Return [where i = 1] _ q4]) (simp_all add: run_simps)
  show ?thesis by (rule q5)
qed

text \<open>With \<open>stopOnAny\<close> a call that is alone returns \<open>ErrOtherRunStopped\<close> after the end of its own context.\<close>

lemma own_end_reported_as_other:
  "(singleton_step True)\<^sup>*\<^sup>* (singleton_init 1)
     (sg_at [call_at (Exited (Some ErrOtherRunStopped)) True False] True [\<lparr>is_wrapped = Active, is_cause = Some ErrOtherRunStopped\<rparr>] [OnGroup])"
proof -
  let ?R = "(singleton_step True)\<^sup>*\<^sup>* (singleton_init 1)"
  let ?g = "\<lparr>is_wrapped = Active, is_cause = Some ErrOtherRunStopped\<rparr>"
  have r0: "?R (sg_at [call_at NotCalled False False] False [] [])" by (simp add: singleton_init_def sg_at_def call_at_def)
  have r1: "?R (sg_at [call_at Entered False True] False [] [])"
    by (rule step_to [OF singleton_step.Enter [where i = 0] _ r0]) (simp_all add: run_simps)
  have r2: "?R (sg_at [call_at Attached False True] True [new_instance] [OnGroup])"
    by (rule step_to [OF singleton_step.Attach [where i = 0] _ r1]) (simp_all add: run_simps)
  have r3: "?R (sg_at [call_at (Selecting 0) False True] True [new_instance] [OnGroup])"
    by (rule step_to [OF singleton_step.Select [where i = 0] _ r2]) (simp_all add: run_simps)
  have r4: "?R (sg_at [call_at (Selecting 0) True True] True [new_instance] [OnGroup])"
    by (rule step_to [OF singleton_step.Done [where i = 0] _ r3]) (simp_all add: run_simps)
  have r5: "?R (sg_at [call_at (Selecting 0) True False] True [?g] [OnGroup])"
    by (rule step_to [OF singleton_step.Stop [where i = 0] _ r4]) (simp_all add: run_simps)
  have r6: "?R (sg_at [call_at ContextEnded True False] True [?g] [OnGroup])"
    by (rule step_to [OF singleton_step.Cancelled [where i = 0 and n = 0] _ r5]) (simp_all add: run_simps)
  show ?thesis
    by (rule step_to [OF singleton_step.Return [where i = 0] _ r6]) (simp_all add: run_simps)
qed

end
