(* ===== verification/CRD_Schema.thy ===== *)
theory CRD_Schema
  imports Version_Schema
begin

text \<open>
  The schemas that \<^verbatim>\<open>k8s/manager.go\<close> makes of Go types by reflection, \<open>toOpenAPIV3\<close>, beside what \<^verbatim>\<open>encoding/json\<close> makes
  of the values of these types: the documents that a server with such a schema is sent.

  A Go type is a datatype, so a struct that contains itself, on which the code recurses without end, is not one. An
  interface's value is given by the document it encodes to, as is a value of a type with its own encoding,
  \<open>WithMarshaler\<close>: one that implements \<^verbatim>\<open>json.Marshaler\<close> or \<^verbatim>\<open>encoding.TextMarshaler\<close>, or \<^verbatim>\<open>json.Number\<close>. A struct that embeds such
  a type has its methods and is one too.
\<close>

section \<open>Go types\<close>

datatype scalar = GoBool | GoString | GoInt | GoInt8 | GoInt16 | GoInt32 | GoInt64 | GoUint8 | GoUint | GoFloat32 | GoFloat64

datatype rtype = Basic scalar | PointerTo rtype | MapOf rtype | InterfaceType | SliceOf rtype | ArrayOf nat rtype
  | StructOf "rfield list" | ChanOrFunc | WithMarshaler rtype
and rfield = RField (rf_Name: string) (rf_Tag: string) (rf_Anonymous: bool) (rf_Type: rtype)

definition getFieldKey :: "rfield \<Rightarrow> string" where
  "getFieldKey f = (let name = rf_Tag f
     in if name = [] then rf_Name f
        else (let parts = split_on CHR '','' name in if 1 < length parts then parts ! 0 else name))"

fun scalar_type :: "scalar \<Rightarrow> string option" where
  "scalar_type GoInt = Some ''integer''"
| "scalar_type GoInt16 = Some ''integer''"
| "scalar_type GoInt32 = Some ''integer''"
| "scalar_type GoInt64 = Some ''integer''"
| "scalar_type GoFloat32 = Some ''number''"
| "scalar_type GoFloat64 = Some ''number''"
| "scalar_type GoString = Some ''string''"
| "scalar_type GoBool = Some ''boolean''"
| "scalar_type _ = None"

definition preserve_key :: string where
  "preserve_key = ''x-kubernetes-preserve-unknown-fields''"

definition of_type :: "string \<Rightarrow> json" where
  "of_type s = JObject [(''type'', JString s)]"

definition any_object :: json where
  "any_object = JObject [(''type'', JString ''object''), (preserve_key, JBool True)]"

definition object_with :: "(string \<times> json) list \<Rightarrow> json" where
  "object_with props = JObject [(''type'', JString ''object''), (''properties'', JObject props)]"

definition array_of :: "json \<Rightarrow> json" where
  "array_of items = JObject [(''type'', JString ''array''), (''items'', items)]"

text \<open>What a field's type is for the switch: a schema, arbitrary keys, a struct, or nothing that can be handled.\<close>

datatype field_class = ValueOf json | AnyKeys | Embeddable "(string \<times> json) list" | Unhandled

text \<open>\<open>None\<close> is a panic: the number of fields is asked of a type that is not a struct.\<close>

fun toOpenAPIV3 :: "rtype \<Rightarrow> (string \<times> json) list option"
and openapi_fields :: "rfield list \<Rightarrow> (string \<times> json) list \<Rightarrow> (string \<times> json) list option"
and field_type :: "rtype \<Rightarrow> field_class option"
and item_type :: "rtype \<Rightarrow> json option" where
  "toOpenAPIV3 (PointerTo t) = toOpenAPIV3 t"
| "toOpenAPIV3 (StructOf fs) = openapi_fields fs []"
| "toOpenAPIV3 (WithMarshaler t) = toOpenAPIV3 t"
| "toOpenAPIV3 _ = None"
| "openapi_fields [] m = Some m"
| "openapi_fields (RField name tag anon t # fs) m = (case field_type t of
     None \<Rightarrow> None
   | Some Unhandled \<Rightarrow> openapi_fields fs m
   | Some AnyKeys \<Rightarrow>
       if anon then openapi_fields fs (AList.update preserve_key (JBool True) m)
       else openapi_fields fs (AList.update (getFieldKey (RField name tag anon t)) any_object m)
   | Some (Embeddable props) \<Rightarrow>
       if anon then openapi_fields fs (put_all props m)
       else openapi_fields fs (AList.update (getFieldKey (RField name tag anon t)) (object_with props) m)
   | Some (ValueOf v) \<Rightarrow> openapi_fields fs (AList.update (getFieldKey (RField name tag anon t)) v m))"
| "field_type (Basic s) = Some (case scalar_type s of None \<Rightarrow> Unhandled | Some ty \<Rightarrow> ValueOf (of_type ty))"
| "field_type (PointerTo t) = field_type t"
| "field_type (MapOf t) = Some AnyKeys"
| "field_type InterfaceType = Some AnyKeys"
| "field_type (StructOf fs) = map_option Embeddable (openapi_fields fs [])"
| "field_type (SliceOf t) = map_option (\<lambda>v. ValueOf (array_of v)) (item_type t)"
| "field_type (ArrayOf n t) = map_option (\<lambda>v. ValueOf (array_of v)) (item_type t)"
| "field_type ChanOrFunc = Some Unhandled"
| "field_type (WithMarshaler t) = field_type t"
| "item_type (Basic s) = Some (case scalar_type s of None \<Rightarrow> any_object | Some ty \<Rightarrow> of_type ty)"
| "item_type (PointerTo t) = item_type t"
| "item_type (StructOf fs) = map_option object_with (toOpenAPIV3 (StructOf fs))"
| "item_type (SliceOf t) = map_option object_with (toOpenAPIV3 (SliceOf t))"
| "item_type (ArrayOf n t) = map_option object_with (toOpenAPIV3 (ArrayOf n t))"
| "item_type (WithMarshaler t) = item_type t"
| "item_type _ = Some any_object"

section \<open>Values and their documents\<close>

text \<open>Numbers are decimal fractions, \<open>DNumber m d\<close> is \<open>m / 10 ^ d\<close>.\<close>

datatype doc = DNull | DBool bool | DNumber int nat | DString string | DArray "doc list" | DObject "(string \<times> doc) list"

datatype gval = VBool bool | VInt int | VFloat int nat | VString string | VNil | VRef gval | VMap "(string \<times> gval) list"
  | VDyn doc | VList "gval list" | VStruct "gval list"

definition tag_name :: "string \<Rightarrow> string" where
  "tag_name tag = (case split_on CHR '','' tag of [] \<Rightarrow> [] | p # _ \<Rightarrow> p)"

definition tag_options :: "string \<Rightarrow> string list" where
  "tag_options tag = (case split_on CHR '','' tag of [] \<Rightarrow> [] | _ # ps \<Rightarrow> ps)"

definition json_name :: "rfield \<Rightarrow> string" where
  "json_name f = (if tag_name (rf_Tag f) = [] then rf_Name f else tag_name (rf_Tag f))"

definition exported :: "string \<Rightarrow> bool" where
  "exported name = (case name of [] \<Rightarrow> False | c # _ \<Rightarrow> c \<in> set ''ABCDEFGHIJKLMNOPQRSTUVWXYZ'')"

fun pointed :: "rtype \<Rightarrow> rtype" where
  "pointed (PointerTo t) = t"
| "pointed t = t"

text \<open>An embedded struct, or a pointer to one, without a name of its own: its members become the outer struct's.\<close>

definition is_struct :: "rtype \<Rightarrow> bool" where
  "is_struct t = (case t of StructOf fs \<Rightarrow> True | _ \<Rightarrow> False)"

definition promoted :: "rfield \<Rightarrow> bool" where
  "promoted f \<longleftrightarrow> rf_Anonymous f \<and> tag_name (rf_Tag f) = [] \<and> is_struct (pointed (rf_Type f))"

definition skipped :: "rfield \<Rightarrow> bool" where
  "skipped f \<longleftrightarrow> rf_Tag f = ''-'' \<or> (\<not> exported (rf_Name f) \<and> \<not> (rf_Anonymous f \<and> is_struct (pointed (rf_Type f))))"

fun is_empty :: "gval \<Rightarrow> bool" where
  "is_empty (VBool b) = (\<not> b)"
| "is_empty (VInt i) = (i = 0)"
| "is_empty (VFloat m d) = (m = 0)"
| "is_empty (VString s) = (s = [])"
| "is_empty VNil = True"
| "is_empty (VMap ms) = (ms = [])"
| "is_empty (VList vs) = (vs = [])"
| "is_empty _ = False"

definition omitted :: "rfield \<Rightarrow> gval \<Rightarrow> bool" where
  "omitted f v \<longleftrightarrow> ''omitempty'' \<in> set (tag_options (rf_Tag f)) \<and> is_empty v"

text \<open>
  \<^verbatim>\<open>encoding/json\<close> on a value of a type, for structs whose names do not clash. \<open>b64\<close> is the text of a byte slice.
\<close>

fun encode :: "(gval list \<Rightarrow> string) \<Rightarrow> rtype \<Rightarrow> gval \<Rightarrow> doc"
and encode_fields :: "(gval list \<Rightarrow> string) \<Rightarrow> rfield list \<Rightarrow> gval list \<Rightarrow> (string \<times> doc) list" where
  "encode b64 t VNil = DNull"
| "encode b64 t (VBool b) = DBool b"
| "encode b64 t (VInt i) = DNumber i 0"
| "encode b64 t (VFloat m d) = DNumber m d"
| "encode b64 t (VString s) = DString s"
| "encode b64 t (VDyn d) = d"
| "encode b64 (PointerTo t) (VRef v) = encode b64 t v"
| "encode b64 t (VRef v) = DNull"
| "encode b64 (MapOf t) (VMap ms) = DObject (map (\<lambda>(k, v). (k, encode b64 t v)) ms)"
| "encode b64 t (VMap ms) = DNull"
| "encode b64 (SliceOf t) (VList vs) = (if t = Basic GoUint8 then DString (b64 vs) else DArray (map (encode b64 t) vs))"
| "encode b64 (ArrayOf n t) (VList vs) = DArray (map (encode b64 t) vs)"
| "encode b64 t (VList vs) = DNull"
| "encode b64 (StructOf fs) (VStruct vs) = DObject (encode_fields b64 fs vs)"
| "encode b64 t (VStruct vs) = DNull"
| "encode_fields b64 (RField name tag anon t # fs) (v # vs) =
     (if skipped (RField name tag anon t) then []
      else if promoted (RField name tag anon t) then (case encode b64 t v of DObject ms \<Rightarrow> ms | _ \<Rightarrow> [])
      else if omitted (RField name tag anon t) v then []
      else [(json_name (RField name tag anon t), encode b64 t v)]) @ encode_fields b64 fs vs"
| "encode_fields b64 _ _ = []"

section \<open>What a schema stores_whole\<close>

text \<open>
  A document that a server with a structural schema takes and stores unchanged: each value is of the type its schema
  names, and each member is one of the schema's properties, others being pruned where they are not preserved.
\<close>

definition schema_member :: "string \<Rightarrow> json \<Rightarrow> json option" where
  "schema_member k sch = (case as_object sch of None \<Rightarrow> None | Some ms \<Rightarrow> map_of ms k)"

definition schema_type :: "json \<Rightarrow> string option" where
  "schema_type sch = (case schema_member ''type'' sch of None \<Rightarrow> None | Some j \<Rightarrow> as_string j)"

definition schema_property :: "string \<Rightarrow> json \<Rightarrow> json option" where
  "schema_property k sch = (case schema_member ''properties'' sch of None \<Rightarrow> None | Some ps \<Rightarrow> schema_member k ps)"

fun stores_whole :: "json \<Rightarrow> doc \<Rightarrow> bool" where
  "stores_whole sch DNull = False"
| "stores_whole sch (DBool b) = (schema_type sch = Some ''boolean'')"
| "stores_whole sch (DString s) = (schema_type sch = Some ''string'')"
| "stores_whole sch (DNumber m d) = (schema_type sch = Some ''number'' \<or> schema_type sch = Some ''integer'' \<and> 10 ^ d dvd m)"
| "stores_whole sch (DArray ds) = (schema_type sch = Some ''array'' \<and>
     (\<forall>d \<in> set ds. case schema_member ''items'' sch of None \<Rightarrow> False | Some items \<Rightarrow> stores_whole items d))"
| "stores_whole sch (DObject ms) = (schema_type sch = Some ''object'' \<and>
     (\<forall>m \<in> set ms. case schema_property (fst m) sch of
        None \<Rightarrow> schema_member preserve_key sch = Some (JBool True)
      | Some p \<Rightarrow> stores_whole p (snd m)))"

section \<open>Schemas keep the documents of their type\<close>

fun base :: "rtype \<Rightarrow> rtype" where
  "base (PointerTo t) = base t"
| "base t = t"

definition is_open :: "rtype \<Rightarrow> bool" where
  "is_open t = (case t of MapOf e \<Rightarrow> True | InterfaceType \<Rightarrow> True | _ \<Rightarrow> False)"

text \<open>The names of a struct's members, those of promoted structs included.\<close>

fun struct_keys :: "rtype \<Rightarrow> string list"
and keys_of :: "rfield list \<Rightarrow> string list" where
  "struct_keys (PointerTo t) = struct_keys t"
| "struct_keys (StructOf fs) = keys_of fs"
| "struct_keys _ = []"
| "keys_of [] = []"
| "keys_of (RField name tag anon t # fs) =
     (if promoted (RField name tag anon t) then struct_keys t else [json_name (RField name tag anon t)]) @ keys_of fs"

text \<open>
  The types whose schema is what their values need, which are not all that the code handles (the last section has what
  it gets wrong of the others): built of booleans, strings, integers of 16 bits and more and floats, of pointers, maps,
  interfaces and structs of these, and of slices of scalars, structs, maps and interfaces but not of slices; no type has an
  encoding of its own; fields are exported, and have no tag, or one with a name that is not just a dash and without the
  option \<^verbatim>\<open>string\<close>; an embedded struct has no name in its tag, maps and interfaces are not embedded; and no two members of a
  struct have one name.
\<close>

definition plain_field :: "rfield \<Rightarrow> bool" where
  "plain_field f \<longleftrightarrow> ''string'' \<notin> set (tag_options (rf_Tag f)) \<and> rf_Tag f \<noteq> ''-'' \<and>
     (if rf_Anonymous f \<and> (is_struct (base (rf_Type f)) \<or> is_open (base (rf_Type f))) then promoted f
      else exported (rf_Name f) \<and> (rf_Tag f = [] \<or> tag_name (rf_Tag f) \<noteq> []))"

fun plain_type :: "rtype \<Rightarrow> bool"
and plain_fields :: "rfield list \<Rightarrow> bool"
and plain_item :: "rtype \<Rightarrow> bool" where
  "plain_type (Basic s) = (scalar_type s \<noteq> None)"
| "plain_type (PointerTo t) = plain_type t"
| "plain_type (MapOf t) = True"
| "plain_type InterfaceType = True"
| "plain_type (SliceOf t) = plain_item t"
| "plain_type (ArrayOf n t) = plain_item t"
| "plain_type (StructOf fs) = (distinct (keys_of fs) \<and> plain_fields fs)"
| "plain_type ChanOrFunc = False"
| "plain_type (WithMarshaler t) = False"
| "plain_fields [] = True"
| "plain_fields (RField name tag anon t # fs) = (plain_field (RField name tag anon t) \<and> plain_type t \<and> plain_fields fs)"
| "plain_item (Basic s) = (scalar_type s \<noteq> None)"
| "plain_item (PointerTo t) = plain_item t"
| "plain_item (MapOf t) = True"
| "plain_item InterfaceType = True"
| "plain_item (StructOf fs) = (distinct (keys_of fs) \<and> plain_fields fs)"
| "plain_item _ = False"

fun scalar_value :: "scalar \<Rightarrow> gval \<Rightarrow> bool" where
  "scalar_value GoBool (VBool b) = True"
| "scalar_value GoString (VString s) = True"
| "scalar_value GoFloat32 (VFloat m d) = True"
| "scalar_value GoFloat64 (VFloat m d) = True"
| "scalar_value s (VInt i) = (s \<notin> {GoBool, GoString, GoFloat32, GoFloat64})"
| "scalar_value s v = False"

text \<open>
  A value of a type, without nil where the document would have a null: nil pointers, maps and slices are in fields that
  are omitted when empty, or in embedded pointers. The values of interfaces are objects.
\<close>

fun fits :: "rtype \<Rightarrow> gval \<Rightarrow> bool"
and fits_fields :: "rfield list \<Rightarrow> gval list \<Rightarrow> bool" where
  "fits (Basic s) v = scalar_value s v"
| "fits (PointerTo t) v = (case v of VRef w \<Rightarrow> fits t w | _ \<Rightarrow> False)"
| "fits (MapOf t) v = (case v of VMap ms \<Rightarrow> \<forall>m \<in> set ms. snd m = VNil \<or> fits t (snd m) | _ \<Rightarrow> False)"
| "fits InterfaceType v = (case v of VDyn (DObject ms) \<Rightarrow> True | _ \<Rightarrow> False)"
| "fits (SliceOf t) v = (case v of VList vs \<Rightarrow> \<forall>x \<in> set vs. fits t x | _ \<Rightarrow> False)"
| "fits (ArrayOf n t) v = (case v of VList vs \<Rightarrow> length vs = n \<and> (\<forall>x \<in> set vs. fits t x) | _ \<Rightarrow> False)"
| "fits (StructOf fs) v = (case v of VStruct vs \<Rightarrow> fits_fields fs vs | _ \<Rightarrow> False)"
| "fits ChanOrFunc v = False"
| "fits (WithMarshaler t) v = (case v of VDyn d \<Rightarrow> True | _ \<Rightarrow> False)"
| "fits_fields [] vs = (vs = [])"
| "fits_fields (RField name tag anon t # fs) vs = (case vs of
     [] \<Rightarrow> False
   | v # vs' \<Rightarrow> ((if promoted (RField name tag anon t) then v = VNil else omitted (RField name tag anon t) v) \<or> fits t v) \<and>
       fits_fields fs vs')"

definition members_kept :: "(string \<times> json) list \<Rightarrow> string set \<Rightarrow> (string \<times> doc) list \<Rightarrow> bool" where
  "members_kept ps ks ms \<longleftrightarrow> (\<forall>(k, d) \<in> set ms. k \<in> ks \<and> (\<exists>p. map_of ps k = Some p \<and> stores_whole p d))"

text \<open>What the schema of a type is to its values, and of an element of a slice.\<close>

definition class_ok :: "(gval list \<Rightarrow> string) \<Rightarrow> rtype \<Rightarrow> bool" where
  "class_ok b64 t = (case field_type t of
     Some (ValueOf sch) \<Rightarrow> \<not> is_struct (base t) \<and> \<not> is_open (base t) \<and> (\<forall>v. fits t v \<longrightarrow> stores_whole sch (encode b64 t v))
   | Some AnyKeys \<Rightarrow> is_open (base t) \<and> (\<forall>v. fits t v \<longrightarrow> stores_whole any_object (encode b64 t v))
   | Some (Embeddable ps) \<Rightarrow> is_struct (base t) \<and> distinct (map fst ps) \<and> set (map fst ps) \<subseteq> set (struct_keys t) \<and>
       (\<forall>v. fits t v \<longrightarrow> (\<exists>ms. encode b64 t v = DObject ms \<and> members_kept ps (set (struct_keys t)) ms))
   | _ \<Rightarrow> False)"

definition item_ok :: "(gval list \<Rightarrow> string) \<Rightarrow> rtype \<Rightarrow> bool" where
  "item_ok b64 t = (case item_type t of None \<Rightarrow> False | Some sch \<Rightarrow> \<forall>v. fits t v \<longrightarrow> stores_whole sch (encode b64 t v))"

definition fields_ok :: "(gval list \<Rightarrow> string) \<Rightarrow> rfield list \<Rightarrow> (string \<times> json) list \<Rightarrow> bool" where
  "fields_ok b64 fs m = (case openapi_fields fs m of
     None \<Rightarrow> False
   | Some m' \<Rightarrow> distinct (map fst m') \<and> set (map fst m') \<subseteq> set (map fst m) \<union> set (keys_of fs) \<and>
       (\<forall>k. k \<notin> set (keys_of fs) \<longrightarrow> map_of m' k = map_of m k) \<and>
       (\<forall>vs. fits_fields fs vs \<longrightarrow> members_kept m' (set (keys_of fs)) (encode_fields b64 fs vs)))"

lemma schema_shapes [simp]:
  "schema_type (of_type ty) = Some ty" "schema_type any_object = Some ''object''" "schema_type (object_with ps) = Some ''object''"
  "schema_type (array_of sch) = Some ''array''" "schema_member ''items'' (array_of sch) = Some sch"
  "schema_property k (object_with ps) = map_of ps k" "schema_property k any_object = None"
  "schema_member preserve_key any_object = Some (JBool True)" "schema_member preserve_key (object_with ps) = None"
  by (simp_all add: schema_type_def schema_member_def schema_property_def of_type_def any_object_def object_with_def array_of_def
      preserve_key_def)

lemma object_kept: "members_kept ps ks ms \<Longrightarrow> stores_whole (object_with ps) (DObject ms)"
  by (auto simp: members_kept_def split: option.split)

lemma any_object_whole: "stores_whole any_object (DObject ms)"
  by simp

lemma put_all_lookup: "map_of (put_all xs m) k = (case map_of (rev xs) k of None \<Rightarrow> map_of m k | Some v \<Rightarrow> Some v)"
  unfolding put_all_def by (induction xs arbitrary: m) (auto simp: AList.update_conv' map_add_def split: option.splits)

lemma put_all_keys: "set (map fst (put_all xs m)) = set (map fst m) \<union> set (map fst xs)"
  unfolding put_all_def by (induction xs arbitrary: m) (simp_all add: case_prod_unfold dom_update)

lemma put_all_distinct: "distinct (map fst m) \<Longrightarrow> distinct (map fst (put_all xs m))"
  unfolding put_all_def by (induction xs arbitrary: m) (auto simp: distinct_update)

lemma tag_name_single:
  assumes "\<not> 1 < length (split_on CHR '','' tag)"
  shows "tag_name tag = tag"
proof -
  obtain p where "split_on CHR '','' tag = [p]"
    using assms by (cases "split_on CHR '','' tag") (auto simp: Suc_lessI)
  then show ?thesis using join_split [of "CHR '',''" tag] by (simp add: tag_name_def)
qed

text \<open>The code's key and the encoder's name agree on the fields that are not promoted.\<close>

lemma field_key_name:
  assumes "rf_Tag f = [] \<or> tag_name (rf_Tag f) \<noteq> []"
  shows "getFieldKey f = json_name f"
proof (cases "rf_Tag f = []")
  case True
  then show ?thesis by (simp add: getFieldKey_def json_name_def tag_name_def)
next
  case False
  then show ?thesis
    using assms tag_name_single [of "rf_Tag f"]
    by (cases "split_on CHR '','' (rf_Tag f)") (auto simp: getFieldKey_def json_name_def tag_name_def)
qed

lemma update_lookup: "map_of (AList.update k v m) k' = (if k' = k then Some v else map_of m k')"
  by (simp add: AList.update_conv')

lemma pointed_base: "is_struct (pointed t) \<Longrightarrow> base t = pointed t"
  by (cases t rule: pointed.cases) (auto simp: is_struct_def split: rtype.splits)

lemma plain_not_skipped: "plain_field f \<Longrightarrow> \<not> skipped f"
  by (auto simp: plain_field_def skipped_def promoted_def split: if_splits)

lemma fields_ok_Nil: "distinct (map fst m) \<Longrightarrow> fields_ok b64 [] m"
  by (auto simp: fields_ok_def members_kept_def)

text \<open>One field: what it adds to the properties, and where its members are kept.\<close>

lemma fields_ok_Cons:
  assumes after: "fields_ok b64 fs m1" and step: "openapi_fields (f # fs) m = openapi_fields fs m1"
    and keys: "keys_of (f # fs) = ks @ keys_of fs" "distinct (keys_of (f # fs))"
    and grown: "set (map fst m1) \<subseteq> set (map fst m) \<union> set ks" "\<And>k. k \<notin> set ks \<Longrightarrow> map_of m1 k = map_of m k"
    and own: "\<And>v vs. fits_fields (f # fs) (v # vs) \<Longrightarrow>
      \<exists>ms. encode_fields b64 (f # fs) (v # vs) = ms @ encode_fields b64 fs vs \<and> members_kept m1 (set ks) ms"
    and rest: "\<And>v vs. fits_fields (f # fs) (v # vs) \<Longrightarrow> fits_fields fs vs"
  shows "fields_ok b64 (f # fs) m"
proof -
  obtain m' where m': "openapi_fields fs m1 = Some m'" using after by (auto simp: fields_ok_def split: option.splits)
  have ok: "distinct (map fst m')" "set (map fst m') \<subseteq> set (map fst m1) \<union> set (keys_of fs)"
    "\<And>k. k \<notin> set (keys_of fs) \<Longrightarrow> map_of m' k = map_of m1 k"
    "\<And>vs. fits_fields fs vs \<Longrightarrow> members_kept m' (set (keys_of fs)) (encode_fields b64 fs vs)"
    using after by (simp_all add: fields_ok_def m')
  have kept: "members_kept m' (set (keys_of (f # fs))) (encode_fields b64 (f # fs) vs)" if fit: "fits_fields (f # fs) vs" for vs
  proof (cases vs)
    case Nil
    then show ?thesis by (simp add: members_kept_def)
  next
    case (Cons v vs')
    obtain ms where ms: "encode_fields b64 (f # fs) vs = ms @ encode_fields b64 fs vs'" "members_kept m1 (set ks) ms"
      using own fit Cons by blast
    have later: "members_kept m' (set (keys_of fs)) (encode_fields b64 fs vs')" using ok(4) rest fit Cons by blast
    have "members_kept m' (set ks) ms"
      using ms(2) ok(3) keys by (fastforce simp: members_kept_def)
    with later show ?thesis unfolding ms(1) keys(1) by (auto simp: members_kept_def)
  qed
  show ?thesis unfolding fields_ok_def step m' option.case
    using ok(1-3) grown keys(1) kept by auto
qed

lemma fields_ok_step:
  assumes ok: "class_ok b64 t" and plain: "plain_field (RField name tag anon t)" "distinct (keys_of (RField name tag anon t # fs))"
    and after: "\<And>m. distinct (map fst m) \<Longrightarrow> fields_ok b64 fs m" and m: "distinct (map fst m)"
  shows "fields_ok b64 (RField name tag anon t # fs) m"
proof -
  let ?f = "RField name tag anon t"
  have encoded: "\<not> skipped ?f" by (rule plain_not_skipped [OF plain(1)])
  have rest: "fits_fields fs vs" if "fits_fields (?f # fs) (v # vs)" for v vs using that by simp
  show ?thesis
  proof (cases "promoted ?f")
    case True
    then have struct: "is_struct (base t)" "anon" by (auto simp: promoted_def pointed_base)
    then obtain ps where ps: "field_type t = Some (Embeddable ps)" "distinct (map fst ps)" "set (map fst ps) \<subseteq> set (struct_keys t)"
      "\<And>v. fits t v \<Longrightarrow> \<exists>ms. encode b64 t v = DObject ms \<and> members_kept ps (set (struct_keys t)) ms"
      using ok by (auto simp: class_ok_def is_open_def is_struct_def split: option.splits field_class.splits rtype.splits)
    let ?m1 = "put_all ps m"
    have lookup: "map_of ?m1 k = (case map_of ps k of None \<Rightarrow> map_of m k | Some v \<Rightarrow> Some v)" for k
      using map_of_inject_set [of ps "rev ps"] ps(2) by (simp add: put_all_lookup rev_map [symmetric])
    show ?thesis
    proof (rule fields_ok_Cons)
      show "fields_ok b64 fs ?m1" by (rule after) (rule put_all_distinct [OF m])
      show "openapi_fields (?f # fs) m = openapi_fields fs ?m1" using ps(1) struct(2) by simp
      show "keys_of (?f # fs) = struct_keys t @ keys_of fs" using True by simp
      show "distinct (keys_of (?f # fs))" by (rule plain(2))
      show "set (map fst ?m1) \<subseteq> set (map fst m) \<union> set (struct_keys t)" unfolding put_all_keys using ps(3) by blast
      show "map_of ?m1 k = map_of m k" if "k \<notin> set (struct_keys t)" for k
      proof -
        have "k \<notin> set (map fst ps)" using ps(3) that by blast
        then have "map_of ps k = None" by (simp add: map_of_eq_None_iff)
        then show ?thesis by (simp add: lookup)
      qed
      show "\<exists>ms. encode_fields b64 (?f # fs) (v # vs) = ms @ encode_fields b64 fs vs \<and> members_kept ?m1 (set (struct_keys t)) ms"
        if fit: "fits_fields (?f # fs) (v # vs)" for v vs
      proof (cases "fits t v")
        case fv: True
        then obtain ms where ms: "encode b64 t v = DObject ms" "members_kept ps (set (struct_keys t)) ms" using ps(4) by blast
        then have "members_kept ?m1 (set (struct_keys t)) ms" by (fastforce simp: members_kept_def lookup)
        then show ?thesis using True encoded ms(1) by simp
      next
        case False
        then have "v = VNil" using fit True by simp
        then show ?thesis using True encoded by (simp add: members_kept_def)
      qed
    qed (rule rest)
  next
    case False
    let ?k = "json_name ?f"
    have tag: "getFieldKey ?f = ?k" "\<not> (anon \<and> (is_struct (base t) \<or> is_open (base t)))"
      using plain(1) False field_key_name [of ?f] by (auto simp: plain_field_def split: if_splits)
    obtain sch where sch: "openapi_fields (?f # fs) m = openapi_fields fs (AList.update ?k sch m)"
      "\<And>v. fits t v \<Longrightarrow> stores_whole sch (encode b64 t v)"
    proof (cases "field_type t")
      case None
      then show ?thesis using ok by (simp add: class_ok_def)
    next
      case (Some c)
      show ?thesis
      proof (cases c)
        case (ValueOf sch)
        show ?thesis by (rule that [of sch]) (use ok tag Some ValueOf in \<open>simp_all add: class_ok_def\<close>)
      next
        case AnyKeys
        show ?thesis by (rule that [of any_object]) (use ok tag Some AnyKeys in \<open>simp_all add: class_ok_def\<close>)
      next
        case (Embeddable ps)
        have "stores_whole (object_with ps) (encode b64 t v)" if "fits t v" for v
        proof -
          obtain ms where ms: "encode b64 t v = DObject ms" "members_kept ps (set (struct_keys t)) ms"
            using ok \<open>fits t v\<close> Some Embeddable by (auto simp: class_ok_def)
          show ?thesis unfolding ms(1) by (rule object_kept [OF ms(2)])
        qed
        then show ?thesis using ok tag Some Embeddable that [of "object_with ps"] by (simp add: class_ok_def)
      next
        case Unhandled
        then show ?thesis using ok Some by (simp add: class_ok_def)
      qed
    qed
    let ?m1 = "AList.update ?k sch m"
    show ?thesis
    proof (rule fields_ok_Cons)
      show "fields_ok b64 fs ?m1" by (rule after) (rule distinct_update [OF m])
      show "openapi_fields (?f # fs) m = openapi_fields fs ?m1" by (rule sch(1))
      show "keys_of (?f # fs) = [?k] @ keys_of fs" using False by simp
      show "distinct (keys_of (?f # fs))" by (rule plain(2))
      show "set (map fst ?m1) \<subseteq> set (map fst m) \<union> set [?k]" by (simp add: dom_update)
      show "map_of ?m1 k = map_of m k" if "k \<notin> set [?k]" for k using that by (simp add: update_lookup)
      show "\<exists>ms. encode_fields b64 (?f # fs) (v # vs) = ms @ encode_fields b64 fs vs \<and> members_kept ?m1 (set [?k]) ms"
        if fit: "fits_fields (?f # fs) (v # vs)" for v vs
      proof (cases "omitted ?f v")
        case True
        then show ?thesis using False encoded by (simp add: members_kept_def)
      next
        case om: False
        then have "stores_whole sch (encode b64 t v)" using fit False sch(2) by simp
        then have "members_kept ?m1 (set [?k]) [(?k, encode b64 t v)]" by (simp add: members_kept_def update_lookup)
        then show ?thesis using False encoded om by simp
      qed
    qed (rule rest)
  qed
qed

lemma fields_ok:
  assumes "\<forall>f \<in> set fs. plain_type (rf_Type f) \<longrightarrow> class_ok b64 (rf_Type f)" "plain_fields fs" "distinct (keys_of fs)" "distinct (map fst m)"
  shows "fields_ok b64 fs m"
  using assms
proof (induction fs arbitrary: m)
  case Nil
  then show ?case by (simp add: fields_ok_Nil)
next
  case (Cons f fs)
  obtain name tag anon t where f: "f = RField name tag anon t" by (cases f)
  have "distinct (keys_of fs)" using Cons.prems(3) by (auto simp: f)
  then have "fields_ok b64 fs m'" if "distinct (map fst m')" for m' using Cons that by (auto simp: f)
  then show ?case unfolding f
    using Cons.prems by (intro fields_ok_step) (auto simp: f)
qed

lemma struct_class_ok:
  assumes "\<forall>f \<in> set fs. plain_type (rf_Type f) \<longrightarrow> class_ok b64 (rf_Type f)" "plain_type (StructOf fs)"
  shows "class_ok b64 (StructOf fs)" "item_ok b64 (StructOf fs)"
proof -
  have "fields_ok b64 fs []" by (rule fields_ok [OF assms(1)]) (use assms(2) in auto)
  then obtain ps where ps: "openapi_fields fs [] = Some ps" "distinct (map fst ps)" "set (map fst ps) \<subseteq> set (keys_of fs)"
    "\<And>vs. fits_fields fs vs \<Longrightarrow> members_kept ps (set (keys_of fs)) (encode_fields b64 fs vs)"
    by (auto simp: fields_ok_def split: option.splits)
  have doc: "\<exists>ms. encode b64 (StructOf fs) v = DObject ms \<and> members_kept ps (set (keys_of fs)) ms" if "fits (StructOf fs) v" for v
    using that ps(4) by (auto split: gval.splits)
  then show "class_ok b64 (StructOf fs)" using ps by (simp add: class_ok_def is_struct_def)
  have "stores_whole (object_with ps) (encode b64 (StructOf fs) v)" if "fits (StructOf fs) v" for v
    using doc [OF that] object_kept by metis
  then show "item_ok b64 (StructOf fs)" using ps(1) by (simp add: item_ok_def)
qed

lemma scalar_kept: "scalar_type s = Some ty \<Longrightarrow> scalar_value s v \<Longrightarrow> stores_whole (of_type ty) (encode b64 (Basic s) v)"
  by (cases s; cases v; auto)

lemma array_kept: "\<forall>x \<in> set vs. stores_whole sch (encode b64 t x) \<Longrightarrow> stores_whole (array_of sch) (DArray (map (encode b64 t) vs))"
  by simp

text \<open>The induction over types: a type that is plain has a schema that stores_whole its values, as a field and as an element.\<close>

lemma plain_ok:
  shows "(plain_type t \<longrightarrow> class_ok b64 t) \<and> (plain_item t \<longrightarrow> item_ok b64 t)"
    and "plain_type (rf_Type f) \<longrightarrow> class_ok b64 (rf_Type f)"
proof (induction t and f rule: rtype.induct rfield.induct)
  case (Basic s)
  then show ?case using scalar_kept [of s] by (auto simp: class_ok_def item_ok_def is_struct_def is_open_def)
next
  case (PointerTo t)
  have "fits (PointerTo t) v \<longleftrightarrow> (\<exists>w. v = VRef w \<and> fits t w)" for v by (auto split: gval.splits)
  then have "plain_type t \<Longrightarrow> class_ok b64 t \<Longrightarrow> class_ok b64 (PointerTo t)" "item_ok b64 t \<Longrightarrow> item_ok b64 (PointerTo t)"
    by (auto simp: class_ok_def item_ok_def split: option.splits field_class.splits)
  then show ?case using PointerTo by simp
next
  case (MapOf t)
  have "fits (MapOf t) v \<Longrightarrow> \<exists>ms. v = VMap ms" for v by (auto split: gval.splits)
  then have "fits (MapOf t) v \<Longrightarrow> stores_whole any_object (encode b64 (MapOf t) v)" for v using any_object_whole by fastforce
  then show ?case by (simp add: class_ok_def item_ok_def is_open_def is_struct_def)
next
  case InterfaceType
  have "fits InterfaceType v \<Longrightarrow> \<exists>ms. v = VDyn (DObject ms)" for v by (auto split: gval.splits doc.splits)
  then have "fits InterfaceType v \<Longrightarrow> stores_whole any_object (encode b64 InterfaceType v)" for v using any_object_whole by fastforce
  then show ?case by (simp add: class_ok_def item_ok_def is_open_def is_struct_def)
next
  case (SliceOf t)
  have "plain_item t \<Longrightarrow> t \<noteq> Basic GoUint8" by auto
  then have "plain_item t \<Longrightarrow> fits (SliceOf t) v \<Longrightarrow> \<exists>vs. encode b64 (SliceOf t) v = DArray (map (encode b64 t) vs) \<and> (\<forall>x \<in> set vs. fits t x)"
    for v by (cases v) auto
  then show ?case using SliceOf array_kept by (fastforce simp: class_ok_def item_ok_def is_open_def is_struct_def split: option.splits)
next
  case (ArrayOf n t)
  have "fits (ArrayOf n t) v \<Longrightarrow> \<exists>vs. encode b64 (ArrayOf n t) v = DArray (map (encode b64 t) vs) \<and> (\<forall>x \<in> set vs. fits t x)"
    for v by (cases v) auto
  then show ?case using ArrayOf array_kept by (fastforce simp: class_ok_def item_ok_def is_open_def is_struct_def split: option.splits)
next
  case (StructOf fs)
  then show ?case using struct_class_ok by simp
next
  case ChanOrFunc
  then show ?case by simp
next
  case (WithMarshaler t)
  then show ?case by simp
next
  case (RField name tag anon t)
  then show ?case by simp
qed

lemma struct_field_type: "is_struct (base t) \<Longrightarrow> field_type t = map_option Embeddable (toOpenAPIV3 t)"
  by (induction t rule: base.induct) (auto simp: is_struct_def)

text \<open>
  C39. The schema made of a plain struct type fits the type. Plain are structs of scalars, pointers, maps, interfaces,
  plain structs and slices of these, but not of slices, without unsigned and 8-bit integers, types with their own encoding,
  embedded maps and interfaces, tags that are a dash or have no name, and members of one name. For these \<open>toOpenAPIV3\<close> returns
  properties, all of them names of the struct's members, and the JSON document of every value of the type that has no
  null and only objects in its interfaces is accepted and stored whole by a server with the schema: each value has the type the schema names,
  at every depth, and no member is pruned.
\<close>

theorem schema_keeps_values:
  assumes "plain_type t" "is_struct (base t)" "fits t v"
  shows "\<exists>ps. toOpenAPIV3 t = Some ps \<and> set (map fst ps) \<subseteq> set (struct_keys t) \<and> stores_whole (object_with ps) (encode b64 t v)"
proof -
  have "class_ok b64 t" using plain_ok(1) assms(1) by blast
  then obtain ps ms where ps: "toOpenAPIV3 t = Some ps" "set (map fst ps) \<subseteq> set (struct_keys t)"
    and ms: "encode b64 t v = DObject ms" "members_kept ps (set (struct_keys t)) ms"
    using assms(2,3) struct_field_type by (auto simp: class_ok_def split: option.splits)
  show ?thesis unfolding ms(1) using ps object_kept [OF ms(2)] by blast
qed

text \<open>A struct with a slice that may be left out, a pointer, and an embedded struct.\<close>

definition sample_struct :: rtype where
  "sample_struct = StructOf [
     RField ''Name'' ''name'' False (PointerTo (Basic GoString)),
     RField ''Tags'' ''tags,omitempty'' False (SliceOf (Basic GoString)),
     RField ''Size'' [] True (StructOf [RField ''Width'' ''width'' False (Basic GoFloat64), RField ''Count'' [] False (Basic GoInt)])]"

definition sample_value :: gval where
  "sample_value = VStruct [VRef (VString ''a''), VNil, VStruct [VFloat 25 1, VInt 3]]"

theorem schema_keeps_values_witness:
  "encode (\<lambda>b. []) sample_struct sample_value =
     DObject [(''name'', DString ''a''), (''width'', DNumber 25 1), (''Count'', DNumber 3 0)] \<and>
   (\<exists>ps. toOpenAPIV3 sample_struct = Some ps \<and> map fst ps = [''name'', ''tags'', ''width'', ''Count''] \<and>
     stores_whole (object_with ps) (encode (\<lambda>b. []) sample_struct sample_value))"
proof -
  have plain: "plain_type sample_struct" "is_struct (base sample_struct)" "fits sample_struct sample_value"
    by (simp_all add: sample_struct_def sample_value_def plain_field_def promoted_def is_struct_def is_open_def json_name_def
        tag_name_def tag_options_def exported_def omitted_def)
  have doc: "encode (\<lambda>b. []) sample_struct sample_value =
      DObject [(''name'', DString ''a''), (''width'', DNumber 25 1), (''Count'', DNumber 3 0)]"
    by (simp add: sample_struct_def sample_value_def promoted_def is_struct_def json_name_def tag_name_def tag_options_def
        exported_def omitted_def skipped_def)
  have ps: "map_option (map fst) (toOpenAPIV3 sample_struct) = Some [''name'', ''tags'', ''width'', ''Count'']"
    by (simp add: sample_struct_def getFieldKey_def put_all_def Let_def)
  from schema_keeps_values [OF plain, of "\<lambda>b. []"] doc ps show ?thesis by fastforce
qed

section \<open>Types it gets wrong\<close>

text \<open>The number of fields is asked of a slice in a slice, and of a spec that is not a struct: a panic.\<close>

lemma nested_slice_panics:
  "toOpenAPIV3 (StructOf (RField name tag anon (SliceOf (SliceOf t)) # fs)) = None"
  "toOpenAPIV3 (MapOf t) = None"
  by simp_all

text \<open>
  The methods of a type are not looked at: a type with an encoding of its own, here a struct around a duration whose
  document is a text, gets the schema of its fields, which its document does not fit.
\<close>

lemma marshaler_not_kept:
  "toOpenAPIV3 (StructOf [RField ''Timeout'' ''timeout'' False (WithMarshaler (StructOf [RField ''Duration'' [] True (Basic GoInt64)]))]) =
     Some [(''timeout'', object_with [(''Duration'', of_type ''integer'')])]"
  "encode b64 (WithMarshaler t) (VDyn (DString ''5s'')) = DString ''5s''" "\<not> stores_whole (object_with ps) (DString ''5s'')"
  by (simp_all add: getFieldKey_def object_with_def schema_type_def schema_member_def)

text \<open>Bytes are declared an array of objects, but their document is a string.\<close>

lemma bytes_not_kept:
  "toOpenAPIV3 (StructOf [RField ''Data'' ''data'' False (SliceOf (Basic GoUint8))]) = Some [(''data'', array_of any_object)]"
  "encode b64 (SliceOf (Basic GoUint8)) (VList bs) = DString (b64 bs)" "\<not> stores_whole (array_of any_object) (DString s)"
  by (simp_all add: getFieldKey_def)

text \<open>Unsigned and 8-bit integers have no property, so a server prunes them.\<close>

lemma unsigned_pruned:
  assumes "s \<in> {GoUint, GoUint8, GoInt8}"
  shows "toOpenAPIV3 (StructOf [RField name tag anon (Basic s)]) = Some []" "\<not> stores_whole (object_with []) (DObject [(k, d)])"
  using assms by auto

text \<open>A tag with an option and no name makes the property without a name, and an ignored field one named \<open>-\<close>.\<close>

lemma tags_misread:
  "getFieldKey (RField name '',omitempty'' anon t) = []" "json_name (RField name '',omitempty'' anon t) = name"
  "getFieldKey (RField name ''-'' anon t) = ''-''" "skipped (RField name ''-'' anon t)"
  by (simp_all add: getFieldKey_def json_name_def tag_name_def skipped_def)

text \<open>An embedded map's mark to keep unknown members becomes one of the properties, so that they are pruned nevertheless.\<close>

lemma embedded_map_pruned:
  "toOpenAPIV3 (StructOf [RField ''M'' [] True (MapOf t)]) = Some [(preserve_key, JBool True)]"
  "k \<noteq> preserve_key \<Longrightarrow> \<not> stores_whole (object_with [(preserve_key, JBool True)]) (DObject [(k, d)])"
  by simp_all

text \<open>An embedded struct that a tag names is spread over the outer one, but its document is nested.\<close>

lemma named_embedding_spread:
  assumes "toOpenAPIV3 (StructOf fs) = Some ps"
  shows "toOpenAPIV3 (StructOf [RField ''Inner'' ''inner'' True (StructOf fs)]) = Some (put_all ps [])"
    "encode_fields b64 [RField ''Inner'' ''inner'' True (StructOf fs)] [VStruct vs] = [(''inner'', DObject (encode_fields b64 fs vs))]"
  using assms by (simp_all add: skipped_def promoted_def tag_name_def json_name_def exported_def omitted_def)

end
