(* ===== verification/Resource_Manager.thy ===== *)
theory Resource_Manager
  imports CRD_Schema App_Manifest Dynamic_Patcher "HOL-Library.List_Lexorder" "HOL-Library.Char_ord"
begin

text \<open>
  \<^verbatim>\<open>k8s/manager.go\<close>: registering a schema as a version of a custom resource definition. The client's requests are
  parameters, and what a server does with them is left open; a definition's metadata beyond its name is the type \<open>'m\<close>.
\<close>

section \<open>Custom resource definitions\<close>

record crd_version =
  cv_Name :: string
  cv_Served :: bool
  cv_Storage :: bool
  cv_Schema :: json
  cv_Subresources :: "string list"
  cv_SelectableFields :: "string list"
  cv_AdditionalPrinterColumns :: "PrinterColumn list"

record 'm crd =
  crd_APIVersion :: string
  crd_TypeKind :: string
  crd_Name :: string
  crd_Meta :: 'm
  crd_Group :: string
  crd_Versions :: "crd_version list"
  crd_Kind :: string
  crd_Plural :: string
  crd_Conversion :: "json option"
  crd_Scope :: string

record RegisterSchemaOptions =
  rg_UpdateOnConflict :: bool
  rg_NoErrorOnConflict :: bool
  rg_WaitForAvailability :: bool

text \<open>
  What is asked of a schema's zero value by reflection: the type of its spec, and of the subresources \<^verbatim>\<open>status\<close> and
  \<^verbatim>\<open>scale\<close> where there are such; \<open>None\<close> for a nil value.
\<close>

record zero_types =
  zt_spec :: "rtype option"
  zt_status :: "rtype option option"
  zt_scale :: "rtype option option"

text \<open>
  Requests: reading a definition gives the status code with the answer, decoded or as an error; polling sends the same
  request and decodes nothing; a \<^verbatim>\<open>PUT\<close> has a name in its path or none.
\<close>

record ('m, 's) crd_api =
  ca_Get :: "string \<Rightarrow> 's \<Rightarrow> (int \<times> (go_error + 'm crd)) \<times> 's"
  ca_Poll :: "string \<Rightarrow> 's \<Rightarrow> (int \<times> go_error option) \<times> 's"
  ca_Post :: "'m crd \<Rightarrow> 's \<Rightarrow> (int \<times> go_error option) \<times> 's"
  ca_Put :: "string option \<Rightarrow> 'm crd \<Rightarrow> 's \<Rightarrow> (int \<times> go_error option) \<times> 's"
  ca_Marshal :: "'m crd \<Rightarrow> go_error option"
  ca_NoMeta :: 'm
  ca_as_status :: "go_error \<Rightarrow> (go_error \<times> int) option"

datatype 'a call = Finished 'a | Waiting | Panics

definition of_outcome :: "'a outcome \<Rightarrow> 'a call" where
  "of_outcome r = (case r of Returned x \<Rightarrow> Finished x | _ \<Rightarrow> Panics)"

definition parse_answer :: "('m, 's) crd_api \<Rightarrow> int \<Rightarrow> go_error option \<Rightarrow> go_error option call" where
  "parse_answer P sc err = of_outcome (ParseKubernetesError (\<lambda>b. None) (ca_as_status P) [] sc err)"

definition crd_name :: "schema \<Rightarrow> string" where
  "crd_name sch = sch_Plural sch @ CHR ''.'' # sch_Group sch"

section \<open>Versions\<close>

definition openapi_of :: "rtype option \<Rightarrow> json option" where
  "openapi_of t = map_option object_with (t \<bind> toOpenAPIV3)"

text \<open>One subresource: nothing where there is none, else its property and its mark; the outer \<open>None\<close> is a panic.\<close>

definition subresource_of :: "string \<Rightarrow> rtype option option \<Rightarrow> (string \<times> json) list option" where
  "subresource_of name t = (case t of None \<Rightarrow> Some [] | Some ty \<Rightarrow> map_option (\<lambda>p. [(name, p)]) (openapi_of ty))"

definition toVersion :: "schema \<Rightarrow> zero_types \<Rightarrow> crd_version option" where
  "toVersion sch z = openapi_of (zt_spec z) \<bind> (\<lambda>spc. subresource_of ''status'' (zt_status z) \<bind> (\<lambda>st.
     subresource_of ''scale'' (zt_scale z) \<bind> (\<lambda>sc. Some
       \<lparr>cv_Name = sch_Version sch, cv_Served = True, cv_Storage = False,
        cv_Schema = JObject [(''openAPIV3Schema'', object_with ((''spec'', spc) # st @ sc))],
        cv_Subresources = map fst (st @ sc), cv_SelectableFields = [], cv_AdditionalPrinterColumns = []\<rparr>)))"

text \<open>The first version of the name is replaced.\<close>

fun replace_version :: "crd_version \<Rightarrow> crd_version list \<Rightarrow> crd_version list" where
  "replace_version nv [] = []"
| "replace_version nv (v # vs) = (if cv_Name v = cv_Name nv then nv # vs else v # replace_version nv vs)"

definition unmarked :: "crd_version \<Rightarrow> crd_version" where
  "unmarked v = v\<lparr>cv_Storage := False\<rparr>"

text \<open>Sorting by name, from the greatest; \<^verbatim>\<open>sort.Slice\<close> leaves the order of equal names open.\<close>

definition mark_storage :: "crd_version list \<Rightarrow> crd_version list" where
  "mark_storage vs = (let ws = map unmarked (rev (sort_key cv_Name vs))
     in ws[length ws - 1 := (ws ! (length ws - 1))\<lparr>cv_Storage := True\<rparr>])"

section \<open>Registering\<close>

datatype wait_event = Tick | CtxDone go_error

text \<open>Polling; the events are the ticks and the end of the context, in the order the select takes them.\<close>

fun wait_loop :: "('m, 's) crd_api \<Rightarrow> string \<Rightarrow> wait_event list \<Rightarrow> 's \<Rightarrow> go_error option call \<times> 's" where
  "wait_loop P name [] s = (Waiting, s)"
| "wait_loop P name (CtxDone e # es) s = (Finished (Some e), s)"
| "wait_loop P name (Tick # es) s = (case ca_Poll P name s of
     ((sc, None), s') \<Rightarrow> (Finished None, s')
   | ((sc, Some e), s') \<Rightarrow> if sc \<noteq> 404 then (Finished (Some e), s') else wait_loop P name es s')"

definition WaitForAvailability ::
  "('m, 's) crd_api \<Rightarrow> schema \<Rightarrow> wait_event list \<Rightarrow> 's \<Rightarrow> go_error option call \<times> 's" where
  "WaitForAvailability P sch es s = wait_loop P (crd_name sch) es s"

definition new_crd :: "'m \<Rightarrow> schema \<Rightarrow> string \<Rightarrow> crd_version \<Rightarrow> 'm crd" where
  "new_crd nometa sch name version =
     \<lparr>crd_APIVersion = ''apiextensions.k8s.io/v1'', crd_TypeKind = ''CustomResourceDefinition'', crd_Name = name, crd_Meta = nometa,
      crd_Group = sch_Group sch, crd_Versions = [version], crd_Kind = sch_Kind sch, crd_Plural = sch_Plural sch,
      crd_Conversion = None, crd_Scope = ''Namespaced''\<rparr>"

definition create_crd ::
  "('m, 's) crd_api \<Rightarrow> schema \<Rightarrow> zero_types \<Rightarrow> string \<Rightarrow> 's \<Rightarrow> go_error option call \<times> 's" where
  "create_crd P sch z name s = (case toVersion sch z of
     None \<Rightarrow> (Panics, s)
   | Some version \<Rightarrow>
       (let crd = new_crd (ca_NoMeta P) sch name (version\<lparr>cv_Storage := True\<rparr>)
        in case ca_Marshal P crd of
             Some e \<Rightarrow> (Finished (Some e), s)
           | None \<Rightarrow> (let ((sc, err), s') = ca_Post P crd s in (parse_answer P sc err, s'))))"

definition already_registered :: go_error where
  "already_registered = GoErr ''schema with identical kind, group, and version already registered''"

definition RegisterSchema ::
  "('m, 's) crd_api \<Rightarrow> schema \<Rightarrow> zero_types \<Rightarrow> RegisterSchemaOptions \<Rightarrow> wait_event list \<Rightarrow> 's \<Rightarrow> go_error option call \<times> 's" where
  "RegisterSchema P sch z opts events s =
     (case ca_Get P (crd_name sch) s of ((sc, r), s1) \<Rightarrow>
        if sc = 404 then create_crd P sch z (crd_name sch) s1
        else (case r of
          Inl e \<Rightarrow> (parse_answer P sc (Some e), s1)
        | Inr existing \<Rightarrow>
            (let exists = sch_Version sch \<in> set (map cv_Name (crd_Versions existing))
             in if exists \<and> \<not> rg_UpdateOnConflict opts
                then (Finished (if rg_NoErrorOnConflict opts then None else Some already_registered), s1)
                else (case toVersion sch z of
                  None \<Rightarrow> (Panics, s1)
                | Some version \<Rightarrow>
                    (let versions = (if exists then replace_version version (crd_Versions existing)
                                     else crd_Versions existing @ [version]);
                         updated = existing\<lparr>crd_Versions := mark_storage versions\<rparr>
                     in case ca_Marshal P updated of
                          Some e \<Rightarrow> (Finished (Some e), s1)
                        | None \<Rightarrow> (case ca_Put P None updated s1 of
                            ((sc2, Some e), s2) \<Rightarrow> (parse_answer P sc2 (Some e), s2)
                          | ((sc2, None), s2) \<Rightarrow>
                              if rg_WaitForAvailability opts then WaitForAvailability P sch events s2 else (Finished None, s2)))))))"

section \<open>What is registered\<close>

text \<open>A definition that a server takes: versions of distinct names, one of which is stored.\<close>

definition well_formed :: "'m crd \<Rightarrow> bool" where
  "well_formed c \<longleftrightarrow> distinct (map cv_Name (crd_Versions c)) \<and> length (filter cv_Storage (crd_Versions c)) = 1"

text \<open>The versions by their names, without the mark.\<close>

definition version_map :: "crd_version list \<Rightarrow> (string \<rightharpoonup> crd_version)" where
  "version_map vs = map_of (map (\<lambda>v. (cv_Name v, unmarked v)) vs)"

text \<open>Polls that were answered by 404 and then one without an error.\<close>

inductive polled :: "('m, 's) crd_api \<Rightarrow> string \<Rightarrow> 's \<Rightarrow> 's \<Rightarrow> bool" for P name where
  available: "ca_Poll P name s = ((sc, None), s') \<Longrightarrow> polled P name s s'"
| missing: "ca_Poll P name s = ((404, Some e), s1) \<Longrightarrow> polled P name s1 s' \<Longrightarrow> polled P name s s'"

lemma version_map_Cons [simp]: "version_map (v # vs) = (version_map vs)(cv_Name v \<mapsto> unmarked v)"
  by (simp add: version_map_def)

lemma unmarked_fields [simp]: "cv_Name (unmarked v) = cv_Name v" "\<not> cv_Storage (unmarked v)" "unmarked (unmarked v) = unmarked v"
  "unmarked (v\<lparr>cv_Storage := b\<rparr>) = unmarked v"
  by (simp_all add: unmarked_def)

lemma replace_version_names: "map cv_Name (replace_version nv vs) = map cv_Name vs"
  by (induction vs) auto

lemma replace_version_map:
  "cv_Name nv \<in> set (map cv_Name vs) \<Longrightarrow> version_map (replace_version nv vs) = (version_map vs)(cv_Name nv \<mapsto> unmarked nv)"
  by (induction vs) (auto simp: fun_upd_twist)

lemma append_version_map:
  "cv_Name nv \<notin> set (map cv_Name vs) \<Longrightarrow> version_map (vs @ [nv]) = (version_map vs)(cv_Name nv \<mapsto> unmarked nv)"
proof (induction vs)
  case Nil
  show ?case by (simp add: version_map_def)
qed (auto simp: fun_upd_twist)

lemma version_map_permuted:
  assumes "distinct (map cv_Name vs)" "set ws = set vs" "distinct (map cv_Name ws)"
  shows "version_map ws = version_map vs"
  unfolding version_map_def
  by (rule iffD2 [OF map_of_inject_set]) (use assms in \<open>simp_all add: comp_def\<close>)

text \<open>Marking: the names stay distinct, the versions stay, and the one of the least name is stored.\<close>

lemma mark_storage_spec:
  assumes "distinct (map cv_Name vs)" "vs \<noteq> []"
  shows "distinct (map cv_Name (mark_storage vs))" "version_map (mark_storage vs) = version_map vs"
    "map cv_Name (filter cv_Storage (mark_storage vs)) = [Min (cv_Name ` set vs)]"
proof -
  let ?s = "sort_key cv_Name vs"
  obtain lo rest where s: "?s = lo # rest" using assms(2) by (metis list.exhaust length_0_conv length_sort)
  have mark: "mark_storage vs = map unmarked (rev rest) @ [(unmarked lo)\<lparr>cv_Storage := True\<rparr>]"
    by (simp add: mark_storage_def s Let_def nth_append list_update_append)
  have same: "set (lo # rest) = set vs" "distinct (map cv_Name (lo # rest))"
    using set_sort [of cv_Name vs] assms(1) distinct_map distinct_sort unfolding s [symmetric] by (metis, metis set_sort)
  have sorted: "sorted (map cv_Name (lo # rest))" unfolding s [symmetric] by simp
  show "distinct (map cv_Name (mark_storage vs))" using same(2) by (simp add: mark rev_map [symmetric] comp_def)
  have "version_map (mark_storage vs) = version_map (rev rest @ [lo])"
    by (simp add: mark version_map_def comp_def rev_map)
  also have "\<dots> = version_map vs"
    by (rule version_map_permuted [OF assms(1)]) (use same in \<open>auto simp: rev_map [symmetric]\<close>)
  finally show "version_map (mark_storage vs) = version_map vs" .
  have "Min (cv_Name ` set vs) = cv_Name lo"
    unfolding same(1) [symmetric] using sorted by (intro Min_eqI) auto
  moreover have "filter cv_Storage (map unmarked (rev rest)) = []" by (simp add: filter_empty_conv)
  ultimately show "map cv_Name (filter cv_Storage (mark_storage vs)) = [Min (cv_Name ` set vs)]" by (simp add: mark)
qed

lemma toVersion_fields: "toVersion sch z = Some nv \<Longrightarrow> cv_Name nv = sch_Version sch \<and> unmarked nv = nv"
  by (auto simp: toVersion_def unmarked_def split: bind_splits)

lemma parse_answer_ok: "parse_answer P sc err = Finished None \<Longrightarrow> err = None"
  by (auto simp: parse_answer_def of_outcome_def ParseKubernetesError_def parse_rest_def NewServerResponseError_def
      split: outcome.splits option.splits if_splits bind_splits)

lemma wait_loop_polled: "wait_loop P name es s = (Finished None, s') \<Longrightarrow> polled P name s s'"
proof (induction P name es s rule: wait_loop.induct)
  case (3 P name es s)
  obtain sc a s1 where a: "ca_Poll P name s = ((sc, a), s1)" by (metis surj_pair)
  show ?case
  proof (cases a)
    case None
    then show ?thesis using 3(2) a by (auto intro: polled.available)
  next
    case (Some e)
    then have "sc = 404" "wait_loop P name es s1 = (Finished None, s')" using 3(2) a by (auto split: if_splits)
    then show ?thesis using 3(1) a Some by (auto intro: polled.missing)
  qed
qed auto

lemma version_map_names: "dom (version_map vs) = cv_Name ` set vs"
  by (simp add: version_map_def dom_map_of_conv_image_fst image_image)

lemma updated_ok:
  assumes "distinct (map cv_Name (crd_Versions old))" "toVersion sch z = Some nv"
    and vs: "vs = (if sch_Version sch \<in> set (map cv_Name (crd_Versions old)) then replace_version nv (crd_Versions old)
      else crd_Versions old @ [nv])"
  shows "well_formed (old\<lparr>crd_Versions := mark_storage vs\<rparr>)"
    "version_map (mark_storage vs) = (version_map (crd_Versions old))(sch_Version sch \<mapsto> nv)"
proof -
  note nv = toVersion_fields [OF assms(2)]
  have d: "distinct (map cv_Name vs)" using assms(1) nv by (simp add: vs replace_version_names)
  have ne: "vs \<noteq> []" using replace_version_names [of nv "crd_Versions old"] by (auto simp: vs)
  have vm: "version_map vs = (version_map (crd_Versions old))(cv_Name nv \<mapsto> nv)"
    unfolding vs using nv replace_version_map [of nv "crd_Versions old"] append_version_map [of nv "crd_Versions old"] by simp
  note m = mark_storage_spec [OF d ne]
  have len: "length (filter cv_Storage (mark_storage vs)) = 1" using m(3) by (metis length_map One_nat_def length_Cons list.size(3))
  then show "well_formed (old\<lparr>crd_Versions := mark_storage vs\<rparr>)" using m(1) by (simp add: well_formed_def)
  show "version_map (mark_storage vs) = (version_map (crd_Versions old))(sch_Version sch \<mapsto> nv)"
    using m(2) vm nv by simp
qed

text \<open>
  The definition that a new schema is to be created as; and what an update may send where a definition was read: the same
  definition with the version put in, under distinct names, one version marked as stored.
\<close>

definition creates :: "schema \<Rightarrow> zero_types \<Rightarrow> 'm crd \<Rightarrow> bool" where
  "creates sch z c \<longleftrightarrow> crd_Name c = sch_Plural sch @ ''.'' @ sch_Group sch \<and> crd_Group c = sch_Group sch \<and>
     crd_Kind c = sch_Kind sch \<and> crd_Plural c = sch_Plural sch \<and> crd_Scope c = ''Namespaced'' \<and>
     crd_APIVersion c = ''apiextensions.k8s.io/v1'' \<and> crd_TypeKind c = ''CustomResourceDefinition'' \<and>
     (\<exists>nv. toVersion sch z = Some nv \<and> cv_Name nv = sch_Version sch \<and> crd_Versions c = [nv\<lparr>cv_Storage := True\<rparr>])"

definition updates :: "schema \<Rightarrow> zero_types \<Rightarrow> 'm crd \<Rightarrow> 'm crd \<Rightarrow> bool" where
  "updates sch z old c \<longleftrightarrow> c = old\<lparr>crd_Versions := crd_Versions c\<rparr> \<and> well_formed c \<and>
     (\<exists>nv. toVersion sch z = Some nv \<and> cv_Name nv = sch_Version sch \<and>
        version_map (crd_Versions c) = (version_map (crd_Versions old))(sch_Version sch \<mapsto> nv))"

lemma new_crd_creates:
  "toVersion sch z = Some nv \<Longrightarrow> creates sch z (new_crd nometa sch (crd_name sch) (nv\<lparr>cv_Storage := True\<rparr>))"
  using toVersion_fields [of sch z nv] by (simp add: creates_def new_crd_def crd_name_def)

text \<open>
  C40. What a call of \<open>RegisterSchema\<close> that returns without an error has sent, whatever the server does with it. If there was no
  definition, one \<open>POST\<close> of a definition with the schema's name, group, kind and plural and one version, the one made of the
  schema's types, which is stored. If there was one with versions of distinct names, either its version is the schema's
  already, the options ask for no error and for no update, and nothing was sent; or one \<open>PUT\<close> of the same definition, in which
  every other version is as before, the schema's version is the one made of its types, the names are distinct and
  exactly one version is marked as stored; followed, where the options say so, by polls until one was answered. A version
  that is there already is refused, and nothing sent, where the options ask for neither.
\<close>

theorem register_sends:
  assumes get: "ca_Get P (sch_Plural sch @ ''.'' @ sch_Group sch) s = ((sc, r), s1)"
    and before: "\<forall>old. r = Inr old \<longrightarrow> distinct (map cv_Name (crd_Versions old))"
  shows "(RegisterSchema P sch z opts events s = (Finished None, s') \<longrightarrow>
      (if sc = 404 then \<exists>c sc'. creates sch z c \<and> ca_Post P c s1 = ((sc', None), s')
       else \<exists>old. r = Inr old \<and>
         (sch_Version sch \<in> cv_Name ` set (crd_Versions old) \<and> rg_NoErrorOnConflict opts \<and> \<not> rg_UpdateOnConflict opts \<and> s' = s1 \<or>
          (sch_Version sch \<in> cv_Name ` set (crd_Versions old) \<longrightarrow> rg_UpdateOnConflict opts) \<and>
          (\<exists>c sc' s2. updates sch z old c \<and> ca_Put P None c s1 = ((sc', None), s2) \<and>
             (if rg_WaitForAvailability opts then polled P (sch_Plural sch @ ''.'' @ sch_Group sch) s2 s' else s' = s2))))) \<and>
    (\<forall>old. sc \<noteq> 404 \<and> r = Inr old \<and> sch_Version sch \<in> cv_Name ` set (crd_Versions old) \<and>
      \<not> rg_NoErrorOnConflict opts \<and> \<not> rg_UpdateOnConflict opts \<longrightarrow>
      RegisterSchema P sch z opts events s = (Finished (Some already_registered), s1))"
proof -
  let ?n = "crd_name sch"
  have n: "sch_Plural sch @ ''.'' @ sch_Group sch = ?n" by (simp add: crd_name_def)
  have created: "\<exists>c sc'. creates sch z c \<and> ca_Post P c s1 = ((sc', None), s')"
    if run: "RegisterSchema P sch z opts events s = (Finished None, s')" and "sc = 404"
  proof -
    have c: "create_crd P sch z ?n s1 = (Finished None, s')" using that get n by (simp add: RegisterSchema_def)
    then obtain nv where nv: "toVersion sch z = Some nv" by (auto simp: create_crd_def split: option.splits)
    let ?c = "new_crd (ca_NoMeta P) sch ?n (nv\<lparr>cv_Storage := True\<rparr>)"
    obtain sc' err where post: "ca_Post P ?c s1 = ((sc', err), s')" "parse_answer P sc' err = Finished None"
      using c nv by (auto simp: create_crd_def Let_def split: option.splits prod.splits)
    have "err = None" by (rule parse_answer_ok [OF post(2)])
    with post(1) have "ca_Post P ?c s1 = ((sc', None), s')" by simp
    with new_crd_creates [OF nv] show ?thesis by (intro exI [of _ ?c] exI [of _ sc'] conjI)
  qed
  have updated: "\<exists>c sc' s2. updates sch z old c \<and> ca_Put P None c s1 = ((sc', None), s2) \<and>
      (if rg_WaitForAvailability opts then polled P ?n s2 s' else s' = s2)"
    if run: "RegisterSchema P sch z opts events s = (Finished None, s')" and old: "sc \<noteq> 404" "r = Inr old"
      and upd: "\<not> (sch_Version sch \<in> set (map cv_Name (crd_Versions old)) \<and> \<not> rg_UpdateOnConflict opts)" for old
  proof -
    obtain nv where nv: "toVersion sch z = Some nv"
      using run old upd get n by (cases "toVersion sch z") (auto simp: RegisterSchema_def Let_def)
    define vs where "vs = (if sch_Version sch \<in> set (map cv_Name (crd_Versions old)) then replace_version nv (crd_Versions old)
      else crd_Versions old @ [nv])"
    let ?c = "old\<lparr>crd_Versions := mark_storage vs\<rparr>"
    have "updates sch z old ?c"
      using updated_ok [OF _ nv vs_def] before old(2) nv toVersion_fields [OF nv] by (simp add: updates_def)
    moreover have "\<exists>sc2 s2. ca_Put P None ?c s1 = ((sc2, None), s2) \<and>
        (if rg_WaitForAvailability opts then wait_loop P ?n events s2 = (Finished None, s') else s' = s2)"
      using run old get n upd nv
      by (cases "sch_Version sch \<in> set (map cv_Name (crd_Versions old))")
        (simp_all add: RegisterSchema_def Let_def vs_def WaitForAvailability_def
          split: option.splits prod.splits if_splits, auto dest: parse_answer_ok)
    ultimately obtain sc2 s2 where put: "updates sch z old ?c" "ca_Put P None ?c s1 = ((sc2, None), s2)"
      "if rg_WaitForAvailability opts then wait_loop P ?n events s2 = (Finished None, s') else s' = s2" by blast
    from put(3) have "if rg_WaitForAvailability opts then polled P ?n s2 s' else s' = s2"
      using wait_loop_polled [of P ?n events s2 s'] by (cases "rg_WaitForAvailability opts") simp_all
    with put(1,2) show ?thesis by (intro exI [of _ ?c] exI [of _ sc2] exI [of _ s2] conjI)
  qed
  have found: "\<exists>old. r = Inr old" if "RegisterSchema P sch z opts events s = (Finished None, s')" "sc \<noteq> 404"
    using that get n by (cases r) (auto simp: RegisterSchema_def dest: parse_answer_ok)
  have quiet: "s' = s1" "rg_NoErrorOnConflict opts"
    if "RegisterSchema P sch z opts events s = (Finished None, s')" "sc \<noteq> 404" "r = Inr old"
      "sch_Version sch \<in> cv_Name ` set (crd_Versions old)" "\<not> rg_UpdateOnConflict opts" for old
    using that get n by (auto simp: RegisterSchema_def Let_def split: if_splits)
  have refused: "RegisterSchema P sch z opts events s = (Finished (Some already_registered), s1)"
    if "sc \<noteq> 404" "r = Inr old" "sch_Version sch \<in> cv_Name ` set (crd_Versions old)" "\<not> rg_NoErrorOnConflict opts" "\<not> rg_UpdateOnConflict opts" for old
    using that get n by (simp add: RegisterSchema_def)
  have kept: "\<exists>old. r = Inr old \<and>
      (sch_Version sch \<in> cv_Name ` set (crd_Versions old) \<and> rg_NoErrorOnConflict opts \<and> \<not> rg_UpdateOnConflict opts \<and> s' = s1 \<or>
       (sch_Version sch \<in> cv_Name ` set (crd_Versions old) \<longrightarrow> rg_UpdateOnConflict opts) \<and>
       (\<exists>c sc' s2. updates sch z old c \<and> ca_Put P None c s1 = ((sc', None), s2) \<and>
          (if rg_WaitForAvailability opts then polled P ?n s2 s' else s' = s2)))"
    if run: "RegisterSchema P sch z opts events s = (Finished None, s')" "sc \<noteq> 404"
  proof -
    obtain old where old: "r = Inr old" using found [OF run] by blast
    show ?thesis
    proof (cases "sch_Version sch \<in> set (map cv_Name (crd_Versions old)) \<and> \<not> rg_UpdateOnConflict opts")
      case True
      then show ?thesis using quiet [OF run old] old by auto
    next
      case False
      then show ?thesis using updated [OF run old False] old by auto
    qed
  qed
  show ?thesis unfolding n using created kept refused by auto
qed

section \<open>Runs\<close>

text \<open>A server whose state is its definitions.\<close>

definition map_api :: "(unit, string \<rightharpoonup> unit crd) crd_api" where
  "map_api = \<lparr>ca_Get = (\<lambda>name s. (case s name of None \<Rightarrow> (404, Inl (GoErr ''not found'')) | Some c \<Rightarrow> (200, Inr c), s)),
     ca_Poll = (\<lambda>name s. (case s name of None \<Rightarrow> (404, Some (GoErr ''not found'')) | Some c \<Rightarrow> (200, None), s)),
     ca_Post = (\<lambda>c s. ((201, None), s(crd_Name c \<mapsto> c))), ca_Put = (\<lambda>p c s. ((200, None), s(crd_Name c \<mapsto> c))),
     ca_Marshal = (\<lambda>c. None), ca_NoMeta = (), ca_as_status = (\<lambda>e. None)\<rparr>"

definition crd_schema :: "string \<Rightarrow> schema" where
  "crd_schema version = \<lparr>sch_Group = ''g'', sch_Version = version, sch_Kind = ''Foo'', sch_Plural = ''foos''\<rparr>"

definition text_spec :: zero_types where
  "text_spec = \<lparr>zt_spec = Some (PointerTo (StructOf [RField ''Text'' ''text'' False (Basic GoString)])),
     zt_status = Some (Some (StructOf [])), zt_scale = None\<rparr>"

definition updating :: RegisterSchemaOptions where
  "updating = \<lparr>rg_UpdateOnConflict = True, rg_NoErrorOnConflict = False, rg_WaitForAvailability = True\<rparr>"

definition text_version :: "string \<Rightarrow> crd_version" where
  "text_version version = \<lparr>cv_Name = version, cv_Served = True, cv_Storage = False, cv_Schema =
     JObject [(''openAPIV3Schema'', object_with [(''spec'', object_with [(''text'', of_type ''string'')]), (''status'', object_with [])])],
     cv_Subresources = [''status''], cv_SelectableFields = [], cv_AdditionalPrinterColumns = []\<rparr>"

definition text_crd :: "string \<Rightarrow> unit crd" where
  "text_crd version = new_crd () (crd_schema version) ''foos.g'' ((text_version version)\<lparr>cv_Storage := True\<rparr>)"

lemma text_toVersion: "toVersion (crd_schema version) text_spec = Some (text_version version)"
  by (simp add: toVersion_def text_spec_def crd_schema_def text_version_def openapi_of_def subresource_of_def getFieldKey_def)

lemma sort_two: "cv_Name a < cv_Name b \<Longrightarrow> sort_key cv_Name [a, b] = [a, b]" "cv_Name a < cv_Name b \<Longrightarrow> sort_key cv_Name [b, a] = [a, b]"
  by auto

text \<open>Registering a second version: the first one stays the stored one.\<close>

definition one_version :: "string \<rightharpoonup> unit crd" where
  "one_version = [''foos.g'' \<mapsto> text_crd ''v1'']"

definition two_version_crd :: "unit crd" where
  "two_version_crd = (text_crd ''v1'')\<lparr>crd_Versions := [text_version ''v2'', (text_version ''v1'')\<lparr>cv_Storage := True\<rparr>]\<rparr>"

lemma second_version_run:
  "RegisterSchema map_api (crd_schema ''v2'') text_spec updating [Tick] one_version = (Finished None, [''foos.g'' \<mapsto> two_version_crd])"
proof -
  let ?v1 = "(text_version ''v1'')\<lparr>cv_Storage := True\<rparr>"
  have name: "crd_name (crd_schema ''v2'') = ''foos.g''" "crd_Name (text_crd ''v1'') = ''foos.g''"
    "crd_Versions (text_crd ''v1'') = [?v1]" "sch_Version (crd_schema ''v2'') = ''v2''" "cv_Name ?v1 = ''v1''"
    by (simp_all add: crd_name_def crd_schema_def text_crd_def new_crd_def text_version_def)
  have "sort_key cv_Name [?v1, text_version ''v2''] = [?v1, text_version ''v2'']"
    by (rule sort_two) (simp add: text_version_def less_char_def)
  then have "mark_storage ([?v1] @ [text_version ''v2'']) = [text_version ''v2'', ?v1]"
    by (simp add: mark_storage_def unmarked_def text_version_def)
  then show ?thesis
    by (simp add: RegisterSchema_def map_api_def name text_toVersion updating_def WaitForAvailability_def Let_def
        one_version_def two_version_crd_def)
qed

lemma first_version_run:
  "RegisterSchema map_api (crd_schema ''v1'') text_spec updating [] Map.empty = (Finished None, [''foos.g'' \<mapsto> text_crd ''v1''])"
proof -
  have name: "crd_name (crd_schema ''v1'') = ''foos.g''" by (simp add: crd_name_def crd_schema_def)
  have ok: "parse_answer map_api 201 None = Finished None"
    by (simp add: parse_answer_def of_outcome_def ParseKubernetesError_def parse_rest_def map_api_def)
  have posted: "ca_Post map_api (text_crd ''v1'') Map.empty = ((201, None), [''foos.g'' \<mapsto> text_crd ''v1''])"
    by (simp add: map_api_def text_crd_def new_crd_def)
  have marshal: "ca_Marshal map_api c = None" "ca_NoMeta map_api = ()" for c by (simp_all add: map_api_def)
  have "create_crd map_api (crd_schema ''v1'') text_spec ''foos.g'' Map.empty = (Finished None, [''foos.g'' \<mapsto> text_crd ''v1''])"
    unfolding create_crd_def text_toVersion option.case Let_def marshal text_crd_def [symmetric] posted prod.case ok by simp
  moreover have "ca_Get map_api ''foos.g'' Map.empty = ((404, Inl (GoErr ''not found'')), Map.empty)" by (simp add: map_api_def)
  ultimately show ?thesis by (simp add: RegisterSchema_def name)
qed

theorem register_sends_witness:
  "RegisterSchema map_api (crd_schema ''v1'') text_spec updating [] Map.empty = (Finished None, [''foos.g'' \<mapsto> text_crd ''v1'']) \<and>
   (\<exists>c sc. creates (crd_schema ''v1'') text_spec c \<and> ca_Post map_api c Map.empty = ((sc, None), [''foos.g'' \<mapsto> text_crd ''v1'']))"
proof -
  have get: "ca_Get map_api (sch_Plural (crd_schema ''v1'') @ ''.'' @ sch_Group (crd_schema ''v1'')) Map.empty =
      ((404, Inl (GoErr ''not found'')), Map.empty)"
    by (simp add: map_api_def)
  from register_sends [OF get, of text_spec updating "[]" "[''foos.g'' \<mapsto> text_crd ''v1'']"] first_version_run
  show ?thesis by simp
qed

section \<open>What does not hold\<close>

text \<open>Versions are compared as texts, and the least is stored: the oldest rather than the latest.\<close>

lemma least_version_stored:
  assumes "cv_Name a < cv_Name b"
  shows "map cv_Name (filter cv_Storage (mark_storage [a, b])) = [cv_Name a]"
proof -
  have "distinct (map cv_Name [a, b])" "Min (cv_Name ` set [a, b]) = cv_Name a"
    using assms by (simp_all add: min_absorb1 order_less_imp_le order_less_imp_not_eq)
  with mark_storage_spec(3) [of "[a, b]"] show ?thesis by simp
qed

lemma text_order: "''v10'' < (''v2'' :: string)"
  by (simp add: less_char_def)

text \<open>
  The update names no definition in its path. Against a server that, as Kubernetes does, takes updates of named
  definitions only, no version can be added to a definition.
\<close>

lemma update_has_no_name:
  assumes "ca_Get P (crd_name sch) s = ((200, Inr old), s)" "sch_Version sch \<notin> set (map cv_Name (crd_Versions old))"
    and "\<And>c s. ca_Put P None c s = ((405, Some (GoErr ''method not allowed'')), s)" "ca_as_status P = (\<lambda>e. None)"
  shows "fst (RegisterSchema P sch z opts events s) \<noteq> Finished None"
  using assms by (auto simp: RegisterSchema_def Let_def parse_answer_def of_outcome_def ParseKubernetesError_def parse_rest_def
      NewServerResponseError_def split: option.splits)

text \<open>A definition that is created is not waited for, whatever the options say.\<close>

lemma create_does_not_wait:
  assumes "ca_Get P (crd_name sch) s = ((404, Inl e), s)"
  shows "RegisterSchema P sch z opts events s = RegisterSchema P sch z (opts\<lparr>rg_WaitForAvailability := w\<rparr>) events' s"
  using assms by (simp add: RegisterSchema_def)

text \<open>A schema whose zero value has no spec makes the manager panic.\<close>

lemma nil_spec_panics: "zt_spec z = None \<Longrightarrow> toVersion sch z = None"
  by (simp add: toVersion_def openapi_of_def)

end
