(* ===== verification/Spec2Isabelle.thy ===== *)
theory Spec2Isabelle
  imports Simple_App App_Runner Stores K8s_Translation Schema_Resolution Manifest_Conversion Reflector Client_Registry K8s_Watch Plugin_Router API_Server
  Operator_Runner Singleton_Runner Resource_Manager
begin

text \<open>
  \<^bold>\<open>A verification development for the Grafana app SDK\<close> (\<^verbatim>\<open>grafana-app-sdk\<close>, Go).

  \<^bold>\<open>The program.\<close> The SDK is the library with which Grafana apps are written as Kubernetes operators. An app
  names its kinds and gives each a watcher or a reconciler. Informers list and watch the kinds' objects and
  deliver events; the informer controller passes each event to every handler of the kind and retries the
  ones that fail; opinionated handlers keep a finalizer on each object, so that no deletion is missed, and
  send it as JSON patches through a client that looks up the version to use. Beside the event path the SDK
  has stores over a resource client, object implementations with their JSON, admission and conversion
  webhooks, custom routes, the manifest that describes an app, and runners that run the parts together.

  \<^bold>\<open>Theories and sources\<close> (paths under \<^verbatim>\<open>src/\<close>).

    \<^item> \<open>Prelude\<close>: strings, decimal numbers, slices, and the lemmas the components share.
    \<^item> \<open>Resource_Model\<close> (\<^verbatim>\<open>resource/object.go\<close>, \<^verbatim>\<open>resource/client.go\<close>, \<^verbatim>\<open>operator/errors.go\<close>): objects, identifiers,
      patch requests, errors as the datatype \<open>go_error\<close>, and the state monad \<open>io\<close>. Its \<open>world\<close> has the objects
      behind pointers, a trace of handler calls and client requests, a clock and the outside state.
    \<^item> \<open>Finalizers\<close> (\<^verbatim>\<open>operator/finalizers.go\<close>): adding, removing and replacing a finalizer, with the guard on the
      resource version and three retries on a conflict.
    \<^item> \<open>Opinionated_Watcher\<close> (\<^verbatim>\<open>operator/opinionatedwatcher.go\<close>, \<^verbatim>\<open>operator/simplewatcher.go\<close>) and
      \<open>Opinionated_Reconciler\<close> (\<^verbatim>\<open>operator/reconciler.go\<close>).
    \<^item> \<open>List_Map\<close> (\<^verbatim>\<open>operator/util.go\<close>), \<open>Go_Heap\<close> (the standard library's \<^verbatim>\<open>container/heap\<close>, as far as it is used),
      \<open>Retry_Policy\<close> and \<open>Retry_Processor\<close> (\<^verbatim>\<open>operator/retry_processor.go\<close>): retries in a heap per worker.
    \<^item> \<open>Informer_Controller\<close> (\<^verbatim>\<open>operator/informer_controller.go\<close>): registration, events, retries, requeues.
    \<^item> \<open>Event_Queues\<close> (\<^verbatim>\<open>operator/informer_processor.go\<close>, \<^verbatim>\<open>operator/concurrentwatcher.go\<close>,
      \<^verbatim>\<open>operator/informer_concurrent.go\<close>): the unbounded queue and workers chosen by a hash, as step relations.
    \<^item> \<open>Informer_Cache\<close> (\<^verbatim>\<open>operator/informer_customcache.go\<close>, \<^verbatim>\<open>operator/informer_kubernetes.go\<close>,
      \<^verbatim>\<open>operator/cache_memcached.go\<close>): deltas to handler calls and the store kept in memcached.
    \<^item> \<open>App_Runner\<close> and \<open>Singleton_Runner\<close> (\<^verbatim>\<open>app/runner.go\<close>): several runners at once, and one run that several
      calls share, as step relations; \<open>Operator_Runner\<close> (\<^verbatim>\<open>operator/runner.go\<close>): what a runner starts for an app.
    \<^item> \<open>Stores\<close> (\<^verbatim>\<open>resource/store.go\<close>, \<^verbatim>\<open>typedstore.go\<close>, \<^verbatim>\<open>simplestore.go\<close>, \<^verbatim>\<open>updater.go\<close>) and \<open>Typed_Objects\<close>
      (\<^verbatim>\<open>resource/typedobject.go\<close>, \<^verbatim>\<open>untypedobject.go\<close>).
    \<^item> \<open>K8s_Translation\<close> (\<^verbatim>\<open>k8s/translation.go\<close>), \<open>Dynamic_Patcher\<close> (\<^verbatim>\<open>k8s/dynamic.go\<close>, \<^verbatim>\<open>k8s/errors.go\<close>) and
      \<open>Admission\<close> (\<^verbatim>\<open>k8s/webhooks.go\<close>, \<^verbatim>\<open>k8s/admission.go\<close>, \<^verbatim>\<open>k8s/conversion.go\<close>, \<^verbatim>\<open>resource/admission.go\<close>).
    \<^item> \<open>Reflector\<close> (\<^verbatim>\<open>k8s/cache/reflector.go\<close>, \<^verbatim>\<open>k8s/cache/controller.go\<close>): the list and watch loop that fills the
      store of a custom cache informer, as a step relation with a server.
    \<^item> \<open>K8s_Client\<close> (\<^verbatim>\<open>k8s/gvclient.go\<close>, \<^verbatim>\<open>k8s/client.go\<close>, \<^verbatim>\<open>k8s/custom_route_client.go\<close>): requests and answers;
      \<open>Client_Registry\<close> (\<^verbatim>\<open>k8s/client_registry.go\<close>, \<^verbatim>\<open>k8s/schemaless.go\<close>, \<^verbatim>\<open>k8s/stream_error.go\<close>): where clients
      come from; \<open>K8s_Watch\<close> (the watches of \<^verbatim>\<open>k8s/gvclient.go\<close>): their goroutines as step relations.
    \<^item> \<open>Plugin_Router\<close> (\<^verbatim>\<open>plugin/router\<close>, \<^verbatim>\<open>plugin/errors.go\<close>): paths with variables, subrouters, middlewares, JSON
      handlers and the CRUD routes over a store.
    \<^item> An app in a Kubernetes API server (\<^verbatim>\<open>k8s/apiserver\<close>): \<open>API_Storage\<close> (\<^verbatim>\<open>strategy.go\<close>, \<^verbatim>\<open>storage.go\<close>, \<^verbatim>\<open>connector.go\<close>),
      what updates change and how a route finds its path; \<open>API_Admission\<close> (\<^verbatim>\<open>admission.go\<close>); \<open>API_Installer\<close> and
      \<open>API_Routes\<close> (\<^verbatim>\<open>installer.go\<close>), the scheme and what is served; \<open>API_Server\<close> (\<^verbatim>\<open>config.go\<close>, \<^verbatim>\<open>options.go\<close>).
    \<^item> \<open>CRD_Schema\<close> and \<open>Resource_Manager\<close> (\<^verbatim>\<open>k8s/manager.go\<close>): the schemas made of Go types by reflection, beside the
      documents that \<^verbatim>\<open>encoding/json\<close> makes of their values; registering a schema as a version of a definition.
    \<^item> \<open>Version_Schema\<close>, \<open>App_Manifest\<close> and \<open>Schema_Resolution\<close> (\<^verbatim>\<open>app/manifest.go\<close>), \<open>Manifest_Conversion\<close>
      (\<^verbatim>\<open>app/appmanifest/v1alpha1/conversion.go\<close>, \<^verbatim>\<open>v1alpha2/conversion.go\<close>), and \<open>Simple_App\<close> (\<^verbatim>\<open>simple/app.go\<close>,
      \<^verbatim>\<open>simple/watcher.go\<close>, \<^verbatim>\<open>simple/reconciler.go\<close>), which puts the parts together.

  \<^bold>\<open>How code becomes definitions.\<close> A struct is a record, an enumeration a datatype, a method a definition that
  takes and returns the state it changes. Errors are values; a nil interface or pointer is \<open>None\<close>; a panic is a
  value of its own (\<open>outcome\<close>, \<open>ran\<close>). Handlers, clients and policies that a user passes in are arguments, as are
  third-party libraries (the Kubernetes clients, the JSON codecs, memcached, hashing); what a theorem needs of
  them is a predicate named \<open>..._laws\<close> or \<open>..._law\<close> with an instance in its witness. Durations are 64-bit
  words where they can overflow and integers elsewhere. Concurrent parts are step relations, one step for each
  operation under a lock or on a channel. Ranges over Go maps are lists in any order. Error texts that only
  format another error leave that error's text out. Logging, tracing and metrics are left out.

  \<^bold>\<open>What the theorems show.\<close>
    \<^item> Delivery: an event reaches every handler in order whatever the others return, on an app built from its
      configuration too; failed handlers are retried once per event, when due and on their shard; an accepted delete leaves
      no retry of its object; events of one object stay in order through the queues; the handler calls of an informer replay what happened to its store.
    \<^item> Finalizers: the opinionated reconciler has exactly the runs of its contract; a handler has seen the deletion before the finalizer is removed; a completed create leaves the
      finalizer; conflicts are retried a bounded number of times; the requests are not changed on their way.
    \<^item> Caching: whatever errors and restarts come between, the reflector's store holds what the server had at the
      version it reports, never goes back, and can always catch up.
    \<^item> Requests: an update of a store loses no other writer's change as long as reads replace the object they are given (which
      a lemma shows of the REST client with a codec that replaces, and another one not to hold of a codec that merges, as the
      SDK's own does); a registry's client goes to the
      server of its kind; a watch delivers what arrives in order and panics only when misused; a router does the
      store's operation for a request of a kind.
    \<^item> Apps in an API server: the scheme holds every kind of every version, each declared custom route is served and
      calls the app with exactly what was asked, what an update through each endpoint stores, what the manifest declares for admission is enforced by the app's
      controllers, the mutated object included, and a server that starts is complete.
    \<^item> Running: the webhooks of an operator answer with the verdicts of the app's controllers for what the manifest
      declares; what several calls that share one run return, under every interleaving.
    \<^item> Types: a schema made of a plain struct type takes and keeps the documents of the type's values (the types it gets
      wrong are lemmas); what a registration sends has one stored version and keeps the others.
    \<^item> Contracts: the retry loop on conflicts, the priority queue, the store of retries and the storage of a kind's
      schemas are locales, interpreted on the model's own definitions; refinement theorems state what reconcilers, stores and informers implement.
    \<^item> Round trips: metadata, subresources and untyped objects through JSON, a manifest through
      its stored spec. Bounds: backoff delays, depth of a
      resolved schema. Admission: the webhooks fail closed, their controllers see the request of the HTTP body, and
      their patch yields the object that was returned.
    \<^item> Termination: every function is total. The list loop of the stores is a partial function shown to return
      on a server that pages; the key listing of the memcached store takes as fuel the number of its keys, which
      its lemmas show to be enough; schema resolution ends because each reference is entered once on a way down.

  \<^bold>\<open>Not modelled.\<close> The parts that only wire the others to HTTP servers, files and third-party frameworks: the
  OpenAPI documents of the API server, the command line, migration and code generation tools, the kubeconfig loader, health and metrics.
  The generated manifest kinds are data only.
\<close>

section \<open>Finalizers through the patch translation\<close>

text \<open>
  The requests the finalizer updater sends are not touched by the translation to Kubernetes:
  as long as \<^verbatim>\<open>finalizers\<close> and \<^verbatim>\<open>resourceVersion\<close> are metadata fields of Kubernetes, what is encoded is the
  request as the updater built it, in which the version guard is still a replacement of the
  \<^verbatim>\<open>resourceVersion\<close> and not a new annotation.
\<close>

lemma finalizer_requests_sent_unchanged:
  assumes "''finalizers'' \<in> set mf" "''resourceVersion'' \<in> set mf"
    and "req = add_request ob f \<or> req = replace_request ob i replaceWith \<or> req = remove_request ob fs"
  shows "marshalJSONPatch marshal mf req = (marshal (pr_Operations req), req)"
proof -
  have guard: "rewrite_op mf (rv_guard ob) = Inr (rv_guard ob)"
    by (rule whole_field_fixed [OF assms(2)]) (auto simp: rv_guard_def)
  have "rewrite_op mf op = Inr op" if "op \<in> set (pr_Operations req)" for op
  proof (cases "op = rv_guard ob")
    case False
    then have "po_Path op = ''/metadata/'' @ ''finalizers'' \<or> po_Path op = ''/metadata/'' @ ''finalizers'' @ CHR ''/'' # ''-'' \<or>
        po_Path op = ''/metadata/'' @ ''finalizers'' @ CHR ''/'' # show_nat i"
      using that assms(3) by (auto simp: add_request_def replace_request_def remove_request_def split: if_splits)
    then show ?thesis
      using whole_field_fixed [OF assms(1)] field_path_fixed [OF assms(1), of "''-''"]
        field_path_fixed [OF assms(1), of "show_nat i"] by auto
  qed (simp add: guard)
  then have "rewrite_ops mf (pr_Operations req) = (pr_Operations req, None)" by (rule rewrite_ops_fixed [OF ballI])
  then show ?thesis by (simp add: marshalJSONPatch_def)
qed

definition finalized_object :: object where
  "finalized_object = \<lparr>o_Group = ''g'', o_Version = ''v1'', o_Kind = ''Foo'', o_Namespace = ''ns'', o_Name = ''a'',
     o_ResourceVersion = ''7'', o_Generation = 1, o_DeletionTimestamp = None,
     o_Finalizers = Some [''b'', ''f''], o_Spec = []\<rparr>"

lemma finalizer_requests_sent_unchanged_witness:
  "marshalJSONPatch (\<lambda>ops. Inr (concat (map po_Path ops))) [''finalizers'', ''resourceVersion'']
     (remove_request finalized_object [''b'']) =
   (Inr ''/metadata/finalizers/metadata/resourceVersion'', remove_request finalized_object [''b''])"
  by (subst finalizer_requests_sent_unchanged [where ob = finalized_object and fs = "[''b'']"])
    (simp_all add: remove_request_def rv_guard_def)

end
